(* ===== verification/Task_Path.thy ===== *)
theory Task_Path
  imports Prelude
begin

text \<open>
  The breadth-first path search of \<open>shortestTransitionPath\<close>
  (\<open>packages/agent/src/tasks-domain/task-transition-path.ts\<close>), over any finite type of statuses.
  The loop state is the queue, the list of seen statuses and the map of predecessors, as in the
  source; the inner \<open>for\<close> over the successors of the dequeued status is \<open>visit_next\<close>, the walk
  back along \<open>previous\<close> is \<open>walk_back\<close>. The lemmas show that the answer is a legal walk, that no
  legal walk is shorter, and that \<open>null\<close> means there is none.
\<close>

section \<open>The search\<close>

text \<open>
  \<open>while (cursor !== from) \{ path.unshift(cursor); cursor = previous.get(cursor)! \}\<close>: a loop
  that would not stop if \<open>previous\<close> lost a link, hence an option result.
\<close>

partial_function (option) walk_back :: "'s \<Rightarrow> ('s \<rightharpoonup> 's) \<Rightarrow> 's \<Rightarrow> 's list \<Rightarrow> 's list option" where
  "walk_back from previous cursor path =
     (if cursor = from then Some path
      else (case previous cursor of
              None \<Rightarrow> None
            | Some p \<Rightarrow> walk_back from previous p (cursor # path)))"

datatype 's visit = Found "('s \<rightharpoonup> 's)" | Went "'s list" "'s list" "'s \<rightharpoonup> 's"

text \<open>The inner loop over \<open>allowed[current]\<close>: queue, seen and previous are threaded through.\<close>

fun visit_next :: "'s \<Rightarrow> 's \<Rightarrow> 's list \<Rightarrow> 's list \<Rightarrow> 's list \<Rightarrow> ('s \<rightharpoonup> 's) \<Rightarrow> 's visit" where
  "visit_next to current [] queue seen previous = Went queue seen previous"
| "visit_next to current (nxt # rest) queue seen previous =
     (if nxt \<in> set seen then visit_next to current rest queue seen previous
      else if nxt = to then Found (previous(nxt \<mapsto> current))
      else visit_next to current rest (queue @ [nxt]) (seen @ [nxt]) (previous(nxt \<mapsto> current)))"

lemma visit_next_grows:
  "visit_next to current nexts queue seen previous = Went q s p \<Longrightarrow>
     \<exists>new. q = queue @ new \<and> s = seen @ new \<and> distinct new \<and> set new \<inter> set seen = {}"
proof (induction to current nexts queue seen previous rule: visit_next.induct)
  case (1 to current queue seen previous)
  then show ?case by simp
next
  case (2 to current nxt rest queue seen previous)
  show ?case
  proof (cases "nxt \<in> set seen")
    case True
    with 2 show ?thesis by simp
  next
    case False
    with 2 show ?thesis by (fastforce split: if_splits)
  qed
qed

lemma unseen_shrinks:
  fixes seen new :: "'s::finite list"
  assumes "distinct new" "set new \<inter> set seen = {}"
  shows "card (UNIV - set (seen @ new)) + length new = card (UNIV - set seen)"
proof -
  have split: "UNIV - set seen = (UNIV - set (seen @ new)) \<union> set new"
    using assms(2) by auto
  have "card (UNIV - set seen) = card (UNIV - set (seen @ new)) + card (set new)"
    unfolding split by (rule card_Un_disjoint) auto
  then show ?thesis
    using assms(1) by (simp add: distinct_card)
qed

function bfs_loop :: "('s::finite \<Rightarrow> 's list) \<Rightarrow> 's \<Rightarrow> 's \<Rightarrow> 's list \<Rightarrow> 's list \<Rightarrow> ('s \<rightharpoonup> 's) \<Rightarrow> 's list option" where
  "bfs_loop allowed from to [] seen previous = None"
| "bfs_loop allowed from to (current # queue) seen previous =
     (case visit_next to current (allowed current) queue seen previous of
        Found prev' \<Rightarrow> walk_back from prev' current [to]
      | Went queue' seen' prev' \<Rightarrow> bfs_loop allowed from to queue' seen' prev')"
  by pat_completeness auto

termination
proof (relation "measure (\<lambda>(allowed, from, to, queue, seen, previous).
                   2 * card (UNIV - set seen) + length queue)", goal_cases)
  case 1
  show ?case by simp
next
  case (2 allowed _ _ current queue seen previous q s p)
  then obtain new where new: "q = queue @ new" "s = seen @ new" "distinct new" "set new \<inter> set seen = {}"
    using visit_next_grows by metis
  then show ?case
    using unseen_shrinks [OF new(3,4)] by simp
qed

definition shortestTransitionPath :: "('s::finite \<Rightarrow> 's list) \<Rightarrow> 's \<Rightarrow> 's \<Rightarrow> 's list option" where
  "shortestTransitionPath allowed from to =
     (if from = to then Some [] else bfs_loop allowed from to [from] [from] Map.empty)"

section \<open>Legal walks\<close>

text \<open>\<open>legal_walk allowed s path t\<close>: \<open>path\<close> lists the statuses after \<open>s\<close>, each reached by a legal
  move, the last one being \<open>t\<close>.\<close>

fun legal_walk :: "('s \<Rightarrow> 's list) \<Rightarrow> 's \<Rightarrow> 's list \<Rightarrow> 's \<Rightarrow> bool" where
  "legal_walk allowed s [] t \<longleftrightarrow> s = t"
| "legal_walk allowed s (x # xs) t \<longleftrightarrow> x \<in> set (allowed s) \<and> legal_walk allowed x xs t"

lemma legal_walk_append:
  "legal_walk allowed s (xs @ ys) t \<longleftrightarrow> (\<exists>m. legal_walk allowed s xs m \<and> legal_walk allowed m ys t)"
  by (induction xs arbitrary: s) auto

lemma legal_walk_snoc:
  "legal_walk allowed s (xs @ [x]) t \<longleftrightarrow> x = t \<and> (\<exists>m. legal_walk allowed s xs m \<and> x \<in> set (allowed m))"
  by (auto simp: legal_walk_append)

text \<open>The first status of a walk that lies outside a set it starts in.\<close>

lemma legal_walk_leaves:
  assumes "legal_walk allowed s xs t" "s \<in> S" "t \<notin> S"
  shows "\<exists>us y z vs. xs = us @ z # vs \<and> legal_walk allowed s us y \<and> y \<in> S \<and> z \<notin> S \<and> z \<in> set (allowed y)"
  using assms
proof (induction xs arbitrary: s)
  case Nil
  then show ?case by auto
next
  case (Cons x xs)
  show ?case
  proof (cases "x \<in> S")
    case True
    with Cons obtain us y z vs where
      "xs = us @ z # vs" "legal_walk allowed x us y" "y \<in> S" "z \<notin> S" "z \<in> set (allowed y)"
      by (metis legal_walk.simps(2))
    moreover from Cons.prems(1) have "x \<in> set (allowed s)" by simp
    ultimately have "x # xs = (x # us) @ z # vs \<and> legal_walk allowed s (x # us) y \<and> y \<in> S
        \<and> z \<notin> S \<and> z \<in> set (allowed y)"
      by simp
    then show ?thesis by blast
  next
    case False
    with Cons.prems have "x # xs = [] @ x # xs \<and> legal_walk allowed s [] s \<and> s \<in> S \<and> x \<notin> S
        \<and> x \<in> set (allowed s)"
      by simp
    then show ?thesis by blast
  qed
qed


section \<open>The loop invariant\<close>

text \<open>
  \<open>d\<close> is the distance of a seen status from the start, \<open>k\<close> the distance of the statuses being
  dequeued, \<open>busy\<close> the status whose successors are still being visited.
\<close>

definition bfs_ok ::
  "('s \<Rightarrow> 's list) \<Rightarrow> 's \<Rightarrow> 's \<Rightarrow> ('s \<Rightarrow> nat) \<Rightarrow> nat \<Rightarrow> 's set \<Rightarrow> 's list \<Rightarrow> 's list \<Rightarrow> ('s \<rightharpoonup> 's) \<Rightarrow> bool" where
  "bfs_ok allowed from to d k busy queue seen previous \<longleftrightarrow>
     from \<in> set seen \<and> d from = 0 \<and> to \<notin> set seen \<and> set queue \<subseteq> set seen \<and>
     sorted (map d queue) \<and> (\<forall>x\<in>set queue. k \<le> d x \<and> d x \<le> Suc k) \<and>
     (\<forall>x\<in>set seen. x = from \<or> (\<exists>y\<in>set seen. previous x = Some y \<and> x \<in> set (allowed y) \<and> d x = Suc (d y))) \<and>
     (\<forall>x\<in>set seen. \<forall>p. legal_walk allowed from p x \<longrightarrow> d x \<le> length p) \<and>
     (\<forall>x\<in>set seen. x \<in> set queue \<or> x \<in> busy \<or> set (allowed x) \<subseteq> set seen)"

lemma walk_back_ok:
  assumes chain: "\<forall>x\<in>set seen. x = from \<or>
      (\<exists>y\<in>set seen. previous x = Some y \<and> x \<in> set (allowed y) \<and> d x = Suc (d y))"
    and start: "d from = 0"
  shows "c \<in> set seen \<Longrightarrow> \<exists>q. walk_back from previous c acc = Some (q @ acc)
      \<and> legal_walk allowed from q c \<and> length q \<le> d c"
proof (induction "d c" arbitrary: c acc rule: less_induct)
  case less
  show ?case
  proof (cases "c = from")
    case True
    then have "walk_back from previous c acc = Some ([] @ acc) \<and> legal_walk allowed from [] c"
      by (simp add: walk_back.simps)
    then show ?thesis by (metis le0 list.size(3))
  next
    case False
    with chain less.prems obtain y where y: "y \<in> set seen" "previous c = Some y"
        "c \<in> set (allowed y)" "d c = Suc (d y)"
      by blast
    then obtain q where q: "walk_back from previous y (c # acc) = Some (q @ c # acc)"
        "legal_walk allowed from q y" "length q \<le> d y"
      using less.hyps [of y "c # acc"] by auto
    have "walk_back from previous c acc = Some ((q @ [c]) @ acc)"
      using False y(2) q(1) by (simp add: walk_back.simps)
    moreover have "legal_walk allowed from (q @ [c]) c"
      using q(2) y(3) by (auto simp: legal_walk_snoc)
    moreover have "length (q @ [c]) \<le> d c"
      using q(3) y(4) by simp
    ultimately show ?thesis by blast
  qed
qed

text \<open>A status not seen yet is at least one step further than the level being dequeued.\<close>

lemma unseen_is_further:
  assumes ok: "bfs_ok allowed from to d k busy queue seen previous"
    and busy: "\<forall>x\<in>busy. d x = k"
    and walk: "legal_walk allowed from p x" and unseen: "x \<notin> set seen"
  shows "Suc k \<le> length p"
proof -
  have "from \<in> set seen" using ok by (simp add: bfs_ok_def)
  then obtain us y z vs where leave: "p = us @ z # vs" "legal_walk allowed from us y"
      "y \<in> set seen" "z \<notin> set seen" "z \<in> set (allowed y)"
    using legal_walk_leaves [OF walk _ unseen] by blast
  then have "y \<in> set queue \<or> y \<in> busy"
    using ok by (auto simp: bfs_ok_def)
  then have "k \<le> d y"
    using ok busy by (auto simp: bfs_ok_def)
  also have "d y \<le> length us"
    using ok leave(2,3) by (simp add: bfs_ok_def)
  finally show ?thesis
    using leave(1) by simp
qed

lemma bfs_ok_enqueue:
  assumes ok: "bfs_ok allowed from to d k {current} queue seen previous"
    and cur: "current \<in> set seen" "d current = k" "nxt \<in> set (allowed current)"
    and new: "nxt \<notin> set seen" "nxt \<noteq> to"
  shows "bfs_ok allowed from to (d(nxt := Suc k)) k {current}
           (queue @ [nxt]) (seen @ [nxt]) (previous(nxt \<mapsto> current))"
proof -
  have from_ne: "from \<noteq> nxt" using ok new by (auto simp: bfs_ok_def)
  have out: "nxt \<notin> set queue" using ok new by (auto simp: bfs_ok_def)
  have levels: "map (d(nxt := Suc k)) queue = map d queue"
    using out by auto
  have near: "\<forall>p. legal_walk allowed from p nxt \<longrightarrow> Suc k \<le> length p"
    using unseen_is_further [OF ok] cur(2) new(1) by blast
  have link: "\<exists>y\<in>set (seen @ [nxt]). (previous(nxt \<mapsto> current)) x = Some y \<and> x \<in> set (allowed y)
       \<and> (d(nxt := Suc k)) x = Suc ((d(nxt := Suc k)) y)"
    if "x \<in> set (seen @ [nxt])" "x \<noteq> from" for x
  proof (cases "x = nxt")
    case True
    then show ?thesis using cur new(1) by auto
  next
    case False
    with that ok obtain y where "y \<in> set seen" "previous x = Some y" "x \<in> set (allowed y)" "d x = Suc (d y)"
      by (auto simp: bfs_ok_def)
    moreover from this new(1) have "y \<noteq> nxt" by auto
    ultimately show ?thesis using False by auto
  qed
  have sorted': "sorted (map (d(nxt := Suc k)) (queue @ [nxt]))"
    unfolding map_append levels using ok by (auto simp: bfs_ok_def sorted_append)
  let ?d = "d(nxt := Suc k)" and ?seen = "seen @ [nxt]" and ?prev = "previous(nxt \<mapsto> current)"
  have tree: "\<forall>x\<in>set ?seen. x = from \<or>
      (\<exists>y\<in>set ?seen. ?prev x = Some y \<and> x \<in> set (allowed y) \<and> ?d x = Suc (?d y))"
    using link by blast
  have least: "\<forall>x\<in>set ?seen. \<forall>p. legal_walk allowed from p x \<longrightarrow> ?d x \<le> length p"
    using ok near by (auto simp: bfs_ok_def)
  have levels': "\<forall>x\<in>set (queue @ [nxt]). k \<le> ?d x \<and> ?d x \<le> Suc k"
    using ok by (auto simp: bfs_ok_def)
  have closed: "\<forall>x\<in>set ?seen. x \<in> set (queue @ [nxt]) \<or> x \<in> {current} \<or> set (allowed x) \<subseteq> set ?seen"
    using ok by (auto simp: bfs_ok_def)
  have base: "from \<in> set ?seen \<and> ?d from = 0 \<and> to \<notin> set ?seen \<and> set (queue @ [nxt]) \<subseteq> set ?seen"
    using ok from_ne new(2) by (auto simp: bfs_ok_def)
  show ?thesis
    unfolding bfs_ok_def by (intro conjI) (use base sorted' levels' tree least closed in blast)+
qed

lemma visit_next_ok:
  assumes "bfs_ok allowed from to d k {current} queue seen previous"
    "current \<in> set seen" "d current = k" "set nexts \<subseteq> set (allowed current)"
  shows "case visit_next to current nexts queue seen previous of
      Went q s p \<Rightarrow> \<exists>d'. bfs_ok allowed from to d' k {current} q s p \<and> set nexts \<subseteq> set s
        \<and> d' current = k
    | Found p \<Rightarrow> to \<in> set (allowed current) \<and> (\<exists>d' q s. bfs_ok allowed from to d' k {current} q s (p(to := None))
        \<and> current \<in> set s \<and> d' current = k)"
  using assms
proof (induction to current nexts queue seen previous arbitrary: d rule: visit_next.induct)
  case (1 to current queue seen previous)
  then show ?case by auto
next
  case (2 to current nxt rest queue seen previous)
  consider (old) "nxt \<in> set seen" | (hit) "nxt \<notin> set seen" "nxt = to" | (new) "nxt \<notin> set seen" "nxt \<noteq> to"
    by blast
  then show ?case
  proof cases
    case old
    show ?thesis
    proof (cases "visit_next to current rest queue seen previous")
      case (Went q s p)
      then obtain new where "s = seen @ new"
        using visit_next_grows by metis
      then show ?thesis
        using "2.IH"(1) [OF old "2.prems"(1)] "2.prems"(2-4) old Went by fastforce
    next
      case (Found p)
      then show ?thesis using "2.IH"(1) [OF old "2.prems"(1)] "2.prems"(2-4) old by auto
    qed
  next
    case hit
    have "bfs_ok allowed from to d k {current} queue seen (previous(to := None))"
      using "2.prems"(1) by (auto simp: bfs_ok_def)
    then show ?thesis using hit "2.prems"(2-4) by auto
  next
    case new
    have ok': "bfs_ok allowed from to (d(nxt := Suc k)) k {current}
        (queue @ [nxt]) (seen @ [nxt]) (previous(nxt \<mapsto> current))"
      using bfs_ok_enqueue [OF "2.prems"(1)] "2.prems"(2-4) new by simp
    have d': "(d(nxt := Suc k)) current = k"
      using "2.prems"(2,3) new(1) by auto
    have cur': "current \<in> set (seen @ [nxt])" and sub: "set rest \<subseteq> set (allowed current)"
      using "2.prems"(2,4) by auto
    note ih = "2.IH"(2) [OF new ok' cur' d' sub]
    have step: "visit_next to current (nxt # rest) queue seen previous =
        visit_next to current rest (queue @ [nxt]) (seen @ [nxt]) (previous(nxt \<mapsto> current))"
      using new by simp
    show ?thesis
    proof (cases "visit_next to current rest (queue @ [nxt]) (seen @ [nxt]) (previous(nxt \<mapsto> current))")
      case (Went q s p)
      then obtain new' where "s = (seen @ [nxt]) @ new'"
        using visit_next_grows by metis
      then show ?thesis
        using ih unfolding step Went by auto
    next
      case (Found p)
      then show ?thesis using ih unfolding step Found by simp
    qed
  qed
qed


section \<open>Correctness of the search\<close>

lemma bfs_loop_correct:
  assumes "bfs_ok allowed from to d k {} queue seen previous"
    and "queue \<noteq> [] \<Longrightarrow> k = d (hd queue)"
  shows "case bfs_loop allowed from to queue seen previous of
      Some path \<Rightarrow> legal_walk allowed from path to
        \<and> (\<forall>p. legal_walk allowed from p to \<longrightarrow> length path \<le> length p)
    | None \<Rightarrow> \<not> (\<exists>p. legal_walk allowed from p to)"
  using assms
proof (induction allowed "from" to queue seen previous arbitrary: d k rule: bfs_loop.induct)
  case (1 allowed "from" to seen previous)
  have "\<not> legal_walk allowed from p to" for p
  proof
    assume walk: "legal_walk allowed from p to"
    obtain us y z vs where "y \<in> set seen" "z \<notin> set seen" "z \<in> set (allowed y)"
      using legal_walk_leaves [OF walk, of "set seen"] 1(1) by (auto simp: bfs_ok_def)
    then show False
      using 1(1) by (auto simp: bfs_ok_def)
  qed
  then show ?case by simp
next
  case (2 allowed "from" to current queue seen previous)
  have k: "k = d current" using 2(3) by simp
  have ok: "bfs_ok allowed from to d k {current} queue seen previous"
    using 2(2) by (auto simp: bfs_ok_def)
  have cur: "current \<in> set seen" using 2(2) by (auto simp: bfs_ok_def)
  note visit = visit_next_ok [OF ok cur k [symmetric] subset_refl, unfolded k]
  show ?case
  proof (cases "visit_next to current (allowed current) queue seen previous")
    case (Found p)
    obtain d' q s where hit: "to \<in> set (allowed current)" "bfs_ok allowed from to d' k {current} q s (p(to := None))"
        "current \<in> set s" "d' current = k"
      using visit unfolding Found k by auto
    have chain: "\<forall>x\<in>set s. x = from \<or>
        (\<exists>y\<in>set s. p x = Some y \<and> x \<in> set (allowed y) \<and> d' x = Suc (d' y))"
      using hit(2) by (auto simp: bfs_ok_def split: if_splits)
    have zero: "d' from = 0" using hit(2) by (simp add: bfs_ok_def)
    obtain w where w: "walk_back from p current [to] = Some (w @ [to])"
        "legal_walk allowed from w current" "length w \<le> k"
      using walk_back_ok [OF chain zero hit(3), of "[to]"] hit(4) by auto
    have "legal_walk allowed from (w @ [to]) to"
      using w(2) hit(1) by (auto simp: legal_walk_snoc)
    moreover have "Suc k \<le> length p'" if "legal_walk allowed from p' to" for p'
      using unseen_is_further [OF hit(2) _ that] hit(2,4) by (auto simp: bfs_ok_def)
    ultimately show ?thesis
      using w(1,3) by (fastforce simp: Found)
  next
    case (Went q s p)
    obtain d' where went: "bfs_ok allowed from to d' k {current} q s p" "set (allowed current) \<subseteq> set s"
      using visit unfolding Went k by auto
    have "bfs_ok allowed from to d' (d' (hd q)) {} q s p"
    proof (cases q)
      case Nil
      then show ?thesis using went by (auto simp: bfs_ok_def)
    next
      case (Cons h t)
      have "\<forall>x\<in>set q. d' h \<le> d' x \<and> d' x \<le> Suc (d' h)"
        using went(1) Cons by (force simp: bfs_ok_def)
      then show ?thesis
        using went Cons by (auto simp: bfs_ok_def)
    qed
    then show ?thesis
      using 2(1) [OF Went] by (simp add: Went)
  qed
qed

theorem shortestTransitionPath_correct:
  "case shortestTransitionPath allowed from to of
      Some path \<Rightarrow> legal_walk allowed from path to
        \<and> (\<forall>p. legal_walk allowed from p to \<longrightarrow> length path \<le> length p)
    | None \<Rightarrow> \<not> (\<exists>p. legal_walk allowed from p to)"
proof (cases "from = to")
  case True
  then show ?thesis by (simp add: shortestTransitionPath_def)
next
  case False
  have "bfs_ok allowed from to (\<lambda>_. 0) 0 {} [from] [from] Map.empty"
    using False by (simp add: bfs_ok_def)
  from bfs_loop_correct [OF this] show ?thesis
    using False by (simp add: shortestTransitionPath_def)
qed

lemma shortestTransitionPath_legal:
  "shortestTransitionPath allowed from to = Some path \<Longrightarrow> legal_walk allowed from path to"
  using shortestTransitionPath_correct [of allowed "from" to] by simp

lemma shortestTransitionPath_empty:
  "shortestTransitionPath allowed from to = Some [] \<longleftrightarrow> from = to"
proof
  assume "shortestTransitionPath allowed from to = Some []"
  then show "from = to" by (auto dest: shortestTransitionPath_legal)
qed (simp add: shortestTransitionPath_def)

end
