(* ===== verification/Task_Status.thy ===== *)
theory Task_Status
  imports Task_Path
begin

text \<open>
  The data of the Task state machine: statuses, the legal moves \<open>ALLOWED\<close>, the options of a move
  and their two hardening rules (\<open>withoutAgentForce\<close>, \<open>withAgentFanOutSuppressed\<close>) of
  \<open>packages/agent/src/tasks-domain/task-transition.service.ts\<close>, the binding label of
  \<open>awaiting-owner.ts\<close>, the operator switch of \<open>agent-block-lift.ts\<close> and the approver rule of
  \<open>task-agent-review.ts\<close>.
\<close>

section \<open>Statuses and legal moves\<close>

datatype task_status = BACKLOG | TODO | IN_PROGRESS | IN_REVIEW | BLOCKED | DONE | CANCELLED

lemma UNIV_task_status: "UNIV = {BACKLOG, TODO, IN_PROGRESS, IN_REVIEW, BLOCKED, DONE, CANCELLED}"
  using task_status.exhaust by auto

instantiation task_status :: finite
begin

instance
  by standard (simp add: UNIV_task_status)

end

fun ALLOWED :: "task_status \<Rightarrow> task_status list" where
  "ALLOWED BACKLOG = [TODO, CANCELLED]"
| "ALLOWED TODO = [IN_PROGRESS, BLOCKED, CANCELLED]"
| "ALLOWED IN_PROGRESS = [IN_REVIEW, BLOCKED, DONE, CANCELLED]"
| "ALLOWED IN_REVIEW = [IN_PROGRESS, BLOCKED, DONE, CANCELLED]"
| "ALLOWED BLOCKED = [TODO, IN_PROGRESS, CANCELLED]"
| "ALLOWED DONE = [IN_PROGRESS]"
| "ALLOWED CANCELLED = [BACKLOG, TODO]"

definition canTransition :: "task_status \<Rightarrow> task_status \<Rightarrow> bool" where
  "canTransition from to = (to \<in> set (ALLOWED from))"

lemma ALLOWED_moves: "to \<in> set (ALLOWED from) \<Longrightarrow> from \<noteq> to"
  by (cases "from") auto

section \<open>Rows\<close>

datatype actor = User | Agent

text \<open>The review planning memory kept on the Task row (\<open>agentReviewPlan*\<close> columns).\<close>

record review_plan =
  planKey :: "string option"
  planState :: "string option"
  planReason :: "string option"
  planAttempts :: "int option"
  planNextAt :: "int option"
  planStarted :: "int option"
  planLease :: "string option"

record task =
  task_id :: string
  status :: task_status
  previousStatus :: "task_status option"
  startedAt :: "int option"
  completedAt :: "int option"
  labels :: "string list option"
  requireAllApprovers :: bool
  workId :: "string option"
  prHeadSha :: "string option"
  ciHeadSha :: "string option"
  reviewPlan :: review_plan

datatype approval_state = Pending | Approved | Rejected

record approver =
  approverType :: actor
  approverId :: string
  approvalState :: approval_state
  decidedVia :: "string option"
  decidedHeadSha :: "string option"

record transition_options =
  force :: bool
  actorType :: "actor option"
  livePullRequestHeadSha :: "string option option"
  suppressAgentDispatch :: bool
  suppressAgentFanOut :: bool
  automaticRestore :: bool
  ownRunTask :: bool

definition default_options :: transition_options where
  "default_options = \<lparr>force = False, actorType = None, livePullRequestHeadSha = None,
     suppressAgentDispatch = False, suppressAgentFanOut = False, automaticRestore = False,
     ownRunTask = False\<rparr>"

section \<open>The two hardening rules on the options\<close>

definition withoutAgentForce :: "transition_options \<Rightarrow> transition_options" where
  "withoutAgentForce opts =
     (if actorType opts \<noteq> Some Agent \<or> \<not> force opts then opts else opts\<lparr>force := False\<rparr>)"

text \<open>\<open>AGENT_TRANSITIONS_NO_FANOUT\<close>: on unless the variable says \<open>false\<close>.\<close>

definition agentTransitionsNoFanOut :: "string option \<Rightarrow> bool" where
  "agentTransitionsNoFanOut env =
     (case env of None \<Rightarrow> True | Some v \<Rightarrow> js_lower (js_trim v) \<noteq> ''false'')"

definition withAgentFanOutSuppressed ::
  "transition_options \<Rightarrow> task_status \<Rightarrow> string option \<Rightarrow> transition_options" where
  "withAgentFanOutSuppressed opts to env =
     (if actorType opts \<noteq> Some Agent \<or> suppressAgentFanOut opts then opts
      else if \<not> agentTransitionsNoFanOut env then opts
      else if ownRunTask opts \<and> to \<noteq> IN_PROGRESS then opts
      else opts\<lparr>suppressAgentFanOut := True\<rparr>)"

text \<open>\<open>TASK_AGENT_BLOCK_LIFT_ALLOWED\<close>: off unless the variable says \<open>true\<close>.\<close>

definition agentMayLiftBlock :: "string option \<Rightarrow> bool" where
  "agentMayLiftBlock env =
     (js_lower (js_trim (case env of None \<Rightarrow> [] | Some v \<Rightarrow> v)) = ''true'')"

definition AWAITING_OWNER_LABEL :: string where
  "AWAITING_OWNER_LABEL = ''awaiting-owner''"

definition isAwaitingOwner :: "task \<Rightarrow> bool" where
  "isAwaitingOwner t = (case labels t of None \<Rightarrow> False | Some ls \<Rightarrow> AWAITING_OWNER_LABEL \<in> set ls)"

definition withoutAwaitingOwner :: "string list option \<Rightarrow> string list" where
  "withoutAwaitingOwner ls =
     filter (\<lambda>l. l \<noteq> AWAITING_OWNER_LABEL) (case ls of None \<Rightarrow> [] | Some xs \<Rightarrow> xs)"

lemma withoutAwaitingOwner_clears: "AWAITING_OWNER_LABEL \<notin> set (withoutAwaitingOwner ls)"
  by (simp add: withoutAwaitingOwner_def)

lemma withoutAgentForce_simps [simp]:
  "actorType (withoutAgentForce opts) = actorType opts"
  "suppressAgentDispatch (withoutAgentForce opts) = suppressAgentDispatch opts"
  "suppressAgentFanOut (withoutAgentForce opts) = suppressAgentFanOut opts"
  "automaticRestore (withoutAgentForce opts) = automaticRestore opts"
  "ownRunTask (withoutAgentForce opts) = ownRunTask opts"
  "livePullRequestHeadSha (withoutAgentForce opts) = livePullRequestHeadSha opts"
  "force (withoutAgentForce opts) \<longleftrightarrow> force opts \<and> actorType opts \<noteq> Some Agent"
  by (auto simp: withoutAgentForce_def)

lemma withAgentFanOutSuppressed_simps [simp]:
  "actorType (withAgentFanOutSuppressed opts to env) = actorType opts"
  "force (withAgentFanOutSuppressed opts to env) = force opts"
  "suppressAgentDispatch (withAgentFanOutSuppressed opts to env) = suppressAgentDispatch opts"
  "automaticRestore (withAgentFanOutSuppressed opts to env) = automaticRestore opts"
  "livePullRequestHeadSha (withAgentFanOutSuppressed opts to env) = livePullRequestHeadSha opts"
  by (auto simp: withAgentFanOutSuppressed_def)

section \<open>Approver decisions bound to a commit\<close>

definition is_hex_lower :: "char \<Rightarrow> bool" where
  "is_hex_lower c \<longleftrightarrow> c \<in> set ''0123456789abcdef''"

definition normalizeCommitSha :: "string option \<Rightarrow> string option" where
  "normalizeCommitSha sha =
     (case sha of None \<Rightarrow> None
      | Some s \<Rightarrow> (let t = js_lower (js_trim s) in
          if 7 \<le> length t \<and> length t \<le> 64 \<and> list_all is_hex_lower t then Some t else None))"

definition isCommitBoundApproverDecision :: "approver \<Rightarrow> bool" where
  "isCommitBoundApproverDecision row \<longleftrightarrow>
     approverType row = Agent \<or> decidedVia row = Some ''agent-review''"

definition approverDecisionCountsTowardDone :: "approver \<Rightarrow> string option \<Rightarrow> bool" where
  "approverDecisionCountsTowardDone row currentHead =
     (if approvalState row \<noteq> Approved then False
      else if \<not> isCommitBoundApproverDecision row then True
      else (case normalizeCommitSha currentHead of
              None \<Rightarrow> False
            | Some head \<Rightarrow> decidedVia row = Some ''agent-review''
                \<and> normalizeCommitSha (decidedHeadSha row) = Some head))"

text \<open>\<open>allApproved\<close>: the head resolver is consulted only when some row is bound to a commit.\<close>

definition allApproved :: "approver list \<Rightarrow> string option \<Rightarrow> bool" where
  "allApproved rows resolvedHead =
     (if rows = [] then True
      else if \<exists>row\<in>set rows. approvalState row \<noteq> Approved then False
      else (let head = (if \<exists>row\<in>set rows. isCommitBoundApproverDecision row then resolvedHead else None)
            in \<forall>row\<in>set rows. approverDecisionCountsTowardDone row head))"

definition resolveCompletionGateHead :: "task \<Rightarrow> string option" where
  "resolveCompletionGateHead t =
     (case normalizeCommitSha (prHeadSha t) of
        None \<Rightarrow> None
      | Some pr \<Rightarrow>
          (case normalizeCommitSha (ciHeadSha t) of
             None \<Rightarrow> Some pr
           | Some ci \<Rightarrow> if ci \<noteq> pr then None else Some pr))"

lemma allApproved_agent_head:
  assumes "allApproved rows head" "row \<in> set rows" "approverType row = Agent"
  shows "\<exists>h. normalizeCommitSha head = Some h \<and> normalizeCommitSha (decidedHeadSha row) = Some h
           \<and> approvalState row = Approved \<and> decidedVia row = Some ''agent-review''"
proof -
  have bound: "isCommitBoundApproverDecision row"
    using assms(3) by (simp add: isCommitBoundApproverDecision_def)
  then have "approverDecisionCountsTowardDone row head"
    using assms(1,2) by (auto simp: allApproved_def split: if_splits)
  then show ?thesis
    using bound by (auto simp: approverDecisionCountsTowardDone_def split: if_splits option.splits)
qed

lemma allApproved_all:
  "allApproved rows head \<Longrightarrow> row \<in> set rows \<Longrightarrow> approvalState row = Approved"
  by (auto simp: allApproved_def split: if_splits)

end
