(* ===== verification/Cas_Store.thy ===== *)
theory Cas_Store
  imports Main
begin

text \<open>
  What the services rely on when several writers race for a row: the compare-and-set of a row store. Its
  \<open>tag\<close> is the part of the row that the conditional update pins; the Task table and the fleet job table
  interpret it.
\<close>

locale cas_store =
  fixes cas :: "'k \<Rightarrow> 'v \<Rightarrow> ('r \<Rightarrow> 'r) \<Rightarrow> 's \<Rightarrow> bool \<times> 's"
    and row :: "'s \<Rightarrow> 'k \<Rightarrow> 'r option"
    and tag :: "'r \<Rightarrow> 'v"
  assumes cas_hit: "row s k = Some r \<Longrightarrow> tag r = v \<Longrightarrow> fst (cas k v f s) \<and> row (snd (cas k v f s)) k = Some (f r)"
    and cas_miss: "\<not> (\<exists>r. row s k = Some r \<and> tag r = v) \<Longrightarrow> cas k v f s = (False, s)"
    and cas_other: "k' \<noteq> k \<Longrightarrow> row (snd (cas k v f s)) k' = row s k'"
begin

lemma cas_wins_iff: "fst (cas k v f s) \<longleftrightarrow> (\<exists>r. row s k = Some r \<and> tag r = v)"
  using cas_hit cas_miss by (metis fst_conv)

lemma cas_lost_is_noop: "\<not> fst (cas k v f s) \<Longrightarrow> snd (cas k v f s) = s"
  using cas_hit cas_miss by (metis snd_conv)

text \<open>Two writers racing from the same observed tag: at most one lands when the tag changes.\<close>

lemma cas_one_winner:
  assumes "fst (cas k v f s)" and moves: "\<And>r. tag (f r) \<noteq> v"
  shows "\<not> fst (cas k v g (snd (cas k v f s)))"
proof -
  obtain r where "row s k = Some r" "tag r = v"
    using assms(1) cas_wins_iff by blast
  then have "row (snd (cas k v f s)) k = Some (f r)"
    using cas_hit by blast
  then show ?thesis
    using moves cas_wins_iff by auto
qed

end

end
