(* ===== verification/Task_Transition.thy ===== *)
theory Task_Transition
  imports Task_Status Cas_Store
begin

text \<open>
  \<open>TaskTransitionService.transition\<close>, \<open>transitionSync\<close> and the auto-unblock cascade of
  \<open>packages/agent/src/tasks-domain/task-transition.service.ts\<close>, over a store of Task rows.

  A move is: the guards on the caller's snapshot of the row, the compare-and-set
  (\<open>TaskRepository.casUpdateStatus\<close>), the re-read, the side effects. Other writers may act at every
  \<open>await\<close>; the two that matter (before the compare-and-set, before the re-read) are arguments of
  the model, arbitrary functions on the store, so that a theorem covers every interleaving.
  Side effects the service starts without waiting for them (agent runs, reviewer runs, the
  auto-unblock cascade, notifications) are values in the answer, in the order of the code.
\<close>

section \<open>The store and its compare-and-set\<close>

record store =
  tasks :: "string \<rightharpoonup> task"
  blocks :: "(string \<times> string) list"
  approvers :: "string \<Rightarrow> approver list"

definition casUpdateStatus ::
  "string \<Rightarrow> task_status \<Rightarrow> (task \<Rightarrow> task) \<Rightarrow> store \<Rightarrow> bool \<times> store" where
  "casUpdateStatus tid expected data st =
     (case tasks st tid of
        Some row \<Rightarrow> if status row = expected then (True, st\<lparr>tasks := (tasks st)(tid \<mapsto> data row)\<rparr>)
                    else (False, st)
      | None \<Rightarrow> (False, st))"

interpretation task_cas: cas_store casUpdateStatus tasks status
  by unfold_locales (auto simp: casUpdateStatus_def split: option.splits)

section \<open>What the service reads\<close>

text \<open>
  The collaborators of the service. The Work's checks policy, the latest run's gate, the provider's
  pull request head and the review plan key are read outside this file: they are functions here.
  \<open>None\<close> stands for a dependency that is not bound or a lookup that failed.
\<close>

record env =
  AGENT_TRANSITIONS_NO_FANOUT :: "string option"
  TASK_AGENT_BLOCK_LIFT_ALLOWED :: "string option"
  has_dispatcher :: bool
  has_assignees :: bool
  has_reviews :: bool
  has_notifications :: bool
  has_events :: bool
  checksPolicyOf :: "string \<Rightarrow> string option"
  latestGateStatus :: "string \<Rightarrow> string option"
  readLiveHead :: "(task \<Rightarrow> string option) option"
  reviewPlanKey :: "task \<Rightarrow> string option"
  freshLease :: string
  clock :: int

definition listOpenBlockerIds :: "store \<Rightarrow> string \<Rightarrow> string list" where
  "listOpenBlockerIds st taskId =
     filter (\<lambda>b. case tasks st b of
                   None \<Rightarrow> False
                 | Some t \<Rightarrow> status t \<noteq> DONE \<and> status t \<noteq> CANCELLED)
       (map snd (filter (\<lambda>(t, b). t = taskId) (blocks st)))"

definition resolveChecksPolicy :: "string option \<Rightarrow> string" where
  "resolveChecksPolicy policy =
     (case policy of
        None \<Rightarrow> ''off''
      | Some p \<Rightarrow> if p \<in> set [''off'', ''warn'', ''required''] then p else ''off'')"

definition findRefusingGateStatus :: "env \<Rightarrow> task \<Rightarrow> string option" where
  "findRefusingGateStatus e t =
     (case workId t of
        None \<Rightarrow> None
      | Some w \<Rightarrow>
          if resolveChecksPolicy (checksPolicyOf e w) \<noteq> ''required'' then None
          else (case latestGateStatus e (task_id t) of
                  None \<Rightarrow> None
                | Some g \<Rightarrow> if g = ''red'' \<or> g = ''skipped'' then Some g else None))"

definition resolveCompletionGateLiveHead :: "env \<Rightarrow> task \<Rightarrow> transition_options \<Rightarrow> string option" where
  "resolveCompletionGateLiveHead e t opts =
     (case livePullRequestHeadSha opts of
        Some given \<Rightarrow> normalizeCommitSha given
      | None \<Rightarrow>
          (case resolveCompletionGateHead t of
             None \<Rightarrow> None
           | Some recorded \<Rightarrow>
               (case readLiveHead e of
                  None \<Rightarrow> None
                | Some reader \<Rightarrow>
                    (case normalizeCommitSha (reader t) of
                       None \<Rightarrow> None
                     | Some live \<Rightarrow> if live = recorded then Some live else None))))"

section \<open>Refusals and side effects\<close>

record blocked_details =
  b_from :: task_status
  b_to :: task_status
  b_blockers :: "(string \<times> task_status option) list"
  b_pending :: "(actor \<times> string \<times> approval_state) list"
  b_path :: "task_status list"

datatype refusal =
    ForbiddenAwaitingOwner
  | ForbiddenBlockLift
  | BadRequestMove task_status task_status
  | ConflictBlockers task_status nat
  | ConflictGate string
  | ConflictApprovers
  | ConflictVanished
  | BadRequestNoPath task_status task_status
  | TransitionBlocked blocked_details
  | TransitionConflict task_status task_status "task_status list" task_status

text \<open>\<open>err instanceof ConflictException && !(err instanceof TaskTransitionBlockedException)\<close>; the
  conflict of a lost race extends \<open>ConflictException\<close> too, and is only thrown by the walk.\<close>

fun is_gate_conflict :: "refusal \<Rightarrow> bool" where
  "is_gate_conflict (ConflictBlockers _ _) = True"
| "is_gate_conflict (ConflictGate _) = True"
| "is_gate_conflict ConflictApprovers = True"
| "is_gate_conflict ConflictVanished = True"
| "is_gate_conflict (TransitionConflict _ _ _ _) = True"
| "is_gate_conflict _ = False"

fun is_bad_request :: "refusal \<Rightarrow> bool" where
  "is_bad_request (BadRequestMove _ _) = True"
| "is_bad_request (BadRequestNoPath _ _) = True"
| "is_bad_request _ = False"

datatype effect =
    DomainEvent string task_status task_status
  | FanOutAgentExecutions string
  | PlanAgentReviews string
  | AutoUnblock string bool bool
  | NotifyStatusChanged string task_status task_status
  | NotifyBlocked string "string option"
  | HopDone task_status task_status

section \<open>The guards of one move\<close>

text \<open>The checks of \<open>transition\<close> in the order of the code; \<open>opts\<close> is already hardened.\<close>

definition transition_guard ::
  "env \<Rightarrow> store \<Rightarrow> task \<Rightarrow> task_status \<Rightarrow> transition_options \<Rightarrow> refusal option" where
  "transition_guard e st t to opts =
     (let agent = (actorType opts = Some Agent); from = status t in
      if isAwaitingOwner t \<and> agent then Some ForbiddenAwaitingOwner
      else if from = BLOCKED \<and> to \<noteq> BLOCKED \<and> agent \<and> \<not> automaticRestore opts
          \<and> \<not> agentMayLiftBlock (TASK_AGENT_BLOCK_LIFT_ALLOWED e) then Some ForbiddenBlockLift
      else if to \<notin> set (ALLOWED from) then Some (BadRequestMove from to)
      else if (to = IN_PROGRESS \<or> to = DONE) \<and> listOpenBlockerIds st (task_id t) \<noteq> [] then
        Some (ConflictBlockers to (length (listOpenBlockerIds st (task_id t))))
      else if from = IN_PROGRESS \<and> to = IN_REVIEW \<and> agent \<and> \<not> force opts
          \<and> findRefusingGateStatus e t \<noteq> None then
        Some (ConflictGate (the (findRefusingGateStatus e t)))
      else if to = DONE \<and> \<not> force opts \<and> requireAllApprovers t
          \<and> \<not> allApproved (approvers st (task_id t)) (resolveCompletionGateLiveHead e t opts) then
        Some ConflictApprovers
      else None)"

section \<open>The patch\<close>

definition ownerStarts :: "task \<Rightarrow> task_status \<Rightarrow> transition_options \<Rightarrow> bool" where
  "ownerStarts t to opts \<longleftrightarrow>
     isAwaitingOwner t \<and> (to = TODO \<or> to = IN_PROGRESS) \<and> actorType opts \<noteq> Some Agent \<and>
     \<not> suppressAgentDispatch opts \<and> \<not> suppressAgentFanOut opts \<and> \<not> automaticRestore opts"

definition agentReviewPlanEntryReset :: "string \<Rightarrow> review_plan" where
  "agentReviewPlanEntryReset lease =
     \<lparr>planKey = None, planState = None, planReason = None, planAttempts = None,
      planNextAt = None, planStarted = None, planLease = Some lease\<rparr>"

text \<open>The columns written by the compare-and-set, computed from the snapshot and applied to the row.\<close>

definition transition_patch ::
  "env \<Rightarrow> task \<Rightarrow> task_status \<Rightarrow> transition_options \<Rightarrow> task \<Rightarrow> task" where
  "transition_patch e t to opts row =
     (let from = status t;
          row = row\<lparr>status := to\<rparr>;
          row = (if ownerStarts t to opts then row\<lparr>labels := Some (withoutAwaitingOwner (labels t))\<rparr> else row);
          row = (if to = IN_PROGRESS \<and> startedAt t = None then row\<lparr>startedAt := Some (clock e)\<rparr> else row);
          row = (if to = DONE then row\<lparr>completedAt := Some (clock e)\<rparr> else row);
          row = (if to = BLOCKED then row\<lparr>previousStatus := Some from\<rparr> else row);
          row = (if from = BLOCKED then row\<lparr>previousStatus := None\<rparr> else row)
      in if to = IN_REVIEW then
           row\<lparr>reviewPlan :=
             (let fresh = agentReviewPlanEntryReset (freshLease e) in
              if suppressAgentDispatch opts then
                (case reviewPlanKey e t of
                   None \<Rightarrow> fresh
                 | Some k \<Rightarrow> fresh\<lparr>planKey := Some k, planState := Some ''refused'',
                                  planReason := Some ''sync-entry''\<rparr>)
              else fresh)\<rparr>
         else row)"

section \<open>The side effects of a landed move\<close>

definition transition_effects ::
  "env \<Rightarrow> store \<Rightarrow> task \<Rightarrow> task \<Rightarrow> task_status \<Rightarrow> transition_options \<Rightarrow> effect list" where
  "transition_effects e st t refreshed to opts =
     (let from = status t; rid = task_id refreshed;
          holdForOwner = (isAwaitingOwner t \<and> \<not> ownerStarts t to opts) in
      (if to = IN_PROGRESS \<and> has_dispatcher e \<and> has_assignees e \<and> \<not> suppressAgentDispatch opts
          \<and> \<not> suppressAgentFanOut opts \<and> \<not> holdForOwner then [FanOutAgentExecutions rid] else []) @
      (if to = IN_REVIEW \<and> has_reviews e \<and> has_dispatcher e \<and> \<not> suppressAgentDispatch opts
       then [PlanAgentReviews rid] else []) @
      (if to = DONE \<or> to = CANCELLED
       then [AutoUnblock rid (suppressAgentDispatch opts) (suppressAgentFanOut opts)] else []) @
      (if has_notifications e then
         NotifyStatusChanged rid from to #
         (if to = BLOCKED then
            [NotifyBlocked rid (case listOpenBlockerIds st rid of [] \<Rightarrow> None | b # _ \<Rightarrow> Some b)] else [])
       else []))"

section \<open>One move\<close>

text \<open>
  \<open>rival1\<close> acts after the guards have read and before the compare-and-set, \<open>rival2\<close> between the
  compare-and-set and the re-read.
\<close>

definition transition ::
  "env \<Rightarrow> (store \<Rightarrow> store) \<Rightarrow> (store \<Rightarrow> store) \<Rightarrow> task \<Rightarrow> task_status \<Rightarrow> transition_options \<Rightarrow> store
     \<Rightarrow> (refusal + task) \<times> effect list \<times> store" where
  "transition e rival1 rival2 t to opts0 st =
     (let opts = withAgentFanOutSuppressed (withoutAgentForce opts0) to (AGENT_TRANSITIONS_NO_FANOUT e) in
      case transition_guard e st t to opts of
        Some r \<Rightarrow> (Inl r, [], st)
      | None \<Rightarrow>
          (case casUpdateStatus (task_id t) (status t) (transition_patch e t to opts) (rival1 st) of
             (False, st1) \<Rightarrow> (Inl (BadRequestMove (status t) to), [], st1)
           | (True, st1) \<Rightarrow>
               (let st2 = rival2 st1;
                    event = (if has_events e then [DomainEvent (task_id t) (status t) to] else []) in
                case tasks st2 (task_id t) of
                  None \<Rightarrow> (Inl ConflictVanished, event, st2)
                | Some refreshed \<Rightarrow>
                    (Inr refreshed, event @ transition_effects e st2 t refreshed to opts, st2))))"


section \<open>The sync walk\<close>

text \<open>\<open>transitionBlocked\<close>: what refuses the walk, with the approvers only when \<open>done\<close> was attempted.\<close>

definition transitionBlocked ::
  "store \<Rightarrow> task \<Rightarrow> task_status \<Rightarrow> task_status \<Rightarrow> task_status list \<Rightarrow> refusal" where
  "transitionBlocked st t from to attemptedPath =
     TransitionBlocked
       \<lparr>b_from = from, b_to = to,
        b_blockers = map (\<lambda>b. (b, map_option status (tasks st b))) (listOpenBlockerIds st (task_id t)),
        b_pending =
          (if DONE \<in> set attemptedPath then
             (let rows = approvers st (task_id t);
                  undecided = filter (\<lambda>r. approvalState r \<noteq> Approved) rows;
                  owing = (if undecided \<noteq> [] then undecided else filter (\<lambda>r. approverType r = Agent) rows)
              in map (\<lambda>r. (approverType r, approverId r,
                           if approvalState r = Rejected then Rejected else Pending)) owing)
           else []),
        b_path = attemptedPath\<rparr>"

text \<open>\<open>path.slice(0, i + 1)\<close> for the first hop with \<open>P\<close>, when there is one.\<close>

fun upto_first :: "('a \<Rightarrow> bool) \<Rightarrow> 'a list \<Rightarrow> 'a list option" where
  "upto_first P [] = None"
| "upto_first P (x # xs) = (if P x then Some [x] else map_option ((#) x) (upto_first P xs))"

definition assertSyncPathOpen ::
  "env \<Rightarrow> store \<Rightarrow> task \<Rightarrow> task_status \<Rightarrow> task_status \<Rightarrow> task_status list \<Rightarrow> transition_options
     \<Rightarrow> refusal option" where
  "assertSyncPathOpen e st t from to path opts =
     (case upto_first (\<lambda>hop. hop = IN_PROGRESS \<or> hop = DONE) path of
        Some prefix \<Rightarrow>
          if listOpenBlockerIds st (task_id t) \<noteq> [] then Some (transitionBlocked st t from to prefix)
          else (case upto_first (\<lambda>hop. hop = DONE) path of
                  Some prefix' \<Rightarrow>
                    if \<not> force opts \<and> requireAllApprovers t
                        \<and> \<not> allApproved (approvers st (task_id t)) (resolveCompletionGateLiveHead e t opts)
                    then Some (transitionBlocked st t from to prefix') else None
                | None \<Rightarrow> None)
      | None \<Rightarrow> None)"

definition hop_options :: "transition_options \<Rightarrow> transition_options" where
  "hop_options opts =
     (if suppressAgentFanOut opts then opts\<lparr>suppressAgentFanOut := True\<rparr>
      else opts\<lparr>suppressAgentDispatch := True\<rparr>)"

definition hop_error ::
  "store \<Rightarrow> task \<Rightarrow> task_status \<Rightarrow> task_status \<Rightarrow> task_status list \<Rightarrow> refusal \<Rightarrow> refusal" where
  "hop_error st current from to attempted r =
     (if is_gate_conflict r then transitionBlocked st current from to attempted
      else if is_bad_request r then
        (case tasks st (task_id current) of
           Some latest \<Rightarrow>
             if status latest \<noteq> status current
             then TransitionConflict from to attempted (status latest) else r
         | None \<Rightarrow> r)
      else r)"

text \<open>The loop over the hops. \<open>rival n\<close> is what other writers do at the \<open>n\<close>-th gap.\<close>

fun walk_hops ::
  "env \<Rightarrow> (nat \<Rightarrow> store \<Rightarrow> store) \<Rightarrow> nat \<Rightarrow> task_status \<Rightarrow> task_status \<Rightarrow> transition_options
     \<Rightarrow> task_status list \<Rightarrow> task_status list \<Rightarrow> task \<Rightarrow> store
     \<Rightarrow> (refusal + task \<times> task_status list) \<times> effect list \<times> store" where
  "walk_hops e rival n from to opts walked [] current st = (Inr (current, walked), [], st)"
| "walk_hops e rival n from to opts walked (hop # rest) current st =
     (case transition e (rival n) (rival (n + 1)) current hop (hop_options opts) st of
        (Inl r, effs, st') \<Rightarrow> (Inl (hop_error st' current from to (walked @ [hop]) r), effs, st')
      | (Inr current', effs, st') \<Rightarrow>
          (let effs = effs @ [HopDone (if walked = [] then from else last walked) hop] in
           if status current' \<noteq> hop then
             (Inl (TransitionConflict from to (walked @ [hop]) (status current')), effs, st')
           else (case walk_hops e rival (n + 2) from to opts (walked @ [hop]) rest current' st' of
                   (res, effs', st'') \<Rightarrow> (res, effs @ effs', st''))))"

definition transitionSync ::
  "env \<Rightarrow> (nat \<Rightarrow> store \<Rightarrow> store) \<Rightarrow> task \<Rightarrow> task_status \<Rightarrow> transition_options \<Rightarrow> store
     \<Rightarrow> (refusal + task \<times> task_status list) \<times> effect list \<times> store" where
  "transitionSync e rival t to opts0 st =
     (let opts = withoutAgentForce opts0; from = status t in
      case shortestTransitionPath ALLOWED from to of
        None \<Rightarrow> (Inl (BadRequestNoPath from to), [], st)
      | Some [] \<Rightarrow> (Inr (t, []), [], st)
      | Some path \<Rightarrow>
          (case assertSyncPathOpen e st t from to path opts of
             Some r \<Rightarrow> (Inl r, [], st)
           | None \<Rightarrow> walk_hops e rival 0 from to opts [] path t st))"

section \<open>The auto-unblock cascade\<close>

definition tryUnblockSingleTask ::
  "env \<Rightarrow> (nat \<Rightarrow> store \<Rightarrow> store) \<Rightarrow> nat \<Rightarrow> string \<Rightarrow> bool \<Rightarrow> bool \<Rightarrow> store \<Rightarrow> bool \<times> effect list \<times> store" where
  "tryUnblockSingleTask e rival n taskId noDispatch noFanOut st =
     (case tasks st taskId of
        None \<Rightarrow> (False, [], st)
      | Some blocked \<Rightarrow>
          if status blocked \<noteq> BLOCKED then (False, [], st)
          else if listOpenBlockerIds st taskId \<noteq> [] then (False, [], st)
          else
            (let restoreTo = (case previousStatus blocked of None \<Rightarrow> TODO | Some p \<Rightarrow> p) in
             case transition e (rival n) (rival (n + 1)) blocked restoreTo
                    (default_options\<lparr>suppressAgentDispatch := noDispatch,
                      suppressAgentFanOut := noFanOut, automaticRestore := True\<rparr>) st of
               (Inr _, effs, st') \<Rightarrow> (True, effs, st')
             | (Inl _, effs, st') \<Rightarrow> (False, effs, st')))"

fun unblock_each ::
  "env \<Rightarrow> (nat \<Rightarrow> store \<Rightarrow> store) \<Rightarrow> nat \<Rightarrow> string list \<Rightarrow> bool \<Rightarrow> bool \<Rightarrow> store
     \<Rightarrow> string list \<times> effect list \<times> store" where
  "unblock_each e rival n [] noDispatch noFanOut st = ([], [], st)"
| "unblock_each e rival n (i # ids) noDispatch noFanOut st =
     (case tryUnblockSingleTask e rival n i noDispatch noFanOut st of
        (ok, effs, st') \<Rightarrow>
          (case unblock_each e rival (n + 2) ids noDispatch noFanOut st' of
             (done, effs', st'') \<Rightarrow> ((if ok then i # done else done), effs @ effs', st'')))"

definition autoUnblockResolvedTasks ::
  "env \<Rightarrow> (nat \<Rightarrow> store \<Rightarrow> store) \<Rightarrow> string \<Rightarrow> bool \<Rightarrow> bool \<Rightarrow> store \<Rightarrow> string list \<times> effect list \<times> store" where
  "autoUnblockResolvedTasks e rival blockerTaskId noDispatch noFanOut st =
     unblock_each e rival 0 (map fst (filter (\<lambda>(t, b). b = blockerTaskId) (blocks st)))
       noDispatch noFanOut st"

end
