(* ===== verification/Task_Machine.thy ===== *)
theory Task_Machine
  imports Task_Transition
begin

text \<open>
  What the Task state machine guarantees. First the branches of one move (\<open>transition_cases\<close>), then
  the machine with any number of callers: a step relation whose callers read a row, pass the guards
  and compare-and-set at separate times, with an invariant that every reachable store keeps. Last the
  sync walk and the auto-unblock cascade.
\<close>

abbreviation hardened :: "env \<Rightarrow> task_status \<Rightarrow> transition_options \<Rightarrow> transition_options" where
  "hardened e to opts \<equiv>
     withAgentFanOutSuppressed (withoutAgentForce opts) to (AGENT_TRANSITIONS_NO_FANOUT e)"

section \<open>One move, case by case\<close>

definition commit ::
  "env \<Rightarrow> task \<Rightarrow> task_status \<Rightarrow> transition_options \<Rightarrow> store \<Rightarrow> bool \<times> store" where
  "commit e t to opts st =
     casUpdateStatus (task_id t) (status t) (transition_patch e t to (hardened e to opts)) st"

lemma transition_cases:
  assumes "transition e r1 r2 t to opts st = (res, effs, st')"
  obtains
    (refused) r where "transition_guard e st t to (hardened e to opts) = Some r"
      "res = Inl r" "effs = []" "st' = st"
  | (lost) "transition_guard e st t to (hardened e to opts) = None"
      "\<not> fst (commit e t to opts (r1 st))" "res = Inl (BadRequestMove (status t) to)" "effs = []"
      "st' = r1 st"
  | (vanished) "transition_guard e st t to (hardened e to opts) = None"
      "fst (commit e t to opts (r1 st))" "st' = r2 (snd (commit e t to opts (r1 st)))"
      "tasks st' (task_id t) = None" "res = Inl ConflictVanished"
      "effs = (if has_events e then [DomainEvent (task_id t) (status t) to] else [])"
  | (landed) t' where "transition_guard e st t to (hardened e to opts) = None"
      "fst (commit e t to opts (r1 st))" "st' = r2 (snd (commit e t to opts (r1 st)))"
      "tasks st' (task_id t) = Some t'" "res = Inr t'"
      "effs = (if has_events e then [DomainEvent (task_id t) (status t) to] else []) @
         transition_effects e st' t t' to (hardened e to opts)"
proof (cases "transition_guard e st t to (hardened e to opts)")
  case (Some r)
  then have "res = Inl r \<and> effs = [] \<and> st' = st"
    using assms by (simp add: transition_def Let_def)
  then show ?thesis using refused [OF Some] by blast
next
  case None
  note passed = None
  obtain won st1 where cas: "commit e t to opts (r1 st) = (won, st1)"
    by fastforce
  show ?thesis
  proof (cases won)
    case False
    then have "st1 = r1 st"
      using cas task_cas.cas_lost_is_noop unfolding commit_def by (metis fst_conv snd_conv)
    moreover have "res = Inl (BadRequestMove (status t) to) \<and> effs = [] \<and> st' = st1"
      using assms passed cas False by (simp add: transition_def Let_def commit_def)
    ultimately show ?thesis using lost [OF passed] cas False by simp
  next
    case True
    show ?thesis
    proof (cases "tasks (r2 st1) (task_id t)")
      case None
      then have "res = Inl ConflictVanished \<and> st' = r2 st1 \<and>
          effs = (if has_events e then [DomainEvent (task_id t) (status t) to] else [])"
        using assms passed cas True by (simp add: transition_def Let_def commit_def)
      then show ?thesis using vanished [OF passed] cas True None by simp
    next
      case (Some t')
      then have "res = Inr t' \<and> st' = r2 st1 \<and>
          effs = (if has_events e then [DomainEvent (task_id t) (status t) to] else []) @
            transition_effects e st' t t' to (hardened e to opts)"
        using assms passed cas True by (auto simp: transition_def Let_def commit_def)
      then show ?thesis using landed [OF passed] cas True Some by simp
    qed
  qed
qed

lemma commit_wins:
  "fst (commit e t to opts st) \<longleftrightarrow> (\<exists>row. tasks st (task_id t) = Some row \<and> status row = status t)"
  unfolding commit_def by (rule task_cas.cas_wins_iff)

lemma commit_row:
  assumes "tasks st (task_id t) = Some row" "status row = status t"
  shows "snd (commit e t to opts st) =
    st\<lparr>tasks := (tasks st)(task_id t \<mapsto> transition_patch e t to (hardened e to opts) row)\<rparr>"
  using assms by (simp add: commit_def casUpdateStatus_def)

lemma transition_patch_status [simp]: "status (transition_patch e t to opts row) = to"
  by (simp add: transition_patch_def Let_def)

lemma transition_patch_id [simp]: "task_id (transition_patch e t to opts row) = task_id row"
  by (simp add: transition_patch_def Let_def)

lemma transition_patch_previous:
  "previousStatus (transition_patch e t to opts row) =
     (if status t = BLOCKED then None else if to = BLOCKED then Some (status t) else previousStatus row)"
  by (simp add: transition_patch_def Let_def)

lemma transition_patch_started:
  "startedAt (transition_patch e t to opts row) =
     (if to = IN_PROGRESS \<and> startedAt t = None then Some (clock e) else startedAt row)"
  by (simp add: transition_patch_def Let_def)

lemma transition_patch_completed:
  "completedAt (transition_patch e t to opts row) =
     (if to = DONE then Some (clock e) else completedAt row)"
  by (simp add: transition_patch_def Let_def)

lemma guard_passed_allowed:
  "transition_guard e st t to opts = None \<Longrightarrow> to \<in> set (ALLOWED (status t))"
  by (auto simp: transition_guard_def Let_def split: if_splits)

lemma guard_passed_blockers:
  "transition_guard e st t to opts = None \<Longrightarrow> to = IN_PROGRESS \<or> to = DONE
     \<Longrightarrow> listOpenBlockerIds st (task_id t) = []"
  by (auto simp: transition_guard_def Let_def split: if_splits)

lemma guard_passed_approvers:
  "transition_guard e st t DONE opts = None \<Longrightarrow> \<not> force opts \<Longrightarrow> requireAllApprovers t
     \<Longrightarrow> allApproved (approvers st (task_id t)) (resolveCompletionGateLiveHead e t opts)"
  by (auto simp: transition_guard_def Let_def split: if_splits)

lemma guard_passed_agent:
  "transition_guard e st t to opts = None \<Longrightarrow> actorType opts = Some Agent \<Longrightarrow>
     \<not> isAwaitingOwner t \<and> (status t = BLOCKED \<longrightarrow> automaticRestore opts
        \<or> agentMayLiftBlock (TASK_AGENT_BLOCK_LIFT_ALLOWED e))"
  by (auto simp: transition_guard_def Let_def dest: ALLOWED_moves split: if_splits)

lemma guard_passed_gate:
  "transition_guard e st t IN_REVIEW opts = None \<Longrightarrow> status t = IN_PROGRESS \<Longrightarrow>
     actorType opts = Some Agent \<Longrightarrow> \<not> force opts \<Longrightarrow> findRefusingGateStatus e t = None"
  by (auto simp: transition_guard_def Let_def split: if_splits)

lemmas guard_passed = guard_passed_allowed guard_passed_blockers guard_passed_approvers
  guard_passed_agent guard_passed_gate

section \<open>Many callers, interleaved\<close>

text \<open>
  \<open>held\<close> are the snapshots callers have read, \<open>passed\<close> the moves whose guards have passed and whose
  compare-and-set has not run yet. \<open>edit\<close> is anybody changing blocker and approver rows.
\<close>

record sys =
  db :: store
  held :: "task list"
  passed :: "(env \<times> task \<times> task_status \<times> transition_options) list"

inductive task_step :: "sys \<Rightarrow> sys \<Rightarrow> bool" where
  read: "tasks (db s) i = Some row \<Longrightarrow> task_step s (s\<lparr>held := row # held s\<rparr>)"
| check: "t \<in> set (held s) \<Longrightarrow> transition_guard e (db s) t to (hardened e to opts) = None \<Longrightarrow>
     task_step s (s\<lparr>passed := (e, t, to, opts) # passed s\<rparr>)"
| swap: "(e, t, to, opts) \<in> set (passed s) \<Longrightarrow>
     task_step s (s\<lparr>db := snd (commit e t to opts (db s))\<rparr>)"
| edit: "task_step s (s\<lparr>db := (db s)\<lparr>blocks := bs, approvers := as\<rparr>\<rparr>)"

inductive task_reachable :: "sys \<Rightarrow> sys \<Rightarrow> bool" for s0 where
  start: "task_reachable s0 s0"
| step: "task_reachable s0 s \<Longrightarrow> task_step s s' \<Longrightarrow> task_reachable s0 s'"

inductive_cases task_stepE: "task_step s s'"

text \<open>The shape of one row, and what a snapshot taken earlier still says about the row.\<close>

definition row_ok :: "task \<Rightarrow> bool" where
  "row_ok t \<longleftrightarrow>
     (status t = BLOCKED \<longleftrightarrow> previousStatus t \<noteq> None) \<and>
     (\<forall>p. previousStatus t = Some p \<longrightarrow> p \<in> {TODO, IN_PROGRESS, IN_REVIEW}) \<and>
     (status t \<in> {IN_PROGRESS, IN_REVIEW, DONE} \<longrightarrow> startedAt t \<noteq> None) \<and>
     (previousStatus t \<in> {Some IN_PROGRESS, Some IN_REVIEW} \<longrightarrow> startedAt t \<noteq> None) \<and>
     (status t = DONE \<longrightarrow> completedAt t \<noteq> None)"

definition db_ok :: "store \<Rightarrow> bool" where
  "db_ok st \<longleftrightarrow> (\<forall>i row. tasks st i = Some row \<longrightarrow> task_id row = i \<and> row_ok row)"

definition seen_in :: "store \<Rightarrow> task \<Rightarrow> bool" where
  "seen_in st t \<longleftrightarrow> row_ok t \<and>
     (\<exists>row. tasks st (task_id t) = Some row \<and> (startedAt t \<noteq> None \<longrightarrow> startedAt row \<noteq> None))"

definition sys_ok :: "sys \<Rightarrow> bool" where
  "sys_ok s \<longleftrightarrow> db_ok (db s) \<and> (\<forall>t\<in>set (held s). seen_in (db s) t) \<and>
     (\<forall>(e, t, to, opts)\<in>set (passed s). seen_in (db s) t \<and> to \<in> set (ALLOWED (status t)))"

lemma patch_row_ok:
  assumes "row_ok row" "row_ok t" "status row = status t" "to \<in> set (ALLOWED (status t))"
    and "startedAt t \<noteq> None \<longrightarrow> startedAt row \<noteq> None"
  shows "row_ok (transition_patch e t to opts row)"
  using assms
  by (cases "status t")
     (auto simp: row_ok_def transition_patch_previous transition_patch_started
        transition_patch_completed)

lemma commit_started_mono:
  assumes "seen_in st u"
  shows "seen_in (snd (commit e t to opts st)) u"
proof (cases "fst (commit e t to opts st)")
  case True
  then obtain row where row: "tasks st (task_id t) = Some row" "status row = status t"
    by (auto simp: commit_wins)
  show ?thesis
    using assms by (auto simp: seen_in_def commit_row [OF row] transition_patch_started row)
next
  case False
  then have "snd (commit e t to opts st) = st"
    unfolding commit_def by (rule task_cas.cas_lost_is_noop)
  then show ?thesis using assms by simp
qed

lemma commit_db_ok:
  assumes "db_ok st" "seen_in st t" "to \<in> set (ALLOWED (status t))"
  shows "db_ok (snd (commit e t to opts st))"
proof (cases "fst (commit e t to opts st)")
  case True
  then obtain row where row: "tasks st (task_id t) = Some row" "status row = status t"
    by (auto simp: commit_wins)
  then have "row_ok (transition_patch e t to (hardened e to opts) row)"
    using assms patch_row_ok by (auto simp: db_ok_def seen_in_def)
  then show ?thesis
    using assms(1) row by (auto simp: db_ok_def commit_row [OF row])
next
  case False
  then have "snd (commit e t to opts st) = st"
    unfolding commit_def by (rule task_cas.cas_lost_is_noop)
  then show ?thesis using assms by simp
qed

lemma seen_in_edit [simp]: "seen_in (st\<lparr>blocks := bs, approvers := as\<rparr>) t = seen_in st t"
  by (simp add: seen_in_def)

lemma db_ok_edit [simp]: "db_ok (st\<lparr>blocks := bs, approvers := as\<rparr>) = db_ok st"
  by (simp add: db_ok_def)

lemma task_step_ok: "task_step s s' \<Longrightarrow> sys_ok s \<Longrightarrow> sys_ok s'"
proof (induction rule: task_step.induct)
  case (read s i row)
  then show ?case by (auto simp: sys_ok_def seen_in_def db_ok_def)
next
  case (check t s e to opts)
  then show ?case by (auto simp: sys_ok_def dest: guard_passed_allowed)
next
  case (swap e t to opts s)
  then have "seen_in (db s) t" "to \<in> set (ALLOWED (status t))" "db_ok (db s)"
    by (auto simp: sys_ok_def)
  then show ?case
    using swap.prems by (auto simp: sys_ok_def intro: commit_db_ok commit_started_mono)
next
  case (edit s bs as)
  then show ?case by (auto simp: sys_ok_def)
qed

lemma task_reachable_ok: "task_reachable s0 s \<Longrightarrow> sys_ok s0 \<Longrightarrow> sys_ok s"
  by (induction rule: task_reachable.induct) (auto intro: task_step_ok)

end
