(* ===== verification/Task_Claims.thy ===== *)
theory Task_Claims
  imports Task_Machine
begin

text \<open>
  The properties of the Task state machine, with the lemmas on the sync walk and on the cascade
  that they need.
\<close>

section \<open>Side effects of a move\<close>

lemma effects_no_fanout:
  "suppressAgentDispatch opts \<or> suppressAgentFanOut opts \<Longrightarrow>
     FanOutAgentExecutions i \<notin> set (transition_effects e st t t' to opts)"
  by (auto simp: transition_effects_def Let_def split: if_splits list.splits)

lemma effects_no_review:
  "suppressAgentDispatch opts \<Longrightarrow> PlanAgentReviews i \<notin> set (transition_effects e st t t' to opts)"
  by (auto simp: transition_effects_def Let_def split: if_splits list.splits)


lemma hardened_fanout_mono:
  "suppressAgentFanOut opts \<Longrightarrow> suppressAgentFanOut (hardened e to opts)"
  by (auto simp: withAgentFanOutSuppressed_def)


lemma transition_no_fanout:
  assumes "transition e r1 r2 t to opts st = (res, effs, st')"
    and "suppressAgentDispatch opts \<or> suppressAgentFanOut (hardened e to opts)"
  shows "FanOutAgentExecutions i \<notin> set effs"
  using assms(1)
proof (cases rule: transition_cases)
  case landed
  then show ?thesis using effects_no_fanout assms(2) by auto
qed auto

lemma transition_no_review:
  assumes "transition e r1 r2 t to opts st = (res, effs, st')" "suppressAgentDispatch opts"
  shows "PlanAgentReviews i \<notin> set effs"
  using assms(1)
proof (cases rule: transition_cases)
  case landed
  then show ?thesis using effects_no_review assms(2) by auto
qed auto

lemma transition_success:
  assumes "transition e r1 r2 t to opts st = (Inr t', effs, st')"
  shows "transition_guard e st t to (hardened e to opts) = None \<and> tasks st' (task_id t) = Some t'"
  using assms by (cases rule: transition_cases) auto

section \<open>The sync walk\<close>

lemma hop_options_simps [simp]:
  "actorType (hop_options opts) = actorType opts"
  "force (hop_options opts) = force opts"
  by (auto simp: hop_options_def)

lemma hop_options_quiet:
  "suppressAgentDispatch (hop_options opts) \<or> suppressAgentFanOut (hardened e to (hop_options opts))"
  using hardened_fanout_mono by (auto simp: hop_options_def)

lemma walk_hops_success:
  "walk_hops e rival n from to opts walked path cur st = (Inr (t', w), effs, st') \<Longrightarrow>
     w = walked @ path \<and> (if path = [] then t' = cur else status t' = last path)
     \<and> (path \<noteq> [] \<longrightarrow> (\<exists>i. tasks st' i = Some t'))
     \<and> (\<forall>i. FanOutAgentExecutions i \<notin> set effs)
     \<and> (\<not> suppressAgentFanOut opts \<longrightarrow> (\<forall>i. PlanAgentReviews i \<notin> set effs))"
proof (induction e rival n "from" to opts walked path cur st arbitrary: effs
    rule: walk_hops.induct)
  case (1 e rival n "from" to opts walked current st)
  then show ?case by auto
next
  case (2 e rival n "from" to opts walked hop rest current st)
  obtain cur' effs1 st1 where hop: "transition e (rival n) (rival (n + 1)) current hop (hop_options opts) st
      = (Inr cur', effs1, st1)"
    using "2.prems" by (auto split: prod.splits sum.splits)
  have here: "status cur' = hop"
    using "2.prems" hop by (auto simp: Let_def split: if_splits prod.splits)
  then obtain effs2 where rest: "walk_hops e rival (n + 2) from to opts (walked @ [hop]) rest cur' st1
      = (Inr (t', w), effs2, st')"
    and effs: "effs = (effs1 @ [HopDone (if walked = [] then from else last walked) hop]) @ effs2"
    using "2.prems" hop by (auto simp: Let_def split: prod.splits)
  have ih: "w = (walked @ [hop]) @ rest \<and> (if rest = [] then t' = cur' else status t' = last rest)
     \<and> (rest \<noteq> [] \<longrightarrow> (\<exists>i. tasks st' i = Some t'))
     \<and> (\<forall>i. FanOutAgentExecutions i \<notin> set effs2)
     \<and> (\<not> suppressAgentFanOut opts \<longrightarrow> (\<forall>i. PlanAgentReviews i \<notin> set effs2))"
    using "2.IH" [OF hop [symmetric]] here rest by auto
  have stay: "rest = [] \<Longrightarrow> st' = st1" using rest by auto
  have "FanOutAgentExecutions i \<notin> set effs1" for i
    using transition_no_fanout [OF hop] hop_options_quiet by blast
  moreover have "PlanAgentReviews i \<notin> set effs1" if "\<not> suppressAgentFanOut opts" for i
    using transition_no_review [OF hop] that by (simp add: hop_options_def)
  ultimately show ?case
    using ih here effs stay transition_success [OF hop] by (auto split: if_splits)
qed

definition no_rival :: "nat \<Rightarrow> store \<Rightarrow> store" where
  "no_rival n st = st"

text \<open>With nobody interfering, a move of a person lands as soon as its gates are open.\<close>

lemma open_blockers_unchanged:
  assumes "(i, i) \<notin> set (blocks st)"
  shows "listOpenBlockerIds (st\<lparr>tasks := (tasks st)(i \<mapsto> row)\<rparr>) i = listOpenBlockerIds st i"
  unfolding listOpenBlockerIds_def
  using assms by (auto intro!: filter_cong)

lemma hop_lands:
  assumes row: "tasks st (task_id t) = Some t"
    and legal: "to \<in> set (ALLOWED (status t))"
    and person: "actorType opts \<noteq> Some Agent"
    and blockers: "listOpenBlockerIds st (task_id t) = []"
    and approvers: "force opts \<or> \<not> requireAllApprovers t"
  shows "\<exists>effs. transition e (no_rival m) (no_rival n) t to opts st =
    (let t' = transition_patch e t to (hardened e to opts) t in
     (Inr t', effs, st\<lparr>tasks := (tasks st)(task_id t \<mapsto> t')\<rparr>))"
proof -
  have "transition_guard e st t to (hardened e to opts) = None"
    using assms by (auto simp: transition_guard_def Let_def)
  then show ?thesis
    using row by (auto simp: transition_def Let_def casUpdateStatus_def no_rival_def)
qed

lemma transition_patch_approvers [simp]:
  "requireAllApprovers (transition_patch e t to opts row) = requireAllApprovers row"
  by (simp add: transition_patch_def Let_def)

lemma walk_hops_lands:
  "\<lbrakk> legal_walk ALLOWED (status t) path to; tasks st (task_id t) = Some t;
     actorType opts \<noteq> Some Agent; listOpenBlockerIds st (task_id t) = [];
     (task_id t, task_id t) \<notin> set (blocks st); force opts \<or> \<not> requireAllApprovers t \<rbrakk> \<Longrightarrow>
   \<exists>t' effs st'. walk_hops e no_rival n from to opts walked path t st
      = (Inr (t', walked @ path), effs, st') \<and> status t' = to \<and> tasks st' (task_id t) = Some t'"
proof (induction path arbitrary: t st walked n)
  case Nil
  then show ?case by auto
next
  case (Cons hop rest)
  let ?t = "transition_patch e t hop (hardened e hop (hop_options opts)) t"
  let ?st = "st\<lparr>tasks := (tasks st)(task_id t \<mapsto> ?t)\<rparr>"
  obtain effs1 where hop: "transition e (no_rival n) (no_rival (n + 1)) t hop (hop_options opts) st = (Inr ?t, effs1, ?st)"
    using hop_lands [of st t hop "hop_options opts" e] Cons.prems
    by (auto simp: Let_def)
  obtain t' effs2 st' where rest: "walk_hops e no_rival (n + 2) from to opts (walked @ [hop]) rest ?t ?st
      = (Inr (t', (walked @ [hop]) @ rest), effs2, st')" "status t' = to" "tasks st' (task_id ?t) = Some t'"
    using Cons.IH [of ?t ?st "n + 2" "walked @ [hop]"] Cons.prems open_blockers_unchanged
    by auto
  then show ?case
    using hop by (auto simp: Let_def)
qed

section \<open>The cascade\<close>

lemma unblock_each_quiet:
  "unblock_each e rival n ids a b st = (done', effs, st') \<Longrightarrow> a \<or> b \<Longrightarrow>
     FanOutAgentExecutions i \<notin> set effs"
proof (induction ids arbitrary: n st done' effs st')
  case Nil
  then show ?case by simp
next
  case (Cons j ids)
  obtain ok effs1 st1 where one: "tryUnblockSingleTask e rival n j a b st = (ok, effs1, st1)"
    using prod_cases3 by blast
  obtain done2 effs2 st2 where more: "unblock_each e rival (n + 2) ids a b st1 = (done2, effs2, st2)"
    using prod_cases3 by blast
  let ?opts = "default_options\<lparr>suppressAgentDispatch := a, suppressAgentFanOut := b, automaticRestore := True\<rparr>"
  have quiet: "suppressAgentDispatch ?opts \<or> suppressAgentFanOut (hardened e to ?opts)" for to
    using Cons.prems(2) by (auto intro: hardened_fanout_mono)
  have "FanOutAgentExecutions i \<notin> set effs1"
    using one transition_no_fanout [OF _ quiet]
    by (auto simp: tryUnblockSingleTask_def Let_def split: option.splits if_splits prod.splits sum.splits)
  moreover have "FanOutAgentExecutions i \<notin> set effs2"
    using Cons.IH [OF more Cons.prems(2)] .
  ultimately show ?case
    using Cons.prems(1) one more by auto
qed


section \<open>A concrete store for the witnesses\<close>

definition env0 :: env where
  "env0 = \<lparr>AGENT_TRANSITIONS_NO_FANOUT = None, TASK_AGENT_BLOCK_LIFT_ALLOWED = None,
     has_dispatcher = True, has_assignees = True, has_reviews = True, has_notifications = True,
     has_events = True, checksPolicyOf = (\<lambda>_. None), latestGateStatus = (\<lambda>_. None),
     readLiveHead = None, reviewPlanKey = (\<lambda>_. None), freshLease = ''l'', clock = 7\<rparr>"

definition plan0 :: review_plan where
  "plan0 = \<lparr>planKey = None, planState = None, planReason = None, planAttempts = None,
     planNextAt = None, planStarted = None, planLease = None\<rparr>"

definition task0 :: task where
  "task0 = \<lparr>task_id = ''t'', status = TODO, previousStatus = None, startedAt = None, completedAt = None,
     labels = None, requireAllApprovers = False, workId = None, prHeadSha = None, ciHeadSha = None,
     reviewPlan = plan0\<rparr>"

definition store0 :: store where
  "store0 = \<lparr>tasks = [''t'' \<mapsto> task0], blocks = [], approvers = (\<lambda>_. [])\<rparr>"

lemma task0_fields [simp]:
  "task_id task0 = ''t''" "status task0 = TODO" "requireAllApprovers task0 = False"
  "labels task0 = None" "previousStatus task0 = None" "startedAt task0 = None"
  "completedAt task0 = None"
  by (simp_all add: task0_def)

lemma store0_row [simp]: "tasks store0 ''t'' = Some task0" "blocks store0 = []"
  by (simp_all add: store0_def)

lemma store0_blockers [simp]: "listOpenBlockerIds store0 i = []"
  by (simp add: listOpenBlockerIds_def)

section \<open>Properties\<close>

text \<open>C1. Every move of a Task, whoever else writes meanwhile, either writes nothing and answers an
  error, or changes exactly one row by a legal move of the status the row held when the
  compare-and-set ran.\<close>

theorem transition_writes_one_legal_move:
  assumes "transition e r1 r2 t to opts st = (res, effs, st')"
  shows "(st' = st \<or> st' = r1 st) \<and> effs = [] \<and> (\<exists>r. res = Inl r) \<or>
    (\<exists>row. tasks (r1 st) (task_id t) = Some row \<and> status row = status t \<and> canTransition (status row) to \<and>
       st' = r2 ((r1 st)\<lparr>tasks := (tasks (r1 st))(task_id t \<mapsto>
                    transition_patch e t to (hardened e to opts) row)\<rparr>))"
  using assms
proof (cases rule: transition_cases)
  case vanished
  then show ?thesis
    by (metis canTransition_def commit_row commit_wins guard_passed_allowed)
next
  case landed
  then show ?thesis
    by (metis canTransition_def commit_row commit_wins guard_passed_allowed)
qed auto

theorem transition_writes_one_legal_move_witness:
  "\<exists>effs t'. transition env0 (no_rival 0) (no_rival 1) task0 IN_PROGRESS default_options store0 =
      (Inr t', effs, store0\<lparr>tasks := (tasks store0)(''t'' \<mapsto> t')\<rparr>) \<and> canTransition TODO IN_PROGRESS"
proof -
  obtain effs t' where "transition env0 (no_rival 0) (no_rival 1) task0 IN_PROGRESS default_options store0 =
      (Inr t', effs, store0\<lparr>tasks := (tasks store0)(''t'' \<mapsto> t')\<rparr>)"
    using hop_lands [of store0 task0 IN_PROGRESS default_options env0 0 1]
    by (auto simp: default_options_def Let_def)
  moreover from transition_writes_one_legal_move [OF this] have "canTransition TODO IN_PROGRESS"
    by (auto simp: no_rival_def)
  ultimately show ?thesis by blast
qed

text \<open>C2. A Task enters \<open>in_progress\<close> or \<open>done\<close> only when no blocker of it was open, and it enters
  \<open>done\<close> under \<open>requireAllApprovers\<close> only when every approver row is approved and every agent's
  approval names the pull request's current head; only a person's \<open>force\<close> lifts the second rule.\<close>

theorem transition_respects_gates:
  assumes "transition e r1 r2 t to opts st = (Inr t', effs, st')" "to = IN_PROGRESS \<or> to = DONE"
  shows "listOpenBlockerIds st (task_id t) = [] \<and>
    (to = DONE \<and> requireAllApprovers t \<and> (\<not> force opts \<or> actorType opts = Some Agent) \<longrightarrow>
       (\<forall>row\<in>set (approvers st (task_id t)). approvalState row = Approved \<and>
          (approverType row = Agent \<longrightarrow>
             (\<exists>h. normalizeCommitSha (resolveCompletionGateLiveHead e t opts) = Some h \<and>
                  normalizeCommitSha (decidedHeadSha row) = Some h))))"
proof -
  have guard: "transition_guard e st t to (hardened e to opts) = None"
    using transition_success [OF assms(1)] by simp
  have head: "resolveCompletionGateLiveHead e t (hardened e to opts) = resolveCompletionGateLiveHead e t opts"
    by (simp add: resolveCompletionGateLiveHead_def)
  show ?thesis
    using guard_passed_blockers [OF guard assms(2)] guard guard_passed_approvers
      allApproved_all allApproved_agent_head head
    by (metis withAgentFanOutSuppressed_simps(2) withoutAgentForce_simps(7))
qed

definition approver0 :: approver where
  "approver0 = \<lparr>approverType = Agent, approverId = ''a'', approvalState = Approved,
     decidedVia = Some ''agent-review'', decidedHeadSha = Some ''abcdef1''\<rparr>"

definition task1 :: task where
  "task1 = task0\<lparr>status := IN_REVIEW, requireAllApprovers := True, startedAt := Some 1\<rparr>"

definition store1 :: store where
  "store1 = \<lparr>tasks = [''t'' \<mapsto> task1], blocks = [], approvers = (\<lambda>_. [approver0])\<rparr>"

definition opts1 :: transition_options where
  "opts1 = default_options\<lparr>livePullRequestHeadSha := Some (Some ''abcdef1''), actorType := Some Agent\<rparr>"

theorem transition_respects_gates_witness:
  "listOpenBlockerIds store1 ''t'' = [] \<and> list_all (\<lambda>row. approvalState row = Approved) (approvers store1 ''t'')"
proof -
  have sha: "normalizeCommitSha (Some ''abcdef1'') = Some ''abcdef1''"
    by code_simp
  have "transition_guard env0 store1 task1 DONE (hardened env0 DONE opts1) = None"
    by (simp add: transition_guard_def Let_def task1_def store1_def opts1_def isAwaitingOwner_def
        listOpenBlockerIds_def allApproved_def approver0_def isCommitBoundApproverDecision_def
        approverDecisionCountsTowardDone_def resolveCompletionGateLiveHead_def sha
        default_options_def)
  then obtain t' effs st' where
    "transition env0 (no_rival 0) (no_rival 1) task1 DONE opts1 store1 = (Inr t', effs, st')"
    by (simp add: transition_def Let_def casUpdateStatus_def no_rival_def store1_def task1_def)
  from transition_respects_gates [OF this] show ?thesis
    by (auto simp: task1_def opts1_def store1_def)
qed




text \<open>C4. However callers interleave their reads, guards and compare-and-sets, every row of a
  reachable store is \<open>blocked\<close> exactly when it remembers the status to restore, that status is one a
  block can interrupt, work that has begun has a start time, and a finished Task a completion time.\<close>

theorem reachable_rows_well_formed:
  assumes "task_reachable s0 s" "db_ok (db s0)" "held s0 = []" "passed s0 = []"
    and "tasks (db s) i = Some row"
  shows "task_id row = i \<and> (status row = BLOCKED \<longleftrightarrow> previousStatus row \<noteq> None) \<and>
    previousStatus row \<in> {None, Some TODO, Some IN_PROGRESS, Some IN_REVIEW} \<and>
    (status row \<in> {IN_PROGRESS, IN_REVIEW, DONE} \<longrightarrow> startedAt row \<noteq> None) \<and>
    (status row = DONE \<longrightarrow> completedAt row \<noteq> None)"
proof -
  have "sys_ok s0" using assms(2-4) by (simp add: sys_ok_def)
  then have "sys_ok s" using task_reachable_ok assms(1) by blast
  then have "task_id row = i \<and> row_ok row" using assms(5) by (simp add: sys_ok_def db_ok_def)
  then show ?thesis by (auto simp: row_ok_def)
qed

definition sys0 :: sys where
  "sys0 = \<lparr>db = store0, held = [], passed = []\<rparr>"

theorem reachable_rows_well_formed_witness:
  "\<exists>s row. task_reachable sys0 s \<and> tasks (db s) ''t'' = Some row \<and> status row = BLOCKED
     \<and> previousStatus row \<noteq> None"
proof -
  let ?s1 = "sys0\<lparr>held := [task0]\<rparr>"
  let ?s2 = "?s1\<lparr>passed := [(env0, task0, BLOCKED, default_options)]\<rparr>"
  let ?s3 = "?s2\<lparr>db := snd (commit env0 task0 BLOCKED default_options store0)\<rparr>"
  have g: "transition_guard env0 store0 task0 BLOCKED (hardened env0 BLOCKED default_options) = None"
    by (simp add: transition_guard_def isAwaitingOwner_def)
  have "task_step sys0 ?s1"
    using task_step.read [of sys0 "''t''" task0] by (simp add: sys0_def)
  moreover have "task_step ?s1 ?s2"
    using task_step.check [of task0 ?s1 env0 BLOCKED default_options] g by (simp add: sys0_def)
  moreover have "task_step ?s2 ?s3"
    using task_step.swap [of env0 task0 BLOCKED default_options ?s2] by (simp add: sys0_def)
  ultimately have reach: "task_reachable sys0 ?s3"
    by (blast intro: task_reachable.intros)
  have ok: "db_ok (db sys0)" "held sys0 = []" "passed sys0 = []"
    by (auto simp: sys0_def db_ok_def store0_def row_ok_def split: if_splits)
  have row: "tasks (db ?s3) ''t'' = Some (transition_patch env0 task0 BLOCKED
      (hardened env0 BLOCKED default_options) task0)"
    by (simp add: commit_row [of store0 task0 task0])
  show ?thesis
    using reach row reachable_rows_well_formed [OF reach ok row] by fastforce
qed

text \<open>C5. A sync walk that succeeds ends exactly at its target, along a shortest legal path, with the
  row re-read there, whatever other writers do; and it never starts an agent run, nor a review run
  unless the caller asked only for the fan-out to be suppressed.\<close>

theorem sync_walk_reaches_target:
  assumes "transitionSync e rival t to opts st = (Inr (t', path), effs, st')"
  shows "status t' = to \<and> legal_walk ALLOWED (status t) path to \<and>
    (\<forall>p. legal_walk ALLOWED (status t) p to \<longrightarrow> length path \<le> length p) \<and>
    (path \<noteq> [] \<longrightarrow> (\<exists>i. tasks st' i = Some t')) \<and>
    (\<forall>i. FanOutAgentExecutions i \<notin> set effs) \<and>
    (\<not> suppressAgentFanOut opts \<longrightarrow> (\<forall>i. PlanAgentReviews i \<notin> set effs))"
proof -
  obtain p where p: "shortestTransitionPath ALLOWED (status t) to = Some p"
    using assms by (auto simp: transitionSync_def Let_def split: option.splits)
  note best = shortestTransitionPath_correct [of ALLOWED "status t" to, unfolded p, simplified]
  show ?thesis
  proof (cases p)
    case Nil
    then have "t' = t \<and> path = [] \<and> effs = []"
      using assms p by (auto simp: transitionSync_def Let_def)
    then show ?thesis using best Nil by auto
  next
    case (Cons h q)
    then have "walk_hops e rival 0 (status t) to (withoutAgentForce opts) [] p t st = (Inr (t', path), effs, st')"
      using assms p by (auto simp: transitionSync_def Let_def simp del: walk_hops.simps split: option.splits)
    from walk_hops_success [OF this] have w: "path = p \<and> status t' = last p \<and> (\<exists>i. tasks st' i = Some t')
        \<and> (\<forall>i. FanOutAgentExecutions i \<notin> set effs)
        \<and> (\<not> suppressAgentFanOut opts \<longrightarrow> (\<forall>i. PlanAgentReviews i \<notin> set effs))"
      using Cons by auto
    have "last p = to"
      using best Cons legal_walk_snoc [of ALLOWED "status t" "butlast p" "last p" to]
      by (metis append_butlast_last_id list.distinct(1))
    then show ?thesis using w best by blast
  qed
qed

lemma path_todo_done: "shortestTransitionPath ALLOWED TODO DONE = Some [IN_PROGRESS, DONE]"
  by (simp add: shortestTransitionPath_def walk_back.simps)

lemma sync_lands:
  assumes "tasks st (task_id t) = Some t" "actorType opts \<noteq> Some Agent"
    and "listOpenBlockerIds st (task_id t) = []" "(task_id t, task_id t) \<notin> set (blocks st)"
    and "force opts \<or> \<not> requireAllApprovers t"
    and path: "shortestTransitionPath ALLOWED (status t) to = Some path"
  shows "\<exists>t' effs st'. transitionSync e no_rival t to opts st = (Inr (t', path), effs, st')
     \<and> status t' = to \<and> tasks st' (task_id t) = Some t'"
proof -
  have walk: "legal_walk ALLOWED (status t) path to"
    using path by (rule shortestTransitionPath_legal)
  have opts: "withoutAgentForce opts = opts"
    using assms(2) by (simp add: withoutAgentForce_def)
  show ?thesis
  proof (cases path)
    case Nil
    then show ?thesis using assms walk by (simp add: transitionSync_def Let_def)
  next
    case (Cons h q)
    have "assertSyncPathOpen e st t (status t) to path opts = None"
      using assms by (auto simp: assertSyncPathOpen_def split: option.splits)
    then show ?thesis
      using walk_hops_lands [OF walk assms(1-5), of e 0 "status t" "[]"] path Cons opts
      by (auto simp: transitionSync_def Let_def simp del: walk_hops.simps)
  qed
qed

theorem sync_walk_reaches_target_witness:
  "\<exists>t' effs st'. transitionSync env0 no_rival task0 DONE default_options store0
       = (Inr (t', [IN_PROGRESS, DONE]), effs, st')
     \<and> status t' = DONE \<and> (\<forall>i. FanOutAgentExecutions i \<notin> set effs)"
proof -
  obtain t' effs st' where "transitionSync env0 no_rival task0 DONE default_options store0
       = (Inr (t', [IN_PROGRESS, DONE]), effs, st')"
    using sync_lands [of store0 task0 default_options DONE "[IN_PROGRESS, DONE]" env0] path_todo_done
    by (auto simp: default_options_def)
  from sync_walk_reaches_target [OF this] this show ?thesis by blast
qed

text \<open>With nobody interfering, a person's sync walk always gets through: if no blocker of the Task
  is open and no approver gate holds it, every status the table can reach at all is reached, and the
  stored row is the one answered.\<close>

theorem sync_walk_gets_through:
  assumes "tasks st (task_id t) = Some t" "actorType opts \<noteq> Some Agent"
    and "listOpenBlockerIds st (task_id t) = []" "(task_id t, task_id t) \<notin> set (blocks st)"
    and "force opts \<or> \<not> requireAllApprovers t"
    and reachable: "legal_walk ALLOWED (status t) walk to"
  shows "\<exists>t' path effs st'. transitionSync e no_rival t to opts st = (Inr (t', path), effs, st')
     \<and> status t' = to \<and> length path \<le> length walk \<and> tasks st' (task_id t) = Some t'"
proof -
  obtain path where path: "shortestTransitionPath ALLOWED (status t) to = Some path"
      "length path \<le> length walk"
    using shortestTransitionPath_correct [of ALLOWED "status t" to] reachable
    by (auto split: option.splits)
  then show ?thesis
    using sync_lands [OF assms(1-5) path(1), of e] by blast
qed

theorem sync_walk_gets_through_witness:
  "\<exists>t' path effs st'. transitionSync env0 no_rival task0 IN_REVIEW default_options store0
      = (Inr (t', path), effs, st') \<and> status t' = IN_REVIEW \<and> length path \<le> 2"
  using sync_walk_gets_through [of store0 task0 default_options "[IN_PROGRESS, IN_REVIEW]" IN_REVIEW env0]
  by (auto simp: default_options_def numeral_2_eq_2)

text \<open>The auto-unblock restores a blocked Task with no open blocker to the status it remembers and
  forgets it, for every remembered status but one: a Task blocked while in review is refused by the
  table of legal moves (\<open>blocked\<close> has no edge to \<open>in_review\<close>), so the restore writes nothing and the
  Task stays blocked.\<close>

theorem auto_unblock_restores:
  assumes ok: "db_ok st" and row: "tasks st i = Some t" and blocked: "status t = BLOCKED"
    and free: "listOpenBlockerIds st i = []"
  shows "case previousStatus t of
      Some IN_REVIEW \<Rightarrow> tryUnblockSingleTask e no_rival n i a b st = (False, [], st)
    | _ \<Rightarrow> \<exists>effs st' t'. tryUnblockSingleTask e no_rival n i a b st = (True, effs, st') \<and>
        tasks st' i = Some t' \<and> Some (status t') = previousStatus t \<and> previousStatus t' = None"
proof -
  have tid: "task_id t = i" and ro: "row_ok t"
    using ok row by (auto simp: db_ok_def)
  obtain p where p: "previousStatus t = Some p" "p \<in> {TODO, IN_PROGRESS, IN_REVIEW}"
    using ro blocked by (auto simp: row_ok_def)
  let ?opts = "default_options\<lparr>suppressAgentDispatch := a, suppressAgentFanOut := b, automaticRestore := True\<rparr>"
  show ?thesis
  proof (cases "p = IN_REVIEW")
    case True
    then show ?thesis
      using p row blocked free
      by (simp add: tryUnblockSingleTask_def transition_def transition_guard_def Let_def default_options_def)
  next
    case False
    then have "p \<in> set (ALLOWED (status t))" using p blocked by auto
    moreover have "listOpenBlockerIds st (task_id t) = []" "tasks st (task_id t) = Some t"
      using free row tid by simp_all
    moreover have "transition_guard e st t p (hardened e p ?opts) = None"
      using calculation p False by (auto simp: transition_guard_def Let_def default_options_def)
    ultimately have "\<exists>effs. transition e (no_rival n) (no_rival (n + 1)) t p ?opts st =
        (Inr (transition_patch e t p (hardened e p ?opts) t), effs,
         st\<lparr>tasks := (tasks st)(i \<mapsto> transition_patch e t p (hardened e p ?opts) t)\<rparr>)"
      using tid by (auto simp: transition_def Let_def casUpdateStatus_def no_rival_def)
    then show ?thesis
      using p row blocked free False
      by (auto simp: tryUnblockSingleTask_def Let_def transition_patch_previous)
  qed
qed

definition task2 :: task where
  "task2 = task0\<lparr>status := BLOCKED, previousStatus := Some IN_REVIEW, startedAt := Some 1\<rparr>"

definition store2 :: store where
  "store2 = \<lparr>tasks = [''t'' \<mapsto> task2], blocks = [], approvers = (\<lambda>_. [])\<rparr>"

theorem auto_unblock_restores_witness:
  "tryUnblockSingleTask env0 no_rival 0 ''t'' False False store2 = (False, [], store2)"
proof -
  have "db_ok store2"
    by (auto simp: db_ok_def store2_def task2_def row_ok_def split: if_splits)
  from auto_unblock_restores [OF this, of "''t''" task2 env0 0 False False] show ?thesis
    by (simp add: store2_def task2_def listOpenBlockerIds_def)
qed

text \<open>Nothing the auto-unblock cascade of a suppressed move restores starts an agent run, however
  many Tasks it restores and whatever other writers do meanwhile.\<close>

theorem cascade_starts_no_run:
  assumes "autoUnblockResolvedTasks e rival blocker noDispatch noFanOut st = (restored, effs, st')"
    and "noDispatch \<or> noFanOut"
  shows "FanOutAgentExecutions i \<notin> set effs"
  using assms unblock_each_quiet unfolding autoUnblockResolvedTasks_def by blast

definition task3 :: task where
  "task3 = task0\<lparr>task_id := ''b'', status := BLOCKED, previousStatus := Some IN_PROGRESS, startedAt := Some 1\<rparr>"

definition store3 :: store where
  "store3 = \<lparr>tasks = [''t'' \<mapsto> task0\<lparr>status := DONE, startedAt := Some 1, completedAt := Some 2\<rparr>, ''b'' \<mapsto> task3],
     blocks = [(''b'', ''t'')], approvers = (\<lambda>_. [])\<rparr>"

theorem cascade_starts_no_run_witness:
  "\<exists>effs st'. autoUnblockResolvedTasks env0 no_rival ''t'' False True store3 = ([''b''], effs, st') \<and>
     (\<forall>i. FanOutAgentExecutions i \<notin> set effs)"
proof -
  have "\<exists>effs st'. autoUnblockResolvedTasks env0 no_rival ''t'' False True store3 = ([''b''], effs, st')"
    by (simp add: autoUnblockResolvedTasks_def tryUnblockSingleTask_def transition_def Let_def
        transition_guard_def casUpdateStatus_def no_rival_def store3_def task3_def listOpenBlockerIds_def
        default_options_def isAwaitingOwner_def withAgentFanOutSuppressed_def withoutAgentForce_def)
  then show ?thesis
    using cascade_starts_no_run [of env0 no_rival "''t''" False True store3] by blast
qed

end
