(* ===== verification/Merge_Policy.thy ===== *)
theory Merge_Policy
  imports Js_Values
begin

text \<open>
  The merge policy matrix: the shape guard of a stored override
  (\<open>packages/contracts/src/policy/merge-policy.sanitize.ts\<close>), the protected-branch floor
  (\<open>merge-policy.types.ts\<close>), the resolution of the four scopes and the decision point
  (\<open>packages/agent/src/policy/merge-policy.ts\<close>).
\<close>

section \<open>Policies and scopes\<close>

datatype merge_method = MergeCommit | Squash | Rebase

record merge_policy =
  allowAgentMerge :: bool
  requireGreenGate :: bool
  requireHumanApproval :: bool
  allowedMergeMethods :: "merge_method list"
  protectedBranches :: "string list"

datatype policy_field =
  AllowAgentMerge | RequireGreenGate | RequireHumanApproval | AllowedMergeMethods | ProtectedBranches

definition MERGE_POLICY_FIELDS :: "policy_field list" where
  "MERGE_POLICY_FIELDS =
     [AllowAgentMerge, RequireGreenGate, RequireHumanApproval, AllowedMergeMethods, ProtectedBranches]"

lemma MERGE_POLICY_FIELDS_all [simp]: "f \<in> set MERGE_POLICY_FIELDS"
  by (cases f) (simp_all add: MERGE_POLICY_FIELDS_def)

text \<open>\<open>MergePolicyOverride\<close>: an absent key inherits.\<close>

record policy_override =
  o_allowAgentMerge :: "bool option"
  o_requireGreenGate :: "bool option"
  o_requireHumanApproval :: "bool option"
  o_allowedMergeMethods :: "merge_method list option"
  o_protectedBranches :: "string list option"

datatype merge_scope = Tenant | Organization | WorkScope | AgentScope

fun scope_rank :: "merge_scope \<Rightarrow> nat" where
  "scope_rank Tenant = 0"
| "scope_rank Organization = 1"
| "scope_rank WorkScope = 2"
| "scope_rank AgentScope = 3"

lemma scope_rank_inject [simp]: "scope_rank a = scope_rank b \<longleftrightarrow> a = b"
  by (cases a; cases b) simp_all

text \<open>The precedence of the scopes, least specific first, as the order of the type.\<close>

instantiation merge_scope :: linorder
begin

definition less_eq_merge_scope :: "merge_scope \<Rightarrow> merge_scope \<Rightarrow> bool" where
  "less_eq_merge_scope a b \<longleftrightarrow> scope_rank a \<le> scope_rank b"

definition less_merge_scope :: "merge_scope \<Rightarrow> merge_scope \<Rightarrow> bool" where
  "less_merge_scope a b \<longleftrightarrow> scope_rank a < scope_rank b"

instance
  by standard (auto simp: less_eq_merge_scope_def less_merge_scope_def)

end

definition PLATFORM_DEFAULT_MERGE_POLICY :: merge_policy where
  "PLATFORM_DEFAULT_MERGE_POLICY = \<lparr>allowAgentMerge = False, requireGreenGate = True,
     requireHumanApproval = True, allowedMergeMethods = [Squash],
     protectedBranches = [''main'', ''master'', ''develop'', ''stage'']\<rparr>"

section \<open>The shape guard of a stored override\<close>

definition empty_override :: policy_override where
  "empty_override = \<lparr>o_allowAgentMerge = None, o_requireGreenGate = None,
     o_requireHumanApproval = None, o_allowedMergeMethods = None, o_protectedBranches = None\<rparr>"

fun json_bool :: "json \<Rightarrow> bool option" where
  "json_bool (JBool b) = Some b"
| "json_bool _ = None"

fun json_method :: "json \<Rightarrow> merge_method option" where
  "json_method (JStr s) =
     (if s = ''merge'' then Some MergeCommit
      else if s = ''squash'' then Some Squash
      else if s = ''rebase'' then Some Rebase
      else None)"
| "json_method _ = None"

fun json_string :: "json \<Rightarrow> string option" where
  "json_string (JStr s) = Some s"
| "json_string _ = None"

definition sanitize_methods :: "json \<Rightarrow> merge_method list option" where
  "sanitize_methods v = (case v of
     JArr xs \<Rightarrow> (let methods = List.map_filter json_method xs in
       if methods \<noteq> [] \<or> xs = [] then Some (js_unique methods) else None)
   | _ \<Rightarrow> None)"

definition sanitize_branches :: "json \<Rightarrow> string list option" where
  "sanitize_branches v = (case v of
     JArr xs \<Rightarrow> (let branches = filter (\<lambda>b. b \<noteq> []) (map js_trim (List.map_filter json_string xs)) in
       if branches \<noteq> [] \<or> xs = [] then Some (js_unique branches) else None)
   | _ \<Rightarrow> None)"

definition sanitizeMergePolicyOverride :: "json \<Rightarrow> policy_override" where
  "sanitizeMergePolicyOverride raw =
     \<lparr>o_allowAgentMerge = json_bool (own_prop raw ''allowAgentMerge''),
      o_requireGreenGate = json_bool (own_prop raw ''requireGreenGate''),
      o_requireHumanApproval = json_bool (own_prop raw ''requireHumanApproval''),
      o_allowedMergeMethods = sanitize_methods (own_prop raw ''allowedMergeMethods''),
      o_protectedBranches = sanitize_branches (own_prop raw ''protectedBranches'')\<rparr>"

section \<open>Resolution of the chain\<close>

record policy_layer =
  l_scope :: merge_scope
  l_id :: string
  l_policy :: json

definition layer_override :: "policy_layer \<Rightarrow> policy_override" where
  "layer_override l = sanitizeMergePolicyOverride (l_policy l)"

fun declares :: "policy_override \<Rightarrow> policy_field \<Rightarrow> bool" where
  "declares ov AllowAgentMerge = (o_allowAgentMerge ov \<noteq> None)"
| "declares ov RequireGreenGate = (o_requireGreenGate ov \<noteq> None)"
| "declares ov RequireHumanApproval = (o_requireHumanApproval ov \<noteq> None)"
| "declares ov AllowedMergeMethods = (o_allowedMergeMethods ov \<noteq> None)"
| "declares ov ProtectedBranches = (o_protectedBranches ov \<noteq> None)"

fun assign_field :: "policy_override \<Rightarrow> policy_field \<Rightarrow> merge_policy \<Rightarrow> merge_policy" where
  "assign_field ov AllowAgentMerge p = p\<lparr>allowAgentMerge := the (o_allowAgentMerge ov)\<rparr>"
| "assign_field ov RequireGreenGate p = p\<lparr>requireGreenGate := the (o_requireGreenGate ov)\<rparr>"
| "assign_field ov RequireHumanApproval p = p\<lparr>requireHumanApproval := the (o_requireHumanApproval ov)\<rparr>"
| "assign_field ov AllowedMergeMethods p = p\<lparr>allowedMergeMethods := the (o_allowedMergeMethods ov)\<rparr>"
| "assign_field ov ProtectedBranches p = p\<lparr>protectedBranches := the (o_protectedBranches ov)\<rparr>"

type_synonym fold_state = "merge_policy \<times> (policy_field \<Rightarrow> int)"

fun apply_fields :: "policy_override \<Rightarrow> int \<Rightarrow> policy_field list \<Rightarrow> fold_state \<Rightarrow> fold_state" where
  "apply_fields ov i [] s = s"
| "apply_fields ov i (f # fs) (p, owner) =
     (if declares ov f then apply_fields ov i fs (assign_field ov f p, owner(f := i))
      else apply_fields ov i fs (p, owner))"

fun apply_layers :: "int \<Rightarrow> policy_layer list \<Rightarrow> fold_state \<Rightarrow> fold_state" where
  "apply_layers i [] s = s"
| "apply_layers i (l # ls) s =
     apply_layers (i + 1) ls (apply_fields (layer_override l) i MERGE_POLICY_FIELDS s)"

record chain_entry =
  c_scope :: "merge_scope option"
  c_id :: "string option"
  c_fields :: "policy_field list"

definition fieldsOwnedBy :: "(policy_field \<Rightarrow> int) \<Rightarrow> int \<Rightarrow> policy_field list" where
  "fieldsOwnedBy owner i = filter (\<lambda>f. owner f = i) MERGE_POLICY_FIELDS"

fun chain_from :: "(policy_field \<Rightarrow> int) \<Rightarrow> int \<Rightarrow> policy_layer list \<Rightarrow> chain_entry list" where
  "chain_from owner i [] = []"
| "chain_from owner i (l # ls) =
     \<lparr>c_scope = Some (l_scope l), c_id = Some (l_id l), c_fields = fieldsOwnedBy owner i\<rparr>
     # chain_from owner (i + 1) ls"

text \<open>\<open>for (const entry of chain) if (entry.fields.length > 0) source = entry.scope\<close>; \<open>None\<close> is
  \<open>'default'\<close>.\<close>

definition chain_source :: "chain_entry list \<Rightarrow> merge_scope option" where
  "chain_source chain = fold (\<lambda>e src. if c_fields e \<noteq> [] then c_scope e else src) chain None"

definition human_scope_approval :: "policy_layer list \<Rightarrow> bool option" where
  "human_scope_approval ordered =
     fold (\<lambda>l acc. if l_scope l \<noteq> Tenant \<and> l_scope l \<noteq> Organization then acc
       else case o_requireHumanApproval (layer_override l) of None \<Rightarrow> acc | Some d \<Rightarrow> Some d)
     ordered None"

record resolved_policy =
  r_policy :: merge_policy
  r_source :: "merge_scope option"
  r_chain :: "chain_entry list"
  r_humanScopeWaivesApproval :: bool

definition resolveMergePolicyChain :: "policy_layer list \<Rightarrow> resolved_policy" where
  "resolveMergePolicyChain layers =
     (let ordered = sort_key l_scope layers;
          (p, owner) = apply_layers 0 ordered (PLATFORM_DEFAULT_MERGE_POLICY, \<lambda>_. -1);
          chain = \<lparr>c_scope = None, c_id = None, c_fields = fieldsOwnedBy owner (-1)\<rparr>
                  # chain_from owner 0 ordered
      in \<lparr>r_policy = p, r_source = chain_source chain, r_chain = chain,
          r_humanScopeWaivesApproval =
            human_scope_approval ordered = Some False \<and> \<not> requireHumanApproval p\<rparr>)"

section \<open>Branches and the protected-branch floor\<close>

text \<open>\<open>ref.trim().replace(/^refs\\/heads\\//i, '').toLowerCase()\<close>\<close>

definition normalizeBranch :: "string \<Rightarrow> string" where
  "normalizeBranch ref =
     (let t = js_trim ref; p = ''refs/heads/'' in
      js_lower (if js_lower (take (length p) t) = p then drop (length p) t else t))"

definition normalizeFloorRef :: "string option \<Rightarrow> string option" where
  "normalizeFloorRef ref = (case ref of None \<Rightarrow> None
     | Some r \<Rightarrow> (let n = normalizeBranch r in if n = [] then None else Some n))"

definition MERGE_POLICY_PROTECTED_BRANCH_FLOOR :: "string list" where
  "MERGE_POLICY_PROTECTED_BRANCH_FLOOR = [''main'', ''master'', ''develop'', ''stage'']"

definition MERGE_POLICY_ALWAYS_APPROVED_BRANCHES :: "string list" where
  "MERGE_POLICY_ALWAYS_APPROVED_BRANCHES = [''main'', ''master'']"

definition mergeTargetNeedsFloorApproval :: "string option \<Rightarrow> bool \<Rightarrow> bool" where
  "mergeTargetNeedsFloorApproval ref waived =
     (case normalizeFloorRef ref of
        None \<Rightarrow> True
      | Some n \<Rightarrow>
          if n \<in> set MERGE_POLICY_ALWAYS_APPROVED_BRANCHES then True
          else if n \<notin> set MERGE_POLICY_PROTECTED_BRANCH_FLOOR then False
          else \<not> waived)"

definition sameMergeBranch :: "string option \<Rightarrow> string option \<Rightarrow> bool" where
  "sameMergeBranch a b = (normalizeFloorRef a \<noteq> None \<and> normalizeFloorRef a = normalizeFloorRef b)"

section \<open>The decision point\<close>

datatype gate_status = Green | OtherGate string

datatype merge_refusal =
    AgentMergeDisabled | ProtectedBranch | TargetBranchUnknown | MergeMethodNotAllowed | GateNotGreen
  | HumanApprovalRequired | ApprovalMissing | ApprovalStale | ApprovalExpired | ApprovalNotHuman
  | ApproverNotEntitled | PullRequestNotOpen | PullRequestNotGreen | HeadShaUnknown
  | TargetBranchMismatch

record merge_context =
  x_policy :: merge_policy
  x_gateStatus :: "gate_status option"
  x_humanApproved :: bool
  x_targetBranch :: "string option"
  x_humanScopeWaives :: bool
  x_mergeMethod :: "merge_method option"

definition blank_ref :: "string option \<Rightarrow> bool" where
  "blank_ref ref = (case ref of None \<Rightarrow> True | Some r \<Rightarrow> js_trim r = [])"

text \<open>
  \<open>policy.protectedBranches.find(...)\<close> followed by \<open>if (protectedMatch)\<close>: a match that is the
  empty string is falsy.
\<close>

definition protected_match :: "merge_policy \<Rightarrow> string option \<Rightarrow> bool" where
  "protected_match p ref = (case ref of None \<Rightarrow> False
     | Some r \<Rightarrow> (case List.find (\<lambda>b. normalizeBranch b = normalizeBranch r) (protectedBranches p) of
          None \<Rightarrow> False | Some b \<Rightarrow> b \<noteq> []))"

text \<open>\<open>None\<close> is \<open>\{ allowed: true \}\<close>, \<open>Some c\<close> the refusal with code \<open>c\<close>.\<close>

definition evaluateAgentMerge :: "merge_context \<Rightarrow> merge_refusal option" where
  "evaluateAgentMerge ctx =
     (let p = x_policy ctx; target = x_targetBranch ctx;
          m = (case x_mergeMethod ctx of None \<Rightarrow> MergeCommit | Some m \<Rightarrow> m) in
      if \<not> allowAgentMerge p then Some AgentMergeDisabled
      else if protectedBranches p \<noteq> [] \<and> blank_ref target then Some TargetBranchUnknown
      else if protectedBranches p \<noteq> [] \<and> protected_match p target then Some ProtectedBranch
      else if \<not> x_humanApproved ctx \<and> mergeTargetNeedsFloorApproval target (x_humanScopeWaives ctx)
        then Some (if blank_ref target then TargetBranchUnknown else HumanApprovalRequired)
      else if m \<notin> set (allowedMergeMethods p) then Some MergeMethodNotAllowed
      else if requireGreenGate p \<and> x_gateStatus ctx \<noteq> Some Green then Some GateNotGreen
      else if requireHumanApproval p \<and> \<not> x_humanApproved ctx then Some HumanApprovalRequired
      else None)"

end
