(* ===== verification/Merge_Policy_Laws.thy ===== *)
theory Merge_Policy_Laws
  imports Merge_Policy "HOL-Library.Multiset"
begin

text \<open>
  Laws of the merge policy: what the field-by-field fold computes, who owns a field, and when the
  decision point allows a merge.
\<close>

section \<open>Fields as values\<close>

datatype field_value = BoolField bool | MethodsField "merge_method list" | BranchesField "string list"

fun field_of :: "merge_policy \<Rightarrow> policy_field \<Rightarrow> field_value" where
  "field_of p AllowAgentMerge = BoolField (allowAgentMerge p)"
| "field_of p RequireGreenGate = BoolField (requireGreenGate p)"
| "field_of p RequireHumanApproval = BoolField (requireHumanApproval p)"
| "field_of p AllowedMergeMethods = MethodsField (allowedMergeMethods p)"
| "field_of p ProtectedBranches = BranchesField (protectedBranches p)"

fun declared :: "policy_override \<Rightarrow> policy_field \<Rightarrow> field_value option" where
  "declared ov AllowAgentMerge = map_option BoolField (o_allowAgentMerge ov)"
| "declared ov RequireGreenGate = map_option BoolField (o_requireGreenGate ov)"
| "declared ov RequireHumanApproval = map_option BoolField (o_requireHumanApproval ov)"
| "declared ov AllowedMergeMethods = map_option MethodsField (o_allowedMergeMethods ov)"
| "declared ov ProtectedBranches = map_option BranchesField (o_protectedBranches ov)"

lemma declares_declared: "declares ov f \<longleftrightarrow> declared ov f \<noteq> None"
  by (cases f) auto

lemma field_of_assign [scope_laws]:
  "declares ov f \<Longrightarrow> field_of (assign_field ov f p) g = (if g = f then the (declared ov f) else field_of p g)"
  by (cases f; cases g) auto

section \<open>The fold\<close>

lemma apply_fields_value [scope_laws]:
  "field_of (fst (apply_fields ov i fs s)) g =
     (if g \<in> set fs \<and> declares ov g then the (declared ov g) else field_of (fst s) g)"
  by (induction ov i fs s rule: apply_fields.induct) (auto simp: scope_laws)

lemma apply_fields_owner [scope_laws]:
  "snd (apply_fields ov i fs s) g = (if g \<in> set fs \<and> declares ov g then i else snd s g)"
  by (induction ov i fs s rule: apply_fields.induct) auto

text \<open>The position of the last layer that declares a field.\<close>

lemma apply_layers_declared:
  assumes "\<forall>l\<in>set vs. \<not> declares (layer_override l) g" "declares (layer_override w) g"
  shows "field_of (fst (apply_layers i (us @ w # vs) s)) g = the (declared (layer_override w) g)
       \<and> snd (apply_layers i (us @ w # vs) s) g = i + int (length us)"
  using assms
proof (induction us arbitrary: i s)
  case Nil
  have silent: "\<forall>l\<in>set vs. \<not> declares (layer_override l) g \<Longrightarrow>
      field_of (fst (apply_layers j vs t)) g = field_of (fst t) g
      \<and> snd (apply_layers j vs t) g = snd t g" for j t
    by (induction vs arbitrary: j t) (auto simp: scope_laws)
  show ?case using Nil silent by (simp add: scope_laws)
next
  case (Cons u us)
  then show ?case by (simp add: algebra_simps)
qed

lemma apply_layers_silent:
  "\<forall>l\<in>set ls. \<not> declares (layer_override l) g \<Longrightarrow>
     field_of (fst (apply_layers i ls s)) g = field_of (fst s) g \<and> snd (apply_layers i ls s) g = snd s g"
  by (induction ls arbitrary: i s) (auto simp: scope_laws)

lemma last_declaring:
  assumes "\<exists>l\<in>set ls. P l"
  obtains us w vs where "ls = us @ w # vs" "P w" "\<forall>l\<in>set vs. \<not> P l"
  using split_list_last_prop [OF assms] by blast

section \<open>The chain\<close>

lemma set_chain_from:
  "set (chain_from owner i ls) =
     (\<lambda>k. \<lparr>c_scope = Some (l_scope (ls ! k)), c_id = Some (l_id (ls ! k)),
           c_fields = fieldsOwnedBy owner (i + int k)\<rparr>) ` {..<length ls}"
proof (induction owner i ls rule: chain_from.induct)
  case (2 owner i l ls)
  have "{..<length (l # ls)} = insert 0 (Suc ` {..<length ls})"
    by (simp add: lessThan_Suc_eq_insert_0)
  then show ?case
    using 2 by (simp add: image_image algebra_simps)
qed simp

lemma chain_from_count:
  "length (filter (\<lambda>e. f \<in> set (c_fields e)) (chain_from owner i ls)) =
     (if i \<le> owner f \<and> owner f < i + int (length ls) then 1 else 0)"
  by (induction owner i ls rule: chain_from.induct) (auto simp: fieldsOwnedBy_def)

lemma in_fieldsOwnedBy [simp]: "f \<in> set (fieldsOwnedBy owner i) \<longleftrightarrow> owner f = i"
  by (simp add: fieldsOwnedBy_def)

text \<open>The resolution with its fold written out once.\<close>

lemma resolve_unfold:
  defines "start \<equiv> (PLATFORM_DEFAULT_MERGE_POLICY, \<lambda>_::policy_field. -1 :: int)"
  shows "r_policy (resolveMergePolicyChain layers) = fst (apply_layers 0 (sort_key l_scope layers) start)"
    and "r_chain (resolveMergePolicyChain layers) =
      \<lparr>c_scope = None, c_id = None,
         c_fields = fieldsOwnedBy (snd (apply_layers 0 (sort_key l_scope layers) start)) (-1)\<rparr>
      # chain_from (snd (apply_layers 0 (sort_key l_scope layers) start)) 0 (sort_key l_scope layers)"
    and "r_source (resolveMergePolicyChain layers) = chain_source (r_chain (resolveMergePolicyChain layers))"
    and "r_humanScopeWaivesApproval (resolveMergePolicyChain layers) \<longleftrightarrow>
      human_scope_approval (sort_key l_scope layers) = Some False \<and>
      \<not> requireHumanApproval (r_policy (resolveMergePolicyChain layers))"
  unfolding resolveMergePolicyChain_def start_def Let_def by (simp_all split: prod.split)

text \<open>Either the most specific declaring layer gives the field, or nobody declares it.\<close>

lemma resolve_field:
  "(\<exists>us w vs. sort_key l_scope layers = us @ w # vs \<and> declares (layer_override w) f
      \<and> (\<forall>l\<in>set vs. \<not> declares (layer_override l) f)
      \<and> field_of (r_policy (resolveMergePolicyChain layers)) f = the (declared (layer_override w) f)
      \<and> (\<exists>e\<in>set (r_chain (resolveMergePolicyChain layers)).
            c_scope e = Some (l_scope w) \<and> c_id e = Some (l_id w) \<and> f \<in> set (c_fields e)))
   \<or> (\<forall>l\<in>set layers. \<not> declares (layer_override l) f)
      \<and> field_of (r_policy (resolveMergePolicyChain layers)) f = field_of PLATFORM_DEFAULT_MERGE_POLICY f
      \<and> f \<in> set (c_fields (hd (r_chain (resolveMergePolicyChain layers))))"
proof (cases "\<exists>l\<in>set layers. declares (layer_override l) f")
  case True
  then have "\<exists>l\<in>set (sort_key l_scope layers). declares (layer_override l) f" by simp
  then obtain us w vs where split: "sort_key l_scope layers = us @ w # vs"
      "declares (layer_override w) f" "\<forall>l\<in>set vs. \<not> declares (layer_override l) f"
    by (rule last_declaring)
  let ?e = "\<lparr>c_scope = Some (l_scope w), c_id = Some (l_id w),
       c_fields = fieldsOwnedBy (snd (apply_layers 0 (us @ w # vs) (PLATFORM_DEFAULT_MERGE_POLICY, \<lambda>_. -1)))
         (int (length us))\<rparr>"
  have "?e \<in> set (r_chain (resolveMergePolicyChain layers))"
    unfolding resolve_unfold set_chain_from list.set split(1)
    by (rule insertI2, rule image_eqI [where x = "length us"]) simp_all
  moreover have "f \<in> set (c_fields ?e)"
    using apply_layers_declared [OF split(3,2)] by simp
  moreover have "field_of (r_policy (resolveMergePolicyChain layers)) f = the (declared (layer_override w) f)"
    unfolding resolve_unfold split(1) using apply_layers_declared [OF split(3,2)] by simp
  moreover have "c_scope ?e = Some (l_scope w)" "c_id ?e = Some (l_id w)" by simp_all
  ultimately show ?thesis using split by blast
next
  case False
  then have "\<forall>l\<in>set (sort_key l_scope layers). \<not> declares (layer_override l) f" by simp
  from apply_layers_silent [OF this] False show ?thesis
    by (simp add: resolve_unfold)
qed

lemma sorted_layers_before:
  assumes "sort_key l_scope layers = us @ w # vs" "l \<in> set layers" "l \<notin> set vs"
  shows "l_scope l \<le> l_scope w"
proof -
  have "sorted (map l_scope (us @ w # vs))"
    using sorted_sort_key [of l_scope layers] assms(1) by simp
  moreover have "l \<in> set (us @ w # vs)"
    using assms(2) by (metis assms(1) set_sort)
  ultimately show ?thesis using assms(3) by (auto simp: sorted_append)
qed

lemma owner_range:
  assumes "snd s f = -1 \<or> 0 \<le> snd s f \<and> snd s f < i" "0 \<le> i"
  shows "snd (apply_layers i ls s) f = -1 \<or>
    0 \<le> snd (apply_layers i ls s) f \<and> snd (apply_layers i ls s) f < i + int (length ls)"
  using assms
proof (induction ls arbitrary: i s)
  case Nil
  then show ?case by simp
next
  case (Cons l ls)
  have "snd (apply_fields (layer_override l) i MERGE_POLICY_FIELDS s) f = -1 \<or>
      0 \<le> snd (apply_fields (layer_override l) i MERGE_POLICY_FIELDS s) f \<and>
      snd (apply_fields (layer_override l) i MERGE_POLICY_FIELDS s) f < i + 1"
    using Cons.prems by (auto simp: scope_laws)
  from Cons.IH [OF this] Cons.prems(2) show ?case by (simp add: algebra_simps)
qed

lemma chain_partitions:
  "length (filter (\<lambda>e. f \<in> set (c_fields e)) (r_chain (resolveMergePolicyChain layers))) = 1"
  using owner_range [of "(PLATFORM_DEFAULT_MERGE_POLICY, \<lambda>_. -1)" f 0 "sort_key l_scope layers"]
  by (auto simp: resolve_unfold chain_from_count)

section \<open>The source\<close>

lemma chain_source_last:
  "chain_source (c @ [e]) = (if c_fields e \<noteq> [] then c_scope e else chain_source c)"
  by (simp add: chain_source_def)

lemma chain_source_spec:
  "(\<exists>us e vs. c = us @ e # vs \<and> c_fields e \<noteq> [] \<and> (\<forall>x\<in>set vs. c_fields x = []) \<and> chain_source c = c_scope e)
   \<or> (\<forall>x\<in>set c. c_fields x = []) \<and> chain_source c = None"
proof (induction c rule: rev_induct)
  case Nil
  then show ?case by (simp add: chain_source_def)
next
  case (snoc e c)
  show ?case
  proof (cases "c_fields e = []")
    case True
    then have last: "chain_source (c @ [e]) = chain_source c" by (simp add: chain_source_last)
    from snoc show ?thesis
    proof
      assume "\<exists>us e vs. c = us @ e # vs \<and> c_fields e \<noteq> [] \<and> (\<forall>x\<in>set vs. c_fields x = [])
        \<and> chain_source c = c_scope e"
      then obtain us d vs where "c = us @ d # vs" "c_fields d \<noteq> []" "\<forall>x\<in>set vs. c_fields x = []"
          "chain_source c = c_scope d" by blast
      then have "c @ [e] = us @ d # (vs @ [e]) \<and> c_fields d \<noteq> [] \<and> (\<forall>x\<in>set (vs @ [e]). c_fields x = [])
        \<and> chain_source (c @ [e]) = c_scope d"
        using True last by simp
      then show ?thesis by blast
    next
      assume "(\<forall>x\<in>set c. c_fields x = []) \<and> chain_source c = None"
      then show ?thesis using True last by simp
    qed
  next
    case False
    then have "c @ [e] = c @ e # [] \<and> c_fields e \<noteq> [] \<and> (\<forall>x\<in>set []. c_fields x = [])
        \<and> chain_source (c @ [e]) = c_scope e"
      by (simp add: chain_source_last)
    then show ?thesis by blast
  qed
qed

section \<open>The human scopes\<close>

definition human_scope :: "policy_layer \<Rightarrow> bool" where
  "human_scope l \<longleftrightarrow> l_scope l = Tenant \<or> l_scope l = Organization"

lemma human_scope_approval_snoc:
  "human_scope_approval (ls @ [l]) =
     (if human_scope l \<and> o_requireHumanApproval (layer_override l) \<noteq> None
      then o_requireHumanApproval (layer_override l) else human_scope_approval ls)"
  by (auto simp: human_scope_approval_def human_scope_def)

lemma human_scope_approval_filter:
  "human_scope_approval (filter human_scope ls) = human_scope_approval ls"
proof (induction ls rule: rev_induct)
  case Nil
  then show ?case by simp
next
  case (snoc l ls)
  then show ?case by (cases "human_scope l") (simp_all add: human_scope_approval_snoc)
qed

lemma human_scope_approval_declared:
  "human_scope_approval ls = Some d \<Longrightarrow>
     \<exists>us w vs. ls = us @ w # vs \<and> human_scope w \<and> o_requireHumanApproval (layer_override w) = Some d
       \<and> (\<forall>l\<in>set vs. human_scope l \<longrightarrow> o_requireHumanApproval (layer_override l) = None)"
proof (induction ls rule: rev_induct)
  case Nil
  then show ?case by (simp add: human_scope_approval_def)
next
  case (snoc l ls)
  show ?case
  proof (cases "human_scope l \<and> o_requireHumanApproval (layer_override l) \<noteq> None")
    case True
    with snoc.prems have "ls @ [l] = ls @ l # [] \<and> human_scope l \<and>
        o_requireHumanApproval (layer_override l) = Some d \<and>
        (\<forall>x\<in>set []. human_scope x \<longrightarrow> o_requireHumanApproval (layer_override x) = None)"
      by (simp add: human_scope_approval_snoc)
    then show ?thesis by blast
  next
    case False
    with snoc obtain us w vs where "ls = us @ w # vs" "human_scope w"
        "o_requireHumanApproval (layer_override w) = Some d"
        "\<forall>l\<in>set vs. human_scope l \<longrightarrow> o_requireHumanApproval (layer_override l) = None"
      by (auto simp: human_scope_approval_snoc)
    with False have "ls @ [l] = us @ w # (vs @ [l]) \<and> human_scope w \<and>
        o_requireHumanApproval (layer_override w) = Some d \<and>
        (\<forall>x\<in>set (vs @ [l]). human_scope x \<longrightarrow> o_requireHumanApproval (layer_override x) = None)"
      by auto
    then show ?thesis by blast
  qed
qed

lemma requireHumanApproval_field:
  "field_of p RequireHumanApproval = BoolField b \<longleftrightarrow> requireHumanApproval p = b"
  by simp

lemma sort_key_filter: "filter P (sort_key k xs) = sort_key k (filter P xs)"
  by (rule filter_sort)

section \<open>Branches and the floor\<close>

definition floor_branch :: "string option \<Rightarrow> bool" where
  "floor_branch ref \<longleftrightarrow> normalizeFloorRef ref \<in> {None, Some ''main'', Some ''master''}"

lemma floor_branch_needs_approval: "floor_branch ref \<Longrightarrow> mergeTargetNeedsFloorApproval ref waived"
  by (auto simp: floor_branch_def mergeTargetNeedsFloorApproval_def MERGE_POLICY_ALWAYS_APPROVED_BRANCHES_def)

lemma floor_branch_dev:
  "normalizeFloorRef ref = Some ''develop'' \<or> normalizeFloorRef ref = Some ''stage'' \<Longrightarrow>
     mergeTargetNeedsFloorApproval ref waived \<longleftrightarrow> \<not> waived"
  by (auto simp: mergeTargetNeedsFloorApproval_def MERGE_POLICY_ALWAYS_APPROVED_BRANCHES_def
      MERGE_POLICY_PROTECTED_BRANCH_FLOOR_def)

lemma evaluate_allows_iff:
  "evaluateAgentMerge ctx = None \<longleftrightarrow>
     allowAgentMerge (x_policy ctx) \<and>
     (protectedBranches (x_policy ctx) \<noteq> [] \<longrightarrow>
        \<not> blank_ref (x_targetBranch ctx) \<and> \<not> protected_match (x_policy ctx) (x_targetBranch ctx)) \<and>
     (x_humanApproved ctx \<or> \<not> mergeTargetNeedsFloorApproval (x_targetBranch ctx) (x_humanScopeWaives ctx)) \<and>
     (case x_mergeMethod ctx of None \<Rightarrow> MergeCommit | Some m \<Rightarrow> m) \<in> set (allowedMergeMethods (x_policy ctx)) \<and>
     (requireGreenGate (x_policy ctx) \<longrightarrow> x_gateStatus ctx = Some Green) \<and>
     (requireHumanApproval (x_policy ctx) \<longrightarrow> x_humanApproved ctx)"
  by (auto simp: evaluateAgentMerge_def Let_def)

end
