(* ===== verification/Merge_Facade.thy ===== *)
theory Merge_Facade
  imports Task_Status Merge_Policy_Laws
begin

text \<open>
  The one merge path of \<open>packages/agent/src/facades/git.facade.ts\<close> (\<open>assertAgentMayMerge\<close>,
  \<open>mergePullRequest\<close>), the policy service in front of the matrix
  (\<open>policy/merge-policy.service.ts\<close>) and the CI roll-up both read
  (\<open>plugin/.../git-provider.pr-insights.ts\<close>, \<open>tasks-domain/app-check-legs.ts\<close>). The approval
  verifier and the policy enforcer are injected ports: function arguments here, with their contracts
  as the locales \<open>approval_verifier\<close> and \<open>merge_enforcer\<close>. The git provider (its live status read and
  its merge call) is a parameter.
\<close>

section \<open>The CI roll-up\<close>

datatype ci_state = Passing | Failing | PendingCi | UnknownCi

datatype check_conclusion = Success | Failure | TimedOut | ActionRequired | Neutral | OtherConclusion string

record pr_check =
  k_name :: string
  k_completed :: bool
  k_conclusion :: "check_conclusion option"
  k_appSlug :: "string option"

definition failing_conclusion :: "check_conclusion option \<Rightarrow> bool" where
  "failing_conclusion c \<longleftrightarrow> c \<in> {Some Failure, Some TimedOut, Some ActionRequired}"

fun ci_loop :: "bool \<Rightarrow> pr_check list \<Rightarrow> ci_state" where
  "ci_loop sawPending [] = (if sawPending then PendingCi else Passing)"
| "ci_loop sawPending (c # cs) =
     (if \<not> k_completed c then ci_loop True cs
      else if failing_conclusion (k_conclusion c) then Failing
      else if k_conclusion c = None then ci_loop True cs
      else ci_loop sawPending cs)"

definition deriveCiState :: "pr_check list \<Rightarrow> ci_state" where
  "deriveCiState checks = (if checks = [] then UnknownCi else ci_loop False checks)"

definition MAX_PR_CHECKS :: nat where
  "MAX_PR_CHECKS = 20"

definition APP_CHECK_REPORTER_SLUG :: string where
  "APP_CHECK_REPORTER_SLUG = ''github-actions''"

definition isAdvisoryAppCheckLeg :: "pr_check \<Rightarrow> string list \<Rightarrow> bool" where
  "isAdvisoryAppCheckLeg c advisory =
     (k_name c \<in> set advisory \<and>
      js_lower (js_trim (case k_appSlug c of None \<Rightarrow> [] | Some s \<Rightarrow> s)) = APP_CHECK_REPORTER_SLUG)"

datatype pr_state = PrOpen | PrDraft | PrClosed | PrMerged

record pr_status =
  v_state :: pr_state
  v_ciState :: ci_state
  v_checks :: "pr_check list"
  v_checksComplete :: "bool option"
  v_headSha :: "string option"
  v_baseRef :: "string option"
  v_headRef :: "string option"
  v_headRepoFullName :: "string option"

definition neutralise_advisory :: "string list \<Rightarrow> pr_check \<Rightarrow> pr_check" where
  "neutralise_advisory advisory c =
     (if isAdvisoryAppCheckLeg c advisory \<and> k_completed c \<and> failing_conclusion (k_conclusion c)
      then c\<lparr>k_conclusion := Some Neutral\<rparr> else c)"

definition rollUpAppCiState :: "pr_status \<Rightarrow> string list \<Rightarrow> ci_state" where
  "rollUpAppCiState st advisory =
     (if advisory = [] \<or> v_ciState st \<noteq> Failing then v_ciState st
      else if \<not> (v_checksComplete st \<noteq> Some False \<and> length (v_checks st) < MAX_PR_CHECKS) then v_ciState st
      else deriveCiState (map (neutralise_advisory advisory) (v_checks st)))"

section \<open>The policy service\<close>

record scope_row =
  sr_id :: string
  sr_policy :: json
  sr_workId :: "string option"
  sr_organizationId :: "string option"
  sr_tenantId :: "string option"

text \<open>A read of the scope repository: \<open>None\<close> when it throws, \<open>Some None\<close> when there is no row.\<close>

type_synonym scope_read = "string \<Rightarrow> scope_row option option"

record scope_repo =
  findAgent :: scope_read
  findWork :: scope_read
  findOrganization :: scope_read
  findTenant :: scope_read

record scope_tuple =
  st_agentId :: "string option"
  st_workId :: "string option"
  st_organizationId :: "string option"
  st_tenantId :: "string option"

text \<open>\<open>a ?? b\<close> on values that are a string or null.\<close>

definition or_else :: "'a option \<Rightarrow> 'a option \<Rightarrow> 'a option" where
  "or_else a b = (case a of None \<Rightarrow> b | Some x \<Rightarrow> Some x)"

definition falsy_ref :: "string option \<Rightarrow> bool" where
  "falsy_ref r = (r = None \<or> r = Some [])"

definition scope_level :: "scope_read \<Rightarrow> string option \<Rightarrow> scope_row option option" where
  "scope_level find_row i = (if falsy_ref i then Some None else find_row (the i))"

definition level_layer :: "merge_scope \<Rightarrow> scope_row option \<Rightarrow> policy_layer list" where
  "level_layer s row = (case row of None \<Rightarrow> []
     | Some r \<Rightarrow> [\<lparr>l_scope = s, l_id = sr_id r, l_policy = sr_policy r\<rparr>])"

definition row_ref :: "(scope_row \<Rightarrow> string option) \<Rightarrow> scope_row option \<Rightarrow> string option" where
  "row_ref f row = (case row of None \<Rightarrow> None | Some r \<Rightarrow> f r)"

text \<open>The layers the upward walk collects, agent first; \<open>None\<close> when a read throws.\<close>

definition collect_layers :: "scope_repo \<Rightarrow> scope_tuple \<Rightarrow> policy_layer list option" where
  "collect_layers repo inp =
     (case scope_level (findAgent repo) (st_agentId inp) of None \<Rightarrow> None
      | Some agent \<Rightarrow>
       (let work0 = or_else (st_workId inp) (row_ref sr_workId agent);
            org0 = or_else (st_organizationId inp) (row_ref sr_organizationId agent);
            ten0 = or_else (st_tenantId inp) (row_ref sr_tenantId agent)
        in case scope_level (findWork repo) work0 of None \<Rightarrow> None
         | Some work \<Rightarrow>
          (let org1 = or_else org0 (row_ref sr_organizationId work);
               ten1 = or_else ten0 (row_ref sr_tenantId work)
           in case scope_level (findOrganization repo) org1 of None \<Rightarrow> None
            | Some org \<Rightarrow>
             (let ten2 = or_else ten1 (row_ref sr_tenantId org)
              in case scope_level (findTenant repo) ten2 of None \<Rightarrow> None
               | Some tenant \<Rightarrow>
                   Some (level_layer AgentScope agent @ level_layer WorkScope work @
                         level_layer Organization org @ level_layer Tenant tenant)))))"

definition default_resolution :: resolved_policy where
  "default_resolution = \<lparr>r_policy = PLATFORM_DEFAULT_MERGE_POLICY, r_source = None, r_chain = [],
     r_humanScopeWaivesApproval = False\<rparr>"

definition resolvePolicy :: "scope_repo \<Rightarrow> scope_tuple \<Rightarrow> resolved_policy" where
  "resolvePolicy repo inp = (case collect_layers repo inp of
     None \<Rightarrow> default_resolution | Some layers \<Rightarrow> resolveMergePolicyChain layers)"

record decision_input =
  di_scope :: scope_tuple
  di_gateStatus :: "gate_status option"
  di_humanApproved :: bool
  di_targetBranch :: "string option"
  di_mergeMethod :: "merge_method option"

definition decision_context :: "resolved_policy \<Rightarrow> decision_input \<Rightarrow> merge_context" where
  "decision_context r inp =
     \<lparr>x_policy = r_policy r, x_gateStatus = di_gateStatus inp, x_humanApproved = di_humanApproved inp,
      x_targetBranch = di_targetBranch inp, x_humanScopeWaives = r_humanScopeWaivesApproval r,
      x_mergeMethod = di_mergeMethod inp\<rparr>"

definition canAgentMerge :: "scope_repo \<Rightarrow> decision_input \<Rightarrow> merge_refusal option" where
  "canAgentMerge repo inp = evaluateAgentMerge (decision_context (resolvePolicy repo (di_scope inp)) inp)"

section \<open>The merge path\<close>

record approval =
  approvalId :: string
  approvedById :: string
  approvedAt :: int

type_synonym verdict = "merge_refusal + approval"

record merge_actor =
  ma_scope :: scope_tuple
  ma_gateStatus :: "gate_status option"
  ma_taskId :: "string option"
  ma_targetBranch :: "string option"
  ma_requireHumanApproval :: bool
  ma_advisoryCheckLegs :: "string list"

text \<open>
  The injected parts of the facade: \<open>resolve\<close> and \<open>canAgentMerge\<close> of the enforcer (a \<open>resolve\<close> that
  throws answers \<open>None\<close>), and the verifier, \<open>None\<close> when unbound; a verifier that throws answers
  \<open>None\<close>. The \<open>resolve\<close> before the decision and the one inside it may see different policies.
\<close>

record merge_ports =
  mp_enforcer :: "((scope_tuple \<Rightarrow> resolved_policy option) option \<times> (decision_input \<Rightarrow> merge_refusal option)) option"
  mp_verifier :: "(string \<Rightarrow> int \<Rightarrow> string \<Rightarrow> verdict option) option"
  mp_enforcementEnabled :: bool

text \<open>(1) Whether an approval is required, and whether a human scope waived the floor.\<close>

definition approval_requirement ::
  "(scope_tuple \<Rightarrow> resolved_policy option) option \<Rightarrow> merge_actor \<Rightarrow> bool \<times> bool" where
  "approval_requirement resolve actor =
     (case resolve of None \<Rightarrow> (True, False)
      | Some f \<Rightarrow> (case f (ma_scope actor) of
            None \<Rightarrow> (True, False)
          | Some r \<Rightarrow> (requireHumanApproval (r_policy r) \<or> ma_requireHumanApproval actor,
                       r_humanScopeWaivesApproval r)))"

text \<open>(2) The live read: state, CI, head. The head on success.\<close>

definition live_head :: "merge_actor \<Rightarrow> pr_status option \<Rightarrow> merge_refusal + string" where
  "live_head actor live =
     (case live of None \<Rightarrow> Inl HeadShaUnknown
      | Some st \<Rightarrow>
          if v_state st \<noteq> PrOpen then Inl PullRequestNotOpen
          else (let ci = (if ma_advisoryCheckLegs actor \<noteq> []
                          then rollUpAppCiState st (ma_advisoryCheckLegs actor) else v_ciState st)
                in if ci \<noteq> Passing \<or> v_checksComplete st = Some False then Inl PullRequestNotGreen
                   else (case normalizeCommitSha (v_headSha st) of
                            None \<Rightarrow> Inl HeadShaUnknown
                          | Some h \<Rightarrow> Inr h)))"

text \<open>(2b) The live base: known, and the one that was planned.\<close>

definition live_base :: "merge_actor \<Rightarrow> pr_status \<Rightarrow> merge_refusal + string" where
  "live_base actor st =
     (if blank_ref (v_baseRef st) then Inl TargetBranchUnknown
      else if \<not> falsy_ref (ma_targetBranch actor) \<and> \<not> sameMergeBranch (v_baseRef st) (ma_targetBranch actor)
        then Inl TargetBranchMismatch
      else Inr (the (v_baseRef st)))"

text \<open>(3) The approval gate.\<close>

definition approval_gate ::
  "merge_ports \<Rightarrow> merge_actor \<Rightarrow> int \<Rightarrow> string \<Rightarrow> merge_refusal + approval" where
  "approval_gate ports actor pr head =
     (case mp_verifier ports of
        None \<Rightarrow> Inl ApprovalMissing
      | Some verify \<Rightarrow>
          (case verify (case ma_taskId actor of None \<Rightarrow> [] | Some t \<Rightarrow> t) pr head of
             None \<Rightarrow> Inl ApprovalMissing
           | Some v \<Rightarrow> v))"

text \<open>The whole check; the head the merge must be pinned to on success.\<close>

definition assertAgentMayMerge ::
  "merge_ports \<Rightarrow> merge_actor \<Rightarrow> int \<Rightarrow> merge_method option \<Rightarrow> pr_status option
     \<Rightarrow> merge_refusal + string" where
  "assertAgentMayMerge ports actor pr mergeMethod live =
     (case mp_enforcer ports of
        None \<Rightarrow> Inl AgentMergeDisabled
      | Some (resolve, can) \<Rightarrow>
         (case approval_requirement resolve actor of (required0, waives) \<Rightarrow>
          (case live_head actor live of
             Inl c \<Rightarrow> Inl c
           | Inr head \<Rightarrow>
            (case live_base actor (the live) of
               Inl c \<Rightarrow> Inl c
             | Inr base \<Rightarrow>
              (let required = required0 \<or> mergeTargetNeedsFloorApproval (Some base) waives;
                   gate = (if required then map_sum id Some (approval_gate ports actor pr head) else Inr None)
               in case gate of
                    Inl c \<Rightarrow> Inl c
                  | Inr approval \<Rightarrow>
                      if \<not> mp_enforcementEnabled ports then Inr head
                      else (case can \<lparr>di_scope = ma_scope actor, di_gateStatus = ma_gateStatus actor,
                                     di_humanApproved = (approval \<noteq> None), di_targetBranch = Some base,
                                     di_mergeMethod = mergeMethod\<rparr> of
                              Some c \<Rightarrow> Inl c
                            | None \<Rightarrow> Inr head))))))"

text \<open>
  \<open>mergePullRequest\<close>: the provider's merge call, with the head it is pinned to, happens only when
  the check passes. The answer of the provider is not modelled; the call is the effect.
\<close>

record merge_call =
  mc_prNumber :: int
  mc_method :: "merge_method option"
  mc_expectedHeadSha :: string

definition mergePullRequest ::
  "merge_ports \<Rightarrow> merge_actor \<Rightarrow> int \<Rightarrow> merge_method option \<Rightarrow> pr_status option
     \<Rightarrow> merge_refusal + merge_call" where
  "mergePullRequest ports actor pr mergeMethod live =
     (case assertAgentMayMerge ports actor pr mergeMethod live of
        Inl c \<Rightarrow> Inl c
      | Inr head \<Rightarrow> Inr \<lparr>mc_prNumber = pr, mc_method = mergeMethod, mc_expectedHeadSha = head\<rparr>)"

section \<open>What a merge that goes through has passed\<close>

lemma live_head_Inr:
  "live_head actor live = Inr head \<longleftrightarrow>
     (\<exists>st. live = Some st \<and> v_state st = PrOpen \<and> v_checksComplete st \<noteq> Some False \<and>
        normalizeCommitSha (v_headSha st) = Some head \<and>
        (if ma_advisoryCheckLegs actor \<noteq> [] then rollUpAppCiState st (ma_advisoryCheckLegs actor)
         else v_ciState st) = Passing)"
  by (auto simp: live_head_def Let_def split: option.splits if_splits)

lemma live_base_Inr:
  "live_base actor st = Inr base \<longleftrightarrow>
     v_baseRef st = Some base \<and> js_trim base \<noteq> [] \<and>
     (falsy_ref (ma_targetBranch actor) \<or> sameMergeBranch (Some base) (ma_targetBranch actor))"
  by (auto simp: live_base_def blank_ref_def split: option.splits if_splits)

lemma merge_passed:
  assumes "mergePullRequest ports actor pr m live = Inr call"
  obtains st head base resolve can where
    "mp_enforcer ports = Some (resolve, can)" "live = Some st" "live_head actor live = Inr head"
    "live_base actor st = Inr base"
    "call = \<lparr>mc_prNumber = pr, mc_method = m, mc_expectedHeadSha = head\<rparr>"
    "fst (approval_requirement resolve actor) \<or>
       mergeTargetNeedsFloorApproval (Some base) (snd (approval_requirement resolve actor)) \<Longrightarrow>
       \<exists>a. approval_gate ports actor pr head = Inr a"
    "mp_enforcementEnabled ports \<Longrightarrow> \<exists>b. can \<lparr>di_scope = ma_scope actor,
       di_gateStatus = ma_gateStatus actor, di_humanApproved = b, di_targetBranch = Some base,
       di_mergeMethod = m\<rparr> = None \<and> (b \<longrightarrow> (\<exists>a. approval_gate ports actor pr head = Inr a))"
proof -
  obtain head where head: "assertAgentMayMerge ports actor pr m live = Inr head"
      "call = \<lparr>mc_prNumber = pr, mc_method = m, mc_expectedHeadSha = head\<rparr>"
    using assms by (auto simp: mergePullRequest_def split: sum.splits)
  obtain resolve can where ports: "mp_enforcer ports = Some (resolve, can)"
    using head(1) by (cases "mp_enforcer ports") (auto simp: assertAgentMayMerge_def)
  obtain required0 waives where req: "approval_requirement resolve actor = (required0, waives)"
    by fastforce
  obtain h where h: "live_head actor live = Inr h"
    using head(1) by (cases "live_head actor live") (auto simp: assertAgentMayMerge_def ports req)
  then obtain st where st: "live = Some st"
    by (auto simp: live_head_Inr)
  obtain base where base: "live_base actor st = Inr base"
    using head(1) by (cases "live_base actor st") (auto simp: assertAgentMayMerge_def ports req h [unfolded st] st)
  define required where "required = (required0 \<or> mergeTargetNeedsFloorApproval (Some base) waives)"
  have check: "assertAgentMayMerge ports actor pr m live =
     (case (if required then map_sum id Some (approval_gate ports actor pr h) else Inr None) of
        Inl c \<Rightarrow> Inl c
      | Inr approval \<Rightarrow>
          if \<not> mp_enforcementEnabled ports then Inr h
          else (case can \<lparr>di_scope = ma_scope actor, di_gateStatus = ma_gateStatus actor,
                   di_humanApproved = (approval \<noteq> None), di_targetBranch = Some base,
                   di_mergeMethod = m\<rparr> of Some c \<Rightarrow> Inl c | None \<Rightarrow> Inr h))"
    using h base by (simp add: assertAgentMayMerge_def ports req h [unfolded st] st required_def Let_def)
  have same: "head = h" using head(1) unfolding check by (auto split: sum.splits if_splits option.splits)
  have gate: "required \<Longrightarrow> \<exists>a. approval_gate ports actor pr head = Inr a"
    using head(1) unfolding check same by (cases "approval_gate ports actor pr h") auto
  have matrix: "mp_enforcementEnabled ports \<Longrightarrow> \<exists>b. can \<lparr>di_scope = ma_scope actor,
       di_gateStatus = ma_gateStatus actor, di_humanApproved = b, di_targetBranch = Some base,
       di_mergeMethod = m\<rparr> = None \<and> (b \<longrightarrow> (\<exists>a. approval_gate ports actor pr head = Inr a))"
    using head(1) gate unfolding check same
    by (cases required; cases "approval_gate ports actor pr h") (auto split: option.splits)
  show thesis
    by (rule that [OF ports st _ base head(2)]) (use h same gate matrix req required_def in auto)
qed

section \<open>The two ports\<close>

text \<open>What \<open>MERGE_APPROVAL_VERIFIER\<close> promises: an approval names its evidence.\<close>

locale approval_verifier =
  fixes verify :: "'w \<Rightarrow> string \<Rightarrow> int \<Rightarrow> string \<Rightarrow> verdict"
    and evidence :: "'w \<Rightarrow> string \<Rightarrow> int \<Rightarrow> string \<Rightarrow> approval \<Rightarrow> bool"
  assumes approved_evidence: "verify w task pr head = Inr a \<Longrightarrow> evidence w task pr head a"
begin

lemma gate_evidence:
  assumes "approval_gate ports actor pr head = Inr a" "mp_verifier ports = Some (\<lambda>t p h. Some (verify w t p h))"
  shows "\<exists>t. t = (case ma_taskId actor of None \<Rightarrow> [] | Some t \<Rightarrow> t) \<and> evidence w t pr head a"
  using assms approved_evidence by (simp add: approval_gate_def)

end

text \<open>What \<open>MERGE_POLICY_ENFORCER\<close> promises: it allows only what the matrix allows on its resolution.\<close>

locale merge_enforcer =
  fixes resolve :: "'p \<Rightarrow> scope_tuple \<Rightarrow> resolved_policy"
    and can :: "'p \<Rightarrow> decision_input \<Rightarrow> merge_refusal option"
  assumes can_sound: "can p inp = None \<Longrightarrow> evaluateAgentMerge (decision_context (resolve p (di_scope inp)) inp) = None"
begin

lemma allowed_target:
  assumes "can p inp = None"
  shows "allowAgentMerge (r_policy (resolve p (di_scope inp))) \<and>
    (protectedBranches (r_policy (resolve p (di_scope inp))) \<noteq> [] \<longrightarrow>
       \<not> protected_match (r_policy (resolve p (di_scope inp))) (di_targetBranch inp)) \<and>
    (di_humanApproved inp \<or> \<not> mergeTargetNeedsFloorApproval (di_targetBranch inp)
       (r_humanScopeWaivesApproval (resolve p (di_scope inp)))) \<and>
    (requireGreenGate (r_policy (resolve p (di_scope inp))) \<longrightarrow> di_gateStatus inp = Some Green) \<and>
    (requireHumanApproval (r_policy (resolve p (di_scope inp))) \<longrightarrow> di_humanApproved inp)"
  using can_sound [OF assms] by (simp add: evaluate_allows_iff decision_context_def)

end

interpretation policy_service: merge_enforcer resolvePolicy canAgentMerge
  by unfold_locales (simp add: canAgentMerge_def)

section \<open>The CI roll-up never hides a required failure\<close>

lemma ci_loop_passing:
  "ci_loop sp cs = Passing \<longleftrightarrow>
     \<not> sp \<and> (\<forall>c\<in>set cs. k_completed c \<and> k_conclusion c \<noteq> None \<and> \<not> failing_conclusion (k_conclusion c))"
  by (induction sp cs rule: ci_loop.induct) (auto simp: failing_conclusion_def)

lemma deriveCiState_passing:
  "deriveCiState cs = Passing \<longleftrightarrow> cs \<noteq> [] \<and>
     (\<forall>c\<in>set cs. k_completed c \<and> k_conclusion c \<noteq> None \<and> \<not> failing_conclusion (k_conclusion c))"
  by (simp add: deriveCiState_def ci_loop_passing)

lemma neutralise_passing:
  assumes "k_completed (neutralise_advisory adv c)" "\<not> failing_conclusion (k_conclusion (neutralise_advisory adv c))"
  shows "k_completed c \<and> (failing_conclusion (k_conclusion c) \<longrightarrow> isAdvisoryAppCheckLeg c adv)"
  using assms by (auto simp: neutralise_advisory_def split: if_splits)

lemma neutralise_same_verdict:
  "k_conclusion c = None \<Longrightarrow> k_conclusion (neutralise_advisory adv c) = None"
  by (simp add: neutralise_advisory_def failing_conclusion_def)

end
