(* ===== verification/Approval_Queue.thy ===== *)
theory Approval_Queue
  imports Js_Values
begin

text \<open>
  The agent action approval queue: the risk scorer (\<open>agent-approvals/risk-scorer.ts\<close>), the dispatch
  guardrails (\<open>agents/guardrails.ts\<close>) folded with the trust ladder
  (\<open>safety/guardrail-interop.ts\<close>), and the queue operations \<open>createProposal\<close>, \<open>decide\<close> and
  \<open>approveAll\<close> of \<open>agent-approvals/agent-approvals.service.ts\<close>. The table is a list of rows under
  the unique index on \<open>(actionType, subjectKey)\<close>; the agents, the resolved ladder, the row ids and
  the clock are arguments.
\<close>

section \<open>Proposals\<close>

datatype action_type = SpawnAgent | ScheduleTask | SendMessage | BudgetOverride | MergePullRequest | OtherAction

datatype risk_flag = RiskBudgetOverride | RiskDestructive | RiskCrossScope | RiskHighFanout

datatype proposal_status = ProposalPending | ProposalApproved | ProposalRejected

datatype decided_via = ViaUser | ViaGuardrail

record proposal_payload =
  y_destructive :: json
  y_crossScope :: json
  y_sourceScope :: "string option"
  y_targetScope :: "string option"
  y_spawnDepth :: json
  y_kind :: "string option"

record proposal =
  q_id :: string
  q_userId :: string
  q_agentId :: string
  q_actionType :: action_type
  q_title :: string
  q_payload :: proposal_payload
  q_subjectKey :: "string option"
  q_riskFlags :: "risk_flag list"
  q_status :: proposal_status
  q_decidedById :: "string option"
  q_decidedAt :: "int option"
  q_decidedVia :: "decided_via option"
  q_createdAt :: int

section \<open>The risk scorer\<close>

definition HIGH_FANOUT_DEPTH :: js_number where
  "HIGH_FANOUT_DEPTH = Fin 3"

definition isCrossScope :: "proposal_payload \<Rightarrow> bool" where
  "isCrossScope p =
     (y_crossScope p = JBool True \<or>
      (case (y_sourceScope p, y_targetScope p) of (Some s, Some t) \<Rightarrow> s \<noteq> t | _ \<Rightarrow> False))"

definition FLAG_ORDER :: "risk_flag list" where
  "FLAG_ORDER = [RiskBudgetOverride, RiskDestructive, RiskCrossScope, RiskHighFanout]"

fun risk_applies :: "action_type \<Rightarrow> proposal_payload \<Rightarrow> risk_flag \<Rightarrow> bool" where
  "risk_applies a p RiskBudgetOverride = (a = BudgetOverride)"
| "risk_applies a p RiskDestructive = (truthy (y_destructive p) \<or> a = MergePullRequest)"
| "risk_applies a p RiskCrossScope = isCrossScope p"
| "risk_applies a p RiskHighFanout =
     (case y_spawnDepth p of JNum n \<Rightarrow> js_le HIGH_FANOUT_DEPTH n | _ \<Rightarrow> False)"

definition RISK_SCORER :: "action_type \<Rightarrow> proposal_payload \<Rightarrow> risk_flag list" where
  "RISK_SCORER a p = filter (risk_applies a p) FLAG_ORDER"

section \<open>Guardrails and the trust ladder\<close>

datatype guardrail_mode = RequireApproval | Autonomous

record guardrails =
  g_mode :: guardrail_mode
  g_autoApprove :: "action_type list option"
  g_blocked :: "action_type list option"

datatype guardrail_decision = Queue | AutoApprove | Block

definition evaluateGuardrails ::
  "guardrails option \<Rightarrow> action_type \<Rightarrow> risk_flag list \<Rightarrow> guardrail_decision" where
  "evaluateGuardrails guard a flags = (case guard of
     None \<Rightarrow> Queue
   | Some g \<Rightarrow>
       if (case g_blocked g of None \<Rightarrow> False | Some bs \<Rightarrow> a \<in> set bs) then Block
       else if a = MergePullRequest then Queue
       else if g_mode g = Autonomous \<and> flags = [] \<and>
               (case g_autoApprove g of None \<Rightarrow> True | Some as \<Rightarrow> a \<in> set as) then AutoApprove
       else Queue)"

datatype action_category = AgentFanout | MessageExternal | SpendMetered | PublishExternal

datatype trust_rung = RungOff | RungDraft | RungAsk | RungAuto

record ladder_entry =
  le_enforced :: bool
  le_rung :: trust_rung

type_synonym resolved_ladder = "action_category \<Rightarrow> ladder_entry option"

fun PROPOSAL_ACTION_CATEGORY :: "action_type \<Rightarrow> action_category option" where
  "PROPOSAL_ACTION_CATEGORY SpawnAgent = Some AgentFanout"
| "PROPOSAL_ACTION_CATEGORY ScheduleTask = Some AgentFanout"
| "PROPOSAL_ACTION_CATEGORY SendMessage = Some MessageExternal"
| "PROPOSAL_ACTION_CATEGORY BudgetOverride = Some SpendMetered"
| "PROPOSAL_ACTION_CATEGORY MergePullRequest = Some PublishExternal"
| "PROPOSAL_ACTION_CATEGORY OtherAction = None"

definition applyLadderToGuardrailDecision ::
  "guardrail_decision \<Rightarrow> action_type \<Rightarrow> resolved_ladder option \<Rightarrow> guardrail_decision" where
  "applyLadderToGuardrailDecision decision a ladder =
     (if decision = Block then Block
      else (case ladder of None \<Rightarrow> decision
        | Some l \<Rightarrow> (case PROPOSAL_ACTION_CATEGORY a of None \<Rightarrow> decision
            | Some cat \<Rightarrow> (case l cat of None \<Rightarrow> decision
                | Some en \<Rightarrow>
                    if \<not> le_enforced en then decision
                    else if le_rung en = RungOff then Block
                    else if le_rung en = RungDraft \<or> le_rung en = RungAsk then Queue
                    else decision))))"

section \<open>The queue\<close>

datatype queue_error = EmptyTitle | AgentNotFound | UniqueViolation | ProposalNotFound | AlreadyDecided

datatype queue_effect =
    InboxPending string
  | EmitDecided string proposal_status
  | CloseInbox string proposal_status

record agent_row =
  ag_owner :: string
  ag_guardrails :: "guardrails option"

record proposal_input =
  in_agentId :: string
  in_actionType :: action_type
  in_title :: string
  in_subjectKey :: "string option"
  in_payload :: proposal_payload
  in_humanDecisionRequired :: bool

type_synonym queue = "proposal list"

text \<open>\<open>save\<close> of a new row under the unique index; a null subject key is never equal to another.\<close>

definition unique_clash :: "proposal \<Rightarrow> queue \<Rightarrow> bool" where
  "unique_clash row rows =
     (q_subjectKey row \<noteq> None \<and>
      (\<exists>r\<in>set rows. q_actionType r = q_actionType row \<and> q_subjectKey r = q_subjectKey row))"

text \<open>The row \<open>createProposal\<close> builds, with the decision of the guardrails applied to it.\<close>

definition new_proposal ::
  "string \<Rightarrow> proposal_input \<Rightarrow> guardrail_decision \<Rightarrow> string \<Rightarrow> int \<Rightarrow> proposal" where
  "new_proposal userId inp decision newId now =
     (let row = \<lparr>q_id = newId, q_userId = userId, q_agentId = in_agentId inp,
                 q_actionType = in_actionType inp, q_title = take 200 (js_trim (in_title inp)),
                 q_payload = in_payload inp, q_subjectKey = in_subjectKey inp,
                 q_riskFlags = RISK_SCORER (in_actionType inp) (in_payload inp),
                 q_status = ProposalPending, q_decidedById = None, q_decidedAt = None,
                 q_decidedVia = None, q_createdAt = now\<rparr>
      in if decision = AutoApprove \<and> \<not> in_humanDecisionRequired inp
         then row\<lparr>q_status := ProposalApproved, q_decidedAt := Some now, q_decidedVia := Some ViaGuardrail\<rparr>
         else if decision = Block
         then row\<lparr>q_status := ProposalRejected, q_decidedAt := Some now, q_decidedVia := Some ViaGuardrail\<rparr>
         else row)"

definition createProposal ::
  "(string \<rightharpoonup> agent_row) \<Rightarrow> (string \<Rightarrow> resolved_ladder option) \<Rightarrow> string \<Rightarrow> int \<Rightarrow> string \<Rightarrow> proposal_input
     \<Rightarrow> queue \<Rightarrow> (queue_error + proposal) \<times> queue_effect list \<times> queue" where
  "createProposal agents ladder newId now userId inp rows =
     (if js_trim (in_title inp) = [] then (Inl EmptyTitle, [], rows)
      else (case agents (in_agentId inp) of
          None \<Rightarrow> (Inl AgentNotFound, [], rows)
        | Some ag \<Rightarrow>
            if ag_owner ag \<noteq> userId then (Inl AgentNotFound, [], rows)
            else (let flags = RISK_SCORER (in_actionType inp) (in_payload inp);
                      decision = applyLadderToGuardrailDecision
                        (evaluateGuardrails (ag_guardrails ag) (in_actionType inp) flags)
                        (in_actionType inp) (ladder (in_agentId inp));
                      row = new_proposal userId inp decision newId now
                  in if unique_clash row rows then (Inl UniqueViolation, [], rows)
                     else (Inr row,
                           (if q_status row = ProposalPending then [InboxPending (q_id row)] else []),
                           rows @ [row]))))"

text \<open>\<open>UPDATE ... WHERE id AND userId AND status = 'pending'\<close>: the row count and the new table.\<close>

definition decided_row :: "proposal \<Rightarrow> string \<Rightarrow> proposal_status \<Rightarrow> int \<Rightarrow> proposal" where
  "decided_row r userId decision now =
     r\<lparr>q_status := decision, q_decidedById := Some userId, q_decidedAt := Some now,
       q_decidedVia := Some ViaUser\<rparr>"

definition claimDecision ::
  "string \<Rightarrow> string \<Rightarrow> proposal_status \<Rightarrow> int \<Rightarrow> queue \<Rightarrow> bool \<times> queue" where
  "claimDecision pid userId decision now rows =
     (let hit = (\<lambda>r. q_id r = pid \<and> q_userId r = userId \<and> q_status r = ProposalPending)
      in (list_ex hit rows, map (\<lambda>r. if hit r then decided_row r userId decision now else r) rows))"

definition requireOwned :: "string \<Rightarrow> string \<Rightarrow> queue \<Rightarrow> proposal option" where
  "requireOwned userId pid rows = List.find (\<lambda>r. q_id r = pid \<and> q_userId r = userId) rows"

text \<open>\<open>rival\<close> is what others write between the read of the row and the compare-and-set.\<close>

definition decide ::
  "(queue \<Rightarrow> queue) \<Rightarrow> int \<Rightarrow> string \<Rightarrow> string \<Rightarrow> proposal_status \<Rightarrow> queue
     \<Rightarrow> (queue_error + proposal) \<times> queue_effect list \<times> queue" where
  "decide rival now userId pid decision rows =
     (case requireOwned userId pid rows of
        None \<Rightarrow> (Inl ProposalNotFound, [], rows)
      | Some row \<Rightarrow>
          if q_status row \<noteq> ProposalPending then (Inl AlreadyDecided, [], rows)
          else (case claimDecision pid userId decision now (rival rows) of
                  (False, rows') \<Rightarrow> (Inl AlreadyDecided, [], rows')
                | (True, rows') \<Rightarrow>
                    (Inr (decided_row row userId decision now),
                     [EmitDecided pid decision, CloseInbox pid decision], rows')))"

definition requiresIndividualDecision :: "proposal \<Rightarrow> bool" where
  "requiresIndividualDecision r =
     (q_actionType r = MergePullRequest \<or>
      q_actionType r = SendMessage \<and> y_kind (q_payload r) = Some ''email-draft'' \<or>
      q_actionType r = OtherAction \<and>
        (case y_kind (q_payload r) of None \<Rightarrow> False
         | Some k \<Rightarrow> k \<in> set [''agent-file-edit'', ''agent-escalation-resolution'', ''fleet-tool-call'']))"

text \<open>The loop over the rows read as pending; \<open>rival\<close> writes before each claim.\<close>

fun claim_each ::
  "(nat \<Rightarrow> queue \<Rightarrow> queue) \<Rightarrow> nat \<Rightarrow> int \<Rightarrow> string \<Rightarrow> proposal list \<Rightarrow> queue \<Rightarrow> proposal list \<times> queue" where
  "claim_each rival n now userId [] rows = ([], rows)"
| "claim_each rival n now userId (r # rs) rows =
     (case claimDecision (q_id r) userId ProposalApproved now (rival n rows) of (won, rows') \<Rightarrow>
        (case claim_each rival (Suc n) now userId rs rows' of (won_rows, rows'') \<Rightarrow>
           (if won then decided_row r userId ProposalApproved now # won_rows else won_rows, rows'')))"

definition approveAll ::
  "(nat \<Rightarrow> queue \<Rightarrow> queue) \<Rightarrow> int \<Rightarrow> string \<Rightarrow> string list option \<Rightarrow> queue
     \<Rightarrow> (nat \<times> nat \<times> nat) \<times> queue_effect list \<times> queue" where
  "approveAll rival now userId ids queue =
     (if ids = Some [] then ((0, 0, 0), [], queue)
      else (let rows = filter (\<lambda>r. q_userId r = userId \<and>
                  (case ids of None \<Rightarrow> q_status r = ProposalPending | Some is \<Rightarrow> q_id r \<in> set is)) queue;
                excluded = length (filter (\<lambda>r. q_status r = ProposalPending \<and> requiresIndividualDecision r) rows);
                pending = filter (\<lambda>r. q_status r = ProposalPending \<and> \<not> requiresIndividualDecision r) rows;
                skipped = length rows - length pending - excluded
            in if pending = [] then ((0, skipped, excluded), [], queue)
               else (case claim_each rival 0 now userId pending queue of (decided, queue') \<Rightarrow>
                  ((length decided, skipped + (length pending - length decided), excluded),
                   concat (map (\<lambda>r. [EmitDecided (q_id r) ProposalApproved, CloseInbox (q_id r) ProposalApproved]) decided),
                   queue'))))"

end
