(* ===== verification/Approval_Laws.thy ===== *)
theory Approval_Laws
  imports Approval_Queue
begin

text \<open>
  The approval queue as a transition system: any caller may file a proposal, any owner may claim a
  decision, in any order. The lemmas give the invariant of the table, show that a decision is final,
  and that the ladder only ever tightens what the guardrails allow.
\<close>

section \<open>Rows\<close>

definition proposal_ok :: "proposal \<Rightarrow> bool" where
  "proposal_ok r \<longleftrightarrow>
     (q_status r = ProposalPending \<longrightarrow> q_decidedById r = None \<and> q_decidedAt r = None \<and> q_decidedVia r = None) \<and>
     (q_status r \<noteq> ProposalPending \<longrightarrow> q_decidedAt r \<noteq> None \<and>
        (q_decidedVia r = Some ViaUser \<and> q_decidedById r = Some (q_userId r) \<or>
         q_decidedVia r = Some ViaGuardrail \<and> q_decidedById r = None \<and>
           \<not> (q_status r = ProposalApproved \<and> q_actionType r = MergePullRequest)))"

definition queue_ok :: "queue \<Rightarrow> bool" where
  "queue_ok rows \<longleftrightarrow> distinct (map q_id rows) \<and> (\<forall>r\<in>set rows. proposal_ok r) \<and>
     (\<forall>a\<in>set rows. \<forall>b\<in>set rows. q_subjectKey a \<noteq> None \<and> q_actionType a = q_actionType b \<and>
        q_subjectKey a = q_subjectKey b \<longrightarrow> a = b)"

lemma queue_ok_Nil [simp]: "queue_ok []"
  by (simp add: queue_ok_def)

text \<open>The columns a claim leaves alone.\<close>

lemma decided_row_simps [simp]:
  "q_id (decided_row r u d n) = q_id r"
  "q_userId (decided_row r u d n) = q_userId r"
  "q_actionType (decided_row r u d n) = q_actionType r"
  "q_subjectKey (decided_row r u d n) = q_subjectKey r"
  "q_status (decided_row r u d n) = d"
  "q_decidedById (decided_row r u d n) = Some u"
  "q_decidedAt (decided_row r u d n) = Some n"
  "q_decidedVia (decided_row r u d n) = Some ViaUser"
  "q_payload (decided_row r u d n) = q_payload r"
  by (simp_all add: decided_row_def)

section \<open>Guardrails\<close>

lemma merge_is_flagged: "RiskDestructive \<in> set (RISK_SCORER MergePullRequest p)"
  by (simp add: RISK_SCORER_def FLAG_ORDER_def)

lemma auto_approve_iff:
  "applyLadderToGuardrailDecision (evaluateGuardrails guard a flags) a ladder = AutoApprove \<Longrightarrow>
     flags = [] \<and> a \<noteq> MergePullRequest \<and>
     (\<exists>g. guard = Some g \<and> g_mode g = Autonomous \<and>
        (\<forall>as. g_autoApprove g = Some as \<longrightarrow> a \<in> set as) \<and> (\<forall>bs. g_blocked g = Some bs \<longrightarrow> a \<notin> set bs))"
  unfolding applyLadderToGuardrailDecision_def evaluateGuardrails_def
  by (cases guard) (auto split: option.splits if_splits)

fun strictness :: "guardrail_decision \<Rightarrow> nat" where
  "strictness AutoApprove = 0"
| "strictness Queue = 1"
| "strictness Block = 2"

lemma ladder_only_tightens:
  "strictness d \<le> strictness (applyLadderToGuardrailDecision d a ladder)"
  by (cases d) (auto simp: applyLadderToGuardrailDecision_def split: option.splits)

lemma new_proposal_simps [simp]:
  "q_id (new_proposal u inp d i n) = i"
  "q_userId (new_proposal u inp d i n) = u"
  "q_actionType (new_proposal u inp d i n) = in_actionType inp"
  "q_subjectKey (new_proposal u inp d i n) = in_subjectKey inp"
  by (simp_all add: new_proposal_def Let_def)

lemma new_proposal_ok:
  assumes "d = AutoApprove \<Longrightarrow> in_actionType inp \<noteq> MergePullRequest"
  shows "proposal_ok (new_proposal u inp d i n)"
  using assms by (cases d) (auto simp: new_proposal_def Let_def proposal_ok_def)

section \<open>The transition system\<close>

inductive queue_step :: "queue \<Rightarrow> queue \<Rightarrow> bool" where
  created: "createProposal agents ladder newId now userId inp rows = (res, effs, rows') \<Longrightarrow>
     newId \<notin> q_id ` set rows \<Longrightarrow> queue_step rows rows'"
| claimed: "claimDecision pid userId decision now rows = (won, rows') \<Longrightarrow>
     decision \<noteq> ProposalPending \<Longrightarrow> queue_step rows rows'"

inductive_cases queue_stepE: "queue_step rows rows'"

inductive queue_reachable :: "queue \<Rightarrow> queue \<Rightarrow> bool" for start where
  start: "queue_reachable start start"
| step: "queue_reachable start rows \<Longrightarrow> queue_step rows rows' \<Longrightarrow> queue_reachable start rows'"

lemma create_cases:
  assumes "createProposal agents ladder newId now userId inp rows = (res, effs, rows')"
  obtains (refused) "rows' = rows" "\<exists>e. res = Inl e"
  | (filed) ag d where "agents (in_agentId inp) = Some ag" "ag_owner ag = userId"
      "d = applyLadderToGuardrailDecision (evaluateGuardrails (ag_guardrails ag) (in_actionType inp)
             (RISK_SCORER (in_actionType inp) (in_payload inp))) (in_actionType inp) (ladder (in_agentId inp))"
      "\<not> unique_clash (new_proposal userId inp d newId now) rows"
      "rows' = rows @ [new_proposal userId inp d newId now]"
      "res = Inr (new_proposal userId inp d newId now)"
proof -
  show thesis
  proof (cases "js_trim (in_title inp) = []")
    case True
    then show thesis using assms refused by (auto simp: createProposal_def)
  next
    case titled: False
    show thesis
    proof (cases "agents (in_agentId inp)")
      case None
      then show thesis using assms titled refused by (auto simp: createProposal_def)
    next
      case (Some ag)
      then show thesis
        using assms titled refused filed
        by (fastforce simp: createProposal_def Let_def split: if_splits)
    qed
  qed
qed

lemma claim_rows:
  "snd (claimDecision pid u d n rows) =
     map (\<lambda>r. if q_id r = pid \<and> q_userId r = u \<and> q_status r = ProposalPending
              then decided_row r u d n else r) rows"
  by (simp add: claimDecision_def Let_def)

lemma claim_keeps_decided:
  "r \<in> set rows \<Longrightarrow> q_status r \<noteq> ProposalPending \<Longrightarrow> r \<in> set (snd (claimDecision pid u d n rows))"
  unfolding claim_rows by force

lemma claim_keeps_other:
  "r \<in> set rows \<Longrightarrow> q_id r \<noteq> pid \<Longrightarrow> r \<in> set (snd (claimDecision pid u d n rows))"
  unfolding claim_rows by force

lemma step_keeps_decided:
  "queue_step rows rows' \<Longrightarrow> r \<in> set rows \<Longrightarrow> q_status r \<noteq> ProposalPending \<Longrightarrow> r \<in> set rows'"
proof (erule queue_stepE)
  fix agents ladder newId now userId inp res effs
  assume r: "r \<in> set rows"
    and create: "createProposal agents ladder newId now userId inp rows = (res, effs, rows')"
  from create show "r \<in> set rows'"
    by (cases rule: create_cases) (use r in auto)
next
  fix pid u d n won
  assume "claimDecision pid u d n rows = (won, rows')" "r \<in> set rows" "q_status r \<noteq> ProposalPending"
  then show "r \<in> set rows'" using claim_keeps_decided [of r rows pid u d n] by simp
qed

lemma create_keeps_ok:
  assumes ok: "queue_ok rows" and fresh: "newId \<notin> q_id ` set rows"
    and create: "createProposal agents ladder newId now userId inp rows = (res, effs, rows')"
  shows "queue_ok rows'"
  using create
proof (cases rule: create_cases)
  case refused
  then show ?thesis using ok by simp
next
  case (filed ag d)
  let ?row = "new_proposal userId inp d newId now"
  have row: "proposal_ok ?row"
    using auto_approve_iff filed(3) by (intro new_proposal_ok) metis
  have alone: "\<forall>r\<in>set rows. q_subjectKey r \<noteq> None \<and> q_actionType r = q_actionType ?row
      \<longrightarrow> q_subjectKey r \<noteq> q_subjectKey ?row"
    using filed(4) by (auto simp: unique_clash_def)
  have "\<forall>a\<in>set (rows @ [?row]). \<forall>b\<in>set (rows @ [?row]). q_subjectKey a \<noteq> None \<and>
      q_actionType a = q_actionType b \<and> q_subjectKey a = q_subjectKey b \<longrightarrow> a = b"
    using ok alone unfolding queue_ok_def by (auto 0 3)
  moreover have "distinct (map q_id (rows @ [?row]))"
    using ok fresh by (auto simp: queue_ok_def)
  moreover have "\<forall>r\<in>set (rows @ [?row]). proposal_ok r"
    using ok row by (auto simp: queue_ok_def)
  ultimately show ?thesis using filed(5) by (simp only: queue_ok_def)
qed

lemma claim_keeps_ok:
  assumes "queue_ok rows" "d \<noteq> ProposalPending"
  shows "queue_ok (snd (claimDecision pid u d n rows))"
proof -
  let ?f = "\<lambda>r. if q_id r = pid \<and> q_userId r = u \<and> q_status r = ProposalPending
              then decided_row r u d n else r"
  have same: "q_id (?f r) = q_id r" "q_actionType (?f r) = q_actionType r"
      "q_subjectKey (?f r) = q_subjectKey r" for r
    by simp_all
  have "map q_id (map ?f rows) = map q_id rows" by simp
  then have "distinct (map q_id (map ?f rows))" using assms(1) unfolding queue_ok_def by metis
  moreover have "proposal_ok (?f r)" if "proposal_ok r" for r
    using that assms(2) by (simp add: proposal_ok_def)
  then have "\<forall>r\<in>?f ` set rows. proposal_ok r" using assms(1) unfolding queue_ok_def by (intro ballI) (elim imageE, blast)
  then have "\<forall>r\<in>set (map ?f rows). proposal_ok r" by (simp only: set_map)
  moreover have "a = b" if "a \<in> set (map ?f rows)" "b \<in> set (map ?f rows)" "q_subjectKey a \<noteq> None"
      "q_actionType a = q_actionType b" "q_subjectKey a = q_subjectKey b" for a b
  proof -
    from that obtain x y where xy: "x \<in> set rows" "y \<in> set rows" "a = ?f x" "b = ?f y" by auto
    have "q_subjectKey x \<noteq> None" "q_actionType x = q_actionType y" "q_subjectKey x = q_subjectKey y"
      using that(3-5) unfolding xy(3,4) by (simp_all only: same not_False_eq_True)
    then have "x = y"
      using assms(1) xy(1,2) unfolding queue_ok_def by blast
    then show "a = b" using xy(3,4) by (simp only:)
  qed
  ultimately show ?thesis unfolding queue_ok_def claim_rows by blast
qed

lemma step_keeps_ok: "queue_step rows rows' \<Longrightarrow> queue_ok rows \<Longrightarrow> queue_ok rows'"
  by (erule queue_stepE) (metis create_keeps_ok, metis claim_keeps_ok snd_conv)

lemma reachable_queue_ok: "queue_reachable start rows \<Longrightarrow> queue_ok start \<Longrightarrow> queue_ok rows"
  by (induction rule: queue_reachable.induct) (auto dest: step_keeps_ok)

lemma reachable_keeps_decided:
  "queue_reachable start rows \<Longrightarrow> r \<in> set start \<Longrightarrow> q_status r \<noteq> ProposalPending \<Longrightarrow> r \<in> set rows"
  by (induction rule: queue_reachable.induct) (auto dest: step_keeps_decided)

lemma reachable_trans:
  assumes "queue_reachable b c" "queue_reachable a b"
  shows "queue_reachable a c"
  using assms by (induction rule: queue_reachable.induct) (auto intro: queue_reachable.step)

section \<open>Bulk approval\<close>

lemma claim_each_keeps:
  assumes "\<And>m q. r \<in> set q \<Longrightarrow> r \<in> set (rival m q)" "q_id r \<notin> q_id ` set rs" "r \<in> set rows"
  shows "r \<in> set (snd (claim_each rival n now u rs rows))"
  using assms(2,3)
proof (induction rs arbitrary: n rows)
  case Nil
  then show ?case by simp
next
  case (Cons x rs)
  obtain won rows' where claim: "claimDecision (q_id x) u ProposalApproved now (rival n rows) = (won, rows')"
    by fastforce
  have "r \<in> set (rival n rows)" using assms(1) Cons.prems(2) by blast
  then have "r \<in> set rows'"
    using claim_keeps_other [of r "rival n rows" "q_id x" u ProposalApproved now] claim Cons.prems(1) by auto
  then have "r \<in> set (snd (claim_each rival (Suc n) now u rs rows'))"
    using Cons.IH Cons.prems(1) by simp
  then show ?case by (auto simp: claim split: prod.splits)
qed

end
