(* ===== verification/Merge_Approval.thy ===== *)
theory Merge_Approval
  imports Merge_Facade Approval_Laws
begin

text \<open>
  The recorded approval of a merge: the subject key
  (\<open>packages/contracts/src/policy/merge-approval.types.ts\<close>) and the two halves of
  \<open>packages/agent/src/agent-approvals/merge-approval.service.ts\<close>, \<open>verifyMergeApproval\<close> and
  \<open>requestMergeApproval\<close>. The proposal table is the queue of \<open>Approval_Queue\<close>; Tasks, users, the
  Organization roster and the Tenant owner are read through a \<open>directory\<close>; a store read that may
  throw is an option.
\<close>

section \<open>The subject key\<close>

definition MERGE_APPROVAL_MAX_AGE_MS :: int where
  "MERGE_APPROVAL_MAX_AGE_MS = 24 * 60 * 60 * 1000"

definition MERGE_APPROVAL_SUBJECT_KEY_MAX_LENGTH :: nat where
  "MERGE_APPROVAL_SUBJECT_KEY_MAX_LENGTH = 200"

text \<open>\<open>merge:<taskId>:<prNumber>:<headSha>\<close>; \<open>None\<close> where the code throws.\<close>

definition mergeApprovalPullRequestKeyPrefix :: "string \<Rightarrow> int \<Rightarrow> string option" where
  "mergeApprovalPullRequestKeyPrefix task pr =
     (let t = js_trim task in
      if t = [] then None else if pr \<le> 0 then None
      else Some (''merge:'' @ t @ '':'' @ decimal (nat pr) @ '':''))"

definition mergeApprovalSubjectKey :: "string \<Rightarrow> int \<Rightarrow> string \<Rightarrow> string option" where
  "mergeApprovalSubjectKey task pr sha =
     (let t = js_trim task in
      if t = [] then None else if pr \<le> 0 then None
      else (case normalizeCommitSha (Some sha) of
          None \<Rightarrow> None
        | Some head \<Rightarrow>
            (let key = ''merge:'' @ t @ '':'' @ decimal (nat pr) @ '':'' @ head
             in if length key > MERGE_APPROVAL_SUBJECT_KEY_MAX_LENGTH then None else Some key)))"

section \<open>Who may approve\<close>

record approval_task =
  at_userId :: string
  at_tenantId :: "string option"
  at_organizationId :: "string option"

record account =
  u_isActive :: bool
  u_isAnonymous :: bool
  u_tenantId :: "string option"

datatype roster_size = NoCounter | CounterThrew | RosterSize nat

record roster =
  findByOrgAndUser :: "string \<Rightarrow> string \<Rightarrow> bool"
  countForOrganization :: "string \<Rightarrow> roster_size"

text \<open>A lookup whose \<open>catch(() => null)\<close> fired answers \<open>None\<close>.\<close>

record directory =
  d_tasks :: "string \<rightharpoonup> approval_task"
  d_users :: "string \<rightharpoonup> account"
  d_roster :: "roster option"
  d_tenantOwner :: "(string \<rightharpoonup> string) option"

definition falsy_id :: "string option \<Rightarrow> bool" where
  "falsy_id i = (i = None \<or> i = Some [])"

definition isTenantOwner :: "directory \<Rightarrow> string \<Rightarrow> string option \<Rightarrow> bool" where
  "isTenantOwner d userId tenantId =
     (if falsy_id tenantId then False
      else (case d_tenantOwner d of None \<Rightarrow> False
        | Some owner \<Rightarrow> owner (the tenantId) = Some userId))"

definition entitledToApprove :: "directory \<Rightarrow> string \<Rightarrow> string \<Rightarrow> bool" where
  "entitledToApprove d taskId uid =
     (case d_tasks d taskId of None \<Rightarrow> False
      | Some t \<Rightarrow>
       (case d_users d uid of None \<Rightarrow> False
        | Some u \<Rightarrow>
          if \<not> u_isActive u then False
          else if u_isAnonymous u then False
          else if falsy_id (at_organizationId t) then uid = at_userId t
          else if falsy_id (at_tenantId t) \<or> u_tenantId u \<noteq> at_tenantId t then False
          else (case d_roster d of None \<Rightarrow> True
            | Some r \<Rightarrow>
                if findByOrgAndUser r (the (at_organizationId t)) uid then True
                else if isTenantOwner d uid (at_tenantId t) then True
                else (case countForOrganization r (the (at_organizationId t)) of
                        CounterThrew \<Rightarrow> False
                      | NoCounter \<Rightarrow> False
                      | RosterSize n \<Rightarrow> n = 0))))"

section \<open>Reading the record back\<close>

text \<open>SQL \<open>LIKE\<close>, with its two wildcards.\<close>

fun sql_like :: "string \<Rightarrow> string \<Rightarrow> bool" where
  "sql_like [] s = (s = [])"
| "sql_like (p # ps) [] = (p = CHR ''%'' \<and> sql_like ps [])"
| "sql_like (p # ps) (c # s) =
     (if p = CHR ''%'' then sql_like ps (c # s) \<or> sql_like (p # ps) s
      else (p = CHR ''_'' \<or> p = c) \<and> sql_like ps s)"

definition merge_row :: "string \<Rightarrow> proposal \<Rightarrow> bool" where
  "merge_row key r = (q_actionType r = MergePullRequest \<and> q_subjectKey r = Some key)"

text \<open>\<open>store\<close> is the table as the query sees it, \<open>None\<close> when the query throws.\<close>

definition describeMissingApproval :: "queue option \<Rightarrow> string \<Rightarrow> int \<Rightarrow> merge_refusal" where
  "describeMissingApproval store taskId pr =
     (let prior = (case store of None \<Rightarrow> 0
        | Some rows \<Rightarrow> (case mergeApprovalPullRequestKeyPrefix taskId pr of None \<Rightarrow> 0
            | Some prefix \<Rightarrow> length (filter (\<lambda>r. q_actionType r = MergePullRequest \<and>
                q_status r = ProposalApproved \<and>
                (case q_subjectKey r of None \<Rightarrow> False | Some k \<Rightarrow> sql_like (prefix @ ''%'') k)) rows)))
      in if prior > (0::nat) then ApprovalStale else ApprovalMissing)"

text \<open>
  The unique index leaves at most one row under a key, so the query's \<open>order\<close> picks nothing.
\<close>

definition verifyMergeApproval ::
  "queue option \<times> directory \<times> int \<Rightarrow> string \<Rightarrow> int \<Rightarrow> string \<Rightarrow> verdict" where
  "verifyMergeApproval world taskId0 pr sha =
     (case world of (store, d, now) \<Rightarrow>
      (let taskId = js_trim taskId0 in
       if taskId = [] then Inl ApprovalMissing
       else (case normalizeCommitSha (Some sha) of
          None \<Rightarrow> Inl HeadShaUnknown
        | Some head \<Rightarrow>
         (case mergeApprovalSubjectKey taskId pr head of
            None \<Rightarrow> Inl ApprovalMissing
          | Some key \<Rightarrow>
           (case store of
              None \<Rightarrow> Inl ApprovalMissing
            | Some rows \<Rightarrow>
             (case List.find (\<lambda>r. merge_row key r \<and> q_status r = ProposalApproved) rows of
                None \<Rightarrow> Inl (describeMissingApproval store taskId pr)
              | Some row \<Rightarrow>
                  if q_decidedVia row \<noteq> Some ViaUser \<or> falsy_id (q_decidedById row) then Inl ApprovalNotHuman
                  else (case q_decidedAt row of
                      None \<Rightarrow> Inl ApprovalExpired
                    | Some decided \<Rightarrow>
                        if now - decided > MERGE_APPROVAL_MAX_AGE_MS then Inl ApprovalExpired
                        else if \<not> entitledToApprove d taskId (the (q_decidedById row)) then Inl ApproverNotEntitled
                        else Inr \<lparr>approvalId = q_id row, approvedById = the (q_decidedById row),
                                  approvedAt = decided\<rparr>)))))))"

section \<open>Raising the approval\<close>

datatype request_reason = AlreadyOpen | WasDecided | UnusableSubject | RequestFailed

record approval_request =
  rq_userId :: string
  rq_taskId :: string
  rq_taskLabel :: string
  rq_agentId :: string
  rq_prNumber :: int
  rq_headSha :: string
  rq_targetBranch :: "string option"
  rq_repository :: "string option"

definition existing_reason :: "proposal \<Rightarrow> request_reason" where
  "existing_reason r = (if q_status r = ProposalPending then AlreadyOpen else WasDecided)"

definition request_title :: "approval_request \<Rightarrow> string \<Rightarrow> string" where
  "request_title rq head =
     (let target = (case rq_targetBranch rq of None \<Rightarrow> [] | Some [] \<Rightarrow> [] | Some b \<Rightarrow> '' into '' @ b);
          place = (case rq_repository rq of None \<Rightarrow> [] | Some [] \<Rightarrow> [] | Some r \<Rightarrow> '' in '' @ r)
      in take 200 (''Merge PR #'' @ decimal (nat (rq_prNumber rq)) @ target @ place @ '' for '' @
           rq_taskLabel rq @ '' (@ '' @ take 12 head @ '')''))"

definition request_input :: "approval_request \<Rightarrow> string \<Rightarrow> string \<Rightarrow> proposal_input" where
  "request_input rq head key =
     \<lparr>in_agentId = rq_agentId rq, in_actionType = MergePullRequest, in_title = request_title rq head,
      in_subjectKey = Some key,
      in_payload = \<lparr>y_destructive = JBool True, y_crossScope = JUndef, y_sourceScope = None,
                    y_targetScope = None, y_spawnDepth = JUndef, y_kind = None\<rparr>,
      in_humanDecisionRequired = False\<rparr>"

text \<open>
  \<open>rival\<close> is what other processes write between the read and the insert; the loser of that race
  reads again.
\<close>

definition requestMergeApproval ::
  "(string \<rightharpoonup> agent_row) \<Rightarrow> (string \<Rightarrow> resolved_ladder option) \<Rightarrow> (queue \<Rightarrow> queue) \<Rightarrow> string \<Rightarrow> int
     \<Rightarrow> approval_request \<Rightarrow> queue \<Rightarrow> (request_reason + proposal) \<times> queue_effect list \<times> queue" where
  "requestMergeApproval agents ladder rival newId now rq rows =
     (case normalizeCommitSha (Some (rq_headSha rq)) of
        None \<Rightarrow> (Inl UnusableSubject, [], rows)
      | Some head \<Rightarrow>
       (case mergeApprovalSubjectKey (rq_taskId rq) (rq_prNumber rq) head of
          None \<Rightarrow> (Inl UnusableSubject, [], rows)
        | Some key \<Rightarrow>
         (case List.find (merge_row key) rows of
            Some r \<Rightarrow> (Inl (existing_reason r), [], rows)
          | None \<Rightarrow>
           (case createProposal agents ladder newId now (rq_userId rq) (request_input rq head key) (rival rows) of
              (Inr p, effs, rows') \<Rightarrow> (Inr p, effs, rows')
            | (Inl _, effs, rows') \<Rightarrow>
                (case List.find (merge_row key) rows' of
                   Some winner \<Rightarrow> (Inl (existing_reason winner), effs, rows')
                 | None \<Rightarrow> (Inl RequestFailed, effs, rows'))))))"

section \<open>The key names one pull request at one commit\<close>

lemma hex_not_space: "is_hex_lower c \<Longrightarrow> \<not> is_js_space c"
proof -
  assume "is_hex_lower c"
  moreover have "\<forall>x\<in>set ''0123456789abcdef''. \<not> is_js_space x"
    by code_simp
  ultimately show ?thesis unfolding is_hex_lower_def by blast
qed

lemma normalizeCommitSha_idem: "normalizeCommitSha s = Some h \<Longrightarrow> normalizeCommitSha (Some h) = Some h"
proof -
  assume "normalizeCommitSha s = Some h"
  then obtain x where h: "h = js_lower (js_trim x)" "7 \<le> length h" "length h \<le> 64" "list_all is_hex_lower h"
    by (auto simp: normalizeCommitSha_def Let_def split: option.splits if_splits)
  have nospace: "\<not> is_js_space c" if "is_hex_lower c" for c
    using that hex_not_space by blast
  have keep: "dropWhile is_js_space xs = xs" if "list_all is_hex_lower xs" for xs
    using that nospace by (cases xs) auto
  have "js_trim h = h"
    using keep [OF h(4)] keep [of "rev h"] h(4) by (simp add: js_trim_def)
  moreover have "js_lower h = h" using h(1) by simp
  ultimately show ?thesis using h by (simp add: normalizeCommitSha_def Let_def)
qed

lemma normalized_sha_hex: "normalizeCommitSha s = Some h \<Longrightarrow> list_all is_hex_lower h"
  by (auto simp: normalizeCommitSha_def Let_def split: option.splits if_splits)

lemma hex_no_colon: "list_all is_hex_lower h \<Longrightarrow> CHR '':'' \<notin> set h"
proof
  assume "list_all is_hex_lower h" "CHR '':'' \<in> set h"
  then have "is_hex_lower CHR '':''" by (simp only: list_all_iff)
  then show False by (simp add: is_hex_lower_def)
qed

lemma decimal_no_colon: "CHR '':'' \<notin> set (decimal n)"
proof
  assume "CHR '':'' \<in> set (decimal n)"
  then have "is_digit CHR '':''" by (rule decimal_digits)
  then show False by (simp add: is_digit_def)
qed

lemma subject_key_parts:
  assumes "mergeApprovalSubjectKey task pr sha = Some key"
  shows "\<exists>h. normalizeCommitSha (Some sha) = Some h \<and> 0 < pr \<and> js_trim task \<noteq> [] \<and>
     key = (''merge:'' @ js_trim task) @ CHR '':'' # (decimal (nat pr) @ CHR '':'' # h)"
  using assms by (auto simp: mergeApprovalSubjectKey_def Let_def split: option.splits if_splits)

lemma subject_key_inject:
  assumes "mergeApprovalSubjectKey t1 p1 s1 = Some key" "mergeApprovalSubjectKey t2 p2 s2 = Some key"
  shows "js_trim t1 = js_trim t2 \<and> p1 = p2 \<and> normalizeCommitSha (Some s1) = normalizeCommitSha (Some s2)"
proof -
  obtain h1 where 1: "normalizeCommitSha (Some s1) = Some h1" "0 < p1"
      "key = (''merge:'' @ js_trim t1) @ CHR '':'' # (decimal (nat p1) @ CHR '':'' # h1)"
    using subject_key_parts [OF assms(1)] by blast
  obtain h2 where 2: "normalizeCommitSha (Some s2) = Some h2" "0 < p2"
      "key = (''merge:'' @ js_trim t2) @ CHR '':'' # (decimal (nat p2) @ CHR '':'' # h2)"
    using subject_key_parts [OF assms(2)] by blast
  have h: "CHR '':'' \<notin> set h1" "CHR '':'' \<notin> set h2"
    using hex_no_colon normalized_sha_hex 1(1) 2(1) by blast+
  have "((''merge:'' @ js_trim t1) @ CHR '':'' # decimal (nat p1)) @ CHR '':'' # h1 =
        ((''merge:'' @ js_trim t2) @ CHR '':'' # decimal (nat p2)) @ CHR '':'' # h2"
    using 1(3) 2(3) by simp
  from last_separator_unique [OF this h]
  have outer: "(''merge:'' @ js_trim t1) @ CHR '':'' # decimal (nat p1) =
      (''merge:'' @ js_trim t2) @ CHR '':'' # decimal (nat p2)" and "h1 = h2"
    by simp_all
  from last_separator_unique [OF outer decimal_no_colon decimal_no_colon]
  have "''merge:'' @ js_trim t1 = ''merge:'' @ js_trim t2" "decimal (nat p1) = decimal (nat p2)"
    by simp_all
  then have "js_trim t1 = js_trim t2" "nat p1 = nat p2"
    by (simp_all only: decimal_inject same_append_eq)
  moreover from this(2) have "p1 = p2" using 1(2) 2(2) by linarith
  ultimately show ?thesis
    using \<open>h1 = h2\<close> 1(1) 2(1) by (simp only:)
qed

section \<open>What an approval proves\<close>

definition approval_evidence ::
  "queue option \<times> directory \<times> int \<Rightarrow> string \<Rightarrow> int \<Rightarrow> string \<Rightarrow> approval \<Rightarrow> bool" where
  "approval_evidence world task pr sha a \<longleftrightarrow>
     (case world of (store, d, now) \<Rightarrow>
        \<exists>rows row head key. store = Some rows \<and> row \<in> set rows \<and>
          normalizeCommitSha (Some sha) = Some head \<and>
          mergeApprovalSubjectKey (js_trim task) pr head = Some key \<and>
          q_actionType row = MergePullRequest \<and> q_subjectKey row = Some key \<and>
          q_status row = ProposalApproved \<and> q_decidedVia row = Some ViaUser \<and>
          q_id row = approvalId a \<and> q_decidedById row = Some (approvedById a) \<and>
          q_decidedAt row = Some (approvedAt a) \<and> now - approvedAt a \<le> MERGE_APPROVAL_MAX_AGE_MS \<and>
          entitledToApprove d (js_trim task) (approvedById a))"

lemma verify_approves:
  assumes "verifyMergeApproval world task pr sha = Inr a"
  shows "approval_evidence world task pr sha a"
proof -
  obtain store d now where world: "world = (store, d, now)" by (cases world)
  from assms obtain head key rows row where found:
      "normalizeCommitSha (Some sha) = Some head" "mergeApprovalSubjectKey (js_trim task) pr head = Some key"
      "store = Some rows" "List.find (\<lambda>r. merge_row key r \<and> q_status r = ProposalApproved) rows = Some row"
    unfolding verifyMergeApproval_def world Let_def
    by (auto split: if_splits option.splits)
  then have row: "row \<in> set rows" "merge_row key row" "q_status row = ProposalApproved"
    by (auto dest: find_SomeD)
  from assms found show ?thesis
    using row unfolding verifyMergeApproval_def approval_evidence_def world Let_def merge_row_def
    by (auto simp: falsy_id_def split: if_splits option.splits)
qed

interpretation merge_approvals: approval_verifier verifyMergeApproval approval_evidence
  by unfold_locales (rule verify_approves)

section \<open>One request per head\<close>

lemma create_keeps_rows:
  "createProposal ag l i n u inp rows = (res, effs, rows') \<Longrightarrow> set rows \<subseteq> set rows'"
  by (erule create_cases) auto

lemma request_leaves_row:
  assumes "requestMergeApproval ag l rival i now rq rows = (res, effs, rows')"
    "res \<noteq> Inl UnusableSubject" "res \<noteq> Inl RequestFailed"
  obtains head key where "normalizeCommitSha (Some (rq_headSha rq)) = Some head"
    "mergeApprovalSubjectKey (rq_taskId rq) (rq_prNumber rq) head = Some key"
    "\<exists>r\<in>set rows'. merge_row key r"
    "\<And>p. res = Inr p \<Longrightarrow> (\<forall>r\<in>set (rival rows). \<not> merge_row key r) \<and> rows' = rival rows @ [p] \<and> merge_row key p"
proof -
  obtain head where head: "normalizeCommitSha (Some (rq_headSha rq)) = Some head"
    using assms by (cases "normalizeCommitSha (Some (rq_headSha rq))") (auto simp: requestMergeApproval_def)
  obtain key where key: "mergeApprovalSubjectKey (rq_taskId rq) (rq_prNumber rq) head = Some key"
    using assms head
    by (cases "mergeApprovalSubjectKey (rq_taskId rq) (rq_prNumber rq) head") (auto simp: requestMergeApproval_def)
  show thesis
  proof (cases "List.find (merge_row key) rows")
    case (Some r)
    then have "rows' = rows" "\<nexists>p. res = Inr p"
      using assms(1) head key by (auto simp: requestMergeApproval_def)
    moreover have "r \<in> set rows" "merge_row key r" using Some by (auto dest: find_SomeD)
    ultimately show thesis using that [OF head key] by blast
  next
    case None
    obtain cres ceffs crows where create: "createProposal ag l i now (rq_userId rq) (request_input rq head key) (rival rows)
        = (cres, ceffs, crows)"
      by (metis prod_cases3)
    show thesis
    proof (cases cres)
      case (Inr p)
      then have out: "res = Inr p" "rows' = crows"
        using assms(1) head key None create by (auto simp: requestMergeApproval_def)
      from create [unfolded Inr] have filed: "crows = rival rows @ [p]" "merge_row key p"
          "\<forall>r\<in>set (rival rows). \<not> merge_row key r"
        by (cases rule: create_cases; force simp: merge_row_def request_input_def unique_clash_def)+
      show thesis
        by (rule that [OF head key]) (use out filed in auto)
    next
      case (Inl e)
      then obtain w where "List.find (merge_row key) crows = Some w" "rows' = crows" "res = Inl (existing_reason w)"
        using assms head key None create
        by (cases "List.find (merge_row key) crows") (auto simp: requestMergeApproval_def)
      then show thesis
        using that [OF head key] by (metis find_SomeD sum.distinct(2))
    qed
  qed
qed

lemma request_again:
  assumes "normalizeCommitSha (Some (rq_headSha rq)) = Some head"
    "mergeApprovalSubjectKey (rq_taskId rq) (rq_prNumber rq) head = Some key" "\<exists>r\<in>set rows. merge_row key r"
  shows "\<exists>reason. (reason = AlreadyOpen \<or> reason = WasDecided) \<and>
    requestMergeApproval ag l rival i now rq rows = (Inl reason, [], rows)"
proof -
  obtain r where "List.find (merge_row key) rows = Some r"
    using assms(3) by (cases "List.find (merge_row key) rows") (auto simp: find_None_iff)
  then show ?thesis
    using assms(1,2) by (simp add: requestMergeApproval_def existing_reason_def)
qed

lemma one_row_per_key:
  assumes "queue_ok rows"
  shows "length (filter (merge_row key) rows) \<le> 1"
proof (rule ccontr)
  assume "\<not> length (filter (merge_row key) rows) \<le> 1"
  then obtain a b zs where split: "filter (merge_row key) rows = a # b # zs"
    by (cases "filter (merge_row key) rows" rule: list.exhaust [case_names Nil Cons])
       (metis One_nat_def le0 list.size(3), metis One_nat_def le_refl length_Cons list.exhaust list.size(3))
  have "a \<in> set (filter (merge_row key) rows)" "b \<in> set (filter (merge_row key) rows)"
    unfolding split by simp_all
  then have "a \<in> set rows" "b \<in> set rows" "merge_row key a" "merge_row key b" by simp_all
  then have "a = b" using assms unfolding queue_ok_def merge_row_def by (metis option.distinct(1))
  moreover have "distinct (map q_id (filter (merge_row key) rows))"
    using assms unfolding queue_ok_def by (simp add: distinct_map_filter)
  ultimately show False by (simp add: split)
qed

end
