(* ===== verification/Merge_Gate.thy ===== *)
theory Merge_Gate
  imports Merge_Approval
begin

text \<open>
  The post-CI merge gate of a Task: \<open>packages/agent/src/tasks-domain/task-merge-gate.service.ts\<close>,
  the merge attempt behind it (\<open>attemptMergeForOpenPullRequest\<close>, \<open>attemptAgentMerge\<close> and
  \<open>recordMergeFailure\<close> of \<open>task-workspace.service.ts\<close>) and the release ladder it reads
  (\<open>packages/contracts/src/release/promotion.types.ts\<close>, \<open>deployment-verification.types.ts\<close>). The
  promotion guard, the App Work judgement and the git provider are parameters.
\<close>

section \<open>The release ladder\<close>

datatype promotion_rung = DevelopToStage | StageToMain

definition PROMOTION_RUNGS :: "promotion_rung list" where
  "PROMOTION_RUNGS = [DevelopToStage, StageToMain]"

record release_ladder =
  integration :: string
  staging :: string
  production :: string

definition RELEASE_BRANCH_MAX_LENGTH :: nat where
  "RELEASE_BRANCH_MAX_LENGTH = 128"

definition release_branch_char :: "char \<Rightarrow> bool" where
  "release_branch_char c = (let n = of_char c :: nat in
     65 \<le> n \<and> n \<le> 90 \<or> 97 \<le> n \<and> n \<le> 122 \<or> 48 \<le> n \<and> n \<le> 57 \<or> c \<in> set ''._-/'')"

fun js_includes :: "string \<Rightarrow> string \<Rightarrow> bool" where
  "js_includes [] sub = (sub = [])"
| "js_includes (c # s) sub = (strip_prefix sub (c # s) \<noteq> None \<or> js_includes s sub)"

definition js_endsWith :: "string \<Rightarrow> string \<Rightarrow> bool" where
  "js_endsWith s suffix = (strip_prefix (rev suffix) (rev s) \<noteq> None)"

definition normalizeReleaseBranch :: "json \<Rightarrow> string option" where
  "normalizeReleaseBranch raw = (case raw of
     JStr s \<Rightarrow> (let t = js_trim s in
       if t = [] \<or> length t > RELEASE_BRANCH_MAX_LENGTH then None
       else if \<not> (list_all release_branch_char t \<and> hd t \<noteq> CHR ''-'' \<and> hd t \<noteq> CHR ''/'') then None
       else if js_includes t ''..'' \<or> js_includes t ''//'' then None
       else if js_endsWith t ''/'' \<or> js_endsWith t ''.lock'' then None
       else Some t)
   | _ \<Rightarrow> None)"

definition sanitizeReleaseLadder :: "json \<Rightarrow> release_ladder option" where
  "sanitizeReleaseLadder raw =
     (case (normalizeReleaseBranch (own_prop raw ''integration''),
            normalizeReleaseBranch (own_prop raw ''staging''),
            normalizeReleaseBranch (own_prop raw ''production'')) of
        (Some i, Some s, Some p) \<Rightarrow>
          if distinct [i, s, p] then Some \<lparr>integration = i, staging = s, production = p\<rparr> else None
      | _ \<Rightarrow> None)"

text \<open>The head and the base of a rung.\<close>

definition resolvePromotionBranches :: "json \<Rightarrow> promotion_rung \<Rightarrow> (string \<times> string) option" where
  "resolvePromotionBranches ladder rung = (case sanitizeReleaseLadder ladder of
     None \<Rightarrow> None
   | Some l \<Rightarrow> (case rung of
        DevelopToStage \<Rightarrow> Some (integration l, staging l)
      | StageToMain \<Rightarrow> Some (staging l, production l)))"

definition PROMOTION_TASK_LABEL :: string where
  "PROMOTION_TASK_LABEL = ''release:promotion''"

definition RELEASE_REVERT_TASK_LABEL :: string where
  "RELEASE_REVERT_TASK_LABEL = ''release:revert''"

fun rung_name :: "promotion_rung \<Rightarrow> string" where
  "rung_name DevelopToStage = ''develop-to-stage''"
| "rung_name StageToMain = ''stage-to-main''"

definition has_label :: "string \<Rightarrow> string list option \<Rightarrow> bool" where
  "has_label l ls = (case ls of None \<Rightarrow> False | Some xs \<Rightarrow> l \<in> set xs)"

definition isPromotionTask :: "string list option \<Rightarrow> bool" where
  "isPromotionTask ls = has_label PROMOTION_TASK_LABEL ls"

definition isReleaseRevertTask :: "string list option \<Rightarrow> bool" where
  "isReleaseRevertTask ls = has_label RELEASE_REVERT_TASK_LABEL ls"

definition releaseRevertRungFromLabels :: "string list option \<Rightarrow> promotion_rung option" where
  "releaseRevertRungFromLabels ls =
     (if \<not> isReleaseRevertTask ls then None
      else List.find (\<lambda>r. has_label (RELEASE_REVERT_TASK_LABEL @ '':'' @ rung_name r) ls) PROMOTION_RUNGS)"

section \<open>The attempt\<close>

record merge_task =
  mt_id :: string
  mt_userId :: string
  mt_label :: string
  mt_status :: task_status
  mt_labels :: "string list option"
  mt_workId :: "string option"
  mt_agentId :: "string option"
  mt_prNumber :: "int option"
  mt_branchRef :: "string option"
  mt_prHeadSha :: "string option"
  mt_mergeRefusedSha :: "string option"
  mt_mergeRefusedCode :: "merge_refusal option option"
  mt_branchState :: "string option"

text \<open>\<open>mw_repository\<close> is the owner and name \<open>resolveTaskRepository\<close> answers for the Work's kind.\<close>

record merge_work =
  mw_id :: string
  mw_organizationId :: "string option"
  mw_tenantId :: "string option"
  mw_taskIsolationBaseBranch :: "string option"
  mw_releaseLadder :: json
  mw_repository :: "(string \<times> string) option"

datatype merge_effect =
    ProviderMerge merge_call
  | RecordRefusal "string option" "merge_refusal option"
  | PostMergeMessage
  | LogMergeActivity

record merge_outcome =
  mo_attempted :: bool
  mo_merged :: bool
  mo_refusalCode :: "merge_refusal option"

text \<open>
  The refusal marker of the Task row: the pair \<open>(mergeRefusedSha, mergeRefusedCode)\<close>, where the code
  column is null or a code, and the code of a failure that is no refusal is \<open>'not-merged'\<close>
  (\<open>Some None\<close>). \<open>markerWritten\<close> says whether the marker write succeeds.
\<close>

definition recordMergeFailure ::
  "bool \<Rightarrow> merge_task \<Rightarrow> string option \<Rightarrow> merge_outcome \<Rightarrow> merge_outcome \<times> merge_effect list \<times> merge_task" where
  "recordMergeFailure markerWritten t headSha outcome =
     (let sha = normalizeCommitSha headSha; code = Some (mo_refusalCode outcome) in
      if mt_mergeRefusedSha t = sha \<and> mt_mergeRefusedCode t = code then (outcome, [], t)
      else if markerWritten
        then (outcome, [RecordRefusal sha (mo_refusalCode outcome), PostMergeMessage, LogMergeActivity],
              t\<lparr>mt_mergeRefusedSha := sha, mt_mergeRefusedCode := code\<rparr>)
      else (outcome, [PostMergeMessage, LogMergeActivity], t))"

record attempt_env =
  ae_ports :: merge_ports
  ae_resolve :: "scope_tuple \<Rightarrow> resolved_policy option"
  ae_live :: "pr_status option"
  ae_provider :: "merge_call \<Rightarrow> bool option"
  ae_markerWritten :: bool

record attempt_input =
  ai_gateStatus :: "gate_status option"
  ai_headSha :: "string option"
  ai_plannedTargetBranch :: "string option"
  ai_requireHumanApproval :: bool
  ai_advisoryCheckLegs :: "string list"

definition task_scope :: "merge_work \<Rightarrow> string \<Rightarrow> scope_tuple" where
  "task_scope w agentId = \<lparr>st_agentId = Some agentId, st_workId = Some (mw_id w),
     st_organizationId = mw_organizationId w, st_tenantId = mw_tenantId w\<rparr>"

definition attempt_actor :: "merge_task \<Rightarrow> merge_work \<Rightarrow> string \<Rightarrow> attempt_input \<Rightarrow> merge_actor" where
  "attempt_actor t w agentId inp =
     \<lparr>ma_scope = task_scope w agentId, ma_gateStatus = ai_gateStatus inp, ma_taskId = Some (mt_id t),
      ma_targetBranch = ai_plannedTargetBranch inp, ma_requireHumanApproval = ai_requireHumanApproval inp,
      ma_advisoryCheckLegs = ai_advisoryCheckLegs inp\<rparr>"

text \<open>A provider call that throws answers \<open>None\<close>; one that declines answers \<open>Some False\<close>.\<close>

definition attemptAgentMerge ::
  "attempt_env \<Rightarrow> merge_task \<Rightarrow> merge_work \<Rightarrow> string \<Rightarrow> int \<Rightarrow> attempt_input
     \<Rightarrow> merge_outcome \<times> merge_effect list \<times> merge_task" where
  "attemptAgentMerge e t w agentId pr inp =
     (case ae_resolve e (task_scope w agentId) of
        None \<Rightarrow> (\<lparr>mo_attempted = False, mo_merged = False, mo_refusalCode = None\<rparr>, [], t)
      | Some r \<Rightarrow>
         if \<not> allowAgentMerge (r_policy r)
         then (\<lparr>mo_attempted = False, mo_merged = False, mo_refusalCode = None\<rparr>, [], t)
         else (let mergeMethod = (case allowedMergeMethods (r_policy r) of [] \<Rightarrow> None | m # _ \<Rightarrow> Some m)
           in case mergePullRequest (ae_ports e) (attempt_actor t w agentId inp) pr mergeMethod (ae_live e) of
                Inl c \<Rightarrow> recordMergeFailure (ae_markerWritten e) t (ai_headSha inp)
                    \<lparr>mo_attempted = True, mo_merged = False, mo_refusalCode = Some c\<rparr>
              | Inr call \<Rightarrow>
                  (case ae_provider e call of
                     Some True \<Rightarrow>
                       (\<lparr>mo_attempted = True, mo_merged = True, mo_refusalCode = None\<rparr>,
                        [ProviderMerge call, PostMergeMessage, LogMergeActivity],
                        t\<lparr>mt_branchState := Some ''merged''\<rparr>)
                   | _ \<Rightarrow>
                       (case recordMergeFailure (ae_markerWritten e) t (ai_headSha inp)
                          \<lparr>mo_attempted = True, mo_merged = False, mo_refusalCode = None\<rparr> of
                          (o', effs, t') \<Rightarrow> (o', ProviderMerge call # effs, t')))))"

definition trimmed_ref :: "string option \<Rightarrow> string option" where
  "trimmed_ref r = (case r of None \<Rightarrow> None
     | Some s \<Rightarrow> (let x = js_trim s in if x = [] then None else Some x))"

record open_merge_input =
  om_agentId :: string
  om_gateStatus :: "gate_status option"
  om_headSha :: "string option"
  om_baseRef :: "string option"
  om_requireHumanApproval :: bool
  om_advisoryCheckLegs :: "string list"

definition missing_pr :: "int option \<Rightarrow> bool" where
  "missing_pr n = (n = None \<or> n = Some 0)"

definition attemptMergeForOpenPullRequest ::
  "attempt_env \<Rightarrow> (string \<rightharpoonup> merge_work) \<Rightarrow> merge_task \<Rightarrow> open_merge_input
     \<Rightarrow> merge_outcome option \<times> merge_effect list \<times> merge_task" where
  "attemptMergeForOpenPullRequest e works t inp =
     (if falsy_ref (mt_workId t) \<or> missing_pr (mt_prNumber t) then (None, [], t)
      else (case works (the (mt_workId t)) of None \<Rightarrow> (None, [], t)
        | Some w \<Rightarrow>
            if mw_repository w = None then (None, [], t)
            else (case attemptAgentMerge e t w (om_agentId inp) (the (mt_prNumber t))
                     \<lparr>ai_gateStatus = om_gateStatus inp,
                      ai_headSha = or_else (om_headSha inp) (mt_prHeadSha t),
                      ai_plannedTargetBranch =
                        or_else (trimmed_ref (om_baseRef inp)) (trimmed_ref (mw_taskIsolationBaseBranch w)),
                      ai_requireHumanApproval = om_requireHumanApproval inp,
                      ai_advisoryCheckLegs = om_advisoryCheckLegs inp\<rparr> of
                    (o', effs, t') \<Rightarrow> (Some o', effs, t'))))"

section \<open>The gate\<close>

datatype skip_reason =
    NoPullRequest | PrNotOpen pr_state | CiNotPassing ci_state | CiIncomplete | HeadUnknown | TaskBlocked
  | PrHeadRefMismatch | PromotionGuardUnbound | PromotionGuardFailed | PromotionBlocked string
  | NoWork | PrHeadRepoMismatch | AppWorkRefused string | RevertBaseUnresolved | NoAgent
  | AgentMergeOff | NoApprovalVerifier | NotRaised request_reason

datatype gate_outcome =
    GateSkipped skip_reason
  | ApprovalRequested string
  | ApprovalStillPending
  | MergeAttempted "merge_outcome option"

definition bareBranchName :: "string option \<Rightarrow> string" where
  "bareBranchName r = (case r of None \<Rightarrow> []
     | Some s \<Rightarrow> (let x = js_trim s in
         case strip_prefix ''refs/heads/'' x of Some rest \<Rightarrow> rest | None \<Rightarrow> x))"

definition pullRequestHeadMismatch :: "string option \<Rightarrow> string option \<Rightarrow> bool" where
  "pullRequestHeadMismatch branchRef headRef =
     (let recorded = bareBranchName branchRef; live = bareBranchName headRef in
      recorded \<noteq> [] \<and> live \<noteq> [] \<and> live \<noteq> recorded)"

definition pullRequestHeadRepoMismatch :: "string option \<Rightarrow> string option \<Rightarrow> bool" where
  "pullRequestHeadRepoMismatch expectedFullName headRepo =
     (let norm = (\<lambda>r. case r of None \<Rightarrow> [] | Some s \<Rightarrow> js_lower (js_trim s)) in
      norm expectedFullName \<noteq> [] \<and> norm headRepo \<noteq> [] \<and> norm headRepo \<noteq> norm expectedFullName)"

definition taskRepositoryFullName :: "merge_work \<Rightarrow> string option" where
  "taskRepositoryFullName w = (case mw_repository w of None \<Rightarrow> None
     | Some (ownr, repo) \<Rightarrow> Some (ownr @ ''/'' @ repo))"

definition gate_precheck :: "merge_task \<Rightarrow> pr_status \<Rightarrow> skip_reason + string" where
  "gate_precheck t st =
     (if missing_pr (mt_prNumber t) \<or> falsy_ref (mt_workId t) then Inl NoPullRequest
      else if v_state st \<noteq> PrOpen then Inl (PrNotOpen (v_state st))
      else if v_ciState st \<noteq> Passing then Inl (CiNotPassing (v_ciState st))
      else if v_checksComplete st = Some False then Inl CiIncomplete
      else (case normalizeCommitSha (v_headSha st) of
          None \<Rightarrow> Inl HeadUnknown
        | Some head \<Rightarrow>
            if mt_status t = BLOCKED then Inl TaskBlocked
            else if pullRequestHeadMismatch (mt_branchRef t) (v_headRef st) then Inl PrHeadRefMismatch
            else Inr head))"

datatype promotion_verdict = NotPromotion | PromotionAllowed string | PromotionRefused string

type_synonym promotion_guard = "string \<Rightarrow> string list option \<Rightarrow> int \<Rightarrow> string \<Rightarrow> promotion_verdict option"

text \<open>The base branch of a live promotion, or \<open>None\<close> for an ordinary Task.\<close>

definition assessPromotion ::
  "promotion_guard option \<Rightarrow> merge_task \<Rightarrow> string \<Rightarrow> skip_reason + string option" where
  "assessPromotion guard t head =
     (case guard of
        None \<Rightarrow> if isPromotionTask (mt_labels t) then Inl PromotionGuardUnbound else Inr None
      | Some g \<Rightarrow> (case g (mt_id t) (mt_labels t) (the (mt_prNumber t)) head of
            None \<Rightarrow> Inl PromotionGuardFailed
          | Some NotPromotion \<Rightarrow> Inr None
          | Some (PromotionAllowed base) \<Rightarrow> Inr (Some base)
          | Some (PromotionRefused code) \<Rightarrow> Inl (PromotionBlocked code)))"

definition resolveRevertBase :: "merge_task \<Rightarrow> merge_work \<Rightarrow> string option" where
  "resolveRevertBase t w = (case releaseRevertRungFromLabels (mt_labels t) of
     None \<Rightarrow> None
   | Some rung \<Rightarrow> map_option snd (resolvePromotionBranches (mw_releaseLadder w) rung))"

datatype app_verdict = AppAllowed "string list" | AppDenied string

record gate_env =
  ge_works :: "string \<rightharpoonup> merge_work"
  ge_guard :: "promotion_guard option"
  ge_judgeApp :: "merge_task \<Rightarrow> app_verdict option"
  ge_humanMergePathsEnforced :: bool
  ge_policy :: scope_repo
  ge_verify :: "(string \<Rightarrow> int \<Rightarrow> string \<Rightarrow> verdict) option"
  ge_request :: "approval_request \<Rightarrow> queue \<Rightarrow> (request_reason + proposal) \<times> queue_effect list \<times> queue"
  ge_attempt :: attempt_env

text \<open>The Work, the human-merge paths, the revert base and the owning agent.\<close>

record gate_subject =
  gs_work :: merge_work
  gs_humanMergeRequired :: bool
  gs_revertBase :: "string option"
  gs_agentId :: string

definition gate_subject_of ::
  "gate_env \<Rightarrow> merge_task \<Rightarrow> pr_status \<Rightarrow> skip_reason + gate_subject" where
  "gate_subject_of e t st =
     (case ge_works e (the (mt_workId t)) of
        None \<Rightarrow> Inl NoWork
      | Some w \<Rightarrow>
          if pullRequestHeadRepoMismatch (taskRepositoryFullName w) (v_headRepoFullName st)
          then Inl PrHeadRepoMismatch
          else (case ge_judgeApp e t of
              Some (AppDenied reason) \<Rightarrow> Inl (AppWorkRefused reason)
            | verdict \<Rightarrow>
               (let paths = (case verdict of Some (AppAllowed ps) \<Rightarrow>
                        if ge_humanMergePathsEnforced e then ps else [] | _ \<Rightarrow> []);
                    revertBase = resolveRevertBase t w
                in if isReleaseRevertTask (mt_labels t) \<and> falsy_ref revertBase then Inl RevertBaseUnresolved
                   else if falsy_ref (mt_agentId t) then Inl NoAgent
                   else Inr \<lparr>gs_work = w, gs_humanMergeRequired = (paths \<noteq> []),
                             gs_revertBase = revertBase, gs_agentId = the (mt_agentId t)\<rparr>)))"

definition gate_floor_target ::
  "resolved_policy \<Rightarrow> string option \<Rightarrow> gate_subject \<Rightarrow> pr_status \<Rightarrow> bool" where
  "gate_floor_target r promotion s st =
     mergeTargetNeedsFloorApproval
       (or_else promotion (or_else (gs_revertBase s)
          (or_else (v_baseRef st) (trimmed_ref (mw_taskIsolationBaseBranch (gs_work s))))))
       (r_humanScopeWaivesApproval r)"

text \<open>What raises the approval requirement beyond the policy.\<close>

definition gate_raises ::
  "resolved_policy \<Rightarrow> string option \<Rightarrow> gate_subject \<Rightarrow> pr_status \<Rightarrow> bool" where
  "gate_raises r promotion s st =
     (promotion \<noteq> None \<or> gs_revertBase s \<noteq> None \<or> gate_floor_target r promotion s st \<or> gs_humanMergeRequired s)"

definition gate_request ::
  "merge_task \<Rightarrow> gate_subject \<Rightarrow> string option \<Rightarrow> pr_status \<Rightarrow> string \<Rightarrow> approval_request" where
  "gate_request t s promotion st head =
     \<lparr>rq_userId = mt_userId t, rq_taskId = mt_id t, rq_taskLabel = mt_label t,
      rq_agentId = gs_agentId s, rq_prNumber = the (mt_prNumber t), rq_headSha = head,
      rq_targetBranch = or_else promotion (or_else (gs_revertBase s)
         (or_else (trimmed_ref (v_baseRef st)) (trimmed_ref (mw_taskIsolationBaseBranch (gs_work s))))),
      rq_repository = taskRepositoryFullName (gs_work s)\<rparr>"

definition gate_merge_input ::
  "string \<Rightarrow> gate_subject \<Rightarrow> string option \<Rightarrow> bool \<Rightarrow> string list \<Rightarrow> open_merge_input" where
  "gate_merge_input head s base requireHuman advisory =
     \<lparr>om_agentId = gs_agentId s, om_gateStatus = Some Green, om_headSha = Some head,
      om_baseRef = base, om_requireHumanApproval = requireHuman, om_advisoryCheckLegs = advisory\<rparr>"

type_synonym gate_result = "gate_outcome \<times> merge_effect list \<times> merge_task \<times> queue"

definition gate_merge :: "gate_env \<Rightarrow> merge_task \<Rightarrow> open_merge_input \<Rightarrow> queue \<Rightarrow> gate_result" where
  "gate_merge e t inp rows =
     (case attemptMergeForOpenPullRequest (ge_attempt e) (ge_works e) t inp of
        (o', effs, t') \<Rightarrow> (MergeAttempted o', effs, t', rows))"

definition gate_raise_request ::
  "gate_env \<Rightarrow> merge_task \<Rightarrow> approval_request \<Rightarrow> queue \<Rightarrow> gate_result" where
  "gate_raise_request e t rq rows =
     (case ge_request e rq rows of
        (Inr p, _, rows') \<Rightarrow> (ApprovalRequested (q_id p), [], t, rows')
      | (Inl reason, _, rows') \<Rightarrow>
          ((if reason = AlreadyOpen \<or> reason = WasDecided then ApprovalStillPending
            else GateSkipped (NotRaised reason)), [], t, rows'))"

definition gate_evaluate ::
  "gate_env \<Rightarrow> merge_task \<Rightarrow> pr_status \<Rightarrow> string list \<Rightarrow> queue \<Rightarrow> gate_result" where
  "gate_evaluate e t st advisory rows =
     (case gate_precheck t st of Inl r \<Rightarrow> (GateSkipped r, [], t, rows)
      | Inr head \<Rightarrow>
       (case assessPromotion (ge_guard e) t head of Inl r \<Rightarrow> (GateSkipped r, [], t, rows)
        | Inr promotion \<Rightarrow>
         (case gate_subject_of e t st of Inl r \<Rightarrow> (GateSkipped r, [], t, rows)
          | Inr s \<Rightarrow>
           (let r = resolvePolicy (ge_policy e) (task_scope (gs_work s) (gs_agentId s));
                raised = gate_raises r promotion s st
            in if \<not> allowAgentMerge (r_policy r) then (GateSkipped AgentMergeOff, [], t, rows)
               else if \<not> (requireHumanApproval (r_policy r) \<or> raised)
               then gate_merge e t (gate_merge_input head s None False advisory) rows
               else (case ge_verify e of
                   None \<Rightarrow> (GateSkipped NoApprovalVerifier, [], t, rows)
                 | Some verify \<Rightarrow>
                    (case verify (mt_id t) (the (mt_prNumber t)) head of
                       Inr a \<Rightarrow> gate_merge e t
                         (gate_merge_input head s (or_else promotion (gs_revertBase s)) raised advisory) rows
                     | Inl c \<Rightarrow> gate_raise_request e t (gate_request t s promotion st head) rows))))))"

end
