(* ===== verification/Merge_Claims.thy ===== *)
theory Merge_Claims
  imports Merge_Gate
begin

text \<open>
  The properties of the merge policy, of the approval record and of the merge path, from the layers
  of a policy down to the provider's merge call.
\<close>

section \<open>Resolution of the policy\<close>

text \<open>Every field of the resolved policy comes from the most specific layer that declares it
  (no declaring layer is more specific), and the chain names that layer as its owner; a field nobody
  declares has the platform default and belongs to the default link.\<close>

theorem field_comes_from_most_specific:
  "(\<exists>l\<in>set layers. declared (layer_override l) f = Some (field_of (r_policy (resolveMergePolicyChain layers)) f)
      \<and> (\<forall>l'\<in>set layers. declared (layer_override l') f \<noteq> None \<longrightarrow> l_scope l' \<le> l_scope l)
      \<and> (\<exists>e\<in>set (r_chain (resolveMergePolicyChain layers)).
            c_scope e = Some (l_scope l) \<and> c_id e = Some (l_id l) \<and> f \<in> set (c_fields e)))
   \<or> (\<forall>l\<in>set layers. declared (layer_override l) f = None)
      \<and> field_of (r_policy (resolveMergePolicyChain layers)) f = field_of PLATFORM_DEFAULT_MERGE_POLICY f
      \<and> f \<in> set (c_fields (hd (r_chain (resolveMergePolicyChain layers))))"
  using resolve_field [of layers f]
proof (elim disjE exE conjE)
  fix us w vs
  assume split: "sort_key l_scope layers = us @ w # vs" and w: "declares (layer_override w) f"
    and vs: "\<forall>l\<in>set vs. \<not> declares (layer_override l) f"
    and val: "field_of (r_policy (resolveMergePolicyChain layers)) f = the (declared (layer_override w) f)"
    and own: "\<exists>e\<in>set (r_chain (resolveMergePolicyChain layers)).
            c_scope e = Some (l_scope w) \<and> c_id e = Some (l_id w) \<and> f \<in> set (c_fields e)"
  have "w \<in> set layers" by (metis split in_set_conv_decomp set_sort)
  moreover have "l_scope l' \<le> l_scope w" if "l' \<in> set layers" "declared (layer_override l') f \<noteq> None" for l'
  proof (rule sorted_layers_before [OF split that(1)])
    show "l' \<notin> set vs" using that(2) vs by (auto simp: declares_declared)
  qed
  moreover have "declared (layer_override w) f = Some (field_of (r_policy (resolveMergePolicyChain layers)) f)"
    using w val by (auto simp: declares_declared)
  ultimately show ?thesis using own by blast
next
  assume "\<forall>l\<in>set layers. \<not> declares (layer_override l) f"
    "field_of (r_policy (resolveMergePolicyChain layers)) f = field_of PLATFORM_DEFAULT_MERGE_POLICY f"
    "f \<in> set (c_fields (hd (r_chain (resolveMergePolicyChain layers))))"
  then show ?thesis by (simp add: declares_declared)
qed

definition work_layer :: policy_layer where
  "work_layer = \<lparr>l_scope = WorkScope, l_id = ''w'',
     l_policy = JObj [(''allowAgentMerge'', JBool True), (''requireHumanApproval'', JBool False)]\<rparr>"

definition tenant_layer :: policy_layer where
  "tenant_layer = \<lparr>l_scope = Tenant, l_id = ''t'',
     l_policy = JObj [(''requireHumanApproval'', JBool False)]\<rparr>"

lemma layer_scopes [simp]: "l_scope work_layer = WorkScope" "l_scope tenant_layer = Tenant"
  by (simp_all add: work_layer_def tenant_layer_def)

lemma layer_overrides:
  "declared (layer_override work_layer) AllowAgentMerge = Some (BoolField True)"
  "declared (layer_override tenant_layer) AllowAgentMerge = None"
  "layer_override work_layer = empty_override\<lparr>o_allowAgentMerge := Some True, o_requireHumanApproval := Some False\<rparr>"
  "layer_override tenant_layer = empty_override\<lparr>o_requireHumanApproval := Some False\<rparr>"
  by code_simp+

theorem field_comes_from_most_specific_witness:
  "field_of (r_policy (resolveMergePolicyChain [work_layer, tenant_layer])) AllowAgentMerge = BoolField True"
  using field_comes_from_most_specific [of "[work_layer, tenant_layer]" AllowAgentMerge]
  by (auto simp: layer_overrides empty_override_def)

text \<open>The order in which a caller lists the layers does not matter: two lists of the same layers,
  with one layer per scope, resolve to the same policy, source, chain and waiver.\<close>

theorem resolution_ignores_order:
  assumes "mset layers = mset layers'" "distinct (map l_scope layers)"
  shows "resolveMergePolicyChain layers = resolveMergePolicyChain layers'"
proof -
  have "inj_on l_scope (set layers)"
    using assms(2) by (simp add: distinct_map)
  moreover have "mset layers = mset (sort_key l_scope layers')" using assms(1) by simp
  ultimately have "sort_key l_scope layers = sort_key l_scope layers'"
    by (intro sort_key_inj_key_eq) simp_all
  then show ?thesis by (simp add: resolveMergePolicyChain_def)
qed

theorem resolution_ignores_order_witness:
  "resolveMergePolicyChain [work_layer, tenant_layer] = resolveMergePolicyChain [tenant_layer, work_layer]"
  by (rule resolution_ignores_order) (simp_all add: add_mset_commute)

text \<open>The chain explains the policy: each field is listed by exactly one link, and the reported
  source is the last link that lists any field.\<close>

theorem chain_explains_policy:
  "length (filter (\<lambda>e. f \<in> set (c_fields e)) (r_chain (resolveMergePolicyChain layers))) = 1 \<and>
   (\<exists>us e vs. r_chain (resolveMergePolicyChain layers) = us @ e # vs \<and> c_fields e \<noteq> [] \<and>
      list_all (\<lambda>x. c_fields x = []) vs \<and> r_source (resolveMergePolicyChain layers) = c_scope e)"
proof
  show one: "length (filter (\<lambda>e. f \<in> set (c_fields e)) (r_chain (resolveMergePolicyChain layers))) = 1" for f
    by (rule chain_partitions)
  have "\<not> (\<forall>x\<in>set (r_chain (resolveMergePolicyChain layers)). c_fields x = [])"
  proof
    assume "\<forall>x\<in>set (r_chain (resolveMergePolicyChain layers)). c_fields x = []"
    then have "filter (\<lambda>e. AllowAgentMerge \<in> set (c_fields e)) (r_chain (resolveMergePolicyChain layers)) = []"
      by (simp add: filter_empty_conv)
    then show False using one [of AllowAgentMerge] by simp
  qed
  then show "\<exists>us e vs. r_chain (resolveMergePolicyChain layers) = us @ e # vs \<and> c_fields e \<noteq> [] \<and>
      list_all (\<lambda>x. c_fields x = []) vs \<and> r_source (resolveMergePolicyChain layers) = c_scope e"
    using chain_source_spec [of "r_chain (resolveMergePolicyChain layers)"]
    unfolding resolve_unfold(3) list_all_iff by blast
qed

text \<open>Only a tenant or organization policy lifts the floor of \<open>develop\<close> and \<open>stage\<close>: a waiver
  needs one that declares \<open>requireHumanApproval: false\<close>, and Work and Agent layers can withdraw a
  waiver but never create one.\<close>

theorem floor_waiver_is_human:
  assumes "r_humanScopeWaivesApproval (resolveMergePolicyChain layers)"
  shows "(\<exists>l\<in>set layers. human_scope l \<and> o_requireHumanApproval (layer_override l) = Some False) \<and>
    r_humanScopeWaivesApproval (resolveMergePolicyChain (filter human_scope layers))"
proof -
  let ?hs = "filter human_scope layers"
  have human: "human_scope_approval (sort_key l_scope layers) = Some False"
    using assms unfolding resolve_unfold(4) by blast
  then have declared: "human_scope_approval (sort_key l_scope ?hs) = Some False"
    using human_scope_approval_filter [of "sort_key l_scope layers"] by (simp add: sort_key_filter)
  from human_scope_approval_declared [OF declared] obtain us w vs where
    split: "sort_key l_scope ?hs = us @ w # vs" and w: "human_scope w"
      "o_requireHumanApproval (layer_override w) = Some False"
    and later: "\<forall>l\<in>set vs. human_scope l \<longrightarrow> o_requireHumanApproval (layer_override l) = None"
    by blast
  have humans: "\<forall>l\<in>set (us @ w # vs). human_scope l \<and> l \<in> set layers"
    unfolding split [symmetric] by simp
  then have silent: "\<forall>l\<in>set vs. \<not> declares (layer_override l) RequireHumanApproval"
    using later by simp
  have "field_of (r_policy (resolveMergePolicyChain ?hs)) RequireHumanApproval = BoolField False"
    unfolding resolve_unfold split
    using apply_layers_declared [OF silent, of w] w(2) by simp
  then have "\<not> requireHumanApproval (r_policy (resolveMergePolicyChain ?hs))" by simp
  then have "r_humanScopeWaivesApproval (resolveMergePolicyChain ?hs)"
    unfolding resolve_unfold(4) using declared by blast
  then show ?thesis using humans w by auto
qed

lemma waiver_example: "r_humanScopeWaivesApproval (resolveMergePolicyChain [work_layer, tenant_layer])"
  unfolding resolveMergePolicyChain_def
  by (simp add: human_scope_approval_def layer_overrides empty_override_def MERGE_POLICY_FIELDS_def
      less_eq_merge_scope_def Let_def)

theorem floor_waiver_is_human_witness:
  "r_humanScopeWaivesApproval (resolveMergePolicyChain (filter human_scope [work_layer, tenant_layer]))"
  using floor_waiver_is_human [OF waiver_example] by blast

section \<open>The decision point\<close>

text \<open>C10. The decision point allows a merge exactly when agent merges are on, the target is known and
  unprotected where branches are protected, the floor is satisfied, the method is allowed, and the
  gate and approval requirements are met; so nothing lands on \<open>main\<close>, \<open>master\<close> or an unknown base
  without a recorded human approval, whatever the policy.\<close>

theorem matrix_allows_exactly:
  "(evaluateAgentMerge ctx = None) =
     (allowAgentMerge (x_policy ctx) \<and>
      (protectedBranches (x_policy ctx) = [] \<or>
         (\<exists>b. x_targetBranch ctx = Some b \<and> js_trim b \<noteq> [] \<and> \<not> protected_match (x_policy ctx) (Some b))) \<and>
      (x_humanApproved ctx \<or> \<not> floor_branch (x_targetBranch ctx) \<and>
         (if normalizeFloorRef (x_targetBranch ctx) \<in> {Some ''develop'', Some ''stage''}
          then x_humanScopeWaives ctx else True)) \<and>
      (case x_mergeMethod ctx of None \<Rightarrow> MergeCommit | Some m \<Rightarrow> m) \<in> set (allowedMergeMethods (x_policy ctx)) \<and>
      (if requireGreenGate (x_policy ctx) then x_gateStatus ctx = Some Green else True) \<and>
      (if requireHumanApproval (x_policy ctx) then x_humanApproved ctx else True))"
proof -
  have known: "(protectedBranches (x_policy ctx) \<noteq> [] \<longrightarrow>
        \<not> blank_ref (x_targetBranch ctx) \<and> \<not> protected_match (x_policy ctx) (x_targetBranch ctx)) \<longleftrightarrow>
     (protectedBranches (x_policy ctx) = [] \<or>
         (\<exists>b. x_targetBranch ctx = Some b \<and> js_trim b \<noteq> [] \<and> \<not> protected_match (x_policy ctx) (Some b)))"
    by (cases "x_targetBranch ctx") (auto simp: blank_ref_def)
  have floor: "mergeTargetNeedsFloorApproval (x_targetBranch ctx) (x_humanScopeWaives ctx) \<longleftrightarrow>
     floor_branch (x_targetBranch ctx) \<or> \<not> x_humanScopeWaives ctx \<and>
       normalizeFloorRef (x_targetBranch ctx) \<in> {Some ''develop'', Some ''stage''}"
    by (cases "normalizeFloorRef (x_targetBranch ctx)")
      (auto simp: floor_branch_def mergeTargetNeedsFloorApproval_def MERGE_POLICY_ALWAYS_APPROVED_BRANCHES_def
        MERGE_POLICY_PROTECTED_BRANCH_FLOOR_def)
  show ?thesis
    unfolding evaluate_allows_iff known floor by auto
qed

end
