(* ===== verification/Merge_Path_Claims.thy ===== *)
theory Merge_Path_Claims
  imports Merge_Gate
begin

text \<open>
  The properties of the approval queue, of the approval record and of the path to the provider's
  merge call.
\<close>

section \<open>The approval queue\<close>

text \<open>C9. In every table reachable from the empty one, an approved merge was decided by a person, the
  owner of the proposal, at a recorded time; a pending row carries no decision; and no two rows share
  an action type and a subject key.\<close>

theorem approved_merges_are_human:
  assumes "queue_reachable [] rows" "r \<in> set rows"
  shows "(q_status r = ProposalApproved \<and> q_actionType r = MergePullRequest \<longrightarrow>
      q_decidedVia r = Some ViaUser \<and> q_decidedById r = Some (q_userId r) \<and> q_decidedAt r \<noteq> None) \<and>
    (q_status r = ProposalPending \<longrightarrow> q_decidedById r = None \<and> q_decidedVia r = None) \<and>
    (\<forall>r'\<in>set rows. q_subjectKey r' \<noteq> None \<and> q_actionType r' = q_actionType r \<and>
       q_subjectKey r' = q_subjectKey r \<longrightarrow> r' = r)"
proof -
  have ok: "queue_ok rows"
    using reachable_queue_ok [OF assms(1) queue_ok_Nil] .
  then have "proposal_ok r" using assms(2) by (simp add: queue_ok_def)
  moreover have "\<forall>r'\<in>set rows. q_subjectKey r' \<noteq> None \<and> q_actionType r' = q_actionType r \<and>
       q_subjectKey r' = q_subjectKey r \<longrightarrow> r' = r"
    using ok assms(2) unfolding queue_ok_def by blast
  ultimately show ?thesis unfolding proposal_ok_def by auto
qed

definition payload0 :: proposal_payload where
  "payload0 = \<lparr>y_destructive = JUndef, y_crossScope = JUndef, y_sourceScope = None, y_targetScope = None,
     y_spawnDepth = JUndef, y_kind = None\<rparr>"

definition merge_input0 :: proposal_input where
  "merge_input0 = \<lparr>in_agentId = ''a'', in_actionType = MergePullRequest, in_title = ''Merge'',
     in_subjectKey = Some ''merge:t:7:abcdef1'', in_payload = payload0, in_humanDecisionRequired = False\<rparr>"

definition agents0 :: "string \<rightharpoonup> agent_row" where
  "agents0 = [''a'' \<mapsto> \<lparr>ag_owner = ''u'', ag_guardrails = Some \<lparr>g_mode = Autonomous, g_autoApprove = None,
     g_blocked = None\<rparr>\<rparr>]"

definition pending0 :: proposal where
  "pending0 = \<lparr>q_id = ''p'', q_userId = ''u'', q_agentId = ''a'', q_actionType = MergePullRequest,
     q_title = ''Merge'', q_payload = payload0, q_subjectKey = Some ''merge:t:7:abcdef1'',
     q_riskFlags = [RiskDestructive], q_status = ProposalPending, q_decidedById = None,
     q_decidedAt = None, q_decidedVia = None, q_createdAt = 1\<rparr>"

definition approved0 :: proposal where
  "approved0 = decided_row pending0 ''u'' ProposalApproved 2"

lemma create0:
  "createProposal agents0 (\<lambda>_. None) ''p'' 1 ''u'' merge_input0 [] =
     (Inr pending0, [InboxPending ''p''], [pending0])"
proof -
  have trim: "js_trim ''Merge'' = ''Merge''" by code_simp
  have flags: "RISK_SCORER MergePullRequest payload0 = [RiskDestructive]" by code_simp
  show ?thesis
    by (simp add: createProposal_def agents0_def merge_input0_def pending0_def trim flags new_proposal_def
        Let_def evaluateGuardrails_def applyLadderToGuardrailDecision_def unique_clash_def)
qed

lemma claim0: "claimDecision ''p'' ''u'' ProposalApproved 2 [pending0] = (True, [approved0])"
  by (simp add: claimDecision_def Let_def approved0_def pending0_def)

lemma reachable0: "queue_reachable [] [approved0]"
proof -
  have "queue_step [] [pending0]"
    by (rule queue_step.created [OF create0]) simp
  moreover have "queue_step [pending0] [approved0]"
    by (rule queue_step.claimed [OF claim0]) simp
  ultimately show ?thesis by (meson queue_reachable.start queue_reachable.step)
qed

theorem approved_merges_are_human_witness:
  "q_status approved0 = ProposalApproved \<and> q_decidedVia approved0 = Some ViaUser"
proof -
  have "q_status approved0 = ProposalApproved" "q_actionType approved0 = MergePullRequest"
    by (simp_all add: approved0_def pending0_def)
  with approved_merges_are_human [OF reachable0, of approved0] show ?thesis by auto
qed

text \<open>A decision is final: once a row is approved or rejected, it stays in the table unchanged
  through every later proposal and claim, whoever makes it.\<close>

theorem decisions_are_final:
  assumes "queue_reachable start rows" "r \<in> set start" "q_status r \<noteq> ProposalPending"
  shows "r \<in> set rows"
  using reachable_keeps_decided assms by blast

theorem decisions_are_final_witness:
  "approved0 \<in> set (snd (claimDecision ''p'' ''u'' ProposalRejected 3 [approved0]))"
proof -
  let ?rows = "snd (claimDecision ''p'' ''u'' ProposalRejected 3 [approved0])"
  have "queue_step [approved0] ?rows"
    by (rule queue_step.claimed [of _ _ ProposalRejected _ _ "fst (claimDecision ''p'' ''u'' ProposalRejected 3 [approved0])"]) simp_all
  then have "queue_reachable [approved0] ?rows"
    by (meson queue_reachable.start queue_reachable.step)
  then show ?thesis
    by (rule decisions_are_final) (simp_all add: approved0_def)
qed

text \<open>The platform approves by itself only what the agent's own guardrails allow: an unflagged
  action of an autonomous agent that is not blocked and not narrowed away, and never a merge; folding
  in the trust ladder only ever makes the decision stricter.\<close>

theorem auto_approval_is_narrow:
  "strictness (evaluateGuardrails guard a flags) \<le>
     strictness (applyLadderToGuardrailDecision (evaluateGuardrails guard a flags) a ladder) \<and>
   (applyLadderToGuardrailDecision (evaluateGuardrails guard a (RISK_SCORER a p)) a ladder = AutoApprove \<longrightarrow>
      RISK_SCORER a p = [] \<and> a \<noteq> MergePullRequest \<and> a \<noteq> BudgetOverride \<and>
      (\<exists>g. guard = Some g \<and> g_mode g = Autonomous \<and>
        (\<forall>as. g_autoApprove g = Some as \<longrightarrow> a \<in> set as) \<and> (\<forall>bs. g_blocked g = Some bs \<longrightarrow> a \<notin> set bs)))"
proof (intro conjI impI)
  show "strictness (evaluateGuardrails guard a flags) \<le>
     strictness (applyLadderToGuardrailDecision (evaluateGuardrails guard a flags) a ladder)"
    by (rule ladder_only_tightens)
next
  assume "applyLadderToGuardrailDecision (evaluateGuardrails guard a (RISK_SCORER a p)) a ladder = AutoApprove"
  note auto = auto_approve_iff [OF this]
  then show "RISK_SCORER a p = []" "a \<noteq> MergePullRequest"
    "\<exists>g. guard = Some g \<and> g_mode g = Autonomous \<and>
        (\<forall>as. g_autoApprove g = Some as \<longrightarrow> a \<in> set as) \<and> (\<forall>bs. g_blocked g = Some bs \<longrightarrow> a \<notin> set bs)"
    by blast+
  from auto show "a \<noteq> BudgetOverride"
    by (auto simp: RISK_SCORER_def FLAG_ORDER_def)
qed

theorem auto_approval_is_narrow_witness:
  "RISK_SCORER SpawnAgent payload0 = []"
proof -
  have "applyLadderToGuardrailDecision
      (evaluateGuardrails (ag_guardrails (the (agents0 ''a''))) SpawnAgent (RISK_SCORER SpawnAgent payload0))
      SpawnAgent None = AutoApprove"
    by code_simp
  with auto_approval_is_narrow [of _ _ _ None] show ?thesis by blast
qed

text \<open>Bulk approval never decides what a person must decide individually: a merge (or a held
  draft, file edit or computer act) that is in the table stays in it as it was, whatever the others do
  in between, and is counted as excluded when it was pending.\<close>

theorem bulk_approval_spares:
  assumes "approveAll rival now u ids queue = (counts, effs, queue')"
    and "r \<in> set queue" "requiresIndividualDecision r" "distinct (map q_id queue)"
    and others: "\<And>n q. r \<in> set q \<Longrightarrow> r \<in> set (rival n q)"
  shows "r \<in> set queue' \<and>
    (q_status r = ProposalPending \<and> q_userId r = u \<and> ids = None \<longrightarrow> 0 < snd (snd counts))"
proof -
  define rows where "rows = filter (\<lambda>r. q_userId r = u \<and>
      (case ids of None \<Rightarrow> q_status r = ProposalPending | Some is \<Rightarrow> q_id r \<in> set is)) queue"
  define pending where "pending = filter (\<lambda>r. q_status r = ProposalPending \<and> \<not> requiresIndividualDecision r) rows"
  have sub: "set pending \<subseteq> set queue" by (auto simp: pending_def rows_def)
  have out: "q_id r \<notin> q_id ` set pending"
  proof
    assume "q_id r \<in> q_id ` set pending"
    then obtain x where x: "x \<in> set pending" "q_id x = q_id r" by auto
    then have "x = r" using assms(2,4) sub by (metis (no_types, lifting) distinct_map inj_onD subsetD)
    then show False using x(1) assms(3) by (simp add: pending_def)
  qed
  have keep: "r \<in> set queue'"
  proof (cases "ids = Some [] \<or> pending = []")
    case True
    then show ?thesis
      using assms(1,2) by (auto simp: approveAll_def Let_def rows_def pending_def split: if_splits prod.splits)
  next
    case False
    then have "queue' = snd (claim_each rival 0 now u pending queue)"
      using assms(1) by (auto simp: approveAll_def Let_def rows_def pending_def split: if_splits prod.splits)
    then show ?thesis
      using claim_each_keeps [OF others out assms(2)] by simp
  qed
  moreover have "0 < snd (snd counts)" if "q_status r = ProposalPending" "q_userId r = u" "ids = None"
  proof -
    have "r \<in> set (filter (\<lambda>r. q_status r = ProposalPending \<and> requiresIndividualDecision r) rows)"
      using that assms(2,3) by (simp add: rows_def)
    then have "0 < length (filter (\<lambda>r. q_status r = ProposalPending \<and> requiresIndividualDecision r) rows)"
      by (metis length_pos_if_in_set)
    then show ?thesis
      using assms(1) that(3) by (auto simp: approveAll_def Let_def rows_def split: if_splits prod.splits)
  qed
  ultimately show ?thesis by blast
qed

theorem bulk_approval_spares_witness:
  "pending0 \<in> set (snd (snd (approveAll (\<lambda>_ q. q) 2 ''u'' None [pending0])))"
proof -
  obtain counts effs queue' where run: "approveAll (\<lambda>_ q. q) 2 ''u'' None [pending0] = (counts, effs, queue')"
    by (metis prod_cases3)
  have "pending0 \<in> set queue' \<and>
    (q_status pending0 = ProposalPending \<and> q_userId pending0 = ''u'' \<and> (None :: string list option) = None \<longrightarrow> 0 < snd (snd counts))"
    by (rule bulk_approval_spares [OF run]) (simp_all add: requiresIndividualDecision_def pending0_def)
  then show ?thesis by (simp add: run)
qed

section \<open>The approval record\<close>

text \<open>A subject key names one Task, one pull request and one head commit: two subjects with the same
  key are the same subject, up to the spelling of the Task id's blanks and of the commit's case.\<close>

theorem subject_key_is_injective:
  assumes "mergeApprovalSubjectKey t1 p1 s1 = Some key" "mergeApprovalSubjectKey t2 p2 s2 = Some key"
  shows "js_trim t1 = js_trim t2 \<and> p1 = p2 \<and> normalizeCommitSha (Some s1) = normalizeCommitSha (Some s2)"
  using subject_key_inject [OF assms] .

lemma key0: "mergeApprovalSubjectKey ''t'' 7 ''ABCDEF1'' = Some ''merge:t:7:abcdef1''"
  by code_simp

lemma key0': "mergeApprovalSubjectKey ''t '' 7 ''abcdef1'' = Some ''merge:t:7:abcdef1''"
  by code_simp

theorem subject_key_is_injective_witness:
  "normalizeCommitSha (Some ''ABCDEF1'') = normalizeCommitSha (Some ''abcdef1'')"
  using subject_key_is_injective [OF key0 key0'] by blast

text \<open>C8. The verifier approves a merge only on the strength of a row of the table: an approved merge
  proposal under exactly this Task, pull request and head commit, decided by a person no more than
  24 hours ago who is entitled to approve for the Task's scope.\<close>

theorem approval_needs_a_record:
  assumes "verifyMergeApproval (Some rows, d, now) task pr sha = Inr a"
  shows "\<exists>row head key. row \<in> set rows \<and> normalizeCommitSha (Some sha) = Some head \<and>
      mergeApprovalSubjectKey (js_trim task) pr head = Some key \<and>
      q_actionType row = MergePullRequest \<and> q_subjectKey row = Some key \<and> q_status row = ProposalApproved \<and>
      q_decidedVia row = Some ViaUser \<and> q_decidedById row = Some (approvedById a) \<and>
      q_decidedAt row = Some (approvedAt a) \<and> now - approvedAt a \<le> 24 * 60 * 60 * 1000 \<and>
      entitledToApprove d (js_trim task) (approvedById a)"
  using merge_approvals.approved_evidence [OF assms]
  unfolding approval_evidence_def MERGE_APPROVAL_MAX_AGE_MS_def prod.case option.inject by blast

definition directory0 :: directory where
  "directory0 = \<lparr>d_tasks = [''t'' \<mapsto> \<lparr>at_userId = ''u'', at_tenantId = None, at_organizationId = None\<rparr>],
     d_users = [''u'' \<mapsto> \<lparr>u_isActive = True, u_isAnonymous = False, u_tenantId = None\<rparr>],
     d_roster = None, d_tenantOwner = None\<rparr>"

definition approval0 :: approval where
  "approval0 = \<lparr>approvalId = ''p'', approvedById = ''u'', approvedAt = 2\<rparr>"

lemma verify0: "verifyMergeApproval (Some [approved0], directory0, 5) ''t'' 7 ''abcdef1'' = Inr approval0"
proof -
  have trim: "js_trim ''t'' = ''t''" by code_simp
  have sha: "normalizeCommitSha (Some ''abcdef1'') = Some ''abcdef1''" by code_simp
  have key: "mergeApprovalSubjectKey ''t'' 7 ''abcdef1'' = Some ''merge:t:7:abcdef1''" by code_simp
  have "entitledToApprove directory0 ''t'' ''u''"
    by (simp add: entitledToApprove_def directory0_def falsy_id_def)
  then show ?thesis
    by (simp add: verifyMergeApproval_def Let_def trim sha key approved0_def pending0_def merge_row_def
        falsy_id_def MERGE_APPROVAL_MAX_AGE_MS_def approval0_def)
qed

theorem approval_needs_a_record_witness:
  "entitledToApprove directory0 (js_trim ''t'') ''u''"
  using approval_needs_a_record [OF verify0] by (auto simp: approval0_def)

text \<open>Raising an approval is idempotent per head commit: a request that did not fail leaves a row
  under the key, a row was added only when nobody else had one, and every later request for the same
  subject, by any process, adds nothing and says so.\<close>

theorem request_files_once:
  assumes "requestMergeApproval ag l rival i now rq rows = (res, effs, rows')"
    "res \<noteq> Inl UnusableSubject" "res \<noteq> Inl RequestFailed" "queue_ok rows'"
  shows "\<exists>head key. normalizeCommitSha (Some (rq_headSha rq)) = Some head \<and>
      mergeApprovalSubjectKey (rq_taskId rq) (rq_prNumber rq) head = Some key \<and>
      length (filter (merge_row key) rows') = 1 \<and>
      (\<forall>p. res = Inr p \<longrightarrow> rows' = rival rows @ [p] \<and> filter (merge_row key) (rival rows) = []) \<and>
      (\<forall>ag2 l2 rival2 i2 now2. \<exists>reason. (reason = AlreadyOpen \<or> reason = WasDecided) \<and>
         requestMergeApproval ag2 l2 rival2 i2 now2 rq rows' = (Inl reason, [], rows'))"
proof -
  obtain head key where names: "normalizeCommitSha (Some (rq_headSha rq)) = Some head"
      "mergeApprovalSubjectKey (rq_taskId rq) (rq_prNumber rq) head = Some key"
    and row: "\<exists>r\<in>set rows'. merge_row key r"
    and filed: "\<And>p. res = Inr p \<Longrightarrow> (\<forall>r\<in>set (rival rows). \<not> merge_row key r) \<and> rows' = rival rows @ [p] \<and> merge_row key p"
    using request_leaves_row [OF assms(1-3)] by metis
  have "filter (merge_row key) rows' \<noteq> []" using row by (auto simp: filter_empty_conv)
  then have one: "length (filter (merge_row key) rows') = 1"
    using one_row_per_key [OF assms(4), of key] by (simp add: le_Suc_eq)
  have first: "\<forall>p. res = Inr p \<longrightarrow> rows' = rival rows @ [p] \<and> filter (merge_row key) (rival rows) = []"
    using filed by (simp add: filter_empty_conv)
  have again: "\<forall>ag2 l2 rival2 i2 now2. \<exists>reason. (reason = AlreadyOpen \<or> reason = WasDecided) \<and>
      requestMergeApproval ag2 l2 rival2 i2 now2 rq rows' = (Inl reason, [], rows')"
    by (intro allI) (rule request_again [OF names row])
  show ?thesis
    by (intro exI [of _ head] exI [of _ key] conjI names one first again)
qed

definition request0 :: approval_request where
  "request0 = \<lparr>rq_userId = ''u'', rq_taskId = ''t'', rq_taskLabel = ''T-1'', rq_agentId = ''a'',
     rq_prNumber = 7, rq_headSha = ''abcdef1'', rq_targetBranch = None, rq_repository = None\<rparr>"

lemma request0_run: "requestMergeApproval agents0 (\<lambda>_. None) (\<lambda>q. q) ''p2'' 9 request0 [approved0] =
    (Inl WasDecided, [], [approved0])"
proof -
  have sha: "normalizeCommitSha (Some ''abcdef1'') = Some ''abcdef1''" by code_simp
  have key: "mergeApprovalSubjectKey ''t'' 7 ''abcdef1'' = Some ''merge:t:7:abcdef1''" by code_simp
  show ?thesis
    by (simp add: requestMergeApproval_def request0_def sha key merge_row_def approved0_def pending0_def
        existing_reason_def)
qed

theorem request_files_once_witness:
  "\<exists>key. length (filter (merge_row key) [approved0]) = Suc 0"
proof -
  have "queue_ok [approved0]" using reachable_queue_ok [OF reachable0 queue_ok_Nil] .
  from request_files_once [OF request0_run _ _ this] show ?thesis
    unfolding One_nat_def by blast
qed

end
