(* ===== verification/Merge_Gate_Claims.thy ===== *)
theory Merge_Gate_Claims
  imports Merge_Path_Claims
begin

text \<open>
  The merge path end to end: the facade with the platform's own policy service and approval service
  bound to its two ports, and the gate in front of it.
\<close>

section \<open>The facade\<close>

text \<open>
  The production binding: the policy repository as the facade's first read sees it and as the decision
  sees it, and the approval service over the table, the directory and the clock.
\<close>

definition service_ports ::
  "scope_repo \<Rightarrow> scope_repo \<Rightarrow> queue option \<times> directory \<times> int \<Rightarrow> bool \<Rightarrow> merge_ports" where
  "service_ports repo1 repo2 world enabled =
     \<lparr>mp_enforcer = Some (Some (\<lambda>s. Some (resolvePolicy repo1 s)), canAgentMerge repo2),
      mp_verifier = Some (\<lambda>t p h. Some (verifyMergeApproval world t p h)),
      mp_enforcementEnabled = enabled\<rparr>"

lemma service_ports_simps [simp]:
  "mp_enforcer (service_ports r1 r2 w b) = Some (Some (\<lambda>s. Some (resolvePolicy r1 s)), canAgentMerge r2)"
  "mp_verifier (service_ports r1 r2 w b) = Some (\<lambda>t p h. Some (verifyMergeApproval w t p h))"
  "mp_enforcementEnabled (service_ports r1 r2 w b) = b"
  by (simp_all add: service_ports_def)

definition actor_task :: "merge_actor \<Rightarrow> string" where
  "actor_task actor = (case ma_taskId actor of None \<Rightarrow> [] | Some t \<Rightarrow> t)"

lemma service_gate_evidence:
  "approval_gate (service_ports r1 r2 w b) actor pr head = Inr a \<Longrightarrow>
     approval_evidence w (actor_task actor) pr head a"
  using merge_approvals.gate_evidence [of "service_ports r1 r2 w b" actor pr head a w]
  by (simp add: actor_task_def)

text \<open>What every merge call has passed, whoever the caller is.\<close>

lemma service_merge_passed:
  assumes "mergePullRequest (service_ports r1 r2 w b) actor pr m live = Inr call"
  shows "\<exists>st base. live = Some st \<and> v_state st = PrOpen \<and> v_checksComplete st \<noteq> Some False \<and>
      normalizeCommitSha (v_headSha st) = Some (mc_expectedHeadSha call) \<and> mc_prNumber call = pr \<and>
      v_baseRef st = Some base \<and>
      (ma_targetBranch actor \<noteq> None \<and> ma_targetBranch actor \<noteq> Some [] \<longrightarrow>
         sameMergeBranch (Some base) (ma_targetBranch actor)) \<and>
      (floor_branch (Some base) \<or> ma_requireHumanApproval actor \<or>
         requireHumanApproval (r_policy (resolvePolicy r1 (ma_scope actor))) \<longrightarrow>
         (\<exists>a. approval_evidence w (actor_task actor) pr (mc_expectedHeadSha call) a)) \<and>
      (b \<longrightarrow> allowAgentMerge (r_policy (resolvePolicy r2 (ma_scope actor))) \<and>
         (requireGreenGate (r_policy (resolvePolicy r2 (ma_scope actor))) \<longrightarrow> ma_gateStatus actor = Some Green) \<and>
         \<not> (protectedBranches (r_policy (resolvePolicy r2 (ma_scope actor))) \<noteq> [] \<and>
            protected_match (r_policy (resolvePolicy r2 (ma_scope actor))) (Some base)))"
  using assms
proof (rule merge_passed)
  fix st head base resolve can
  assume ports: "mp_enforcer (service_ports r1 r2 w b) = Some (resolve, can)"
    and live: "live = Some st" and h: "live_head actor live = Inr head"
    and base: "live_base actor st = Inr base"
    and call: "call = \<lparr>mc_prNumber = pr, mc_method = m, mc_expectedHeadSha = head\<rparr>"
    and gate: "fst (approval_requirement resolve actor) \<or>
       mergeTargetNeedsFloorApproval (Some base) (snd (approval_requirement resolve actor)) \<Longrightarrow>
       \<exists>a. approval_gate (service_ports r1 r2 w b) actor pr head = Inr a"
    and matrix: "mp_enforcementEnabled (service_ports r1 r2 w b) \<Longrightarrow> \<exists>h. can \<lparr>di_scope = ma_scope actor,
       di_gateStatus = ma_gateStatus actor, di_humanApproved = h, di_targetBranch = Some base,
       di_mergeMethod = m\<rparr> = None \<and> (h \<longrightarrow> (\<exists>a. approval_gate (service_ports r1 r2 w b) actor pr head = Inr a))"
  have fns: "resolve = Some (\<lambda>s. Some (resolvePolicy r1 s))" "can = canAgentMerge r2"
    using ports by simp_all
  have "\<exists>a. approval_evidence w (actor_task actor) pr head a"
    if "floor_branch (Some base) \<or> ma_requireHumanApproval actor \<or>
         requireHumanApproval (r_policy (resolvePolicy r1 (ma_scope actor)))"
  proof -
    have "fst (approval_requirement resolve actor) \<or>
       mergeTargetNeedsFloorApproval (Some base) (snd (approval_requirement resolve actor))"
      using that floor_branch_needs_approval by (auto simp: approval_requirement_def fns)
    from gate [OF this] show ?thesis using service_gate_evidence by blast
  qed
  moreover have "allowAgentMerge (r_policy (resolvePolicy r2 (ma_scope actor))) \<and>
         (requireGreenGate (r_policy (resolvePolicy r2 (ma_scope actor))) \<longrightarrow> ma_gateStatus actor = Some Green) \<and>
         \<not> (protectedBranches (r_policy (resolvePolicy r2 (ma_scope actor))) \<noteq> [] \<and>
            protected_match (r_policy (resolvePolicy r2 (ma_scope actor))) (Some base))" if on: b
  proof -
    obtain hum where "canAgentMerge r2 \<lparr>di_scope = ma_scope actor, di_gateStatus = ma_gateStatus actor,
        di_humanApproved = hum, di_targetBranch = Some base, di_mergeMethod = m\<rparr> = None"
      using matrix [unfolded service_ports_simps, OF on] fns(2) by blast
    from policy_service.allowed_target [OF this] show ?thesis by auto
  qed
  ultimately show ?thesis
    using live h base call unfolding live_head_Inr live_base_Inr
    by (intro exI [of _ st] exI [of _ base]) (auto simp: falsy_ref_def)
qed

text \<open>C6. The provider's merge call happens only for an open pull request whose checks were read in full,
  pinned to the live head commit, into the base that was planned when one was. When that base is
  \<open>main\<close> or \<open>master\<close>, when the caller insists or when the policy asks for it, a person's recorded
  approval of exactly that commit exists; the operator's switch lifts the matrix but not this.\<close>

theorem merge_call_is_justified:
  assumes "mergePullRequest (service_ports repo1 repo2 world enabled) actor pr m live = Inr call"
  shows "\<exists>st base. live = Some st \<and> v_state st = PrOpen \<and> v_checksComplete st \<noteq> Some False \<and>
      normalizeCommitSha (v_headSha st) = Some (mc_expectedHeadSha call) \<and> mc_prNumber call = pr \<and>
      v_baseRef st = Some base \<and>
      (ma_targetBranch actor \<noteq> None \<and> ma_targetBranch actor \<noteq> Some [] \<longrightarrow>
         sameMergeBranch (Some base) (ma_targetBranch actor)) \<and>
      (floor_branch (Some base) \<or> ma_requireHumanApproval actor \<or>
         requireHumanApproval (r_policy (resolvePolicy repo1 (ma_scope actor))) \<longrightarrow>
         (\<exists>a. approval_evidence world (actor_task actor) pr (mc_expectedHeadSha call) a)) \<and>
      (enabled \<longrightarrow> allowAgentMerge (r_policy (resolvePolicy repo2 (ma_scope actor))) \<and>
         (requireGreenGate (r_policy (resolvePolicy repo2 (ma_scope actor))) \<longrightarrow> ma_gateStatus actor = Some Green) \<and>
         \<not> (protectedBranches (r_policy (resolvePolicy repo2 (ma_scope actor))) \<noteq> [] \<and>
            protected_match (r_policy (resolvePolicy repo2 (ma_scope actor))) (Some base)))"
  using service_merge_passed [OF assms] .

definition repo0 :: scope_repo where
  "repo0 = \<lparr>findAgent = (\<lambda>_. Some None),
     findWork = (\<lambda>_. Some (Some \<lparr>sr_id = ''w'', sr_policy = JObj [(''allowAgentMerge'', JBool True),
        (''protectedBranches'', JArr [])], sr_workId = None, sr_organizationId = None, sr_tenantId = None\<rparr>)),
     findOrganization = (\<lambda>_. Some None), findTenant = (\<lambda>_. Some None)\<rparr>"

definition actor0 :: merge_actor where
  "actor0 = \<lparr>ma_scope = \<lparr>st_agentId = Some ''a'', st_workId = Some ''w'', st_organizationId = None,
     st_tenantId = None\<rparr>, ma_gateStatus = Some Green, ma_taskId = Some ''t'', ma_targetBranch = None,
     ma_requireHumanApproval = False, ma_advisoryCheckLegs = []\<rparr>"

definition live0 :: pr_status where
  "live0 = \<lparr>v_state = PrOpen, v_ciState = Passing, v_checks = [], v_checksComplete = None,
     v_headSha = Some ''abcdef1'', v_baseRef = Some ''main'', v_headRef = None, v_headRepoFullName = None\<rparr>"

definition ports0 :: merge_ports where
  "ports0 = service_ports repo0 repo0 (Some [approved0], directory0, 5) True"

lemma policy0: "resolvePolicy repo0 (ma_scope actor0) =
   \<lparr>r_policy = \<lparr>allowAgentMerge = True, requireGreenGate = True, requireHumanApproval = True,
      allowedMergeMethods = [Squash], protectedBranches = []\<rparr>, r_source = Some WorkScope,
    r_chain = [\<lparr>c_scope = None, c_id = None,
       c_fields = [RequireGreenGate, RequireHumanApproval, AllowedMergeMethods]\<rparr>,
      \<lparr>c_scope = Some WorkScope, c_id = Some ''w'', c_fields = [AllowAgentMerge, ProtectedBranches]\<rparr>],
    r_humanScopeWaivesApproval = False\<rparr>"
  by code_simp

lemma merge0: "mergePullRequest ports0 actor0 7 (Some Squash) (Some live0) =
    Inr \<lparr>mc_prNumber = 7, mc_method = Some Squash, mc_expectedHeadSha = ''abcdef1''\<rparr>"
proof -
  have sha: "normalizeCommitSha (Some ''abcdef1'') = Some ''abcdef1''" by code_simp
  have blank: "blank_ref (Some ''main'') = False" by code_simp
  have req: "approval_requirement (Some (\<lambda>s. Some (resolvePolicy repo0 s))) actor0 = (True, False)"
    by (simp add: approval_requirement_def policy0)
  have head: "live_head actor0 (Some live0) = Inr ''abcdef1''"
    by (simp add: live_head_def live0_def actor0_def sha)
  have base: "live_base actor0 live0 = Inr ''main''"
    by (simp add: live_base_def live0_def actor0_def blank falsy_ref_def)
  have gate: "approval_gate ports0 actor0 7 ''abcdef1'' = Inr approval0"
    by (simp add: approval_gate_def ports0_def actor0_def verify0)
  have matrix: "canAgentMerge repo0 \<lparr>di_scope = ma_scope actor0, di_gateStatus = ma_gateStatus actor0,
      di_humanApproved = True, di_targetBranch = Some ''main'', di_mergeMethod = Some Squash\<rparr> = None"
    by code_simp
  show ?thesis
    using gate matrix by (simp add: mergePullRequest_def assertAgentMayMerge_def ports0_def req head base)
qed

theorem merge_call_is_justified_witness:
  "\<exists>a. approval_evidence (Some [approved0], directory0, 5) ''t'' 7 ''abcdef1'' a"
proof -
  have "floor_branch (Some ''main'')" by code_simp
  then show ?thesis
    using merge_call_is_justified [OF merge0 [unfolded ports0_def]]
    by (auto simp: live0_def actor_task_def actor0_def)
qed

section \<open>The gate\<close>

lemma record_failure_effects:
  "ProviderMerge c \<notin> set (fst (snd (recordMergeFailure ok t sha o')))"
  by (simp add: recordMergeFailure_def Let_def)

lemma attempt_calls:
  assumes "attemptAgentMerge e t w agent pr inp = (o', effs, t')" "ProviderMerge call \<in> set effs"
  shows "\<exists>m. mergePullRequest (ae_ports e) (attempt_actor t w agent inp) pr m (ae_live e) = Inr call"
proof -
  obtain r where r: "ae_resolve e (task_scope w agent) = Some r" "allowAgentMerge (r_policy r)"
    using assms by (cases "ae_resolve e (task_scope w agent)") (auto simp: attemptAgentMerge_def split: if_splits)
  define m where "m = (case allowedMergeMethods (r_policy r) of [] \<Rightarrow> None | m # _ \<Rightarrow> Some m)"
  show ?thesis
  proof (cases "mergePullRequest (ae_ports e) (attempt_actor t w agent inp) pr m (ae_live e)")
    case (Inl c)
    then have "fst (snd (recordMergeFailure (ae_markerWritten e) t (ai_headSha inp)
        \<lparr>mo_attempted = True, mo_merged = False, mo_refusalCode = Some c\<rparr>)) = effs"
      using assms(1) r by (simp add: attemptAgentMerge_def Let_def m_def)
    then show ?thesis using assms(2) record_failure_effects by metis
  next
    case (Inr c)
    have "ProviderMerge call \<in> set effs \<Longrightarrow> call = c"
      using assms(1) r Inr record_failure_effects
      by (auto simp: attemptAgentMerge_def Let_def m_def split: option.splits bool.splits prod.splits)
        (metis fst_conv snd_conv)+
    then show ?thesis using assms(2) Inr by blast
  qed
qed

lemma gate_merge_calls:
  assumes "gate_merge e t inp rows = (outc, effs, t', rows')" "ProviderMerge call \<in> set effs"
  shows "\<exists>m w ai. mergePullRequest (ae_ports (ge_attempt e)) (attempt_actor t w (om_agentId inp) ai)
        (the (mt_prNumber t)) m (ae_live (ge_attempt e)) = Inr call
      \<and> ge_works e (the (mt_workId t)) = Some w
      \<and> ai_requireHumanApproval ai = om_requireHumanApproval inp \<and> ai_gateStatus ai = om_gateStatus inp
      \<and> ai_plannedTargetBranch ai = or_else (trimmed_ref (om_baseRef inp)) (trimmed_ref (mw_taskIsolationBaseBranch w))"
proof -
  obtain o2 where run: "attemptMergeForOpenPullRequest (ge_attempt e) (ge_works e) t inp = (o2, effs, t')"
    using assms(1) by (auto simp: gate_merge_def split: prod.splits)
  show ?thesis
  proof (cases "ge_works e (the (mt_workId t))")
    case None
    then show ?thesis using run assms(2) by (auto simp: attemptMergeForOpenPullRequest_def split: if_splits)
  next
    case (Some w)
    define ai where "ai = \<lparr>ai_gateStatus = om_gateStatus inp,
        ai_headSha = or_else (om_headSha inp) (mt_prHeadSha t),
        ai_plannedTargetBranch = or_else (trimmed_ref (om_baseRef inp)) (trimmed_ref (mw_taskIsolationBaseBranch w)),
        ai_requireHumanApproval = om_requireHumanApproval inp,
        ai_advisoryCheckLegs = om_advisoryCheckLegs inp\<rparr>"
    obtain o3 where "attemptAgentMerge (ge_attempt e) t w (om_agentId inp) (the (mt_prNumber t)) ai = (o3, effs, t')"
      using run assms(2) Some
      by (auto simp: attemptMergeForOpenPullRequest_def ai_def [symmetric] split: if_splits prod.splits)
    from attempt_calls [OF this assms(2)] show ?thesis
      using Some by (fastforce simp: ai_def)
  qed
qed

lemma gate_raise_request_calls:
  "gate_raise_request e t rq rows = (outc, effs, t', rows') \<Longrightarrow> effs = []"
  by (auto simp: gate_raise_request_def split: prod.splits sum.splits)

text \<open>Every way the gate reaches the provider.\<close>

lemma gate_calls:
  assumes "gate_evaluate e t st advisory rows = (outc, effs, t', rows')" "ProviderMerge call \<in> set effs"
  obtains head promotion s inp where "gate_precheck t st = Inr head"
    "assessPromotion (ge_guard e) t head = Inr promotion" "gate_subject_of e t st = Inr s"
    "gate_merge e t inp rows = (outc, effs, t', rows')" "om_agentId inp = gs_agentId s"
    "om_gateStatus inp = Some Green"
    "om_requireHumanApproval inp =
       gate_raises (resolvePolicy (ge_policy e) (task_scope (gs_work s) (gs_agentId s))) promotion s st"
proof -
  obtain head where head: "gate_precheck t st = Inr head"
    using assms by (cases "gate_precheck t st") (auto simp: gate_evaluate_def)
  obtain promotion where pro: "assessPromotion (ge_guard e) t head = Inr promotion"
    using assms head by (cases "assessPromotion (ge_guard e) t head") (auto simp: gate_evaluate_def)
  obtain s where s: "gate_subject_of e t st = Inr s"
    using assms head pro by (cases "gate_subject_of e t st") (auto simp: gate_evaluate_def)
  define r where "r = resolvePolicy (ge_policy e) (task_scope (gs_work s) (gs_agentId s))"
  define raised where "raised = gate_raises r promotion s st"
  have run: "(if \<not> allowAgentMerge (r_policy r) then (GateSkipped AgentMergeOff, [], t, rows)
       else if \<not> (requireHumanApproval (r_policy r) \<or> raised)
       then gate_merge e t (gate_merge_input head s None False advisory) rows
       else (case ge_verify e of
           None \<Rightarrow> (GateSkipped NoApprovalVerifier, [], t, rows)
         | Some verify \<Rightarrow>
            (case verify (mt_id t) (the (mt_prNumber t)) head of
               Inr a \<Rightarrow> gate_merge e t
                 (gate_merge_input head s (or_else promotion (gs_revertBase s)) raised advisory) rows
             | Inl c \<Rightarrow> gate_raise_request e t (gate_request t s promotion st head) rows)))
      = (outc, effs, t', rows')"
    using assms(1) by (simp only: gate_evaluate_def head pro s sum.case Let_def r_def raised_def)
  show thesis
  proof (cases "requireHumanApproval (r_policy r) \<or> raised")
    case False
    then have "gate_merge e t (gate_merge_input head s None False advisory) rows = (outc, effs, t', rows')"
      using run assms(2) by (auto split: if_splits)
    then show thesis
      by (rule that [OF head pro s]) (use False in \<open>simp_all add: gate_merge_input_def raised_def r_def\<close>)
  next
    case True
    have allowed: "allowAgentMerge (r_policy r)"
      using run assms(2) by (auto split: if_splits)
    obtain verify where verify: "ge_verify e = Some verify"
      using run allowed True assms(2) by (cases "ge_verify e") auto
    show thesis
    proof (cases "verify (mt_id t) (the (mt_prNumber t)) head")
      case (Inl c)
      then have "gate_raise_request e t (gate_request t s promotion st head) rows = (outc, effs, t', rows')"
        using run allowed True verify by simp
      then show thesis using gate_raise_request_calls assms(2) by fastforce
    next
      case (Inr a)
      then have "gate_merge e t (gate_merge_input head s (or_else promotion (gs_revertBase s)) raised advisory) rows
          = (outc, effs, t', rows')"
        using run allowed True verify by simp
      then show thesis
        by (rule that [OF head pro s]) (simp_all add: gate_merge_input_def raised_def r_def)
    qed
  qed
qed

text \<open>C7. The gate reaches the provider only for a Task that is not blocked, whose open pull request was
  just read green, complete and on the Task's own branch. A live promotion, a release revert and a
  change to human-merge paths are merged only on a person's recorded approval of the merged commit,
  whatever the policy says; and a Task that says it is a promotion is never merged where promotions
  cannot be judged.\<close>

theorem gate_merges_are_confined:
  assumes "gate_evaluate e t st advisory rows = (outc, effs, t', rows')" "ProviderMerge call \<in> set effs"
    and "ae_ports (ge_attempt e) = service_ports repo1 repo2 world enabled"
  shows "mt_status t \<noteq> BLOCKED \<and> v_state st = PrOpen \<and> v_ciState st = Passing \<and>
    v_checksComplete st \<noteq> Some False \<and> \<not> pullRequestHeadMismatch (mt_branchRef t) (v_headRef st) \<and>
    (ge_guard e = None \<longrightarrow> \<not> isPromotionTask (mt_labels t)) \<and>
    (isReleaseRevertTask (mt_labels t) \<or>
     (\<exists>g base head. ge_guard e = Some g \<and> normalizeCommitSha (v_headSha st) = Some head \<and>
        g (mt_id t) (mt_labels t) (the (mt_prNumber t)) head = Some (PromotionAllowed base)) \<or>
     (\<exists>paths. ge_judgeApp e t = Some (AppAllowed paths) \<and> paths \<noteq> [] \<and> ge_humanMergePathsEnforced e)
     \<longrightarrow> (\<exists>a. approval_evidence world (mt_id t) (the (mt_prNumber t)) (mc_expectedHeadSha call) a))"
proof -
  from assms(1,2) obtain head promotion s inp where
    pre: "gate_precheck t st = Inr head"
    and pro: "assessPromotion (ge_guard e) t head = Inr promotion"
    and sub: "gate_subject_of e t st = Inr s"
    and merge: "gate_merge e t inp rows = (outc, effs, t', rows')"
    and raise: "om_requireHumanApproval inp =
       gate_raises (resolvePolicy (ge_policy e) (task_scope (gs_work s) (gs_agentId s))) promotion s st"
    by (rule gate_calls) blast
  have front: "mt_status t \<noteq> BLOCKED" "v_state st = PrOpen" "v_ciState st = Passing"
      "v_checksComplete st \<noteq> Some False" "\<not> pullRequestHeadMismatch (mt_branchRef t) (v_headRef st)"
      "normalizeCommitSha (v_headSha st) = Some head"
    using pre by (auto simp: gate_precheck_def split: if_splits option.splits)
  have guard: "ge_guard e = None \<longrightarrow> \<not> isPromotionTask (mt_labels t)"
    using pro by (cases "ge_guard e") (auto simp: assessPromotion_def split: if_splits)
  obtain m w ai where call: "mergePullRequest (service_ports repo1 repo2 world enabled)
        (attempt_actor t w (om_agentId inp) ai) (the (mt_prNumber t)) m (ae_live (ge_attempt e)) = Inr call"
      "ai_requireHumanApproval ai = om_requireHumanApproval inp"
    using gate_merge_calls [OF merge assms(2)] assms(3) by auto
  have evidence: "\<exists>a. approval_evidence world (mt_id t) (the (mt_prNumber t)) (mc_expectedHeadSha call) a"
    if "gate_raises (resolvePolicy (ge_policy e) (task_scope (gs_work s) (gs_agentId s))) promotion s st"
    using service_merge_passed [OF call(1)] that raise call(2)
    by (auto simp: attempt_actor_def actor_task_def)
  have revert: "gs_revertBase s \<noteq> None" if "isReleaseRevertTask (mt_labels t)"
    using sub that by (auto simp: gate_subject_of_def Let_def falsy_ref_def split: option.splits if_splits app_verdict.splits)
  have promo: "promotion \<noteq> None"
    if "ge_guard e = Some g" "g (mt_id t) (mt_labels t) (the (mt_prNumber t)) head = Some (PromotionAllowed base)" for g base
    using pro that by (auto simp: assessPromotion_def)
  have paths: "gs_humanMergeRequired s"
    if "ge_judgeApp e t = Some (AppAllowed paths)" "paths \<noteq> []" "ge_humanMergePathsEnforced e" for paths
    using sub that by (auto simp: gate_subject_of_def Let_def split: option.splits if_splits)
  show ?thesis
    using front guard evidence revert promo paths unfolding gate_raises_def by auto
qed

definition gate_work0 :: merge_work where
  "gate_work0 = \<lparr>mw_id = ''w'', mw_organizationId = None, mw_tenantId = None,
     mw_taskIsolationBaseBranch = None,
     mw_releaseLadder = JObj [(''integration'', JStr ''develop''), (''staging'', JStr ''stage''),
       (''production'', JStr ''main'')], mw_repository = Some (''acme'', ''site'')\<rparr>"

definition gate_task0 :: merge_task where
  "gate_task0 = \<lparr>mt_id = ''t'', mt_userId = ''u'', mt_label = ''T-1'', mt_status = IN_REVIEW,
     mt_labels = Some [''release:revert'', ''release:revert:stage-to-main''], mt_workId = Some ''w'',
     mt_agentId = Some ''a'', mt_prNumber = Some 7, mt_branchRef = None, mt_prHeadSha = None,
     mt_mergeRefusedSha = None, mt_mergeRefusedCode = None, mt_branchState = None\<rparr>"

definition attempt_env0 :: attempt_env where
  "attempt_env0 = \<lparr>ae_ports = ports0, ae_resolve = (\<lambda>s. Some (resolvePolicy repo0 s)),
     ae_live = Some live0, ae_provider = (\<lambda>_. Some True), ae_markerWritten = True\<rparr>"

definition gate_env0 :: gate_env where
  "gate_env0 = \<lparr>ge_works = [''w'' \<mapsto> gate_work0], ge_guard = None, ge_judgeApp = (\<lambda>_. None),
     ge_humanMergePathsEnforced = True, ge_policy = repo0,
     ge_verify = Some (verifyMergeApproval (Some [approved0], directory0, 5)),
     ge_request = (\<lambda>rq rows. (Inl RequestFailed, [], rows)), ge_attempt = attempt_env0\<rparr>"

definition actor_raised :: merge_actor where
  "actor_raised = actor0\<lparr>ma_targetBranch := Some ''main'', ma_requireHumanApproval := True\<rparr>"

lemma policy_raised: "resolvePolicy repo0 (ma_scope actor_raised) = resolvePolicy repo0 (ma_scope actor0)"
  by (simp add: actor_raised_def)

lemma merge_raised: "mergePullRequest ports0 actor_raised 7 (Some Squash) (Some live0) =
    Inr \<lparr>mc_prNumber = 7, mc_method = Some Squash, mc_expectedHeadSha = ''abcdef1''\<rparr>"
proof -
  have sha: "normalizeCommitSha (Some ''abcdef1'') = Some ''abcdef1''" by code_simp
  have base: "live_base actor_raised live0 = Inr ''main''" by code_simp
  have req: "approval_requirement (Some (\<lambda>s. Some (resolvePolicy repo0 s))) actor_raised = (True, False)"
    by (simp add: approval_requirement_def policy_raised policy0)
  have head: "live_head actor_raised (Some live0) = Inr ''abcdef1''"
    by (simp add: live_head_def live0_def actor_raised_def actor0_def sha)
  have gate: "approval_gate ports0 actor_raised 7 ''abcdef1'' = Inr approval0"
    by (simp add: approval_gate_def ports0_def actor_raised_def actor0_def verify0)
  have matrix: "canAgentMerge repo0 \<lparr>di_scope = ma_scope actor_raised, di_gateStatus = ma_gateStatus actor_raised,
      di_humanApproved = True, di_targetBranch = Some ''main'', di_mergeMethod = Some Squash\<rparr> = None"
    by code_simp
  show ?thesis
    using gate matrix by (simp add: mergePullRequest_def assertAgentMayMerge_def ports0_def req head base)
qed

theorem gate_merges_are_confined_witness:
  "\<exists>a. approval_evidence (Some [approved0], directory0, 5) ''t'' 7 ''abcdef1'' a"
proof -
  define call :: merge_call where "call = \<lparr>mc_prNumber = 7, mc_method = Some Squash, mc_expectedHeadSha = ''abcdef1''\<rparr>"
  have policy: "resolvePolicy repo0 (task_scope gate_work0 ''a'') = resolvePolicy repo0 (ma_scope actor0)"
    by (simp add: task_scope_def gate_work0_def actor0_def)
  have pre: "gate_precheck gate_task0 live0 = Inr ''abcdef1''" by code_simp
  have promo: "assessPromotion None gate_task0 ''abcdef1'' = Inr None" by code_simp
  have sub: "gate_subject_of gate_env0 gate_task0 live0 =
      Inr \<lparr>gs_work = gate_work0, gs_humanMergeRequired = False, gs_revertBase = Some ''main'', gs_agentId = ''a''\<rparr>"
    by code_simp
  have actor: "attempt_actor gate_task0 gate_work0 ''a''
      \<lparr>ai_gateStatus = Some Green, ai_headSha = Some ''abcdef1'', ai_plannedTargetBranch = Some ''main'',
       ai_requireHumanApproval = True, ai_advisoryCheckLegs = []\<rparr> = actor_raised"
    by (simp add: attempt_actor_def actor_raised_def actor0_def task_scope_def gate_work0_def gate_task0_def)
  have trim: "trimmed_ref (Some ''main'') = Some ''main''" by code_simp
  have attempt: "attemptMergeForOpenPullRequest attempt_env0 [''w'' \<mapsto> gate_work0] gate_task0
      \<lparr>om_agentId = ''a'', om_gateStatus = Some Green, om_headSha = Some ''abcdef1'', om_baseRef = Some ''main'',
       om_requireHumanApproval = True, om_advisoryCheckLegs = []\<rparr> =
      (Some \<lparr>mo_attempted = True, mo_merged = True, mo_refusalCode = None\<rparr>,
       [ProviderMerge call, PostMergeMessage, LogMergeActivity], gate_task0\<lparr>mt_branchState := Some ''merged''\<rparr>)"
  proof -
    have "ai_plannedTargetBranch_ok": "or_else (Some ''main'') x = Some ''main''" for x
      by (simp add: or_else_def)
    have fields: "mt_workId gate_task0 = Some ''w''" "mt_prNumber gate_task0 = Some 7"
        "mw_repository gate_work0 = Some (''acme'', ''site'')" "falsy_ref (Some ''w'') = False"
        "missing_pr (Some 7) = False"
      by (simp_all add: gate_task0_def gate_work0_def falsy_ref_def missing_pr_def)
    have head: "or_else (Some ''abcdef1'') x = Some ''abcdef1''" for x
      by (simp add: or_else_def)
    show ?thesis
      by (simp add: attemptMergeForOpenPullRequest_def fields head trim ai_plannedTargetBranch_ok
          attemptAgentMerge_def attempt_env0_def policy policy0 actor merge_raised call_def)
  qed
  have verify: "verifyMergeApproval (Some [approved0], directory0, 5) (mt_id gate_task0)
      (the (mt_prNumber gate_task0)) ''abcdef1'' = Inr approval0"
    using verify0 by (simp add: gate_task0_def)
  obtain outc effs t' rows' where run: "gate_evaluate gate_env0 gate_task0 live0 [] [] = (outc, effs, t', rows')"
      "effs = [ProviderMerge call, PostMergeMessage, LogMergeActivity]"
    using sub verify
    by (simp add: gate_evaluate_def pre promo gate_env0_def policy policy0 gate_raises_def
        gate_merge_def gate_merge_input_def or_else_def attempt)
  have "ae_ports (ge_attempt gate_env0) = service_ports repo0 repo0 (Some [approved0], directory0, 5) True"
    by (simp add: gate_env0_def attempt_env0_def ports0_def)
  moreover have "isReleaseRevertTask (mt_labels gate_task0)" by code_simp
  ultimately show ?thesis
    using gate_merges_are_confined [OF run(1), of call] run(2)
    by (auto simp: call_def gate_task0_def)
qed

text \<open>A refusal is reported once: after a failed attempt was reported and its marker written, the
  same outcome at the same head is returned silently, and a different refusal or a new head is
  reported again.\<close>

theorem refusal_is_told_once:
  assumes "recordMergeFailure True t sha outcome = (o', effs, t')"
  shows "o' = outcome \<and> recordMergeFailure ok t' sha outcome = (outcome, [], t') \<and>
    (normalizeCommitSha sha2 \<noteq> normalizeCommitSha sha \<or> mo_refusalCode outcome2 \<noteq> mo_refusalCode outcome \<longrightarrow>
       PostMergeMessage \<in> set (fst (snd (recordMergeFailure ok t' sha2 outcome2))))"
  using assms by (auto simp: recordMergeFailure_def Let_def split: if_splits)

theorem refusal_is_told_once_witness:
  "recordMergeFailure True (gate_task0\<lparr>mt_mergeRefusedSha := Some ''abcdef1'', mt_mergeRefusedCode := Some (Some ProtectedBranch)\<rparr>)
     (Some ''ABCDEF1'') \<lparr>mo_attempted = True, mo_merged = False, mo_refusalCode = Some ProtectedBranch\<rparr> =
   (\<lparr>mo_attempted = True, mo_merged = False, mo_refusalCode = Some ProtectedBranch\<rparr>, [],
    gate_task0\<lparr>mt_mergeRefusedSha := Some ''abcdef1'', mt_mergeRefusedCode := Some (Some ProtectedBranch)\<rparr>)"
proof -
  let ?o = "\<lparr>mo_attempted = True, mo_merged = False, mo_refusalCode = Some ProtectedBranch\<rparr>"
  have sha: "normalizeCommitSha (Some ''ABCDEF1'') = Some ''abcdef1''" by code_simp
  have "recordMergeFailure True gate_task0 (Some ''ABCDEF1'') ?o =
     (?o, [RecordRefusal (Some ''abcdef1'') (Some ProtectedBranch), PostMergeMessage, LogMergeActivity],
      gate_task0\<lparr>mt_mergeRefusedSha := Some ''abcdef1'', mt_mergeRefusedCode := Some (Some ProtectedBranch)\<rparr>)"
    by (simp add: recordMergeFailure_def Let_def sha gate_task0_def)
  from refusal_is_told_once [OF this] show ?thesis by blast
qed

text \<open>The advisory roll-up never waves a real failure through: when it turns a failing provider
  verdict into passing, the whole check list was visible and every failed check was an advisory leg
  reported by the App-check reporter; nothing was still pending.\<close>

theorem advisory_rollup_is_sound:
  assumes "rollUpAppCiState st advisory = Passing" "v_ciState st \<noteq> Passing"
  shows "v_ciState st = Failing \<and> v_checksComplete st \<noteq> Some False \<and> length (v_checks st) < MAX_PR_CHECKS \<and>
    (\<forall>c\<in>set (v_checks st). k_completed c \<and> k_conclusion c \<noteq> None \<and>
       (failing_conclusion (k_conclusion c) \<longrightarrow> k_name c \<in> set advisory \<and>
          js_lower (js_trim (case k_appSlug c of None \<Rightarrow> [] | Some s \<Rightarrow> s)) = ''github-actions''))"
proof -
  have base: "v_ciState st = Failing" "v_checksComplete st \<noteq> Some False" "length (v_checks st) < MAX_PR_CHECKS"
      "deriveCiState (map (neutralise_advisory advisory) (v_checks st)) = Passing"
    using assms by (auto simp: rollUpAppCiState_def split: if_splits)
  have "k_completed c \<and> k_conclusion c \<noteq> None \<and>
       (failing_conclusion (k_conclusion c) \<longrightarrow> isAdvisoryAppCheckLeg c advisory)" if "c \<in> set (v_checks st)" for c
  proof -
    have "k_completed (neutralise_advisory advisory c) \<and> k_conclusion (neutralise_advisory advisory c) \<noteq> None \<and>
        \<not> failing_conclusion (k_conclusion (neutralise_advisory advisory c))"
      using base(4) that unfolding deriveCiState_passing by simp
    then show ?thesis
      using neutralise_passing [of advisory c] neutralise_same_verdict [of c advisory]
      by (cases "k_conclusion c") auto
  qed
  then show ?thesis
    using base by (simp add: isAdvisoryAppCheckLeg_def APP_CHECK_REPORTER_SLUG_def)
qed

definition advisory_status :: pr_status where
  "advisory_status = live0\<lparr>v_ciState := Failing, v_checks := [\<lparr>k_name = ''Ever Works check: lint'',
     k_completed = True, k_conclusion = Some Failure, k_appSlug = Some ''github-actions''\<rparr>]\<rparr>"

theorem advisory_rollup_is_sound_witness:
  "v_checksComplete advisory_status \<noteq> Some False"
proof -
  have "rollUpAppCiState advisory_status [''Ever Works check: lint''] = Passing" by code_simp
  moreover have "v_ciState advisory_status \<noteq> Passing" by (simp add: advisory_status_def)
  ultimately show ?thesis using advisory_rollup_is_sound by blast
qed

end
