(* ===== verification/Js_Number.thy ===== *)
theory Js_Number
  imports Js_Values
begin

text \<open>
  \<open>Number(value)\<close> and \<open>String(value)\<close> on the values of \<open>Js_Values\<close>: the string-to-number grammar
  of ECMAScript (blank, decimal, exponent, \<open>Infinity\<close>, the three radix prefixes) and the
  number-to-string format, both over exact rationals.
\<close>

section \<open>Strings to numbers\<close>

definition digit_value :: "char \<Rightarrow> nat option" where
  "digit_value c = (let n = of_char c :: nat in
     if 48 \<le> n \<and> n \<le> 57 then Some (n - 48)
     else if 97 \<le> n \<and> n \<le> 122 then Some (n - 87)
     else if 65 \<le> n \<and> n \<le> 90 then Some (n - 55)
     else None)"

definition is_radix_digit :: "nat \<Rightarrow> char \<Rightarrow> bool" where
  "is_radix_digit b c = (case digit_value c of None \<Rightarrow> False | Some d \<Rightarrow> d < b)"

definition radix_value :: "nat \<Rightarrow> string \<Rightarrow> nat" where
  "radix_value b s = foldl (\<lambda>acc c. b * acc + the (digit_value c)) 0 s"

text \<open>A non-empty run of digits of the given radix and nothing else.\<close>

definition radix_number :: "nat \<Rightarrow> string \<Rightarrow> js_number" where
  "radix_number b s =
     (if s \<noteq> [] \<and> list_all (is_radix_digit b) s then Fin (of_nat (radix_value b s)) else NaN)"

definition split_sign :: "string \<Rightarrow> bool \<times> string" where
  "split_sign s = (case s of
     c # cs \<Rightarrow> if c = CHR ''-'' then (True, cs) else if c = CHR ''+'' then (False, cs) else (False, s)
   | [] \<Rightarrow> (False, []))"

definition signed :: "bool \<Rightarrow> rat \<Rightarrow> rat" where
  "signed neg r = (if neg then - r else r)"

text \<open>The exponent part: absent, or \<open>e\<close> with an optional sign and at least one digit.\<close>

definition parse_exponent :: "string \<Rightarrow> int option" where
  "parse_exponent s = (case s of
     [] \<Rightarrow> Some 0
   | c # cs \<Rightarrow>
      if c = CHR ''e'' \<or> c = CHR ''E'' then
        (case split_sign cs of (neg, ds) \<Rightarrow>
           if ds \<noteq> [] \<and> list_all is_digit ds
           then Some (if neg then - int (radix_value 10 ds) else int (radix_value 10 ds)) else None)
      else None)"

definition power10 :: "int \<Rightarrow> rat" where
  "power10 e = (if 0 \<le> e then 10 ^ nat e else 1 / 10 ^ nat (- e))"

definition parse_decimal :: "string \<Rightarrow> js_number" where
  "parse_decimal s0 =
     (case split_sign s0 of (neg, s) \<Rightarrow>
       if s = ''Infinity'' then (if neg then NegInf else PosInf)
       else (let ip = takeWhile is_digit s; r1 = dropWhile is_digit s;
                 (fp, r2) = (case r1 of c # cs \<Rightarrow> if c = CHR ''.''
                       then (takeWhile is_digit cs, dropWhile is_digit cs) else ([], r1)
                     | [] \<Rightarrow> ([], []))
             in if ip = [] \<and> fp = [] then NaN
                else (case parse_exponent r2 of
                    None \<Rightarrow> NaN
                  | Some e \<Rightarrow> Fin (signed neg (of_nat (radix_value 10 (ip @ fp)) * power10 (e - int (length fp)))))))"

definition js_number_of_string :: "string \<Rightarrow> js_number" where
  "js_number_of_string s =
     (let t = js_trim s in
      case t of
        [] \<Rightarrow> Fin 0
      | [c] \<Rightarrow> parse_decimal t
      | c # d # rest \<Rightarrow>
          if c = CHR ''0'' \<and> (d = CHR ''x'' \<or> d = CHR ''X'') then radix_number 16 rest
          else if c = CHR ''0'' \<and> (d = CHR ''o'' \<or> d = CHR ''O'') then radix_number 8 rest
          else if c = CHR ''0'' \<and> (d = CHR ''b'' \<or> d = CHR ''B'') then radix_number 2 rest
          else parse_decimal t)"

section \<open>Numbers to strings\<close>

text \<open>The least number of decimals that makes a rational an integer, within the fuel.\<close>

fun decimals_needed :: "nat \<Rightarrow> rat \<Rightarrow> nat" where
  "decimals_needed 0 r = 0"
| "decimals_needed (Suc n) r = (if of_int \<lfloor>r\<rfloor> = r then 0 else Suc (decimals_needed n (10 * r)))"

definition strip_zeros :: "string \<Rightarrow> string" where
  "strip_zeros s = rev (dropWhile (\<lambda>c. c = CHR ''0'') (rev s))"

definition MAX_DECIMALS :: nat where
  "MAX_DECIMALS = 1100"

text \<open>A positive number: its significant digits, and the position of the point.\<close>

definition show_positive :: "rat \<Rightarrow> string" where
  "show_positive r =
     (let j = decimals_needed MAX_DECIMALS r;
          ds = decimal (nat \<lfloor>r * 10 ^ j\<rfloor>);
          n = int (length ds) - int j;
          sig = strip_zeros ds; k = int (length sig) in
      if k \<le> n \<and> n \<le> 21 then sig @ replicate (nat (n - k)) CHR ''0''
      else if 0 < n \<and> n \<le> 21 then take (nat n) sig @ ''.'' @ drop (nat n) sig
      else if -6 < n \<and> n \<le> 0 then ''0.'' @ replicate (nat (- n)) CHR ''0'' @ sig
      else (let e = n - 1;
                es = (if 0 \<le> e then ''+'' @ decimal (nat e) else ''-'' @ decimal (nat (- e)))
            in (case sig of [d] \<Rightarrow> [d] @ ''e'' @ es
                | d # rest \<Rightarrow> [d] @ ''.'' @ rest @ ''e'' @ es
                | [] \<Rightarrow> [])))"

fun js_string_of_number :: "js_number \<Rightarrow> string" where
  "js_string_of_number NaN = ''NaN''"
| "js_string_of_number PosInf = ''Infinity''"
| "js_string_of_number NegInf = ''-Infinity''"
| "js_string_of_number (Fin r) =
     (if r = 0 then ''0'' else if r < 0 then ''-'' @ show_positive (- r) else show_positive r)"

section \<open>Coercions of values\<close>

fun join_strings :: "string \<Rightarrow> string list \<Rightarrow> string" where
  "join_strings sep [] = []"
| "join_strings sep [s] = s"
| "join_strings sep (s # ss) = s @ sep @ join_strings sep ss"

text \<open>\<open>String(v)\<close>; \<open>join\<close> renders a null or undefined entry of an array as the empty string.\<close>

fun js_to_string :: "json \<Rightarrow> string" where
  "js_to_string JUndef = ''undefined''"
| "js_to_string JNull = ''null''"
| "js_to_string (JBool b) = (if b then ''true'' else ''false'')"
| "js_to_string (JNum n) = js_string_of_number n"
| "js_to_string (JStr s) = s"
| "js_to_string (JArr vs) =
     join_strings '','' (map (\<lambda>v. if v = JUndef \<or> v = JNull then [] else js_to_string v) vs)"
| "js_to_string (JObj _) = ''[object Object]''"

fun js_to_number :: "json \<Rightarrow> js_number" where
  "js_to_number JUndef = NaN"
| "js_to_number JNull = Fin 0"
| "js_to_number (JBool b) = (if b then Fin 1 else Fin 0)"
| "js_to_number (JNum n) = n"
| "js_to_number (JStr s) = js_number_of_string s"
| "js_to_number (JArr vs) = js_number_of_string (js_to_string (JArr vs))"
| "js_to_number (JObj _) = NaN"

text \<open>\<open>===\<close>. Two objects or arrays held in different places are never the same object.\<close>

fun strict_eq :: "json \<Rightarrow> json \<Rightarrow> bool" where
  "strict_eq JUndef b = (b = JUndef)"
| "strict_eq JNull b = (b = JNull)"
| "strict_eq (JBool x) b = (b = JBool x)"
| "strict_eq (JNum n) b = (n \<noteq> NaN \<and> b = JNum n)"
| "strict_eq (JStr s) b = (b = JStr s)"
| "strict_eq (JArr _) b = False"
| "strict_eq (JObj _) b = False"

text \<open>\<open>Number.isInteger\<close>, with the integer.\<close>

fun integer_of :: "js_number \<Rightarrow> int option" where
  "integer_of (Fin r) = (if of_int \<lfloor>r\<rfloor> = r then Some \<lfloor>r\<rfloor> else None)"
| "integer_of _ = None"

section \<open>Facts\<close>

lemma digit_value_digit: "is_digit c \<Longrightarrow> digit_value c = Some (char_digit c)"
  by (auto simp: is_digit_def digit_value_def char_digit_def Let_def)

lemma radix_value_digits:
  "list_all is_digit s \<Longrightarrow> radix_value 10 s = decimal_value s"
proof (induction s rule: rev_induct)
  case Nil
  then show ?case by (simp add: radix_value_def decimal_value_def)
next
  case (snoc c s)
  then show ?case
    by (simp add: radix_value_def decimal_value_def digit_value_digit)
qed

lemma digit_not_space: "is_digit c \<Longrightarrow> \<not> is_js_space c"
proof -
  have "\<forall>x\<in>set [CHR 0x09, CHR 0x0A, CHR 0x0B, CHR 0x0C, CHR 0x0D, CHR 0x20, CHR 0xA0]. \<not> is_digit x"
    by (simp add: is_digit_def)
  then show "is_digit c \<Longrightarrow> \<not> is_js_space c" unfolding is_js_space_def by blast
qed

lemma decimal_nonempty [simp]: "decimal n \<noteq> []"
  by (subst decimal.simps) simp

lemma js_trim_no_space:
  assumes "list_all (\<lambda>c. \<not> is_js_space c) s"
  shows "js_trim s = s"
proof -
  have keep: "dropWhile is_js_space xs = xs" if "list_all (\<lambda>c. \<not> is_js_space c) xs" for xs
    using that by (cases xs) auto
  show ?thesis using keep [OF assms] keep [of "rev s"] assms by (simp add: js_trim_def)
qed

lemma parse_digits:
  assumes "list_all is_digit s" "s \<noteq> []"
  shows "parse_decimal s = Fin (of_nat (decimal_value s))"
proof -
  have nosign: "split_sign s = (False, s)"
    using assms by (cases s) (auto simp: split_sign_def is_digit_def)
  have "CHR ''I'' \<notin> set s"
    using assms(1) by (auto simp: list_all_iff is_digit_def)
  then have fin: "s \<noteq> ''Infinity''" by auto
  have whole: "takeWhile is_digit s = s" "dropWhile is_digit s = []"
    using assms(1) by (simp_all add: list_all_iff)
  show ?thesis
    unfolding parse_decimal_def nosign Let_def prod.case whole
    using fin assms by (simp add: parse_exponent_def signed_def power10_def radix_value_digits)
qed

text \<open>The plain decimal digits of a number read back as that number.\<close>

lemma number_of_decimal: "js_number_of_string (decimal n) = Fin (of_nat n)"
proof -
  have digits: "list_all is_digit (decimal n)" by (simp add: list_all_iff decimal_digits)
  have trim: "js_trim (decimal n) = decimal n"
    using digits digit_not_space by (intro js_trim_no_space) (auto simp: list_all_iff)
  have plain: "\<not> is_digit CHR ''x''" "\<not> is_digit CHR ''X''" "\<not> is_digit CHR ''o''" "\<not> is_digit CHR ''O''"
      "\<not> is_digit CHR ''b''" "\<not> is_digit CHR ''B''"
    by (simp_all add: is_digit_def)
  have parse: "parse_decimal (decimal n) = Fin (of_nat n)"
    using parse_digits [OF digits] by simp
  show ?thesis
  proof (cases "decimal n")
    case Nil
    then show ?thesis by simp
  next
    case outer: (Cons c cs)
    show ?thesis
    proof (cases cs)
      case Nil
      then show ?thesis using outer parse trim by (simp add: js_number_of_string_def)
    next
      case (Cons d rest)
      then have "is_digit d" using digits outer by simp
      then have "d \<noteq> CHR ''x''" "d \<noteq> CHR ''X''" "d \<noteq> CHR ''o''" "d \<noteq> CHR ''O''" "d \<noteq> CHR ''b''" "d \<noteq> CHR ''B''"
        using plain by auto
      then show ?thesis using outer Cons parse trim by (simp add: js_number_of_string_def)
    qed
  qed
qed

end
