(* ===== verification/Workflow_Graph.thy ===== *)
theory Workflow_Graph
  imports Js_Number
begin

text \<open>
  The workflow graph model of \<open>packages/contracts/src/workflow/workflow-graph.types.ts\<close>: paths and
  conditions over the run scope, input mappings, the structural validation and the edge queries. The
  last section gives the declarative meaning of a valid graph and shows the validator decides it.
\<close>

section \<open>Data\<close>

datatype condition_op = OpEq | OpNeq | OpGt | OpGte | OpLt | OpLte | OpExists | OpNotExists
  | OpTruthy | OpFalsy | OpContains | OpIn | OpUnknown string

definition WORKFLOW_CONDITION_OPERATORS :: "condition_op list" where
  "WORKFLOW_CONDITION_OPERATORS = [OpEq, OpNeq, OpGt, OpGte, OpLt, OpLte, OpExists, OpNotExists,
     OpTruthy, OpFalsy, OpContains, OpIn]"

text \<open>A missing \<open>when\<close> or \<open>when.path\<close> is the empty path.\<close>

record condition =
  w_path :: string
  w_operator :: condition_op
  w_value :: json

record mapping_entry =
  b_to :: string
  b_from :: "string option"
  b_fallback :: json
  b_required :: bool

text \<open>The four kinds with their own fields; a missing \<open>choice\<close> is the empty token.\<close>

datatype edge_kind =
    Sequential
  | OnFailure "string list option"
  | Conditional condition
  | LlmDecide string bool
  | UnknownKind string

text \<open>A missing id is the empty one.\<close>

record workflow_edge =
  e_id :: string
  e_from :: string
  e_to :: string
  e_kind :: edge_kind
  e_inputMapping :: "mapping_entry list"

record workflow_node =
  n_id :: string
  n_kind :: string
  n_config :: json

record workflow_graph =
  g_id :: string
  g_entryNodeId :: string
  g_nodes :: "workflow_node list"
  g_edges :: "workflow_edge list"
  g_maxSteps :: "js_number option"

definition WORKFLOW_DEFAULT_MAX_STEPS :: nat where
  "WORKFLOW_DEFAULT_MAX_STEPS = 50"

definition WORKFLOW_MAX_STEPS_CEILING :: nat where
  "WORKFLOW_MAX_STEPS_CEILING = 500"

definition FORBIDDEN_PATH_SEGMENTS :: "string list" where
  "FORBIDDEN_PATH_SEGMENTS = [''__proto__'', ''prototype'', ''constructor'']"

section \<open>Paths, conditions and mappings\<close>

fun walk_path :: "json \<Rightarrow> string list \<Rightarrow> json" where
  "walk_path current [] = current"
| "walk_path current (segment # rest) =
     (if segment = [] then JUndef
      else if segment \<in> set FORBIDDEN_PATH_SEGMENTS then JUndef
      else (case current of
          JArr vs \<Rightarrow> (case integer_of (js_number_of_string segment) of
              None \<Rightarrow> JUndef
            | Some i \<Rightarrow> if i < 0 \<or> i \<ge> int (length vs) then JUndef else walk_path (vs ! nat i) rest)
        | JObj ps \<Rightarrow> (case map_of ps segment of None \<Rightarrow> JUndef | Some v \<Rightarrow> walk_path v rest)
        | _ \<Rightarrow> JUndef))"

definition resolveWorkflowPath :: "json \<Rightarrow> string \<Rightarrow> json" where
  "resolveWorkflowPath scope path = (if path = [] then JUndef else walk_path scope (js_split CHR ''.'' path))"

fun has_substring :: "string \<Rightarrow> string \<Rightarrow> bool" where
  "has_substring [] sub = (sub = [])"
| "has_substring (c # s) sub = (strip_prefix sub (c # s) \<noteq> None \<or> has_substring s sub)"

definition looseContains :: "json \<Rightarrow> json \<Rightarrow> bool" where
  "looseContains haystack needle = (case haystack of
     JArr vs \<Rightarrow> list_ex (\<lambda>v. strict_eq v needle) vs
   | JStr s \<Rightarrow> has_substring s (js_to_string needle)
   | _ \<Rightarrow> False)"

fun finite_rat :: "js_number \<Rightarrow> rat option" where
  "finite_rat (Fin r) = Some r"
| "finite_rat _ = None"

definition numericCompare :: "json \<Rightarrow> json \<Rightarrow> (rat \<Rightarrow> rat \<Rightarrow> bool) \<Rightarrow> bool" where
  "numericCompare left right compare =
     (case (finite_rat (js_to_number left), finite_rat (js_to_number right)) of
        (Some a, Some b) \<Rightarrow> compare a b | _ \<Rightarrow> False)"

definition evaluateWorkflowCondition :: "condition \<Rightarrow> json \<Rightarrow> bool" where
  "evaluateWorkflowCondition c scope =
     (let actual = resolveWorkflowPath scope (w_path c); v = w_value c in
      case w_operator c of
        OpExists \<Rightarrow> actual \<noteq> JUndef \<and> actual \<noteq> JNull
      | OpNotExists \<Rightarrow> actual = JUndef \<or> actual = JNull
      | OpTruthy \<Rightarrow> truthy actual
      | OpFalsy \<Rightarrow> \<not> truthy actual
      | OpEq \<Rightarrow> strict_eq actual v
      | OpNeq \<Rightarrow> \<not> strict_eq actual v
      | OpGt \<Rightarrow> numericCompare actual v (\<lambda>a b. a > b)
      | OpGte \<Rightarrow> numericCompare actual v (\<lambda>a b. a \<ge> b)
      | OpLt \<Rightarrow> numericCompare actual v (\<lambda>a b. a < b)
      | OpLte \<Rightarrow> numericCompare actual v (\<lambda>a b. a \<le> b)
      | OpContains \<Rightarrow> looseContains actual v
      | OpIn \<Rightarrow> looseContains v actual
      | OpUnknown _ \<Rightarrow> False)"

text \<open>\<open>obj[key] = v\<close> on a plain object: setting \<open>__proto__\<close> adds no own property.\<close>

definition js_set :: "(string \<times> json) list \<Rightarrow> string \<Rightarrow> json \<Rightarrow> (string \<times> json) list" where
  "js_set ps key v =
     (if key = ''__proto__'' then ps
      else if key \<in> fst ` set ps then map (\<lambda>(k, x). if k = key then (k, v) else (k, x)) ps
      else ps @ [(key, v)])"

definition binding_value :: "mapping_entry \<Rightarrow> json \<Rightarrow> json" where
  "binding_value b scope =
     (let resolved = (case b_from b of None \<Rightarrow> JUndef | Some p \<Rightarrow> resolveWorkflowPath scope p)
      in if resolved = JUndef then b_fallback b else resolved)"

fun apply_bindings ::
  "mapping_entry list \<Rightarrow> json \<Rightarrow> (string \<times> json) list \<Rightarrow> string list \<Rightarrow> (string \<times> json) list \<times> string list" where
  "apply_bindings [] scope inputs missing = (inputs, missing)"
| "apply_bindings (b # bs) scope inputs missing =
     (if b_to b = [] \<or> b_to b \<in> set FORBIDDEN_PATH_SEGMENTS then apply_bindings bs scope inputs missing
      else (let v = binding_value b scope in
        if v = JUndef
        then apply_bindings bs scope inputs (if b_required b then missing @ [b_to b] else missing)
        else apply_bindings bs scope (js_set inputs (b_to b) v) missing))"

text \<open>\<open>Inl missing\<close> is \<open>\{ ok: false, missing \}\<close>.\<close>

definition applyWorkflowInputMapping ::
  "mapping_entry list \<Rightarrow> json \<Rightarrow> string list + (string \<times> json) list" where
  "applyWorkflowInputMapping mapping scope =
     (case apply_bindings mapping scope [] [] of (inputs, missing) \<Rightarrow>
        if missing \<noteq> [] then Inl missing else Inr inputs)"

section \<open>Validation\<close>

datatype graph_error =
    NodeWithoutId | DuplicateNode string | NoEntryNode | EntryNotANode string
  | EdgeWithoutId | DuplicateEdge string | EdgeUnknownKind string
  | EdgeLeavesUnknown string | EdgeReachesUnknown string | TwoSequential string
  | ConditionWithoutPath string | ConditionUnknownOperator string
  | DecideWithoutChoice string | DuplicateChoice string string | TwoFallbacks string
  | MappingWithoutTo string | MappingWithoutSource string string | BadMaxSteps

fun validate_nodes :: "workflow_node list \<Rightarrow> string list \<Rightarrow> graph_error list \<times> string list" where
  "validate_nodes [] seen = ([], seen)"
| "validate_nodes (n # ns) seen =
     (if n_id n = [] then (case validate_nodes ns seen of (es, s) \<Rightarrow> (NodeWithoutId # es, s))
      else (case validate_nodes ns (n_id n # seen) of (es, s) \<Rightarrow>
         ((if n_id n \<in> set seen then [DuplicateNode (n_id n)] else []) @ es, s)))"

record edge_state =
  es_edgeIds :: "string list"
  es_sequential :: "string \<Rightarrow> nat"
  es_choices :: "string \<Rightarrow> string list"
  es_fallbacks :: "string \<Rightarrow> nat"

definition edge_state0 :: edge_state where
  "edge_state0 = \<lparr>es_edgeIds = [], es_sequential = (\<lambda>_. 0), es_choices = (\<lambda>_. []), es_fallbacks = (\<lambda>_. 0)\<rparr>"

definition mapping_errors :: "workflow_edge \<Rightarrow> graph_error list" where
  "mapping_errors e = concat (map (\<lambda>b.
      if b_to b = [] then [MappingWithoutTo (e_id e)]
      else if b_from b = None \<and> b_fallback b = JUndef then [MappingWithoutSource (e_id e) (b_to b)]
      else []) (e_inputMapping e))"

text \<open>The kind-specific checks of one edge, and the maps they update.\<close>

definition kind_errors :: "workflow_edge \<Rightarrow> edge_state \<Rightarrow> graph_error list \<times> edge_state" where
  "kind_errors e s = (case e_kind e of
     Sequential \<Rightarrow>
       (let count = es_sequential s (e_from e) + 1 in
        ((if count = 2 then [TwoSequential (e_from e)] else []),
         s\<lparr>es_sequential := (es_sequential s)(e_from e := count)\<rparr>))
   | Conditional c \<Rightarrow>
       ((if w_path c = [] then [ConditionWithoutPath (e_id e)]
         else if w_operator c \<notin> set WORKFLOW_CONDITION_OPERATORS then [ConditionUnknownOperator (e_id e)]
         else []), s)
   | LlmDecide choice fallback \<Rightarrow>
       (let (errs, s1) =
          (if choice = [] then ([DecideWithoutChoice (e_id e)], s)
           else ((if choice \<in> set (es_choices s (e_from e)) then [DuplicateChoice (e_from e) choice] else []),
                 s\<lparr>es_choices := (es_choices s)(e_from e := choice # es_choices s (e_from e))\<rparr>))
        in if fallback
           then (let count = es_fallbacks s1 (e_from e) + 1 in
             (errs @ (if count = 2 then [TwoFallbacks (e_from e)] else []),
              s1\<lparr>es_fallbacks := (es_fallbacks s1)(e_from e := count)\<rparr>))
           else (errs, s1))
   | _ \<Rightarrow> ([], s))"

fun is_unknown_kind :: "edge_kind \<Rightarrow> bool" where
  "is_unknown_kind (UnknownKind _) = True"
| "is_unknown_kind _ = False"

fun validate_edges :: "string list \<Rightarrow> workflow_edge list \<Rightarrow> edge_state \<Rightarrow> graph_error list" where
  "validate_edges nodeIds [] s = []"
| "validate_edges nodeIds (e # es) s =
     (if e_id e = [] then EdgeWithoutId # validate_edges nodeIds es s
      else (let dup = (if e_id e \<in> set (es_edgeIds s) then [DuplicateEdge (e_id e)] else []);
                s1 = s\<lparr>es_edgeIds := e_id e # es_edgeIds s\<rparr>
            in if is_unknown_kind (e_kind e)
               then dup @ [EdgeUnknownKind (e_id e)] @ validate_edges nodeIds es s1
               else (case kind_errors e s1 of (kerrs, s2) \<Rightarrow>
                  dup
                  @ (if e_from e \<notin> set nodeIds then [EdgeLeavesUnknown (e_id e)] else [])
                  @ (if e_to e \<notin> set nodeIds then [EdgeReachesUnknown (e_id e)] else [])
                  @ kerrs @ mapping_errors e @ validate_edges nodeIds es s2)))"

definition bad_max_steps :: "js_number option \<Rightarrow> bool" where
  "bad_max_steps m = (case m of None \<Rightarrow> False
     | Some n \<Rightarrow> (case integer_of n of None \<Rightarrow> True | Some i \<Rightarrow> i \<le> 0))"

definition validateWorkflowGraph :: "workflow_graph \<Rightarrow> graph_error list" where
  "validateWorkflowGraph g =
     (case validate_nodes (g_nodes g) [] of (nerrs, nodeIds) \<Rightarrow>
        nerrs
        @ (if g_entryNodeId g = [] then [NoEntryNode]
           else if g_entryNodeId g \<notin> set nodeIds then [EntryNotANode (g_entryNodeId g)] else [])
        @ validate_edges nodeIds (g_edges g) edge_state0
        @ (if bad_max_steps (g_maxSteps g) then [BadMaxSteps] else []))"

section \<open>Edges of a node\<close>

definition outgoingWorkflowEdges :: "workflow_graph \<Rightarrow> string \<Rightarrow> (edge_kind \<Rightarrow> bool) \<Rightarrow> workflow_edge list" where
  "outgoingWorkflowEdges g nodeId kind = filter (\<lambda>e. e_from e = nodeId \<and> kind (e_kind e)) (g_edges g)"

definition onFailureEdgeCatches :: "string list option \<Rightarrow> string option \<Rightarrow> bool" where
  "onFailureEdgeCatches codes failureCode = (case codes of
     None \<Rightarrow> True
   | Some cs \<Rightarrow> (case failureCode of None \<Rightarrow> False | Some c \<Rightarrow> c \<in> set cs))"

section \<open>What a valid graph is\<close>

definition node_ids :: "workflow_graph \<Rightarrow> string list" where
  "node_ids g = map n_id (g_nodes g)"

definition sources :: "(edge_kind \<Rightarrow> bool) \<Rightarrow> workflow_edge list \<Rightarrow> string list" where
  "sources kind es = map e_from (filter (\<lambda>e. kind (e_kind e)) es)"

fun is_sequential :: "edge_kind \<Rightarrow> bool" where
  "is_sequential Sequential = True" | "is_sequential _ = False"

fun is_fallback_arm :: "edge_kind \<Rightarrow> bool" where
  "is_fallback_arm (LlmDecide _ f) = f" | "is_fallback_arm _ = False"

fun is_decide :: "edge_kind \<Rightarrow> bool" where
  "is_decide (LlmDecide _ _) = True" | "is_decide _ = False"

fun decide_choice :: "edge_kind \<Rightarrow> string" where
  "decide_choice (LlmDecide c _) = c" | "decide_choice _ = []"

definition decide_arms :: "workflow_edge list \<Rightarrow> (string \<times> string) list" where
  "decide_arms es = map (\<lambda>e. (e_from e, decide_choice (e_kind e))) (filter (\<lambda>e. is_decide (e_kind e)) es)"

definition edge_wf :: "string set \<Rightarrow> workflow_edge \<Rightarrow> bool" where
  "edge_wf nodes e \<longleftrightarrow> e_id e \<noteq> [] \<and> \<not> is_unknown_kind (e_kind e) \<and> e_from e \<in> nodes \<and> e_to e \<in> nodes \<and>
     (case e_kind e of
        Conditional c \<Rightarrow> w_path c \<noteq> [] \<and> w_operator c \<in> set WORKFLOW_CONDITION_OPERATORS
      | LlmDecide c _ \<Rightarrow> c \<noteq> []
      | _ \<Rightarrow> True) \<and>
     (\<forall>b\<in>set (e_inputMapping e). b_to b \<noteq> [] \<and> (b_from b \<noteq> None \<or> b_fallback b \<noteq> JUndef))"

definition graph_wf :: "workflow_graph \<Rightarrow> bool" where
  "graph_wf g \<longleftrightarrow>
     [] \<notin> set (node_ids g) \<and> distinct (node_ids g) \<and> g_entryNodeId g \<in> set (node_ids g) \<and>
     distinct (map e_id (g_edges g)) \<and> (\<forall>e\<in>set (g_edges g). edge_wf (set (node_ids g)) e) \<and>
     distinct (sources is_sequential (g_edges g)) \<and> distinct (sources is_fallback_arm (g_edges g)) \<and>
     distinct (decide_arms (g_edges g)) \<and>
     (\<forall>m. g_maxSteps g = Some m \<longrightarrow> (\<exists>i. integer_of m = Some i \<and> 0 < i))"

lemma validate_nodes_ids:
  "snd (validate_nodes ns seen) = rev (filter (\<lambda>i. i \<noteq> []) (map n_id ns)) @ seen"
  by (induction ns seen rule: validate_nodes.induct) (auto split: prod.splits)

lemma validate_nodes_none:
  "fst (validate_nodes ns seen) = [] \<longleftrightarrow>
     [] \<notin> set (map n_id ns) \<and> distinct (map n_id ns) \<and> set (map n_id ns) \<inter> set seen = {}"
proof (induction ns seen rule: validate_nodes.induct)
  case (1 seen)
  then show ?case by simp
next
  case (2 n ns seen)
  show ?case
  proof (cases "n_id n = []")
    case True
    then show ?thesis by (auto split: prod.splits)
  next
    case False
    then show ?thesis
      using "2.IH"(2) by (auto split: prod.splits)
  qed
qed

lemma concat_map_Nil: "concat (map f xs) = [] \<longleftrightarrow> (\<forall>x\<in>set xs. f x = [])"
  by (induction xs) auto

lemma mapping_errors_none:
  "mapping_errors e = [] \<longleftrightarrow>
     (\<forall>b\<in>set (e_inputMapping e). b_to b \<noteq> [] \<and> (b_from b \<noteq> None \<or> b_fallback b \<noteq> JUndef))"
  unfolding mapping_errors_def concat_map_Nil by (auto split: if_splits)

text \<open>
  The validation loop with any state reports nothing exactly when the rest of the edges is well formed
  and collides neither with itself nor with what the state has counted.
\<close>

definition fresh_from :: "(string \<Rightarrow> nat) \<Rightarrow> string list \<Rightarrow> bool" where
  "fresh_from count xs \<longleftrightarrow> distinct xs \<and> (\<forall>x\<in>set xs. count x = 0)"

lemma fresh_from_Cons:
  assumes "\<forall>x. count x \<le> 1"
  shows "fresh_from count (x # xs) \<longleftrightarrow> count x = 0 \<and> fresh_from (count(x := Suc (count x))) xs"
  using assms by (auto simp: fresh_from_def)

definition rest_ok :: "string list \<Rightarrow> workflow_edge list \<Rightarrow> edge_state \<Rightarrow> bool" where
  "rest_ok nodeIds es s \<longleftrightarrow>
     (\<forall>e\<in>set es. edge_wf (set nodeIds) e) \<and>
     distinct (map e_id es) \<and> set (map e_id es) \<inter> set (es_edgeIds s) = {} \<and>
     fresh_from (es_sequential s) (sources is_sequential es) \<and>
     fresh_from (es_fallbacks s) (sources is_fallback_arm es) \<and>
     distinct (decide_arms es) \<and> (\<forall>(f, c)\<in>set (decide_arms es). c \<notin> set (es_choices s f))"

definition counts_ok :: "edge_state \<Rightarrow> bool" where
  "counts_ok s \<longleftrightarrow> (\<forall>x. es_sequential s x \<le> 1) \<and> (\<forall>x. es_fallbacks s x \<le> 1)"

lemma sources_Cons:
  "sources kind (e # es) = (if kind (e_kind e) then [e_from e] else []) @ sources kind es"
  by (simp add: sources_def)

lemma decide_arms_Cons:
  "decide_arms (e # es) =
     (if is_decide (e_kind e) then [(e_from e, decide_choice (e_kind e))] else []) @ decide_arms es"
  by (simp add: decide_arms_def)

text \<open>One edge: its kind checks are silent exactly when it is well formed and collides with nothing the
  state has counted, and then the new state counts it.\<close>

lemma kind_errors_step:
  assumes "kind_errors e s = (errs, s')" "counts_ok s" "\<not> is_unknown_kind (e_kind e)"
  shows "errs = [] \<longleftrightarrow>
     (case e_kind e of
        Sequential \<Rightarrow> es_sequential s (e_from e) = 0
      | Conditional c \<Rightarrow> w_path c \<noteq> [] \<and> w_operator c \<in> set WORKFLOW_CONDITION_OPERATORS
      | LlmDecide c f \<Rightarrow> c \<noteq> [] \<and> c \<notin> set (es_choices s (e_from e)) \<and> (f \<longrightarrow> es_fallbacks s (e_from e) = 0)
      | _ \<Rightarrow> True)" (is ?silent)
    and "errs = [] \<Longrightarrow> counts_ok s' \<and> es_edgeIds s' = es_edgeIds s \<and>
     es_sequential s' = (if is_sequential (e_kind e) then (es_sequential s)(e_from e := Suc (es_sequential s (e_from e)))
        else es_sequential s) \<and>
     es_fallbacks s' = (if is_fallback_arm (e_kind e) then (es_fallbacks s)(e_from e := Suc (es_fallbacks s (e_from e)))
        else es_fallbacks s) \<and>
     es_choices s' = (if is_decide (e_kind e)
        then (es_choices s)(e_from e := decide_choice (e_kind e) # es_choices s (e_from e)) else es_choices s)"
proof -
  have small: "es_sequential s (e_from e) = 0 \<or> es_sequential s (e_from e) = 1"
      "es_fallbacks s (e_from e) = 0 \<or> es_fallbacks s (e_from e) = 1"
    using assms(2) by (auto simp: counts_ok_def le_Suc_eq)
  show ?silent
    using assms(1,3) small
    by (cases "e_kind e") (auto simp: kind_errors_def Let_def split: if_splits)
  assume "errs = []"
  then show "counts_ok s' \<and> es_edgeIds s' = es_edgeIds s \<and>
     es_sequential s' = (if is_sequential (e_kind e) then (es_sequential s)(e_from e := Suc (es_sequential s (e_from e)))
        else es_sequential s) \<and>
     es_fallbacks s' = (if is_fallback_arm (e_kind e) then (es_fallbacks s)(e_from e := Suc (es_fallbacks s (e_from e)))
        else es_fallbacks s) \<and>
     es_choices s' = (if is_decide (e_kind e)
        then (es_choices s)(e_from e := decide_choice (e_kind e) # es_choices s (e_from e)) else es_choices s)"
    using assms small
    by (cases "e_kind e") (auto simp: kind_errors_def Let_def counts_ok_def split: if_splits)
qed

lemma validate_edges_none:
  assumes "counts_ok s"
  shows "validate_edges nodeIds es s = [] \<longleftrightarrow> rest_ok nodeIds es s"
  using assms
proof (induction es arbitrary: s)
  case Nil
  then show ?case by (simp add: rest_ok_def fresh_from_def sources_def decide_arms_def)
next
  case (Cons e es)
  define s1 where "s1 = s\<lparr>es_edgeIds := e_id e # es_edgeIds s\<rparr>"
  have ok1: "counts_ok s1" using Cons.prems by (simp add: s1_def counts_ok_def)
  have same: "es_sequential s1 = es_sequential s" "es_fallbacks s1 = es_fallbacks s" "es_choices s1 = es_choices s"
    by (simp_all add: s1_def)
  obtain errs s2 where kind: "kind_errors e s1 = (errs, s2)" by fastforce
  show ?case
  proof (cases "e_id e = [] \<or> is_unknown_kind (e_kind e)")
    case True
    then show ?thesis by (auto simp: rest_ok_def edge_wf_def Let_def)
  next
    case False
    note step = kind_errors_step [OF kind ok1]
    have out: "validate_edges nodeIds (e # es) s = [] \<longleftrightarrow>
        e_id e \<notin> set (es_edgeIds s) \<and> e_from e \<in> set nodeIds \<and> e_to e \<in> set nodeIds \<and> errs = [] \<and>
        mapping_errors e = [] \<and> validate_edges nodeIds es s2 = []"
      using False kind by (simp add: Let_def s1_def)
    show ?thesis
    proof (cases "errs = []")
      case silent: True
      have new: "counts_ok s2" "es_edgeIds s2 = e_id e # es_edgeIds s"
          "es_sequential s2 = (if is_sequential (e_kind e) then (es_sequential s)(e_from e := Suc (es_sequential s (e_from e)))
            else es_sequential s)"
          "es_fallbacks s2 = (if is_fallback_arm (e_kind e) then (es_fallbacks s)(e_from e := Suc (es_fallbacks s (e_from e)))
            else es_fallbacks s)"
          "es_choices s2 = (if is_decide (e_kind e)
            then (es_choices s)(e_from e := decide_choice (e_kind e) # es_choices s (e_from e)) else es_choices s)"
        using step(2) False silent same by (auto simp: s1_def)
      have clean: "case e_kind e of
            Sequential \<Rightarrow> es_sequential s (e_from e) = 0
          | Conditional c \<Rightarrow> w_path c \<noteq> [] \<and> w_operator c \<in> set WORKFLOW_CONDITION_OPERATORS
          | LlmDecide c f \<Rightarrow> c \<noteq> [] \<and> c \<notin> set (es_choices s (e_from e)) \<and> (f \<longrightarrow> es_fallbacks s (e_from e) = 0)
          | _ \<Rightarrow> True"
        using step(1) False silent unfolding same by blast
      have low: "\<forall>x. es_sequential s x \<le> 1" "\<forall>x. es_fallbacks s x \<le> 1"
        using Cons.prems by (simp_all add: counts_ok_def)
      have "fresh_from (es_sequential s2) (sources is_sequential es) \<longleftrightarrow>
            fresh_from (es_sequential s) (sources is_sequential (e # es))"
        using fresh_from_Cons [OF low(1)] clean by (cases "e_kind e") (auto simp: new(3) sources_Cons)
      moreover have "fresh_from (es_fallbacks s2) (sources is_fallback_arm es) \<longleftrightarrow>
            fresh_from (es_fallbacks s) (sources is_fallback_arm (e # es))"
        using fresh_from_Cons [OF low(2)] clean by (cases "e_kind e") (auto simp: new(4) sources_Cons)
      moreover have "(distinct (decide_arms es) \<and> (\<forall>(f, c)\<in>set (decide_arms es). c \<notin> set (es_choices s2 f))) \<longleftrightarrow>
          (distinct (decide_arms (e # es)) \<and> (\<forall>(f, c)\<in>set (decide_arms (e # es)). c \<notin> set (es_choices s f)))"
        using clean by (cases "e_kind e") (auto simp: new(5) decide_arms_Cons split: if_splits)
      moreover have "edge_wf (set nodeIds) e \<longleftrightarrow>
          e_from e \<in> set nodeIds \<and> e_to e \<in> set nodeIds \<and> mapping_errors e = []"
        using clean False by (cases "e_kind e") (auto simp: edge_wf_def mapping_errors_none)
      ultimately show ?thesis
        unfolding out Cons.IH [OF new(1)] rest_ok_def new(2) using silent by auto
    next
      case noisy: False
      have "\<not> rest_ok nodeIds (e # es) s"
        using step(1) noisy False same
        by (cases "e_kind e")
          (auto simp: rest_ok_def edge_wf_def sources_Cons decide_arms_Cons fresh_from_def)
      then show ?thesis using out noisy by simp
    qed
  qed
qed

lemma validate_graph_none: "validateWorkflowGraph g = [] \<longleftrightarrow> graph_wf g"
proof -
  obtain nerrs ids where run: "validate_nodes (g_nodes g) [] = (nerrs, ids)" by fastforce
  have nodes: "nerrs = [] \<longleftrightarrow> [] \<notin> set (node_ids g) \<and> distinct (node_ids g)"
    using validate_nodes_none [of "g_nodes g" "[]"] run by (simp add: node_ids_def)
  have ids: "set ids = set (node_ids g) - {[]}"
    using validate_nodes_ids [of "g_nodes g" "[]"] run by (auto simp: node_ids_def)
  have steps: "\<not> bad_max_steps (g_maxSteps g) \<longleftrightarrow>
      (\<forall>m. g_maxSteps g = Some m \<longrightarrow> (\<exists>i. integer_of m = Some i \<and> 0 < i))"
    by (auto simp: bad_max_steps_def split: option.splits)
  have state: "counts_ok edge_state0" by (simp add: counts_ok_def edge_state0_def)
  have edges: "validate_edges ids (g_edges g) edge_state0 = [] \<longleftrightarrow>
      (\<forall>e\<in>set (g_edges g). edge_wf (set ids) e) \<and> distinct (map e_id (g_edges g)) \<and>
      distinct (sources is_sequential (g_edges g)) \<and> distinct (sources is_fallback_arm (g_edges g)) \<and>
      distinct (decide_arms (g_edges g))"
    unfolding validate_edges_none [OF state] rest_ok_def by (auto simp: edge_state0_def fresh_from_def)
  have split: "validateWorkflowGraph g = [] \<longleftrightarrow> nerrs = [] \<and> g_entryNodeId g \<noteq> [] \<and>
      g_entryNodeId g \<in> set ids \<and> validate_edges ids (g_edges g) edge_state0 = [] \<and>
      \<not> bad_max_steps (g_maxSteps g)"
    by (simp add: validateWorkflowGraph_def run)
  show ?thesis
  proof (cases "nerrs = []")
    case True
    then have "set ids = set (node_ids g)" using nodes ids by auto
    then show ?thesis
      unfolding split edges steps graph_wf_def using nodes True by auto
  next
    case False
    then show ?thesis unfolding split graph_wf_def using nodes by blast
  qed
qed

end
