(* ===== verification/Workflow_Exec.thy ===== *)
theory Workflow_Exec
  imports Workflow_Graph
begin

text \<open>
  The executor of \<open>packages/agent/src/agents/workflow-graph-executor.service.ts\<close>. The node runner and
  the decider are the ports of \<open>workflow-graph.ports.ts\<close>: parameters over a host state \<open>'h\<close> that the
  run threads through. The loop is structural in the number of steps still allowed.
\<close>

section \<open>Results and ports\<close>

datatype run_status = Completed | Failed | Blocked

datatype run_failure = GraphInvalid | NodeNotFound | NodeFailed | NoNodeRunner | InputMappingUnresolved
  | LlmDecideUnavailable | LlmDecideUnknownChoice | MaxStepsExceeded

record node_result =
  nr_ok :: bool
  nr_output :: json
  nr_failureCode :: "string option"
  nr_error :: "string option"

text \<open>A runner returns or throws a message.\<close>

datatype runner_outcome = Ran node_result | Threw string

record node_trace =
  t_nodeId :: string
  t_via :: "string option"
  t_ok :: bool
  t_failureCode :: "string option"
  t_error :: "string option"

record decision_trace =
  d_nodeId :: string
  d_choice :: string
  d_rationale :: "string option"
  d_degraded :: bool

datatype run_error =
    RunnerUnbound
  | StepsExceeded nat
  | NodeMissing string
  | FailureUncaught string "string option"
  | InputsMissing string "string list"
  | DeciderUnavailable string
  | UnknownChoice string string

record run_context =
  rc_graphId :: string
  rc_runId :: string
  rc_via :: "string option"
  rc_stepIndex :: nat
  rc_context :: json

record decision_request =
  dr_graphId :: string
  dr_runId :: string
  dr_nodeId :: string
  dr_nodeOutput :: json
  dr_choices :: "(string \<times> string) list"
  dr_context :: json

type_synonym 'h runner = "'h \<Rightarrow> workflow_node \<Rightarrow> (string \<times> json) list \<Rightarrow> run_context \<Rightarrow> runner_outcome \<times> 'h"

text \<open>A decider answers a choice and an optional rationale, or throws.\<close>

type_synonym 'h decider = "'h \<Rightarrow> decision_request \<Rightarrow> (string \<times> string option) option \<times> 'h"

record run_state =
  s_visited :: "string list"
  s_traversed :: "string list"
  s_nodes :: "node_trace list"
  s_decisions :: "decision_trace list"
  s_scopeNodes :: "(string \<times> json) list"
  s_last :: json

record run_result =
  r_status :: run_status
  r_failureCode :: "run_failure option"
  r_failedNodeId :: "string option"
  r_errors :: "run_error list"
  r_graphErrors :: "graph_error list"
  r_output :: json
  r_state :: run_state

record run_options =
  o_runId :: string
  o_input :: "(string \<times> json) list"
  o_context :: json

section \<open>The scope\<close>

definition truthy_code :: "string option \<Rightarrow> string option" where
  "truthy_code c = (case c of None \<Rightarrow> None | Some s \<Rightarrow> if s = [] then None else Some s)"

definition code_prop :: "string option \<Rightarrow> (string \<times> json) list" where
  "code_prop c = (case truthy_code c of None \<Rightarrow> [] | Some s \<Rightarrow> [(''failureCode'', JStr s)])"

definition node_state :: "node_result \<Rightarrow> (string \<times> json) list" where
  "node_state r = [(''output'', nr_output r), (''ok'', JBool (nr_ok r))] @ code_prop (nr_failureCode r)"

definition scope_json :: "run_options \<Rightarrow> run_state \<Rightarrow> json" where
  "scope_json opts s = JObj [(''input'', JObj (o_input opts)), (''context'', o_context opts),
     (''nodes'', JObj (s_scopeNodes s)), (''last'', s_last s)]"

definition last_ok :: "run_state \<Rightarrow> bool" where
  "last_ok s = truthy (own_prop (s_last s) ''ok'')"

definition finish ::
  "run_state \<Rightarrow> run_status \<Rightarrow> run_failure option \<Rightarrow> string option \<Rightarrow> run_error list \<Rightarrow> run_result" where
  "finish s st code node errs = \<lparr>r_status = st, r_failureCode = code, r_failedNodeId = truthy_code node,
     r_errors = errs, r_graphErrors = [],
     r_output = (if last_ok s then own_prop (s_last s) ''output'' else JUndef), r_state = s\<rparr>"

section \<open>One step\<close>

definition runNode ::
  "'h runner \<Rightarrow> 'h \<Rightarrow> workflow_node \<Rightarrow> (string \<times> json) list \<Rightarrow> run_context \<Rightarrow> node_result \<times> 'h" where
  "runNode runner h node inputs ctx =
     (case runner h node inputs ctx of
        (Ran r, h') \<Rightarrow> (r, h')
      | (Threw msg, h') \<Rightarrow>
          (\<lparr>nr_ok = False, nr_output = JUndef, nr_failureCode = Some ''node-threw'', nr_error = Some msg\<rparr>, h'))"

definition record_node :: "workflow_node \<Rightarrow> string option \<Rightarrow> node_result \<Rightarrow> run_state \<Rightarrow> run_state" where
  "record_node node via r s =
     s\<lparr>s_visited := s_visited s @ [n_id node],
       s_nodes := s_nodes s @ [\<lparr>t_nodeId = n_id node, t_via = via, t_ok = nr_ok r,
          t_failureCode = truthy_code (nr_failureCode r), t_error = truthy_code (nr_error r)\<rparr>],
       s_scopeNodes := js_set (s_scopeNodes s) (n_id node) (JObj (node_state r)),
       s_last := JObj ((''nodeId'', JStr (n_id node)) # node_state r)\<rparr>"

datatype selection =
    TakeEdge workflow_edge
  | Stop run_status "run_failure option" "run_error list"

fun is_on_failure :: "edge_kind \<Rightarrow> bool" where
  "is_on_failure (OnFailure _) = True" | "is_on_failure _ = False"

fun is_conditional :: "edge_kind \<Rightarrow> bool" where
  "is_conditional (Conditional _) = True" | "is_conditional _ = False"

fun edge_catches :: "edge_kind \<Rightarrow> string option \<Rightarrow> bool" where
  "edge_catches (OnFailure codes) c = onFailureEdgeCatches codes c"
| "edge_catches _ c = False"

fun edge_holds :: "edge_kind \<Rightarrow> json \<Rightarrow> bool" where
  "edge_holds (Conditional c) scope = evaluateWorkflowCondition c scope"
| "edge_holds _ scope = False"

text \<open>\<open>scope.last?.failureCode\<close>\<close>

definition last_failure_code :: "run_state \<Rightarrow> string option" where
  "last_failure_code s = (case own_prop (s_last s) ''failureCode'' of JStr c \<Rightarrow> Some c | _ \<Rightarrow> None)"

definition degrade :: "workflow_node \<Rightarrow> workflow_edge option \<Rightarrow> decision_trace list \<Rightarrow> selection \<times> decision_trace list" where
  "degrade node fallback ds = (case fallback of
     None \<Rightarrow> (Stop Blocked (Some LlmDecideUnavailable) [DeciderUnavailable (n_id node)], ds)
   | Some e \<Rightarrow> (TakeEdge e, ds @ [\<lparr>d_nodeId = n_id node, d_choice = decide_choice (e_kind e),
        d_rationale = None, d_degraded = True\<rparr>]))"

definition decideNextEdge ::
  "'h decider option \<Rightarrow> workflow_graph \<Rightarrow> run_options \<Rightarrow> workflow_node \<Rightarrow> workflow_edge list \<Rightarrow> run_state \<Rightarrow> 'h
     \<Rightarrow> selection \<times> decision_trace list \<times> 'h" where
  "decideNextEdge decider g opts node arms s h =
     (let fallback = List.find (\<lambda>e. is_fallback_arm (e_kind e)) arms; ds = s_decisions s in
      case decider of
        None \<Rightarrow> (case degrade node fallback ds of (sel, ds') \<Rightarrow> (sel, ds', h))
      | Some decide \<Rightarrow>
         (case decide h \<lparr>dr_graphId = g_id g, dr_runId = o_runId opts, dr_nodeId = n_id node,
                 dr_nodeOutput = own_prop (s_last s) ''output'',
                 dr_choices = map (\<lambda>e. (decide_choice (e_kind e), e_to e)) arms,
                 dr_context = o_context opts\<rparr> of
            (None, h') \<Rightarrow> (case degrade node fallback ds of (sel, ds') \<Rightarrow> (sel, ds', h'))
          | (Some (choice, rationale), h') \<Rightarrow>
             (case List.find (\<lambda>e. decide_choice (e_kind e) = choice) arms of
                None \<Rightarrow>
                  (if fallback \<noteq> None
                   then (case degrade node fallback ds of (sel, ds') \<Rightarrow> (sel, ds', h'))
                   else (Stop Failed (Some LlmDecideUnknownChoice) [UnknownChoice (n_id node) choice], ds, h'))
              | Some chosen \<Rightarrow>
                  (TakeEdge chosen,
                   ds @ [\<lparr>d_nodeId = n_id node, d_choice = decide_choice (e_kind chosen),
                          d_rationale = truthy_code rationale, d_degraded = False\<rparr>], h'))))"

definition selectNextEdge ::
  "'h decider option \<Rightarrow> workflow_graph \<Rightarrow> run_options \<Rightarrow> workflow_node \<Rightarrow> bool \<Rightarrow> run_state \<Rightarrow> 'h
     \<Rightarrow> selection \<times> decision_trace list \<times> 'h" where
  "selectNextEdge decider g opts node ok s h =
     (if \<not> ok
      then (case List.find (\<lambda>e. edge_catches (e_kind e) (last_failure_code s))
                   (outgoingWorkflowEdges g (n_id node) is_on_failure) of
              Some e \<Rightarrow> (TakeEdge e, s_decisions s, h)
            | None \<Rightarrow> (Stop Failed (Some NodeFailed) [FailureUncaught (n_id node) (last_failure_code s)],
                       s_decisions s, h))
      else (case List.find (\<lambda>e. edge_holds (e_kind e) (scope_json opts s))
                   (outgoingWorkflowEdges g (n_id node) is_conditional) of
              Some e \<Rightarrow> (TakeEdge e, s_decisions s, h)
            | None \<Rightarrow>
               (let arms = outgoingWorkflowEdges g (n_id node) is_decide in
                if arms \<noteq> [] then decideNextEdge decider g opts node arms s h
                else (case outgoingWorkflowEdges g (n_id node) is_sequential of
                        e # _ \<Rightarrow> (TakeEdge e, s_decisions s, h)
                      | [] \<Rightarrow> (Stop Completed None [], s_decisions s, h)))))"

definition next_inputs ::
  "workflow_edge \<Rightarrow> (string \<times> json) list \<Rightarrow> node_result \<Rightarrow> (string \<times> json) list" where
  "next_inputs e mapped r = (if e_inputMapping e \<noteq> [] then mapped else [(''input'', nr_output r)])"

section \<open>The run\<close>

text \<open>\<open>byId\<close>: a later node with the same id replaces an earlier one.\<close>

definition node_by_id :: "workflow_graph \<Rightarrow> string \<Rightarrow> workflow_node option" where
  "node_by_id g i = List.find (\<lambda>n. n_id n = i) (rev (g_nodes g))"

definition max_steps :: "workflow_graph \<Rightarrow> nat" where
  "max_steps g = min
     (case g_maxSteps g of None \<Rightarrow> WORKFLOW_DEFAULT_MAX_STEPS
      | Some (Fin q) \<Rightarrow> if q > 0 then nat \<lceil>q\<rceil> else WORKFLOW_DEFAULT_MAX_STEPS
      | Some PosInf \<Rightarrow> WORKFLOW_MAX_STEPS_CEILING
      | Some _ \<Rightarrow> WORKFLOW_DEFAULT_MAX_STEPS)
     WORKFLOW_MAX_STEPS_CEILING"

text \<open>The loop: \<open>left\<close> is \<open>maxSteps - stepIndex\<close>.\<close>

fun walk_graph ::
  "'h runner \<Rightarrow> 'h decider option \<Rightarrow> workflow_graph \<Rightarrow> run_options \<Rightarrow> nat \<Rightarrow> string \<Rightarrow> string option
     \<Rightarrow> (string \<times> json) list \<Rightarrow> run_state \<Rightarrow> 'h \<Rightarrow> run_result \<times> 'h" where
  "walk_graph runner decider g opts 0 current via inputs s h =
     (finish s Failed (Some MaxStepsExceeded) (Some current) [StepsExceeded (max_steps g)], h)"
| "walk_graph runner decider g opts (Suc left) current via inputs s h =
     (case node_by_id g current of
        None \<Rightarrow> (finish s Failed (Some NodeNotFound) (Some current) [NodeMissing current], h)
      | Some node \<Rightarrow>
         (case runNode runner h node inputs
                 \<lparr>rc_graphId = g_id g, rc_runId = o_runId opts, rc_via = via,
                  rc_stepIndex = max_steps g - Suc left, rc_context = o_context opts\<rparr> of
            (r, h1) \<Rightarrow>
             (let s1 = record_node node via r s in
              case selectNextEdge decider g opts node (nr_ok r) s1 h1 of
                (Stop st None errs, ds, h2) \<Rightarrow> (finish (s1\<lparr>s_decisions := ds\<rparr>) st None None [], h2)
              | (Stop st (Some code) errs, ds, h2) \<Rightarrow>
                  (finish (s1\<lparr>s_decisions := ds\<rparr>) st (Some code) (Some (n_id node)) errs, h2)
              | (TakeEdge e, ds, h2) \<Rightarrow>
                 (let s2 = s1\<lparr>s_decisions := ds\<rparr> in
                  case applyWorkflowInputMapping (e_inputMapping e) (scope_json opts s2) of
                    Inl missing \<Rightarrow>
                      (finish s2 Failed (Some InputMappingUnresolved) (Some (n_id node))
                         [InputsMissing (e_id e) missing], h2)
                  | Inr mapped \<Rightarrow>
                      walk_graph runner decider g opts left (e_to e) (Some (e_id e)) (next_inputs e mapped r)
                        (s2\<lparr>s_traversed := s_traversed s2 @ [e_id e]\<rparr>) h2))))"

definition run_state0 :: run_state where
  "run_state0 = \<lparr>s_visited = [], s_traversed = [], s_nodes = [], s_decisions = [], s_scopeNodes = [],
     s_last = JNull\<rparr>"

definition execute ::
  "'h runner option \<Rightarrow> 'h decider option \<Rightarrow> workflow_graph \<Rightarrow> run_options \<Rightarrow> 'h \<Rightarrow> run_result \<times> 'h" where
  "execute runner decider g opts h =
     (if validateWorkflowGraph g \<noteq> []
      then ((finish run_state0 Failed (Some GraphInvalid) None [])\<lparr>r_graphErrors := validateWorkflowGraph g\<rparr>, h)
      else (case runner of
          None \<Rightarrow> (finish run_state0 Blocked (Some NoNodeRunner) None [RunnerUnbound], h)
        | Some run \<Rightarrow>
            walk_graph run decider g opts (max_steps g) (g_entryNodeId g) None (o_input opts) run_state0 h))"

end
