(* ===== verification/Workflow_Claims.thy ===== *)
theory Workflow_Claims
  imports Workflow_Exec
begin

text \<open>
  The properties of the workflow graph: the validator decides well-formedness, a run is a path of the
  graph within its step bound, a completed run really ended, and the edge selection and the input
  mapping do what the model promises.
\<close>

section \<open>Selection\<close>

lemma outgoing_mem:
  "e \<in> set (outgoingWorkflowEdges g i kind) \<longleftrightarrow> e \<in> set (g_edges g) \<and> e_from e = i \<and> kind (e_kind e)"
  by (auto simp: outgoingWorkflowEdges_def)

lemma degrade_cases:
  "degrade node fb ds = (sel, ds') \<Longrightarrow>
     (\<exists>e. fb = Some e \<and> sel = TakeEdge e) \<or> (fb = None \<and> (\<exists>errs. sel = Stop Blocked (Some LlmDecideUnavailable) errs))"
  by (auto simp: degrade_def split: option.splits)

lemma decide_cases:
  assumes "decideNextEdge decider g opts node arms s h = (sel, ds, h')"
  shows "(\<exists>e. e \<in> set arms \<and> sel = TakeEdge e) \<or>
    (\<exists>st code errs. sel = Stop st (Some code) errs \<and>
       (st = Blocked \<and> code = LlmDecideUnavailable \<or> st = Failed \<and> code = LlmDecideUnknownChoice))"
proof -
  define fb where "fb = List.find (\<lambda>e. is_fallback_arm (e_kind e)) arms"
  have fb: "fb = Some e \<Longrightarrow> e \<in> set arms" for e
    unfolding fb_def by (auto dest: find_SomeD)
  have deg: "(\<exists>e. e \<in> set arms \<and> sl = TakeEdge e) \<or> (\<exists>errs. sl = Stop Blocked (Some LlmDecideUnavailable) errs)"
    if "degrade node fb ds0 = (sl, ds1)" for sl ds0 ds1
    using degrade_cases [OF that] fb by blast
  show ?thesis
  proof (cases decider)
    case None
    then have "degrade node fb (s_decisions s) = (sel, ds)"
      using assms by (auto simp: decideNextEdge_def fb_def Let_def split: prod.splits)
    from deg [OF this] show ?thesis by blast
  next
    case (Some decide)
    define req where "req = \<lparr>dr_graphId = g_id g, dr_runId = o_runId opts, dr_nodeId = n_id node,
                 dr_nodeOutput = own_prop (s_last s) ''output'',
                 dr_choices = map (\<lambda>e. (decide_choice (e_kind e), e_to e)) arms,
                 dr_context = o_context opts\<rparr>"
    obtain ans h1 where ans: "decide h req = (ans, h1)" by fastforce
    show ?thesis
    proof (cases ans)
      case None
      then have "degrade node fb (s_decisions s) = (sel, ds)"
        using assms Some ans by (auto simp: decideNextEdge_def fb_def Let_def req_def split: prod.splits)
      from deg [OF this] show ?thesis by blast
    next
      case outer: (Some pr)
      obtain choice rationale where pr: "pr = (choice, rationale)" by fastforce
      show ?thesis
      proof (cases "List.find (\<lambda>e. decide_choice (e_kind e) = choice) arms")
        case (Some chosen)
        then have "sel = TakeEdge chosen" "chosen \<in> set arms"
          using assms \<open>decider = Some decide\<close> ans outer pr
          by (auto simp: decideNextEdge_def Let_def req_def dest: find_SomeD)
        then show ?thesis by blast
      next
        case missing: None
        show ?thesis
        proof (cases fb)
          case None
          then show ?thesis
            using assms \<open>decider = Some decide\<close> ans outer pr missing
            by (auto simp: decideNextEdge_def Let_def req_def fb_def)
        next
          case (Some e)
          then have "degrade node fb (s_decisions s) = (sel, ds)"
            using assms \<open>decider = Some decide\<close> ans outer pr missing
            by (auto simp: decideNextEdge_def Let_def req_def fb_def split: prod.splits)
          from deg [OF this] show ?thesis by blast
        qed
      qed
    qed
  qed
qed

text \<open>What each answer of the selection means.\<close>

lemma select_take:
  assumes "selectNextEdge decider g opts node ok s h = (TakeEdge e, ds, h')"
  shows "e \<in> set (g_edges g) \<and> e_from e = n_id node \<and> (is_on_failure (e_kind e) \<longleftrightarrow> \<not> ok) \<and>
    (\<not> ok \<longrightarrow> edge_catches (e_kind e) (last_failure_code s))"
proof (cases ok)
  case False
  then have "List.find (\<lambda>e. edge_catches (e_kind e) (last_failure_code s))
        (outgoingWorkflowEdges g (n_id node) is_on_failure) = Some e"
    using assms by (auto simp: selectNextEdge_def split: option.splits)
  then show ?thesis using False by (auto dest!: find_SomeD simp: outgoing_mem)
next
  case True
  show ?thesis
  proof (cases "List.find (\<lambda>e. edge_holds (e_kind e) (scope_json opts s))
      (outgoingWorkflowEdges g (n_id node) is_conditional)")
    case (Some c)
    then have "e = c" using assms True by (simp add: selectNextEdge_def)
    with Some show ?thesis
      using True by (cases "e_kind e") (auto dest!: find_SomeD simp: outgoing_mem)
  next
    case none: None
    show ?thesis
    proof (cases "outgoingWorkflowEdges g (n_id node) is_decide = []")
      case False
      then have "decideNextEdge decider g opts node (outgoingWorkflowEdges g (n_id node) is_decide) s h
          = (TakeEdge e, ds, h')"
        using assms True none by (simp add: selectNextEdge_def)
      from decide_cases [OF this] have "e \<in> set (outgoingWorkflowEdges g (n_id node) is_decide)"
        by simp
      then show ?thesis using True by (cases "e_kind e") (auto simp: outgoing_mem)
    next
      case none2: True
      then have "e \<in> set (outgoingWorkflowEdges g (n_id node) is_sequential)"
        using assms True none
        by (cases "outgoingWorkflowEdges g (n_id node) is_sequential") (simp_all add: selectNextEdge_def)
      then show ?thesis using True by (cases "e_kind e") (auto simp: outgoing_mem)
    qed
  qed
qed

definition nothing_left :: "workflow_graph \<Rightarrow> json \<Rightarrow> string \<Rightarrow> bool" where
  "nothing_left g scope i \<longleftrightarrow>
     (\<forall>e\<in>set (g_edges g). e_from e = i \<longrightarrow>
        \<not> edge_holds (e_kind e) scope \<and> \<not> is_decide (e_kind e) \<and> \<not> is_sequential (e_kind e))"

lemma holds_conditional: "edge_holds k scope \<Longrightarrow> is_conditional k"
  by (cases k) auto

lemma select_stop:
  assumes "selectNextEdge decider g opts node ok s h = (Stop st code errs, ds, h')"
  shows "(ok \<and> st = Completed \<and> code = None \<and> nothing_left g (scope_json opts s) (n_id node)) \<or>
    (\<not> ok \<and> st = Failed \<and> code = Some NodeFailed \<and>
       (\<forall>e\<in>set (g_edges g). e_from e = n_id node \<longrightarrow> \<not> edge_catches (e_kind e) (last_failure_code s))) \<or>
    (ok \<and> (st = Blocked \<and> code = Some LlmDecideUnavailable \<or> st = Failed \<and> code = Some LlmDecideUnknownChoice))"
proof (cases ok)
  case False
  have catches: "edge_catches k c \<Longrightarrow> is_on_failure k" for k c by (cases k) auto
  show ?thesis
  proof (cases "List.find (\<lambda>e. edge_catches (e_kind e) (last_failure_code s))
        (outgoingWorkflowEdges g (n_id node) is_on_failure)")
    case (Some e)
    then show ?thesis using assms False by (simp add: selectNextEdge_def)
  next
    case None
    then have "\<forall>e\<in>set (g_edges g). e_from e = n_id node \<longrightarrow> \<not> edge_catches (e_kind e) (last_failure_code s)"
      using catches by (auto simp: find_None_iff outgoing_mem)
    then show ?thesis using assms False None by (simp add: selectNextEdge_def)
  qed
next
  case True
  show ?thesis
  proof (cases "List.find (\<lambda>e. edge_holds (e_kind e) (scope_json opts s))
      (outgoingWorkflowEdges g (n_id node) is_conditional)")
    case (Some c)
    then show ?thesis using assms True by (simp add: selectNextEdge_def)
  next
    case none: None
    show ?thesis
    proof (cases "outgoingWorkflowEdges g (n_id node) is_decide = []")
      case False
      then have "decideNextEdge decider g opts node (outgoingWorkflowEdges g (n_id node) is_decide) s h
          = (Stop st code errs, ds, h')"
        using assms True none by (simp add: selectNextEdge_def)
      from decide_cases [OF this] True show ?thesis by auto
    next
      case none2: True
      have none3: "outgoingWorkflowEdges g (n_id node) is_sequential = []"
        using assms True none none2
        by (cases "outgoingWorkflowEdges g (n_id node) is_sequential") (simp_all add: selectNextEdge_def)
      have "\<not> edge_holds (e_kind e) (scope_json opts s) \<and> \<not> is_decide (e_kind e) \<and> \<not> is_sequential (e_kind e)"
        if "e \<in> set (g_edges g)" "e_from e = n_id node" for e
      proof -
        have "e \<notin> set (outgoingWorkflowEdges g (n_id node) is_decide)"
          "e \<notin> set (outgoingWorkflowEdges g (n_id node) is_sequential)"
          using none2 none3 by simp_all
        moreover have "is_conditional (e_kind e) \<longrightarrow> \<not> edge_holds (e_kind e) (scope_json opts s)"
          using none that by (auto simp: find_None_iff outgoing_mem)
        ultimately show ?thesis using that holds_conditional by (auto simp: outgoing_mem)
      qed
      then have "nothing_left g (scope_json opts s) (n_id node)" by (simp add: nothing_left_def)
      moreover have "st = Completed" "code = None"
        using assms True none none2 none3 by (simp_all add: selectNextEdge_def)
      ultimately show ?thesis using True by simp
    qed
  qed
qed

section \<open>The run as a path\<close>

text \<open>The \<open>i\<close>-th hop: an edge of the graph between consecutive nodes, on_failure exactly after a failure.\<close>

definition hop_ok :: "workflow_graph \<Rightarrow> string list \<Rightarrow> node_trace list \<Rightarrow> nat \<Rightarrow> string \<Rightarrow> bool" where
  "hop_ok g path ts i eid \<longleftrightarrow>
     (\<exists>e\<in>set (g_edges g). e_id e = eid \<and> e_from e = path ! i \<and>
        (Suc i < length path \<longrightarrow> e_to e = path ! Suc i) \<and>
        (is_on_failure (e_kind e) \<longleftrightarrow> \<not> t_ok (ts ! i)))"

definition path_ok :: "workflow_graph \<Rightarrow> string list \<Rightarrow> run_state \<Rightarrow> bool" where
  "path_ok g path s \<longleftrightarrow>
     map t_nodeId (s_nodes s) = s_visited s \<and>
     set (s_visited s) \<subseteq> set (node_ids g) \<and>
     (path \<noteq> [] \<longrightarrow> hd path = g_entryNodeId g) \<and>
     (\<forall>i<length (s_traversed s). hop_ok g path (s_nodes s) i (s_traversed s ! i))"

text \<open>The state between two steps, about to run \<open>current\<close>.\<close>

definition between_ok :: "workflow_graph \<Rightarrow> string \<Rightarrow> run_state \<Rightarrow> bool" where
  "between_ok g current s \<longleftrightarrow>
     path_ok g (s_visited s @ [current]) s \<and> length (s_traversed s) = length (s_visited s)"

text \<open>What holds of the state a run ends in.\<close>

definition ended_ok :: "workflow_graph \<Rightarrow> run_options \<Rightarrow> run_result \<Rightarrow> bool" where
  "ended_ok g opts res \<longleftrightarrow>
     path_ok g (s_visited (r_state res)) (r_state res) \<and>
     length (s_traversed (r_state res)) \<le> length (s_visited (r_state res)) \<and>
     (r_status res = Completed \<longrightarrow> r_failureCode res = None \<and> s_visited (r_state res) \<noteq> [] \<and>
        t_ok (last (s_nodes (r_state res))) \<and>
        nothing_left g (scope_json opts (r_state res)) (last (s_visited (r_state res)))) \<and>
     (r_failureCode res = Some NodeFailed \<longrightarrow> s_nodes (r_state res) \<noteq> [] \<and> \<not> t_ok (last (s_nodes (r_state res))))"

lemma record_node_simps [simp]:
  "s_visited (record_node n via r s) = s_visited s @ [n_id n]"
  "s_traversed (record_node n via r s) = s_traversed s"
  "s_decisions (record_node n via r s) = s_decisions s"
  "map t_nodeId (s_nodes (record_node n via r s)) = map t_nodeId (s_nodes s) @ [n_id n]"
  "length (s_nodes (record_node n via r s)) = Suc (length (s_nodes s))"
  "t_ok (last (s_nodes (record_node n via r s))) = nr_ok r"
  "s_nodes (record_node n via r s) \<noteq> []"
  by (simp_all add: record_node_def)

lemma record_node_nth:
  "i < length (s_nodes s) \<Longrightarrow> s_nodes (record_node n via r s) ! i = s_nodes s ! i"
  by (simp add: record_node_def nth_append)

lemma scope_decisions [simp]: "scope_json opts (s\<lparr>s_decisions := ds\<rparr>) = scope_json opts s"
  by (simp add: scope_json_def)

lemma node_by_id_Some:
  "node_by_id g i = Some n \<Longrightarrow> n_id n = i \<and> i \<in> set (node_ids g)"
  by (auto simp: node_by_id_def node_ids_def dest!: find_SomeD)

lemma between_lengths:
  "between_ok g current s \<Longrightarrow> length (s_nodes s) = length (s_visited s) \<and> length (s_traversed s) = length (s_visited s)"
  unfolding between_ok_def path_ok_def by (metis length_map)

text \<open>Running a node keeps the path; taking an edge extends it.\<close>

lemma ran_path:
  assumes "between_ok g current s" "node_by_id g current = Some n"
  shows "path_ok g (s_visited s @ [current]) (record_node n via r s)"
proof -
  have n: "n_id n = current" "current \<in> set (node_ids g)" using node_by_id_Some assms(2) by blast+
  have "hop_ok g (s_visited s @ [current]) (s_nodes (record_node n via r s)) i (s_traversed s ! i)"
    if "i < length (s_traversed s)" for i
  proof -
    have "s_nodes (record_node n via r s) ! i = s_nodes s ! i"
      using that between_lengths [OF assms(1)] by (simp add: record_node_nth)
    moreover have "hop_ok g (s_visited s @ [current]) (s_nodes s) i (s_traversed s ! i)"
      using assms(1) that by (simp add: between_ok_def path_ok_def)
    ultimately show ?thesis by (simp add: hop_ok_def)
  qed
  then show ?thesis
    using assms(1) n by (auto simp: between_ok_def path_ok_def)
qed

lemma took_edge:
  assumes "between_ok g current s" "node_by_id g current = Some n"
    and e: "e \<in> set (g_edges g)" "e_from e = current" "is_on_failure (e_kind e) \<longleftrightarrow> \<not> nr_ok r"
  shows "between_ok g (e_to e) ((record_node n via r s)\<lparr>s_decisions := ds, s_traversed := s_traversed s @ [e_id e]\<rparr>)"
proof -
  let ?s1 = "record_node n via r s"
  let ?s2 = "?s1\<lparr>s_decisions := ds, s_traversed := s_traversed s @ [e_id e]\<rparr>"
  let ?path = "s_visited s @ [current, e_to e]"
  note ran = ran_path [OF assms(1,2), of via r]
  have len: "length (s_nodes s) = length (s_visited s)" "length (s_traversed s) = length (s_visited s)"
    using between_lengths [OF assms(1)] by simp_all
  have n: "n_id n = current" using node_by_id_Some assms(2) by blast
  have "hop_ok g ?path (s_nodes ?s1) i ((s_traversed s @ [e_id e]) ! i)"
    if "i < Suc (length (s_traversed s))" for i
  proof (cases "i = length (s_traversed s)")
    case True
    have "t_ok (s_nodes ?s1 ! i) = nr_ok r"
      using True len by (simp add: record_node_def nth_append)
    then show ?thesis
      using e True len by (auto simp: hop_ok_def nth_append intro!: bexI [of _ e])
  next
    case False
    then have "hop_ok g (s_visited s @ [current]) (s_nodes ?s1) i (s_traversed s ! i)" "i < length (s_traversed s)"
      using ran that by (auto simp: path_ok_def)
    then show ?thesis
      using len by (auto simp: hop_ok_def nth_append)
  qed
  then show ?thesis
    using ran len n by (auto simp: between_ok_def path_ok_def hd_append)
qed

lemma between_ended:
  assumes "between_ok g current s"
  shows "path_ok g (s_visited s) s"
proof -
  have "hop_ok g (s_visited s) (s_nodes s) i (s_traversed s ! i)" if "i < length (s_traversed s)" for i
  proof -
    have "hop_ok g (s_visited s @ [current]) (s_nodes s) i (s_traversed s ! i)"
      using assms that by (simp add: between_ok_def path_ok_def)
    moreover have "i < length (s_visited s)" using that between_lengths [OF assms] by simp
    ultimately show ?thesis by (auto simp: hop_ok_def nth_append)
  qed
  then show ?thesis
    using assms by (auto simp: between_ok_def path_ok_def hd_append)
qed

lemma finish_simps [simp]:
  "r_status (finish s st code node errs) = st"
  "r_failureCode (finish s st code node errs) = code"
  "r_state (finish s st code node errs) = s"
  "r_errors (finish s st code node errs) = errs"
  by (simp_all add: finish_def)

lemma find_by_id: "i \<in> set (node_ids g) \<Longrightarrow> \<exists>n. node_by_id g i = Some n"
  by (cases "node_by_id g i") (auto simp: node_by_id_def node_ids_def find_None_iff)

lemma path_ok_decisions [simp]:
  "path_ok g path (s\<lparr>s_decisions := ds\<rparr>) = path_ok g path s"
  by (simp add: path_ok_def)

text \<open>The whole walk, from any state between two steps of a well-formed graph.\<close>

lemma walk_ended:
  assumes "graph_wf g"
  shows "between_ok g current s \<Longrightarrow> current \<in> set (node_ids g) \<Longrightarrow>
     walk_graph runner decider g opts left current via inputs s h = (res, h') \<Longrightarrow>
     ended_ok g opts res \<and> r_failureCode res \<noteq> Some NodeNotFound \<and>
     length (s_visited (r_state res)) \<le> length (s_visited s) + left \<and>
     (r_failureCode res = Some MaxStepsExceeded \<longrightarrow> length (s_visited (r_state res)) = length (s_visited s) + left)"
proof (induction left arbitrary: current via inputs s h)
  case 0
  then have "res = finish s Failed (Some MaxStepsExceeded) (Some current) [StepsExceeded (max_steps g)]"
    by simp
  then show ?case
    using between_ended [OF 0(1)] between_lengths [OF 0(1)] by (simp add: ended_ok_def)
next
  case (Suc left)
  obtain n where n: "node_by_id g current = Some n" using find_by_id Suc.prems(2) by blast
  have id: "n_id n = current" using node_by_id_Some n by blast
  obtain r h1 where ran: "runNode runner h n inputs
      \<lparr>rc_graphId = g_id g, rc_runId = o_runId opts, rc_via = via,
       rc_stepIndex = max_steps g - Suc left, rc_context = o_context opts\<rparr> = (r, h1)"
    by fastforce
  let ?s1 = "record_node n via r s"
  obtain sel ds h2 where sel: "selectNextEdge decider g opts n (nr_ok r) ?s1 h1 = (sel, ds, h2)"
    by (metis prod_cases3)
  note path = ran_path [OF Suc.prems(1) n, of via r]
  note lens = between_lengths [OF Suc.prems(1)]
  have here: "path_ok g (s_visited ?s1) ?s1" using path id by simp
  show ?case
  proof (cases sel)
    case (Stop st code errs)
    have res: "res = finish (?s1\<lparr>s_decisions := ds\<rparr>) st code (case code of None \<Rightarrow> None | Some _ \<Rightarrow> Some (n_id n))
        (case code of None \<Rightarrow> [] | Some _ \<Rightarrow> errs)"
      using Suc.prems(3) n ran sel Stop by (cases code) (simp_all add: Let_def)
    from select_stop [OF sel [unfolded Stop]] have
      "(nr_ok r \<and> st = Completed \<and> code = None \<and> nothing_left g (scope_json opts ?s1) (n_id n)) \<or>
       (\<not> nr_ok r \<and> st = Failed \<and> code = Some NodeFailed) \<or>
       (nr_ok r \<and> (st = Blocked \<and> code = Some LlmDecideUnavailable \<or> st = Failed \<and> code = Some LlmDecideUnknownChoice))"
      by blast
    then show ?thesis
      unfolding res using here lens by (elim disjE) (auto simp: ended_ok_def)
  next
    case (TakeEdge e)
    note took = select_take [OF sel [unfolded TakeEdge]]
    have wf: "edge_wf (set (node_ids g)) e" using assms took by (simp add: graph_wf_def)
    then have to: "e_to e \<in> set (node_ids g)" by (simp add: edge_wf_def)
    show ?thesis
    proof (cases "applyWorkflowInputMapping (e_inputMapping e) (scope_json opts (?s1\<lparr>s_decisions := ds\<rparr>))")
      case (Inl missing)
      then have "res = finish (?s1\<lparr>s_decisions := ds\<rparr>) Failed (Some InputMappingUnresolved) (Some (n_id n))
          [InputsMissing (e_id e) missing]"
        using Suc.prems(3) n ran sel TakeEdge by (simp add: Let_def)
      then show ?thesis using here lens by (simp add: ended_ok_def)
    next
      case (Inr mapped)
      let ?s3 = "?s1\<lparr>s_decisions := ds, s_traversed := s_traversed s @ [e_id e]\<rparr>"
      have rest: "walk_graph runner decider g opts left (e_to e) (Some (e_id e)) (next_inputs e mapped r) ?s3 h2 = (res, h')"
        using Suc.prems(3) n ran sel TakeEdge Inr by (simp add: Let_def)
      have ok: "between_ok g (e_to e) ?s3"
        using took_edge [OF Suc.prems(1) n] took id by simp
      from Suc.IH [OF ok to rest] show ?thesis by simp
    qed
  qed
qed

lemma execute_runs:
  assumes "execute runner decider g opts h = (res, h')"
  shows "(graph_wf g \<and> (\<exists>run. runner = Some run \<and>
      walk_graph run decider g opts (max_steps g) (g_entryNodeId g) None (o_input opts) run_state0 h = (res, h'))) \<or>
    (r_state res = run_state0 \<and> r_status res \<noteq> Completed \<and>
       (r_failureCode res = Some GraphInvalid \<and> \<not> graph_wf g \<or>
        r_failureCode res = Some NoNodeRunner \<and> graph_wf g \<and> runner = None))"
  using assms unfolding execute_def validate_graph_none [symmetric]
  by (auto split: if_splits option.splits)

lemma start_between: "graph_wf g \<Longrightarrow> between_ok g (g_entryNodeId g) run_state0"
  by (simp add: between_ok_def path_ok_def run_state0_def)

lemma max_steps_bounds: "max_steps g \<le> 500"
  by (simp add: max_steps_def WORKFLOW_MAX_STEPS_CEILING_def)

section \<open>Claims\<close>

text \<open>C11. The validator decides well-formedness: it reports no error exactly when ids are present and
  unique, the entry and every edge end is a node, each node has at most one sequential edge and one
  fallback arm and no two arms with the same token, and conditions, mappings and the step bound make
  sense.\<close>

theorem validator_decides: "(validateWorkflowGraph g = []) = graph_wf g"
  by (rule validate_graph_none)

text \<open>C12. Every run, whatever the runner and the decider do, is a path of the graph: it starts at the
  entry node, visits nodes of the graph only, at most \<open>maxSteps\<close> and never more than 500 of them, and
  its edges join consecutive nodes, an \<open>on_failure\<close> edge exactly after a node that failed. It never
  stops on a node that is not in the graph.\<close>

theorem run_is_a_bounded_path:
  assumes "execute runner decider g opts h = (res, h')"
  shows "length (s_visited (r_state res)) \<le> max_steps g \<and> max_steps g \<le> 500 \<and>
    set (s_visited (r_state res)) \<subseteq> set (node_ids g) \<and>
    (s_visited (r_state res) \<noteq> [] \<longrightarrow> hd (s_visited (r_state res)) = g_entryNodeId g) \<and>
    map t_nodeId (s_nodes (r_state res)) = s_visited (r_state res) \<and>
    r_failureCode res \<noteq> Some NodeNotFound \<and>
    (\<forall>i<length (s_traversed (r_state res)). \<exists>e\<in>set (g_edges g).
       e_id e = s_traversed (r_state res) ! i \<and> e_from e = s_visited (r_state res) ! i \<and>
       (Suc i < length (s_visited (r_state res)) \<longrightarrow> e_to e = s_visited (r_state res) ! Suc i) \<and>
       (is_on_failure (e_kind e) \<longleftrightarrow> \<not> t_ok (s_nodes (r_state res) ! i)))"
  using execute_runs [OF assms]
proof (elim disjE exE conjE)
  fix run
  assume wf: "graph_wf g" and run: "walk_graph run decider g opts (max_steps g) (g_entryNodeId g) None
      (o_input opts) run_state0 h = (res, h')"
  have "g_entryNodeId g \<in> set (node_ids g)" using wf by (simp add: graph_wf_def)
  from walk_ended [OF wf start_between [OF wf] this run] show ?thesis
    using max_steps_bounds by (auto simp: ended_ok_def path_ok_def hop_ok_def run_state0_def)
qed (use max_steps_bounds in \<open>auto simp: run_state0_def\<close>)

text \<open>C13. The terminal states say the truth: a completed run visited something, its last node was green
  and no conditional edge out of it holds, no arm and no sequential edge leaves it; a run stopped by
  a node failure ends at a node that failed; and the step bound stops a run only after that many
  nodes ran.\<close>

theorem terminal_states_are_truthful:
  assumes "execute runner decider g opts h = (res, h')"
  shows "(r_status res = Completed \<longrightarrow> r_failureCode res = None \<and> s_visited (r_state res) \<noteq> [] \<and>
      t_ok (last (s_nodes (r_state res))) \<and>
      nothing_left g (scope_json opts (r_state res)) (last (s_visited (r_state res)))) \<and>
    (r_failureCode res = Some NodeFailed \<longrightarrow> s_nodes (r_state res) \<noteq> [] \<and> \<not> t_ok (last (s_nodes (r_state res)))) \<and>
    (r_failureCode res = Some MaxStepsExceeded \<longrightarrow> length (s_visited (r_state res)) = max_steps g)"
  using execute_runs [OF assms]
proof (elim disjE exE conjE)
  fix run
  assume wf: "graph_wf g" and run: "walk_graph run decider g opts (max_steps g) (g_entryNodeId g) None
      (o_input opts) run_state0 h = (res, h')"
  have "g_entryNodeId g \<in> set (node_ids g)" using wf by (simp add: graph_wf_def)
  from walk_ended [OF wf start_between [OF wf] this run] show ?thesis
    by (simp add: ended_ok_def run_state0_def)
qed auto

text \<open>A two-node graph with a retry edge, and a runner that fails once.\<close>

definition demo_graph :: workflow_graph where
  "demo_graph = \<lparr>g_id = ''g'', g_entryNodeId = ''a'',
     g_nodes = [\<lparr>n_id = ''a'', n_kind = ''step'', n_config = JNull\<rparr>, \<lparr>n_id = ''b'', n_kind = ''step'', n_config = JNull\<rparr>],
     g_edges = [\<lparr>e_id = ''retry'', e_from = ''a'', e_to = ''a'', e_kind = OnFailure None, e_inputMapping = []\<rparr>,
                \<lparr>e_id = ''go'', e_from = ''a'', e_to = ''b'', e_kind = Sequential, e_inputMapping = []\<rparr>],
     g_maxSteps = None\<rparr>"

definition demo_options :: run_options where
  "demo_options = \<lparr>o_runId = ''r'', o_input = [], o_context = JObj []\<rparr>"

definition demo_runner :: "nat runner" where
  "demo_runner h node inputs ctx =
     (if h = 0 then (Threw ''boom'', 1)
      else (Ran \<lparr>nr_ok = True, nr_output = JBool True, nr_failureCode = None, nr_error = None\<rparr>, Suc h))"

lemma demo_run:
  "(\<lambda>(res, h). (r_status res, s_visited (r_state res), s_traversed (r_state res), h))
     (execute (Some demo_runner) None demo_graph demo_options 0) =
   (Completed, [''a'', ''a'', ''b''], [''retry'', ''go''], 3)"
  by code_simp

theorem run_is_a_bounded_path_witness:
  "max_steps demo_graph \<le> 500 \<and>
   length (s_visited (r_state (fst (execute (Some demo_runner) None demo_graph demo_options 0)))) \<le> max_steps demo_graph"
  using run_is_a_bounded_path [of "Some demo_runner" None demo_graph demo_options 0] prod.exhaust_sel by blast

theorem terminal_states_are_truthful_witness:
  "t_ok (last (s_nodes (r_state (fst (execute (Some demo_runner) None demo_graph demo_options 0)))))"
proof -
  obtain res h' where run: "execute (Some demo_runner) None demo_graph demo_options 0 = (res, h')" by fastforce
  then have "r_status res = Completed" using demo_run by simp
  then show ?thesis using terminal_states_are_truthful [OF run] run by simp
qed

text \<open>The selection has a fixed precedence: after a failure, the first \<open>on_failure\<close> edge that
  catches the code; after success, the first conditional edge that holds, else one of the model's
  arms if there are any, else the sequential edge.\<close>

theorem selection_precedence:
  assumes "selectNextEdge decider g opts node ok s h = (TakeEdge e, ds, h')"
  shows "e \<in> set (g_edges g) \<and> e_from e = n_id node \<and>
    (if \<not> ok then List.find (\<lambda>x. edge_catches (e_kind x) (last_failure_code s))
                     (outgoingWorkflowEdges g (n_id node) is_on_failure) = Some e
     else case List.find (\<lambda>x. edge_holds (e_kind x) (scope_json opts s))
                  (outgoingWorkflowEdges g (n_id node) is_conditional) of
            Some c \<Rightarrow> e = c
          | None \<Rightarrow> (if outgoingWorkflowEdges g (n_id node) is_decide \<noteq> [] then is_decide (e_kind e)
                     else is_sequential (e_kind e)))"
proof -
  have "e \<in> set (g_edges g) \<and> e_from e = n_id node" using select_take [OF assms] by blast
  moreover have "is_decide (e_kind e)"
    if "ok" "List.find (\<lambda>x. edge_holds (e_kind x) (scope_json opts s))
                  (outgoingWorkflowEdges g (n_id node) is_conditional) = None"
      "outgoingWorkflowEdges g (n_id node) is_decide \<noteq> []"
  proof -
    have "decideNextEdge decider g opts node (outgoingWorkflowEdges g (n_id node) is_decide) s h
        = (TakeEdge e, ds, h')"
      using assms that by (simp add: selectNextEdge_def)
    from decide_cases [OF this] show ?thesis by (simp add: outgoing_mem)
  qed
  moreover have "is_sequential (e_kind e)"
    if "ok" "List.find (\<lambda>x. edge_holds (e_kind x) (scope_json opts s))
                  (outgoingWorkflowEdges g (n_id node) is_conditional) = None"
      "outgoingWorkflowEdges g (n_id node) is_decide = []"
  proof (cases "outgoingWorkflowEdges g (n_id node) is_sequential")
    case Nil
    then show ?thesis using assms that by (simp add: selectNextEdge_def)
  next
    case (Cons x xs)
    then have "e = x" using assms that by (simp add: selectNextEdge_def)
    then have "e \<in> set (outgoingWorkflowEdges g (n_id node) is_sequential)" using Cons by simp
    then show ?thesis by (simp add: outgoing_mem)
  qed
  moreover have "List.find (\<lambda>x. edge_catches (e_kind x) (last_failure_code s))
        (outgoingWorkflowEdges g (n_id node) is_on_failure) = Some e" if "\<not> ok"
    using assms that by (simp add: selectNextEdge_def split: option.splits)
  moreover have "e = c" if "ok" "List.find (\<lambda>x. edge_holds (e_kind x) (scope_json opts s))
                  (outgoingWorkflowEdges g (n_id node) is_conditional) = Some c" for c
    using assms that by (simp add: selectNextEdge_def)
  ultimately show ?thesis by (auto split: option.split)
qed

theorem selection_precedence_witness:
  "e_id (hd (g_edges demo_graph)) = ''retry'' \<and> hd (g_edges demo_graph) \<in> set (g_edges demo_graph)"
proof -
  have "selectNextEdge None demo_graph demo_options (hd (g_nodes demo_graph)) False run_state0 (0::nat) =
      (TakeEdge (hd (g_edges demo_graph)), [], 0)"
    by code_simp
  from selection_precedence [OF this] show ?thesis by (simp add: demo_graph_def)
qed

end
