(* ===== verification/Credit_Ledger.thy ===== *)
theory Credit_Ledger
  imports Js_Number "HOL-Library.Product_Lexorder"
begin

text \<open>
  The credit ledger of \<open>database/repositories/credit-ledger.repository.ts\<close> over the rows of
  \<open>entities/credit-ledger-entry.entity.ts\<close>. The table is the list of its rows in insertion order; a
  transaction is one step on it. The database supplies the id and the creation time of a new row: a
  parameter. \<open>rival\<close> is what other writers commit between the first reads of a transaction and its
  lock or insert. Amounts are the \<open>int\<close> columns; column lengths and 32-bit overflow are not modelled.
\<close>

section \<open>Rows\<close>

datatype ledger_kind = Purchase | Grant | DailyFree | Consumption | Adjustment | Expiry

fun kind_name :: "ledger_kind \<Rightarrow> string" where
  "kind_name Purchase = ''purchase''"
| "kind_name Grant = ''grant''"
| "kind_name DailyFree = ''daily-free''"
| "kind_name Consumption = ''consumption''"
| "kind_name Adjustment = ''adjustment''"
| "kind_name Expiry = ''expiry''"

record ledger_write =
  lw_userId :: string
  lw_organizationId :: "string option"
  lw_tenantId :: "string option"
  lw_kind :: ledger_kind
  lw_amountCredits :: int
  lw_costCentsRef :: "int option"
  lw_refType :: "string option"
  lw_refId :: "string option"
  lw_description :: "string option"
  lw_idempotencyKey :: "string option"
  lw_expiresAt :: "int option"

record ledger_entry =
  le_id :: string
  le_userId :: string
  le_organizationId :: "string option"
  le_tenantId :: "string option"
  le_kind :: ledger_kind
  le_amountCredits :: int
  le_costCentsRef :: "int option"
  le_refType :: "string option"
  le_refId :: "string option"
  le_balanceAfter :: int
  le_description :: "string option"
  le_idempotencyKey :: "string option"
  le_remainingCredits :: "int option"
  le_expiresAt :: "int option"
  le_createdAt :: int

type_synonym ledger = "ledger_entry list"

text \<open>What the database fills in: a generated id and the time of the insert.\<close>

record database =
  db_newId :: "ledger \<Rightarrow> string"
  db_clock :: int

record ref_window =
  rw_refType :: string
  rw_from :: int
  rw_to :: int
  rw_maxAmountCredits :: int

record record_options =
  ro_minBalanceAfter :: "int option"
  ro_maxBalanceAfter :: "int option"
  ro_maxRefTypeAmountInWindow :: "ref_window option"

datatype record_result =
    EntryCreated ledger_entry
  | EntryIdempotent ledger_entry
  | BalanceInsufficient int
  | GrantSkipped int

section \<open>Reads\<close>

definition findByIdempotencyKey :: "string \<Rightarrow> ledger \<Rightarrow> ledger_entry option" where
  "findByIdempotencyKey key L = List.find (\<lambda>e. le_idempotencyKey e = Some key) L"

definition sumBalance :: "string \<Rightarrow> ledger \<Rightarrow> int" where
  "sumBalance u L = sum_list (map le_amountCredits (filter (\<lambda>e. le_userId e = u) L))"

definition remaining_of :: "ledger_entry \<Rightarrow> int" where
  "remaining_of e = (case le_remainingCredits e of None \<Rightarrow> 0 | Some r \<Rightarrow> r)"

definition is_due :: "string \<Rightarrow> int \<Rightarrow> ledger_entry \<Rightarrow> bool" where
  "is_due u now e \<longleftrightarrow> le_userId e = u \<and> remaining_of e > 0 \<and>
     (case le_expiresAt e of None \<Rightarrow> False | Some t \<Rightarrow> t \<le> now)"

definition sumDueRemaining :: "string \<Rightarrow> int \<Rightarrow> ledger \<Rightarrow> int" where
  "sumDueRemaining u now L = sum_list (map remaining_of (filter (is_due u now) L))"

definition getBalance :: "string \<Rightarrow> int \<Rightarrow> ledger \<Rightarrow> int" where
  "getBalance u now L = sumBalance u L - sumDueRemaining u now L"

definition sumByRefTypeInWindow :: "string \<Rightarrow> string \<Rightarrow> int \<Rightarrow> int \<Rightarrow> ledger \<Rightarrow> int" where
  "sumByRefTypeInWindow u rt lo hi L = sum_list (map le_amountCredits (filter (\<lambda>e. le_userId e = u \<and>
     le_refType e = Some rt \<and> lo \<le> le_createdAt e \<and> le_createdAt e < hi) L))"

definition in_period :: "string \<Rightarrow> int \<Rightarrow> int \<Rightarrow> ledger_entry \<Rightarrow> bool" where
  "in_period u lo hi e \<longleftrightarrow> le_userId e = u \<and> lo \<le> le_createdAt e \<and> le_createdAt e < hi"

record period_totals =
  consumedCredits :: int
  addedCredits :: int
  expiredCredits :: int

definition getPeriodTotals :: "string \<Rightarrow> int \<Rightarrow> int \<Rightarrow> ledger \<Rightarrow> period_totals" where
  "getPeriodTotals u lo hi L = (let rows = filter (in_period u lo hi) L in
     \<lparr>consumedCredits = sum_list (map (\<lambda>e. if le_amountCredits e < 0 \<and> le_kind e \<noteq> Expiry
                                       then - le_amountCredits e else 0) rows),
      addedCredits = sum_list (map (\<lambda>e. if le_amountCredits e > 0 then le_amountCredits e else 0) rows),
      expiredCredits = sum_list (map (\<lambda>e. if le_kind e = Expiry then - le_amountCredits e else 0) rows)\<rparr>)"

text \<open>\<open>order: \{ createdAt: 'DESC' \}\<close>: the newest purchase of a payment.\<close>

definition findLatestByRef :: "string \<Rightarrow> string \<Rightarrow> ledger \<Rightarrow> ledger_entry option" where
  "findLatestByRef rt ri L = (case sort_key (\<lambda>e. - le_createdAt e)
       (filter (\<lambda>e. le_refType e = Some rt \<and> le_refId e = Some ri \<and> le_kind e = Purchase) L) of
     [] \<Rightarrow> None | e # _ \<Rightarrow> Some e)"

section \<open>Writes of one row\<close>

text \<open>\<open>repo.save\<close>: \<open>None\<close> is the violation of the unique index on the idempotency key.\<close>

definition save_entry :: "ledger_entry \<Rightarrow> ledger \<Rightarrow> ledger option" where
  "save_entry e L =
     (if le_idempotencyKey e \<noteq> None \<and> le_idempotencyKey e \<in> le_idempotencyKey ` set L then None
      else Some (L @ [e]))"

text \<open>\<open>repo.update(id, \{ remainingCredits \})\<close>\<close>

definition set_remaining :: "string \<Rightarrow> int \<Rightarrow> ledger \<Rightarrow> ledger" where
  "set_remaining i r L = map (\<lambda>e. if le_id e = i then e\<lparr>le_remainingCredits := Some r\<rparr> else e) L"

section \<open>Buckets\<close>

definition expiring_buckets :: "string \<Rightarrow> int \<Rightarrow> ledger \<Rightarrow> ledger" where
  "expiring_buckets u now L = sort_key (\<lambda>e. (the (le_expiresAt e), le_createdAt e))
     (filter (\<lambda>e. le_userId e = u \<and> remaining_of e > 0 \<and>
        (case le_expiresAt e of None \<Rightarrow> False | Some t \<Rightarrow> t > now)) L)"

definition perpetual_buckets :: "string \<Rightarrow> ledger \<Rightarrow> ledger" where
  "perpetual_buckets u L = sort_key le_createdAt
     (filter (\<lambda>e. le_userId e = u \<and> remaining_of e > 0 \<and> le_expiresAt e = None) L)"

fun allocate_loop :: "ledger_entry list \<Rightarrow> int \<Rightarrow> ledger \<Rightarrow> ledger" where
  "allocate_loop [] left L = L"
| "allocate_loop (b # bs) left L =
     (if left \<le> 0 then L
      else (let available = remaining_of b; taken = min available left in
        if taken \<le> 0 then allocate_loop bs left L
        else allocate_loop bs (left - taken) (set_remaining (le_id b) (available - taken) L)))"

definition allocateDebit :: "string \<Rightarrow> int \<Rightarrow> int \<Rightarrow> ledger \<Rightarrow> ledger" where
  "allocateDebit u credits now L = allocate_loop (expiring_buckets u now L @ perpetual_buckets u L) credits L"

definition expiry_key :: "string \<Rightarrow> string" where
  "expiry_key i = ''expiry:'' @ i"

definition expiry_entry :: "database \<Rightarrow> string \<Rightarrow> ledger_entry \<Rightarrow> ledger \<Rightarrow> ledger_entry" where
  "expiry_entry db u b L = \<lparr>le_id = db_newId db L, le_userId = u,
     le_organizationId = le_organizationId b, le_tenantId = le_tenantId b, le_kind = Expiry,
     le_amountCredits = - remaining_of b, le_costCentsRef = None,
     le_refType = Some ''credit-ledger-entry'', le_refId = Some (le_id b),
     le_balanceAfter = sumBalance u L - remaining_of b,
     le_description = Some (''Expired: '' @
       (case le_description b of None \<Rightarrow> kind_name (le_kind b) | Some d \<Rightarrow> d)),
     le_idempotencyKey = Some (expiry_key (le_id b)), le_remainingCredits = None, le_expiresAt = None,
     le_createdAt = db_clock db\<rparr>"

text \<open>The loop over the due buckets; the credits of each closed bucket are returned.\<close>

fun expire_loop :: "database \<Rightarrow> string \<Rightarrow> ledger_entry list \<Rightarrow> ledger \<Rightarrow> ((string \<times> int) list \<times> ledger) option" where
  "expire_loop db u [] L = Some ([], L)"
| "expire_loop db u (b # bs) L =
     (if remaining_of b \<le> 0 then expire_loop db u bs L
      else if findByIdempotencyKey (expiry_key (le_id b)) L \<noteq> None
        then expire_loop db u bs (set_remaining (le_id b) 0 L)
      else (case save_entry (expiry_entry db u b L) L of
          None \<Rightarrow> None
        | Some L1 \<Rightarrow> (case expire_loop db u bs (set_remaining (le_id b) 0 L1) of
            None \<Rightarrow> None
          | Some (shut, L2) \<Rightarrow> Some ((le_id b, remaining_of b) # shut, L2))))"

definition due_buckets :: "string \<Rightarrow> int \<Rightarrow> ledger \<Rightarrow> ledger" where
  "due_buckets u now L = sort_key (\<lambda>e. (the (le_expiresAt e), le_createdAt e)) (filter (is_due u now) L)"

definition expireDueBucketsInTx ::
  "database \<Rightarrow> string \<Rightarrow> int \<Rightarrow> ledger \<Rightarrow> ((string \<times> int) list \<times> ledger) option" where
  "expireDueBucketsInTx db u now L = expire_loop db u (due_buckets u now L) L"

text \<open>In a transaction of its own: a violation rolls it back and is thrown (\<open>None\<close>).\<close>

definition expireDueBuckets ::
  "database \<Rightarrow> string \<Rightarrow> int \<Rightarrow> ledger \<Rightarrow> (string \<times> int) list option \<times> ledger" where
  "expireDueBuckets db u now L = (case expireDueBucketsInTx db u now L of
     None \<Rightarrow> (None, L) | Some (shut, L') \<Rightarrow> (Some shut, L'))"

definition findUsersWithDueBuckets :: "int \<Rightarrow> nat \<Rightarrow> ledger \<Rightarrow> string list" where
  "findUsersWithDueBuckets now limit L =
     take limit (remdups (map le_userId (filter (\<lambda>e. is_due (le_userId e) now e) L)))"

section \<open>The write path\<close>

definition truthy_key :: "string option \<Rightarrow> bool" where
  "truthy_key k \<longleftrightarrow> k \<noteq> None \<and> k \<noteq> Some []"

text \<open>The two ceilings.\<close>

definition clamp :: "int \<Rightarrow> int \<Rightarrow> int" where
  "clamp headroom amount = (if amount > headroom then headroom else amount)"

definition clamped_amount :: "ledger_write \<Rightarrow> record_options \<Rightarrow> ledger \<Rightarrow> int" where
  "clamped_amount w opts L =
     (let a0 = lw_amountCredits w;
          a1 = (case ro_maxRefTypeAmountInWindow opts of
                  None \<Rightarrow> a0
                | Some rw \<Rightarrow> clamp (rw_maxAmountCredits rw -
                    sumByRefTypeInWindow (lw_userId w) (rw_refType rw) (rw_from rw) (rw_to rw) L) a0)
      in (case ro_maxBalanceAfter opts of
            None \<Rightarrow> a1
          | Some m \<Rightarrow> clamp (m - sumBalance (lw_userId w) L) a1))"

definition new_entry :: "database \<Rightarrow> ledger_write \<Rightarrow> int \<Rightarrow> ledger \<Rightarrow> ledger_entry" where
  "new_entry db w amount L = \<lparr>le_id = db_newId db L, le_userId = lw_userId w,
     le_organizationId = lw_organizationId w, le_tenantId = lw_tenantId w, le_kind = lw_kind w,
     le_amountCredits = amount, le_costCentsRef = lw_costCentsRef w, le_refType = lw_refType w,
     le_refId = lw_refId w, le_balanceAfter = sumBalance (lw_userId w) L + amount,
     le_description = lw_description w, le_idempotencyKey = lw_idempotencyKey w,
     le_remainingCredits = (if amount > 0 then Some amount else None),
     le_expiresAt = (if amount > 0 then lw_expiresAt w else None), le_createdAt = db_clock db\<rparr>"

text \<open>The part of the transaction after the idempotency read; \<open>None\<close> is a unique violation.\<close>

definition record_locked ::
  "database \<Rightarrow> int \<Rightarrow> ledger_write \<Rightarrow> record_options \<Rightarrow> ledger \<Rightarrow> (record_result \<times> ledger) option" where
  "record_locked db now w opts L0 =
     (case expireDueBucketsInTx db (lw_userId w) now L0 of
        None \<Rightarrow> None
      | Some (_, L) \<Rightarrow>
         (let balance = sumBalance (lw_userId w) L; amount = clamped_amount w opts L in
          if lw_amountCredits w > 0 \<and> amount \<le> 0 then Some (GrantSkipped balance, L)
          else if (case ro_minBalanceAfter opts of None \<Rightarrow> False | Some m \<Rightarrow> balance + amount < m)
            then Some (BalanceInsufficient balance, L)
          else (let e = new_entry db w amount L in
            case save_entry e L of
              None \<Rightarrow> None
            | Some L1 \<Rightarrow>
                Some (EntryCreated e, if amount < 0 then allocateDebit (lw_userId w) (- amount) now L1 else L1))))"

text \<open>\<open>Inl ()\<close> is the rethrown unique violation.\<close>

definition recordAtomic ::
  "database \<Rightarrow> (ledger \<Rightarrow> ledger) \<Rightarrow> int \<Rightarrow> ledger_write \<Rightarrow> record_options \<Rightarrow> ledger
     \<Rightarrow> (unit + record_result) \<times> ledger" where
  "recordAtomic db rival now w opts L =
     (let existing = (if truthy_key (lw_idempotencyKey w)
                      then findByIdempotencyKey (the (lw_idempotencyKey w)) L else None) in
      case existing of
        Some e \<Rightarrow> (Inr (EntryIdempotent e), L)
      | None \<Rightarrow>
         (case record_locked db now w opts (rival L) of
            Some (res, L') \<Rightarrow> (Inr res, L')
          | None \<Rightarrow>
             (if truthy_key (lw_idempotencyKey w)
              then (case findByIdempotencyKey (the (lw_idempotencyKey w)) (rival L) of
                      Some e \<Rightarrow> (Inr (EntryIdempotent e), rival L)
                    | None \<Rightarrow> (Inl (), rival L))
              else (Inl (), rival L))))"

section \<open>Cumulative refunds\<close>

record refund_write =
  rf_refType :: string
  rf_refId :: string
  rf_cumulativeRefundedCents :: "int option"
  rf_idempotencyKey :: string
  rf_description :: "string option"

datatype refund_result =
    RefundCreated ledger_entry int
  | RefundIdempotent ledger_entry
  | RefundCovered
  | MissingPurchase

definition js_round :: "rat \<Rightarrow> int" where
  "js_round x = \<lfloor>x + 1 / 2\<rfloor>"

definition charged_cents :: "ledger_entry \<Rightarrow> int" where
  "charged_cents p = (case le_costCentsRef p of None \<Rightarrow> 0 | Some c \<Rightarrow> c)"

definition refunded_cents :: "ledger_entry \<Rightarrow> int option \<Rightarrow> int" where
  "refunded_cents p cumulative = max 0 (case cumulative of None \<Rightarrow> charged_cents p | Some c \<Rightarrow> c)"

definition refund_share :: "ledger_entry \<Rightarrow> int option \<Rightarrow> rat" where
  "refund_share p cumulative =
     (if charged_cents p > 0
      then min 1 (of_int (refunded_cents p cumulative) / of_int (charged_cents p))
      else if cumulative = None \<or> refunded_cents p cumulative > 0 then 1 else 0)"

definition target_reversed :: "ledger_entry \<Rightarrow> int option \<Rightarrow> int" where
  "target_reversed p cumulative = min (le_amountCredits p)
     (max 0 (js_round (of_int (le_amountCredits p) * refund_share p cumulative)))"

definition adjustment_total :: "string \<Rightarrow> string \<Rightarrow> ledger \<Rightarrow> int" where
  "adjustment_total rt ri L = sum_list (map le_amountCredits (filter (\<lambda>e. le_refType e = Some rt \<and>
     le_refId e = Some ri \<and> le_kind e = Adjustment) L))"

definition already_reversed :: "ledger_entry \<Rightarrow> string \<Rightarrow> string \<Rightarrow> ledger \<Rightarrow> int" where
  "already_reversed p rt ri L = min (le_amountCredits p) (max 0 (- adjustment_total rt ri L))"

definition incremental_cents :: "ledger_entry \<Rightarrow> int option \<Rightarrow> int \<Rightarrow> int" where
  "incremental_cents p cumulative credits =
     (if charged_cents p > 0
      then min (refunded_cents p cumulative)
        (max 1 (js_round (of_int (charged_cents p * credits) / of_int (le_amountCredits p))))
      else refunded_cents p cumulative)"

definition refund_entry :: "database \<Rightarrow> refund_write \<Rightarrow> ledger_entry \<Rightarrow> int \<Rightarrow> ledger \<Rightarrow> ledger_entry" where
  "refund_entry db w p credits L = \<lparr>le_id = db_newId db L, le_userId = le_userId p,
     le_organizationId = le_organizationId p, le_tenantId = le_tenantId p, le_kind = Adjustment,
     le_amountCredits = - credits,
     le_costCentsRef = Some (incremental_cents p (rf_cumulativeRefundedCents w) credits),
     le_refType = Some (rf_refType w), le_refId = Some (rf_refId w),
     le_balanceAfter = sumBalance (le_userId p) L - credits, le_description = rf_description w,
     le_idempotencyKey = Some (rf_idempotencyKey w), le_remainingCredits = None, le_expiresAt = None,
     le_createdAt = db_clock db\<rparr>"

text \<open>The part of the transaction after the lock on the owner of the purchase.\<close>

definition refund_locked ::
  "database \<Rightarrow> int \<Rightarrow> refund_write \<Rightarrow> ledger_entry \<Rightarrow> ledger \<Rightarrow> (refund_result \<times> ledger) option" where
  "refund_locked db now w p L0 =
     (let credits = target_reversed p (rf_cumulativeRefundedCents w)
                    - already_reversed p (rf_refType w) (rf_refId w) L0 in
      if credits \<le> 0 then Some (RefundCovered, L0)
      else (case expireDueBucketsInTx db (le_userId p) now L0 of
          None \<Rightarrow> None
        | Some (_, L) \<Rightarrow>
           (let e = refund_entry db w p credits L in
            case save_entry e L of
              None \<Rightarrow> None
            | Some L1 \<Rightarrow> Some (RefundCreated e credits, allocateDebit (le_userId p) credits now L1))))"

definition recordCumulativeRefundAtomic ::
  "database \<Rightarrow> (ledger \<Rightarrow> ledger) \<Rightarrow> int \<Rightarrow> refund_write \<Rightarrow> ledger \<Rightarrow> (unit + refund_result) \<times> ledger" where
  "recordCumulativeRefundAtomic db rival now w L =
     (case findByIdempotencyKey (rf_idempotencyKey w) L of
        Some e \<Rightarrow> (Inr (RefundIdempotent e), L)
      | None \<Rightarrow>
         (case findLatestByRef (rf_refType w) (rf_refId w) L of
            None \<Rightarrow> (Inr MissingPurchase, L)
          | Some p \<Rightarrow>
             (if le_amountCredits p \<le> 0 then (Inr MissingPurchase, L)
              else (case refund_locked db now w p (rival L) of
                  Some (res, L') \<Rightarrow> (Inr res, L')
                | None \<Rightarrow> (case findByIdempotencyKey (rf_idempotencyKey w) (rival L) of
                      Some e \<Rightarrow> (Inr (RefundIdempotent e), rival L)
                    | None \<Rightarrow> (Inl (), rival L))))))"

end
