(* ===== verification/Credit_Laws.thy ===== *)
theory Credit_Laws
  imports Credit_Ledger
begin

text \<open>
  The laws of the credit ledger: movements are append-only, the invariant \<open>ledger_ok\<close> of the table,
  what closing lapsed buckets and allocating a debit do to the balance and to the open buckets, and
  the transition system of all writers. \<open>unbacked\<close> is the part of the open buckets an overdraft has
  already spent: it is never negative, and only an overdraft or a refund can raise it.
\<close>

section \<open>Append-only growth\<close>

definition frozen :: "ledger_entry \<Rightarrow> ledger_entry" where
  "frozen e = e\<lparr>le_remainingCredits := None\<rparr>"

definition shrinks :: "ledger_entry \<Rightarrow> ledger_entry \<Rightarrow> bool" where
  "shrinks e e' \<longleftrightarrow> frozen e' = frozen e \<and> remaining_of e' \<le> remaining_of e"

definition extends :: "(ledger_entry \<Rightarrow> bool) \<Rightarrow> ledger \<Rightarrow> ledger \<Rightarrow> bool" where
  "extends P L L' \<longleftrightarrow> (\<exists>old new. L' = old @ new \<and> list_all2 shrinks L old \<and> (\<forall>e\<in>set new. P e))"

lemma frozen_eqD:
  assumes "frozen e' = frozen e"
  shows "le_id e' = le_id e" "le_userId e' = le_userId e" "le_kind e' = le_kind e"
    "le_amountCredits e' = le_amountCredits e" "le_costCentsRef e' = le_costCentsRef e"
    "le_refType e' = le_refType e" "le_refId e' = le_refId e" "le_balanceAfter e' = le_balanceAfter e"
    "le_idempotencyKey e' = le_idempotencyKey e" "le_expiresAt e' = le_expiresAt e"
    "le_createdAt e' = le_createdAt e"
  using assms by (cases e; cases e'; simp add: frozen_def)+

lemma remaining_of_set [simp]: "remaining_of (e\<lparr>le_remainingCredits := Some r\<rparr>) = r"
  by (simp add: remaining_of_def)

lemma shrinks_refl [simp]: "shrinks e e"
  by (simp add: shrinks_def)

lemma shrinks_trans: "shrinks a b \<Longrightarrow> shrinks b c \<Longrightarrow> shrinks a c"
  by (simp add: shrinks_def)

lemma extends_refl [simp]: "extends P L L"
  unfolding extends_def by (rule exI [of _ L], rule exI [of _ "[]"]) (simp add: list_all2_refl)

lemma extends_mono: "extends P L L' \<Longrightarrow> (\<And>e. P e \<Longrightarrow> Q e) \<Longrightarrow> extends Q L L'"
  unfolding extends_def by blast

lemma extends_trans:
  assumes "extends P L L1" "extends P L1 L2" "\<And>e e'. P e \<Longrightarrow> shrinks e e' \<Longrightarrow> P e'"
  shows "extends P L L2"
proof -
  obtain o1 n1 where 1: "L1 = o1 @ n1" "list_all2 shrinks L o1" "\<forall>e\<in>set n1. P e"
    using assms(1) by (auto simp: extends_def)
  obtain o2 n2 where 2: "L2 = o2 @ n2" "list_all2 shrinks L1 o2" "\<forall>e\<in>set n2. P e"
    using assms(2) by (auto simp: extends_def)
  obtain a b where o2: "o2 = a @ b" "list_all2 shrinks o1 a" "list_all2 shrinks n1 b"
    using 2(2) unfolding 1(1) list_all2_append1 by blast
  have "list_all2 shrinks L a" by (rule list_all2_trans [OF shrinks_trans 1(2) o2(2)])
  moreover have "\<forall>e\<in>set b. P e"
    using o2(3) 1(3) assms(3) by (auto simp: list_all2_conv_all_nth in_set_conv_nth) (metis nth_mem)
  ultimately show ?thesis unfolding extends_def 2(1) o2(1) using 2(3) by (intro exI [of _ a] exI [of _ "b @ n2"]) auto
qed

lemma extends_row:
  assumes "extends P L L'" "e \<in> set L"
  obtains e' where "e' \<in> set L'" "shrinks e e'"
proof -
  obtain old new where L': "L' = old @ new" "list_all2 shrinks L old" using assms(1) by (auto simp: extends_def)
  obtain i where "i < length L" "e = L ! i" using assms(2) by (auto simp: in_set_conv_nth)
  then have "old ! i \<in> set L'" "shrinks e (old ! i)"
    using L' by (auto simp: list_all2_conv_all_nth)
  then show thesis by (rule that)
qed

lemma extends_sum:
  assumes "extends P L L'" "\<And>e e'. shrinks e e' \<Longrightarrow> f e' = f e" "\<And>e e'. shrinks e e' \<Longrightarrow> Q e' = Q e"
    "\<And>e. P e \<Longrightarrow> \<not> Q e"
  shows "sum_list (map f (filter Q L')) = (sum_list (map f (filter Q L)) :: int)"
proof -
  obtain old new where L': "L' = old @ new" "list_all2 shrinks L old" "\<forall>e\<in>set new. P e"
    using assms(1) by (auto simp: extends_def)
  have "filter Q new = []" using L'(3) assms(4) by (auto simp: filter_empty_conv)
  moreover have "sum_list (map f (filter Q old)) = sum_list (map f (filter Q L))"
    using L'(2) by (induction rule: list_all2_induct) (auto simp: assms(2,3))
  ultimately show ?thesis by (simp add: L'(1))
qed

lemma extends_append [simp]: "P e \<Longrightarrow> extends P L (L @ [e])"
  unfolding extends_def by (rule exI [of _ L], rule exI [of _ "[e]"]) (simp add: list_all2_refl)

section \<open>Setting what remains of a bucket\<close>

lemma set_remaining_ids [simp]: "map le_id (set_remaining i r L) = map le_id L"
  by (simp add: set_remaining_def)

lemma set_remaining_id_set [simp]: "le_id ` set (set_remaining i r L) = le_id ` set L"
  using set_remaining_ids by (metis set_map)

lemma set_remaining_append [simp]: "set_remaining i r (L @ M) = set_remaining i r L @ set_remaining i r M"
  by (simp add: set_remaining_def)

lemma set_remaining_other: "i \<notin> le_id ` set L \<Longrightarrow> set_remaining i r L = L"
  unfolding set_remaining_def by (rule map_idI) (auto simp: image_iff)

lemma set_remaining_sum:
  assumes "\<And>e. f (e\<lparr>le_remainingCredits := Some r\<rparr>) = f e" "\<And>e. Q (e\<lparr>le_remainingCredits := Some r\<rparr>) = Q e"
  shows "sum_list (map f (filter Q (set_remaining i r L))) = (sum_list (map f (filter Q L)) :: int)"
  by (induction L) (auto simp: set_remaining_def assms)

lemma sumBalance_set_remaining [simp]: "sumBalance u (set_remaining i r L) = sumBalance u L"
  unfolding sumBalance_def by (rule set_remaining_sum) simp_all

lemma sumBalance_append [simp]:
  "sumBalance u (L @ M) = sumBalance u L + sumBalance u M"
  "sumBalance u [] = 0"
  "sumBalance u (e # M) = (if le_userId e = u then le_amountCredits e else 0) + sumBalance u M"
  by (simp_all add: sumBalance_def)

lemma set_remaining_row:
  "b \<in> set L \<Longrightarrow> b\<lparr>le_remainingCredits := Some r\<rparr> \<in> set (set_remaining (le_id b) r L)"
  by (auto simp: set_remaining_def image_iff intro!: bexI [of _ b])

lemma unique_row:
  assumes "distinct (map le_id L)" "a \<in> set L" "b \<in> set L" "le_id a = le_id b"
  shows "a = b"
  using assms by (metis distinct_map inj_onD)

lemma set_remaining_extends:
  assumes "distinct (map le_id L)" "b \<in> set L" "r \<le> remaining_of b"
  shows "extends P L (set_remaining (le_id b) r L)"
proof -
  have "shrinks e (if le_id e = le_id b then e\<lparr>le_remainingCredits := Some r\<rparr> else e)" if "e \<in> set L" for e
    using unique_row [OF assms(1) that assms(2)] assms(3)
    by (auto simp: shrinks_def frozen_def remaining_of_def)
  then have "list_all2 shrinks L (set_remaining (le_id b) r L)"
    by (auto simp: set_remaining_def list_all2_conv_all_nth)
  then show ?thesis unfolding extends_def by (intro exI [of _ "set_remaining (le_id b) r L"] exI [of _ "[]"]) simp
qed

section \<open>Open buckets\<close>

definition open_total :: "string \<Rightarrow> ledger \<Rightarrow> int" where
  "open_total u L = sum_list (map remaining_of (filter (\<lambda>e. le_userId e = u) L))"

definition unbacked :: "string \<Rightarrow> ledger \<Rightarrow> int" where
  "unbacked u L = open_total u L - sumBalance u L"

lemma open_total_append [simp]:
  "open_total u (L @ M) = open_total u L + open_total u M"
  "open_total u [] = 0"
  "open_total u (e # M) = (if le_userId e = u then remaining_of e else 0) + open_total u M"
  by (simp_all add: open_total_def)

lemma open_total_set_remaining:
  assumes "distinct (map le_id L)" "b \<in> set L"
  shows "open_total u (set_remaining (le_id b) r L)
    = open_total u L - (if le_userId b = u then remaining_of b - r else 0)"
  using assms
proof (induction L)
  case (Cons e L)
  show ?case
  proof (cases "le_id e = le_id b")
    case True
    then have "e = b" using unique_row [OF Cons.prems(1), of e b] Cons.prems(2) by simp
    moreover have "set_remaining (le_id b) r L = L"
      using Cons.prems(1) True by (intro set_remaining_other) auto
    ultimately show ?thesis by (simp add: set_remaining_def remaining_of_def)
  next
    case False
    then have "b \<in> set L" "distinct (map le_id L)" using Cons.prems by auto
    from Cons.IH [OF this(2,1)] show ?thesis using False by (auto simp: set_remaining_def)
  qed
qed simp

section \<open>The invariant of the table\<close>

definition entry_ok :: "ledger_entry \<Rightarrow> bool" where
  "entry_ok e \<longleftrightarrow>
     (if le_amountCredits e > 0 then le_remainingCredits e \<noteq> None \<and> 0 \<le> remaining_of e \<and> remaining_of e \<le> le_amountCredits e
      else le_remainingCredits e = None \<and> le_expiresAt e = None)"

definition running_ok :: "ledger \<Rightarrow> bool" where
  "running_ok L \<longleftrightarrow> (\<forall>us e vs. L = us @ e # vs \<longrightarrow>
     le_balanceAfter e = sumBalance (le_userId e) us + le_amountCredits e)"

definition keys_ok :: "ledger \<Rightarrow> bool" where
  "keys_ok L \<longleftrightarrow> (\<forall>a\<in>set L. \<forall>b\<in>set L. le_idempotencyKey a \<noteq> None \<and>
     le_idempotencyKey a = le_idempotencyKey b \<longrightarrow> a = b)"

text \<open>A row with an expiry key closed its bucket.\<close>

definition expiries_ok :: "ledger \<Rightarrow> bool" where
  "expiries_ok L \<longleftrightarrow> (\<forall>e\<in>set L. \<forall>i. le_idempotencyKey e = Some (expiry_key i) \<longrightarrow>
     i \<in> le_id ` set L \<and> (\<forall>b\<in>set L. le_id b = i \<longrightarrow> remaining_of b = 0))"

definition table_ok :: "ledger \<Rightarrow> bool" where
  "table_ok L \<longleftrightarrow> distinct (map le_id L) \<and> (\<forall>e\<in>set L. entry_ok e) \<and> running_ok L \<and> keys_ok L \<and>
     expiries_ok L"

definition ledger_ok :: "ledger \<Rightarrow> bool" where
  "ledger_ok L \<longleftrightarrow> table_ok L \<and> (\<forall>u. 0 \<le> unbacked u L)"

lemma expiry_key_inject [simp]: "expiry_key i = expiry_key j \<longleftrightarrow> i = j"
  by (simp add: expiry_key_def)

lemma running_ok_Nil [simp]: "running_ok []"
  by (simp add: running_ok_def)

lemma ledger_ok_Nil [simp]: "ledger_ok []"
  by (simp add: ledger_ok_def table_ok_def keys_ok_def expiries_ok_def unbacked_def)

lemma running_ok_snoc:
  assumes "running_ok L" "le_balanceAfter e = sumBalance (le_userId e) L + le_amountCredits e"
  shows "running_ok (L @ [e])"
  unfolding running_ok_def
proof (intro allI impI)
  fix us x vs
  assume split: "L @ [e] = us @ x # vs"
  show "le_balanceAfter x = sumBalance (le_userId x) us + le_amountCredits x"
  proof (cases vs rule: rev_cases)
    case Nil
    then show ?thesis using split assms(2) by simp
  next
    case (snoc ws w)
    then have "L = us @ x # ws" using split by simp
    then show ?thesis using assms(1) by (simp add: running_ok_def)
  qed
qed

lemma running_ok_set_remaining:
  assumes "running_ok L"
  shows "running_ok (set_remaining i r L)"
  unfolding running_ok_def
proof (intro allI impI)
  fix us e vs
  assume "set_remaining i r L = us @ e # vs"
  then obtain us' e' vs' where L: "L = us' @ e' # vs'" and us: "us = set_remaining i r us'"
    and e: "e = (if le_id e' = i then e'\<lparr>le_remainingCredits := Some r\<rparr> else e')"
    by (auto simp: set_remaining_def map_eq_append_conv map_eq_Cons_conv)
  have "le_balanceAfter e' = sumBalance (le_userId e') us' + le_amountCredits e'"
    using assms L by (simp add: running_ok_def)
  then show "le_balanceAfter e = sumBalance (le_userId e) us + le_amountCredits e"
    using us e by simp
qed

lemma entry_ok_remaining_nonneg: "entry_ok e \<Longrightarrow> 0 \<le> remaining_of e"
  by (auto simp: entry_ok_def remaining_of_def split: if_splits option.splits)

lemma open_positive: "entry_ok e \<Longrightarrow> 0 < remaining_of e \<Longrightarrow> 0 < le_amountCredits e"
  by (auto simp: entry_ok_def remaining_of_def split: if_splits)


section \<open>The writes of one row\<close>

lemma save_entry_Some:
  "save_entry e L = Some L' \<longleftrightarrow>
     L' = L @ [e] \<and> (le_idempotencyKey e = None \<or> le_idempotencyKey e \<notin> le_idempotencyKey ` set L)"
  by (auto simp: save_entry_def)

lemma save_entry_None:
  "save_entry e L = None \<longleftrightarrow>
     le_idempotencyKey e \<noteq> None \<and> le_idempotencyKey e \<in> le_idempotencyKey ` set L"
  by (auto simp: save_entry_def)

lemma find_key_None:
  "findByIdempotencyKey k L = None \<longleftrightarrow> Some k \<notin> le_idempotencyKey ` set L"
  by (auto simp: findByIdempotencyKey_def find_None_iff image_iff)

lemma find_key_SomeD:
  "findByIdempotencyKey k L = Some e \<Longrightarrow> e \<in> set L \<and> le_idempotencyKey e = Some k"
  unfolding findByIdempotencyKey_def by (drule find_SomeD) simp

lemma set_remaining_keys [simp]: "le_idempotencyKey ` set (set_remaining i r L) = le_idempotencyKey ` set L"
  unfolding set_remaining_def set_map image_image by (rule image_cong) simp_all

lemma keys_ok_snoc:
  assumes "keys_ok L" "save_entry e L = Some L'"
  shows "keys_ok L'"
proof -
  have e: "le_idempotencyKey x \<noteq> le_idempotencyKey e" if "x \<in> set L" "le_idempotencyKey x \<noteq> None" for x
    using assms(2) that unfolding save_entry_Some by (metis imageI)
  have L': "set L' = insert e (set L)" using assms(2) by (simp add: save_entry_Some)
  show ?thesis
    unfolding keys_ok_def
  proof (intro ballI impI)
    fix a b
    assume "a \<in> set L'" "b \<in> set L'"
      "le_idempotencyKey a \<noteq> None \<and> le_idempotencyKey a = le_idempotencyKey b"
    then consider "a = e" "b = e" | "a = e" "b \<in> set L" "le_idempotencyKey b \<noteq> None"
        "le_idempotencyKey b = le_idempotencyKey e"
      | "b = e" "a \<in> set L" "le_idempotencyKey a \<noteq> None" "le_idempotencyKey a = le_idempotencyKey e"
      | "a \<in> set L" "b \<in> set L" "le_idempotencyKey a \<noteq> None" "le_idempotencyKey a = le_idempotencyKey b"
      unfolding L' by force
    then show "a = b"
    proof cases
      case 4
      then show ?thesis using assms(1) unfolding keys_ok_def by blast
    qed (use e in \<open>blast | metis\<close>)+
  qed
qed

lemma keys_ok_set_remaining:
  assumes "keys_ok L"
  shows "keys_ok (set_remaining i r L)"
  unfolding keys_ok_def
proof (intro ballI impI)
  fix a b
  assume a: "a \<in> set (set_remaining i r L)" and b: "b \<in> set (set_remaining i r L)"
    and k: "le_idempotencyKey a \<noteq> None \<and> le_idempotencyKey a = le_idempotencyKey b"
  let ?f = "\<lambda>e. if le_id e = i then e\<lparr>le_remainingCredits := Some r\<rparr> else e"
  obtain a' where a': "a' \<in> set L" "a = ?f a'" using a by (auto simp: set_remaining_def)
  obtain b' where b': "b' \<in> set L" "b = ?f b'" using b by (auto simp: set_remaining_def)
  have "le_idempotencyKey a' = le_idempotencyKey a" "le_idempotencyKey b' = le_idempotencyKey b"
    using a'(2) b'(2) by simp_all
  then have "a' = b'" using assms a'(1) b'(1) k unfolding keys_ok_def by metis
  then show "a = b" using a' b' by simp
qed

text \<open>What one write may leave of a row: the row itself, or the bucket with a new remainder.\<close>

lemma set_remaining_cases:
  assumes "e \<in> set (set_remaining i r L)"
  obtains e' where "e' \<in> set L" "e = (if le_id e' = i then e'\<lparr>le_remainingCredits := Some r\<rparr> else e')"
  using assms by (auto simp: set_remaining_def)

lemma set_remaining_table_ok:
  assumes ok: "table_ok L" and b: "b \<in> set L" "0 < remaining_of b" and r: "0 \<le> r" "r \<le> remaining_of b"
  shows "table_ok (set_remaining (le_id b) r L)"
proof -
  have ids: "distinct (map le_id L)" and rows: "\<And>e. e \<in> set L \<Longrightarrow> entry_ok e"
    using ok by (auto simp: table_ok_def)
  have eb: "e = b" if "e \<in> set L" "le_id e = le_id b" for e using unique_row [OF ids that(1) b(1) that(2)] .
  have "entry_ok e" if e: "e \<in> set (set_remaining (le_id b) r L)" for e
  proof -
    obtain e' where e': "e' \<in> set L" "e = (if le_id e' = le_id b then e'\<lparr>le_remainingCredits := Some r\<rparr> else e')"
      using e by (rule set_remaining_cases)
    show ?thesis
      using rows [OF e'(1)] rows [OF b(1)] open_positive [OF rows [OF b(1)] b(2)] eb [OF e'(1)] e'(2) r
      by (auto simp: entry_ok_def remaining_of_def split: if_splits)
  qed
  moreover have "expiries_ok (set_remaining (le_id b) r L)"
    unfolding expiries_ok_def
  proof (intro ballI allI impI conjI)
    fix e i
    assume e: "e \<in> set (set_remaining (le_id b) r L)" and k: "le_idempotencyKey e = Some (expiry_key i)"
    obtain e' where e': "e' \<in> set L" "e = (if le_id e' = le_id b then e'\<lparr>le_remainingCredits := Some r\<rparr> else e')"
      using e by (rule set_remaining_cases)
    then have k': "le_idempotencyKey e' = Some (expiry_key i)" using k by (simp split: if_splits)
    have i: "i \<in> le_id ` set L" "\<And>c. c \<in> set L \<Longrightarrow> le_id c = i \<Longrightarrow> remaining_of c = 0"
      using ok e'(1) k' unfolding table_ok_def expiries_ok_def by blast+
    show "i \<in> le_id ` set (set_remaining (le_id b) r L)" using i(1) by simp
    fix c
    assume c: "c \<in> set (set_remaining (le_id b) r L)" "le_id c = i"
    obtain c' where c': "c' \<in> set L" "c = (if le_id c' = le_id b then c'\<lparr>le_remainingCredits := Some r\<rparr> else c')"
      using c(1) by (rule set_remaining_cases)
    have "le_id c' = i" using c' c(2) by (simp split: if_splits)
    moreover have "le_id b \<noteq> i" using i(2) [OF b(1)] b(2) by auto
    ultimately show "remaining_of c = 0" using i(2) [OF c'(1)] c'(2) by simp
  qed
  ultimately show ?thesis
    using ids ok running_ok_set_remaining keys_ok_set_remaining by (auto simp: table_ok_def)
qed

lemma append_table_ok:
  assumes ok: "table_ok L" and s: "save_entry e L = Some L'" and fresh: "le_id e \<notin> le_id ` set L"
    and e: "entry_ok e" "le_balanceAfter e = sumBalance (le_userId e) L + le_amountCredits e"
    and plain: "\<And>i. le_idempotencyKey e \<noteq> Some (expiry_key i)"
  shows "table_ok L'"
proof -
  have L': "L' = L @ [e]" using s by (simp add: save_entry_Some)
  have "expiries_ok L'"
    using ok plain fresh unfolding L' table_ok_def expiries_ok_def by auto
  moreover have "keys_ok L'" using keys_ok_snoc [OF _ s] ok by (simp add: table_ok_def)
  moreover have "running_ok L'" unfolding L' using ok e(2) by (intro running_ok_snoc) (auto simp: table_ok_def)
  ultimately show ?thesis using ok fresh e(1) by (auto simp: table_ok_def L')
qed


section \<open>Allocating a debit\<close>

definition buckets_of :: "string \<Rightarrow> ledger_entry list \<Rightarrow> ledger \<Rightarrow> bool" where
  "buckets_of u bs L \<longleftrightarrow> set bs \<subseteq> set L \<and> distinct (map le_id bs) \<and>
     (\<forall>b\<in>set bs. 0 < remaining_of b \<and> le_userId b = u)"

lemma buckets_of_tail:
  assumes "buckets_of u (b # bs) L"
  shows "buckets_of u bs (set_remaining (le_id b) r L)" "b \<in> set L" "0 < remaining_of b" "le_userId b = u"
proof -
  have "c \<in> set (set_remaining (le_id b) r L)" if "c \<in> set bs" for c
  proof -
    have "c \<in> set L" using assms that by (auto simp: buckets_of_def)
    moreover have "le_id c \<noteq> le_id b"
      using assms that unfolding buckets_of_def by (metis distinct.simps(2) imageI list.simps(9) list.set_map)
    ultimately show ?thesis unfolding set_remaining_def by (auto simp: image_iff intro!: bexI [of _ c])
  qed
  then show "buckets_of u bs (set_remaining (le_id b) r L)" using assms by (auto simp: buckets_of_def)
  show "b \<in> set L" "0 < remaining_of b" "le_userId b = u" using assms by (auto simp: buckets_of_def)
qed

lemma buckets_nonneg: "buckets_of u bs L \<Longrightarrow> 0 \<le> sum_list (map remaining_of bs)"
  by (rule sum_list_map_nonneg) (fastforce simp: buckets_of_def)

text \<open>A total is taken out of one user's open buckets, and nothing else changes.\<close>

definition drained :: "string \<Rightarrow> int \<Rightarrow> ledger \<Rightarrow> ledger \<Rightarrow> bool" where
  "drained u taken L L' \<longleftrightarrow> table_ok L' \<and> extends (\<lambda>_. False) L L' \<and>
     (\<forall>v. sumBalance v L' = sumBalance v L \<and>
        open_total v L' = open_total v L - (if v = u then taken else 0))"

lemma drained_trans: "drained u a L L1 \<Longrightarrow> drained u b L1 L2 \<Longrightarrow> drained u (a + b) L L2"
  unfolding drained_def by (auto intro: extends_trans)

lemma drained_one:
  assumes "table_ok L" "b \<in> set L" "0 < remaining_of b" "0 \<le> t" "t \<le> remaining_of b"
  shows "drained (le_userId b) t L (set_remaining (le_id b) (remaining_of b - t) L)"
  unfolding drained_def
proof (intro conjI allI)
  have ids: "distinct (map le_id L)" using assms(1) by (simp add: table_ok_def)
  show "table_ok (set_remaining (le_id b) (remaining_of b - t) L)"
    using set_remaining_table_ok [OF assms(1-3)] assms(4,5) by simp
  show "extends (\<lambda>_. False) L (set_remaining (le_id b) (remaining_of b - t) L)"
    using set_remaining_extends [OF ids assms(2)] assms(4) by simp
  show "open_total v (set_remaining (le_id b) (remaining_of b - t) L)
      = open_total v L - (if v = le_userId b then t else 0)" for v
    by (auto simp: open_total_set_remaining [OF ids assms(2)])
qed simp

lemma allocate_loop_drains:
  assumes "table_ok L" "buckets_of u bs L"
  shows "drained u (max 0 (min left (sum_list (map remaining_of bs)))) L (allocate_loop bs left L)"
  using assms
proof (induction bs left L rule: allocate_loop.induct)
  case (1 left L)
  then show ?case by (auto simp: drained_def max_def min_def)
next
  case step: (2 b bs left L)
  note b = buckets_of_tail [OF step.prems(2)] and sum = buckets_nonneg [OF step.prems(2)] buckets_nonneg [OF buckets_of_tail(1) [OF step.prems(2)]]
  show ?case
  proof (cases "left \<le> 0")
    case True
    then show ?thesis using step.prems(1) by (auto simp: drained_def max_def min_def)
  next
    case False
    let ?t = "min (remaining_of b) left"
    let ?L1 = "set_remaining (le_id b) (remaining_of b - ?t) L"
    have one: "drained u ?t L ?L1"
      using drained_one [OF step.prems(1) b(2,3), of ?t] False b(3,4) by simp
    have "drained u (max 0 (min (left - ?t) (sum_list (map remaining_of bs)))) ?L1
        (allocate_loop bs (left - ?t) ?L1)"
      using step.IH(2) [OF False refl refl] False b(1,3) one by (auto simp: drained_def)
    from drained_trans [OF one this] have "drained u (?t + max 0 (min (left - ?t) (sum_list (map remaining_of bs))))
        L (allocate_loop bs (left - ?t) ?L1)" .
    moreover have "?t + max 0 (min (left - ?t) (sum_list (map remaining_of bs)))
        = max 0 (min left (sum_list (map remaining_of (b # bs))))"
      using False sum b(3) by (auto simp: min_def max_def)
    moreover have "\<not> ?t \<le> 0" using False b(3) by simp
    ultimately show ?thesis using False by (simp add: Let_def)
  qed
qed

section \<open>The order of the allocation\<close>

definition remaining_in :: "ledger \<Rightarrow> string \<Rightarrow> int" where
  "remaining_in L i = sum_list (map remaining_of (filter (\<lambda>e. le_id e = i) L))"

fun greedy :: "int \<Rightarrow> int list \<Rightarrow> int list" where
  "greedy left [] = []"
| "greedy left (r # rs) = (r - min r left) # greedy (left - min r left) rs"

lemma remaining_in_row:
  assumes "distinct (map le_id L)" "b \<in> set L"
  shows "remaining_in L (le_id b) = remaining_of b"
  using assms
proof (induction L)
  case (Cons e L)
  show ?case
  proof (cases "e = b")
    case True
    then have "le_id x \<noteq> le_id b" if "x \<in> set L" for x using Cons.prems(1) that by (metis distinct.simps(2) imageI list.simps(9) list.set_map)
    then have "filter (\<lambda>e. le_id e = le_id b) L = []" by (simp add: filter_empty_conv)
    then show ?thesis using True by (simp add: remaining_in_def)
  next
    case False
    then have "b \<in> set L" "le_id e \<noteq> le_id b" using Cons.prems by auto
    then show ?thesis using Cons by (simp add: remaining_in_def)
  qed
qed simp

lemma remaining_in_set_remaining_other:
  "i \<noteq> j \<Longrightarrow> remaining_in (set_remaining j r L) i = remaining_in L i"
  by (induction L) (auto simp: remaining_in_def set_remaining_def)

lemma greedy_zero: "\<forall>r\<in>set rs. 0 \<le> r \<Longrightarrow> greedy 0 rs = rs"
  by (induction rs) (auto simp: min_def)

lemma greedy_order:
  assumes "\<forall>r\<in>set rs. 0 \<le> r" "0 \<le> left" "i < j" "j < length rs" "greedy left rs ! j < rs ! j"
  shows "greedy left rs ! i = 0"
  using assms
proof (induction rs arbitrary: left i j)
  case (Cons r rs)
  obtain j' where j: "j = Suc j'" using Cons.prems(3) by (cases j) auto
  show ?case
  proof (cases "left \<le> r")
    case True
    then have "greedy left (r # rs) ! j = rs ! j'" using Cons.prems(1,2) j by (simp add: greedy_zero)
    then show ?thesis using Cons.prems(5) j by simp
  next
    case False
    then show ?thesis
    proof (cases i)
      case (Suc i')
      then show ?thesis using Cons.IH [of "left - r" i' j'] Cons.prems False j by simp
    qed simp
  qed
qed simp

lemma allocate_loop_spends:
  assumes "table_ok L" "buckets_of u bs L" "0 \<le> left"
  shows "map (\<lambda>b. remaining_in (allocate_loop bs left L) (le_id b)) bs = greedy left (map remaining_of bs) \<and>
    (\<forall>i. i \<notin> le_id ` set bs \<longrightarrow> remaining_in (allocate_loop bs left L) i = remaining_in L i)"
  using assms
proof (induction bs left L rule: allocate_loop.induct)
  case step: (2 b bs left L)
  note b = buckets_of_tail [OF step.prems(2)]
  have ids: "distinct (map le_id L)" using step.prems(1) by (simp add: table_ok_def)
  show ?case
  proof (cases "left \<le> 0")
    case True
    have "map (\<lambda>c. remaining_in L (le_id c)) (b # bs) = map remaining_of (b # bs)"
      using step.prems(2) by (intro map_cong refl remaining_in_row [OF ids]) (auto simp: buckets_of_def)
    moreover have "greedy 0 (map remaining_of (b # bs)) = map remaining_of (b # bs)"
      using step.prems(2) by (intro greedy_zero) (auto simp: buckets_of_def)
    moreover have "left = 0" using True step.prems(3) by simp
    ultimately show ?thesis by (simp only: allocate_loop.simps) simp
  next
    case False
    let ?t = "min (remaining_of b) left"
    let ?L1 = "set_remaining (le_id b) (remaining_of b - ?t) L"
    have "table_ok ?L1" using set_remaining_table_ok [OF step.prems(1) b(2,3)] False b(3) by simp
    with step.IH(2) [OF False refl refl] False b(1,3)
    have IH: "map (\<lambda>b. remaining_in (allocate_loop bs (left - ?t) ?L1) (le_id b)) bs
          = greedy (left - ?t) (map remaining_of bs)"
      "\<And>i. i \<notin> le_id ` set bs \<Longrightarrow> remaining_in (allocate_loop bs (left - ?t) ?L1) i = remaining_in ?L1 i"
      by auto
    have "le_id b \<notin> le_id ` set bs" using step.prems(2) by (auto simp: buckets_of_def)
    from IH(2) [OF this] have "remaining_in (allocate_loop bs (left - ?t) ?L1) (le_id b) = remaining_of b - ?t"
      using remaining_in_row [OF _ set_remaining_row [OF b(2)]] ids by simp
    then show ?thesis
      using IH False b(3) by (auto simp: Let_def remaining_in_set_remaining_other)
  qed
qed simp


section \<open>Closing lapsed buckets\<close>

definition is_expiry :: "ledger_entry \<Rightarrow> bool" where
  "is_expiry e \<longleftrightarrow> le_kind e = Expiry \<and> (\<exists>i. le_idempotencyKey e = Some (expiry_key i)) \<and> remaining_of e \<le> 0"

text \<open>A lapsed bucket leaves the balance and the open buckets by the same amount.\<close>

definition lapsed :: "string \<Rightarrow> int \<Rightarrow> ledger \<Rightarrow> ledger \<Rightarrow> bool" where
  "lapsed u taken L L' \<longleftrightarrow> table_ok L' \<and> extends is_expiry L L' \<and>
     (\<forall>v. sumBalance v L' = sumBalance v L - (if v = u then taken else 0) \<and>
        open_total v L' = open_total v L - (if v = u then taken else 0))"

lemma is_expiry_shrinks: "is_expiry e \<Longrightarrow> shrinks e e' \<Longrightarrow> is_expiry e'"
  unfolding is_expiry_def shrinks_def using frozen_eqD(3,9) order_trans by metis

lemma lapsed_trans: "lapsed u a L L1 \<Longrightarrow> lapsed u b L1 L2 \<Longrightarrow> lapsed u (a + b) L L2"
proof -
  assume a: "lapsed u a L L1" and b: "lapsed u b L1 L2"
  have "extends is_expiry L L2"
    by (rule extends_trans [of is_expiry L L1 L2]) (use a b is_expiry_shrinks in \<open>simp_all add: lapsed_def\<close>)
  then show "lapsed u (a + b) L L2" using a b by (simp add: lapsed_def)
qed

lemma lapsed_refl: "table_ok L \<Longrightarrow> lapsed u 0 L L"
  by (simp add: lapsed_def)

definition ids_fresh :: "database \<Rightarrow> bool" where
  "ids_fresh db \<longleftrightarrow> (\<forall>L. db_newId db L \<notin> le_id ` set L)"

lemma expiry_entry_simps [simp]:
  "le_id (expiry_entry db u b L) = db_newId db L" "le_userId (expiry_entry db u b L) = u"
  "le_kind (expiry_entry db u b L) = Expiry" "le_amountCredits (expiry_entry db u b L) = - remaining_of b"
  "le_idempotencyKey (expiry_entry db u b L) = Some (expiry_key (le_id b))"
  "le_balanceAfter (expiry_entry db u b L) = sumBalance u L - remaining_of b"
  "le_remainingCredits (expiry_entry db u b L) = None" "remaining_of (expiry_entry db u b L) = 0"
  "le_expiresAt (expiry_entry db u b L) = None"
  by (simp_all add: expiry_entry_def remaining_of_def)

lemma due_key_unused:
  assumes "table_ok L" "b \<in> set L" "0 < remaining_of b"
  shows "findByIdempotencyKey (expiry_key (le_id b)) L = None"
proof (rule ccontr)
  assume "findByIdempotencyKey (expiry_key (le_id b)) L \<noteq> None"
  then obtain e where "findByIdempotencyKey (expiry_key (le_id b)) L = Some e" by auto
  from find_key_SomeD [OF this] have "remaining_of b = 0"
    using assms(1,2) unfolding table_ok_def expiries_ok_def by blast
  then show False using assms(3) by simp
qed

lemma lapse_one:
  assumes ok: "table_ok L" and fresh: "ids_fresh db" and b: "b \<in> set L" "0 < remaining_of b" "le_userId b = u"
  shows "save_entry (expiry_entry db u b L) L = Some (L @ [expiry_entry db u b L])"
    "lapsed u (remaining_of b) L (set_remaining (le_id b) 0 (L @ [expiry_entry db u b L]))"
proof -
  let ?e = "expiry_entry db u b L"
  have new: "le_id ?e \<notin> le_id ` set L" using fresh by (simp add: ids_fresh_def)
  have ids: "distinct (map le_id L)" using ok by (simp add: table_ok_def)
  then have ids1: "distinct (map le_id (L @ [?e]))" using new by auto
  have key: "Some (expiry_key (le_id b)) \<notin> le_idempotencyKey ` set L"
    using due_key_unused [OF ok b(1,2)] by (simp add: find_key_None)
  show s: "save_entry ?e L = Some (L @ [?e])" using key by (simp add: save_entry_Some)
  have ne: "le_id ?e \<noteq> le_id b" using new b(1) by auto
  have append: "set_remaining (le_id b) 0 (L @ [?e]) = set_remaining (le_id b) 0 L @ [?e]"
    using ne by (simp add: set_remaining_def)
  have ok0: "table_ok (set_remaining (le_id b) 0 L)" using set_remaining_table_ok [OF ok b(1,2)] b(2) by simp
  have zero: "remaining_of c = 0" if "c \<in> set (set_remaining (le_id b) 0 L)" "le_id c = le_id b" for c
    using that by (elim set_remaining_cases) (auto split: if_splits)
  have "table_ok (set_remaining (le_id b) 0 L @ [?e])"
    unfolding table_ok_def
  proof (intro conjI ballI)
    show "distinct (map le_id (set_remaining (le_id b) 0 L @ [?e]))" using ids1 by simp
    show "entry_ok c" if "c \<in> set (set_remaining (le_id b) 0 L @ [?e])" for c
      using that ok0 b(2) by (auto simp: table_ok_def entry_ok_def)
    show "running_ok (set_remaining (le_id b) 0 L @ [?e])"
      using ok0 by (intro running_ok_snoc) (simp_all add: table_ok_def)
    show "keys_ok (set_remaining (le_id b) 0 L @ [?e])"
    proof (rule keys_ok_snoc)
      show "keys_ok (set_remaining (le_id b) 0 L)" using ok0 unfolding table_ok_def by blast
      show "save_entry ?e (set_remaining (le_id b) 0 L) = Some (set_remaining (le_id b) 0 L @ [?e])"
        using key unfolding save_entry_Some set_remaining_keys by simp
    qed
    show "expiries_ok (set_remaining (le_id b) 0 L @ [?e])"
      unfolding expiries_ok_def
    proof (intro ballI allI impI)
      fix e i
      assume e: "e \<in> set (set_remaining (le_id b) 0 L @ [?e])" "le_idempotencyKey e = Some (expiry_key i)"
      have "i \<in> le_id ` set L \<and> (\<forall>c\<in>set (set_remaining (le_id b) 0 L). le_id c = i \<longrightarrow> remaining_of c = 0)"
      proof (cases "e = ?e")
        case True
        then show ?thesis using e(2) zero b(1) by auto
      next
        case False
        then have "e \<in> set (set_remaining (le_id b) 0 L)" using e(1) by simp
        then show ?thesis using ok0 e(2) unfolding table_ok_def expiries_ok_def by simp
      qed
      then show "i \<in> le_id ` set (set_remaining (le_id b) 0 L @ [?e]) \<and>
          (\<forall>c\<in>set (set_remaining (le_id b) 0 L @ [?e]). le_id c = i \<longrightarrow> remaining_of c = 0)"
        using new by simp
    qed
  qed
  moreover have "extends is_expiry L (set_remaining (le_id b) 0 L @ [?e])"
  proof (rule extends_trans)
    show "extends is_expiry L (set_remaining (le_id b) 0 L)" using set_remaining_extends [OF ids b(1)] b(2) by simp
    show "extends is_expiry (set_remaining (le_id b) 0 L) (set_remaining (le_id b) 0 L @ [?e])"
      by (simp add: is_expiry_def)
  qed (rule is_expiry_shrinks)
  ultimately show "lapsed u (remaining_of b) L (set_remaining (le_id b) 0 (L @ [?e]))"
    unfolding lapsed_def append using b(3) open_total_set_remaining [OF ids b(1)] by simp
qed

lemma expire_loop_lapses:
  assumes "table_ok L" "ids_fresh db" "buckets_of u bs L"
  shows "\<exists>shut L'. expire_loop db u bs L = Some (shut, L') \<and> lapsed u (sum_list (map remaining_of bs)) L L' \<and>
    shut = map (\<lambda>b. (le_id b, remaining_of b)) bs \<and>
    (\<forall>e\<in>set L'. e \<in> set L \<or> remaining_of e = 0) \<and> (\<forall>e\<in>set L'. le_id e \<in> le_id ` set bs \<longrightarrow> remaining_of e = 0)"
  using assms
proof (induction bs arbitrary: L)
  case Nil
  then show ?case by (simp add: lapsed_refl)
next
  case (Cons b bs)
  note b = buckets_of_tail [OF Cons.prems(3)]
  let ?e = "expiry_entry db u b L" and ?L1 = "set_remaining (le_id b) 0 (L @ [expiry_entry db u b L])"
  note one = lapse_one [OF Cons.prems(1,2) b(2,3,4)]
  have "buckets_of u bs ?L1" using b(1) [of 0] by (auto simp: buckets_of_def)
  moreover have "table_ok ?L1" using one(2) by (simp add: lapsed_def)
  ultimately obtain shut L' where L': "expire_loop db u bs ?L1 = Some (shut, L')"
      "lapsed u (sum_list (map remaining_of bs)) ?L1 L'" "shut = map (\<lambda>b. (le_id b, remaining_of b)) bs"
      "\<And>e. e \<in> set L' \<Longrightarrow> e \<in> set ?L1 \<or> remaining_of e = 0"
      "\<And>e. e \<in> set L' \<Longrightarrow> le_id e \<in> le_id ` set bs \<Longrightarrow> remaining_of e = 0"
    using Cons.IH [OF _ Cons.prems(2)] by blast
  have L1: "e \<in> set L \<and> le_id e \<noteq> le_id b \<or> remaining_of e = 0" if "e \<in> set ?L1" for e
    using that by (elim set_remaining_cases) (auto split: if_splits)
  have "expire_loop db u (b # bs) L = Some ((le_id b, remaining_of b) # shut, L')"
    using b(3) due_key_unused [OF Cons.prems(1) b(2,3)] one(1) L'(1) by simp
  moreover have "lapsed u (sum_list (map remaining_of (b # bs))) L L'"
    using lapsed_trans [OF one(2) L'(2)] by simp
  moreover have "e \<in> set L \<or> remaining_of e = 0" if "e \<in> set L'" for e using L'(4) [OF that] L1 by blast
  moreover have "remaining_of e = 0" if "e \<in> set L'" "le_id e \<in> le_id ` set (b # bs)" for e
    using L'(4) [OF that(1)] L1 [of e] L'(5) [OF that(1)] that(2) by auto
  ultimately show ?case using L'(3) by auto
qed

end
