(* ===== verification/Credit_Tx.thy ===== *)
theory Credit_Tx
  imports Credit_Laws
begin

text \<open>
  The transactions of the ledger, case by case: closing what is due, recording a movement, reversing a
  refund. Each leaves the table well formed, and says how the balance and the open buckets moved.
\<close>

section \<open>Snapshots of buckets\<close>

lemma snapshot_buckets:
  assumes "distinct (map le_id L)" "\<And>e. e \<in> set L \<Longrightarrow> P e \<Longrightarrow> 0 < remaining_of e \<and> le_userId e = u"
  shows "buckets_of u (sort_key k (filter P L)) L"
proof -
  have "distinct (map le_id (filter P L))" using assms(1) by (rule distinct_map_filter)
  then have "distinct (map le_id (sort_key k (filter P L)))" by (simp add: distinct_map distinct_sort)
  then show ?thesis using assms(2) by (auto simp: buckets_of_def)
qed

lemma due_snapshot: "table_ok L \<Longrightarrow> buckets_of u (due_buckets u now L) L"
  unfolding due_buckets_def by (rule snapshot_buckets) (auto simp: table_ok_def is_due_def)

definition open_buckets :: "string \<Rightarrow> int \<Rightarrow> ledger \<Rightarrow> ledger" where
  "open_buckets u now L = expiring_buckets u now L @ perpetual_buckets u L"

lemma open_snapshot:
  assumes "table_ok L"
  shows "buckets_of u (open_buckets u now L) L"
proof -
  have ids: "distinct (map le_id L)" using assms by (simp add: table_ok_def)
  have a: "buckets_of u (expiring_buckets u now L) L"
    unfolding expiring_buckets_def by (rule snapshot_buckets [OF ids]) simp
  have b: "buckets_of u (perpetual_buckets u L) L"
    unfolding perpetual_buckets_def by (rule snapshot_buckets [OF ids]) simp
  have "le_id ` set (expiring_buckets u now L) \<inter> le_id ` set (perpetual_buckets u L) = {}"
  proof (rule ccontr)
    assume "le_id ` set (expiring_buckets u now L) \<inter> le_id ` set (perpetual_buckets u L) \<noteq> {}"
    then obtain x y where "x \<in> set (expiring_buckets u now L)" "y \<in> set (perpetual_buckets u L)" "le_id x = le_id y"
      by fastforce
    moreover from this have "x = y" using unique_row [OF ids] a b by (auto simp: buckets_of_def)
    ultimately show False by (auto simp: expiring_buckets_def perpetual_buckets_def)
  qed
  then show ?thesis using a b unfolding open_buckets_def buckets_of_def by auto
qed

definition nothing_due :: "string \<Rightarrow> int \<Rightarrow> ledger \<Rightarrow> bool" where
  "nothing_due u now L \<longleftrightarrow> (\<forall>e\<in>set L. \<not> is_due u now e)"

lemma sum_insort_key: "sum_list (map f (insort_key k x xs)) = f x + (sum_list (map f xs) :: int)"
  by (induction xs) simp_all

lemma sum_sort_key: "sum_list (map f (sort_key k xs)) = (sum_list (map f xs) :: int)"
  by (induction xs) (simp_all add: sum_insort_key)

lemma open_sum:
  assumes "\<forall>e\<in>set L. entry_ok e" "nothing_due u now L"
  shows "sum_list (map remaining_of (open_buckets u now L)) = open_total u L"
  unfolding open_buckets_def expiring_buckets_def perpetual_buckets_def map_append sum_list.append sum_sort_key
    open_total_def
  using assms
proof (induction L)
  case (Cons e L)
  then have "0 \<le> remaining_of e" "\<not> is_due u now e" "nothing_due u now L"
    using entry_ok_remaining_nonneg by (auto simp: nothing_due_def)
  then show ?case using Cons by (cases "le_expiresAt e") (auto simp: is_due_def)
qed simp

lemma allocate_drains:
  assumes "table_ok L" "nothing_due u now L" "0 \<le> credits"
  shows "drained u (min credits (open_total u L)) L (allocateDebit u credits now L)"
proof -
  have "0 \<le> open_total u L"
    unfolding open_total_def using assms(1) entry_ok_remaining_nonneg
    by (intro sum_list_map_nonneg) (auto simp: table_ok_def)
  moreover have "sum_list (map remaining_of (open_buckets u now L)) = open_total u L"
    using assms by (intro open_sum) (auto simp: table_ok_def)
  ultimately show ?thesis
    using allocate_loop_drains [OF assms(1) open_snapshot [OF assms(1)], of u credits now] assms(3)
    by (simp add: allocateDebit_def open_buckets_def [symmetric] max_def)
qed

section \<open>Closing what is due\<close>

lemma expire_due_laws:
  assumes "table_ok L" "ids_fresh db"
  obtains shut L' where "expireDueBucketsInTx db u now L = Some (shut, L')"
    "lapsed u (sumDueRemaining u now L) L L'" "nothing_due u now L'"
proof -
  have "sum_list (map remaining_of (due_buckets u now L)) = sumDueRemaining u now L"
    by (simp add: due_buckets_def sum_sort_key sumDueRemaining_def)
  with expire_loop_lapses [OF assms due_snapshot [OF assms(1)], of u now]
  obtain shut L' where L': "expireDueBucketsInTx db u now L = Some (shut, L')"
      "lapsed u (sumDueRemaining u now L) L L'"
      "\<And>e. e \<in> set L' \<Longrightarrow> e \<in> set L \<or> remaining_of e = 0"
      "\<And>e. e \<in> set L' \<Longrightarrow> le_id e \<in> le_id ` set (due_buckets u now L) \<Longrightarrow> remaining_of e = 0"
    unfolding expireDueBucketsInTx_def by auto
  have "\<not> is_due u now e" if "e \<in> set L'" for e
  proof
    assume due: "is_due u now e"
    then have "e \<in> set L" using L'(3) [OF that] by (auto simp: is_due_def)
    then have "e \<in> set (due_buckets u now L)" using due by (simp add: due_buckets_def)
    then have "remaining_of e = 0" using L'(4) [OF that] by blast
    then show False using due by (simp add: is_due_def)
  qed
  then show thesis using that L'(1,2) by (simp add: nothing_due_def)
qed

lemma lapsed_unbacked: "lapsed u t L L' \<Longrightarrow> unbacked v L' = unbacked v L"
  by (simp add: lapsed_def unbacked_def)

lemma lapsed_keys:
  assumes "lapsed u t L L'" "e \<in> set L'"
  shows "(\<exists>i. le_idempotencyKey e = Some (expiry_key i)) \<or> le_idempotencyKey e \<in> le_idempotencyKey ` set L"
proof -
  obtain old new where L': "L' = old @ new" "list_all2 shrinks L old" "\<forall>e\<in>set new. is_expiry e"
    using assms(1) by (auto simp: lapsed_def extends_def)
  show ?thesis
  proof (cases "e \<in> set new")
    case False
    then obtain i where i: "i < length old" "e = old ! i" using assms(2) L'(1) by (auto simp: in_set_conv_nth)
    then have "i < length L" "shrinks (L ! i) e" using L'(2) by (auto simp: list_all2_conv_all_nth)
    then have "L ! i \<in> set L" "le_idempotencyKey e = le_idempotencyKey (L ! i)"
      using frozen_eqD(9) [of e "L ! i"] by (auto simp: shrinks_def)
    then show ?thesis by (metis imageI)
  qed (use L'(3) in \<open>auto simp: is_expiry_def\<close>)
qed


section \<open>Recording a movement\<close>

definition plain_key :: "string option \<Rightarrow> bool" where
  "plain_key k \<longleftrightarrow> (\<forall>i. k \<noteq> Some (expiry_key i))"

lemma new_entry_simps [simp]:
  "le_id (new_entry db w a L) = db_newId db L" "le_userId (new_entry db w a L) = lw_userId w"
  "le_kind (new_entry db w a L) = lw_kind w" "le_amountCredits (new_entry db w a L) = a"
  "le_idempotencyKey (new_entry db w a L) = lw_idempotencyKey w"
  "le_balanceAfter (new_entry db w a L) = sumBalance (lw_userId w) L + a"
  "remaining_of (new_entry db w a L) = (if a > 0 then a else 0)"
  "le_refType (new_entry db w a L) = lw_refType w" "le_refId (new_entry db w a L) = lw_refId w"
  "le_createdAt (new_entry db w a L) = db_clock db"
  by (simp_all add: new_entry_def remaining_of_def)

lemma new_entry_ok: "entry_ok (new_entry db w a L)"
  by (simp add: new_entry_def entry_ok_def remaining_of_def)

lemma save_table_ok:
  assumes "table_ok L" "ids_fresh db" "save_entry (new_entry db w a L) L = Some L'" "plain_key (lw_idempotencyKey w)"
  shows "table_ok L'"
  using assms(2,4) by (intro append_table_ok [OF assms(1,3) _ new_entry_ok]) (auto simp: ids_fresh_def plain_key_def)

lemma violated_key:
  assumes "lapsed u t L0 L" "k \<noteq> None" "k \<in> le_idempotencyKey ` set L" "plain_key k"
  shows "k \<in> le_idempotencyKey ` set L0"
proof -
  obtain e where "e \<in> set L" "le_idempotencyKey e = k" using assms(3) by auto
  then show ?thesis using lapsed_keys [OF assms(1), of e] assms(4) by (auto simp: plain_key_def)
qed

text \<open>What the locked part of a movement may do.\<close>

definition debit_effect :: "string \<Rightarrow> int \<Rightarrow> int \<Rightarrow> ledger \<Rightarrow> ledger \<Rightarrow> bool" where
  "debit_effect u a now L1 L' \<longleftrightarrow> L' = (if a < 0 then allocateDebit u (- a) now L1 else L1)"

lemma record_locked_cases:
  assumes ok: "table_ok L0" and fresh: "ids_fresh db" and plain: "plain_key (lw_idempotencyKey w)"
  obtains
    (violation) "record_locked db now w opts L0 = None" "lw_idempotencyKey w \<noteq> None"
      "lw_idempotencyKey w \<in> le_idempotencyKey ` set L0"
  | (refused) L res where "record_locked db now w opts L0 = Some (res, L)"
      "lapsed (lw_userId w) (sumDueRemaining (lw_userId w) now L0) L0 L"
      "res = GrantSkipped (sumBalance (lw_userId w) L) \<and> 0 < lw_amountCredits w \<and> clamped_amount w opts L \<le> 0 \<or>
       res = BalanceInsufficient (sumBalance (lw_userId w) L) \<and>
         (\<exists>m. ro_minBalanceAfter opts = Some m \<and> sumBalance (lw_userId w) L + clamped_amount w opts L < m)"
  | (wrote) L L' where "lapsed (lw_userId w) (sumDueRemaining (lw_userId w) now L0) L0 L"
      "nothing_due (lw_userId w) now L"
      "save_entry (new_entry db w (clamped_amount w opts L) L) L = Some (L @ [new_entry db w (clamped_amount w opts L) L])"
      "debit_effect (lw_userId w) (clamped_amount w opts L) now (L @ [new_entry db w (clamped_amount w opts L) L]) L'"
      "record_locked db now w opts L0 = Some (EntryCreated (new_entry db w (clamped_amount w opts L) L), L')"
      "0 < lw_amountCredits w \<Longrightarrow> 0 < clamped_amount w opts L"
      "\<And>m. ro_minBalanceAfter opts = Some m \<Longrightarrow> m \<le> sumBalance (lw_userId w) L + clamped_amount w opts L"
proof -
  let ?u = "lw_userId w"
  obtain shut L where L: "expireDueBucketsInTx db ?u now L0 = Some (shut, L)"
      "lapsed ?u (sumDueRemaining ?u now L0) L0 L" "nothing_due ?u now L"
    using expire_due_laws [OF ok fresh] .
  let ?a = "clamped_amount w opts L"
  let ?e = "new_entry db w ?a L"
  note run = record_locked_def L(1) option.case prod.case Let_def
  consider (skip) "0 < lw_amountCredits w \<and> ?a \<le> 0"
    | (floor) m where "\<not> (0 < lw_amountCredits w \<and> ?a \<le> 0)" "ro_minBalanceAfter opts = Some m"
        "sumBalance ?u L + ?a < m"
    | (go) "\<not> (0 < lw_amountCredits w \<and> ?a \<le> 0)"
        "\<And>m. ro_minBalanceAfter opts = Some m \<Longrightarrow> m \<le> sumBalance ?u L + ?a"
    by (cases "ro_minBalanceAfter opts") (fastforce simp: not_less)+
  then show thesis
  proof cases
    case skip
    then have "record_locked db now w opts L0 = Some (GrantSkipped (sumBalance ?u L), L)" by (simp add: run)
    then show thesis using L(2) skip by (intro refused) auto
  next
    case floor
    then have "record_locked db now w opts L0 = Some (BalanceInsufficient (sumBalance ?u L), L)" by (simp add: run)
    then show thesis using L(2) floor by (intro refused) auto
  next
    case go
    have pass: "\<not> (case ro_minBalanceAfter opts of None \<Rightarrow> False | Some m \<Rightarrow> sumBalance ?u L + ?a < m)"
      using go(2) by (auto split: option.splits simp: not_less)
    show thesis
    proof (cases "save_entry ?e L")
      case None
      then have "record_locked db now w opts L0 = None" using go(1) pass by (simp add: run)
      moreover have "lw_idempotencyKey w \<noteq> None" "lw_idempotencyKey w \<in> le_idempotencyKey ` set L"
        using None by (simp_all add: save_entry_None)
      ultimately show thesis using violated_key [OF L(2) _ _ plain] violation by blast
    next
      case (Some L1)
      then have L1: "L1 = L @ [?e]" by (simp add: save_entry_Some)
      have "record_locked db now w opts L0
          = Some (EntryCreated ?e, if ?a < 0 then allocateDebit ?u (- ?a) now L1 else L1)"
        using go(1) pass Some by (simp add: run)
      then show thesis
        using go Some L(2,3) unfolding L1 by (intro wrote [of L]) (auto simp: debit_effect_def)
    qed
  qed
qed


text \<open>A debit or a credit written as one row and, for a debit, taken out of the open buckets.\<close>

definition moved :: "string \<Rightarrow> int \<Rightarrow> ledger \<Rightarrow> ledger \<Rightarrow> bool" where
  "moved u a L L' \<longleftrightarrow> table_ok L' \<and> extends (\<lambda>_. True) L L' \<and>
     (\<forall>v. sumBalance v L' = sumBalance v L + (if v = u then a else 0) \<and>
        open_total v L' = open_total v L +
          (if v = u then (if a < 0 then - min (- a) (open_total u L) else a) else 0))"

lemma extends_True_trans: "extends (\<lambda>_. True) L L1 \<Longrightarrow> extends (\<lambda>_. True) L1 L2 \<Longrightarrow> extends (\<lambda>_. True) L L2"
  by (rule extends_trans) simp_all

lemma extends_True: "extends P L L' \<Longrightarrow> extends (\<lambda>_. True) L L'"
  by (erule extends_mono) simp

lemma wrote_moves:
  assumes ok: "table_ok (L @ [e])" and nodue: "nothing_due u now L" and e: "le_userId e = u"
      "remaining_of e = (if le_amountCredits e > 0 then le_amountCredits e else 0)"
    and eff: "debit_effect u (le_amountCredits e) now (L @ [e]) L'"
  shows "moved u (le_amountCredits e) L L'"
proof (cases "le_amountCredits e < 0")
  case True
  have "nothing_due u now (L @ [e])" using nodue e(2) True by (auto simp: nothing_due_def is_due_def)
  from allocate_drains [OF ok this, of "- le_amountCredits e"] True eff
  have "drained u (min (- le_amountCredits e) (open_total u (L @ [e]))) (L @ [e]) L'"
    by (simp add: debit_effect_def)
  moreover have "open_total u (L @ [e]) = open_total u L" using e True by simp
  ultimately show ?thesis
    using True e extends_True_trans [OF extends_append [of _ e L] extends_True]
    by (auto simp: moved_def drained_def)
next
  case False
  then show ?thesis using eff ok e by (auto simp: debit_effect_def moved_def)
qed

lemma open_total_nonneg: "table_ok L \<Longrightarrow> 0 \<le> open_total u L"
  unfolding open_total_def using entry_ok_remaining_nonneg
  by (intro sum_list_map_nonneg) (auto simp: table_ok_def)

lemma unbacked_moved:
  assumes "moved u a L L'" "0 \<le> open_total u L"
  shows "unbacked v L' = unbacked v L + (if v = u then max 0 (- a - open_total u L) else 0)"
proof (cases "v = u")
  case True
  have sums: "sumBalance u L' = sumBalance u L + a"
    "open_total u L' = open_total u L + (if a < 0 then - min (- a) (open_total u L) else a)"
    using assms(1) by (auto simp: moved_def)
  show ?thesis unfolding True unbacked_def sums using assms(2) by (simp add: min_def max_def)
next
  case False
  then show ?thesis using assms(1) by (simp add: moved_def unbacked_def)
qed


lemma lapsed_moved_extends:
  assumes "lapsed u t L0 L" "moved v a L L'"
  shows "extends (\<lambda>_. True) L0 L'"
  using assms extends_True_trans [OF extends_True] by (auto simp: lapsed_def moved_def)

text \<open>The created row of a movement, with everything it did.\<close>

lemma record_wrote:
  assumes ok: "table_ok L0" and fresh: "ids_fresh db" and plain: "plain_key (lw_idempotencyKey w)"
    and run: "record_locked db now w opts L0 = Some (res, L')"
  shows "table_ok L' \<and> extends (\<lambda>_. True) L0 L' \<and>
    (\<forall>v. unbacked v L0 \<le> unbacked v L') \<and>
    ((\<forall>e. res \<noteq> EntryCreated e) \<longrightarrow> lapsed (lw_userId w) (sumDueRemaining (lw_userId w) now L0) L0 L')"
proof (rule record_locked_cases [OF ok fresh plain, of now opts], goal_cases violation refused wrote)
  case violation
  then show ?thesis using run by simp
next
  case (refused L res')
  then have "L' = L" using run by simp
  then show ?thesis using refused(2) lapsed_unbacked [OF refused(2)] extends_True by (auto simp: lapsed_def)
next
  case (wrote L L2)
  let ?e = "new_entry db w (clamped_amount w opts L) L"
  have eq: "L' = L2" "res = EntryCreated ?e" using wrote(5) run by simp_all
  have okL: "table_ok L" using wrote(1) by (simp add: lapsed_def)
  have "table_ok (L @ [?e])" using save_table_ok [OF okL fresh wrote(3) plain] .
  from wrote_moves [OF this wrote(2)] wrote(4)
  have moved: "moved (lw_userId w) (clamped_amount w opts L) L L2" by simp
  show ?thesis
    using moved lapsed_moved_extends [OF wrote(1) moved] unbacked_moved [OF moved open_total_nonneg [OF okL]]
      lapsed_unbacked [OF wrote(1)] unfolding eq by (auto simp: moved_def)
qed

section \<open>Reversing a refund\<close>

lemma refund_entry_simps [simp]:
  "le_id (refund_entry db w p c L) = db_newId db L" "le_userId (refund_entry db w p c L) = le_userId p"
  "le_kind (refund_entry db w p c L) = Adjustment" "le_amountCredits (refund_entry db w p c L) = - c"
  "le_idempotencyKey (refund_entry db w p c L) = Some (rf_idempotencyKey w)"
  "le_balanceAfter (refund_entry db w p c L) = sumBalance (le_userId p) L - c"
  "remaining_of (refund_entry db w p c L) = 0"
  "le_refType (refund_entry db w p c L) = Some (rf_refType w)" "le_refId (refund_entry db w p c L) = Some (rf_refId w)"
  by (simp_all add: refund_entry_def remaining_of_def)

definition credits_due :: "refund_write \<Rightarrow> ledger_entry \<Rightarrow> ledger \<Rightarrow> int" where
  "credits_due w p L = target_reversed p (rf_cumulativeRefundedCents w) - already_reversed p (rf_refType w) (rf_refId w) L"

lemma refund_locked_cases:
  assumes ok: "table_ok L0" and fresh: "ids_fresh db" and plain: "plain_key (Some (rf_idempotencyKey w))"
  obtains
    (violation) "refund_locked db now w p L0 = None" "Some (rf_idempotencyKey w) \<in> le_idempotencyKey ` set L0"
      "0 < credits_due w p L0"
  | (covered) "refund_locked db now w p L0 = Some (RefundCovered, L0)" "credits_due w p L0 \<le> 0"
  | (reversed) L L' where "0 < credits_due w p L0"
      "lapsed (le_userId p) (sumDueRemaining (le_userId p) now L0) L0 L" "table_ok (L @ [refund_entry db w p (credits_due w p L0) L])"
      "moved (le_userId p) (- credits_due w p L0) L L'"
      "L' = allocateDebit (le_userId p) (credits_due w p L0) now (L @ [refund_entry db w p (credits_due w p L0) L])"
      "refund_locked db now w p L0 = Some (RefundCreated (refund_entry db w p (credits_due w p L0) L) (credits_due w p L0), L')"
proof -
  let ?u = "le_userId p" and ?c = "credits_due w p L0"
  show thesis
  proof (cases "?c \<le> 0")
    case True
    then show thesis by (intro covered) (simp_all add: refund_locked_def credits_due_def Let_def)
  next
    case False
    obtain shut L where L: "expireDueBucketsInTx db ?u now L0 = Some (shut, L)"
        "lapsed ?u (sumDueRemaining ?u now L0) L0 L" "nothing_due ?u now L"
      using expire_due_laws [OF ok fresh] .
    let ?e = "refund_entry db w p ?c L"
    have run: "refund_locked db now w p L0 = (case save_entry ?e L of None \<Rightarrow> None
        | Some L1 \<Rightarrow> Some (RefundCreated ?e ?c, allocateDebit ?u ?c now L1))"
      unfolding refund_locked_def credits_due_def [symmetric] Let_def using False L(1) by simp
    show thesis
    proof (cases "save_entry ?e L")
      case None
      then have none: "refund_locked db now w p L0 = None" unfolding run by simp
      have "Some (rf_idempotencyKey w) \<in> le_idempotencyKey ` set L" using None by (simp add: save_entry_None)
      then have "Some (rf_idempotencyKey w) \<in> le_idempotencyKey ` set L0"
        using violated_key [OF L(2) _ _ plain] by simp
      then show thesis using violation none False by simp
    next
      case (Some L1)
      then have L1: "L1 = L @ [?e]" by (simp add: save_entry_Some)
      have "entry_ok ?e" using False by (simp add: refund_entry_def entry_ok_def)
      then have tab: "table_ok (L @ [?e])"
        using append_table_ok [OF _ Some [unfolded L1]] L(2) fresh plain
        by (auto simp: lapsed_def ids_fresh_def plain_key_def)
      have "moved ?u (- ?c) L (allocateDebit ?u ?c now (L @ [?e]))"
        using wrote_moves [OF tab L(3)] False by (simp add: debit_effect_def)
      then show thesis using reversed L(2) tab run Some False unfolding L1 by simp
    qed
  qed
qed

end
