(* ===== verification/Credit_Machine.thy ===== *)
theory Credit_Machine
  imports Credit_Tx
begin

text \<open>
  All writers of the ledger as a transition system: movements, refunds and the expiry sweep, in any
  order and with rivals committing inside each transaction. A locale states what an idempotent writer
  promises and what follows for at-least-once delivery; both keyed writers interpret it.
\<close>

section \<open>Idempotent writers\<close>

locale idempotent_writer =
  fixes run :: "'q \<Rightarrow> 's \<Rightarrow> 's" and key_of :: "'q \<Rightarrow> 'k option" and has_key :: "'k \<Rightarrow> 's \<Rightarrow> bool"
  assumes keys_stay: "has_key k s \<Longrightarrow> has_key k (run q s)"
    and rerun: "key_of q = Some k \<Longrightarrow> has_key k s \<Longrightarrow> run q s = s"
begin

lemma fold_keeps_key: "has_key k s \<Longrightarrow> has_key k (fold run qs s)"
  by (induction qs arbitrary: s) (auto intro: keys_stay)

text \<open>A delivery that was already settled changes nothing, wherever it arrives.\<close>

lemma redelivery:
  assumes "key_of q = Some k" "has_key k (fold run before s)"
  shows "fold run (before @ q # after) s = fold run (before @ after) s"
  using rerun [OF assms] by simp

lemma redeliveries:
  assumes "\<And>q. q \<in> set again \<Longrightarrow> \<exists>k. key_of q = Some k \<and> has_key k s"
  shows "fold run again s = s"
  using assms
proof (induction again)
  case (Cons q qs)
  then have "run q s = s" using rerun by fastforce
  then show ?case using Cons by simp
qed simp

end

section \<open>The keyed writers\<close>

definition has_key :: "string \<Rightarrow> ledger \<Rightarrow> bool" where
  "has_key k L \<longleftrightarrow> findByIdempotencyKey k L \<noteq> None"

definition ledger_keys :: "ledger \<Rightarrow> string option set" where
  "ledger_keys L = le_idempotencyKey ` set L"

lemma has_key_iff: "has_key k L \<longleftrightarrow> Some k \<in> ledger_keys L"
  by (simp add: has_key_def find_key_None ledger_keys_def)

lemma extends_keys:
  assumes "extends P L L'"
  shows "ledger_keys L \<subseteq> ledger_keys L'"
proof
  fix k
  assume "k \<in> ledger_keys L"
  then obtain e where e: "e \<in> set L" "k = le_idempotencyKey e" unfolding ledger_keys_def by blast
  from assms e(1) obtain e' where "e' \<in> set L'" "shrinks e e'" by (rule extends_row)
  then have "le_idempotencyKey e' = k" using e(2) frozen_eqD(9) unfolding shrinks_def by metis
  then show "k \<in> ledger_keys L'" using \<open>e' \<in> set L'\<close> unfolding ledger_keys_def by blast
qed

lemma save_keys: "save_entry e L = Some L' \<Longrightarrow> ledger_keys L \<subseteq> ledger_keys L'"
  unfolding save_entry_Some ledger_keys_def by auto

lemma set_remaining_ledger_keys [simp]: "ledger_keys (set_remaining i r L) = ledger_keys L"
  unfolding ledger_keys_def by (rule set_remaining_keys)

lemma allocate_loop_keys: "ledger_keys (allocate_loop bs left L) = ledger_keys L"
  by (induction bs left L rule: allocate_loop.induct) (auto simp: Let_def)

lemma allocate_keys: "ledger_keys (allocateDebit u c now L) = ledger_keys L"
  by (simp add: allocateDebit_def allocate_loop_keys)

lemma expire_loop_keys:
  "expire_loop db u bs L = Some (shut, L') \<Longrightarrow> ledger_keys L \<subseteq> ledger_keys L'"
proof (induction bs arbitrary: L shut)
  case (Cons b bs)
  consider (skip) "remaining_of b \<le> 0" | (again) "\<not> remaining_of b \<le> 0"
      "findByIdempotencyKey (expiry_key (le_id b)) L \<noteq> None"
    | (close) L1 shut1 where "save_entry (expiry_entry db u b L) L = Some L1"
        "expire_loop db u bs (set_remaining (le_id b) 0 L1) = Some (shut1, L')"
    using Cons.prems by (auto split: option.splits if_splits)
  then show ?case
  proof cases
    case skip
    then show ?thesis using Cons.prems Cons.IH by simp
  next
    case again
    then show ?thesis using Cons.prems Cons.IH [of "set_remaining (le_id b) 0 L"] by simp
  next
    case close
    then show ?thesis using save_keys [OF close(1)] Cons.IH [OF close(2)] by simp
  qed
qed simp

text \<open>The writes of a locked part: what was due is closed, then at most one row is saved and allocated.\<close>

definition writes_once :: "database \<Rightarrow> string \<Rightarrow> int \<Rightarrow> ledger \<Rightarrow> ledger \<Rightarrow> bool" where
  "writes_once db u now L0 L' \<longleftrightarrow> (\<exists>shut L. expireDueBucketsInTx db u now L0 = Some (shut, L) \<and>
     (L' = L \<or> (\<exists>e L1 c. save_entry e L = Some L1 \<and> (L' = L1 \<or> L' = allocateDebit u c now L1))))"

lemma writes_once_keys: "writes_once db u now L0 L' \<Longrightarrow> ledger_keys L0 \<subseteq> ledger_keys L'"
  unfolding writes_once_def expireDueBucketsInTx_def
  by (elim exE conjE disjE) (use expire_loop_keys save_keys allocate_keys in \<open>blast+\<close>)

lemma record_locked_writes:
  assumes "record_locked db now w opts L0 = Some (res, L')"
  shows "writes_once db (lw_userId w) now L0 L'"
proof (cases "expireDueBucketsInTx db (lw_userId w) now L0")
  case None
  then show ?thesis using assms by (simp add: record_locked_def)
next
  case (Some r)
  obtain shut L where r: "r = (shut, L)" by (cases r)
  consider "L' = L" | e L1 where "save_entry e L = Some L1"
      "L' = L1 \<or> L' = allocateDebit (lw_userId w) (- clamped_amount w opts L) now L1"
    using assms unfolding record_locked_def Some r option.case prod.case Let_def
    by (auto split: option.splits if_splits)
  then show ?thesis using Some unfolding r writes_once_def by cases blast+
qed

lemma refund_locked_writes:
  assumes "refund_locked db now w p L0 = Some (res, L')"
  shows "L' = L0 \<or> writes_once db (le_userId p) now L0 L'"
proof (cases "credits_due w p L0 \<le> 0")
  case True
  then show ?thesis using assms unfolding refund_locked_def credits_due_def [symmetric] Let_def by simp
next
  case False
  then obtain shut L where L: "expireDueBucketsInTx db (le_userId p) now L0 = Some (shut, L)"
    using assms unfolding refund_locked_def credits_due_def [symmetric] Let_def by (auto split: option.splits)
  obtain e L1 c where "save_entry e L = Some L1" "L' = allocateDebit (le_userId p) c now L1"
    using assms False L unfolding refund_locked_def credits_due_def [symmetric] Let_def by (auto split: option.splits)
  then show ?thesis using L unfolding writes_once_def by blast
qed

text \<open>What an operation may leave behind: the table it saw, or one locked part on it.\<close>

lemma record_outcome:
  assumes "recordAtomic db rival now w opts L = (r, L')"
  shows "L' = L \<or> L' = rival L \<or> (\<exists>res. record_locked db now w opts (rival L) = Some (res, L'))"
  using assms by (auto simp: recordAtomic_def Let_def split: option.splits if_splits)

lemma refund_outcome:
  assumes "recordCumulativeRefundAtomic db rival now w L = (r, L')"
  shows "L' = L \<or> L' = rival L \<or> (\<exists>p res. findLatestByRef (rf_refType w) (rf_refId w) L = Some p \<and>
    0 < le_amountCredits p \<and> refund_locked db now w p (rival L) = Some (res, L'))"
  using assms by (auto simp: recordCumulativeRefundAtomic_def split: option.splits if_splits)

text \<open>A delivery: the request with its clock, against the database alone.\<close>

definition movement :: "database \<times> int \<times> ledger_write \<times> record_options \<Rightarrow> ledger \<Rightarrow> ledger" where
  "movement q L = (case q of (db, now, w, opts) \<Rightarrow> snd (recordAtomic db id now w opts L))"

definition movement_key :: "database \<times> int \<times> ledger_write \<times> record_options \<Rightarrow> string option" where
  "movement_key q = (case q of (db, now, w, opts) \<Rightarrow>
     if truthy_key (lw_idempotencyKey w) then lw_idempotencyKey w else None)"

definition refund :: "database \<times> int \<times> refund_write \<Rightarrow> ledger \<Rightarrow> ledger" where
  "refund q L = (case q of (db, now, w) \<Rightarrow> snd (recordCumulativeRefundAtomic db id now w L))"

definition refund_key :: "database \<times> int \<times> refund_write \<Rightarrow> string option" where
  "refund_key q = (case q of (db, now, w) \<Rightarrow> Some (rf_idempotencyKey w))"

lemma movement_keeps: "ledger_keys L \<subseteq> ledger_keys (movement q L)"
proof -
  obtain db now w opts where q: "q = (db, now, w, opts)" by (cases q)
  obtain r L' where run: "recordAtomic db id now w opts L = (r, L')" by (cases "recordAtomic db id now w opts L")
  from record_outcome [OF this] show ?thesis
    unfolding movement_def q using run writes_once_keys record_locked_writes by fastforce
qed

lemma refund_keeps: "ledger_keys L \<subseteq> ledger_keys (refund q L)"
proof -
  obtain db now w where q: "q = (db, now, w)" by (cases q)
  obtain r L' where run: "recordCumulativeRefundAtomic db id now w L = (r, L')"
    by (cases "recordCumulativeRefundAtomic db id now w L")
  from refund_outcome [OF this] show ?thesis
    unfolding refund_def q using run writes_once_keys refund_locked_writes by fastforce
qed

lemma movement_rerun: "movement_key q = Some k \<Longrightarrow> has_key k L \<Longrightarrow> movement q L = L"
  unfolding movement_def movement_key_def has_key_def
  by (cases q) (auto simp: recordAtomic_def split: if_splits)

lemma refund_rerun: "refund_key q = Some k \<Longrightarrow> has_key k L \<Longrightarrow> refund q L = L"
  unfolding refund_def refund_key_def has_key_def
  by (cases q) (auto simp: recordCumulativeRefundAtomic_def)

interpretation movements: idempotent_writer movement movement_key has_key
proof unfold_locales
  show "has_key k (movement q L)" if "has_key k L" for k q L
    using that movement_keeps [of L q] unfolding has_key_iff by (rule subsetD [rotated])
qed (rule movement_rerun)

interpretation refunds: idempotent_writer refund refund_key has_key
proof unfold_locales
  show "has_key k (refund q L)" if "has_key k L" for k q L
    using that refund_keeps [of L q] unfolding has_key_iff by (rule subsetD [rotated])
qed (rule refund_rerun)


section \<open>Reachable ledgers\<close>

text \<open>
  \<open>reachable L0 L\<close>: writers took the ledger from \<open>L0\<close> to \<open>L\<close>. A writer sees the ledger, rivals
  move it on, and the writer's locked part runs on what they left.
\<close>

inductive reachable :: "ledger \<Rightarrow> ledger \<Rightarrow> bool" where
  reach_refl: "reachable L L"
| reach_record: "reachable L0 L \<Longrightarrow> reachable L (rival L) \<Longrightarrow> ids_fresh db \<Longrightarrow>
    plain_key (lw_idempotencyKey w) \<Longrightarrow> recordAtomic db rival now w opts L = (r, L') \<Longrightarrow> reachable L0 L'"
| reach_refund: "reachable L0 L \<Longrightarrow> reachable L (rival L) \<Longrightarrow> ids_fresh db \<Longrightarrow>
    plain_key (Some (rf_idempotencyKey w)) \<Longrightarrow>
    recordCumulativeRefundAtomic db rival now w L = (q, L') \<Longrightarrow> reachable L0 L'"
| reach_expire: "reachable L0 L \<Longrightarrow> ids_fresh db \<Longrightarrow> expireDueBuckets db u now L = (x, L') \<Longrightarrow> reachable L0 L'"

definition grows :: "ledger \<Rightarrow> ledger \<Rightarrow> bool" where
  "grows L L' \<longleftrightarrow> ledger_ok L' \<and> extends (\<lambda>_. True) L L' \<and> (\<forall>v. unbacked v L \<le> unbacked v L')"

lemma grows_refl: "ledger_ok L \<Longrightarrow> grows L L"
  by (simp add: grows_def)

lemma grows_trans: "grows L L1 \<Longrightarrow> grows L1 L2 \<Longrightarrow> grows L L2"
  unfolding grows_def using extends_True_trans order_trans by blast

lemma grows_ok: "grows L L' \<Longrightarrow> ledger_ok L'"
  by (simp add: grows_def)

lemma growsI:
  assumes "ledger_ok L" "table_ok L'" "extends (\<lambda>_. True) L L'" "\<And>v. unbacked v L \<le> unbacked v L'"
  shows "grows L L'"
proof -
  have "0 \<le> unbacked v L'" for v using assms(1,4) order_trans unfolding ledger_ok_def by blast
  then show ?thesis using assms by (simp add: grows_def ledger_ok_def)
qed

lemma lapsed_grows: "ledger_ok L \<Longrightarrow> lapsed u t L L' \<Longrightarrow> grows L L'"
  by (rule growsI) (auto simp: lapsed_def unbacked_def intro: extends_True)

lemma record_locked_grows:
  assumes "ledger_ok L0" "ids_fresh db" "plain_key (lw_idempotencyKey w)"
    "record_locked db now w opts L0 = Some (res, L')"
  shows "grows L0 L'"
  using record_wrote [OF _ assms(2-4)] assms(1) by (intro growsI) (auto simp: ledger_ok_def)

lemma refund_locked_grows:
  assumes ok: "ledger_ok L0" and h: "ids_fresh db" "plain_key (Some (rf_idempotencyKey w))"
    and run: "refund_locked db now w p L0 = Some (res, L')"
  shows "grows L0 L'"
proof -
  have tab: "table_ok L0" using ok by (simp add: ledger_ok_def)
  show ?thesis
  proof (rule refund_locked_cases [OF tab h, of now p], goal_cases violation covered reversed)
    case violation
    then show ?case using run by simp
  next
    case covered
    then show ?case using run ok grows_refl by simp
  next
    case (reversed L L2)
    have L: "grows L0 L" using lapsed_grows [OF ok reversed(2)] .
    then have "table_ok L" by (simp add: grows_def ledger_ok_def)
    from unbacked_moved [OF reversed(4) open_total_nonneg [OF this]] reversed(4)
    have "grows L L2" using grows_ok [OF L] by (intro growsI) (auto simp: moved_def)
    then show ?case using grows_trans [OF L] reversed(6) run by simp
  qed
qed

lemma expire_grows:
  assumes ok: "ledger_ok L" and fresh: "ids_fresh db" and run: "expireDueBuckets db u now L = (x, L')"
  shows "grows L L'"
proof -
  have tab: "table_ok L" using ok by (simp add: ledger_ok_def)
  show ?thesis
    by (rule expire_due_laws [OF tab fresh, of u now])
      (use run lapsed_grows [OF ok] in \<open>auto simp: expireDueBuckets_def\<close>)
qed

lemma reachable_grows: "reachable L0 L \<Longrightarrow> ledger_ok L0 \<Longrightarrow> grows L0 L"
proof (induction rule: reachable.induct)
  case (reach_refl L)
  then show ?case by (rule grows_refl)
next
  case (reach_record L0 L rival db w now opts r L')
  have L: "grows L0 L" using reach_record by blast
  have R: "grows L0 (rival L)" using reach_record grows_ok [OF L] grows_trans [OF L] by blast
  from record_outcome [OF reach_record.hyps(5)] show ?case
    using L R grows_trans [OF R record_locked_grows [OF grows_ok [OF R] reach_record.hyps(3,4)]] by blast
next
  case (reach_refund L0 L rival db w now q L')
  have L: "grows L0 L" using reach_refund by blast
  have R: "grows L0 (rival L)" using reach_refund grows_ok [OF L] grows_trans [OF L] by blast
  from refund_outcome [OF reach_refund.hyps(5)] show ?case
    using L R grows_trans [OF R refund_locked_grows [OF grows_ok [OF R] reach_refund.hyps(3,4)]] by blast
next
  case (reach_expire L0 L db u now x L')
  then have L: "grows L0 L" by blast
  then show ?case using grows_trans [OF L expire_grows [OF grows_ok [OF L]]] reach_expire.hyps by blast
qed

end
