(* ===== verification/Js_Date.thy ===== *)
theory Js_Date
  imports Js_Number
begin

text \<open>
  The parts of the JavaScript \<open>Date\<close> the sources use, in UTC: the civil date of an instant in
  milliseconds and back (proleptic Gregorian calendar, as ECMAScript defines it), and the
  \<open>YYYY-MM-DD\<close> prefix of \<open>toISOString\<close> for the years 0 to 9999.
\<close>

definition DAY_MS :: int where
  "DAY_MS = 86400000"

text \<open>Days are counted in eras of 400 years that start on the first of March.\<close>

definition days_from_civil :: "int \<Rightarrow> int \<Rightarrow> int \<Rightarrow> int" where
  "days_from_civil y m d =
     (let y1 = (if m \<le> 2 then y - 1 else y);
          yoe = y1 mod 400;
          doy = (153 * (if m > 2 then m - 3 else m + 9) + 2) div 5 + d - 1;
          doe = yoe * 365 + yoe div 4 - yoe div 100 + doy
      in (y1 div 400) * 146097 + doe - 719468)"

definition civil_from_days :: "int \<Rightarrow> int \<times> int \<times> int" where
  "civil_from_days z0 =
     (let z = z0 + 719468;
          doe = z mod 146097;
          yoe = (doe - doe div 1460 + doe div 36524 - doe div 146096) div 365;
          doy = doe - (365 * yoe + yoe div 4 - yoe div 100);
          mp = (5 * doy + 2) div 153;
          d = doy - (153 * mp + 2) div 5 + 1;
          m = (if mp < 10 then mp + 3 else mp - 9)
      in (yoe + (z div 146097) * 400 + (if m \<le> 2 then 1 else 0), m, d))"

text \<open>\<open>Date.UTC(year, month, 1)\<close> for a month that may overflow the year.\<close>

definition utc_month_start :: "int \<Rightarrow> int \<Rightarrow> int" where
  "utc_month_start year month0 = days_from_civil (year + month0 div 12) (month0 mod 12 + 1) 1 * DAY_MS"

definition pad :: "nat \<Rightarrow> string \<Rightarrow> string" where
  "pad n s = replicate (n - length s) CHR ''0'' @ s"

definition iso_date :: "int \<Rightarrow> string" where
  "iso_date ms = (case civil_from_days (ms div DAY_MS) of (y, m, d) \<Rightarrow>
     pad 4 (decimal (nat y)) @ ''-'' @ pad 2 (decimal (nat m)) @ ''-'' @ pad 2 (decimal (nat d)))"

end
