(* ===== verification/Credit_Service.thy ===== *)
theory Credit_Service
  imports Credit_Machine Js_Date
begin

text \<open>
  \<open>CreditLedgerService\<close> of \<open>subscriptions/credits/credit-ledger.service.ts\<close> with the conversion of
  \<open>subscriptions/billing/credit-pricebook.ts\<close>: recorded movements, the debit of a run, the daily
  grants, the expiry sweep and the paginated reads. The configuration values are parameters. Rates are
  exact rationals: the rounding of binary floating point is not modelled.
\<close>

section \<open>Recording\<close>

datatype ledger_error =
    NotAnInteger js_number
  | ZeroAmount
  | RefTypeRequired
  | InsufficientCredits string int int
  | InvalidCredits js_number
  | InvalidPeriod string
  | UniqueViolation

record record_call =
  rc_userId :: string
  rc_kind :: ledger_kind
  rc_amountCredits :: js_number
  rc_organizationId :: "string option"
  rc_tenantId :: "string option"
  rc_costCentsRef :: "int option"
  rc_refType :: "string option"
  rc_refId :: "string option"
  rc_description :: "string option"
  rc_idempotencyKey :: "string option"
  rc_allowNegativeBalance :: "bool option"
  rc_maxBalanceAfter :: "int option"
  rc_maxRefTypeAmountInWindow :: "(int \<times> int \<times> int) option"
  rc_expiresAt :: "int option"

definition call_write :: "record_call \<Rightarrow> int \<Rightarrow> ledger_write" where
  "call_write c a = \<lparr>lw_userId = rc_userId c, lw_organizationId = rc_organizationId c,
     lw_tenantId = rc_tenantId c, lw_kind = rc_kind c, lw_amountCredits = a,
     lw_costCentsRef = rc_costCentsRef c, lw_refType = rc_refType c, lw_refId = rc_refId c,
     lw_description = rc_description c, lw_idempotencyKey = rc_idempotencyKey c,
     lw_expiresAt = (if a > 0 then rc_expiresAt c else None)\<rparr>"

definition call_options :: "bool \<Rightarrow> record_call \<Rightarrow> int \<Rightarrow> record_options" where
  "call_options allowOverdraft c a =
     \<lparr>ro_minBalanceAfter =
        (if a < 0 \<and> \<not> (case rc_allowNegativeBalance c of None \<Rightarrow> allowOverdraft | Some b \<Rightarrow> b)
         then Some 0 else None),
      ro_maxBalanceAfter = rc_maxBalanceAfter c,
      ro_maxRefTypeAmountInWindow = (case rc_maxRefTypeAmountInWindow c of None \<Rightarrow> None
        | Some (lo, hi, m) \<Rightarrow> Some \<lparr>rw_refType = the (rc_refType c), rw_from = lo, rw_to = hi, rw_maxAmountCredits = m\<rparr>)\<rparr>"

text \<open>\<open>record\<close>: \<open>Inr None\<close> is the grant a ceiling clamped away.\<close>

definition record_entry ::
  "bool \<Rightarrow> database \<Rightarrow> (ledger \<Rightarrow> ledger) \<Rightarrow> int \<Rightarrow> record_call \<Rightarrow> ledger
     \<Rightarrow> (ledger_error + ledger_entry option) \<times> ledger" where
  "record_entry allowOverdraft db rival now c L =
     (case integer_of (rc_amountCredits c) of
        None \<Rightarrow> (Inl (NotAnInteger (rc_amountCredits c)), L)
      | Some a \<Rightarrow>
         (if a = 0 then (Inl ZeroAmount, L)
          else if rc_maxRefTypeAmountInWindow c \<noteq> None \<and> \<not> truthy_key (rc_refType c) then (Inl RefTypeRequired, L)
          else (case recordAtomic db rival now (call_write c a) (call_options allowOverdraft c a) L of
              (Inl _, L') \<Rightarrow> (Inl UniqueViolation, L')
            | (Inr (EntryCreated e), L') \<Rightarrow> (Inr (Some e), L')
            | (Inr (EntryIdempotent e), L') \<Rightarrow> (Inr (Some e), L')
            | (Inr (GrantSkipped _), L') \<Rightarrow> (Inr None, L')
            | (Inr (BalanceInsufficient b), L') \<Rightarrow> (Inl (InsufficientCredits (rc_userId c) \<bar>a\<bar> b), L'))))"

definition hasEntry :: "string \<Rightarrow> ledger \<Rightarrow> bool" where
  "hasEntry key L \<longleftrightarrow> findByIdempotencyKey key L \<noteq> None"

section \<open>The debit of a run\<close>

definition creditsForProviderCostCents :: "js_number \<Rightarrow> rat \<Rightarrow> rat \<Rightarrow> int" where
  "creditsForProviderCostCents costCents creditsPerDollar marginPercent =
     (case costCents of
        Fin c \<Rightarrow> if c \<le> 0 then 0 else \<lceil>c * (creditsPerDollar / 100) * (1 + marginPercent / 100)\<rceil>
      | _ \<Rightarrow> 0)"

record credits_config =
  cf_creditsPerDollar :: rat
  cf_marginPercent :: rat
  cf_allowOverdraft :: bool

record run_debit =
  rd_userId :: string
  rd_runId :: string
  rd_costCents :: int
  rd_credits :: "js_number option"
  rd_organizationId :: "string option"
  rd_tenantId :: "string option"
  rd_description :: "string option"

definition run_key :: "string \<Rightarrow> string" where
  "run_key runId = ''run:'' @ runId"

definition debit_credits :: "credits_config \<Rightarrow> run_debit \<Rightarrow> js_number" where
  "debit_credits cf rd = (case rd_credits rd of Some c \<Rightarrow> c
     | None \<Rightarrow> Fin (of_int (creditsForProviderCostCents (Fin (of_int (rd_costCents rd)))
                (cf_creditsPerDollar cf) (cf_marginPercent cf))))"

definition run_call :: "run_debit \<Rightarrow> int \<Rightarrow> record_call" where
  "run_call rd credits = \<lparr>rc_userId = rd_userId rd, rc_kind = Consumption,
     rc_amountCredits = Fin (of_int (- credits)), rc_organizationId = rd_organizationId rd,
     rc_tenantId = rd_tenantId rd, rc_costCentsRef = Some (rd_costCents rd), rc_refType = Some ''agent-run'',
     rc_refId = Some (rd_runId rd),
     rc_description = Some (case rd_description rd of None \<Rightarrow> ''Run '' @ rd_runId rd | Some d \<Rightarrow> d),
     rc_idempotencyKey = Some (run_key (rd_runId rd)), rc_allowNegativeBalance = None,
     rc_maxBalanceAfter = None, rc_maxRefTypeAmountInWindow = None, rc_expiresAt = None\<rparr>"

definition consumeForRun ::
  "credits_config \<Rightarrow> database \<Rightarrow> (ledger \<Rightarrow> ledger) \<Rightarrow> int \<Rightarrow> run_debit \<Rightarrow> ledger
     \<Rightarrow> (ledger_error + ledger_entry option) \<times> ledger" where
  "consumeForRun cf db rival now rd L =
     (case integer_of (debit_credits cf rd) of
        None \<Rightarrow> (Inl (InvalidCredits (debit_credits cf rd)), L)
      | Some credits \<Rightarrow>
          if credits < 0 then (Inl (InvalidCredits (debit_credits cf rd)), L)
          else if credits = 0 then (Inr None, L)
          else record_entry (cf_allowOverdraft cf) db rival now (run_call rd credits) L)"

section \<open>Daily grants\<close>

datatype grant_outcome = Granted | AlreadyGranted | SkippedGrant

definition daily_key :: "string \<Rightarrow> string \<Rightarrow> string" where
  "daily_key userId date = ''daily:'' @ userId @ '':'' @ date"

definition daily_call :: "string \<Rightarrow> string \<Rightarrow> js_number \<Rightarrow> record_call" where
  "daily_call userId date level = \<lparr>rc_userId = userId, rc_kind = DailyFree, rc_amountCredits = level,
     rc_organizationId = None, rc_tenantId = None, rc_costCentsRef = None, rc_refType = None,
     rc_refId = None, rc_description = Some (''Daily free credits ('' @ date @ '')''),
     rc_idempotencyKey = Some (daily_key userId date), rc_allowNegativeBalance = None,
     rc_maxBalanceAfter = None, rc_maxRefTypeAmountInWindow = None, rc_expiresAt = None\<rparr>"

text \<open>\<open>EntitlementsService.getNumber\<close>: what it returns for a plan is a parameter, a finite number.\<close>

definition grantDailyForPlan ::
  "bool \<Rightarrow> (string \<Rightarrow> rat) \<Rightarrow> database \<Rightarrow> (ledger \<Rightarrow> ledger) \<Rightarrow> int \<Rightarrow> string \<Rightarrow> string \<Rightarrow> string \<Rightarrow> ledger
     \<Rightarrow> (ledger_error + grant_outcome) \<times> ledger" where
  "grantDailyForPlan allowOverdraft level db rival now userId plan date L =
     (if level plan \<le> 0 then (Inr SkippedGrant, L)
      else if findByIdempotencyKey (daily_key userId date) L \<noteq> None then (Inr AlreadyGranted, L)
      else (case record_entry allowOverdraft db rival now (daily_call userId date (Fin (level plan))) L of
          (Inl err, L') \<Rightarrow> (Inl err, L')
        | (Inr None, L') \<Rightarrow> (Inr SkippedGrant, L')
        | (Inr (Some e), L') \<Rightarrow> (Inr Granted, L')))"

record grant_summary =
  gs_granted :: nat
  gs_skipped :: nat
  gs_alreadyGranted :: nat
  gs_scanned :: nat
  gs_failed :: nat

definition count_outcome :: "(ledger_error + grant_outcome) \<Rightarrow> grant_summary \<Rightarrow> grant_summary" where
  "count_outcome r s0 =
     (let s = s0\<lparr>gs_scanned := gs_scanned s0 + 1\<rparr> in
      case r of
        Inr Granted \<Rightarrow> s\<lparr>gs_granted := gs_granted s + 1\<rparr>
      | Inr AlreadyGranted \<Rightarrow> s\<lparr>gs_alreadyGranted := gs_alreadyGranted s + 1\<rparr>
      | Inr SkippedGrant \<Rightarrow> s\<lparr>gs_skipped := gs_skipped s + 1\<rparr>
      | Inl _ \<Rightarrow> s\<lparr>gs_skipped := gs_skipped s + 1, gs_failed := gs_failed s + 1\<rparr>)"

text \<open>An active user: the id and the code of the default plan.\<close>

type_synonym active_user = "string \<times> string option"

definition plan_code :: "string \<Rightarrow> active_user \<Rightarrow> string" where
  "plan_code defaultPlan u = (if truthy_key (snd u) then the (snd u) else defaultPlan)"

definition grant_one ::
  "bool \<Rightarrow> (string \<Rightarrow> rat) \<Rightarrow> string \<Rightarrow> database \<Rightarrow> int \<Rightarrow> string \<Rightarrow> active_user
     \<Rightarrow> grant_summary \<times> ledger \<Rightarrow> grant_summary \<times> ledger" where
  "grant_one allowOverdraft level defaultPlan db now date u st =
     (case grantDailyForPlan allowOverdraft level db id now (fst u) (plan_code defaultPlan u) date (snd st) of
        (r, L') \<Rightarrow> (count_outcome r (fst st), L'))"

text \<open>\<open>clock\<close> is the time of each write, \<open>now\<close> the instant whose UTC date is granted. The pages of \<open>findActiveBatch(skip, take)\<close> over the active users in their fixed order.\<close>

function grant_pages ::
  "(active_user \<Rightarrow> 's \<Rightarrow> 's) \<Rightarrow> nat \<Rightarrow> active_user list \<Rightarrow> nat \<Rightarrow> 's \<Rightarrow> 's" where
  "grant_pages step batch active skip st =
     (let users = take batch (drop skip active) in
      if users = [] then st
      else if length users < batch then fold step users st
      else grant_pages step batch active (skip + batch) (fold step users st))"
  by pat_completeness auto
termination
  by (relation "measure (\<lambda>(step, batch, active, skip, st). length active - skip)") auto

declare grant_pages.simps [simp del]

definition empty_summary :: grant_summary where
  "empty_summary = \<lparr>gs_granted = 0, gs_skipped = 0, gs_alreadyGranted = 0, gs_scanned = 0, gs_failed = 0\<rparr>"

definition dispatchDailyGrants ::
  "bool \<Rightarrow> (string \<Rightarrow> rat) \<Rightarrow> string \<Rightarrow> nat \<Rightarrow> database \<Rightarrow> int \<Rightarrow> int \<Rightarrow> active_user list \<Rightarrow> ledger
     \<Rightarrow> grant_summary \<times> ledger" where
  "dispatchDailyGrants allowOverdraft level defaultPlan batch db clock now active L =
     grant_pages (grant_one allowOverdraft level defaultPlan db clock (iso_date now)) batch active 0 (empty_summary, L)"

section \<open>The expiry sweep\<close>

text \<open>A violation closes nothing; the call for one user rethrows it, the sweep logs it and goes on.\<close>

record expiry_summary =
  xs_users :: nat
  xs_buckets :: nat
  xs_credits :: int

definition expireOne :: "database \<Rightarrow> int \<Rightarrow> string \<Rightarrow> expiry_summary \<times> ledger \<Rightarrow> expiry_summary \<times> ledger" where
  "expireOne db now u st = (case expireDueBuckets db u now (snd st) of
     (None, L') \<Rightarrow> (fst st, L')
   | (Some shut, L') \<Rightarrow>
       ((if shut = [] then fst st
         else (fst st)\<lparr>xs_users := xs_users (fst st) + 1, xs_buckets := xs_buckets (fst st) + length shut,
                xs_credits := xs_credits (fst st) + sum_list (map snd shut)\<rparr>), L'))"

text \<open>At most \<open>passes\<close> batches; a failing user is logged and skipped.\<close>

fun expire_passes :: "nat \<Rightarrow> database \<Rightarrow> int \<Rightarrow> nat \<Rightarrow> expiry_summary \<times> ledger \<Rightarrow> expiry_summary \<times> ledger" where
  "expire_passes 0 db now batch st = st"
| "expire_passes (Suc passes) db now batch st =
     (let users = findUsersWithDueBuckets now batch (snd st) in
      if users = [] then st
      else if length users < batch then fold (expireOne db now) users st
      else expire_passes passes db now batch (fold (expireOne db now) users st))"

definition expireDueCredits ::
  "database \<Rightarrow> int \<Rightarrow> nat \<Rightarrow> string option \<Rightarrow> ledger \<Rightarrow> expiry_summary \<times> ledger" where
  "expireDueCredits db now batch userId L =
     (let st = (\<lparr>xs_users = 0, xs_buckets = 0, xs_credits = 0\<rparr>, L) in
      if truthy_key userId then expireOne db now (the userId) st
      else expire_passes 1000 db now batch st)"

section \<open>Paginated reads\<close>

definition DEFAULT_PAGE_SIZE :: int where "DEFAULT_PAGE_SIZE = 25"
definition MAX_PAGE_SIZE :: int where "MAX_PAGE_SIZE = 100"

definition js_trunc :: "rat \<Rightarrow> int" where
  "js_trunc x = (if x < 0 then \<lceil>x\<rceil> else \<lfloor>x\<rfloor>)"

text \<open>\<open>PERIOD_RE\<close> and the month it names.\<close>

definition parse_period :: "string \<Rightarrow> (int \<times> int) option" where
  "parse_period p =
     (if length p = 7 \<and> list_all is_digit (take 4 p) \<and> p ! 4 = CHR ''-'' \<and> list_all is_digit (drop 5 p) \<and>
         1 \<le> decimal_value (drop 5 p) \<and> decimal_value (drop 5 p) \<le> 12
      then Some (int (decimal_value (take 4 p)), int (decimal_value (drop 5 p))) else None)"

definition findForUser ::
  "string \<Rightarrow> (int \<times> int) option \<Rightarrow> ledger_kind list option \<Rightarrow> nat \<Rightarrow> nat \<Rightarrow> ledger \<Rightarrow> ledger \<times> nat" where
  "findForUser u window kinds skip_n take_n L =
     (let rows = filter (\<lambda>e. le_userId e = u \<and>
            (case window of None \<Rightarrow> True | Some (lo, hi) \<Rightarrow> lo \<le> le_createdAt e \<and> le_createdAt e \<le> hi) \<and>
            (case kinds of None \<Rightarrow> True | Some ks \<Rightarrow> ks = [] \<or> le_kind e \<in> set ks)) L
      in (take take_n (drop skip_n (sort_key (\<lambda>e. - le_createdAt e) rows)), length rows))"

record ledger_page =
  lp_entries :: ledger
  lp_total :: nat
  lp_page :: int
  lp_pageSize :: int

definition getLedger ::
  "string \<Rightarrow> string option \<Rightarrow> ledger_kind list option \<Rightarrow> rat option \<Rightarrow> rat option \<Rightarrow> ledger
     \<Rightarrow> ledger_error + ledger_page" where
  "getLedger u period kinds page0 size0 L =
     (let page = max 1 (case page0 of None \<Rightarrow> 1 | Some p \<Rightarrow> js_trunc p);
          size = min MAX_PAGE_SIZE (max 1 (case size0 of None \<Rightarrow> DEFAULT_PAGE_SIZE | Some s \<Rightarrow> js_trunc s));
          window = (if truthy_key period
                    then (case parse_period (the period) of None \<Rightarrow> Inl (InvalidPeriod (the period))
                          | Some (y, mth) \<Rightarrow> Inr (Some (utc_month_start y (mth - 1), utc_month_start y mth)))
                    else Inr None)
      in (case window of
            Inl e \<Rightarrow> Inl e
          | Inr w \<Rightarrow> (case findForUser u w kinds (nat ((page - 1) * size)) (nat size) L of
              (entries, n) \<Rightarrow> Inr \<lparr>lp_entries = entries, lp_total = n, lp_page = page, lp_pageSize = size\<rparr>)))"

end
