(* ===== verification/Credit_Wallet.thy ===== *)
theory Credit_Wallet
  imports Credit_Service
begin

text \<open>
  The abstract view of one user's credits: what is live (open and not lapsed) and the debt an
  overdraft left. The ledger refines it: closing lapsed buckets is invisible, a guarded debit is
  \<open>spend\<close>.
\<close>

record wallet =
  live :: int
  debt :: int

definition available :: "wallet \<Rightarrow> int" where
  "available w = live w - debt w"

definition spend :: "int \<Rightarrow> wallet \<Rightarrow> wallet option" where
  "spend a w = (if a \<le> available w then Some (w\<lparr>live := live w - a\<rparr>) else None)"

definition wallet_of :: "string \<Rightarrow> int \<Rightarrow> ledger \<Rightarrow> wallet" where
  "wallet_of u now L = \<lparr>live = open_total u L - sumDueRemaining u now L, debt = unbacked u L\<rparr>"

lemma available_balance: "available (wallet_of u now L) = getBalance u now L"
  by (simp add: available_def wallet_of_def getBalance_def unbacked_def)

lemma nothing_due_sum: "nothing_due u now L \<Longrightarrow> sumDueRemaining u now L = 0"
  unfolding sumDueRemaining_def nothing_due_def by (simp add: filter_False)

lemma lapsed_wallet:
  assumes "lapsed u (sumDueRemaining u now L0) L0 L" "nothing_due u now L"
  shows "wallet_of u now L = wallet_of u now L0"
  using assms(1) nothing_due_sum [OF assms(2)]
  by (simp add: wallet_of_def lapsed_unbacked [OF assms(1)]) (simp add: lapsed_def)

lemma nothing_due_drained:
  assumes "drained v t L L'" "nothing_due u now L"
  shows "nothing_due u now L'"
proof -
  obtain old new where L': "L' = old @ new" "list_all2 shrinks L old" "set new = {}"
    using assms(1) by (auto simp: drained_def extends_def)
  have "\<not> is_due u now (old ! i)" if "i < length old" for i
  proof -
    have s: "shrinks (L ! i) (old ! i)" and i: "L ! i \<in> set L"
      using L'(2) that by (auto simp: list_all2_conv_all_nth)
    then have "le_userId (old ! i) = le_userId (L ! i)" "le_expiresAt (old ! i) = le_expiresAt (L ! i)"
      "remaining_of (old ! i) \<le> remaining_of (L ! i)"
      using frozen_eqD(2,10) unfolding shrinks_def by metis+
    then show ?thesis using assms(2) i by (auto simp: nothing_due_def is_due_def split: option.splits)
  qed
  then show ?thesis using L' by (auto simp: nothing_due_def in_set_conv_nth)
qed

lemma wrote_nothing_due:
  assumes ok: "table_ok (L @ [e])" and nodue: "nothing_due u now L" and e: "remaining_of e = 0"
    and neg: "le_amountCredits e < 0" and eff: "debit_effect u (le_amountCredits e) now (L @ [e]) L'"
  shows "nothing_due u now L'"
proof -
  have "nothing_due u now (L @ [e])" using nodue e by (auto simp: nothing_due_def is_due_def)
  from nothing_due_drained [OF allocate_drains [OF ok this] this, of "- le_amountCredits e"] neg eff
  show ?thesis by (simp add: debit_effect_def)
qed

definition guarded :: record_options where
  "guarded = \<lparr>ro_minBalanceAfter = Some 0, ro_maxBalanceAfter = None, ro_maxRefTypeAmountInWindow = None\<rparr>"

lemma guarded_floor [simp]: "ro_minBalanceAfter guarded = Some 0"
  by (simp add: guarded_def)

lemma clamped_guarded [simp]: "clamped_amount w guarded L = lw_amountCredits w"
  by (simp add: clamped_amount_def guarded_def)

text \<open>A guarded debit on a ledger where its key is free.\<close>

lemma guarded_debit:
  assumes ok: "ledger_ok L0" and fresh: "ids_fresh db" and plain: "plain_key (lw_idempotencyKey w)"
    and unused: "lw_idempotencyKey w \<notin> ledger_keys L0" and a: "lw_amountCredits w = - a" "0 < a"
  obtains
    (paid) L' e where "record_locked db now w guarded L0 = Some (EntryCreated e, L')"
      "spend a (wallet_of (lw_userId w) now L0) = Some (wallet_of (lw_userId w) now L')"
      "le_amountCredits e = - a" "le_idempotencyKey e = lw_idempotencyKey w" "le_userId e = lw_userId w"
  | (refused) L' where "record_locked db now w guarded L0
        = Some (BalanceInsufficient (getBalance (lw_userId w) now L0), L')"
      "spend a (wallet_of (lw_userId w) now L0) = None"
      "wallet_of (lw_userId w) now L' = wallet_of (lw_userId w) now L0"
proof (rule record_locked_cases [OF _ fresh plain, of L0 now guarded], goal_cases ok violation refused wrote)
  case ok
  show ?case using assms(1) by (simp add: ledger_ok_def)
next
  case violation
  then show ?case using unused by (simp add: ledger_keys_def)
next
  let ?u = "lw_userId w"
  case (refused L res)
  obtain shut L2 where exp: "expireDueBucketsInTx db ?u now L0 = Some (shut, L2)"
      "lapsed ?u (sumDueRemaining ?u now L0) L0 L2" "nothing_due ?u now L2"
    using expire_due_laws [of L0 db ?u now] assms(1) fresh by (auto simp: ledger_ok_def)
  have res: "res = BalanceInsufficient (sumBalance ?u L)" "sumBalance ?u L < a"
    using refused(5) a by auto
  have "L = L2"
    using refused(3) res unfolding record_locked_def exp(1) option.case prod.case Let_def
    by (auto split: if_splits option.splits)
  then have w: "wallet_of ?u now L = wallet_of ?u now L0" using lapsed_wallet exp(2,3) by blast
  moreover have "getBalance ?u now L = sumBalance ?u L"
    using nothing_due_sum exp(3) \<open>L = L2\<close> by (simp add: getBalance_def)
  ultimately have bal: "sumBalance ?u L = getBalance ?u now L0" by (metis available_balance)
  then have "spend a (wallet_of ?u now L0) = None" using res(2) by (simp add: spend_def available_balance)
  then show ?case using \<open>L = L2\<close> refused(3) res(1) bal w that(2) by simp
next
  let ?u = "lw_userId w"
  case (wrote L L')
  let ?e = "new_entry db w (- a) L"
  have save: "save_entry ?e L = Some (L @ [?e])" and eff: "debit_effect ?u (- a) now (L @ [?e]) L'"
    and run: "record_locked db now w guarded L0 = Some (EntryCreated ?e, L')"
    using wrote(5,6,7) a by simp_all
  have okL: "table_ok L" using wrote(3) by (simp add: lapsed_def)
  have tab: "table_ok (L @ [?e])" using save_table_ok [OF okL fresh save plain] .
  have moved: "moved ?u (- a) L L'" using wrote_moves [OF tab wrote(4)] eff a by simp
  have nodue: "nothing_due ?u now L'" using wrote_nothing_due [OF tab wrote(4) _ _] eff a by simp
  have w0: "wallet_of ?u now L = wallet_of ?u now L0" using lapsed_wallet [OF wrote(3,4)] .
  have bal: "a \<le> sumBalance ?u L" using wrote(9) [of 0] a by simp
  have "0 \<le> unbacked ?u L" using assms(1) lapsed_unbacked [OF wrote(3)] by (simp add: ledger_ok_def)
  then have "a \<le> open_total ?u L" using bal by (simp add: unbacked_def)
  then have "wallet_of ?u now L' = (wallet_of ?u now L)\<lparr>live := live (wallet_of ?u now L) - a\<rparr>"
    using moved a unbacked_moved [OF moved open_total_nonneg [OF okL]] nothing_due_sum [OF nodue]
      nothing_due_sum [OF wrote(4)]
    by (simp add: wallet_of_def moved_def)
  moreover have "a \<le> available (wallet_of ?u now L)"
    using bal nothing_due_sum [OF wrote(4)] by (simp add: available_balance getBalance_def)
  ultimately have "spend a (wallet_of ?u now L0) = Some (wallet_of ?u now L')" by (simp add: spend_def w0)
  then show ?case using that(1) run by simp
qed


section \<open>The row an operation returns\<close>

definition has_row :: "ledger_entry \<Rightarrow> ledger \<Rightarrow> bool" where
  "has_row e L \<longleftrightarrow> (\<exists>e'\<in>set L. frozen e' = frozen e)"

lemma has_row_set_remaining: "has_row e L \<Longrightarrow> has_row e (set_remaining i r L)"
proof -
  assume "has_row e L"
  then obtain x where x: "x \<in> set L" "frozen x = frozen e" unfolding has_row_def by blast
  let ?f = "\<lambda>e. if le_id e = i then e\<lparr>le_remainingCredits := Some r\<rparr> else e"
  have "?f x \<in> set (set_remaining i r L)" using x(1) unfolding set_remaining_def by simp
  moreover have "frozen (?f x) = frozen e" using x(2) by (simp add: frozen_def)
  ultimately show "has_row e (set_remaining i r L)" unfolding has_row_def by blast
qed

lemma has_row_allocate: "has_row e L \<Longrightarrow> has_row e (allocateDebit u c now L)"
proof -
  have "has_row e L \<Longrightarrow> has_row e (allocate_loop bs left L)" for bs left
    by (induction bs left L rule: allocate_loop.induct) (auto simp: Let_def has_row_set_remaining)
  then show "has_row e L \<Longrightarrow> has_row e (allocateDebit u c now L)" by (simp add: allocateDebit_def)
qed

lemma has_row_mem: "e \<in> set L \<Longrightarrow> has_row e L"
  unfolding has_row_def by blast

lemma has_row_extends:
  assumes "has_row e L" "extends P L L'"
  shows "has_row e L'"
proof -
  obtain x where x: "x \<in> set L" "frozen x = frozen e" using assms(1) unfolding has_row_def by blast
  from assms(2) x(1) obtain y where "y \<in> set L'" "shrinks x y" by (rule extends_row)
  then show ?thesis using x(2) unfolding has_row_def shrinks_def by metis
qed

lemma record_locked_row:
  assumes "record_locked db now w opts L0 = Some (EntryCreated e, L')"
  shows "has_row e L' \<and> le_idempotencyKey e = lw_idempotencyKey w"
proof (cases "expireDueBucketsInTx db (lw_userId w) now L0")
  case None
  then show ?thesis using assms by (simp add: record_locked_def)
next
  case (Some r)
  obtain shut L where r: "r = (shut, L)" by (cases r)
  have "\<exists>L1. e = new_entry db w (clamped_amount w opts L) L \<and> save_entry e L = Some L1 \<and>
      (L' = L1 \<or> (\<exists>c. L' = allocateDebit (lw_userId w) c now L1))"
    using assms unfolding record_locked_def Some r option.case prod.case Let_def
    by (auto split: option.splits if_splits)
  then show ?thesis using has_row_allocate has_row_mem by (auto simp: save_entry_Some)
qed

lemma record_locked_no_hit: "record_locked db now w opts L0 \<noteq> Some (EntryIdempotent e, L')"
  by (auto simp: record_locked_def Let_def split: option.splits)

lemma record_entry_row:
  assumes key: "truthy_key (rc_idempotencyKey c)"
    and run: "record_entry ov db rival now c L = (Inr (Some e), L')"
  shows "has_row e L' \<and> le_idempotencyKey e = rc_idempotencyKey c"
proof -
  obtain a where a: "integer_of (rc_amountCredits c) = Some a"
    using run by (auto simp: record_entry_def split: option.splits)
  let ?w = "call_write c a" and ?o = "call_options ov c a"
  have k: "lw_idempotencyKey ?w = rc_idempotencyKey c" by (simp add: call_write_def)
  obtain res where "recordAtomic db rival now ?w ?o L = (Inr res, L')" "res = EntryCreated e \<or> res = EntryIdempotent e"
    using run a by (auto simp: record_entry_def split: if_splits prod.splits sum.splits record_result.splits)
  then consider "record_locked db now ?w ?o (rival L) = Some (EntryCreated e, L')"
    | M where "findByIdempotencyKey (the (rc_idempotencyKey c)) M = Some e" "L' = M"
    using key k record_locked_no_hit by (auto simp: recordAtomic_def split: option.splits)
  then show ?thesis
  proof cases
    case 1
    then show ?thesis using record_locked_row [OF 1] k by simp
  next
    case 2
    then show ?thesis using find_key_SomeD [OF 2(1)] key has_row_mem by (auto simp: truthy_key_def)
  qed
qed

lemma row_is_found:
  assumes "keys_ok L" "has_row e L" "le_idempotencyKey e = Some k"
  obtains e' where "findByIdempotencyKey k L = Some e'" "frozen e' = frozen e"
proof -
  obtain x where x: "x \<in> set L" "frozen x = frozen e" using assms(2) unfolding has_row_def by blast
  have kx: "le_idempotencyKey x = Some k" using frozen_eqD(9) [OF x(2)] assms(3) by simp
  then obtain y where y: "findByIdempotencyKey k L = Some y"
    using x(1) find_key_None [of k L] by (metis imageI not_Some_eq)
  then have "y = x" using find_key_SomeD [OF y] assms(1) x(1) kx unfolding keys_ok_def by auto
  then show thesis using that y x(2) by blast
qed

section \<open>The debit of a run\<close>

lemma run_key_truthy [simp]: "truthy_key (Some (run_key r))"
  by (simp add: truthy_key_def run_key_def)

lemma run_key_plain [simp]: "plain_key (Some (run_key r))"
  by (simp add: plain_key_def run_key_def expiry_key_def)

lemma run_call_simps [simp]:
  "rc_idempotencyKey (run_call d a) = Some (run_key (rd_runId d))" "rc_userId (run_call d a) = rd_userId d"
  "rc_amountCredits (run_call d a) = Fin (of_int (- a))" "rc_maxRefTypeAmountInWindow (run_call d a) = None"
  "rc_allowNegativeBalance (run_call d a) = None" "rc_maxBalanceAfter (run_call d a) = None"
  by (simp_all add: run_call_def)

lemma run_call_write [simp]:
  "lw_idempotencyKey (call_write (run_call d a) n) = Some (run_key (rd_runId d))"
  "lw_userId (call_write (run_call d a) n) = rd_userId d" "lw_amountCredits (call_write (run_call d a) n) = n"
  by (simp_all add: call_write_def)

lemma run_call_guarded: "0 < a \<Longrightarrow> call_options False (run_call d a) (- a) = guarded"
  by (simp add: call_options_def guarded_def)

lemma integer_of_int [simp]: "integer_of (Fin (of_int i)) = Some i"
  by simp

lemma consume_positive:
  assumes "integer_of (debit_credits cf d) = Some a" "0 < a"
  shows "consumeForRun cf db rival now d L =
    (case recordAtomic db rival now (call_write (run_call d a) (- a))
            (call_options (cf_allowOverdraft cf) (run_call d a) (- a)) L of
       (Inl _, L') \<Rightarrow> (Inl UniqueViolation, L')
     | (Inr (EntryCreated e), L') \<Rightarrow> (Inr (Some e), L')
     | (Inr (EntryIdempotent e), L') \<Rightarrow> (Inr (Some e), L')
     | (Inr (GrantSkipped _), L') \<Rightarrow> (Inr None, L')
     | (Inr (BalanceInsufficient b), L') \<Rightarrow> (Inl (InsufficientCredits (rd_userId d) a b), L'))"
proof -
  have i: "integer_of (rc_amountCredits (run_call d a)) = Some (- a)"
    using integer_of_int [of "- a"] by (simp only: run_call_simps)
  show ?thesis unfolding consumeForRun_def record_entry_def assms(1) i option.case using assms(2)
    by (simp split: prod.split sum.split record_result.split)
qed

lemma consume_again:
  assumes a: "integer_of (debit_credits cf d) = Some a" "0 < a"
    and found: "findByIdempotencyKey (run_key (rd_runId d)) L = Some e"
  shows "consumeForRun cf db rival now d L = (Inr (Some e), L)"
  unfolding consume_positive [OF a] recordAtomic_def using found by simp

lemma consume_grows:
  assumes "ledger_ok L" "reachable L (rival L)" "ids_fresh db" "consumeForRun cf db rival now d L = (r, L')"
  shows "reachable L L'"
proof (cases "\<exists>a. integer_of (debit_credits cf d) = Some a \<and> 0 < a")
  case True
  then obtain a where a: "integer_of (debit_credits cf d) = Some a" "0 < a" by blast
  obtain q M where run: "recordAtomic db rival now (call_write (run_call d a) (- a))
            (call_options (cf_allowOverdraft cf) (run_call d a) (- a)) L = (q, M)" by fastforce
  have "L' = M" using assms(4) unfolding consume_positive [OF a] run by (auto split: sum.splits record_result.splits)
  then show ?thesis using reach_record [OF reach_refl assms(2,3) _ run] by simp
next
  case False
  then have "L' = L" using assms(4) by (auto simp: consumeForRun_def split: option.splits if_splits)
  then show ?thesis by (simp add: reach_refl)
qed

end
