(* ===== verification/Credit_Refund.thy ===== *)
theory Credit_Refund
  imports Credit_Wallet
begin

text \<open>
  Refund deliveries of one payment: what a delivery leaves of the purchase and of the total reversed
  so far, and the fold over any sequence of deliveries.
\<close>

lemma frozen_simps [simp]:
  "le_id (frozen e) = le_id e" "le_userId (frozen e) = le_userId e" "le_kind (frozen e) = le_kind e"
  "le_amountCredits (frozen e) = le_amountCredits e" "le_costCentsRef (frozen e) = le_costCentsRef e"
  "le_refType (frozen e) = le_refType e" "le_refId (frozen e) = le_refId e"
  "le_idempotencyKey (frozen e) = le_idempotencyKey e" "le_createdAt (frozen e) = le_createdAt e"
  by (simp_all add: frozen_def)

section \<open>Reads that ignore what remains of a bucket\<close>

lemma insort_key_map: "(\<And>x. k (g x) = k x) \<Longrightarrow> insort_key k (g x) (map g xs) = map g (insort_key k x xs)"
  by (induction xs) auto

lemma sort_key_map: "(\<And>x. k (g x) = k x) \<Longrightarrow> sort_key k (map g xs) = map g (sort_key k xs)"
  by (induction xs) (simp_all add: insort_key_map)

lemma find_latest_frozen: "findLatestByRef rt ri (map frozen L) = map_option frozen (findLatestByRef rt ri L)"
  unfolding findLatestByRef_def by (simp add: filter_map comp_def sort_key_map split: list.splits)

lemma find_latest_append:
  "\<forall>e\<in>set M. le_kind e \<noteq> Purchase \<Longrightarrow> findLatestByRef rt ri (L @ M) = findLatestByRef rt ri L"
  by (simp add: findLatestByRef_def filter_False)

lemma adjustment_frozen: "adjustment_total rt ri (map frozen L) = adjustment_total rt ri L"
  by (simp add: adjustment_total_def filter_map comp_def)

lemma adjustment_append [simp]:
  "adjustment_total rt ri (L @ M) = adjustment_total rt ri L + adjustment_total rt ri M"
  by (simp add: adjustment_total_def)

lemma adjustment_none: "\<forall>e\<in>set M. le_kind e \<noteq> Adjustment \<Longrightarrow> adjustment_total rt ri M = 0"
  by (simp add: adjustment_total_def filter_False)

lemma charged_frozen [simp]: "charged_cents (frozen p) = charged_cents p"
  by (simp add: charged_cents_def)

lemma refunded_frozen [simp]: "refunded_cents (frozen p) c = refunded_cents p c"
  by (cases c) (simp_all add: refunded_cents_def)

lemma target_frozen: "target_reversed (frozen p) c = target_reversed p c"
  by (simp add: target_reversed_def refund_share_def)

lemma target_cong: "frozen q = frozen p \<Longrightarrow> target_reversed q c = target_reversed p c"
  by (metis target_frozen)

lemma allocate_frozen: "map frozen (allocateDebit u c now L) = map frozen L"
proof -
  have "map frozen (set_remaining i r M) = map frozen M" for i r M
    by (simp add: set_remaining_def frozen_def)
  then have "map frozen (allocate_loop bs left L) = map frozen L" for bs left
    by (induction bs left L rule: allocate_loop.induct) (auto simp: Let_def)
  then show ?thesis by (simp add: allocateDebit_def)
qed

lemma lapsed_frozen:
  assumes "lapsed u t L0 L"
  obtains new where "map frozen L = map frozen L0 @ map frozen new" "\<forall>e\<in>set new. is_expiry e"
proof -
  obtain old new where L: "L = old @ new" "list_all2 shrinks L0 old" "\<forall>e\<in>set new. is_expiry e"
    using assms by (auto simp: lapsed_def extends_def)
  have "map frozen old = map frozen L0"
    using L(2) by (induction rule: list_all2_induct) (simp_all add: shrinks_def)
  then show thesis using that L by simp
qed

section \<open>One delivery\<close>

lemma target_bounds: "0 \<le> le_amountCredits p \<Longrightarrow> 0 \<le> target_reversed p c \<and> target_reversed p c \<le> le_amountCredits p"
  by (simp add: target_reversed_def)

text \<open>The purchase of a payment and how much of it is reversed.\<close>

definition refund_state :: "string \<Rightarrow> string \<Rightarrow> ledger_entry \<Rightarrow> int \<Rightarrow> ledger \<Rightarrow> bool" where
  "refund_state rt ri p n L \<longleftrightarrow> ledger_ok L \<and>
     (\<exists>q. findLatestByRef rt ri L = Some q \<and> frozen q = frozen p) \<and> 0 < le_amountCredits p \<and>
     n = - adjustment_total rt ri L \<and> 0 \<le> n \<and> n \<le> le_amountCredits p"

definition refund_of :: "string \<Rightarrow> string \<Rightarrow> database \<times> int \<times> refund_write \<Rightarrow> bool" where
  "refund_of rt ri q \<longleftrightarrow> (case q of (db, now, w) \<Rightarrow> ids_fresh db \<and> rf_refType w = rt \<and> rf_refId w = ri \<and>
     plain_key (Some (rf_idempotencyKey w)))"

abbreviation delivery_key :: "database \<times> int \<times> refund_write \<Rightarrow> string" where
  "delivery_key q \<equiv> rf_idempotencyKey (snd (snd q))"

abbreviation delivery_cents :: "database \<times> int \<times> refund_write \<Rightarrow> int option" where
  "delivery_cents q \<equiv> rf_cumulativeRefundedCents (snd (snd q))"

lemma refund_run:
  assumes st: "refund_state rt ri p n L" and q: "refund_of rt ri (db, now, w)"
    and free: "\<not> has_key (rf_idempotencyKey w) L"
  obtains p' where "findLatestByRef rt ri L = Some p'" "frozen p' = frozen p"
    "credits_due w p' L = target_reversed p (rf_cumulativeRefundedCents w) - n"
    "refund (db, now, w) L = (case refund_locked db now w p' L of Some (res, L') \<Rightarrow> L' | None \<Rightarrow> L)"
proof -
  have w: "rf_refType w = rt" "rf_refId w = ri" using q by (auto simp: refund_of_def)
  obtain p' where p': "findLatestByRef rt ri L = Some p'" "frozen p' = frozen p"
    using st by (auto simp: refund_state_def)
  have amt: "le_amountCredits p' = le_amountCredits p" "0 < le_amountCredits p"
    and n: "n = - adjustment_total rt ri L" "0 \<le> n" "n \<le> le_amountCredits p"
    using st frozen_eqD(4) [OF p'(2)] by (auto simp: refund_state_def)
  have "credits_due w p' L = target_reversed p (rf_cumulativeRefundedCents w) - n"
    using n amt w target_cong [OF p'(2)] by (simp add: credits_due_def already_reversed_def)
  moreover have "findByIdempotencyKey (rf_idempotencyKey w) L = None" using free by (simp add: has_key_def)
  then have "refund (db, now, w) L = (case refund_locked db now w p' L of Some (res, L') \<Rightarrow> L' | None \<Rightarrow> L)"
    unfolding refund_def recordCumulativeRefundAtomic_def prod.case
    using p'(1) w amt by (auto split: option.splits)
  ultimately show thesis using that p' by blast
qed

text \<open>What a reversal appends, up to what remains of the buckets.\<close>

lemma reversal_rows:
  assumes "lapsed u t L0 L1" "L' = allocateDebit u c now (L1 @ [e])" "le_kind e = Adjustment"
  shows "adjustment_total rt ri L' = adjustment_total rt ri L0 + adjustment_total rt ri [e]"
    "map_option frozen (findLatestByRef rt ri L') = map_option frozen (findLatestByRef rt ri L0)"
    "ledger_keys L' = insert (le_idempotencyKey e) (ledger_keys L1)"
proof -
  obtain new where new: "map frozen L1 = map frozen L0 @ map frozen new" "\<forall>e\<in>set new. is_expiry e"
    using lapsed_frozen [OF assms(1)] .
  have rows: "map frozen L' = map frozen L0 @ (map frozen new @ [frozen e])"
    using assms(2) allocate_frozen [of u c now "L1 @ [e]"] new(1) by simp
  have "adjustment_total rt ri L' = adjustment_total rt ri (map frozen L')" by (simp add: adjustment_frozen)
  also have "\<dots> = adjustment_total rt ri L0 + adjustment_total rt ri [frozen e]"
    unfolding rows using new(2)
    by (simp add: adjustment_frozen adjustment_none is_expiry_def)
  finally show "adjustment_total rt ri L' = adjustment_total rt ri L0 + adjustment_total rt ri [e]"
    using adjustment_frozen [of rt ri "[e]"] by simp
  have "map_option frozen (findLatestByRef rt ri L') = findLatestByRef rt ri (map frozen L')"
    by (simp add: find_latest_frozen)
  also have "\<dots> = findLatestByRef rt ri (map frozen L0)"
    unfolding rows by (rule find_latest_append) (use new(2) assms(3) in \<open>auto simp: is_expiry_def\<close>)
  finally show "map_option frozen (findLatestByRef rt ri L') = map_option frozen (findLatestByRef rt ri L0)"
    by (simp add: find_latest_frozen)
  show "ledger_keys L' = insert (le_idempotencyKey e) (ledger_keys L1)"
    unfolding assms(2) allocate_keys by (simp add: ledger_keys_def)
qed

lemma delivery_step:
  assumes st: "refund_state rt ri p n L" and q: "refund_of rt ri (db, now, w)"
    and free: "\<not> has_key (rf_idempotencyKey w) L"
  shows "refund_state rt ri p (max n (target_reversed p (rf_cumulativeRefundedCents w))) (refund (db, now, w) L) \<and>
    (\<forall>k. has_key k (refund (db, now, w) L) \<and> plain_key (Some k) \<longrightarrow> has_key k L \<or> k = rf_idempotencyKey w)"
proof (rule refund_run [OF st q free])
  fix p'
  let ?t = "target_reversed p (rf_cumulativeRefundedCents w)"
  assume p': "findLatestByRef rt ri L = Some p'" "frozen p' = frozen p" and due: "credits_due w p' L = ?t - n"
    and run: "refund (db, now, w) L = (case refund_locked db now w p' L of Some (res, L') \<Rightarrow> L' | None \<Rightarrow> L)"
  have w: "ids_fresh db" "rf_refType w = rt" "rf_refId w = ri" "plain_key (Some (rf_idempotencyKey w))"
    using q by (auto simp: refund_of_def)
  have ok: "ledger_ok L" using st by (simp add: refund_state_def)
  then have tab: "table_ok L" by (simp add: ledger_ok_def)
  show ?thesis
  proof (rule refund_locked_cases [OF tab w(1,4), of now p'], goal_cases violation covered reversed)
    case violation
    then show ?case using free unfolding has_key_iff ledger_keys_def by blast
  next
    case covered
    then have "max n ?t = n" using due by simp
    then show ?case using run covered st by simp
  next
    case (reversed L1 L')
    let ?e = "refund_entry db w p' (credits_due w p' L) L1"
    have L': "refund (db, now, w) L = L'" using run reversed(6) by simp
    note rows = reversal_rows [OF reversed(2,5) refund_entry_simps(3)]
    have adj: "- adjustment_total rt ri L' = max n ?t"
      using rows(1) [of rt ri] st due reversed(1) w by (simp add: refund_state_def adjustment_total_def)
    have "\<exists>q. findLatestByRef rt ri L' = Some q \<and> frozen q = frozen p"
      using rows(2) [of rt ri] p' by simp
    moreover have "ledger_ok L'" using refund_locked_grows [OF ok w(1,4) reversed(6)] by (simp add: grows_def)
    moreover have "0 < le_amountCredits p" "0 \<le> max n ?t" "max n ?t \<le> le_amountCredits p"
      using st target_bounds [of p] by (auto simp: refund_state_def le_max_iff_disj)
    ultimately have "refund_state rt ri p (max n ?t) L'"
      using adj unfolding refund_state_def by simp
    moreover have "has_key k L \<or> k = rf_idempotencyKey w" if "has_key k L'" "plain_key (Some k)" for k
    proof -
      have "k = rf_idempotencyKey w \<or> Some k \<in> ledger_keys L1" using that(1) rows(3) by (auto simp: has_key_iff)
      then show ?thesis
        using violated_key [OF reversed(2) _ _ that(2)] unfolding has_key_iff ledger_keys_def by blast
    qed
    ultimately show ?case using L' by simp
  qed
qed

section \<open>Any sequence of deliveries\<close>

lemma deliveries_converge:
  assumes "refund_state rt ri p n L" "\<forall>q\<in>set qs. refund_of rt ri q \<and> delivery_cents q = cents (delivery_key q)"
    and "\<forall>q\<in>set qs. has_key (delivery_key q) L \<longrightarrow> target_reversed p (delivery_cents q) \<le> n"
  shows "refund_state rt ri p (fold max (map (\<lambda>q. target_reversed p (delivery_cents q)) qs) n) (fold refund qs L)"
  using assms
proof (induction qs arbitrary: n L)
  case (Cons q qs)
  obtain db now w where qq: "q = (db, now, w)" by (cases q)
  let ?t = "target_reversed p (rf_cumulativeRefundedCents w)"
  have q: "refund_of rt ri (db, now, w)" using Cons.prems(2) qq by simp
  have "refund_state rt ri p (max n ?t) (refund q L) \<and>
      (\<forall>k. has_key k (refund q L) \<and> plain_key (Some k) \<longrightarrow> has_key k L \<or> k = rf_idempotencyKey w)"
  proof (cases "has_key (rf_idempotencyKey w) L")
    case True
    then have "refund q L = L" using refunds.rerun [of q "rf_idempotencyKey w" L] by (simp add: refund_key_def qq)
    moreover have "max n ?t = n" using Cons.prems(3) True qq by simp
    ultimately show ?thesis using Cons.prems(1) by simp
  next
    case False
    then show ?thesis using delivery_step [OF Cons.prems(1) q] qq by simp
  qed
  then have st: "refund_state rt ri p (max n ?t) (refund q L)"
    and keys: "\<And>k. has_key k (refund q L) \<Longrightarrow> plain_key (Some k) \<Longrightarrow> has_key k L \<or> k = rf_idempotencyKey w" by blast+
  have settled: "target_reversed p (delivery_cents r) \<le> max n ?t"
    if "r \<in> set qs" "has_key (delivery_key r) (refund q L)" for r
  proof -
    have "plain_key (Some (delivery_key r))" using Cons.prems(2) that(1) by (auto simp: refund_of_def)
    with keys [OF that(2)] consider "has_key (delivery_key r) L" | "delivery_key r = rf_idempotencyKey w" by blast
    then show ?thesis
    proof cases
      case 1
      then have "target_reversed p (delivery_cents r) \<le> n" using Cons.prems(3) that(1) by auto
      then show ?thesis by simp
    next
      case 2
      then have "delivery_cents r = rf_cumulativeRefundedCents w" using Cons.prems(2) that(1) qq by auto
      then show ?thesis by simp
    qed
  qed
  have "refund_state rt ri p (fold max (map (\<lambda>q. target_reversed p (delivery_cents q)) qs) (max n ?t))
      (fold refund qs (refund q L))"
    using Cons.IH [OF st] Cons.prems(2) settled by simp
  then show ?case using qq by (simp add: max.commute)
qed simp

end
