(* ===== verification/Credit_Sweep.thy ===== *)
theory Credit_Sweep
  imports Credit_Wallet
begin

text \<open>
  The two sweeps over users: the daily grants, paged, and the expiry sweep, batched. A settled user is
  one for whom a further grant of the date is a no-op.
\<close>

section \<open>Paging\<close>

lemma take_drop_short: "length (take n (drop k xs)) < n \<Longrightarrow> take n (drop k xs) = drop k xs"
  by simp

lemma grant_pages_fold:
  assumes "0 < batch"
  shows "grant_pages step batch active skip st = fold step (drop skip active) st"
  using assms
proof (induction step batch active skip st rule: grant_pages.induct)
  case (1 step batch active skip st)
  let ?users = "take batch (drop skip active)"
  have split: "drop skip active = ?users @ drop (skip + batch) active"
    by (metis add.commute append_take_drop_id drop_drop)
  show ?case
  proof (cases "?users = [] \<or> length ?users < batch")
    case True
    then have "?users = drop skip active"
    proof
      assume "?users = []"
      then have "length active \<le> skip" using 1(2) by simp
      then show ?thesis by simp
    qed (rule take_drop_short)
    then show ?thesis using True by (subst grant_pages.simps) (auto simp: Let_def)
  next
    case False
    then have "grant_pages step batch active skip st = grant_pages step batch active (skip + batch) (fold step ?users st)"
      by (subst grant_pages.simps) (simp add: Let_def)
    also have "\<dots> = fold step (drop (skip + batch) active) (fold step ?users st)" using 1 False by blast
    also have "\<dots> = fold step (drop skip active) st" by (subst (2) split) simp
    finally show ?thesis .
  qed
qed

section \<open>Daily grants\<close>

lemma daily_key_simps [simp]:
  "truthy_key (Some (daily_key u date))" "plain_key (Some (daily_key u date))"
  by (simp_all add: truthy_key_def plain_key_def daily_key_def expiry_key_def)

definition settled :: "(string \<Rightarrow> rat) \<Rightarrow> string \<Rightarrow> string \<Rightarrow> active_user \<Rightarrow> ledger \<Rightarrow> bool" where
  "settled level defaultPlan date u L \<longleftrightarrow> level (plan_code defaultPlan u) \<le> 0 \<or>
     integer_of (Fin (level (plan_code defaultPlan u))) = None \<or> has_key (daily_key (fst u) date) L"

lemma daily_call_simps [simp]:
  "rc_amountCredits (daily_call u date x) = x" "rc_maxRefTypeAmountInWindow (daily_call u date x) = None"
  "rc_idempotencyKey (daily_call u date x) = Some (daily_key u date)"
  "lw_idempotencyKey (call_write (daily_call u date x) a) = Some (daily_key u date)"
  "lw_amountCredits (call_write (daily_call u date x) a) = a"
  by (simp_all add: daily_call_def call_write_def)

lemma daily_options: "0 < a \<Longrightarrow> clamped_amount w (call_options ov (daily_call u date x) a) L = lw_amountCredits w \<and>
    ro_minBalanceAfter (call_options ov (daily_call u date x) a) = None"
  by (simp add: clamped_amount_def call_options_def daily_call_def)

lemma settled_noop:
  assumes "settled level defaultPlan date u L"
  shows "\<exists>r. grantDailyForPlan ov level db rival now (fst u) (plan_code defaultPlan u) date L = (r, L) \<and> r \<noteq> Inr Granted"
  using assms by (auto simp: settled_def grantDailyForPlan_def has_key_def record_entry_def simp del: integer_of.simps)

text \<open>A grant that is not settled is written.\<close>

lemma unsettled_grant:
  assumes ok: "ledger_ok L" and fresh: "ids_fresh db" and free: "\<not> settled level defaultPlan date u L"
    and run: "grantDailyForPlan ov level db id now (fst u) (plan_code defaultPlan u) date L = (r, L')"
  shows "r = Inr Granted \<and> has_key (daily_key (fst u) date) L' \<and> reachable L L'"
proof -
  let ?x = "level (plan_code defaultPlan u)" and ?k = "daily_key (fst u) date"
  let ?c = "daily_call (fst u) date (Fin ?x)"
  obtain a where a: "integer_of (Fin ?x) = Some a" using free by (auto simp: settled_def)
  have pos: "0 < ?x" "0 < a" using free a by (auto simp: settled_def not_le split: if_splits)
  have none: "findByIdempotencyKey ?k L = None" using free by (auto simp: settled_def has_key_def)
  let ?w = "call_write ?c a" and ?o = "call_options ov ?c a"
  have tab: "table_ok L" using ok by (simp add: ledger_ok_def)
  have "\<exists>e M. record_locked db now ?w ?o L = Some (EntryCreated e, M) \<and> has_key ?k M"
  proof (rule record_locked_cases [OF tab fresh, of ?w now ?o], goal_cases plain violation refused wrote)
    case violation
    then show ?case using none by (simp add: find_key_None)
  next
    case (refused M res)
    then show ?case using pos(2) daily_options [OF pos(2)] by auto
  next
    case (wrote M L2)
    let ?e = "new_entry db ?w (clamped_amount ?w ?o M) M"
    have "has_row ?e L2" "le_idempotencyKey ?e = Some ?k"
      using record_locked_row [OF wrote(5)] by simp_all
    then obtain y where "y \<in> set L2" "le_idempotencyKey y = Some ?k"
      using frozen_eqD(9) unfolding has_row_def by metis
    then have "has_key ?k L2" unfolding has_key_iff ledger_keys_def by (metis imageI)
    then show ?case using wrote(5) by blast
  qed simp
  then obtain e M where M: "record_locked db now ?w ?o L = Some (EntryCreated e, M)" "has_key ?k M" by blast
  then have rec: "recordAtomic db id now ?w ?o L = (Inr (EntryCreated e), M)"
    using none by (simp add: recordAtomic_def)
  then have "record_entry ov db id now ?c L = (Inr (Some e), M)"
    using a pos by (simp add: record_entry_def del: integer_of.simps)
  then have "r = Inr Granted" "L' = M" using run pos none by (simp_all add: grantDailyForPlan_def)
  moreover have "reachable L M" using reach_record [OF reach_refl, of L id, OF _ fresh _ rec] by (simp add: reach_refl)
  ultimately show ?thesis using M(2) by simp
qed

lemma grant_one_step:
  assumes ok: "ledger_ok L" and fresh: "ids_fresh db"
    and run: "grant_one ov level defaultPlan db now date u (s, L) = (s', L')"
  shows "reachable L L' \<and> settled level defaultPlan date u L' \<and> gs_scanned s' = gs_scanned s + 1 \<and>
    gs_granted s' + gs_skipped s' + gs_alreadyGranted s' = gs_granted s + gs_skipped s + gs_alreadyGranted s + 1 \<and>
    (settled level defaultPlan date u L \<longrightarrow> L' = L \<and> gs_granted s' = gs_granted s)"
proof -
  obtain r where g: "grantDailyForPlan ov level db id now (fst u) (plan_code defaultPlan u) date L = (r, L')"
      "s' = count_outcome r s"
    using run by (auto simp: grant_one_def split: prod.splits)
  have counts: "gs_scanned s' = gs_scanned s + 1 \<and>
    gs_granted s' + gs_skipped s' + gs_alreadyGranted s' = gs_granted s + gs_skipped s + gs_alreadyGranted s + 1 \<and>
    (r \<noteq> Inr Granted \<longrightarrow> gs_granted s' = gs_granted s)"
    unfolding g(2) count_outcome_def Let_def by (auto split: sum.splits grant_outcome.splits)
  show ?thesis
  proof (cases "settled level defaultPlan date u L")
    case True
    then show ?thesis using settled_noop [OF True, of ov db id now] g(1) counts by (auto simp: reach_refl)
  next
    case False
    then show ?thesis using unsettled_grant [OF ok fresh False g(1)] counts by (auto simp: settled_def)
  qed
qed

lemma settled_reachable:
  assumes "settled level defaultPlan date u L" "grows L L'"
  shows "settled level defaultPlan date u L'"
  using assms extends_keys [of "\<lambda>_. True" L L'] by (auto simp: settled_def grows_def has_key_iff simp del: integer_of.simps)

lemma grant_fold:
  assumes "ledger_ok L" "ids_fresh db"
    and "fold (grant_one ov level defaultPlan db now date) us (s, L) = (s', L')"
  shows "grows L L' \<and> (\<forall>u\<in>set us. settled level defaultPlan date u L') \<and>
    gs_scanned s' = gs_scanned s + length us \<and>
    gs_granted s' + gs_skipped s' + gs_alreadyGranted s' = gs_granted s + gs_skipped s + gs_alreadyGranted s + length us"
  using assms
proof (induction us arbitrary: s L)
  case Nil
  then show ?case by (simp add: grows_refl)
next
  case (Cons u us)
  obtain s1 L1 where one: "grant_one ov level defaultPlan db now date u (s, L) = (s1, L1)" by fastforce
  note step = grant_one_step [OF Cons.prems(1,2) one]
  have g1: "grows L L1" using step reachable_grows Cons.prems(1) by blast
  have rest: "fold (grant_one ov level defaultPlan db now date) us (s1, L1) = (s', L')"
    using Cons.prems(3) one by simp
  note ih = Cons.IH [OF grows_ok [OF g1] Cons.prems(2) rest]
  have "settled level defaultPlan date u L'" using settled_reachable step ih by blast
  then show ?case using ih step grows_trans [OF g1] by simp
qed

lemma grant_fold_noop:
  assumes "\<forall>u\<in>set us. settled level defaultPlan date u L"
  shows "\<exists>s'. fold (grant_one ov level defaultPlan db now date) us (s, L) = (s', L) \<and> gs_granted s' = gs_granted s"
  using assms
proof (induction us arbitrary: s)
  case (Cons u us)
  obtain r where r: "grantDailyForPlan ov level db id now (fst u) (plan_code defaultPlan u) date L = (r, L)" "r \<noteq> Inr Granted"
    using settled_noop [of level defaultPlan date u L] Cons.prems by (metis list.set_intros(1))
  then have "grant_one ov level defaultPlan db now date u (s, L) = (count_outcome r s, L)"
    "gs_granted (count_outcome r s) = gs_granted s"
    by (auto simp: grant_one_def count_outcome_def Let_def split: sum.splits grant_outcome.splits)
  then show ?case using Cons.IH [of "count_outcome r s"] Cons.prems by simp
qed simp


lemma dispatch_fold:
  "0 < batch \<Longrightarrow> dispatchDailyGrants ov level plan batch db clock now active L
     = fold (grant_one ov level plan db clock (iso_date now)) active (empty_summary, L)"
  by (simp add: dispatchDailyGrants_def grant_pages_fold)

section \<open>The expiry sweep\<close>

text \<open>Closing one user's buckets touches nobody else's.\<close>

lemma shrinks_sum_le:
  assumes "list_all2 shrinks L old" "\<And>e e'. shrinks e e' \<Longrightarrow> Q e' = Q e"
  shows "sum_list (map remaining_of (filter Q old)) \<le> sum_list (map remaining_of (filter Q L))"
  using assms(1) by (induction rule: list_all2_induct) (auto simp: assms(2) shrinks_def)

definition lapsing :: "string \<Rightarrow> int \<Rightarrow> ledger_entry \<Rightarrow> bool" where
  "lapsing u now e \<longleftrightarrow> le_userId e = u \<and> (case le_expiresAt e of None \<Rightarrow> False | Some t \<Rightarrow> t \<le> now)"

definition staying :: "string \<Rightarrow> int \<Rightarrow> ledger_entry \<Rightarrow> bool" where
  "staying u now e \<longleftrightarrow> le_userId e = u \<and> \<not> lapsing u now e"

lemma due_sum_static:
  assumes "\<forall>e\<in>set L. entry_ok e"
  shows "sumDueRemaining u now L = sum_list (map remaining_of (filter (lapsing u now) L))"
proof -
  have "sum_list (map remaining_of (filter (is_due u now) L)) = sum_list (map remaining_of (filter (lapsing u now) L))"
    using assms
  proof (induction L)
    case (Cons e L)
    then have "0 \<le> remaining_of e" using entry_ok_remaining_nonneg by simp
    then show ?case using Cons by (auto simp: is_due_def lapsing_def)
  qed simp
  then show ?thesis by (simp add: sumDueRemaining_def)
qed

lemma open_total_split:
  "open_total u L = sum_list (map remaining_of (filter (lapsing u now) L)) + sum_list (map remaining_of (filter (staying u now) L))"
  by (induction L) (auto simp: staying_def lapsing_def)

lemma static_shrinks:
  "shrinks e e' \<Longrightarrow> lapsing u now e' = lapsing u now e" "shrinks e e' \<Longrightarrow> staying u now e' = staying u now e"
  using frozen_eqD(2,10) unfolding staying_def lapsing_def shrinks_def by metis+

lemma extended_sum_le:
  assumes "extends is_expiry L L'" "\<And>e e'. shrinks e e' \<Longrightarrow> Q e' = Q e"
  shows "sum_list (map remaining_of (filter Q L')) \<le> sum_list (map remaining_of (filter Q L))"
proof -
  obtain old new where L': "L' = old @ new" "list_all2 shrinks L old" "\<forall>e\<in>set new. is_expiry e"
    using assms(1) by (auto simp: extends_def)
  have "sum_list (map remaining_of (filter Q new)) \<le> 0"
    using L'(3) by (induction new) (auto simp: is_expiry_def)
  moreover have "sum_list (map remaining_of (filter Q old)) \<le> sum_list (map remaining_of (filter Q L))"
    by (rule shrinks_sum_le [OF L'(2)]) (rule assms(2))
  ultimately show ?thesis using L'(1) by simp
qed

lemma lapsed_other_due:
  assumes "lapsed u t L L'" "table_ok L" "v \<noteq> u"
  shows "sumDueRemaining v now L' = sumDueRemaining v now L"
proof -
  have ext: "extends is_expiry L L'" and tot: "open_total v L' = open_total v L" and ok: "table_ok L'"
    using assms by (auto simp: lapsed_def)
  have "sum_list (map remaining_of (filter (lapsing v now) L')) \<le> sum_list (map remaining_of (filter (lapsing v now) L))"
    "sum_list (map remaining_of (filter (staying v now) L')) \<le> sum_list (map remaining_of (filter (staying v now) L))"
    by (rule extended_sum_le [OF ext], rule static_shrinks(1), assumption)
      (rule extended_sum_le [OF ext], rule static_shrinks(2), assumption)
  moreover have "sumDueRemaining v now L = sum_list (map remaining_of (filter (lapsing v now) L))"
    "sumDueRemaining v now L' = sum_list (map remaining_of (filter (lapsing v now) L'))"
    using assms(2) ok by (auto intro!: due_sum_static simp: table_ok_def)
  ultimately show ?thesis
    using tot open_total_split [of v L now] open_total_split [of v L' now] by linarith
qed

lemma due_sum_zero:
  assumes "table_ok L"
  shows "sumDueRemaining u now L = 0 \<longleftrightarrow> nothing_due u now L"
proof
  show "nothing_due u now L \<Longrightarrow> sumDueRemaining u now L = 0" by (rule nothing_due_sum)
  assume z: "sumDueRemaining u now L = 0"
  have "sum_list (map remaining_of (filter (is_due u now) L)) = 0 \<Longrightarrow> nothing_due u now L"
  proof (induction L)
    case (Cons e L)
    have pos: "0 \<le> sum_list (map remaining_of (filter (is_due u now) L))"
      by (rule sum_list_map_nonneg) (auto simp: is_due_def)
    have "\<not> is_due u now e"
    proof
      assume "is_due u now e"
      then have "0 < remaining_of e" by (simp add: is_due_def)
      then show False using Cons.prems pos \<open>is_due u now e\<close> by simp
    qed
    moreover from this have "nothing_due u now L" using Cons.IH Cons.prems by simp
    ultimately show ?case by (simp add: nothing_due_def)
  qed (simp add: nothing_due_def)
  then show "nothing_due u now L" using z by (simp add: sumDueRemaining_def)
qed

text \<open>What one sweep step does to every user.\<close>

definition swept :: "int \<Rightarrow> string set \<Rightarrow> ledger \<Rightarrow> ledger \<Rightarrow> bool" where
  "swept now us L L' \<longleftrightarrow> ledger_ok L' \<and> (\<forall>v. getBalance v now L' = getBalance v now L) \<and>
     (\<forall>v. sumDueRemaining v now L' = (if v \<in> us then 0 else sumDueRemaining v now L))"

lemma swept_trans: "swept now us L L1 \<Longrightarrow> swept now vs L1 L2 \<Longrightarrow> swept now (us \<union> vs) L L2"
  by (auto simp: swept_def)

lemma expire_one_swept:
  assumes ok: "ledger_ok L" and fresh: "ids_fresh db"
  obtains s' L' where "expireOne db now u (s, L) = (s', L')" "swept now {u} L L'"
proof -
  have tab: "table_ok L" using ok by (simp add: ledger_ok_def)
  obtain shut L' where e: "expireDueBucketsInTx db u now L = Some (shut, L')"
      "lapsed u (sumDueRemaining u now L) L L'" "nothing_due u now L'"
    using expire_due_laws [OF tab fresh] .
  have due: "sumDueRemaining v now L' = (if v \<in> {u} then 0 else sumDueRemaining v now L)" for v
    using nothing_due_sum [OF e(3)] lapsed_other_due [OF e(2) tab] by auto
  moreover have "sumBalance v L' = sumBalance v L - (if v = u then sumDueRemaining u now L else 0)" for v
    using e(2) unfolding lapsed_def by blast
  then have "getBalance v now L' = getBalance v now L" for v using due by (simp add: getBalance_def)
  moreover have "ledger_ok L'" using lapsed_grows [OF ok e(2)] by (simp add: grows_def)
  ultimately have "swept now {u} L L'" by (simp add: swept_def)
  then show thesis using that e(1) by (simp add: expireOne_def expireDueBuckets_def)
qed

lemma expire_fold_swept:
  assumes "ledger_ok L" "ids_fresh db" "fold (expireOne db now) us (s, L) = (s', L')"
  shows "swept now (set us) L L'"
  using assms
proof (induction us arbitrary: s L)
  case (Cons u us)
  obtain s1 L1 where one: "expireOne db now u (s, L) = (s1, L1)" "swept now {u} L L1"
    using expire_one_swept [OF Cons.prems(1,2)] .
  have "swept now (set us) L1 L'"
    using Cons.IH [of L1 s1] Cons.prems one by (simp add: swept_def)
  from swept_trans [OF one(2) this] show ?case by simp
qed (simp add: swept_def)

section \<open>The batches\<close>

definition due_users :: "int \<Rightarrow> ledger \<Rightarrow> string set" where
  "due_users now L = {u. sumDueRemaining u now L \<noteq> 0}"

lemma listed_users:
  assumes "table_ok L"
  shows "set (remdups (map le_userId (filter (\<lambda>e. is_due (le_userId e) now e) L))) = due_users now L"
  unfolding due_users_def using due_sum_zero [OF assms] by (auto simp: nothing_due_def is_due_def)

lemma finite_due_users: "table_ok L \<Longrightarrow> finite (due_users now L)"
  unfolding listed_users [symmetric] by simp

lemma swept_due_users: "swept now us L L' \<Longrightarrow> due_users now L' = due_users now L - us"
  by (auto simp: swept_def due_users_def)

lemma expire_passes_close:
  assumes "ledger_ok L" "ids_fresh db" "0 < batch" "card (due_users now L) \<le> passes * batch"
    and "expire_passes passes db now batch (s, L) = (s', L')"
  shows "ledger_ok L' \<and> due_users now L' = {} \<and> (\<forall>v. getBalance v now L' = getBalance v now L)"
  using assms
proof (induction passes arbitrary: s L)
  case 0
  then have "due_users now L = {}" using finite_due_users by (simp add: ledger_ok_def)
  then show ?case using 0 by simp
next
  case (Suc passes)
  have tab: "table_ok L" using Suc.prems(1) by (simp add: ledger_ok_def)
  let ?all = "remdups (map le_userId (filter (\<lambda>e. is_due (le_userId e) now e) L))"
  let ?users = "findUsersWithDueBuckets now batch L"
  have users: "?users = take batch ?all" by (simp add: findUsersWithDueBuckets_def)
  have card: "card (due_users now L) = length ?all" using listed_users [OF tab] by (metis distinct_card distinct_remdups)
  obtain s1 L1 where f: "fold (expireOne db now) ?users (s, L) = (s1, L1)" by fastforce
  note sw = expire_fold_swept [OF Suc.prems(1,2) f]
  show ?case
  proof (cases "length ?users < batch")
    case True
    then have "?users = ?all" unfolding users by simp
    then have "set ?users = due_users now L" using listed_users [OF tab] by simp
    then have "due_users now L1 = {}" using swept_due_users [OF sw] by simp
    moreover have "(s', L') = (s1, L1)"
      using Suc.prems(5) True f by (cases "?users = []") (simp_all add: Let_def)
    ultimately show ?thesis using sw by (simp add: swept_def)
  next
    case False
    then have full: "length ?users = batch" unfolding users by simp
    have sub: "set ?users \<subseteq> due_users now L" unfolding users listed_users [OF tab, symmetric] by (rule set_take_subset)
    have "distinct ?users" unfolding users by simp
    then have "card (set ?users) = batch" using full distinct_card by fastforce
    then have "card (due_users now L1) = card (due_users now L) - batch"
      unfolding swept_due_users [OF sw] using sub by (simp add: card_Diff_subset)
    then have le: "card (due_users now L1) \<le> passes * batch" using Suc.prems(4) by simp
    have "?users \<noteq> []" using full Suc.prems(3) by auto
    then have "expire_passes passes db now batch (s1, L1) = (s', L')"
      using Suc.prems(5) False f by (simp add: Let_def)
    from Suc.IH [OF _ Suc.prems(2,3) le this] sw show ?thesis by (simp add: swept_def)
  qed
qed

end
