(* ===== verification/Credit_Claims.thy ===== *)
theory Credit_Claims
  imports Credit_Refund Credit_Sweep
begin

text \<open>
  The properties of the credit ledger, each with a witness on a small ledger: what every reachable
  table satisfies, that a debit is funded, the order of the allocation, the convergence of refunds,
  and the idempotence of debits, grants and the sweep.
\<close>

section \<open>A concrete database\<close>

definition demo_db :: database where
  "demo_db = \<lparr>db_newId = (\<lambda>L. CHR ''r'' # concat (map le_id L)), db_clock = 5\<rparr>"

lemma demo_fresh: "ids_fresh demo_db"
proof -
  have "length (le_id e) \<le> length (concat (map le_id L))" if "e \<in> set L" for e L
    using that by (induction L) auto
  then have "CHR ''r'' # concat (map le_id L) \<noteq> le_id e" if "e \<in> set L" for e L
    using that by (metis impossible_Cons)
  then show ?thesis by (fastforce simp: ids_fresh_def demo_db_def)
qed

definition demo_write :: "int \<Rightarrow> int option \<Rightarrow> string \<Rightarrow> ledger_write" where
  "demo_write a expires key = \<lparr>lw_userId = ''u'', lw_organizationId = None, lw_tenantId = None, lw_kind = Grant,
     lw_amountCredits = a, lw_costCentsRef = Some 100, lw_refType = Some ''pay'', lw_refId = Some ''p1'',
     lw_description = None, lw_idempotencyKey = Some key, lw_expiresAt = expires\<rparr>"

definition no_guard :: record_options where
  "no_guard = \<lparr>ro_minBalanceAfter = None, ro_maxBalanceAfter = None, ro_maxRefTypeAmountInWindow = None\<rparr>"

lemma expiry_key_first: "k \<noteq> [] \<Longrightarrow> hd k \<noteq> CHR ''e'' \<Longrightarrow> plain_key (Some k)"
  by (auto simp: plain_key_def expiry_key_def)

section \<open>Every reachable table\<close>

text \<open>C14. Whatever the writers, their order and the rivals inside their transactions, the ledger is
  append-only and reconciles: a row keeps every column but what remains of its bucket, which only
  shrinks; ids and idempotency keys are unique; a credit's remainder lies between zero and its amount
  and a debit has none; each \<open>balanceAfter\<close> is the running total of its user; and no writer lowers
  what overdrafts left uncovered.\<close>

theorem ledger_reconciles:
  assumes "ledger_ok L0" "reachable L0 L"
  shows "length L0 \<le> length L \<and>
    (\<forall>i<length L0. frozen (L ! i) = frozen (L0 ! i) \<and> remaining_of (L ! i) \<le> remaining_of (L0 ! i)) \<and>
    distinct (map le_id L) \<and> keys_ok L \<and> list_all entry_ok L \<and> running_ok L \<and>
    (\<forall>u. unbacked u L0 \<le> unbacked u L)"
proof -
  have g: "grows L0 L" using reachable_grows assms by blast
  then obtain old new where L: "L = old @ new" "list_all2 shrinks L0 old" by (auto simp: grows_def extends_def)
  then have "length L0 = length old" by (simp add: list_all2_lengthD)
  then show ?thesis
    using g L by (auto simp: grows_def ledger_ok_def table_ok_def list_all_iff list_all2_conv_all_nth nth_append shrinks_def)
qed

definition demo_ledger :: ledger where
  "demo_ledger = snd (recordAtomic demo_db id 0 (demo_write 10 (Some 20) ''g1'') no_guard [])"

lemma demo_reachable: "reachable [] demo_ledger"
  unfolding demo_ledger_def
  by (rule reach_record [OF reach_refl _ demo_fresh, where rival = id and L = "[]"])
    (simp_all add: reach_refl demo_write_def expiry_key_first prod_eq_iff)

theorem ledger_reconciles_witness: "length demo_ledger = 1 \<and> running_ok demo_ledger"
proof -
  have "length demo_ledger = 1" by code_simp
  then show ?thesis using ledger_reconciles [OF ledger_ok_Nil demo_reachable] by blast
qed


section \<open>Debits\<close>

text \<open>C15. The debit of a run refines \<open>spend\<close> on the owner's wallet of live credits and debt: with
  overdraft off and the run not yet debited, it takes exactly the converted amount out of the live
  credits when the available balance covers it, in one row keyed by the run, and otherwise fails with
  the available balance and leaves the wallet as it was.\<close>

theorem run_debit_refines_wallet:
  assumes "ledger_ok L" "ids_fresh db" "\<not> cf_allowOverdraft cf" "\<not> has_key (run_key (rd_runId d)) L"
    and "integer_of (debit_credits cf d) = Some a" "0 < a"
    and "consumeForRun cf db id now d L = (r, L')"
  shows "case spend a (wallet_of (rd_userId d) now L) of
      Some w \<Rightarrow> wallet_of (rd_userId d) now L' = w \<and> (\<exists>e. r = Inr (Some e) \<and> le_amountCredits e = - a \<and>
        le_userId e = rd_userId d \<and> le_idempotencyKey e = Some (run_key (rd_runId d)))
    | None \<Rightarrow> wallet_of (rd_userId d) now L' = wallet_of (rd_userId d) now L \<and>
        r = Inl (InsufficientCredits (rd_userId d) a (getBalance (rd_userId d) now L))"
proof -
  let ?w = "call_write (run_call d a) (- a)"
  have free: "findByIdempotencyKey (run_key (rd_runId d)) L = None"
    "lw_idempotencyKey ?w \<notin> ledger_keys L"
    using assms(4) unfolding has_key_iff by (simp_all add: find_key_None ledger_keys_def)
  have run: "recordAtomic db id now ?w guarded L = (case record_locked db now ?w guarded L of
      Some (res, M) \<Rightarrow> (Inr res, M) | None \<Rightarrow> (Inl (), L))"
    using free(1) by (simp add: recordAtomic_def split: option.splits)
  have "\<not> (0 < - a)" and opts: "call_options (cf_allowOverdraft cf) (run_call d a) (- a) = guarded"
    using assms(3,6) run_call_guarded by simp_all
  note out = assms(7) [unfolded consume_positive [OF assms(5,6)] opts run]
  show ?thesis
  proof (rule guarded_debit [OF assms(1,2) _ free(2) _ assms(6), of now], goal_cases plain amount paid refused)
    case (paid M e)
    then show ?case using out by auto
  next
    case (refused M)
    then show ?case using out by simp
  qed simp_all
qed

definition demo_config :: credits_config where
  "demo_config = \<lparr>cf_creditsPerDollar = 100, cf_marginPercent = 20, cf_allowOverdraft = False\<rparr>"

definition demo_run :: "string \<Rightarrow> int \<Rightarrow> run_debit" where
  "demo_run i cents = \<lparr>rd_userId = ''u'', rd_runId = i, rd_costCents = cents, rd_credits = None,
     rd_organizationId = None, rd_tenantId = None, rd_description = None\<rparr>"

lemma demo_ledger_ok: "ledger_ok demo_ledger"
  using reachable_grows [OF demo_reachable ledger_ok_Nil] by (simp add: grows_def)

theorem run_debit_refines_wallet_witness:
  "spend 6 (wallet_of ''u'' 1 demo_ledger) = Some \<lparr>live = 4, debt = 0\<rparr> \<and>
   wallet_of ''u'' 1 (snd (consumeForRun demo_config demo_db id 1 (demo_run ''x'' 5) demo_ledger)) = \<lparr>live = 4, debt = 0\<rparr>"
proof -
  have spend: "spend 6 (wallet_of ''u'' 1 demo_ledger) = Some \<lparr>live = 4, debt = 0\<rparr>" by code_simp
  have free: "\<not> has_key (run_key (rd_runId (demo_run ''x'' 5))) demo_ledger" by code_simp
  have a: "integer_of (debit_credits demo_config (demo_run ''x'' 5)) = Some 6" by code_simp
  obtain r L' where run: "consumeForRun demo_config demo_db id 1 (demo_run ''x'' 5) demo_ledger = (r, L')"
    by (cases "consumeForRun demo_config demo_db id 1 (demo_run ''x'' 5) demo_ledger")
  have "\<not> cf_allowOverdraft demo_config" by (simp add: demo_config_def)
  from run_debit_refines_wallet [OF demo_ledger_ok demo_fresh this free a _ run] spend run
  show ?thesis by (simp add: demo_run_def)
qed

text \<open>C16. A run is charged once: after its debit is recorded, whatever any writers do next, debiting
  the same run again, even at another cost, changes nothing and returns the recorded row.\<close>

theorem run_is_charged_once:
  assumes "ledger_ok L0" "reachable L0 (rival L0)" "ids_fresh db"
    and "consumeForRun cf db rival now d L0 = (Inr (Some e), L1)" "reachable L1 L2"
    and "rd_runId d' = rd_runId d" "integer_of (debit_credits cf' d') = Some a" "0 < a"
  shows "\<exists>e'. consumeForRun cf' db' rival' now' d' L2 = (Inr (Some e'), L2) \<and> frozen e' = frozen e"
proof -
  have g1: "grows L0 L1" using reachable_grows [OF consume_grows [OF assms(1,2,3,4)] assms(1)] .
  have g2: "grows L1 L2" using reachable_grows [OF assms(5) grows_ok [OF g1]] .
  obtain b where "record_entry (cf_allowOverdraft cf) db rival now (run_call d b) L0 = (Inr (Some e), L1)"
    using assms(4) by (auto simp: consumeForRun_def split: option.splits if_splits)
  from record_entry_row [OF _ this] have e: "has_row e L1" "le_idempotencyKey e = Some (run_key (rd_runId d'))"
    using assms(6) by simp_all
  have "has_row e L2" using has_row_extends [OF e(1)] g2 unfolding grows_def by blast
  moreover have "keys_ok L2" using grows_ok [OF g2] by (simp add: ledger_ok_def table_ok_def)
  ultimately obtain e' where "findByIdempotencyKey (run_key (rd_runId d')) L2 = Some e'" "frozen e' = frozen e"
    using row_is_found e(2) by metis
  then show ?thesis using consume_again [OF assms(7,8)] by blast
qed

theorem run_is_charged_once_witness:
  "\<exists>e'. consumeForRun demo_config demo_db id 9 (demo_run ''x'' 3)
      (snd (consumeForRun demo_config demo_db id 1 (demo_run ''x'' 5) demo_ledger))
    = (Inr (Some e'), snd (consumeForRun demo_config demo_db id 1 (demo_run ''x'' 5) demo_ledger))"
proof -
  have "case consumeForRun demo_config demo_db id 1 (demo_run ''x'' 5) demo_ledger of (Inr (Some e), L') \<Rightarrow> True | _ \<Rightarrow> False"
    by code_simp
  then obtain e L' where run: "consumeForRun demo_config demo_db id 1 (demo_run ''x'' 5) demo_ledger = (Inr (Some e), L')"
    by (auto split: prod.splits sum.splits option.splits)
  have a: "integer_of (debit_credits demo_config (demo_run ''x'' 3)) = Some 4" by code_simp
  have same: "rd_runId (demo_run ''x'' 3) = rd_runId (demo_run ''x'' 5)" by (simp add: demo_run_def)
  have start: "reachable demo_ledger (id demo_ledger)" by (simp add: reach_refl)
  from run_is_charged_once [where db' = demo_db and rival' = id and now' = 9,
      OF demo_ledger_ok start demo_fresh run reach_refl same a]
  show ?thesis unfolding run by auto
qed

section \<open>The order of the allocation\<close>

definition rank :: "ledger_entry \<Rightarrow> nat \<times> int \<times> int" where
  "rank e = (case le_expiresAt e of Some t \<Rightarrow> (0, t, le_createdAt e) | None \<Rightarrow> (1, 0, le_createdAt e))"

lemma sorted_rank:
  "sorted (map rank (open_buckets u now L))"
proof -
  let ?e = "expiring_buckets u now L" and ?p = "perpetual_buckets u L"
  have e: "rank b = (0, the (le_expiresAt b), le_createdAt b)" if "b \<in> set ?e" for b
    using that by (auto simp: expiring_buckets_def rank_def split: option.splits)
  have p: "rank b = (1, 0, le_createdAt b)" if "b \<in> set ?p" for b
    using that by (auto simp: perpetual_buckets_def rank_def)
  have "sorted (map (\<lambda>b. (the (le_expiresAt b), le_createdAt b)) ?e)" by (simp add: expiring_buckets_def)
  then have "sorted (map rank ?e)"
    using e by (auto simp: sorted_wrt_map intro: sorted_wrt_mono_rel [rotated])
  moreover have "sorted (map le_createdAt ?p)" by (simp add: perpetual_buckets_def)
  then have "sorted (map rank ?p)"
    using p by (auto simp: sorted_wrt_map intro: sorted_wrt_mono_rel [rotated])
  moreover have "rank x \<le> rank y" if "x \<in> set ?e" "y \<in> set ?p" for x y
    using e [OF that(1)] p [OF that(2)] by simp
  ultimately show ?thesis by (auto simp: open_buckets_def sorted_append)
qed

text \<open>A debit spends what expires first: of two open buckets of the user, the one that ranks
  later (a later expiry or none; among equals, created later) loses credits only if the earlier one
  is exhausted.\<close>

theorem expiring_credits_go_first:
  assumes "table_ok L" "0 \<le> credits" "a \<in> set (open_buckets u now L)" "b \<in> set (open_buckets u now L)"
    and "rank a < rank b" "remaining_in (allocateDebit u credits now L) (le_id b) < remaining_of b"
  shows "remaining_in (allocateDebit u credits now L) (le_id a) = 0"
proof -
  let ?bs = "open_buckets u now L" and ?L' = "allocateDebit u credits now L"
  note snap = open_snapshot [OF assms(1), of u now]
  obtain i j where ij: "i < length ?bs" "a = ?bs ! i" "j < length ?bs" "b = ?bs ! j"
    using assms(3,4) by (auto simp: in_set_conv_nth)
  have "i < j"
  proof (rule ccontr)
    assume "\<not> i < j"
    then have "map rank ?bs ! j \<le> map rank ?bs ! i"
      using ij sorted_rank [of u now L] by (intro sorted_nth_mono) simp_all
    then show False using ij assms(5) by simp
  qed
  have all: "map (\<lambda>b. remaining_in ?L' (le_id b)) ?bs = greedy credits (map remaining_of ?bs)"
    using allocate_loop_spends [OF assms(1) snap assms(2)] by (simp add: allocateDebit_def open_buckets_def)
  have at: "greedy credits (map remaining_of ?bs) ! k = remaining_in ?L' (le_id (?bs ! k))" if "k < length ?bs" for k
    unfolding all [symmetric] using that by simp
  have "\<forall>r\<in>set (map remaining_of ?bs). 0 \<le> r" using snap by (auto simp: buckets_of_def)
  from greedy_order [OF this assms(2) \<open>i < j\<close>] show ?thesis using at ij assms(6) by simp
qed

definition demo_two :: ledger where
  "demo_two = snd (recordAtomic demo_db id 0 (demo_write 10 None ''g2'') no_guard demo_ledger)"

lemma demo_two_ok: "ledger_ok demo_two"
proof -
  have "reachable [] demo_two"
    unfolding demo_two_def
    by (rule reach_record [OF demo_reachable _ demo_fresh, where rival = id])
      (simp_all add: reach_refl demo_write_def expiry_key_first prod_eq_iff)
  then show ?thesis using reachable_grows [OF _ ledger_ok_Nil] by (simp add: grows_def)
qed

theorem expiring_credits_go_first_witness:
  "remaining_in (allocateDebit ''u'' 12 1 demo_two) ''r'' = 0 \<and>
   remaining_in (allocateDebit ''u'' 12 1 demo_two) ''rr'' = 8"
proof -
  have ok: "table_ok demo_two" using demo_two_ok by (simp add: ledger_ok_def)
  have bs: "open_buckets ''u'' 1 demo_two = demo_two" "length demo_two = 2" by code_simp+
  have m: "demo_two ! 0 \<in> set (open_buckets ''u'' 1 demo_two)" "demo_two ! 1 \<in> set (open_buckets ''u'' 1 demo_two)"
    using nth_mem [of 0 demo_two] nth_mem [of 1 demo_two] unfolding bs by simp_all
  have r: "rank (demo_two ! 0) < rank (demo_two ! 1)" by code_simp
  have t: "remaining_in (allocateDebit ''u'' 12 1 demo_two) (le_id (demo_two ! 1)) < remaining_of (demo_two ! 1)"
    "le_id (demo_two ! 0) = ''r''" "remaining_in (allocateDebit ''u'' 12 1 demo_two) ''rr'' = 8" by code_simp+
  from expiring_credits_go_first [OF ok _ m r t(1)] t show ?thesis by simp
qed


section \<open>Refunds\<close>

text \<open>C17. Refund deliveries converge: however many deliveries of a payment's cumulative refund arrive,
  in any order and with repetitions, the credits reversed in the end are the largest target among
  what was reversed before and what the deliveries ask for, and never more than the purchase.\<close>

theorem refunds_converge:
  assumes "ledger_ok L" "findLatestByRef rt ri L = Some p" "0 < le_amountCredits p"
    and "n = - adjustment_total rt ri L" "0 \<le> n" "n \<le> le_amountCredits p"
    and "\<forall>q\<in>set qs. refund_of rt ri q \<and> delivery_cents q = cents (delivery_key q) \<and> \<not> has_key (delivery_key q) L"
  shows "- adjustment_total rt ri (fold refund qs L)
      = Max (set (n # map (\<lambda>q. target_reversed p (delivery_cents q)) qs)) \<and>
    - adjustment_total rt ri (fold refund qs L) \<le> le_amountCredits p"
proof -
  have "refund_state rt ri p n L" using assms(1-6) by (simp add: refund_state_def)
  from deliveries_converge [OF this, of qs cents] assms(7)
  show ?thesis unfolding Max.set_eq_fold by (simp add: refund_state_def)
qed

definition demo_purchase :: ledger where
  "demo_purchase = snd (recordAtomic demo_db id 0 ((demo_write 10 None ''g1'')\<lparr>lw_kind := Purchase\<rparr>) no_guard [])"

definition demo_refund :: "int \<Rightarrow> string \<Rightarrow> database \<times> int \<times> refund_write" where
  "demo_refund cents key = (demo_db, 1, \<lparr>rf_refType = ''pay'', rf_refId = ''p1'',
     rf_cumulativeRefundedCents = Some cents, rf_idempotencyKey = key, rf_description = None\<rparr>)"

theorem refunds_converge_witness:
  "- adjustment_total ''pay'' ''p1''
      (fold refund [demo_refund 50 ''k1'', demo_refund 20 ''k0'', demo_refund 50 ''k1''] demo_purchase) = 5"
proof -
  let ?qs = "[demo_refund 50 ''k1'', demo_refund 20 ''k0'', demo_refund 50 ''k1'']"
  have "reachable [] demo_purchase"
    unfolding demo_purchase_def
    by (rule reach_record [OF reach_refl _ demo_fresh, where rival = id and L = "[]"])
      (simp_all add: reach_refl demo_write_def expiry_key_first prod_eq_iff)
  then have ok: "ledger_ok demo_purchase" using reachable_grows [OF _ ledger_ok_Nil] by (simp add: grows_def)
  have p: "findLatestByRef ''pay'' ''p1'' demo_purchase = Some (hd demo_purchase)"
    "le_amountCredits (hd demo_purchase) = 10" "adjustment_total ''pay'' ''p1'' demo_purchase = 0"
    "target_reversed (hd demo_purchase) (Some 50) = 5" "target_reversed (hd demo_purchase) (Some 20) = 2" by code_simp+
  have free: "\<not> has_key ''k1'' demo_purchase" "\<not> has_key ''k0'' demo_purchase" by code_simp+
  have qs: "\<forall>q\<in>set ?qs. refund_of ''pay'' ''p1'' q \<and>
      delivery_cents q = (if delivery_key q = ''k1'' then Some 50 else Some 20) \<and> \<not> has_key (delivery_key q) demo_purchase"
    using free by (simp add: demo_refund_def refund_of_def demo_fresh expiry_key_first)
  have "- adjustment_total ''pay'' ''p1'' (fold refund ?qs demo_purchase)
      = Max (set (0 # map (\<lambda>q. target_reversed (hd demo_purchase) (delivery_cents q)) ?qs))"
    using refunds_converge [OF ok p(1) _ _ _ _ qs, of 0] p(2,3) by (simp del: list.map fold.simps set_simps)
  then show ?thesis using p(4,5) by (simp add: demo_refund_def del: fold.simps)
qed

section \<open>Daily grants\<close>

text \<open>Every active user gets at most one daily grant per UTC date: a sweep counts every active user
  once, whatever the page size; and a later sweep of the same date, after any other writers, grants
  nothing and leaves the ledger as it is.\<close>

theorem daily_grants_once:
  assumes "ledger_ok L" "ids_fresh db" "0 < batch" "0 < batch'"
    and "dispatchDailyGrants ov level plan batch db clock now active L = (s1, L1)" "reachable L1 L2"
    and "iso_date now' = iso_date now"
    and "dispatchDailyGrants ov' level plan batch' db' clock' now' active L2 = (s2, L3)"
  shows "gs_scanned s1 = length active \<and>
    gs_granted s1 + gs_skipped s1 + gs_alreadyGranted s1 = length active \<and> L3 = L2 \<and> gs_granted s2 = 0"
proof -
  let ?step = "grant_one ov level plan db clock (iso_date now)"
  have run: "fold ?step active (empty_summary, L) = (s1, L1)"
    using assms(5) unfolding dispatch_fold [OF assms(3)] .
  note first = grant_fold [OF assms(1,2) run]
  have "grows L1 L2" using reachable_grows [OF assms(6)] grows_ok first by blast
  then have "\<forall>u\<in>set active. settled level plan (iso_date now) u L2" using first settled_reachable by blast
  from grant_fold_noop [OF this, of ov' db' clock' empty_summary]
  have "L3 = L2 \<and> gs_granted s2 = gs_granted empty_summary"
    using assms(7,8) unfolding dispatch_fold [OF assms(4)] by auto
  then show ?thesis using first by (simp add: empty_summary_def)
qed

definition demo_active :: "active_user list" where
  "demo_active = [(''u'', None), (''v'', Some ''pro''), (''w'', Some ''none'')]"

definition demo_level :: "string \<Rightarrow> rat" where
  "demo_level plan = (if plan = ''none'' then 0 else 50)"

theorem daily_grants_once_witness:
  "gs_granted (fst (dispatchDailyGrants False demo_level ''free'' 2 demo_db 3 86400000 demo_active [])) = 2 \<and>
   gs_granted (fst (dispatchDailyGrants False demo_level ''free'' 5 demo_db 9 86400999 demo_active
     (snd (dispatchDailyGrants False demo_level ''free'' 2 demo_db 3 86400000 demo_active [])))) = 0"
proof -
  obtain s1 L1 where one: "dispatchDailyGrants False demo_level ''free'' 2 demo_db 3 86400000 demo_active [] = (s1, L1)"
    by fastforce
  obtain s2 L3 where two: "dispatchDailyGrants False demo_level ''free'' 5 demo_db 9 86400999 demo_active L1 = (s2, L3)"
    by fastforce
  have date: "iso_date 86400999 = iso_date 86400000" by code_simp
  have "gs_granted (fst (fold (grant_one False demo_level ''free'' demo_db 3 (iso_date 86400000)) demo_active (empty_summary, []))) = 2"
    by code_simp
  then have "gs_granted s1 = 2"
    using one by (simp add: dispatch_fold)
  then show ?thesis
    using daily_grants_once [OF ledger_ok_Nil demo_fresh _ _ one reach_refl date two] one two by simp
qed

section \<open>The expiry sweep\<close>

text \<open>C18. The expiry sweep ends with nothing lapsed: within its thousand passes it closes every due
  bucket of up to a thousand batches of users, changes no user's available balance, and leaves the
  ledger reconciled.\<close>

theorem sweep_closes_all:
  assumes "ledger_ok L" "ids_fresh db" "0 < batch" "card (due_users now L) \<le> 1000 * batch"
    and "expireDueCredits db now batch None L = (s, L')"
  shows "ledger_ok L' \<and> (\<forall>u. nothing_due u now L' \<and> getBalance u now L' = getBalance u now L \<and>
    sumBalance u L' = getBalance u now L)"
proof -
  have "expire_passes 1000 db now batch (\<lparr>xs_users = 0, xs_buckets = 0, xs_credits = 0\<rparr>, L) = (s, L')"
    using assms(5) by (simp add: expireDueCredits_def truthy_key_def)
  from expire_passes_close [OF assms(1-4) this]
  have ok: "ledger_ok L'" and none: "due_users now L' = {}" and bal: "\<And>u. getBalance u now L' = getBalance u now L"
    by blast+
  have zero: "sumDueRemaining u now L' = 0" for u using none by (auto simp: due_users_def)
  have "nothing_due u now L'" for u using zero due_sum_zero [of L' u now] ok by (simp add: ledger_ok_def)
  moreover have "sumBalance u L' = getBalance u now L" for u using zero bal [of u] by (simp add: getBalance_def)
  ultimately show ?thesis using ok bal by blast
qed

theorem sweep_closes_all_witness:
  "getBalance ''u'' 30 demo_two = 10 \<and> sumBalance ''u'' demo_two = 20 \<and>
   sumBalance ''u'' (snd (expireDueCredits demo_db 30 5 None demo_two)) = 10"
proof -
  note ok = demo_two_ok
  have bal: "getBalance ''u'' 30 demo_two = 10" "sumBalance ''u'' demo_two = 20" by code_simp+
  have "card (set (remdups (map le_userId (filter (\<lambda>e. is_due (le_userId e) 30 e) demo_two)))) = 1" by code_simp
  then have "card (due_users 30 demo_two) = 1" using listed_users [of demo_two 30] ok by (simp add: ledger_ok_def)
  then have c: "card (due_users 30 demo_two) \<le> 1000 * 5" by simp
  obtain s L' where run: "expireDueCredits demo_db 30 5 None demo_two = (s, L')" by fastforce
  show ?thesis using sweep_closes_all [OF ok demo_fresh _ c run] bal run by simp
qed


section \<open>Two observations\<close>

text \<open>The balance ceiling is meant for positive amounts, but it also clamps a debit: with a ceiling below
  the balance a debit of one credit becomes a debit down to the ceiling.\<close>

lemma ceiling_enlarges_debit:
  "clamped_amount (demo_write (- 1) None ''d'') (no_guard\<lparr>ro_maxBalanceAfter := Some 0\<rparr>) demo_ledger = - 10"
  by code_simp

text \<open>The month filter of the ledger page is inclusive at both ends: a row created at the first instant
  of a month is on the page of that month and of the one before.\<close>

definition boundary_row :: ledger where
  "boundary_row = map (\<lambda>e. e\<lparr>le_createdAt := utc_month_start 2024 1\<rparr>) demo_ledger"

lemma boundary_row_in_two_months:
  "case (getLedger ''u'' (Some ''2024-01'') None None None boundary_row,
         getLedger ''u'' (Some ''2024-02'') None None None boundary_row) of
     (Inr jan, Inr feb) \<Rightarrow> lp_total jan = 1 \<and> lp_total feb = 1 | _ \<Rightarrow> False"
  by code_simp

end
