(* ===== verification/Cron.thy ===== *)
theory Cron
  imports Js_Date
begin

text \<open>
  The cron matcher of \<open>missions/cron-matcher.ts\<close> and the slot search of \<open>agents/heartbeat-cron.ts\<close>.
  A thrown error is an \<open>Inl\<close>; a \<open>Set\<close> of numbers is a list that is only
  asked for membership and emptiness, so a repeated member changes nothing. An instant is an integer number of milliseconds.
\<close>

section \<open>Fields\<close>

record field_spec =
  fs_min :: int
  fs_max :: int
  fs_aliases :: "(string \<times> nat) list"

definition MONTH_ALIASES :: "(string \<times> nat) list" where
  "MONTH_ALIASES = [(''JAN'', 1), (''FEB'', 2), (''MAR'', 3), (''APR'', 4), (''MAY'', 5), (''JUN'', 6),
     (''JUL'', 7), (''AUG'', 8), (''SEP'', 9), (''OCT'', 10), (''NOV'', 11), (''DEC'', 12)]"

definition DOW_ALIASES :: "(string \<times> nat) list" where
  "DOW_ALIASES = [(''SUN'', 0), (''MON'', 1), (''TUE'', 2), (''WED'', 3), (''THU'', 4), (''FRI'', 5), (''SAT'', 6)]"

definition MINUTE :: field_spec where "MINUTE = \<lparr>fs_min = 0, fs_max = 59, fs_aliases = []\<rparr>"
definition HOUR :: field_spec where "HOUR = \<lparr>fs_min = 0, fs_max = 23, fs_aliases = []\<rparr>"
definition DOM :: field_spec where "DOM = \<lparr>fs_min = 1, fs_max = 31, fs_aliases = []\<rparr>"
definition MONTH :: field_spec where "MONTH = \<lparr>fs_min = 1, fs_max = 12, fs_aliases = MONTH_ALIASES\<rparr>"
definition DOW :: field_spec where "DOW = \<lparr>fs_min = 0, fs_max = 7, fs_aliases = DOW_ALIASES\<rparr>"

datatype cron_error =
    InvalidValue string | InvalidStep string | InvalidRange string | EmptyField | WrongFieldCount nat

text \<open>\<open>toUpperCase\<close> on the letters an alias can have; no alias has another letter.\<close>

definition upper_char :: "char \<Rightarrow> char" where
  "upper_char c = (let n = of_char c :: nat in if 97 \<le> n \<and> n \<le> 122 then char_of (n - 32) else c)"

definition resolveAlias :: "string \<Rightarrow> field_spec \<Rightarrow> string" where
  "resolveAlias token spec = (case map_of (fs_aliases spec) (map upper_char token) of
     Some n \<Rightarrow> decimal n | None \<Rightarrow> token)"

definition parseInteger :: "string \<Rightarrow> field_spec \<Rightarrow> cron_error + int" where
  "parseInteger token spec = (case integer_of (js_number_of_string (resolveAlias token spec)) of
     None \<Rightarrow> Inl (InvalidValue token)
   | Some n \<Rightarrow> if n < fs_min spec \<or> n > fs_max spec then Inl (InvalidValue token) else Inr n)"

text \<open>The loop of a part; the step is positive at every call.\<close>

function cron_steps :: "int \<Rightarrow> int \<Rightarrow> int \<Rightarrow> int list" where
  "cron_steps v stop step = (if v \<le> stop \<and> 0 < step then v # cron_steps (v + step) stop step else [])"
  by pat_completeness auto
termination by (relation "measure (\<lambda>(v, stop, step). nat (stop - v + 1))") auto

declare cron_steps.simps [simp del]

definition parse_step :: "string list \<Rightarrow> cron_error + int option" where
  "parse_step rest = (case rest of
     [] \<Rightarrow> Inr None
   | stepRaw # _ \<Rightarrow> (case integer_of (js_number_of_string stepRaw) of
        None \<Rightarrow> Inl (InvalidStep stepRaw)
      | Some n \<Rightarrow> if n < 1 then Inl (InvalidStep stepRaw) else Inr (Some n)))"

definition parse_range :: "string \<Rightarrow> int option \<Rightarrow> field_spec \<Rightarrow> cron_error + int \<times> int" where
  "parse_range rangeRaw stepGiven spec =
     (if rangeRaw = ''*'' \<or> rangeRaw = [] then Inr (fs_min spec, fs_max spec)
      else if CHR ''-'' \<in> set rangeRaw
      then (case js_split CHR ''-'' rangeRaw of
          a # b # _ \<Rightarrow> (case parseInteger a spec of
              Inl e \<Rightarrow> Inl e
            | Inr start \<Rightarrow> (case parseInteger b spec of
                Inl e \<Rightarrow> Inl e
              | Inr stop \<Rightarrow> if start > stop then Inl (InvalidRange rangeRaw) else Inr (start, stop)))
        | _ \<Rightarrow> Inl (InvalidRange rangeRaw))
      else (case parseInteger rangeRaw spec of
          Inl e \<Rightarrow> Inl e
        | Inr single \<Rightarrow> Inr (single, if stepGiven \<noteq> None then fs_max spec else single)))"

definition parseFieldPart :: "string \<Rightarrow> field_spec \<Rightarrow> cron_error + int list" where
  "parseFieldPart part spec = (case js_split CHR ''/'' part of
     [] \<Rightarrow> Inl EmptyField
   | rangeRaw # rest \<Rightarrow> (case parse_step rest of
        Inl e \<Rightarrow> Inl e
      | Inr stepGiven \<Rightarrow> (case parse_range rangeRaw stepGiven spec of
          Inl e \<Rightarrow> Inl e
        | Inr (start, stop) \<Rightarrow>
            Inr (cron_steps start stop (case stepGiven of None \<Rightarrow> 1 | Some n \<Rightarrow> n)))))"

fun parse_parts :: "string list \<Rightarrow> field_spec \<Rightarrow> int list \<Rightarrow> cron_error + int list" where
  "parse_parts [] spec out = Inr out"
| "parse_parts (part # parts) spec out =
     (let trimmed = js_trim part in
      if trimmed = [] then parse_parts parts spec out
      else (case parseFieldPart trimmed spec of
          Inl e \<Rightarrow> Inl e
        | Inr vs \<Rightarrow> parse_parts parts spec (out @ vs)))"

definition parseField :: "string \<Rightarrow> field_spec \<Rightarrow> cron_error + int list" where
  "parseField field spec = (case parse_parts (js_split CHR '','' field) spec [] of
     Inl e \<Rightarrow> Inl e | Inr out \<Rightarrow> if out = [] then Inl EmptyField else Inr out)"

section \<open>The expression\<close>

record parsed_cron =
  pc_minute :: "int list"
  pc_hour :: "int list"
  pc_dayOfMonth :: "int list"
  pc_month :: "int list"
  pc_dayOfWeek :: "int list"
  pc_domRestricted :: bool
  pc_dowRestricted :: bool

function js_words :: "string \<Rightarrow> string list" where
  "js_words [] = []"
| "js_words (c # s) = (if is_js_space c then js_words s
     else (c # takeWhile (\<lambda>x. \<not> is_js_space x) s) # js_words (dropWhile (\<lambda>x. \<not> is_js_space x) s))"
  by pat_completeness auto
termination by (relation "measure length") (auto simp: less_Suc_eq_le length_dropWhile_le)

text \<open>\<open>s.trim().split(/\s+/)\<close>\<close>

definition split_fields :: "string \<Rightarrow> string list" where
  "split_fields s = (let t = js_trim s in if t = [] then [[]] else js_words t)"

definition normalize_sunday :: "int list \<Rightarrow> int list" where
  "normalize_sunday ds = (if 7 \<in> set ds then filter (\<lambda>d. d \<noteq> 7) ds @ [0] else ds)"

definition parseCron :: "string \<Rightarrow> cron_error + parsed_cron" where
  "parseCron cron = (case split_fields cron of
     [minute, hour, domField, month, dow] \<Rightarrow>
       (case parseField minute MINUTE of Inl e \<Rightarrow> Inl e
        | Inr mi \<Rightarrow> (case parseField hour HOUR of Inl e \<Rightarrow> Inl e
        | Inr ho \<Rightarrow> (case parseField domField DOM of Inl e \<Rightarrow> Inl e
        | Inr dm \<Rightarrow> (case parseField month MONTH of Inl e \<Rightarrow> Inl e
        | Inr mo \<Rightarrow> (case parseField dow DOW of Inl e \<Rightarrow> Inl e
        | Inr dw \<Rightarrow> Inr \<lparr>pc_minute = mi, pc_hour = ho, pc_dayOfMonth = dm, pc_month = mo,
            pc_dayOfWeek = normalize_sunday dw, pc_domRestricted = (domField \<noteq> ''*''), pc_dowRestricted = (dow \<noteq> ''*'')\<rparr>)))))
   | parts \<Rightarrow> Inl (WrongFieldCount (length parts)))"

definition MINUTE_MS :: int where "MINUTE_MS = 60000"

definition matches_parsed :: "parsed_cron \<Rightarrow> int \<Rightarrow> bool" where
  "matches_parsed p t =
     (let minute = (t div 60000) mod 60; hour = (t div 3600000) mod 24;
          days = t div DAY_MS; dow = (days + 4) mod 7
      in case civil_from_days days of (y, month, date) \<Rightarrow>
        minute \<in> set (pc_minute p) \<and> hour \<in> set (pc_hour p) \<and> month \<in> set (pc_month p) \<and>
        (if pc_domRestricted p \<and> pc_dowRestricted p
         then date \<in> set (pc_dayOfMonth p) \<or> dow \<in> set (pc_dayOfWeek p)
         else date \<in> set (pc_dayOfMonth p) \<and> dow \<in> set (pc_dayOfWeek p)))"

definition matchesCron :: "string \<Rightarrow> int \<Rightarrow> cron_error + bool" where
  "matchesCron cron t = (case parseCron cron of Inl e \<Rightarrow> Inl e | Inr p \<Rightarrow> Inr (matches_parsed p t))"

section \<open>The next slot\<close>

definition MAX_LOOKAHEAD_MINUTES :: int where
  "MAX_LOOKAHEAD_MINUTES = 60 * 24 * 400"

text \<open>The loop over the minutes; an error would be rethrown, but the expression was parsed before.\<close>

function heartbeat_loop :: "string \<Rightarrow> int \<Rightarrow> int \<Rightarrow> int \<Rightarrow> cron_error + int option" where
  "heartbeat_loop cadence i bound cursor =
     (if i < bound
      then (case matchesCron cadence cursor of
          Inl e \<Rightarrow> Inl e
        | Inr True \<Rightarrow> Inr (Some cursor)
        | Inr False \<Rightarrow> heartbeat_loop cadence (i + 1) bound (cursor + MINUTE_MS))
      else Inr None)"
  by pat_completeness auto
termination by (relation "measure (\<lambda>(cadence, i, bound, cursor). nat (bound - i))") auto

declare heartbeat_loop.simps [simp del]

definition next_minute :: "int \<Rightarrow> int" where
  "next_minute from_ms = from_ms div MINUTE_MS * MINUTE_MS + MINUTE_MS"

text \<open>\<open>Inl\<close> never happens (lemma \<open>heartbeat_no_error\<close>); \<open>None\<close> is the code's \<open>null\<close>.\<close>

definition computeNextHeartbeat :: "string option \<Rightarrow> int \<Rightarrow> int \<Rightarrow> cron_error + int option" where
  "computeNextHeartbeat cadence from_ms lookahead = (case cadence of
     None \<Rightarrow> Inr None
   | Some c \<Rightarrow>
       if c = [] then Inr None
       else if c = ''manual'' then Inr None
       else (case parseCron c of
           Inl _ \<Rightarrow> Inr None
         | Inr _ \<Rightarrow> heartbeat_loop c 0 lookahead (next_minute from_ms)))"

section \<open>Parsed fields\<close>

lemma cron_steps_range: "x \<in> set (cron_steps v stop step) \<Longrightarrow> v \<le> x \<and> x \<le> stop"
proof (induction v stop step rule: cron_steps.induct)
  case (1 v stop step)
  show ?case
  proof (cases "v \<le> stop \<and> 0 < step")
    case True
    then have "x = v \<or> x \<in> set (cron_steps (v + step) stop step)"
      using "1.prems" by (subst (asm) cron_steps.simps) simp
    then show ?thesis using 1(1) [OF True] True by auto
  next
    case False
    then show ?thesis using "1.prems" by (subst (asm) cron_steps.simps) simp
  qed
qed

lemma cron_steps_first: "v \<le> stop \<Longrightarrow> 0 < step \<Longrightarrow> v \<in> set (cron_steps v stop step)"
  by (subst cron_steps.simps) simp

lemma parseInteger_range: "parseInteger token spec = Inr n \<Longrightarrow> fs_min spec \<le> n \<and> n \<le> fs_max spec"
  by (auto simp: parseInteger_def split: option.splits if_splits)

definition spec_ok :: "field_spec \<Rightarrow> bool" where
  "spec_ok spec \<longleftrightarrow> fs_min spec \<le> fs_max spec"

lemma parse_range_within:
  assumes "parse_range r g spec = Inr (a, b)" "spec_ok spec"
  shows "fs_min spec \<le> a \<and> a \<le> b \<and> b \<le> fs_max spec"
  using assms
  by (auto simp: parse_range_def spec_ok_def dest!: parseInteger_range split: if_splits sum.splits list.splits)

lemma parse_part_within:
  assumes "parseFieldPart part spec = Inr vs" "spec_ok spec"
  shows "vs \<noteq> [] \<and> (\<forall>v\<in>set vs. fs_min spec \<le> v \<and> v \<le> fs_max spec)"
proof -
  obtain r rest g a b where split: "js_split CHR ''/'' part = r # rest" "parse_step rest = Inr g"
      "parse_range r g spec = Inr (a, b)" and vs: "vs = cron_steps a b (case g of None \<Rightarrow> 1 | Some n \<Rightarrow> n)"
    using assms(1) by (auto simp: parseFieldPart_def split: list.splits sum.splits)
  have "0 < (case g of None \<Rightarrow> 1 | Some n \<Rightarrow> n)"
    using split(2) by (auto simp: parse_step_def split: list.splits option.splits if_splits)
  moreover note in_range = parse_range_within [OF split(3) assms(2)]
  ultimately have "a \<in> set vs" unfolding vs by (intro cron_steps_first) simp_all
  moreover have "fs_min spec \<le> v \<and> v \<le> fs_max spec" if "v \<in> set vs" for v
    using cron_steps_range [OF that [unfolded vs]] in_range by linarith
  ultimately show ?thesis by auto
qed

lemma parse_parts_within:
  assumes "parse_parts parts spec out = Inr vs" "spec_ok spec"
    and "\<forall>v\<in>set out. fs_min spec \<le> v \<and> v \<le> fs_max spec"
  shows "\<forall>v\<in>set vs. fs_min spec \<le> v \<and> v \<le> fs_max spec"
  using assms
proof (induction parts spec out rule: parse_parts.induct)
  case (2 part parts spec out)
  show ?case
  proof (cases "js_trim part = []")
    case False
    then obtain ws where ws: "parseFieldPart (js_trim part) spec = Inr ws" "parse_parts parts spec (out @ ws) = Inr vs"
      using "2.prems"(1) by (auto simp: Let_def split: sum.splits)
    have "\<forall>v\<in>set (out @ ws). fs_min spec \<le> v \<and> v \<le> fs_max spec"
      using "2.prems"(3) parse_part_within [OF ws(1) "2.prems"(2)] by (simp add: ball_Un)
    from "2.IH"(2) [OF refl False ws(1) ws(2) "2.prems"(2) this] show ?thesis .
  next
    case True
    then have "parse_parts parts spec out = Inr vs" using "2.prems"(1) by simp
    from "2.IH"(1) [OF refl True this "2.prems"(2,3)] show ?thesis .
  qed
qed simp

lemma parseField_within:
  assumes "parseField field spec = Inr vs" "spec_ok spec"
  shows "vs \<noteq> [] \<and> (\<forall>v\<in>set vs. fs_min spec \<le> v \<and> v \<le> fs_max spec)"
  using assms parse_parts_within [of _ spec "[]" vs]
  by (auto simp: parseField_def split: sum.splits if_splits)

lemma parseCron_fields:
  assumes "parseCron cron = Inr p"
  shows "\<exists>mi ho dm mo dw. parseField mi MINUTE = Inr (pc_minute p) \<and> parseField ho HOUR = Inr (pc_hour p) \<and>
    parseField dm DOM = Inr (pc_dayOfMonth p) \<and> parseField mo MONTH = Inr (pc_month p) \<and>
    (\<exists>ds. parseField dw DOW = Inr ds \<and> pc_dayOfWeek p = normalize_sunday ds)"
  using assms by (fastforce simp: parseCron_def split: list.splits sum.splits)

lemma normalize_sunday_range:
  assumes "ds \<noteq> []" "set ds \<subseteq> {0..7}"
  shows "normalize_sunday ds \<noteq> [] \<and> set (normalize_sunday ds) \<subseteq> {0..6}"
proof -
  have "0 \<le> d \<and> d \<le> 7" if "d \<in> set ds" for d using that assms(2) by force
  moreover have "d = 0 \<or> d \<in> set ds \<and> d \<noteq> 7" if "d \<in> set (normalize_sunday ds)" for d
    using that by (auto simp: normalize_sunday_def split: if_splits)
  ultimately have "0 \<le> d \<and> d \<le> 6" if "d \<in> set (normalize_sunday ds)" for d using that by fastforce
  moreover have "normalize_sunday ds \<noteq> []" using assms(1) by (simp add: normalize_sunday_def)
  ultimately show ?thesis by auto
qed

end
