(* ===== verification/Upstream_Schedule.thy ===== *)
theory Upstream_Schedule
  imports Cron "HOL-Library.Word"
begin

text \<open>
  The upstream sync clock of \<open>app-works/upstream-schedule.ts\<close>: the four fields of the App spec, the
  hourly clamp over the heartbeat's slots and the stable jitter. The clamp is a client of a slot
  source: the locale states what it needs of one and the heartbeat interprets it.
\<close>

unbundle bit_operations_syntax

section \<open>The slots of a cron expression\<close>

lemma minute_parts: "t = t div MINUTE_MS * MINUTE_MS + t mod MINUTE_MS" "0 \<le> t mod MINUTE_MS" "t mod MINUTE_MS < MINUTE_MS"
  by (simp_all add: MINUTE_MS_def)

lemma next_minute_aligned: "next_minute t mod MINUTE_MS = 0" "t < next_minute t" "next_minute t \<le> t + MINUTE_MS"
  subgoal by (simp add: next_minute_def)
  subgoal unfolding next_minute_def using minute_parts [of t] by linarith
  subgoal unfolding next_minute_def using minute_parts [of t] by linarith
  done

text \<open>The whole minutes after an instant.\<close>

definition minute_after :: "int \<Rightarrow> int \<Rightarrow> bool" where
  "minute_after t u \<longleftrightarrow> t < u \<and> u mod MINUTE_MS = 0"

lemma minute_after_iff: "minute_after t u \<longleftrightarrow> (\<exists>k\<ge>0. u = next_minute t + k * MINUTE_MS)"
proof
  assume h: "minute_after t u"
  then have u: "u = u div MINUTE_MS * MINUTE_MS" and less: "t < u"
    using minute_parts(1) [of u] by (simp_all add: minute_after_def)
  have "t div MINUTE_MS * MINUTE_MS < u div MINUTE_MS * MINUTE_MS" using u less minute_parts [of t] by linarith
  then have "t div MINUTE_MS < u div MINUTE_MS" by (simp add: MINUTE_MS_def)
  then have "u = next_minute t + (u div MINUTE_MS - t div MINUTE_MS - 1) * MINUTE_MS" "0 \<le> u div MINUTE_MS - t div MINUTE_MS - 1"
    using u unfolding next_minute_def by (simp_all add: algebra_simps)
  then show "\<exists>k\<ge>0. u = next_minute t + k * MINUTE_MS" by blast
next
  assume "\<exists>k\<ge>0. u = next_minute t + k * MINUTE_MS"
  then obtain k where k: "0 \<le> k" "u = next_minute t + k * MINUTE_MS" by blast
  then have "u mod MINUTE_MS = 0" using next_minute_aligned(1) [of t] by (simp add: mod_add_eq [symmetric])
  moreover have "0 \<le> k * MINUTE_MS" using k(1) by (simp add: MINUTE_MS_def)
  ultimately show "minute_after t u" using k(2) next_minute_aligned(2) [of t] by (simp add: minute_after_def)
qed

text \<open>The loop finds the first match, within its bound.\<close>

lemma heartbeat_loop_first:
  assumes "parseCron c = Inr p" "i \<le> bound"
  shows "case heartbeat_loop c i bound cursor of
      Inl _ \<Rightarrow> False
    | Inr None \<Rightarrow> (\<forall>k. 0 \<le> k \<and> k < bound - i \<longrightarrow> \<not> matches_parsed p (cursor + k * MINUTE_MS))
    | Inr (Some s) \<Rightarrow> (\<exists>k. 0 \<le> k \<and> k < bound - i \<and> s = cursor + k * MINUTE_MS \<and> matches_parsed p s \<and>
        (\<forall>j. 0 \<le> j \<and> j < k \<longrightarrow> \<not> matches_parsed p (cursor + j * MINUTE_MS)))"
  using assms(2)
proof (induction "nat (bound - i)" arbitrary: i cursor)
  case 0
  then have "heartbeat_loop c i bound cursor = Inr None" by (subst heartbeat_loop.simps) simp
  moreover have "bound - i \<le> 0" using 0 by simp
  ultimately show ?case by auto
next
  case (Suc n)
  have here: "matchesCron c cursor = Inr (matches_parsed p cursor)" using assms(1) by (simp add: matchesCron_def)
  show ?case
  proof (cases "matches_parsed p cursor")
    case True
    then have "heartbeat_loop c i bound cursor = Inr (Some cursor)"
      using Suc.hyps(2) here by (subst heartbeat_loop.simps) simp
    then show ?thesis using True Suc.hyps(2) by (auto intro!: exI [of _ 0])
  next
    case False
    have "i < bound" using Suc.hyps(2) by simp
    then have loop: "heartbeat_loop c i bound cursor = heartbeat_loop c (i + 1) bound (cursor + MINUTE_MS)"
      using here False by (subst heartbeat_loop.simps) simp
    have "n = nat (bound - (i + 1))" "i + 1 \<le> bound" using Suc.hyps(2) by simp_all
    note ih = Suc.hyps(1) [OF this, of "cursor + MINUTE_MS"]
    have shift: "cursor + MINUTE_MS + k * MINUTE_MS = cursor + (k + 1) * MINUTE_MS" for k
      by (simp add: algebra_simps)
    have split: "(\<forall>j. 0 \<le> j \<and> j < k + 1 \<longrightarrow> \<not> matches_parsed p (cursor + j * MINUTE_MS))"
      if "\<forall>j. 0 \<le> j \<and> j < k \<longrightarrow> \<not> matches_parsed p (cursor + MINUTE_MS + j * MINUTE_MS)" for k
    proof (intro allI impI)
      fix j
      assume j: "0 \<le> j \<and> j < k + 1"
      show "\<not> matches_parsed p (cursor + j * MINUTE_MS)"
      proof (cases "j = 0")
        case True
        then show ?thesis using False by simp
      next
        case neq: False
        then have "\<not> matches_parsed p (cursor + MINUTE_MS + (j - 1) * MINUTE_MS)" using that j by simp
        then show ?thesis unfolding shift by simp
      qed
    qed
    show ?thesis
    proof (cases "heartbeat_loop c (i + 1) bound (cursor + MINUTE_MS)")
      case (Inl e)
      then show ?thesis using ih by simp
    next
      case (Inr r)
      show ?thesis
      proof (cases r)
        case None
        then have "\<forall>k. 0 \<le> k \<and> k < bound - (i + 1) \<longrightarrow> \<not> matches_parsed p (cursor + MINUTE_MS + k * MINUTE_MS)"
          using ih Inr by simp
        from split [OF this] show ?thesis unfolding loop using Inr None by simp
      next
        case (Some s)
        then obtain k where k: "0 \<le> k" "k < bound - (i + 1)" "s = cursor + MINUTE_MS + k * MINUTE_MS" "matches_parsed p s"
            "\<forall>j. 0 \<le> j \<and> j < k \<longrightarrow> \<not> matches_parsed p (cursor + MINUTE_MS + j * MINUTE_MS)"
          using ih Inr by auto
        then show ?thesis
          unfolding loop using Inr Some split [OF k(5)] shift [of k] by (auto intro!: exI [of _ "k + 1"])
      qed
    qed
  qed
qed


lemma parseCron_words: "parseCron c = Inr p \<Longrightarrow> c \<noteq> [] \<and> c \<noteq> ''manual''"
proof -
  have "parseCron [] = Inl (WrongFieldCount 1)" "parseCron ''manual'' = Inl (WrongFieldCount 1)" by code_simp+
  then show "parseCron c = Inr p \<Longrightarrow> c \<noteq> [] \<and> c \<noteq> ''manual''" by auto
qed

lemma heartbeat_window:
  assumes "parseCron c = Inr p" "0 \<le> look"
  shows "case computeNextHeartbeat (Some c) t look of
      Inl _ \<Rightarrow> False
    | Inr None \<Rightarrow> (\<forall>u. minute_after t u \<and> u < next_minute t + look * MINUTE_MS \<longrightarrow> \<not> matches_parsed p u)
    | Inr (Some s) \<Rightarrow> minute_after t s \<and> s < next_minute t + look * MINUTE_MS \<and> matches_parsed p s \<and>
        (\<forall>u. minute_after t u \<and> u < s \<longrightarrow> \<not> matches_parsed p u)"
proof -
  have run: "computeNextHeartbeat (Some c) t look = heartbeat_loop c 0 look (next_minute t)"
    using assms(1) parseCron_words [OF assms(1)] by (simp add: computeNextHeartbeat_def)
  have pos: "0 < MINUTE_MS" by (simp add: MINUTE_MS_def)
  note first = heartbeat_loop_first [OF assms, of "next_minute t"]
  show ?thesis
  proof (cases "heartbeat_loop c 0 look (next_minute t)")
    case (Inl e)
    then show ?thesis using first by simp
  next
    case (Inr r)
    show ?thesis
    proof (cases r)
      case None
      have "\<not> matches_parsed p u" if u: "minute_after t u" "u < next_minute t + look * MINUTE_MS" for u
      proof -
        obtain k where k: "0 \<le> k" "u = next_minute t + k * MINUTE_MS" using u(1) by (auto simp: minute_after_iff)
        then have "k < look" using u(2) pos by simp
        then show ?thesis using first Inr None k by simp
      qed
      then show ?thesis unfolding run using Inr None by simp
    next
      case (Some s)
      then obtain k where k: "0 \<le> k" "k < look" "s = next_minute t + k * MINUTE_MS" "matches_parsed p s"
          "\<forall>j. 0 \<le> j \<and> j < k \<longrightarrow> \<not> matches_parsed p (next_minute t + j * MINUTE_MS)"
        using first Inr by auto
      have "\<not> matches_parsed p u" if u: "minute_after t u" "u < s" for u
      proof -
        obtain j where j: "0 \<le> j" "u = next_minute t + j * MINUTE_MS" using u(1) by (auto simp: minute_after_iff)
        then have "j < k" using u(2) k(3) pos by simp
        then show ?thesis using k(5) j by simp
      qed
      moreover have "minute_after t s" using k(1,3) by (auto simp: minute_after_iff)
      ultimately show ?thesis unfolding run using Inr Some k pos by simp
    qed
  qed
qed

section \<open>The slot source\<close>

definition heartbeat_slot :: "string \<Rightarrow> int \<Rightarrow> int option" where
  "heartbeat_slot c t = (case computeNextHeartbeat (Some c) t MAX_LOOKAHEAD_MINUTES of Inr r \<Rightarrow> r | Inl _ \<Rightarrow> None)"

text \<open>The walk of the clamp: slot by slot to the floor.\<close>

fun clamp_walk :: "(int \<Rightarrow> int option) \<Rightarrow> int \<Rightarrow> nat \<Rightarrow> int \<Rightarrow> int option" where
  "clamp_walk next_slot floor_ms 0 cursor = None"
| "clamp_walk next_slot floor_ms (Suc n) cursor =
     (if cursor \<ge> floor_ms then Some cursor
      else (case next_slot cursor of None \<Rightarrow> None | Some c \<Rightarrow> clamp_walk next_slot floor_ms n c))"

locale slot_source =
  fixes next_slot :: "int \<Rightarrow> int option"
  assumes later: "next_slot t = Some s \<Longrightarrow> t < s"
    and aligned: "next_slot t = Some s \<Longrightarrow> s mod MINUTE_MS = 0"
    and least: "next_slot t = Some s \<Longrightarrow> next_slot u = Some v \<Longrightarrow> t < v \<Longrightarrow> s \<le> v"
begin

lemma a_minute_later:
  assumes "next_slot t = Some s" "t mod MINUTE_MS = 0"
  shows "t + MINUTE_MS \<le> s"
proof -
  have parts: "t = t div MINUTE_MS * MINUTE_MS" "s = s div MINUTE_MS * MINUTE_MS"
    using minute_parts(1) [of t] minute_parts(1) [of s] assms(2) aligned [OF assms(1)] by linarith+
  have "t div MINUTE_MS * MINUTE_MS < s div MINUTE_MS * MINUTE_MS"
    using later [OF assms(1)] parts by linarith
  then have "t div MINUTE_MS + 1 \<le> s div MINUTE_MS" by (simp add: MINUTE_MS_def)
  then have "(t div MINUTE_MS + 1) * MINUTE_MS \<le> s div MINUTE_MS * MINUTE_MS"
    by (intro mult_right_mono) (simp_all add: MINUTE_MS_def)
  moreover have "(t div MINUTE_MS + 1) * MINUTE_MS = t div MINUTE_MS * MINUTE_MS + MINUTE_MS" by (simp add: algebra_simps)
  ultimately show ?thesis using parts by linarith
qed

text \<open>The walk reaches the floor in a minute per step, at the first slot not before it.\<close>

lemma walk_reaches:
  assumes "cursor mod MINUTE_MS = 0" "floor_ms \<le> cursor + int n * MINUTE_MS"
  shows "case clamp_walk next_slot floor_ms (Suc n) cursor of
      None \<Rightarrow> (\<exists>t\<ge>cursor. t < floor_ms \<and> next_slot t = None)
    | Some r \<Rightarrow> floor_ms \<le> r \<and> (r = cursor \<or> (\<exists>t. next_slot t = Some r)) \<and>
        (\<forall>u v. next_slot u = Some v \<and> cursor < v \<and> floor_ms \<le> v \<longrightarrow> r \<le> v)"
  using assms
proof (induction n arbitrary: cursor)
  case 0
  then show ?case by simp
next
  case (Suc n)
  show ?case
  proof (cases "floor_ms \<le> cursor")
    case True
    then show ?thesis by simp
  next
    case False
    show ?thesis
    proof (cases "next_slot cursor")
      case None
      then show ?thesis using False by auto
    next
      case (Some c)
      have step: "cursor + MINUTE_MS \<le> c" using a_minute_later [OF Some Suc.prems(1)] .
      then have "floor_ms \<le> c + int n * MINUTE_MS" using Suc.prems(2) by (simp add: algebra_simps)
      note ih = Suc.IH [OF aligned [OF Some] this]
      have walk: "clamp_walk next_slot floor_ms (Suc (Suc n)) cursor = clamp_walk next_slot floor_ms (Suc n) c"
        using False Some by simp
      have pos: "0 < MINUTE_MS" by (simp add: MINUTE_MS_def)
      show ?thesis
      proof (cases "clamp_walk next_slot floor_ms (Suc n) c")
        case None
        then obtain t where "c \<le> t" "t < floor_ms" "next_slot t = None" using ih by auto
        then show ?thesis unfolding walk using None step pos by (auto intro!: exI [of _ t])
      next
        case found: (Some r)
        have least': "r \<le> v" if "next_slot u = Some v" "cursor < v" "floor_ms \<le> v" for u v
        proof (cases "c < v")
          case True
          then show ?thesis using ih found that by auto
        next
          case False
          then have "v = c" using least [OF Some that(1,2)] by simp
          moreover have "r = c" using found that(3) \<open>v = c\<close> by simp
          ultimately show ?thesis by simp
        qed
        then show ?thesis unfolding walk using ih found Some by auto
      qed
    qed
  qed
qed

end

text \<open>The heartbeat is a slot source: its laws come from \<open>heartbeat_window\<close>.\<close>

lemma heartbeat_slot_parsed: "heartbeat_slot c t = Some s \<Longrightarrow> \<exists>p. parseCron c = Inr p"
  by (auto simp: heartbeat_slot_def computeNextHeartbeat_def split: if_splits sum.splits)

lemma heartbeat_slot_spec:
  assumes "parseCron c = Inr p"
  shows "case heartbeat_slot c t of
      None \<Rightarrow> (\<forall>u. minute_after t u \<and> u < next_minute t + MAX_LOOKAHEAD_MINUTES * MINUTE_MS \<longrightarrow> \<not> matches_parsed p u)
    | Some s \<Rightarrow> minute_after t s \<and> s < next_minute t + MAX_LOOKAHEAD_MINUTES * MINUTE_MS \<and> matches_parsed p s \<and>
        (\<forall>u. minute_after t u \<and> u < s \<longrightarrow> \<not> matches_parsed p u)"
proof -
  have "0 \<le> MAX_LOOKAHEAD_MINUTES" by (simp add: MAX_LOOKAHEAD_MINUTES_def)
  from heartbeat_window [OF assms this, of t] show ?thesis
    by (simp add: heartbeat_slot_def split: sum.splits option.splits)
qed

lemma heartbeat_slot_some:
  assumes "heartbeat_slot c t = Some s" "parseCron c = Inr p"
  shows "minute_after t s" "matches_parsed p s" "\<And>u. minute_after t u \<Longrightarrow> u < s \<Longrightarrow> \<not> matches_parsed p u"
  using heartbeat_slot_spec [OF assms(2), of t] assms(1) by simp_all

interpretation heartbeat: slot_source "heartbeat_slot c" for c
proof
  fix t s
  assume slot: "heartbeat_slot c t = Some s"
  then obtain p where p: "parseCron c = Inr p" using heartbeat_slot_parsed by blast
  show "t < s" "s mod MINUTE_MS = 0" using heartbeat_slot_some(1) [OF slot p] by (simp_all add: minute_after_def)
  show "s \<le> v" if v: "heartbeat_slot c u = Some v" "t < v" for u v
  proof (rule ccontr)
    assume "\<not> s \<le> v"
    moreover have "minute_after t v" using heartbeat_slot_some(1) [OF v(1) p] v(2) by (simp add: minute_after_def)
    ultimately have "\<not> matches_parsed p v" using heartbeat_slot_some(3) [OF slot p] by simp
    then show False using heartbeat_slot_some(2) [OF v(1) p] by simp
  qed
qed

text \<open>A matching minute is the slot after the millisecond before it.\<close>

lemma match_is_slot:
  assumes "parseCron c = Inr p" "m mod MINUTE_MS = 0" "matches_parsed p m"
  shows "heartbeat_slot c (m - 1) = Some m"
proof -
  have after: "minute_after (m - 1) m" using assms(2) by (simp add: minute_after_def)
  have "m \<le> next_minute (m - 1) + 0 * MINUTE_MS" using next_minute_aligned(2) [of "m - 1"] by simp
  then have "m < next_minute (m - 1) + MAX_LOOKAHEAD_MINUTES * MINUTE_MS"
    by (simp add: MAX_LOOKAHEAD_MINUTES_def MINUTE_MS_def)
  then obtain s where s: "heartbeat_slot c (m - 1) = Some s"
    using heartbeat_slot_spec [OF assms(1), of "m - 1"] after assms(3) by (auto split: option.splits)
  have "m \<le> s" using heartbeat_slot_some(1) [OF s assms(1)] by (simp add: minute_after_def)
  moreover have "s \<le> m" using heartbeat_slot_some(3) [OF s assms(1) after] assms(3) by force
  ultimately show ?thesis using s by simp
qed

text \<open>A slot from the minutes tried so far.\<close>

lemma heartbeat_slot_find:
  assumes "parseCron c = Inr p" "int n \<le> MAX_LOOKAHEAD_MINUTES"
    and "find (matches_parsed p) (map (\<lambda>k. next_minute t + int k * MINUTE_MS) [0..<n]) = Some s"
  shows "heartbeat_slot c t = Some s"
proof -
  obtain i where i: "i < n" "matches_parsed p s" "s = next_minute t + int i * MINUTE_MS"
      "\<forall>j<i. \<not> matches_parsed p (next_minute t + int j * MINUTE_MS)"
    using assms(3) by (auto simp: find_Some_iff)
  have pos: "0 < MINUTE_MS" by (simp add: MINUTE_MS_def)
  have after: "minute_after t s" unfolding minute_after_iff i(3) by (intro exI [of _ "int i"]) simp
  have "int i * MINUTE_MS < MAX_LOOKAHEAD_MINUTES * MINUTE_MS" using i(1) assms(2) pos by simp
  then obtain v where v: "heartbeat_slot c t = Some v"
    using heartbeat_slot_spec [OF assms(1), of t] after i(2,3) by (auto split: option.splits)
  note found = heartbeat_slot_some [OF v assms(1)]
  obtain k where k: "0 \<le> k" "v = next_minute t + k * MINUTE_MS" using found(1) unfolding minute_after_iff by blast
  have "\<not> v < s"
  proof
    assume "v < s"
    then have "k < int i" using k i(3) pos by simp
    then show False using i(4) [rule_format, of "nat k"] k found(2) by simp
  qed
  moreover have "\<not> s < v" using found(3) [OF after] i(2) by blast
  ultimately show ?thesis using v by simp
qed

section \<open>The settings\<close>

definition APP_UPSTREAM_SYNC_DEFAULT_SCHEDULE :: string where
  "APP_UPSTREAM_SYNC_DEFAULT_SCHEDULE = ''0 6 * * 1''"

definition APP_UPSTREAM_SYNC_HONOURED_MODE :: string where
  "APP_UPSTREAM_SYNC_HONOURED_MODE = ''merge''"

definition APP_UPSTREAM_SYNC_MIN_INTERVAL_MS :: int where "APP_UPSTREAM_SYNC_MIN_INTERVAL_MS = 3600000"
definition APP_UPSTREAM_SYNC_JITTER_MAX_MS :: int where "APP_UPSTREAM_SYNC_JITTER_MAX_MS = 300000"
definition APP_UPSTREAM_SYNC_JITTER_SECONDS :: int where
  "APP_UPSTREAM_SYNC_JITTER_SECONDS = APP_UPSTREAM_SYNC_JITTER_MAX_MS div 1000"
definition MAX_CLAMP_STEPS :: nat where "MAX_CLAMP_STEPS = 24 * 400"

record upstream_settings =
  us_schedule :: string
  us_enabled :: bool
  us_branch :: "string option"
  us_mode :: string
  us_modeHonoured :: bool
  us_blockAbsent :: bool

definition nonEmptyString :: "json \<Rightarrow> string option" where
  "nonEmptyString v = (case v of
     JStr s \<Rightarrow> (let trimmed = js_trim s in if trimmed \<noteq> [] then Some trimmed else None)
   | _ \<Rightarrow> None)"

definition opt_json :: "string option \<Rightarrow> json" where
  "opt_json s = (case s of None \<Rightarrow> JNull | Some x \<Rightarrow> JStr x)"

definition readUpstreamSyncSettings :: "json \<Rightarrow> upstream_settings" where
  "readUpstreamSyncSettings spec =
     (let raw = own_prop spec ''upstreamSync'';
          absent = (case raw of JObj _ \<Rightarrow> False | _ \<Rightarrow> True);
          schedule = nonEmptyString (own_prop raw ''schedule'');
          branch = nonEmptyString (own_prop raw ''branch'');
          mode = nonEmptyString (own_prop raw ''mode'');
          enabled = (case own_prop raw ''enabled'' of JBool b \<Rightarrow> b | _ \<Rightarrow> True);
          mode' = (case mode of None \<Rightarrow> APP_UPSTREAM_SYNC_HONOURED_MODE | Some m \<Rightarrow> m)
      in \<lparr>us_schedule = (case schedule of None \<Rightarrow> APP_UPSTREAM_SYNC_DEFAULT_SCHEDULE | Some s \<Rightarrow> s),
          us_enabled = enabled, us_branch = branch, us_mode = mode',
          us_modeHonoured = (mode' = APP_UPSTREAM_SYNC_HONOURED_MODE), us_blockAbsent = absent\<rparr>)"

definition upstreamSyncBranch :: "upstream_settings option \<Rightarrow> string option \<Rightarrow> string option" where
  "upstreamSyncBranch settings fallback =
     (case nonEmptyString (opt_json (case settings of None \<Rightarrow> None | Some s \<Rightarrow> us_branch s)) of
        Some b \<Rightarrow> Some b | None \<Rightarrow> nonEmptyString (opt_json fallback))"

section \<open>The clock\<close>

definition fnv1a :: "string \<Rightarrow> 32 word" where
  "fnv1a input = foldl (\<lambda>hash c. (hash XOR of_nat (of_char c)) * 0x01000193) 0x811c9dc5 input"

definition upstreamSyncJitterMs :: "string \<Rightarrow> int" where
  "upstreamSyncJitterMs workId = (uint (fnv1a workId) mod APP_UPSTREAM_SYNC_JITTER_SECONDS) * 1000"

definition isParsableCron :: "string \<Rightarrow> bool" where
  "isParsableCron expression = (case parseCron expression of Inr _ \<Rightarrow> True | Inl _ \<Rightarrow> False)"

definition slotFor :: "string \<Rightarrow> int \<Rightarrow> int option" where
  "slotFor expression from_ms = (case heartbeat_slot expression from_ms of
     None \<Rightarrow> None
   | Some first \<Rightarrow>
       (let second = heartbeat_slot expression first in
        if (case second of None \<Rightarrow> False | Some s \<Rightarrow> s - first \<ge> APP_UPSTREAM_SYNC_MIN_INTERVAL_MS) then Some first
        else clamp_walk (heartbeat_slot expression) (first + APP_UPSTREAM_SYNC_MIN_INTERVAL_MS) MAX_CLAMP_STEPS
               (case second of None \<Rightarrow> first | Some s \<Rightarrow> s)))"

definition effective_schedule :: "string option \<Rightarrow> string" where
  "effective_schedule schedule = (case nonEmptyString (opt_json schedule) of
     None \<Rightarrow> APP_UPSTREAM_SYNC_DEFAULT_SCHEDULE
   | Some e \<Rightarrow> if isParsableCron e then e else APP_UPSTREAM_SYNC_DEFAULT_SCHEDULE)"

definition computeNextUpstreamSync :: "string option \<Rightarrow> int \<Rightarrow> string \<Rightarrow> int option" where
  "computeNextUpstreamSync schedule from_ms workId =
     (case slotFor (effective_schedule schedule) from_ms of
        None \<Rightarrow> None | Some next \<Rightarrow> Some (next + upstreamSyncJitterMs workId))"

definition nextUpstreamSyncAt :: "upstream_settings option \<Rightarrow> int \<Rightarrow> string \<Rightarrow> int option" where
  "nextUpstreamSyncAt settings from_ms workId = (case settings of
     None \<Rightarrow> None
   | Some s \<Rightarrow> if \<not> us_enabled s \<or> \<not> us_modeHonoured s then None
       else computeNextUpstreamSync (Some (us_schedule s)) from_ms workId)"

lemma effective_schedule_parsed: "\<exists>p. parseCron (effective_schedule schedule) = Inr p"
proof -
  have "isParsableCron APP_UPSTREAM_SYNC_DEFAULT_SCHEDULE" by code_simp
  then have "isParsableCron (effective_schedule schedule)" by (simp add: effective_schedule_def split: option.split)
  then show ?thesis by (auto simp: isParsableCron_def split: sum.splits)
qed

lemma jitter_bounds: "0 \<le> upstreamSyncJitterMs w" "upstreamSyncJitterMs w \<le> APP_UPSTREAM_SYNC_JITTER_MAX_MS - 1000"
proof -
  have sec: "APP_UPSTREAM_SYNC_JITTER_SECONDS = 300"
    by (simp add: APP_UPSTREAM_SYNC_JITTER_SECONDS_def APP_UPSTREAM_SYNC_JITTER_MAX_MS_def)
  have "0 \<le> uint (fnv1a w) mod 300" "uint (fnv1a w) mod 300 < 300" by simp_all
  then show "0 \<le> upstreamSyncJitterMs w" "upstreamSyncJitterMs w \<le> APP_UPSTREAM_SYNC_JITTER_MAX_MS - 1000"
    unfolding upstreamSyncJitterMs_def sec APP_UPSTREAM_SYNC_JITTER_MAX_MS_def by linarith+
qed

text \<open>The slot is the first one, or the first one an hour later when the successor is closer.\<close>

definition clamped_slot :: "parsed_cron \<Rightarrow> int \<Rightarrow> int \<Rightarrow> bool" where
  "clamped_slot p first s \<longleftrightarrow>
     (if \<exists>u. minute_after first u \<and> u < first + APP_UPSTREAM_SYNC_MIN_INTERVAL_MS \<and> matches_parsed p u
      then first + APP_UPSTREAM_SYNC_MIN_INTERVAL_MS \<le> s \<and>
        (\<forall>u. u mod MINUTE_MS = 0 \<and> first + APP_UPSTREAM_SYNC_MIN_INTERVAL_MS \<le> u \<and> u < s \<longrightarrow> \<not> matches_parsed p u)
      else s = first)"

lemma slotFor_spec:
  assumes p: "parseCron c = Inr p"
  shows "case slotFor c t of
      None \<Rightarrow> (case heartbeat_slot c t of None \<Rightarrow> True
        | Some first \<Rightarrow> \<exists>u\<ge>first. u < first + APP_UPSTREAM_SYNC_MIN_INTERVAL_MS \<and> heartbeat_slot c u = None)
    | Some s \<Rightarrow> (\<exists>first. heartbeat_slot c t = Some first \<and> matches_parsed p s \<and> s mod MINUTE_MS = 0 \<and>
        clamped_slot p first s)"
proof (cases "heartbeat_slot c t")
  case None
  then show ?thesis by (simp add: slotFor_def)
next
  case (Some first)
  let ?floor = "first + APP_UPSTREAM_SYNC_MIN_INTERVAL_MS"
  note f = heartbeat_slot_some [OF Some p]
  show ?thesis
  proof (cases "heartbeat_slot c first")
    case none: None
    have "clamp_walk (heartbeat_slot c) ?floor (Suc 9599) first = None"
      unfolding clamp_walk.simps none by (simp add: APP_UPSTREAM_SYNC_MIN_INTERVAL_MS_def)
    then have "slotFor c t = None" using Some none by (simp add: slotFor_def MAX_CLAMP_STEPS_def)
    then show ?thesis using none Some by (auto intro!: exI [of _ first] simp: APP_UPSTREAM_SYNC_MIN_INTERVAL_MS_def)
  next
    case second: (Some s2)
    note g = heartbeat_slot_some [OF second p]
    show ?thesis
    proof (cases "s2 - first \<ge> APP_UPSTREAM_SYNC_MIN_INTERVAL_MS")
      case True
      then have res: "slotFor c t = Some first" using Some second by (simp add: slotFor_def)
      have "\<not> (\<exists>u. minute_after first u \<and> u < ?floor \<and> matches_parsed p u)"
        using g(3) True by force
      then have "clamped_slot p first first" unfolding clamped_slot_def by (simp only: if_False)
      then show ?thesis using res Some f(1,2) by (auto simp: minute_after_def)
    next
      case False
      have near: "\<exists>u. minute_after first u \<and> u < ?floor \<and> matches_parsed p u" using g(1,2) False by force
      have walk: "slotFor c t = clamp_walk (heartbeat_slot c) ?floor (Suc 9599) s2"
        using Some second False by (simp add: slotFor_def MAX_CLAMP_STEPS_def)
      have "?floor \<le> s2 + int 9599 * MINUTE_MS" "s2 mod MINUTE_MS = 0"
        using g(1) by (simp_all add: minute_after_def APP_UPSTREAM_SYNC_MIN_INTERVAL_MS_def MINUTE_MS_def)
      note reached = heartbeat.walk_reaches [OF this(2,1), of c, folded walk]
      show ?thesis
      proof (cases "slotFor c t")
        case None
        then obtain u where "s2 \<le> u" "u < ?floor" "heartbeat_slot c u = None" using reached by auto
        moreover have "first < s2" using g(1) by (simp add: minute_after_def)
        ultimately show ?thesis using None Some by (auto intro!: exI [of _ u])
      next
        case found: (Some s)
        then have s: "?floor \<le> s" "s = s2 \<or> (\<exists>u. heartbeat_slot c u = Some s)"
            "\<And>u v. heartbeat_slot c u = Some v \<Longrightarrow> s2 < v \<Longrightarrow> ?floor \<le> v \<Longrightarrow> s \<le> v"
          using reached by auto
        then obtain u where "heartbeat_slot c u = Some s" using False by auto
        note here = heartbeat_slot_some [OF this p]
        have "\<not> matches_parsed p v" if v: "v mod MINUTE_MS = 0" "?floor \<le> v" "v < s" for v
        proof
          assume "matches_parsed p v"
          from match_is_slot [OF p v(1) this] have "s \<le> v" using s(3) v False by force
          then show False using v(3) by simp
        qed
        then have "\<forall>u. u mod MINUTE_MS = 0 \<and> ?floor \<le> u \<and> u < s \<longrightarrow> \<not> matches_parsed p u" by simp
        then have "clamped_slot p first s"
          unfolding clamped_slot_def if_P [OF near] using s(1) by (intro conjI)
        then show ?thesis using found Some here by (auto simp: minute_after_def)
      qed
    qed
  qed
qed

lemma default_schedule_trimmed: "js_trim APP_UPSTREAM_SYNC_DEFAULT_SCHEDULE = APP_UPSTREAM_SYNC_DEFAULT_SCHEDULE"
  by code_simp

lemma schedule_is_trimmed:
  "effective_schedule (Some (case nonEmptyString v of None \<Rightarrow> APP_UPSTREAM_SYNC_DEFAULT_SCHEDULE | Some s \<Rightarrow> s)) =
   effective_schedule (case v of JStr s \<Rightarrow> Some s | _ \<Rightarrow> None)"
  by (simp add: effective_schedule_def nonEmptyString_def opt_json_def default_schedule_trimmed Let_def
      split: json.split)

end
