(* ===== verification/Cron_Claims.thy ===== *)
theory Cron_Claims
  imports Upstream_Schedule
begin

text \<open>
  The properties of the cron matcher, of the heartbeat's slot search and of the upstream sync clock.
\<close>

text \<open>A parsed expression has five non-empty fields with every value in the range of its field; Sunday
  is always 0, never 7.
\<close>

theorem cron_fields_in_range:
  "case parseCron cron of
     Inl _ \<Rightarrow> True
   | Inr p \<Rightarrow>
       pc_minute p \<noteq> [] \<and> set (pc_minute p) \<subseteq> {0..59} \<and>
       pc_hour p \<noteq> [] \<and> set (pc_hour p) \<subseteq> {0..23} \<and>
       pc_dayOfMonth p \<noteq> [] \<and> set (pc_dayOfMonth p) \<subseteq> {1..31} \<and>
       pc_month p \<noteq> [] \<and> set (pc_month p) \<subseteq> {1..12} \<and>
       pc_dayOfWeek p \<noteq> [] \<and> set (pc_dayOfWeek p) \<subseteq> {0..6}"
proof (cases "parseCron cron")
  case (Inr p)
  have specs: "spec_ok MINUTE" "spec_ok HOUR" "spec_ok DOM" "spec_ok MONTH" "spec_ok DOW"
    by (simp_all add: spec_ok_def MINUTE_def HOUR_def DOM_def MONTH_def DOW_def)
  from parseCron_fields [OF Inr] obtain mi ho dm mo dw where f:
      "parseField mi MINUTE = Inr (pc_minute p)" "parseField ho HOUR = Inr (pc_hour p)"
      "parseField dm DOM = Inr (pc_dayOfMonth p)" "parseField mo MONTH = Inr (pc_month p)"
      "\<exists>ds. parseField dw DOW = Inr ds \<and> pc_dayOfWeek p = normalize_sunday ds" by blast
  then obtain ds where ds: "parseField dw DOW = Inr ds" "pc_dayOfWeek p = normalize_sunday ds" by blast
  have "pc_minute p \<noteq> [] \<and> set (pc_minute p) \<subseteq> {0..59}"
    using parseField_within [OF f(1) specs(1)] by (auto simp: MINUTE_def)
  moreover have "pc_hour p \<noteq> [] \<and> set (pc_hour p) \<subseteq> {0..23}"
    using parseField_within [OF f(2) specs(2)] by (auto simp: HOUR_def)
  moreover have "pc_dayOfMonth p \<noteq> [] \<and> set (pc_dayOfMonth p) \<subseteq> {1..31}"
    using parseField_within [OF f(3) specs(3)] by (auto simp: DOM_def)
  moreover have "pc_month p \<noteq> [] \<and> set (pc_month p) \<subseteq> {1..12}"
    using parseField_within [OF f(4) specs(4)] by (auto simp: MONTH_def)
  moreover have "pc_dayOfWeek p \<noteq> [] \<and> set (pc_dayOfWeek p) \<subseteq> {0..6}"
    unfolding ds(2) using parseField_within [OF ds(1) specs(5)] by (intro normalize_sunday_range) (auto simp: DOW_def)
  ultimately show ?thesis using Inr by simp
qed simp

text \<open>C19. The next heartbeat of an expression that parses is the first whole minute strictly after the
  given instant that matches it; null means that no minute of the lookahead window does. An absent,
  manual or unreadable cadence has none, and no cadence raises.
\<close>

theorem next_heartbeat_is_first_match:
  assumes "0 \<le> look"
  shows "case computeNextHeartbeat cadence from_ms look of
      Inl _ \<Rightarrow> False
    | Inr None \<Rightarrow> (case cadence of None \<Rightarrow> True | Some c \<Rightarrow> (case parseCron c of Inl _ \<Rightarrow> True
        | Inr p \<Rightarrow> (\<forall>u. minute_after from_ms u \<and> u < next_minute from_ms + look * MINUTE_MS \<longrightarrow> \<not> matches_parsed p u)))
    | Inr (Some s) \<Rightarrow> (\<exists>c p. cadence = Some c \<and> parseCron c = Inr p \<and> minute_after from_ms s \<and>
        s < next_minute from_ms + look * MINUTE_MS \<and> matches_parsed p s \<and>
        (\<forall>u. minute_after from_ms u \<and> u < s \<longrightarrow> \<not> matches_parsed p u))"
proof (cases cadence)
  case None
  then show ?thesis by (simp add: computeNextHeartbeat_def)
next
  case (Some c)
  show ?thesis
  proof (cases "parseCron c")
    case (Inl e)
    then show ?thesis using Some by (auto simp: computeNextHeartbeat_def)
  next
    case (Inr p)
    then show ?thesis
      using heartbeat_window [OF Inr assms, of from_ms] Some by (simp split: sum.splits option.splits)
  qed
qed

text \<open>Sunday 1970-01-04 23:59:30; the next Monday-morning minute that is a multiple of 20.\<close>

theorem next_heartbeat_is_first_match_witness:
  "computeNextHeartbeat (Some ''*/20 0-4 * * MON'') 345570000 10 = Inr (Some 345600000) \<and>
   (\<exists>p. parseCron ''*/20 0-4 * * MON'' = Inr p \<and> matches_parsed p 345600000 \<and>
     (\<forall>u. minute_after 345570000 u \<and> u < 345600000 \<longrightarrow> \<not> matches_parsed p u))"
proof -
  have run: "computeNextHeartbeat (Some ''*/20 0-4 * * MON'') 345570000 10 = Inr (Some 345600000)" by code_simp
  have "0 \<le> (10::int)" by simp
  from next_heartbeat_is_first_match [OF this, where cadence = "Some ''*/20 0-4 * * MON''" and from_ms = 345570000]
  show ?thesis unfolding run by auto
qed

text \<open>The upstream sync of a Work is due at a slot of its effective schedule plus its own jitter of 0
  to 299 seconds. The slot is the first one after the given instant when no other matching minute comes
  within an hour of it, and otherwise the first matching minute at least an hour after it. There is
  no result only when the search for a slot, its successor or a slot within that hour finds nothing in
  the lookahead window: the bound on the clamp's steps is never the reason.
\<close>

theorem upstream_slot_is_clamped:
  "case computeNextUpstreamSync schedule from_ms workId of
     None \<Rightarrow> (case heartbeat_slot (effective_schedule schedule) from_ms of None \<Rightarrow> True
       | Some first \<Rightarrow> \<exists>u\<ge>first. u < first + APP_UPSTREAM_SYNC_MIN_INTERVAL_MS \<and>
           heartbeat_slot (effective_schedule schedule) u = None)
   | Some due \<Rightarrow> \<exists>p first s. parseCron (effective_schedule schedule) = Inr p \<and>
       heartbeat_slot (effective_schedule schedule) from_ms = Some first \<and>
       due = s + upstreamSyncJitterMs workId \<and>
       0 \<le> upstreamSyncJitterMs workId \<and> upstreamSyncJitterMs workId \<le> APP_UPSTREAM_SYNC_JITTER_MAX_MS - 1000 \<and>
       matches_parsed p s \<and> s mod MINUTE_MS = 0 \<and> clamped_slot p first s"
proof -
  obtain p where p: "parseCron (effective_schedule schedule) = Inr p" using effective_schedule_parsed by blast
  show ?thesis
  proof (cases "slotFor (effective_schedule schedule) from_ms")
    case None
    then show ?thesis using slotFor_spec [OF p, of from_ms] by (simp add: computeNextUpstreamSync_def)
  next
    case (Some s)
    then have due: "computeNextUpstreamSync schedule from_ms workId = Some (s + upstreamSyncJitterMs workId)"
      by (simp add: computeNextUpstreamSync_def)
    obtain first where first: "heartbeat_slot (effective_schedule schedule) from_ms = Some first"
        "matches_parsed p s" "s mod MINUTE_MS = 0" "clamped_slot p first s"
      using slotFor_spec [OF p, of from_ms, unfolded Some option.case] by (elim exE conjE) (rule that)
    show ?thesis unfolding due option.case
      by (rule exI [of _ p], rule exI [of _ first], rule exI [of _ s])
        (intro conjI p first jitter_bounds refl)
  qed
qed

lemma max_clamp_steps: "MAX_CLAMP_STEPS = Suc (Suc 9598)"
  by (simp add: MAX_CLAMP_STEPS_def)

lemma half_hourly_slot: "slotFor (effective_schedule (Some ''*/30 * * * *'')) 0 = Some (1800000 + 3600000)"
proof -
  have effective: "effective_schedule (Some ''*/30 * * * *'') = ''*/30 * * * *''" by code_simp
  define p where "p = \<lparr>pc_minute = [0, 30], pc_hour = cron_steps 0 23 1, pc_dayOfMonth = cron_steps 1 31 1,
    pc_month = cron_steps 1 12 1, pc_dayOfWeek = normalize_sunday (cron_steps 0 7 1),
    pc_domRestricted = False, pc_dowRestricted = False\<rparr>"
  have parsed: "parseCron ''*/30 * * * *'' = Inr p" unfolding p_def by code_simp
  have tries: "int 30 \<le> MAX_LOOKAHEAD_MINUTES" by (simp add: MAX_LOOKAHEAD_MINUTES_def)
  have "heartbeat_slot ''*/30 * * * *'' 0 = Some 1800000"
    by (rule heartbeat_slot_find [OF parsed tries]) (unfold p_def, code_simp)
  moreover have "heartbeat_slot ''*/30 * * * *'' 1800000 = Some 3600000"
    by (rule heartbeat_slot_find [OF parsed tries]) (unfold p_def, code_simp)
  moreover have "heartbeat_slot ''*/30 * * * *'' 3600000 = Some 5400000"
    by (rule heartbeat_slot_find [OF parsed tries]) (unfold p_def, code_simp)
  moreover from this have "clamp_walk (heartbeat_slot ''*/30 * * * *'') 5400000 MAX_CLAMP_STEPS 3600000 = Some 5400000"
    unfolding max_clamp_steps clamp_walk.simps by simp
  ultimately show ?thesis unfolding effective slotFor_def by (simp add: APP_UPSTREAM_SYNC_MIN_INTERVAL_MS_def)
qed

text \<open>Every half hour from the epoch is treated as hourly.\<close>

theorem upstream_slot_is_clamped_witness:
  "computeNextUpstreamSync (Some ''*/30 * * * *'') 0 ''w'' = Some (1800000 + 3600000 + upstreamSyncJitterMs ''w'') \<and>
   upstreamSyncJitterMs ''w'' \<le> 299000"
proof -
  have run: "computeNextUpstreamSync (Some ''*/30 * * * *'') 0 ''w'' = Some (1800000 + 3600000 + upstreamSyncJitterMs ''w'')"
    using half_hourly_slot by (simp add: computeNextUpstreamSync_def)
  show ?thesis
    using upstream_slot_is_clamped [of "Some ''*/30 * * * *''" 0 "''w''"] unfolding run
    by (auto simp: APP_UPSTREAM_SYNC_JITTER_MAX_MS_def)
qed

text \<open>The settings decide whether anything is scheduled: nothing without settings, when the spec turns
  the schedule off, or in a mode other than merge; a spec without the block is scheduled by the default.
\<close>

theorem settings_decide_the_schedule:
  "nextUpstreamSyncAt (Some (readUpstreamSyncSettings spec)) from_ms workId =
     (if own_prop (own_prop spec ''upstreamSync'') ''enabled'' = JBool False then None
      else if nonEmptyString (own_prop (own_prop spec ''upstreamSync'') ''mode'') \<in> {None, Some ''merge''}
      then computeNextUpstreamSync
        (case own_prop (own_prop spec ''upstreamSync'') ''schedule'' of JStr s \<Rightarrow> Some s | _ \<Rightarrow> None) from_ms workId
      else None)"
proof -
  have trimmed: "effective_schedule (Some (case nonEmptyString v of None \<Rightarrow> APP_UPSTREAM_SYNC_DEFAULT_SCHEDULE | Some s \<Rightarrow> s)) =
      effective_schedule (case v of JStr s \<Rightarrow> Some s | _ \<Rightarrow> None)" for v
    by (rule schedule_is_trimmed)
  show ?thesis
    by (auto simp: nextUpstreamSyncAt_def readUpstreamSyncSettings_def computeNextUpstreamSync_def trimmed Let_def
        APP_UPSTREAM_SYNC_HONOURED_MODE_def split: option.splits json.splits)
qed

text \<open>
  The clamp looks one slot ahead of the first one only, so two consecutive runs can be half an hour
  apart: at 04:00 the next slot is 04:30, because the one after it is 06:00.
\<close>

lemma runs_half_an_hour_apart:
  "slotFor ''0,30 */2 * * *'' 7140000 = Some 14400000 \<and> slotFor ''0,30 */2 * * *'' 14400000 = Some 16200000"
proof -
  define p where "p = \<lparr>pc_minute = [0, 30], pc_hour = cron_steps 0 23 2, pc_dayOfMonth = cron_steps 1 31 1,
    pc_month = cron_steps 1 12 1, pc_dayOfWeek = normalize_sunday (cron_steps 0 7 1),
    pc_domRestricted = False, pc_dowRestricted = False\<rparr>"
  have parsed: "parseCron ''0,30 */2 * * *'' = Inr p" unfolding p_def by code_simp
  have tries: "int 90 \<le> MAX_LOOKAHEAD_MINUTES" by (simp add: MAX_LOOKAHEAD_MINUTES_def)
  note found = heartbeat_slot_find [OF parsed tries, unfolded p_def]
  have slots: "heartbeat_slot ''0,30 */2 * * *'' 7140000 = Some 7200000"
    "heartbeat_slot ''0,30 */2 * * *'' 7200000 = Some 9000000"
    "heartbeat_slot ''0,30 */2 * * *'' 9000000 = Some 14400000"
    "heartbeat_slot ''0,30 */2 * * *'' 14400000 = Some 16200000"
    "heartbeat_slot ''0,30 */2 * * *'' 16200000 = Some 21600000"
    by (rule found, code_simp)+
  have "clamp_walk (heartbeat_slot ''0,30 */2 * * *'') 10800000 MAX_CLAMP_STEPS 9000000 = Some 14400000"
    unfolding max_clamp_steps clamp_walk.simps using slots by simp
  then show ?thesis using slots by (simp add: slotFor_def APP_UPSTREAM_SYNC_MIN_INTERVAL_MS_def)
qed

end
