(* ===== verification/Dotenv.thy ===== *)
theory Dotenv
  imports Prelude
begin

text \<open>
  The \<open>.env\<close> import parser of \<open>app-env/dotenv-parser.ts\<close>. A string is the list of its UTF-16 code
  units, so that the byte-order mark and the UTF-8 length are the code's. An index into the text is the
  suffix that starts there: \<open>next\<close> is what is left to scan. A value that is not a string is \<open>None\<close>.
\<close>

type_synonym units = "nat list"

definition text_of :: "string \<Rightarrow> units" where
  "text_of s = map of_char s"

section \<open>Constants\<close>

definition APP_ENV_RESERVED_PREFIX :: units where "APP_ENV_RESERVED_PREFIX = text_of ''EVER_WORKS_''"
definition APP_ENV_VALUE_MAX_BYTES :: nat where "APP_ENV_VALUE_MAX_BYTES = 65536"
definition APP_ENV_DOTENV_MAX_BYTES :: nat where "APP_ENV_DOTENV_MAX_BYTES = 65536"
definition APP_ENV_DOTENV_MAX_LINES :: nat where "APP_ENV_DOTENV_MAX_LINES = 500"
definition BOM :: nat where "BOM = 0xFEFF"

text \<open>\<open>APP_ENV_NAME_PATTERN\<close>: a capital or underscore, then at most 127 capitals, digits or underscores.\<close>

definition name_start :: "nat \<Rightarrow> bool" where
  "name_start c \<longleftrightarrow> 65 \<le> c \<and> c \<le> 90 \<or> c = 95"

definition name_part :: "nat \<Rightarrow> bool" where
  "name_part c \<longleftrightarrow> name_start c \<or> 48 \<le> c \<and> c \<le> 57"

definition valid_name :: "units \<Rightarrow> bool" where
  "valid_name s = (case s of [] \<Rightarrow> False | c # cs \<Rightarrow> name_start c \<and> list_all name_part cs \<and> length cs \<le> 127)"

definition reserved_name :: "units \<Rightarrow> bool" where
  "reserved_name s \<longleftrightarrow> take (length APP_ENV_RESERVED_PREFIX) s = APP_ENV_RESERVED_PREFIX"

section \<open>Bytes and lines\<close>

text \<open>\<open>Buffer.byteLength(s, 'utf8')\<close>: a surrogate pair is four bytes, a lone surrogate three.\<close>

definition high_surrogate :: "nat \<Rightarrow> bool" where "high_surrogate c \<longleftrightarrow> 0xD800 \<le> c \<and> c \<le> 0xDBFF"
definition low_surrogate :: "nat \<Rightarrow> bool" where "low_surrogate c \<longleftrightarrow> 0xDC00 \<le> c \<and> c \<le> 0xDFFF"

definition unit_bytes :: "nat \<Rightarrow> nat" where
  "unit_bytes c = (if c < 0x80 then 1 else if c < 0x800 then 2 else 3)"

fun utf8_length :: "units \<Rightarrow> nat" where
  "utf8_length [] = 0"
| "utf8_length [c] = unit_bytes c"
| "utf8_length (c # d # s) =
     (if high_surrogate c \<and> low_surrogate d then 4 + utf8_length s else unit_bytes c + utf8_length (d # s))"

definition stripBom :: "units \<Rightarrow> units" where
  "stripBom source = (case source of [] \<Rightarrow> [] | c # cs \<Rightarrow> if c = BOM then cs else source)"

fun normalizeNewlines :: "units \<Rightarrow> units" where
  "normalizeNewlines [] = []"
| "normalizeNewlines [c] = [if c = 13 then 10 else c]"
| "normalizeNewlines (c # d # s) =
     (if c = 13 \<and> d = 10 then 10 # normalizeNewlines s
      else (if c = 13 then 10 else c) # normalizeNewlines (d # s))"

definition breaks :: "units \<Rightarrow> nat" where
  "breaks s = length (filter (\<lambda>c. c = 10) s)"

definition countLines :: "units \<Rightarrow> nat" where
  "countLines s = (if s = [] then 0 else if last s = 10 then breaks s else breaks s + 1)"

text \<open>The line that starts here, what follows its break, and whether it has one.\<close>

definition this_line :: "units \<Rightarrow> units" where "this_line s = takeWhile (\<lambda>c. c \<noteq> 10) s"
definition after_line :: "units \<Rightarrow> units" where "after_line s = drop 1 (dropWhile (\<lambda>c. c \<noteq> 10) s)"
definition line_break :: "units \<Rightarrow> nat" where "line_break s = (if 10 \<in> set s then 1 else 0)"

section \<open>Horizontal whitespace\<close>

definition blank :: "nat \<Rightarrow> bool" where "blank c \<longleftrightarrow> c = 32 \<or> c = 9"

definition skipHorizontalWhitespace :: "units \<Rightarrow> units" where
  "skipHorizontalWhitespace s = dropWhile blank s"

definition trimHorizontal :: "units \<Rightarrow> units" where
  "trimHorizontal s = rev (dropWhile blank (rev (dropWhile blank s)))"

definition skipExportPrefix :: "units \<Rightarrow> units" where
  "skipExportPrefix s =
     (if take 6 s = text_of ''export'' \<and> drop 6 s \<noteq> [] \<and> blank (hd (drop 6 s)) then dropWhile blank (drop 6 s) else s)"

text \<open>The text before the first match of \<open>/[\t ]+#/\<close>, which starts at the first blank of its run.\<close>

fun before_comment :: "units \<Rightarrow> units" where
  "before_comment [] = []"
| "before_comment (c # s) =
     (if blank c \<and> (case dropWhile blank s of [] \<Rightarrow> False | h # _ \<Rightarrow> h = 35) then [] else c # before_comment s)"

definition trimUnquotedValue :: "units \<Rightarrow> units" where
  "trimUnquotedValue s = trimHorizontal (before_comment s)"

definition resolveEscape :: "nat \<Rightarrow> units" where
  "resolveEscape e =
     (if e = 110 then [10] else if e = 116 then [9] else if e = 114 then [13]
      else if e = 34 then [34] else if e = 92 then [92] else [92, e])"

section \<open>Values\<close>

datatype refusal_reason = MalformedLine | InvalidName | ReservedName | ValueTooLarge

datatype value_outcome = ValueRefusal refusal_reason | Value units

datatype line_outcome = Blank | Refusal refusal_reason | Entry units units

record value_scan =
  vs_next :: units
  vs_newlines :: nat
  vs_outcome :: value_outcome

record line_scan =
  ls_next :: units
  ls_newlines :: nat
  ls_outcome :: line_outcome

definition malformed :: "units \<Rightarrow> nat \<Rightarrow> value_scan" where
  "malformed resume newlines = \<lparr>vs_next = resume, vs_newlines = newlines, vs_outcome = ValueRefusal MalformedLine\<rparr>"

text \<open>The branch of the closing quote; the text is what follows it.\<close>

definition close_quote :: "units \<Rightarrow> units \<Rightarrow> nat \<Rightarrow> value_scan" where
  "close_quote s value newlines =
     (let remainder = trimHorizontal (this_line s) in
      if remainder \<noteq> [] \<and> hd remainder \<noteq> 35 then malformed (after_line s) (newlines + line_break s)
      else if utf8_length value > APP_ENV_VALUE_MAX_BYTES
      then \<lparr>vs_next = after_line s, vs_newlines = newlines + line_break s, vs_outcome = ValueRefusal ValueTooLarge\<rparr>
      else \<lparr>vs_next = after_line s, vs_newlines = newlines + line_break s, vs_outcome = Value value\<rparr>)"

text \<open>The loop of a quoted value; the text starts after the opening quote.\<close>

fun scan_quoted :: "nat \<Rightarrow> units \<Rightarrow> units \<Rightarrow> nat \<Rightarrow> value_scan" where
  "scan_quoted quote [] value newlines = malformed [] newlines"
| "scan_quoted quote (c # s) value newlines =
     (if quote = 34 \<and> c = 92
      then (case s of
          [] \<Rightarrow> malformed [] newlines
        | e # s' \<Rightarrow> if e = 10 then scan_quoted quote s' value (newlines + 1)
            else scan_quoted quote s' (value @ resolveEscape e) newlines)
      else if c = quote then close_quote s value newlines
      else if c = 10
      then (if quote \<noteq> 34 then malformed s (newlines + 1) else scan_quoted quote s (value @ [10]) (newlines + 1))
      else scan_quoted quote s (value @ [c]) newlines)"

definition scanQuotedValue :: "nat \<Rightarrow> units \<Rightarrow> value_scan" where
  "scanQuotedValue quote s = scan_quoted quote s [] 0"

text \<open>The value after the equals sign.\<close>

definition scanValue :: "units \<Rightarrow> value_scan" where
  "scanValue s =
     (let at_value = skipHorizontalWhitespace s in
      case at_value of
        [] \<Rightarrow> \<lparr>vs_next = after_line s, vs_newlines = line_break s, vs_outcome = Value (trimUnquotedValue (this_line at_value))\<rparr>
      | c # body \<Rightarrow>
          if c = 34 \<or> c = 39 then scanQuotedValue c body
          else \<lparr>vs_next = after_line s, vs_newlines = line_break s, vs_outcome = Value (trimUnquotedValue (this_line at_value))\<rparr>)"

section \<open>Lines\<close>

definition scanLine :: "units \<Rightarrow> line_scan" where
  "scanLine s =
     (let indented = skipHorizontalWhitespace s;
          stop = (\<lambda>out. \<lparr>ls_next = after_line s, ls_newlines = line_break s, ls_outcome = out\<rparr>)
      in if indented = [] \<or> hd indented = 10 \<or> hd indented = 35 then stop Blank
         else (let body = skipExportPrefix indented in
           if 61 \<notin> set (this_line body) then stop (Refusal MalformedLine)
           else (let name = trimHorizontal (takeWhile (\<lambda>c. c \<noteq> 61) body) in
             if \<not> valid_name name then stop (Refusal InvalidName)
             else if reserved_name name then stop (Refusal ReservedName)
             else (let v = scanValue (drop 1 (dropWhile (\<lambda>c. c \<noteq> 61) body)) in
               \<lparr>ls_next = vs_next v, ls_newlines = vs_newlines v,
                ls_outcome = (case vs_outcome v of ValueRefusal r \<Rightarrow> Refusal r | Value x \<Rightarrow> Entry name x)\<rparr>))))"

section \<open>The paste\<close>

record occurrence =
  oc_name :: units
  oc_value :: units
  oc_line :: nat

record line_refusal =
  rl_line :: nat
  rl_reason :: refusal_reason
  rl_message :: string

record duplicate =
  du_line :: nat
  du_name :: units
  du_winnerLine :: nat

datatype limit_code = TooManyValues | ValuesTooLarge

datatype parse_result =
    Limits limit_code nat nat string
  | Parsed "occurrence list" "line_refusal list" "duplicate list" nat

definition refusalMessage :: "nat \<Rightarrow> refusal_reason \<Rightarrow> string" where
  "refusalMessage line reason = ''Line '' @ decimal line @ (case reason of
     MalformedLine \<Rightarrow> '' isn't a `NAME=value` line.''
   | InvalidName \<Rightarrow> '' doesn't start with a valid environment variable name (names match ^[A-Z_][A-Z0-9_]{0,127}$).''
   | ReservedName \<Rightarrow> '' uses `EVER_WORKS_`, which is reserved for Ever Works.''
   | ValueTooLarge \<Rightarrow> '' has a value larger than '' @ decimal APP_ENV_VALUE_MAX_BYTES @ '' bytes.'')"

definition limitRefusal :: "limit_code \<Rightarrow> nat \<Rightarrow> nat \<Rightarrow> parse_result" where
  "limitRefusal code limit actual = Limits code limit actual
     (''The pasted text has '' @ decimal actual @ '' '' @
      (case code of ValuesTooLarge \<Rightarrow> ''bytes'' | TooManyValues \<Rightarrow> ''lines'') @
      '', more than the '' @ decimal limit @ '' allowed.'')"

text \<open>The loop over the lines, with the code's assertion of progress.\<close>

function parse_lines :: "units \<Rightarrow> nat \<Rightarrow> occurrence list \<Rightarrow> line_refusal list \<Rightarrow> occurrence list \<times> line_refusal list" where
  "parse_lines s line occs refused =
     (if s = [] then (occs, refused)
      else (let scan = scanLine s;
                cursor = (if length (ls_next scan) < length s then ls_next scan else []);
                number = line + ls_newlines scan
            in case ls_outcome scan of
                Entry name v \<Rightarrow> parse_lines cursor number (occs @ [\<lparr>oc_name = name, oc_value = v, oc_line = line\<rparr>]) refused
              | Refusal r \<Rightarrow> parse_lines cursor number occs
                  (refused @ [\<lparr>rl_line = line, rl_reason = r, rl_message = refusalMessage line r\<rparr>])
              | Blank \<Rightarrow> parse_lines cursor number occs refused))"
  by pat_completeness auto
termination by (relation "measure (\<lambda>(s, line, occs, refused). length s)") auto

declare parse_lines.simps [simp del]

definition see_occurrence :: "units list \<times> (units \<rightharpoonup> occurrence) \<Rightarrow> occurrence \<Rightarrow> units list \<times> (units \<rightharpoonup> occurrence)" where
  "see_occurrence state x = (case state of (firstSeen, winners) \<Rightarrow>
     (if winners (oc_name x) = None then firstSeen @ [oc_name x] else firstSeen, winners(oc_name x \<mapsto> x)))"

definition resolveDuplicates :: "occurrence list \<Rightarrow> occurrence list \<times> duplicate list" where
  "resolveDuplicates occs = (case foldl see_occurrence ([], Map.empty) occs of (firstSeen, winners) \<Rightarrow>
     (map (\<lambda>n. let winner = the (winners n) in \<lparr>oc_name = n, oc_value = oc_value winner, oc_line = oc_line winner\<rparr>) firstSeen,
      map (\<lambda>x. \<lparr>du_line = oc_line x, du_name = oc_name x, du_winnerLine = oc_line (the (winners (oc_name x)))\<rparr>)
        (filter (\<lambda>x. oc_line (the (winners (oc_name x))) \<noteq> oc_line x) occs)))"

definition parseAppEnvDotenv :: "units option \<Rightarrow> parse_result" where
  "parseAppEnvDotenv text =
     (let source = (case text of None \<Rightarrow> [] | Some s \<Rightarrow> s); bytes = utf8_length source in
      if bytes > APP_ENV_DOTENV_MAX_BYTES then limitRefusal ValuesTooLarge APP_ENV_DOTENV_MAX_BYTES bytes
      else (let normalized = normalizeNewlines (stripBom source); lines = countLines normalized in
        if lines > APP_ENV_DOTENV_MAX_LINES then limitRefusal TooManyValues APP_ENV_DOTENV_MAX_LINES lines
        else (case parse_lines normalized 1 [] [] of (occs, refused) \<Rightarrow>
          (case resolveDuplicates occs of (entries, duplicates) \<Rightarrow> Parsed entries refused duplicates lines))))"

end
