(* ===== verification/Dotenv_Laws.thy ===== *)
theory Dotenv_Laws
  imports Dotenv Js_Values
begin

text \<open>
  The lines of the \<open>.env\<close> parser: every scan consumes a prefix of the text and counts its line breaks, so
  that the loop of the parser is a map over the logical lines and their numbers are the lines' own.
\<close>

section \<open>Consumption\<close>

lemma breaks_simps [simp]:
  "breaks [] = 0" "breaks (c # s) = (if c = 10 then 1 else 0) + breaks s" "breaks (a @ b) = breaks a + breaks b"
  by (simp_all add: breaks_def)

lemma breaks_none: "10 \<notin> set s \<Longrightarrow> breaks s = 0"
  by (induction s) auto

text \<open>
  A prefix is consumed while the count goes from \<open>n\<close> to \<open>m\<close>; what is left is nothing or the start of a
  line.
\<close>

definition consumed :: "units \<Rightarrow> nat \<Rightarrow> nat \<Rightarrow> units \<Rightarrow> bool" where
  "consumed s n m rest \<longleftrightarrow> (\<exists>pre. s = pre @ rest \<and> m = n + breaks pre \<and> (rest = [] \<or> pre \<noteq> [] \<and> last pre = 10))"

lemma consumed_prefix:
  assumes "consumed s (n + breaks p) m rest"
  shows "consumed (p @ s) n m rest"
proof -
  obtain pre where "s = pre @ rest" "m = n + breaks p + breaks pre" "rest = [] \<or> pre \<noteq> [] \<and> last pre = 10"
    using assms by (auto simp: consumed_def)
  then show ?thesis unfolding consumed_def by (intro exI [of _ "p @ pre"]) auto
qed

lemma consumed_cons: "consumed s (n + (if c = 10 then 1 else 0)) m rest \<Longrightarrow> consumed (c # s) n m rest"
  using consumed_prefix [of s n "[c]" m rest] by simp

lemma consumed_skip: "consumed s n m rest \<Longrightarrow> 10 \<notin> set p \<Longrightarrow> consumed (p @ s) n m rest"
  using consumed_prefix [of s n p m rest] by (simp add: breaks_none)

lemma consumed_nil: "m = n + breaks s \<Longrightarrow> consumed s n m []"
  by (auto simp: consumed_def)

lemma consumed_line: "consumed s n (n + line_break s) (after_line s)"
proof (cases "10 \<in> set s")
  case True
  then obtain a b where s: "s = a @ 10 # b" "10 \<notin> set a" by (meson split_list_first)
  have "dropWhile (\<lambda>c. c \<noteq> 10) (a @ 10 # b) = 10 # b" using s(2) by (subst dropWhile_append2) auto
  then have rest: "after_line s = b" "line_break s = 1"
    using s by (simp_all add: after_line_def line_break_def)
  have "breaks (a @ [10]) = 1" using s(2) by (simp add: breaks_none)
  then show ?thesis
    unfolding consumed_def rest using s(1) by (intro exI [of _ "a @ [10]"]) simp
next
  case False
  then have "dropWhile (\<lambda>c. c \<noteq> 10) s = []" by (simp add: dropWhile_eq_Nil_conv) metis
  then have "after_line s = []" unfolding after_line_def by (metis drop_Nil)
  then show ?thesis using False by (simp add: line_break_def breaks_none consumed_nil)
qed

lemma consumed_close: "consumed s n (vs_newlines (close_quote s v n)) (vs_next (close_quote s v n))"
  using consumed_line [of s n] by (simp add: close_quote_def malformed_def Let_def)

text \<open>The branches of the loop, for either quote.\<close>

lemma quoted_branches:
  assumes "q = 34 \<or> q = 39"
  shows "scan_quoted q (q # s) v n = close_quote s v n"
    and "c \<noteq> q \<Longrightarrow> c \<noteq> 10 \<Longrightarrow> q = 39 \<or> c \<noteq> 92 \<Longrightarrow> scan_quoted q (c # s) v n = scan_quoted q s (v @ [c]) n"
    and "scan_quoted 39 (10 # s) v n = malformed s (n + 1)"
    and "scan_quoted 34 (10 # s) v n = scan_quoted 34 s (v @ [10]) (n + 1)"
    and "scan_quoted 34 [92] v n = malformed [] n"
    and "scan_quoted 34 (92 # 10 # s) v n = scan_quoted 34 s v (n + 1)"
    and "e \<noteq> 10 \<Longrightarrow> scan_quoted 34 (92 # e # s) v n = scan_quoted 34 s (v @ resolveEscape e) n"
  using assms by (auto simp del: scan_quoted.simps(2) simp: scan_quoted.simps(2) [of q] scan_quoted.simps(2) [of 39 10] scan_quoted.simps(2) [of 34])

text \<open>Induction over the loop by these branches.\<close>

lemma quoted_induct [consumes 1, case_names Nil Close Char Break_single Break_double Trailing Continuation Escape]:
  assumes q: "q = 34 \<or> q = 39"
    and nil: "\<And>v n. P [] v n"
    and close: "\<And>s v n. P (q # s) v n"
    and char: "\<And>c s v n. c \<noteq> q \<Longrightarrow> c \<noteq> 10 \<Longrightarrow> q = 39 \<or> c \<noteq> 92 \<Longrightarrow> P s (v @ [c]) n \<Longrightarrow> P (c # s) v n"
    and single: "\<And>s v n. q = 39 \<Longrightarrow> P (10 # s) v n"
    and double: "\<And>s v n. q = 34 \<Longrightarrow> P s (v @ [10]) (n + 1) \<Longrightarrow> P (10 # s) v n"
    and trailing: "\<And>v n. q = 34 \<Longrightarrow> P [92] v n"
    and continuation: "\<And>s v n. q = 34 \<Longrightarrow> P s v (n + 1) \<Longrightarrow> P (92 # 10 # s) v n"
    and escape: "\<And>e s v n. q = 34 \<Longrightarrow> e \<noteq> 10 \<Longrightarrow> P s (v @ resolveEscape e) n \<Longrightarrow> P (92 # e # s) v n"
  shows "P s v n"
proof (induction s arbitrary: v n rule: length_induct)
  case (1 s)
  show ?case
  proof (cases s)
    case Nil
    then show ?thesis using nil by simp
  next
    case (Cons c t)
    have ih: "P u w m" if "length u < length s" for u w m using 1 that by blast
    consider "c = q" | "c = 10" | "q = 34" "c = 92" | "c \<noteq> q" "c \<noteq> 10" "q = 39 \<or> c \<noteq> 92" using q by auto
    then show ?thesis
    proof cases
      case 3
      then show ?thesis
        using Cons trailing continuation [OF 3(1) ih] escape [OF 3(1) _ ih] by (cases t; cases "hd t = 10") auto
    qed (use Cons q ih close char single double in auto)
  qed
qed

lemma consumed_quoted:
  assumes "q = 34 \<or> q = 39"
  shows "consumed s n (vs_newlines (scan_quoted q s v n)) (vs_next (scan_quoted q s v n))"
  using assms
proof (induction s v n rule: quoted_induct)
  case (Close s v n)
  then show ?case using assms consumed_cons [of s n q, OF consumed_close [of s "n + (if q = 10 then 1 else 0)" v]]
    by (auto simp: quoted_branches(1) [OF assms])
next
  case (Char c s v n)
  then show ?case using consumed_cons [of s n c] unfolding quoted_branches(2) [OF assms Char(1,2,3)] by simp
next
  case (Break_single s v n)
  have "consumed [10] n (n + 1) []" by (simp add: consumed_nil)
  have "consumed (10 # s) n (n + 1) s" by (auto simp: consumed_def intro: exI [of _ "[10]"])
  then show ?case using Break_single by (simp add: malformed_def)
next
  case (Break_double s v n)
  then show ?case using consumed_cons [of s n 10] by simp
next
  case (Continuation s v n)
  then show ?case using consumed_prefix [of s n "[92, 10]"] by simp
next
  case (Escape e s v n)
  then show ?case using consumed_prefix [of s n "[92, e]"] by simp
qed (simp_all add: malformed_def consumed_nil)

declare scan_quoted.simps(2) [simp del]

lemma consumed_value: "consumed s n (n + vs_newlines (scanValue s)) (vs_next (scanValue s))"
proof -
  define p where "p = takeWhile blank s"
  have s: "s = p @ skipHorizontalWhitespace s" by (simp add: p_def skipHorizontalWhitespace_def)
  have p: "10 \<notin> set p" by (auto simp: p_def blank_def dest: set_takeWhileD)
  have line: "consumed s n (n + line_break s) (after_line s)" by (rule consumed_line)
  show ?thesis
  proof (cases "skipHorizontalWhitespace s")
    case Nil
    then show ?thesis using line by (simp add: scanValue_def)
  next
    case (Cons c body)
    show ?thesis
    proof (cases "c = 34 \<or> c = 39")
      case True
      have shift: "consumed t (n + k) (n + m) r" if "consumed t k m r" for t k m r
        using that by (auto simp: consumed_def)
      have "consumed (p @ [c] @ body) n (n + vs_newlines (scanQuotedValue c body)) (vs_next (scanQuotedValue c body))"
        unfolding scanQuotedValue_def using shift [OF consumed_quoted [OF True, of body 0 "[]"]] p True
        by (intro consumed_skip consumed_cons) auto
      then show ?thesis using s Cons True by (simp add: scanValue_def)
    next
      case False
      then show ?thesis using line Cons by (simp add: scanValue_def)
    qed
  qed
qed

text \<open>Every scan ends at the start of a later line or at the end, and counts the breaks it passed.\<close>

lemma takeWhile_line: "61 \<in> set (this_line s) \<Longrightarrow> 10 \<notin> set (takeWhile (\<lambda>c. c \<noteq> 61) s)"
  by (induction s) (auto simp: this_line_def split: if_splits)

lemma drop_export: "\<exists>p. s = p @ skipExportPrefix s \<and> 10 \<notin> set p"
proof (cases "take 6 s = text_of ''export'' \<and> drop 6 s \<noteq> [] \<and> blank (hd (drop 6 s))")
  case True
  have "s = take 6 s @ takeWhile blank (drop 6 s) @ dropWhile blank (drop 6 s)" by simp
  moreover have "10 \<notin> set (take 6 s)" using True by (auto simp: text_of_def)
  moreover have "10 \<notin> set (takeWhile blank (drop 6 s))" by (auto simp: blank_def dest: set_takeWhileD)
  ultimately show ?thesis
    using True unfolding skipExportPrefix_def
    by (intro exI [of _ "take 6 s @ takeWhile blank (drop 6 s)"]) auto
next
  case False
  then show ?thesis by (auto simp: skipExportPrefix_def)
qed

lemma consumed_scan: "consumed s n (n + ls_newlines (scanLine s)) (ls_next (scanLine s))"
proof -
  define indented where "indented = skipHorizontalWhitespace s"
  define body where "body = skipExportPrefix indented"
  define tail where "tail = drop 1 (dropWhile (\<lambda>c. c \<noteq> 61) body)"
  have line: "consumed s n (n + line_break s) (after_line s)" by (rule consumed_line)
  show ?thesis
  proof (cases "indented = [] \<or> hd indented = 10 \<or> hd indented = 35 \<or> 61 \<notin> set (this_line body) \<or>
      \<not> valid_name (trimHorizontal (takeWhile (\<lambda>c. c \<noteq> 61) body)) \<or>
      reserved_name (trimHorizontal (takeWhile (\<lambda>c. c \<noteq> 61) body))")
    case True
    then have "ls_newlines (scanLine s) = line_break s \<and> ls_next (scanLine s) = after_line s"
      by (auto simp: scanLine_def Let_def indented_def body_def)
    then show ?thesis using line by simp
  next
    case False
    then have scan: "ls_newlines (scanLine s) = vs_newlines (scanValue tail)" "ls_next (scanLine s) = vs_next (scanValue tail)"
      by (simp_all add: scanLine_def Let_def indented_def body_def tail_def)
    have eq: "61 \<in> set (this_line body)" using False by blast
    then have "61 \<in> set body" by (auto simp: this_line_def dest: set_takeWhileD)
    then have "dropWhile (\<lambda>c. c \<noteq> 61) body = 61 # tail"
      unfolding tail_def by (induction body) auto
    then have body: "body = takeWhile (\<lambda>c. c \<noteq> 61) body @ 61 # tail" by (metis takeWhile_dropWhile_id)
    obtain p where p: "indented = p @ body" "10 \<notin> set p" using drop_export [of indented] by (auto simp: body_def)
    have s: "s = takeWhile blank s @ indented" by (simp add: indented_def skipHorizontalWhitespace_def)
    have no10: "10 \<notin> set (takeWhile blank s)" by (auto simp: blank_def dest: set_takeWhileD)
    have "consumed (takeWhile blank s @ p @ takeWhile (\<lambda>c. c \<noteq> 61) body @ [61] @ tail) n
        (n + vs_newlines (scanValue tail)) (vs_next (scanValue tail))"
      using no10 p(2) takeWhile_line [OF eq] consumed_value [of tail n] by (intro consumed_skip) auto
    then show ?thesis unfolding scan using s p(1) body by simp
  qed
qed

lemma scan_progress:
  assumes "s \<noteq> []"
  shows "length (ls_next (scanLine s)) < length s"
proof -
  obtain pre where pre: "s = pre @ ls_next (scanLine s)" "ls_next (scanLine s) = [] \<or> pre \<noteq> []"
    using consumed_scan [of s 0] by (auto simp: consumed_def)
  have "length s = length pre + length (ls_next (scanLine s))" using arg_cong [OF pre(1), of length] by simp
  then show ?thesis using pre(2) assms by auto
qed

section \<open>The lines of a text\<close>

text \<open>The logical lines: where the scanner starts, with the number of the line.\<close>

function logical_lines :: "units \<Rightarrow> nat \<Rightarrow> (nat \<times> units) list" where
  "logical_lines s k = (if s = [] then []
     else (k, s) # logical_lines (ls_next (scanLine s)) (k + ls_newlines (scanLine s)))"
  by pat_completeness auto
termination by (relation "measure (\<lambda>(s, k). length s)") (auto intro: scan_progress)

declare logical_lines.simps [simp del]

lemma logical_lines_simps [simp]:
  "logical_lines [] k = []"
  "s \<noteq> [] \<Longrightarrow> logical_lines s k = (k, s) # logical_lines (ls_next (scanLine s)) (k + ls_newlines (scanLine s))"
  by (simp_all add: logical_lines.simps [of s] logical_lines.simps [of "[]"])

text \<open>Its number is the number of the line of the tx it starts on.\<close>

definition starts_line :: "units \<Rightarrow> nat \<Rightarrow> units \<Rightarrow> bool" where
  "starts_line tx k s \<longleftrightarrow> (\<exists>pre. tx = pre @ s \<and> k = 1 + breaks pre \<and> (pre = [] \<or> last pre = 10))"

lemma starts_line_scan:
  assumes "starts_line tx k s"
  shows "starts_line tx (k + ls_newlines (scanLine s)) (ls_next (scanLine s)) \<or> ls_next (scanLine s) = []"
proof -
  obtain pre where pre: "tx = pre @ s" "k = 1 + breaks pre" using assms by (auto simp: starts_line_def)
  obtain p where p: "s = p @ ls_next (scanLine s)" "k + ls_newlines (scanLine s) = k + breaks p"
      "ls_next (scanLine s) = [] \<or> p \<noteq> [] \<and> last p = 10"
    using consumed_scan [of s k] by (auto simp: consumed_def)
  have "tx = (pre @ p) @ ls_next (scanLine s)" using pre(1) p(1) by simp
  then show ?thesis
    using pre(2) p(2,3) unfolding starts_line_def by (cases "ls_next (scanLine s) = []") (auto intro!: exI [of _ "pre @ p"])
qed

lemma logical_starts:
  assumes "(j, u) \<in> set (logical_lines s k)" "starts_line tx k s"
  shows "u \<noteq> [] \<and> starts_line tx j u \<and> k \<le> j"
  using assms
proof (induction s k rule: logical_lines.induct)
  case (1 s k)
  show ?case
  proof (cases "s = []")
    case False
    have "(j, u) = (k, s) \<or> (j, u) \<in> set (logical_lines (ls_next (scanLine s)) (k + ls_newlines (scanLine s)))"
      using "1.prems"(1) False by simp
    then show ?thesis
    proof
      assume "(j, u) = (k, s)"
      then show ?thesis using "1.prems"(2) False by simp
    next
      assume later: "(j, u) \<in> set (logical_lines (ls_next (scanLine s)) (k + ls_newlines (scanLine s)))"
      then have "ls_next (scanLine s) \<noteq> []" by auto
      then show ?thesis using "1.IH" [OF False later] starts_line_scan [OF "1.prems"(2)] by simp
    qed
  qed (use "1.prems" in simp)
qed

lemma breaks_append_last: "pre \<noteq> [] \<Longrightarrow> last pre = 10 \<Longrightarrow> 1 \<le> breaks pre"
  by (induction pre) (auto split: if_splits)

text \<open>The numbers increase strictly: a scan that leaves something has passed a break.\<close>

lemma scan_passes_break: "ls_next (scanLine s) \<noteq> [] \<Longrightarrow> 1 \<le> ls_newlines (scanLine s)"
proof -
  assume "ls_next (scanLine s) \<noteq> []"
  then obtain p where "ls_newlines (scanLine s) = breaks p" "p \<noteq> []" "last p = 10"
    using consumed_scan [of s 0] by (auto simp: consumed_def)
  then show ?thesis by (metis breaks_append_last)
qed

lemma logical_increasing: "sorted_wrt (<) (map fst (logical_lines s k)) \<and> (\<forall>j\<in>set (map fst (logical_lines s k)). k \<le> j)"
proof (induction s k rule: logical_lines.induct)
  case (1 s k)
  show ?case
  proof (cases "s = []")
    case False
    note ih = "1.IH" [OF False]
    have "ls_next (scanLine s) = [] \<or> k < k + ls_newlines (scanLine s)" using scan_passes_break [of s] by (cases "ls_next (scanLine s) = []") auto
    then show ?thesis using ih False by (auto dest: less_le_trans)
  qed simp
qed

lemma starts_line_bounds:
  assumes "starts_line tx k s" "s \<noteq> []"
  shows "1 \<le> k" "k \<le> countLines tx"
proof -
  obtain pre where pre: "tx = pre @ s" "k = 1 + breaks pre" using assms(1) by (auto simp: starts_line_def)
  show "1 \<le> k" using pre(2) by simp
  have "1 \<le> breaks s" if "last s = 10"
    using that assms(2) by (induction s) (auto split: if_splits)
  then show "k \<le> countLines tx" using pre assms(2) by (auto simp: countLines_def)
qed

section \<open>The loop\<close>

definition unit_of :: "nat \<Rightarrow> line_outcome \<Rightarrow> occurrence list \<times> line_refusal list" where
  "unit_of k out = (case out of
     Blank \<Rightarrow> ([], [])
   | Refusal r \<Rightarrow> ([], [\<lparr>rl_line = k, rl_reason = r, rl_message = refusalMessage k r\<rparr>])
   | Entry n v \<Rightarrow> ([\<lparr>oc_name = n, oc_value = v, oc_line = k\<rparr>], []))"

lemma parse_lines_step:
  assumes "s \<noteq> []"
  shows "parse_lines s k occs refs =
    parse_lines (ls_next (scanLine s)) (k + ls_newlines (scanLine s))
      (occs @ fst (unit_of k (ls_outcome (scanLine s)))) (refs @ snd (unit_of k (ls_outcome (scanLine s))))"
  using assms scan_progress [OF assms]
  by (subst parse_lines.simps) (simp add: unit_of_def Let_def split: line_outcome.split)

lemma parse_lines_nil [simp]: "parse_lines [] k occs refs = (occs, refs)"
  by (subst parse_lines.simps) simp

lemma parse_lines_all:
  "parse_lines s k occs refs =
     (occs @ concat (map (\<lambda>(j, u). fst (unit_of j (ls_outcome (scanLine u)))) (logical_lines s k)),
      refs @ concat (map (\<lambda>(j, u). snd (unit_of j (ls_outcome (scanLine u)))) (logical_lines s k)))"
proof (induction s k arbitrary: occs refs rule: logical_lines.induct)
  case (1 s k)
  then show ?case by (cases "s = []") (simp_all add: parse_lines_step)
qed

text \<open>The text the lines are read from, and what its lines give.\<close>

definition pasted :: "units \<Rightarrow> units" where
  "pasted source = normalizeNewlines (stripBom source)"

definition line_occurrences :: "units \<Rightarrow> occurrence list" where
  "line_occurrences tx = concat (map (\<lambda>(k, u). fst (unit_of k (ls_outcome (scanLine u)))) (logical_lines tx 1))"

definition line_refusals :: "units \<Rightarrow> line_refusal list" where
  "line_refusals tx = concat (map (\<lambda>(k, u). snd (unit_of k (ls_outcome (scanLine u)))) (logical_lines tx 1))"

lemma parse_lines_paste: "parse_lines tx 1 [] [] = (line_occurrences tx, line_refusals tx)"
  by (simp add: parse_lines_all line_occurrences_def line_refusals_def)

lemma in_unit_of:
  "x \<in> set (fst (unit_of k out)) \<longleftrightarrow> k = oc_line x \<and> out = Entry (oc_name x) (oc_value x)"
  "r \<in> set (snd (unit_of k out)) \<longleftrightarrow>
     k = rl_line r \<and> out = Refusal (rl_reason r) \<and> rl_message r = refusalMessage (rl_line r) (rl_reason r)"
  by (cases out; cases x; cases r; auto simp: unit_of_def)+

lemma in_line_occurrences:
  "x \<in> set (line_occurrences tx) \<longleftrightarrow>
     (\<exists>u. (oc_line x, u) \<in> set (logical_lines tx 1) \<and> ls_outcome (scanLine u) = Entry (oc_name x) (oc_value x))"
  by (auto simp: line_occurrences_def in_unit_of)

lemma in_line_refusals:
  "r \<in> set (line_refusals tx) \<longleftrightarrow> rl_message r = refusalMessage (rl_line r) (rl_reason r) \<and>
     (\<exists>u. (rl_line r, u) \<in> set (logical_lines tx 1) \<and> ls_outcome (scanLine u) = Refusal (rl_reason r))"
  by (auto simp: line_refusals_def in_unit_of)

lemma sorted_pick:
  assumes "sorted_wrt (<) (map fst ps)" "\<And>p. p \<in> set ps \<Longrightarrow> f p = [] \<or> (\<exists>x. f p = [x] \<and> g x = fst p)"
  shows "sorted_wrt (<) (map g (concat (map f ps))) \<and> set (map g (concat (map f ps))) \<subseteq> set (map fst ps)"
  using assms
proof (induction ps)
  case (Cons p ps)
  then have ih: "sorted_wrt (<) (map g (concat (map f ps)))" "set (map g (concat (map f ps))) \<subseteq> set (map fst ps)" by auto
  have less: "\<forall>k\<in>set (map fst ps). fst p < k" using Cons.prems(1) by simp
  consider "f p = []" | x where "f p = [x]" "g x = fst p" using Cons.prems(2) [of p] by auto
  then show ?case
  proof cases
    case 2
    have "\<forall>k\<in>set (map g (concat (map f ps))). fst p < k" using ih(2) less by blast
    then show ?thesis using ih 2 by simp blast
  qed (use ih in auto)
qed simp

lemma line_numbers_sorted:
  "sorted_wrt (<) (map oc_line (line_occurrences tx))" "sorted_wrt (<) (map rl_line (line_refusals tx))"
  unfolding line_occurrences_def line_refusals_def
  by (rule sorted_pick [THEN conjunct1]; auto simp: logical_increasing [THEN conjunct1] unit_of_def split: line_outcome.split)+

lemma paste_lines:
  assumes "(k, u) \<in> set (logical_lines tx 1)"
  shows "u \<noteq> [] \<and> starts_line tx k u \<and> 1 \<le> k \<and> k \<le> countLines tx"
proof -
  have "tx \<noteq> []" using assms by auto
  then have "starts_line tx 1 tx" by (simp add: starts_line_def)
  from logical_starts [OF assms this] show ?thesis using starts_line_bounds by blast
qed

lemma logical_unique: "(k, u) \<in> set (logical_lines s n) \<Longrightarrow> (k, w) \<in> set (logical_lines s n) \<Longrightarrow> u = w"
proof -
  have "distinct (map fst (logical_lines s n))"
    using logical_increasing [of s n] strict_sorted_iff by blast
  then show "(k, u) \<in> set (logical_lines s n) \<Longrightarrow> (k, w) \<in> set (logical_lines s n) \<Longrightarrow> u = w"
    by (meson eq_key_imp_eq_value)
qed

end
