(* ===== verification/Dotenv_Size.thy ===== *)
theory Dotenv_Size
  imports Dotenv_Laws
begin

text \<open>
  Sizes and duplicates of the \<open>.env\<close> parser: no value is longer in UTF-8 than the paste, so the value
  ceiling is never the reason of a refusal, and the duplicates are resolved last-wins.
\<close>

section \<open>UTF-8 length\<close>

definition starts_low :: "units \<Rightarrow> bool" where
  "starts_low s \<longleftrightarrow> (case s of [] \<Rightarrow> False | c # _ \<Rightarrow> low_surrogate c)"

definition pair_saving :: "nat \<Rightarrow> units \<Rightarrow> nat" where
  "pair_saving c s = (if high_surrogate c \<and> starts_low s then 2 else 0)"

lemma starts_low_simps [simp]: "\<not> starts_low []" "starts_low (c # s) = low_surrogate c"
  by (simp_all add: starts_low_def)

lemma surrogate_apart: "low_surrogate c \<Longrightarrow> \<not> high_surrogate c"
  by (simp add: low_surrogate_def high_surrogate_def)

lemma surrogate_bytes: "low_surrogate c \<Longrightarrow> unit_bytes c = 3" "high_surrogate c \<Longrightarrow> unit_bytes c = 3"
  by (simp_all add: low_surrogate_def high_surrogate_def unit_bytes_def)

text \<open>A surrogate pair saves two bytes.\<close>

lemma utf8_cons: "utf8_length (c # s) + pair_saving c s = unit_bytes c + utf8_length s"
proof (cases s)
  case (Cons d t)
  show ?thesis
  proof (cases "high_surrogate c \<and> low_surrogate d")
    case True
    then have "utf8_length (d # t) = 3 + utf8_length t"
      by (cases t) (simp_all add: surrogate_apart surrogate_bytes)
    then show ?thesis using True Cons by (simp add: pair_saving_def surrogate_bytes)
  qed (auto simp: Cons pair_saving_def)
qed (simp add: pair_saving_def)

lemma utf8_starts_low: "starts_low s \<Longrightarrow> 3 \<le> utf8_length s"
proof (cases s)
  case (Cons c t)
  assume "starts_low s"
  then show ?thesis
    using Cons utf8_cons [of c t] surrogate_apart [of c] surrogate_bytes [of c] by (simp add: pair_saving_def)
qed simp

lemma pair_saving_le: "pair_saving c s \<le> 2" "pair_saving c s \<le> utf8_length s" "pair_saving c s + 1 \<le> unit_bytes c"
  subgoal by (simp add: pair_saving_def)
  subgoal using utf8_starts_low [of s] by (auto simp: pair_saving_def)
  subgoal by (cases "high_surrogate c") (simp_all add: pair_saving_def surrogate_bytes, simp add: unit_bytes_def)
  done

text \<open>A text that is made from another by dropping or shortening: the relation the scanner keeps.\<close>

definition dwindles :: "units \<Rightarrow> units \<Rightarrow> bool" where
  "dwindles w s \<longleftrightarrow> utf8_length w \<le> utf8_length s \<and> (starts_low s \<longrightarrow> starts_low w)"

lemma dwindles_refl [simp]: "dwindles s s"
  by (simp add: dwindles_def)

lemma dwindles_cons: "dwindles w s \<Longrightarrow> dwindles (c # w) (c # s)"
  using utf8_cons [of c w] utf8_cons [of c s] by (auto simp: dwindles_def pair_saving_def split: if_splits)

lemma dwindles_drop: "dwindles w s \<Longrightarrow> \<not> low_surrogate c \<Longrightarrow> dwindles w (c # s)"
  using utf8_cons [of c s] pair_saving_le [of c s] by (auto simp: dwindles_def)

lemma dwindles_ascii: "dwindles w s \<Longrightarrow> x < 128 \<Longrightarrow> y < 128 \<Longrightarrow> dwindles (x # w) (y # s)"
  using utf8_cons [of x w] utf8_cons [of y s]
  by (auto simp: dwindles_def pair_saving_def high_surrogate_def low_surrogate_def unit_bytes_def)

lemma utf8_suffix: "utf8_length s \<le> utf8_length (p @ s)"
proof (induction p)
  case (Cons c p)
  then show ?case using utf8_cons [of c "p @ s"] pair_saving_le(3) [of c "p @ s"] by simp
qed simp

lemma utf8_prefix: "utf8_length s \<le> utf8_length (s @ p)"
proof (induction s)
  case (Cons c s)
  have "pair_saving c (s @ p) \<le> pair_saving c s \<or> s = []" by (cases s) (simp_all add: pair_saving_def)
  then show ?case
    using Cons utf8_cons [of c s] utf8_cons [of c "s @ p"] pair_saving_le(2) [of c "s @ p"]
    by (cases "s = []") (auto simp: pair_saving_def)
qed simp

lemma utf8_infix: "utf8_length w \<le> utf8_length (a @ w @ b)"
  using utf8_suffix [of "w @ b" a] utf8_prefix [of w b] by linarith

lemma utf8_normalize: "dwindles (normalizeNewlines s) s"
proof (induction s rule: normalizeNewlines.induct)
  case (2 c)
  then show ?case using dwindles_ascii [of "[]" "[]" 10 13] by simp
next
  case (3 c d s)
  show ?case
  proof (cases "c = 13 \<and> d = 10")
    case True
    then have "dwindles (10 # normalizeNewlines s) (13 # 10 # s)"
      using 3(1) dwindles_cons dwindles_drop by (simp add: low_surrogate_def)
    then show ?thesis using True by simp
  next
    case False
    then show ?thesis using 3(2) dwindles_cons dwindles_ascii [of _ _ 10 13] by (cases "c = 13") auto
  qed
qed simp

section \<open>Values\<close>

text \<open>A quoted value is its accumulator and a text that the rest of the paste dwindles to.\<close>

definition value_bound :: "units \<Rightarrow> units \<Rightarrow> value_outcome \<Rightarrow> bool" where
  "value_bound s v out \<longleftrightarrow> (case out of
     Value x \<Rightarrow> \<exists>u. x = v @ u \<and> dwindles u s
   | ValueRefusal r \<Rightarrow> r = MalformedLine \<or> (r = ValueTooLarge \<and> (\<exists>u. dwindles u s \<and> APP_ENV_VALUE_MAX_BYTES < utf8_length (v @ u))))"

lemma value_bound_step:
  assumes "value_bound s (v @ x) out" "\<And>u. dwindles u s \<Longrightarrow> dwindles (x @ u) t"
  shows "value_bound t v out"
  using assms by (auto simp: value_bound_def split: value_outcome.splits) 

lemma quoted_bound:
  assumes "q = 34 \<or> q = 39"
  shows "value_bound s v (vs_outcome (scan_quoted q s v n))"
  using assms
proof (induction s v n rule: quoted_induct)
  case (Close s v n)
  have "dwindles [] (q # s)" using assms by (auto simp: dwindles_def low_surrogate_def)
  then show ?case
    by (auto simp: quoted_branches(1) [OF assms] value_bound_def close_quote_def malformed_def Let_def intro!: exI [of _ "[]"])
next
  case (Char c s v n)
  then show ?case unfolding quoted_branches(2) [OF assms Char(1,2,3)]
    by (elim value_bound_step) (simp add: dwindles_cons)
next
  case (Break_double s v n)
  then have "value_bound (10 # s) v (vs_outcome (scan_quoted 34 s (v @ [10]) (n + 1)))"
    using value_bound_step [of s v "[10]" _ "10 # s"] by (simp add: dwindles_cons)
  then show ?case using Break_double quoted_branches(4) [OF assms] by simp
next
  case (Continuation s v n)
  then have "value_bound s (v @ []) (vs_outcome (scan_quoted 34 s v (n + 1)))" by simp
  then have "value_bound (92 # 10 # s) v (vs_outcome (scan_quoted 34 s v (n + 1)))"
    by (rule value_bound_step) (simp add: dwindles_drop low_surrogate_def)
  then show ?case using Continuation quoted_branches(6) [OF assms] by simp
next
  case (Escape e s v n)
  have "resolveEscape e = [92, e] \<or> (\<exists>x. resolveEscape e = [x] \<and> x < 128 \<and> e < 128)"
    by (auto simp: resolveEscape_def)
  then have shrink: "dwindles (resolveEscape e @ u) (92 # e # s)" if "dwindles u s" for u
  proof
    assume "resolveEscape e = [92, e]"
    then show ?thesis using that by (simp add: dwindles_cons)
  next
    assume "\<exists>x. resolveEscape e = [x] \<and> x < 128 \<and> e < 128"
    then obtain x where x: "resolveEscape e = [x]" "x < 128" "e < 128" by blast
    then show ?thesis using dwindles_drop [OF dwindles_ascii [OF that x(2,3)], of 92] by (simp add: low_surrogate_def)
  qed
  have "value_bound (92 # e # s) v (vs_outcome (scan_quoted 34 s (v @ resolveEscape e) n))"
    using value_bound_step [OF Escape(3) shrink] Escape(1) by simp
  then show ?case using Escape quoted_branches(7) [OF assms Escape(2)] by simp
qed (simp_all add: value_bound_def malformed_def quoted_branches(3,5) [OF assms])

text \<open>An unquoted value is an infix of its line.\<close>

lemma before_comment_prefix: "\<exists>r. s = before_comment s @ r"
proof (induction s)
  case (Cons c s)
  then obtain r where r: "s = before_comment s @ r" by blast
  show ?case
  proof (cases "blank c \<and> (case dropWhile blank s of [] \<Rightarrow> False | h # _ \<Rightarrow> h = 35)")
    case False
    then have "before_comment (c # s) = c # before_comment s" by (simp only: before_comment.simps if_False)
    then show ?thesis using r by (intro exI [of _ r]) simp
  qed simp
qed simp

lemma trim_infix: "\<exists>a b. s = a @ trimHorizontal s @ b"
proof -
  define u where "u = dropWhile blank s"
  have "u = rev (dropWhile blank (rev u)) @ rev (takeWhile blank (rev u))"
    by (metis rev_append rev_rev_ident takeWhile_dropWhile_id)
  moreover have "s = takeWhile blank s @ u" by (simp add: u_def)
  ultimately show ?thesis unfolding trimHorizontal_def u_def by metis
qed

lemma unquoted_infix: "\<exists>a b. s = a @ trimUnquotedValue (this_line s) @ b"
proof -
  obtain r where "this_line s = before_comment (this_line s) @ r" using before_comment_prefix by blast
  moreover obtain a b where "before_comment (this_line s) = a @ trimUnquotedValue (this_line s) @ b"
    using trim_infix unfolding trimUnquotedValue_def by blast
  moreover have "s = this_line s @ dropWhile (\<lambda>c. c \<noteq> 10) s" by (simp add: this_line_def)
  ultimately have "s = a @ trimUnquotedValue (this_line s) @ (b @ r @ dropWhile (\<lambda>c. c \<noteq> 10) s)"
    by (metis append_assoc)
  then show ?thesis by blast
qed

lemma value_size:
  assumes "utf8_length s \<le> APP_ENV_VALUE_MAX_BYTES"
  shows "case vs_outcome (scanValue s) of
      Value x \<Rightarrow> utf8_length x \<le> APP_ENV_VALUE_MAX_BYTES
    | ValueRefusal r \<Rightarrow> r = MalformedLine"
proof -
  define t where "t = skipHorizontalWhitespace s"
  have "utf8_length t \<le> utf8_length s"
    using utf8_suffix [of t "takeWhile blank s"] by (simp add: t_def skipHorizontalWhitespace_def)
  then have t: "utf8_length t \<le> APP_ENV_VALUE_MAX_BYTES" using assms by simp
  obtain a b where "t = a @ trimUnquotedValue (this_line t) @ b" using unquoted_infix by blast
  then have plain: "utf8_length (trimUnquotedValue (this_line t)) \<le> APP_ENV_VALUE_MAX_BYTES"
    using utf8_infix t by (metis le_trans)
  show ?thesis
  proof (cases t)
    case Nil
    then show ?thesis using plain by (simp add: scanValue_def t_def [symmetric])
  next
    case (Cons c body)
    show ?thesis
    proof (cases "c = 34 \<or> c = 39")
      case True
      have body: "utf8_length body \<le> APP_ENV_VALUE_MAX_BYTES"
        using utf8_suffix [of body "[c]"] t Cons by simp
      have "scanValue s = scan_quoted c body [] 0"
        using Cons True by (auto simp: scanValue_def t_def [symmetric] scanQuotedValue_def)
      then show ?thesis
        using quoted_bound [OF True, of body "[]" 0] body
        by (auto simp: value_bound_def dwindles_def split: value_outcome.splits)
    next
      case False
      then show ?thesis using plain Cons by (simp add: scanValue_def t_def [symmetric])
    qed
  qed
qed

text \<open>What a line can be in a paste that passed the limit.\<close>

lemma line_size:
  assumes "utf8_length s \<le> APP_ENV_VALUE_MAX_BYTES"
  shows "case ls_outcome (scanLine s) of
      Blank \<Rightarrow> True
    | Entry n v \<Rightarrow> valid_name n \<and> \<not> reserved_name n \<and> utf8_length v \<le> APP_ENV_VALUE_MAX_BYTES
    | Refusal r \<Rightarrow> r \<noteq> ValueTooLarge"
proof -
  define body where "body = skipExportPrefix (skipHorizontalWhitespace s)"
  define tail where "tail = drop 1 (dropWhile (\<lambda>c. c \<noteq> 61) body)"
  obtain p where "skipHorizontalWhitespace s = p @ body" using drop_export body_def by blast
  then have "s = (takeWhile blank s @ p) @ body"
    by (metis append_assoc skipHorizontalWhitespace_def takeWhile_dropWhile_id)
  then have "utf8_length body \<le> utf8_length s" using utf8_suffix by metis
  moreover have "body = (takeWhile (\<lambda>c. c \<noteq> 61) body @ take 1 (dropWhile (\<lambda>c. c \<noteq> 61) body)) @ tail"
    by (simp add: tail_def)
  then have "utf8_length tail \<le> utf8_length body" using utf8_suffix by metis
  ultimately have "utf8_length tail \<le> APP_ENV_VALUE_MAX_BYTES" using assms by simp
  from value_size [OF this] show ?thesis
    unfolding scanLine_def Let_def body_def [symmetric] tail_def [symmetric]
    by (auto split: value_outcome.splits line_outcome.splits)
qed

section \<open>Duplicates\<close>

definition occurrences_of :: "units \<Rightarrow> occurrence list \<Rightarrow> occurrence list" where
  "occurrences_of n occs = filter (\<lambda>x. oc_name x = n) occs"

lemma js_unique_snoc: "js_unique (xs @ [x]) = (if x \<in> set xs then js_unique xs else js_unique xs @ [x])"
  by (induction xs) auto

lemma see_all:
  "foldl see_occurrence ([], Map.empty) occs =
     (js_unique (map oc_name occs),
      (\<lambda>n. if occurrences_of n occs = [] then None else Some (last (occurrences_of n occs))))"
proof (induction occs rule: rev_induct)
  case (snoc x occs)
  have empty: "occurrences_of (oc_name x) occs = [] \<longleftrightarrow> oc_name x \<notin> set (map oc_name occs)"
    unfolding occurrences_of_def filter_empty_conv set_map by (metis image_iff)
  show ?case
    unfolding foldl_append snoc
    by (auto simp: see_occurrence_def js_unique_snoc empty) (auto simp: occurrences_of_def fun_eq_iff filter_empty_conv)
qed (simp_all add: occurrences_of_def)

text \<open>One entry per name, in the order of the first occurrences, each the last one of its name.\<close>

lemma resolve_spec:
  "resolveDuplicates occs =
     (map (\<lambda>n. last (occurrences_of n occs)) (js_unique (map oc_name occs)),
      map (\<lambda>x. \<lparr>du_line = oc_line x, du_name = oc_name x, du_winnerLine = oc_line (last (occurrences_of (oc_name x) occs))\<rparr>)
        (filter (\<lambda>x. oc_line (last (occurrences_of (oc_name x) occs)) \<noteq> oc_line x) occs))"
proof -
  have here: "occurrences_of n occs \<noteq> []" if "n \<in> set (map oc_name occs)" for n
    using that by (auto simp: occurrences_of_def filter_empty_conv)
  have name: "oc_name (last (occurrences_of n occs)) = n" if "n \<in> set (map oc_name occs)" for n
    using last_in_set [OF here [OF that]] by (simp add: occurrences_of_def)
  have entry: "\<lparr>oc_name = n, oc_value = oc_value w, oc_line = oc_line w\<rparr> = w" if "oc_name w = n" for w :: occurrence and n
    using that by (cases w) simp
  show ?thesis
    unfolding resolveDuplicates_def see_all using here name entry
    by (auto simp: Let_def intro!: map_cong filter_cong)
qed

end
