(* ===== verification/Dotenv_Roundtrip.thy ===== *)
theory Dotenv_Roundtrip
  imports Dotenv_Size
begin

text \<open>
  A writer of \<open>.env\<close> text and what the parser makes of it: one double-quoted line per value, with the five
  escapes the parser resolves.
\<close>

definition escape_unit :: "nat \<Rightarrow> units" where
  "escape_unit c =
     (if c = 10 then [92, 110] else if c = 9 then [92, 116] else if c = 13 then [92, 114]
      else if c = 34 then [92, 34] else if c = 92 then [92, 92] else [c])"

definition escape_value :: "units \<Rightarrow> units" where
  "escape_value v = concat (map escape_unit v)"

definition render_line :: "units \<times> units \<Rightarrow> units" where
  "render_line e = fst e @ [61, 34] @ escape_value (snd e) @ [34, 10]"

definition render :: "(units \<times> units) list \<Rightarrow> units" where
  "render es = concat (map render_line es)"

definition storable :: "units \<times> units \<Rightarrow> bool" where
  "storable e \<longleftrightarrow> valid_name (fst e) \<and> \<not> reserved_name (fst e)"

lemma escape_value_simps [simp]: "escape_value [] = []" "escape_value (c # v) = escape_unit c @ escape_value v"
  by (simp_all add: escape_value_def)

lemma scan_unit: "scan_quoted 34 (escape_unit c @ s) acc n = scan_quoted 34 s (acc @ [c]) n"
proof -
  have plain: "scan_quoted 34 (c # s) acc n = scan_quoted 34 s (acc @ [c]) n" if "c \<noteq> 34" "c \<noteq> 10" "c \<noteq> 92"
    using that by (intro quoted_branches(2)) auto
  have esc: "scan_quoted 34 (92 # e # s) acc n = scan_quoted 34 s (acc @ resolveEscape e) n" if "e \<noteq> 10" for e
    using that by (intro quoted_branches(7) [of 34]) auto
  show ?thesis by (auto simp: escape_unit_def plain esc resolveEscape_def)
qed

lemma scan_escaped: "scan_quoted 34 (escape_value v @ s) acc n = scan_quoted 34 s (acc @ v) n"
  by (induction v arbitrary: acc) (simp_all add: scan_unit)

lemma escape_dwindles: "dwindles v (escape_value v)"
proof (induction v)
  case (Cons c v)
  have low: "\<not> low_surrogate 92" by (simp add: low_surrogate_def)
  have two: "dwindles (c # v) (92 # d # escape_value v)" if "c < 128" "d < 128" for d
    using dwindles_drop [OF dwindles_ascii [OF Cons that] low] .
  show ?case using two dwindles_cons [OF Cons] by (auto simp: escape_unit_def)
qed simp

lemma escape_units:
  assumes "c \<in> set (escape_value v)"
  shows "c \<noteq> 10 \<and> c \<noteq> 13"
  using assms by (induction v) (auto simp: escape_unit_def split: if_splits)

lemma name_units:
  assumes "valid_name n" "c \<in> set n"
  shows "name_part c"
  using assms by (cases n) (auto simp: valid_name_def name_part_def list_all_iff)

lemma name_clean:
  assumes "valid_name n" "c \<in> set n"
  shows "c \<noteq> 10 \<and> c \<noteq> 13 \<and> c \<noteq> 61 \<and> \<not> blank c"
  using name_units [OF assms] by (auto simp: name_part_def name_start_def blank_def)

lemma name_head:
  assumes "valid_name n"
  shows "\<exists>c cs. n = c # cs \<and> name_start c"
  using assms by (cases n) (auto simp: valid_name_def)

text \<open>One rendered line is one entry.\<close>

lemma scan_rendered:
  assumes "storable e" "utf8_length (snd e) \<le> APP_ENV_VALUE_MAX_BYTES"
  shows "scanLine (render_line e @ s) = \<lparr>ls_next = s, ls_newlines = 1, ls_outcome = Entry (fst e) (snd e)\<rparr>"
proof -
  obtain n v where e: "e = (n, v)" by (cases e)
  have n: "valid_name n" "\<not> reserved_name n" using assms(1) by (simp_all add: e storable_def)
  define rest where "rest = 34 # escape_value v @ [34, 10] @ s"
  have line: "render_line e @ s = n @ 61 # rest" by (simp add: render_line_def e rest_def)
  obtain c cs where c: "n = c # cs" "name_start c" using name_head [OF n(1)] by blast
  then have head: "\<not> blank c" "c \<noteq> 10" "c \<noteq> 35" "c \<noteq> 101" by (auto simp: name_start_def blank_def)
  have indented: "skipHorizontalWhitespace (n @ 61 # rest) = n @ 61 # rest"
    using head c by (simp add: skipHorizontalWhitespace_def)
  have "text_of ''export'' = [101, 120, 112, 111, 114, 116]" by code_simp
  then have body: "skipExportPrefix (n @ 61 # rest) = n @ 61 # rest"
    using head c by (simp add: skipExportPrefix_def)
  have eq: "61 \<in> set (this_line (n @ 61 # rest))"
    using name_clean [OF n(1)] unfolding this_line_def by (subst takeWhile_append2) auto
  have name: "takeWhile (\<lambda>c. c \<noteq> 61) (n @ 61 # rest) = n" "dropWhile (\<lambda>c. c \<noteq> 61) (n @ 61 # rest) = 61 # rest"
    using name_clean [OF n(1)] by (subst takeWhile_append2 dropWhile_append2; auto)+
  have "last n \<in> set n" using c by simp
  then have "\<not> blank (last n)" using name_clean [OF n(1)] by blast
  then have "\<not> blank (hd (rev n))" by (simp only: hd_rev not_False_eq_True)
  then have trim: "trimHorizontal n = n"
    using head(1) c unfolding trimHorizontal_def by (metis dropWhile_eq_self_iff list.sel(1) rev_rev_ident)
  have "scanValue rest = close_quote (10 # s) v 0"
    using quoted_branches(1) [of 34 "10 # s" v 0] scan_escaped [of v "34 # 10 # s" "[]" 0]
    by (simp add: scanValue_def rest_def skipHorizontalWhitespace_def blank_def scanQuotedValue_def)
  also have "\<dots> = \<lparr>vs_next = s, vs_newlines = 1, vs_outcome = Value v\<rparr>"
    using assms(2) by (simp add: close_quote_def this_line_def after_line_def line_break_def trimHorizontal_def e)
  finally have v: "scanValue rest = \<lparr>vs_next = s, vs_newlines = 1, vs_outcome = Value v\<rparr>" .
  show ?thesis
    unfolding line scanLine_def Let_def indented body name trim using head c eq n v by (simp add: e)
qed

definition numbered :: "nat \<Rightarrow> (units \<times> units) list \<Rightarrow> occurrence list" where
  "numbered k es = map (\<lambda>(i, e). \<lparr>oc_name = fst e, oc_value = snd e, oc_line = i\<rparr>) (zip [k..<k + length es] es)"

lemma numbered_names: "map oc_name (numbered k es) = map fst es"
  unfolding numbered_def by (rule nth_equalityI) (simp_all del: upt_Suc)

lemma parse_rendered:
  assumes "\<forall>e\<in>set es. storable e \<and> utf8_length (snd e) \<le> APP_ENV_VALUE_MAX_BYTES"
  shows "parse_lines (render es) k occs refs =
    (occs @ numbered k es, refs)"
  using assms
proof (induction es arbitrary: k occs)
  case (Cons e es)
  have line: "scanLine (render_line e @ render es) = \<lparr>ls_next = render es, ls_newlines = 1, ls_outcome = Entry (fst e) (snd e)\<rparr>"
    using Cons.prems by (intro scan_rendered) simp_all
  have "render (e # es) = render_line e @ render es" by (simp add: render_def)
  moreover have "render_line e @ render es \<noteq> []" by (simp add: render_line_def)
  ultimately have "parse_lines (render (e # es)) k occs refs =
      parse_lines (render es) (k + 1) (occs @ [\<lparr>oc_name = fst e, oc_value = snd e, oc_line = k\<rparr>]) refs"
    by (simp add: parse_lines_step line unit_of_def)
  also have "\<dots> = (occs @ numbered k (e # es), refs)"
    using Cons by (simp add: numbered_def upt_conv_Cons del: upt_Suc)
  finally show ?case .
qed (simp add: render_def numbered_def)

lemma render_units:
  assumes "\<forall>e\<in>set es. storable e"
  shows "13 \<notin> set (render es)" "breaks (render es) = length es" "es \<noteq> [] \<Longrightarrow> last (render es) = 10"
    "stripBom (render es) = render es"
proof -
  have line: "13 \<notin> set (render_line e)" "breaks (render_line e) = 1" if "storable e" for e
    using that name_clean [of "fst e"] escape_units [of _ "snd e"] breaks_none [of "fst e"] breaks_none [of "escape_value (snd e)"]
    by (auto simp: render_line_def storable_def)
  show "13 \<notin> set (render es)" using assms line(1) by (auto simp: render_def)
  show "breaks (render es) = length es"
    using assms line(2) unfolding render_def by (induction es) simp_all
  show "last (render es) = 10" if "es \<noteq> []"
    using that unfolding render_def by (induction es rule: rev_induct) (simp_all add: render_line_def)
  show "stripBom (render es) = render es"
  proof (cases es)
    case (Cons e fs)
    then have "valid_name (fst e)" using assms by (simp add: storable_def)
    then obtain c cs where c: "fst e = c # cs" "name_start c" using name_head by blast
    then have "\<exists>t. render es = c # t" "c \<noteq> BOM"
      using Cons by (auto simp: render_def render_line_def name_start_def BOM_def)
    then show ?thesis by (auto simp: stripBom_def)
  qed (simp add: render_def stripBom_def)
qed

lemma normalize_clean: "13 \<notin> set s \<Longrightarrow> normalizeNewlines s = s"
  by (induction s rule: normalizeNewlines.induct) auto

lemma rendered_value_size: "e \<in> set es \<Longrightarrow> utf8_length (snd e) \<le> utf8_length (render es)"
proof -
  assume "e \<in> set es"
  then obtain as bs where es: "es = as @ e # bs" by (meson split_list)
  have "utf8_length (snd e) \<le> utf8_length (escape_value (snd e))" using escape_dwindles by (simp add: dwindles_def)
  also have "\<dots> \<le> utf8_length ((render as @ fst e @ [61, 34]) @ escape_value (snd e) @ ([34, 10] @ render bs))"
    by (rule utf8_infix)
  also have "(render as @ fst e @ [61, 34]) @ escape_value (snd e) @ ([34, 10] @ render bs) = render es"
    by (simp add: es render_def render_line_def)
  finally show ?thesis .
qed

lemma resolve_distinct:
  assumes "distinct (map oc_name occs)"
  shows "resolveDuplicates occs = (occs, [])"
proof -
  have one: "occurrences_of (oc_name x) occs = [x]" if "x \<in> set occs" for x
    using assms that unfolding occurrences_of_def
    by (induction occs) (auto simp: filter_empty_conv image_iff)
  have "js_unique (map oc_name occs) = map oc_name occs" using assms
    by (induction occs) (auto simp: filter_id_conv image_iff)
  then show ?thesis unfolding resolve_spec using one by (auto simp: map_idI filter_empty_conv comp_def)
qed

end
