(* ===== verification/Env_Validation.thy ===== *)
theory Env_Validation
  imports Dotenv_Size Js_Number
begin

text \<open>
  Value validation of \<open>app-env/validation.ts\<close>. The RE2 engine is third-party code: \<open>compile\<close> is its
  \<open>RE2JS.compile\<close>, a matcher for the pattern text it accepts and \<open>None\<close> where it throws. The cache is the
  list of its entries in insertion order; a thrown error is an \<open>Inl\<close>.
\<close>

type_synonym engine = "units \<Rightarrow> bool"

datatype pattern_error_code = PatternUnsupported | PatternInvalid

datatype pattern_error = PatternError pattern_error_code units

record compiled_pattern =
  cp_pattern :: units
  cp_specHash :: "units option"
  cp_engine :: engine

type_synonym pattern_cache = "(units \<times> compiled_pattern) list"

section \<open>Patterns\<close>

text \<open>\<open>/\(\?(?:[=!]|<[=!])|\\[1-9]/\<close>\<close>

fun unsupported_syntax :: "units \<Rightarrow> bool" where
  "unsupported_syntax [] = False"
| "unsupported_syntax (c # s) =
     ((case s of
         d # e # f \<Rightarrow> c = 40 \<and> d = 63 \<and>
           (e = 61 \<or> e = 33 \<or> e = 60 \<and> (case f of g # _ \<Rightarrow> g = 61 \<or> g = 33 | [] \<Rightarrow> False))
       | _ \<Rightarrow> False) \<or>
      (c = 92 \<and> (case s of d # _ \<Rightarrow> 49 \<le> d \<and> d \<le> 57 | [] \<Rightarrow> False)) \<or>
      unsupported_syntax s)"

definition patternSubject :: "units option \<Rightarrow> units" where
  "patternSubject name = (case name of None \<Rightarrow> text_of ''This entry'' | Some n \<Rightarrow> text_of ''`'' @ n @ text_of ''`'')"

definition unsupported_message :: "units option \<Rightarrow> units" where
  "unsupported_message name = patternSubject name @ text_of '' uses a `validate.pattern` the resolver cannot run.''"

definition cache_key :: "units option \<Rightarrow> units \<Rightarrow> units" where
  "cache_key scope pattern = (case scope of None \<Rightarrow> [] | Some h \<Rightarrow> h) @ [0] @ pattern"

definition wrapped :: "units \<Rightarrow> units" where
  "wrapped pattern = text_of ''^(?:'' @ pattern @ text_of '')$''"

definition compileAppEnvPattern ::
  "(units \<Rightarrow> engine option) \<Rightarrow> units \<Rightarrow> units option \<Rightarrow> pattern_cache \<Rightarrow> (pattern_error + compiled_pattern) \<times> pattern_cache" where
  "compileAppEnvPattern compile pattern specHash cache =
     (let key = cache_key specHash pattern in
      case map_of cache key of
        Some cached \<Rightarrow> (Inr cached, cache)
      | None \<Rightarrow> (case compile (wrapped pattern) of
          None \<Rightarrow> (Inl (if unsupported_syntax pattern then PatternError PatternUnsupported (unsupported_message None)
             else PatternError PatternInvalid
               (text_of ''`validate.pattern` is not a pattern this installation can compile.'')), cache)
        | Some e \<Rightarrow> (let c = \<lparr>cp_pattern = pattern, cp_specHash = specHash, cp_engine = e\<rparr> in (Inr c, cache @ [(key, c)]))))"

definition appEnvPatternCacheSize :: "pattern_cache \<Rightarrow> nat" where
  "appEnvPatternCacheSize cache = length cache"

definition clearAppEnvPatternCache :: "units option \<Rightarrow> pattern_cache \<Rightarrow> pattern_cache" where
  "clearAppEnvPatternCache specHash cache = (case specHash of
     None \<Rightarrow> []
   | Some h \<Rightarrow> filter (\<lambda>(key, c). cp_specHash c \<noteq> Some h) cache)"

text \<open>The named variant: only the unsupported error is told about the entry.\<close>

definition compileNamedPattern ::
  "(units \<Rightarrow> engine option) \<Rightarrow> units \<Rightarrow> units \<Rightarrow> units option \<Rightarrow> pattern_cache \<Rightarrow> (pattern_error + compiled_pattern) \<times> pattern_cache" where
  "compileNamedPattern compile pattern name specHash cache =
     (case compileAppEnvPattern compile pattern specHash cache of
        (Inl (PatternError PatternUnsupported _), cache') \<Rightarrow> (Inl (PatternError PatternUnsupported (unsupported_message (Some name))), cache')
      | r \<Rightarrow> r)"

section \<open>Values\<close>

record value_rules =
  vr_length :: "js_number option"
  vr_minLength :: "js_number option"
  vr_maxLength :: "js_number option"
  vr_pattern :: "units option"

datatype validation_code =
    VInvalidName | VReservedName | VValueTooLarge | VControlCharacter
  | VLengthMismatch | VTooShort | VTooLong | VPatternMismatch

datatype validation_result = Accepted | Refused validation_code units "(rat \<times> nat) option"

text \<open>Unicode code points: a surrogate pair counts once.\<close>

fun countCodePoints :: "units \<Rightarrow> nat" where
  "countCodePoints [] = 0"
| "countCodePoints [c] = 1"
| "countCodePoints (c # d # s) =
     (if high_surrogate c \<and> low_surrogate d then 1 + countCodePoints s else 1 + countCodePoints (d # s))"

text \<open>\<open>isSet\<close>: a finite number, \<open>None\<close> otherwise.\<close>

definition isSet :: "js_number option \<Rightarrow> rat option" where
  "isSet bound = (case bound of Some (Fin r) \<Rightarrow> Some r | _ \<Rightarrow> None)"

definition quoted_name :: "units \<Rightarrow> units" where
  "quoted_name name = text_of ''`'' @ name @ text_of ''`''"

definition length_message :: "units \<Rightarrow> string \<Rightarrow> rat \<Rightarrow> nat \<Rightarrow> units" where
  "length_message name must bound actual =
     quoted_name name @ text_of ('' must be '' @ must @ js_string_of_number (Fin bound) @ '' characters (this one has '' @ decimal actual @ '').'')"

text \<open>The three length rules in their order; \<open>None\<close> when none refuses.\<close>

definition check_lengths :: "units \<Rightarrow> units \<Rightarrow> value_rules \<Rightarrow> validation_result option" where
  "check_lengths name value rules =
     (let exact = isSet (vr_length rules); minimum = isSet (vr_minLength rules); maximum = isSet (vr_maxLength rules);
          actual = countCodePoints value;
          over = (\<lambda>bound bad. case bound of None \<Rightarrow> False | Some b \<Rightarrow> bad b);
          refuse = (\<lambda>code must b. Some (Refused code (length_message name must b actual) (Some (b, actual))))
      in if exact = None \<and> minimum = None \<and> maximum = None then None
         else if over exact (\<lambda>b. of_nat actual \<noteq> b) then refuse VLengthMismatch ''exactly '' (the exact)
         else if over minimum (\<lambda>b. of_nat actual < b) then refuse VTooShort ''at least '' (the minimum)
         else if over maximum (\<lambda>b. b < of_nat actual) then refuse VTooLong ''at most '' (the maximum)
         else None)"

definition no_rules :: value_rules where
  "no_rules = \<lparr>vr_length = None, vr_minLength = None, vr_maxLength = None, vr_pattern = None\<rparr>"

definition validateAppEnvValue ::
  "(units \<Rightarrow> engine option) \<Rightarrow> units \<Rightarrow> units \<Rightarrow> value_rules option \<Rightarrow> units option \<Rightarrow> pattern_cache
    \<Rightarrow> (pattern_error + validation_result) \<times> pattern_cache" where
  "validateAppEnvValue compile name value rules0 specHash cache =
     (let rules = (case rules0 of None \<Rightarrow> no_rules | Some r \<Rightarrow> r) in
      if \<not> valid_name name
      then (Inr (Refused VInvalidName
          (quoted_name name @ text_of '' isn't a valid environment variable name (names match ^[A-Z_][A-Z0-9_]{0,127}$).'') None), cache)
      else if reserved_name name
      then (Inr (Refused VReservedName (quoted_name name @ text_of '' is reserved for Ever Works.'') None), cache)
      else if utf8_length value > APP_ENV_VALUE_MAX_BYTES
      then (Inr (Refused VValueTooLarge (text_of ''The value for '' @ quoted_name name @
          text_of ('' is larger than '' @ decimal APP_ENV_VALUE_MAX_BYTES @ '' bytes.'')) None), cache)
      else if 0 \<in> set value
      then (Inr (Refused VControlCharacter (text_of ''The value for '' @ quoted_name name @ text_of '' contains a NUL character.'') None), cache)
      else (case check_lengths name value rules of
          Some r \<Rightarrow> (Inr r, cache)
        | None \<Rightarrow> (case vr_pattern rules of
            None \<Rightarrow> (Inr Accepted, cache)
          | Some pattern \<Rightarrow> (case compileNamedPattern compile pattern name specHash cache of
              (Inl e, cache') \<Rightarrow> (Inl e, cache')
            | (Inr compiled, cache') \<Rightarrow>
                if \<not> cp_engine compiled value
                then (Inr (Refused VPatternMismatch (quoted_name name @ text_of '' doesn't match the format the app expects.'') None), cache')
                else (Inr Accepted, cache')))))"

section \<open>The cache\<close>

text \<open>Every entry is the compilation of its own pattern, under its own key.\<close>

definition cache_ok :: "(units \<Rightarrow> engine option) \<Rightarrow> pattern_cache \<Rightarrow> bool" where
  "cache_ok compile cache \<longleftrightarrow> (\<forall>(key, c)\<in>set cache.
     key = cache_key (cp_specHash c) (cp_pattern c) \<and> 0 \<notin> set (case cp_specHash c of None \<Rightarrow> [] | Some h \<Rightarrow> h) \<and>
     compile (wrapped (cp_pattern c)) = Some (cp_engine c))"

definition clean_hash :: "units option \<Rightarrow> bool" where
  "clean_hash specHash \<longleftrightarrow> 0 \<notin> set (case specHash of None \<Rightarrow> [] | Some h \<Rightarrow> h)"

lemma cache_key_pattern:
  assumes "cache_key s p = cache_key s' p'" "clean_hash s" "clean_hash s'"
  shows "p = p'"
proof -
  have "takeWhile (\<lambda>c. c \<noteq> 0) (cache_key s p) = (case s of None \<Rightarrow> [] | Some h \<Rightarrow> h)" if "clean_hash s" for s p
    using that unfolding cache_key_def clean_hash_def
    by (subst takeWhile_append2) (auto split: option.splits intro!: gr0I)
  then have "(case s of None \<Rightarrow> [] | Some h \<Rightarrow> h) = (case s' of None \<Rightarrow> [] | Some h \<Rightarrow> h)"
    using assms by metis
  then show ?thesis using assms(1) by (simp add: cache_key_def)
qed

lemma cache_hit:
  assumes "cache_ok compile cache" "map_of cache (cache_key specHash pattern) = Some c" "clean_hash specHash"
  shows "compile (wrapped pattern) = Some (cp_engine c)"
proof -
  have "cache_key specHash pattern = cache_key (cp_specHash c) (cp_pattern c)" "clean_hash (cp_specHash c)"
      "compile (wrapped (cp_pattern c)) = Some (cp_engine c)"
    using assms(1) map_of_SomeD [OF assms(2)] by (auto simp: cache_ok_def clean_hash_def)
  then show ?thesis using cache_key_pattern [OF _ assms(3)] by metis
qed

lemma compile_transparent:
  assumes "cache_ok compile cache" "clean_hash specHash"
  shows "map_sum id cp_engine (fst (compileAppEnvPattern compile pattern specHash cache)) =
      map_sum id cp_engine (fst (compileAppEnvPattern compile pattern specHash []))"
    and "cache_ok compile (snd (compileAppEnvPattern compile pattern specHash cache))"
proof -
  show "map_sum id cp_engine (fst (compileAppEnvPattern compile pattern specHash cache)) =
      map_sum id cp_engine (fst (compileAppEnvPattern compile pattern specHash []))"
    using cache_hit [OF assms(1) _ assms(2)]
    by (auto simp: compileAppEnvPattern_def Let_def split: option.splits)
  show "cache_ok compile (snd (compileAppEnvPattern compile pattern specHash cache))"
    using assms by (auto simp: compileAppEnvPattern_def Let_def cache_ok_def clean_hash_def split: option.splits)
qed

text \<open>The error of a compilation does not depend on the cache, its engine neither.\<close>

lemma named_transparent:
  assumes "cache_ok compile cache" "clean_hash specHash"
  shows "map_sum id cp_engine (fst (compileNamedPattern compile pattern name specHash cache)) =
      map_sum id cp_engine (fst (compileNamedPattern compile pattern name specHash []))"
    and "cache_ok compile (snd (compileNamedPattern compile pattern name specHash cache))"
proof -
  have named: "map_sum id cp_engine (fst (compileNamedPattern compile pattern name specHash cc)) =
      (case map_sum id cp_engine (fst (compileAppEnvPattern compile pattern specHash cc)) of
         Inl (PatternError PatternUnsupported m) \<Rightarrow> Inl (PatternError PatternUnsupported (unsupported_message (Some name)))
       | r \<Rightarrow> r)" for cc
    by (auto simp: compileNamedPattern_def split: prod.splits sum.splits pattern_error.splits pattern_error_code.splits)
  show "map_sum id cp_engine (fst (compileNamedPattern compile pattern name specHash cache)) =
      map_sum id cp_engine (fst (compileNamedPattern compile pattern name specHash []))"
    unfolding named compile_transparent(1) [OF assms] ..
  have "snd (compileNamedPattern compile pattern name specHash cache) = snd (compileAppEnvPattern compile pattern specHash cache)"
    by (auto simp: compileNamedPattern_def split: prod.splits sum.splits pattern_error.splits pattern_error_code.splits)
  then show "cache_ok compile (snd (compileNamedPattern compile pattern name specHash cache))"
    using compile_transparent(2) [OF assms] by simp
qed

lemma clear_keeps: "cache_ok compile cache \<Longrightarrow> cache_ok compile (clearAppEnvPatternCache specHash cache)"
  by (auto simp: cache_ok_def clearAppEnvPatternCache_def split: option.splits)

lemma clear_drops: "(key, c) \<in> set (clearAppEnvPatternCache (Some h) cache) \<Longrightarrow> cp_specHash c \<noteq> Some h"
  by (auto simp: clearAppEnvPatternCache_def)

text \<open>The answer of a validation, through the engine of its pattern.\<close>

lemma validate_engine:
  "fst (validateAppEnvValue compile name value rules specHash cache) =
     (let r = (case rules of None \<Rightarrow> no_rules | Some r \<Rightarrow> r) in
      case vr_pattern r of
        None \<Rightarrow> fst (validateAppEnvValue compile name value rules specHash [])
      | Some pattern \<Rightarrow>
          if valid_name name \<and> \<not> reserved_name name \<and> utf8_length value \<le> APP_ENV_VALUE_MAX_BYTES \<and> 0 \<notin> set value \<and>
             check_lengths name value r = None
          then (case map_sum id cp_engine (fst (compileNamedPattern compile pattern name specHash cache)) of
              Inl e \<Rightarrow> Inl e
            | Inr engine \<Rightarrow> if engine value then Inr Accepted
                else Inr (Refused VPatternMismatch (quoted_name name @ text_of '' doesn't match the format the app expects.'') None))
          else fst (validateAppEnvValue compile name value rules specHash []))"
  by (auto simp: validateAppEnvValue_def Let_def split: option.splits prod.splits sum.splits)

lemma validate_cache:
  "snd (validateAppEnvValue compile name value rules specHash cache) = cache \<or>
   (\<exists>p. snd (validateAppEnvValue compile name value rules specHash cache) = snd (compileNamedPattern compile p name specHash cache))"
proof (cases "vr_pattern (case rules of None \<Rightarrow> no_rules | Some r \<Rightarrow> r)")
  case None
  then show ?thesis by (simp add: validateAppEnvValue_def Let_def split: option.split)
next
  case (Some p)
  then show ?thesis
    by (auto simp: validateAppEnvValue_def Let_def intro: exI [of _ p] split: option.split prod.split sum.split)
qed

text \<open>The codes left once the name and the size are right.\<close>

lemma check_lengths_codes:
  "check_lengths name value r = Some x \<Longrightarrow> \<exists>code m d. x = Refused code m d \<and> code \<in> {VLengthMismatch, VTooShort, VTooLong}"
  by (auto simp: check_lengths_def Let_def split: if_splits)

lemma validate_codes:
  assumes "valid_name name" "\<not> reserved_name name" "utf8_length value \<le> APP_ENV_VALUE_MAX_BYTES"
  shows "case fst (validateAppEnvValue compile name value rules specHash cache) of
      Inl _ \<Rightarrow> True
    | Inr Accepted \<Rightarrow> True
    | Inr (Refused code _ _) \<Rightarrow> code \<in> {VControlCharacter, VLengthMismatch, VTooShort, VTooLong, VPatternMismatch}"
proof (cases "0 \<in> set value")
  case True
  then show ?thesis using assms by (simp add: validateAppEnvValue_def Let_def)
next
  case False
  let ?r = "case rules of None \<Rightarrow> no_rules | Some r \<Rightarrow> r"
  show ?thesis
  proof (cases "check_lengths name value ?r")
    case (Some x)
    then obtain code m d where "x = Refused code m d" "code \<in> {VLengthMismatch, VTooShort, VTooLong}"
      using check_lengths_codes by blast
    then show ?thesis using assms False Some by (auto simp: validateAppEnvValue_def Let_def)
  next
    case None
    then show ?thesis
      using assms False by (simp add: validateAppEnvValue_def Let_def split: option.split prod.split sum.split)
  qed
qed

end
