(* ===== verification/Env_Claims.thy ===== *)
theory Env_Claims
  imports Dotenv_Roundtrip Env_Validation
begin

text \<open>
  The properties of the \<open>.env\<close> import and of value validation.
\<close>

section \<open>The import\<close>

lemma parsed_paste:
  assumes "parseAppEnvDotenv (Some source) = Parsed es rs ds n"
  shows "utf8_length source \<le> APP_ENV_VALUE_MAX_BYTES" "n = countLines (pasted source)" "n \<le> APP_ENV_DOTENV_MAX_LINES"
    "rs = line_refusals (pasted source)" "(es, ds) = resolveDuplicates (line_occurrences (pasted source))"
  using assms
  by (auto simp: parseAppEnvDotenv_def Let_def limitRefusal_def pasted_def [symmetric]
      parse_lines_paste [unfolded One_nat_def]
      APP_ENV_DOTENV_MAX_BYTES_def APP_ENV_VALUE_MAX_BYTES_def split: if_splits prod.splits)

text \<open>Every line of an accepted paste is small, and so are the lines the loop starts at.\<close>

lemma pasted_size: "utf8_length (pasted source) \<le> utf8_length source"
proof -
  have "utf8_length (stripBom source) \<le> utf8_length source"
    using utf8_suffix [of _ "[BOM]"] by (auto simp: stripBom_def split: list.splits)
  then show ?thesis using utf8_normalize [of "stripBom source"] by (simp add: pasted_def dwindles_def)
qed

lemma logical_size:
  assumes "parseAppEnvDotenv (Some source) = Parsed es rs ds n" "(k, u) \<in> set (logical_lines (pasted source) 1)"
  shows "utf8_length u \<le> APP_ENV_VALUE_MAX_BYTES"
proof -
  obtain pre where "pasted source = pre @ u" using paste_lines [OF assms(2)] by (auto simp: starts_line_def)
  then show ?thesis using utf8_suffix [of u pre] pasted_size [of source] parsed_paste(1) [OF assms(1)] by simp
qed

lemma last_occurrence:
  assumes "x \<in> set (line_occurrences tx)"
  defines "w \<equiv> last (occurrences_of (oc_name x) (line_occurrences tx))"
  shows "w \<in> set (line_occurrences tx)" "oc_name w = oc_name x" "oc_line x \<le> oc_line w"
    "oc_line w = oc_line x \<Longrightarrow> w = x"
proof -
  let ?occs = "occurrences_of (oc_name x) (line_occurrences tx)"
  have x: "x \<in> set ?occs" using assms(1) by (simp add: occurrences_of_def)
  then have w: "w \<in> set ?occs" unfolding w_def by (intro last_in_set) auto
  then show "w \<in> set (line_occurrences tx)" "oc_name w = oc_name x" by (simp_all add: occurrences_of_def)
  have sorted: "sorted_wrt (<) (map oc_line (line_occurrences tx))" by (rule line_numbers_sorted)
  then have "sorted_wrt (<) (map oc_line ?occs)"
    unfolding occurrences_of_def sorted_wrt_map by (rule sorted_wrt_filter)
  moreover obtain front where "?occs = front @ [w]" unfolding w_def using x by (metis append_butlast_last_id empty_iff list.set(1))
  ultimately show "oc_line x \<le> oc_line w" using x by (auto simp: sorted_wrt_append less_imp_le)
  have "inj_on oc_line (set (line_occurrences tx))"
    using sorted strict_sorted_iff distinct_map by blast
  then show "oc_line w = oc_line x \<Longrightarrow> w = x"
    using assms(1) \<open>w \<in> set (line_occurrences tx)\<close> by (meson inj_onD)
qed

text \<open>C20. In a paste that is parsed, the refusals are exactly the logical lines that scan as one, in line
  order, each with the number of the line of the text it starts on and a message about that line; no
  refusal is for a value that is too large, whatever the paste.\<close>

theorem refusals_name_their_line:
  assumes "parseAppEnvDotenv (Some source) = Parsed es rs ds n"
  shows "(\<forall>k r. (\<exists>x\<in>set rs. rl_line x = k \<and> rl_reason x = r) \<longleftrightarrow>
        (\<exists>u. (k, u) \<in> set (logical_lines (pasted source) 1) \<and> ls_outcome (scanLine u) = Refusal r)) \<and>
    sorted_wrt (<) (map rl_line rs) \<and>
    (\<forall>x\<in>set rs. 1 \<le> rl_line x \<and> rl_line x \<le> n \<and> rl_reason x \<noteq> ValueTooLarge \<and>
       rl_message x = refusalMessage (rl_line x) (rl_reason x) \<and>
       (\<exists>u. starts_line (pasted source) (rl_line x) u))"
proof -
  let ?tx = "pasted source"
  have rs: "rs = line_refusals ?tx" and n: "n = countLines ?tx" using parsed_paste [OF assms] by simp_all
  have "(\<exists>x\<in>set rs. rl_line x = k \<and> rl_reason x = r) \<longleftrightarrow>
      (\<exists>u. (k, u) \<in> set (logical_lines ?tx 1) \<and> ls_outcome (scanLine u) = Refusal r)" for k r
  proof
    assume "\<exists>u. (k, u) \<in> set (logical_lines ?tx 1) \<and> ls_outcome (scanLine u) = Refusal r"
    then have "\<lparr>rl_line = k, rl_reason = r, rl_message = refusalMessage k r\<rparr> \<in> set rs"
      unfolding rs in_line_refusals by simp
    then show "\<exists>x\<in>set rs. rl_line x = k \<and> rl_reason x = r" by force
  qed (auto simp: rs in_line_refusals)
  moreover have "1 \<le> rl_line x \<and> rl_line x \<le> n \<and> rl_reason x \<noteq> ValueTooLarge \<and>
      rl_message x = refusalMessage (rl_line x) (rl_reason x) \<and> (\<exists>u. starts_line ?tx (rl_line x) u)"
    if x: "x \<in> set rs" for x
  proof -
    obtain u where u: "(rl_line x, u) \<in> set (logical_lines ?tx 1)" "ls_outcome (scanLine u) = Refusal (rl_reason x)"
        "rl_message x = refusalMessage (rl_line x) (rl_reason x)"
      using x unfolding rs in_line_refusals by blast
    then show ?thesis
      using paste_lines [OF u(1)] line_size [OF logical_size [OF assms u(1)]] n by auto
  qed
  ultimately show ?thesis using line_numbers_sorted(2) [of ?tx] rs by blast
qed

text \<open>Three lines: a value, a refused line, and the name again.\<close>

definition sample_paste :: units where
  "sample_paste = [65, 61, 49, 10, 120, 10, 65, 61, 50]"

lemma sample_parsed:
  "parseAppEnvDotenv (Some sample_paste) =
     Parsed [\<lparr>oc_name = [65], oc_value = [50], oc_line = 3\<rparr>]
       [\<lparr>rl_line = 2, rl_reason = MalformedLine, rl_message = refusalMessage 2 MalformedLine\<rparr>]
       [\<lparr>du_line = 1, du_name = [65], du_winnerLine = 3\<rparr>] 3"
proof -
  have lines: "parse_lines sample_paste 1 [] [] =
     ([\<lparr>oc_name = [65], oc_value = [49], oc_line = 1\<rparr>, \<lparr>oc_name = [65], oc_value = [50], oc_line = 3\<rparr>],
      [\<lparr>rl_line = 2, rl_reason = MalformedLine, rl_message = refusalMessage 2 MalformedLine\<rparr>])" by code_simp
  have winners: "resolveDuplicates [\<lparr>oc_name = [65], oc_value = [49], oc_line = 1\<rparr>, \<lparr>oc_name = [65], oc_value = [50], oc_line = 3\<rparr>] =
     ([\<lparr>oc_name = [65], oc_value = [50], oc_line = 3\<rparr>], [\<lparr>du_line = 1, du_name = [65], du_winnerLine = 3\<rparr>])" by code_simp
  have "utf8_length sample_paste = 9" by (simp add: sample_paste_def unit_bytes_def high_surrogate_def)
  moreover have "stripBom sample_paste = sample_paste" by (simp add: sample_paste_def stripBom_def BOM_def)
  moreover have "normalizeNewlines sample_paste = sample_paste" "countLines sample_paste = 3" by code_simp+
  ultimately show ?thesis
    by (simp add: parseAppEnvDotenv_def Let_def lines winners APP_ENV_DOTENV_MAX_BYTES_def APP_ENV_DOTENV_MAX_LINES_def
        del: One_nat_def)
qed

theorem refusals_name_their_line_witness:
  "\<exists>u. (2, u) \<in> set (logical_lines (pasted sample_paste) 1) \<and> ls_outcome (scanLine u) = Refusal MalformedLine"
  using refusals_name_their_line [OF sample_parsed, THEN conjunct1, THEN spec, THEN spec, of 2 MalformedLine] by simp

text \<open>The entries of a paste are the last occurrences of its names.\<close>

lemma entries_of_paste:
  assumes "parseAppEnvDotenv (Some source) = Parsed es rs ds n"
  shows "map oc_name es = js_unique (map oc_name (line_occurrences (pasted source)))"
    and "e \<in> set es \<longleftrightarrow> (\<exists>x\<in>set (line_occurrences (pasted source)).
      e = last (occurrences_of (oc_name x) (line_occurrences (pasted source))))"
    and "ds = map (\<lambda>x. \<lparr>du_line = oc_line x, du_name = oc_name x,
        du_winnerLine = oc_line (last (occurrences_of (oc_name x) (line_occurrences (pasted source))))\<rparr>)
      (filter (\<lambda>x. oc_line (last (occurrences_of (oc_name x) (line_occurrences (pasted source)))) \<noteq> oc_line x)
        (line_occurrences (pasted source)))"
proof -
  let ?occs = "line_occurrences (pasted source)"
  have es: "es = map (\<lambda>nm. last (occurrences_of nm ?occs)) (js_unique (map oc_name ?occs))"
    using parsed_paste(5) [OF assms] by (simp add: resolve_spec)
  show "ds = map (\<lambda>x. \<lparr>du_line = oc_line x, du_name = oc_name x, du_winnerLine = oc_line (last (occurrences_of (oc_name x) ?occs))\<rparr>)
      (filter (\<lambda>x. oc_line (last (occurrences_of (oc_name x) ?occs)) \<noteq> oc_line x) ?occs)"
    using parsed_paste(5) [OF assms] by (simp add: resolve_spec)
  show "e \<in> set es \<longleftrightarrow> (\<exists>x\<in>set ?occs. e = last (occurrences_of (oc_name x) ?occs))" by (auto simp: es)
  have "oc_name (last (occurrences_of nm ?occs)) = nm" if nm: "nm \<in> set (js_unique (map oc_name ?occs))" for nm
  proof -
    obtain x where "x \<in> set ?occs" "nm = oc_name x" using nm by auto
    then show ?thesis using last_occurrence(2) by blast
  qed
  then show "map oc_name es = js_unique (map oc_name ?occs)" unfolding es map_map comp_def by (rule map_idI)
qed

lemma entry_wins:
  assumes "parseAppEnvDotenv (Some source) = Parsed es rs ds n" "x \<in> set (line_occurrences (pasted source))"
  shows "x \<in> set es \<longleftrightarrow> oc_line (last (occurrences_of (oc_name x) (line_occurrences (pasted source)))) = oc_line x"
proof
  assume "x \<in> set es"
  then obtain y where y: "y \<in> set (line_occurrences (pasted source))"
      "x = last (occurrences_of (oc_name y) (line_occurrences (pasted source)))"
    unfolding entries_of_paste(2) [OF assms(1)] by blast
  then have "oc_name x = oc_name y" using last_occurrence(2) by simp
  then show "oc_line (last (occurrences_of (oc_name x) (line_occurrences (pasted source)))) = oc_line x" using y(2) by simp
next
  assume "oc_line (last (occurrences_of (oc_name x) (line_occurrences (pasted source)))) = oc_line x"
  then have "x = last (occurrences_of (oc_name x) (line_occurrences (pasted source)))"
    using last_occurrence(4) [OF assms(2)] by simp
  then show "x \<in> set es" unfolding entries_of_paste(2) [OF assms(1)] using assms(2) by blast
qed

text \<open>An entry is a line of the paste that no later line of its name follows.\<close>

lemma entry_line:
  assumes "parseAppEnvDotenv (Some source) = Parsed es rs ds n" "e \<in> set es"
  shows "e \<in> set (line_occurrences (pasted source))" "valid_name (oc_name e)" "\<not> reserved_name (oc_name e)"
    "utf8_length (oc_value e) \<le> APP_ENV_VALUE_MAX_BYTES"
    "\<forall>x\<in>set (line_occurrences (pasted source)). oc_name x = oc_name e \<longrightarrow> oc_line x \<le> oc_line e"
proof -
  let ?occs = "line_occurrences (pasted source)"
  obtain y where y: "y \<in> set ?occs" "e = last (occurrences_of (oc_name y) ?occs)"
    using assms(2) unfolding entries_of_paste(2) [OF assms(1)] by blast
  show e: "e \<in> set ?occs" unfolding y(2) by (rule last_occurrence(1) [OF y(1)])
  have name: "oc_name e = oc_name y" unfolding y(2) by (rule last_occurrence(2) [OF y(1)])
  obtain u where u: "(oc_line e, u) \<in> set (logical_lines (pasted source) 1)"
      "ls_outcome (scanLine u) = Entry (oc_name e) (oc_value e)"
    using e unfolding in_line_occurrences by blast
  show "valid_name (oc_name e)" "\<not> reserved_name (oc_name e)" "utf8_length (oc_value e) \<le> APP_ENV_VALUE_MAX_BYTES"
    using line_size [OF logical_size [OF assms(1) u(1)]] u(2) by simp_all
  show "\<forall>x\<in>set ?occs. oc_name x = oc_name e \<longrightarrow> oc_line x \<le> oc_line e"
    using last_occurrence(3) name y(2) by metis
qed

text \<open>The last occurrence of a name wins: the entries have distinct, valid, unreserved names in the order
  of first occurrence, each with the value and line of the last line that gives the name; every other
  line that gives it is listed as a duplicate of that one, and nothing else is.\<close>

theorem last_value_wins:
  assumes "parseAppEnvDotenv (Some source) = Parsed es rs ds n"
  shows "map oc_name es = js_unique (map oc_name (line_occurrences (pasted source))) \<and>
    (\<forall>e\<in>set es. valid_name (oc_name e) \<and> \<not> reserved_name (oc_name e) \<and>
       e \<in> set (line_occurrences (pasted source)) \<and>
       (\<forall>x\<in>set (line_occurrences (pasted source)). oc_name x = oc_name e \<longrightarrow> oc_line x \<le> oc_line e)) \<and>
    (\<forall>x\<in>set (line_occurrences (pasted source)). x \<in> set es \<or>
       (\<exists>e\<in>set es. oc_name e = oc_name x \<and> oc_line x < oc_line e \<and>
         \<lparr>du_line = oc_line x, du_name = oc_name x, du_winnerLine = oc_line e\<rparr> \<in> set ds)) \<and>
    (\<forall>d\<in>set ds. \<exists>x\<in>set (line_occurrences (pasted source)). x \<notin> set es \<and> du_line d = oc_line x \<and> du_name d = oc_name x)"
proof -
  let ?occs = "line_occurrences (pasted source)"
  let ?w = "\<lambda>x. last (occurrences_of (oc_name x) ?occs)"
  have "x \<in> set es \<or> (\<exists>e\<in>set es. oc_name e = oc_name x \<and> oc_line x < oc_line e \<and>
      \<lparr>du_line = oc_line x, du_name = oc_name x, du_winnerLine = oc_line e\<rparr> \<in> set ds)" if x: "x \<in> set ?occs" for x
  proof (cases "oc_line (?w x) = oc_line x")
    case False
    have "?w x \<in> set es" using entries_of_paste(2) [OF assms] x by blast
    moreover have "\<lparr>du_line = oc_line x, du_name = oc_name x, du_winnerLine = oc_line (?w x)\<rparr> \<in> set ds"
      using x False unfolding entries_of_paste(3) [OF assms] by simp
    ultimately show ?thesis using last_occurrence(2,3) [OF x] False by (metis le_neq_implies_less)
  qed (use entry_wins [OF assms] x in blast)
  moreover have "\<exists>x\<in>set ?occs. x \<notin> set es \<and> du_line d = oc_line x \<and> du_name d = oc_name x" if d: "d \<in> set ds" for d
  proof -
    obtain x where "x \<in> set ?occs" "oc_line (?w x) \<noteq> oc_line x" "du_line d = oc_line x" "du_name d = oc_name x"
      using d unfolding entries_of_paste(3) [OF assms] by auto
    then show ?thesis using entry_wins [OF assms] by blast
  qed
  ultimately show ?thesis using entries_of_paste(1) [OF assms] entry_line [OF assms] by blast
qed

theorem last_value_wins_witness:
  "\<lparr>oc_name = [65], oc_value = [50], oc_line = 3\<rparr> \<in> set (line_occurrences (pasted sample_paste)) \<and>
   js_unique (map oc_name (line_occurrences (pasted sample_paste))) = [[65]]"
  using last_value_wins [OF sample_parsed] by simp

text \<open>C21. What the writer renders the parser reads back: distinct, storable names with any values give one
  entry per line, nothing refused and nothing superseded, as long as the text is within the limits.\<close>

theorem import_reads_back:
  assumes "\<forall>e\<in>set es. storable e" "distinct (map fst es)"
    and "utf8_length (render es) \<le> APP_ENV_DOTENV_MAX_BYTES" "length es \<le> APP_ENV_DOTENV_MAX_LINES"
  shows "parseAppEnvDotenv (Some (render es)) =
    Parsed (numbered 1 es) [] [] (length es)"
proof -
  have clean: "normalizeNewlines (stripBom (render es)) = render es"
    using render_units [OF assms(1)] by (simp add: normalize_clean)
  have lines: "countLines (render es) = length es"
    using render_units(2,3) [OF assms(1)] by (cases es) (auto simp: countLines_def render_def render_line_def)
  have "\<forall>e\<in>set es. storable e \<and> utf8_length (snd e) \<le> APP_ENV_VALUE_MAX_BYTES"
    using assms(1,3) rendered_value_size by (fastforce simp: APP_ENV_VALUE_MAX_BYTES_def APP_ENV_DOTENV_MAX_BYTES_def)
  from parse_rendered [OF this, of 1 "[]" "[]"]
  have parse: "parse_lines (render es) 1 [] [] = (numbered 1 es, [])" by simp
  have "distinct (map oc_name (numbered 1 es))" using assms(2) unfolding numbered_names .
  then have "resolveDuplicates (numbered 1 es) = (numbered 1 es, [])" by (rule resolve_distinct)
  then show ?thesis
    using assms(3,4) by (simp add: parseAppEnvDotenv_def Let_def clean lines parse del: One_nat_def)
qed

text \<open>A quoted value with a quote, a backslash and a line break in it, and an empty one.\<close>

theorem import_reads_back_witness:
  "parseAppEnvDotenv (Some (render [([65], [34, 92, 10, 120]), ([95, 48], [])])) =
     Parsed [\<lparr>oc_name = [65], oc_value = [34, 92, 10, 120], oc_line = 1\<rparr>, \<lparr>oc_name = [95, 48], oc_value = [], oc_line = 2\<rparr>] [] [] 2"
proof -
  let ?es = "[([65], [34, 92, 10, 120]), ([95, 48], [])] :: (units \<times> units) list"
  have "\<forall>e\<in>set ?es. storable e" by code_simp
  moreover have "distinct (map fst ?es)" by simp
  moreover have "utf8_length (render ?es) \<le> APP_ENV_DOTENV_MAX_BYTES"
    by (simp add: render_def render_line_def escape_unit_def unit_bytes_def high_surrogate_def APP_ENV_DOTENV_MAX_BYTES_def)
  moreover have "length ?es \<le> APP_ENV_DOTENV_MAX_LINES" by (simp add: APP_ENV_DOTENV_MAX_LINES_def)
  ultimately have "parseAppEnvDotenv (Some (render ?es)) = Parsed (numbered 1 ?es) [] [] (length ?es)"
    by (rule import_reads_back)
  then show ?thesis by (simp add: numbered_def upt_conv_Cons)
qed

text \<open>
  A comment right after the equals sign is not one: the blanks before its \<open>#\<close> are skipped first, so
  \<open>A= # c\<close> stores \<open># c\<close>, while \<open>A=1 # c\<close> stores \<open>1\<close>.
\<close>

lemma comment_after_equals_is_stored:
  "ls_outcome (scanLine (text_of ''A= # c'')) = Entry (text_of ''A'') (text_of ''# c'') \<and>
   ls_outcome (scanLine (text_of ''A=1 # c'')) = Entry (text_of ''A'') (text_of ''1'')"
  by code_simp

section \<open>Validation\<close>

text \<open>What the import accepts passes the name and size rules of validation: an entry of a parsed paste is
  only refused for a NUL, a length rule or the pattern of its own entry.\<close>

theorem imported_entries_pass_name_checks:
  assumes "parseAppEnvDotenv (Some source) = Parsed es rs ds n" "e \<in> set es"
  shows "case fst (validateAppEnvValue compile (oc_name e) (oc_value e) rules specHash cache) of
      Inl _ \<Rightarrow> True
    | Inr Accepted \<Rightarrow> True
    | Inr (Refused code _ _) \<Rightarrow> code \<in> {VControlCharacter, VLengthMismatch, VTooShort, VTooLong, VPatternMismatch}"
  using entry_line(2-4) [OF assms] by (rule validate_codes)

theorem imported_entries_pass_name_checks_witness:
  "case fst (validateAppEnvValue (\<lambda>p. None) [65] [50] None None []) of
      Inl _ \<Rightarrow> True
    | Inr Accepted \<Rightarrow> True
    | Inr (Refused code _ _) \<Rightarrow> code \<in> {VControlCharacter, VLengthMismatch, VTooShort, VTooLong, VPatternMismatch}"
  using imported_entries_pass_name_checks
    [OF sample_parsed, of "\<lparr>oc_name = [65], oc_value = [50], oc_line = 3\<rparr>" "\<lambda>p. None" None None "[]"] by simp

text \<open>The pattern cache is transparent: with every entry compiled from its own pattern under a spec hash
  without NUL, a validation answers what it answers with an empty cache, and leaves such a cache.\<close>

theorem pattern_cache_is_transparent:
  assumes "cache_ok compile cache" "clean_hash specHash"
  shows "fst (validateAppEnvValue compile name value rules specHash cache) =
      fst (validateAppEnvValue compile name value rules specHash []) \<and>
    cache_ok compile (snd (validateAppEnvValue compile name value rules specHash cache))"
proof -
  have "fst (validateAppEnvValue compile name value rules specHash cache) =
      fst (validateAppEnvValue compile name value rules specHash [])"
    unfolding validate_engine [of compile name "value" rules specHash cache] named_transparent(1) [OF assms]
    by (rule validate_engine [symmetric])
  moreover have "cache_ok compile (snd (validateAppEnvValue compile name value rules specHash cache))"
    using validate_cache [of compile name "value" rules specHash cache] assms(1) named_transparent(2) [OF assms]
    by metis
  ultimately show ?thesis ..
qed

text \<open>An engine that accepts every pattern as the literal between the wrapper, and a cache of one pattern.\<close>

definition literal_engine :: "units \<Rightarrow> engine option" where
  "literal_engine p = Some (\<lambda>v. p = wrapped v)"

definition one_pattern :: pattern_cache where
  "one_pattern = [(cache_key (Some [7]) [97], \<lparr>cp_pattern = [97], cp_specHash = Some [7], cp_engine = (\<lambda>v. wrapped [97] = wrapped v)\<rparr>)]"

theorem pattern_cache_is_transparent_witness:
  "fst (validateAppEnvValue literal_engine [65] [97] (Some (no_rules\<lparr>vr_pattern := Some [97]\<rparr>)) (Some [7]) one_pattern) =
      fst (validateAppEnvValue literal_engine [65] [97] (Some (no_rules\<lparr>vr_pattern := Some [97]\<rparr>)) (Some [7]) [])"
proof -
  have "cache_ok literal_engine one_pattern" by (simp add: cache_ok_def one_pattern_def literal_engine_def)
  moreover have "clean_hash (Some [7])" by (simp add: clean_hash_def)
  ultimately show ?thesis by (rule pattern_cache_is_transparent [THEN conjunct1])
qed

end
