(* ===== verification/Task_Lock.thy ===== *)
theory Task_Lock
  imports Prelude
begin

text \<open>
  The distributed mutex of \<open>cache/distributed-task-lock.service.ts\<close> over the \<open>cache_entries\<close> table. The
  table maps a key to its row, since the key is its primary key; each function below is one statement of
  the code on it, and \<open>lock_step\<close> interleaves the statements of any number of processes with the clock.
  Times are milliseconds of one clock; a token is fresh, as its random part makes it.
\<close>

section \<open>The table and the statements\<close>

record lock_row =
  lr_value :: string
  lr_expiresAt :: int
  lr_createdAt :: int

type_synonym lock_table = "string \<rightharpoonup> lock_row"

record lock_options =
  lo_ttlMs :: "int option"
  lo_refreshIntervalMs :: "int option"
  lo_maxLifetimeMs :: "int option"

definition DEFAULT_TTL_MS :: int where "DEFAULT_TTL_MS = 15 * 60 * 1000"
definition DEFAULT_MAX_LIFETIME_MS :: int where "DEFAULT_MAX_LIFETIME_MS = 24 * 60 * 60 * 1000"
definition MAX_STALE_LOCK_MS :: int where "MAX_STALE_LOCK_MS = 24 * 60 * 60 * 1000"

definition max_lifetime_ms :: "lock_options \<Rightarrow> int" where
  "max_lifetime_ms opts = min (case lo_maxLifetimeMs opts of None \<Rightarrow> DEFAULT_MAX_LIFETIME_MS | Some m \<Rightarrow> m) MAX_STALE_LOCK_MS"

definition ttl_ms :: "lock_options \<Rightarrow> int" where
  "ttl_ms opts = min (case lo_ttlMs opts of None \<Rightarrow> DEFAULT_TTL_MS | Some t \<Rightarrow> t) (max_lifetime_ms opts)"

definition refresh_interval_ms :: "lock_options \<Rightarrow> int" where
  "refresh_interval_ms opts = (case lo_refreshIntervalMs opts of None \<Rightarrow> max 30000 (ttl_ms opts div 3) | Some r \<Rightarrow> r)"

definition buildKey :: "string \<Rightarrow> string" where
  "buildKey key = ''task-lock:'' @ key"

text \<open>The delete of \<open>tryAcquire\<close>: its \<open>now\<close> was read when the acquisition began.\<close>

definition delete_stale :: "string \<Rightarrow> int \<Rightarrow> int \<Rightarrow> lock_table \<Rightarrow> lock_table" where
  "delete_stale lockKey now maxLifetimeMs T = (case T lockKey of
     None \<Rightarrow> T
   | Some r \<Rightarrow> if lr_expiresAt r < now \<or> lr_createdAt r < now - min maxLifetimeMs MAX_STALE_LOCK_MS
       then T(lockKey := None) else T)"

text \<open>The insert: a unique violation when the key is taken; \<open>createdAt\<close> is the time of the insert.\<close>

definition insert_lock :: "string \<Rightarrow> string \<Rightarrow> int \<Rightarrow> int \<Rightarrow> int \<Rightarrow> int \<Rightarrow> lock_table \<Rightarrow> lock_table option" where
  "insert_lock lockKey token now ttlMs maxLifetimeMs created T = (case T lockKey of
     Some _ \<Rightarrow> None
   | None \<Rightarrow> Some (T(lockKey \<mapsto> \<lparr>lr_value = token, lr_expiresAt = min (now + ttlMs) (now + maxLifetimeMs), lr_createdAt = created\<rparr>)))"

definition refresh_lock :: "string \<Rightarrow> string \<Rightarrow> int \<Rightarrow> lock_table \<Rightarrow> lock_table" where
  "refresh_lock key token nextExpiry T = (case T (buildKey key) of
     Some r \<Rightarrow> if lr_value r = token then T(buildKey key \<mapsto> r\<lparr>lr_expiresAt := nextExpiry\<rparr>) else T
   | None \<Rightarrow> T)"

definition next_expiry :: "int \<Rightarrow> int \<Rightarrow> int \<Rightarrow> int" where
  "next_expiry now ttlMs hardDeadline = min (now + ttlMs) hardDeadline"

definition release_lock :: "string \<Rightarrow> string \<Rightarrow> lock_table \<Rightarrow> lock_table" where
  "release_lock key token T = (case T (buildKey key) of
     Some r \<Rightarrow> if lr_value r = token then T(buildKey key := None) else T
   | None \<Rightarrow> T)"

definition isLocked :: "string \<Rightarrow> int \<Rightarrow> lock_table \<Rightarrow> bool" where
  "isLocked key now T = (case T (buildKey key) of None \<Rightarrow> False | Some r \<Rightarrow> lr_expiresAt r > now)"

text \<open>
  \<open>isUniqueViolation\<close> on an error's two codes and two messages, a missing one being the empty string.
\<close>

record db_error =
  de_code :: string
  de_driverCode :: string
  de_message :: string
  de_driverMessage :: string

fun str_includes :: "string \<Rightarrow> string \<Rightarrow> bool" where
  "str_includes [] needle = (needle = [])"
| "str_includes (c # s) needle = (take (length needle) (c # s) = needle \<or> str_includes s needle)"

definition isUniqueViolation :: "db_error \<Rightarrow> bool" where
  "isUniqueViolation e =
     (list_ex (\<lambda>code. code = ''23505'' \<or> code = ''ER_DUP_ENTRY'' \<or> code = ''SQLITE_CONSTRAINT_PRIMARYKEY'' \<or>
        code = ''SQLITE_CONSTRAINT_UNIQUE'') [de_code e, de_driverCode e] \<or>
      (let message = de_message e @ '' '' @ de_driverMessage e in
        str_includes message ''UNIQUE constraint failed'' \<or>
        str_includes message ''duplicate key value violates unique constraint'' \<or>
        str_includes message ''Duplicate entry''))"

text \<open>
  \<open>tryAcquire\<close> as one call: \<open>rivals\<close> and \<open>later\<close> are what other processes write between its statements and
  \<open>fault\<close> the error of an insert that fails for a reason of its own.
\<close>

definition tryAcquire ::
  "string \<Rightarrow> string \<Rightarrow> int \<Rightarrow> int \<Rightarrow> int \<Rightarrow> (lock_table \<Rightarrow> lock_table) \<Rightarrow> (lock_table \<Rightarrow> lock_table) \<Rightarrow> db_error option
    \<Rightarrow> int \<Rightarrow> lock_table \<Rightarrow> (db_error + string option) \<times> lock_table" where
  "tryAcquire key token now ttlMs maxLifetimeMs rivals later fault created T =
     (let lockKey = buildKey key;
          cleaned = rivals (delete_stale lockKey now maxLifetimeMs T);
          failed = (\<lambda>e. let after = later cleaned in
            if isUniqueViolation e then (Inr None, after)
            else if after lockKey \<noteq> None then (Inr None, after) else (Inl e, after))
      in case fault of
          Some e \<Rightarrow> failed e
        | None \<Rightarrow> (case insert_lock lockKey token now ttlMs maxLifetimeMs created cleaned of
            Some T' \<Rightarrow> (Inr (Some token), T')
          | None \<Rightarrow> failed \<lparr>de_code = ''23505'', de_driverCode = [], de_message = [], de_driverMessage = []\<rparr>))"

section \<open>The processes\<close>

datatype lock_phase = Starting | Cleaned | Holding | Lost | Released

text \<open>
  A call of \<open>runExclusive\<close>: its key, its bounds, the instant it began and its hard deadline. The refreshes
  it has issued and the database has not applied yet are pending; \<open>lp_lease\<close> is the last expiry it wrote.
\<close>

record lock_process =
  lp_key :: string
  lp_ttl :: int
  lp_max :: int
  lp_began :: int
  lp_deadline :: int
  lp_phase :: lock_phase
  lp_pending :: "int list"
  lp_lease :: int

record lock_state =
  lk_table :: lock_table
  lk_clock :: int
  lk_procs :: "string \<rightharpoonup> lock_process"

definition begin_process :: "string \<Rightarrow> lock_options \<Rightarrow> int \<Rightarrow> lock_process" where
  "begin_process key opts now =
     \<lparr>lp_key = key, lp_ttl = ttl_ms opts, lp_max = max_lifetime_ms opts, lp_began = now,
      lp_deadline = now + max_lifetime_ms opts, lp_phase = Starting, lp_pending = [], lp_lease = now\<rparr>"

definition refreshed_process :: "lock_table \<Rightarrow> string \<Rightarrow> int \<Rightarrow> lock_process \<Rightarrow> lock_process" where
  "refreshed_process T token e p = p\<lparr>lp_pending := remove1 e (lp_pending p),
     lp_lease := (case T (buildKey (lp_key p)) of None \<Rightarrow> lp_lease p
       | Some r \<Rightarrow> if lr_value r = token then e else lp_lease p)\<rparr>"

text \<open>One statement of one process, or the clock.\<close>

inductive lock_step :: "lock_state \<Rightarrow> lock_state \<Rightarrow> bool" where
  tick: "lk_clock s \<le> now \<Longrightarrow> lock_step s (s\<lparr>lk_clock := now\<rparr>)"
| begins: "lk_procs s token = None \<Longrightarrow> (\<forall>k r. lk_table s k = Some r \<longrightarrow> lr_value r \<noteq> token) \<Longrightarrow>
    0 < ttl_ms opts \<Longrightarrow> lock_step s (s\<lparr>lk_procs := (lk_procs s)(token \<mapsto> begin_process key opts (lk_clock s))\<rparr>)"
| cleans: "lk_procs s token = Some p \<Longrightarrow> lp_phase p = Starting \<Longrightarrow>
    lock_step s (s\<lparr>lk_table := delete_stale (buildKey (lp_key p)) (lp_began p) (lp_max p) (lk_table s),
      lk_procs := (lk_procs s)(token \<mapsto> p\<lparr>lp_phase := Cleaned\<rparr>)\<rparr>)"
| acquires: "lk_procs s token = Some p \<Longrightarrow> lp_phase p = Cleaned \<Longrightarrow>
    insert_lock (buildKey (lp_key p)) token (lp_began p) (lp_ttl p) (lp_max p) (lk_clock s) (lk_table s) = Some T \<Longrightarrow>
    lock_step s (s\<lparr>lk_table := T, lk_procs := (lk_procs s)(token \<mapsto>
      p\<lparr>lp_phase := Holding, lp_lease := min (lp_began p + lp_ttl p) (lp_began p + lp_max p)\<rparr>)\<rparr>)"
| loses: "lk_procs s token = Some p \<Longrightarrow> lp_phase p = Cleaned \<Longrightarrow>
    lock_step s (s\<lparr>lk_procs := (lk_procs s)(token \<mapsto> p\<lparr>lp_phase := Lost\<rparr>)\<rparr>)"
| beats: "lk_procs s token = Some p \<Longrightarrow> lp_phase p = Holding \<Longrightarrow> lk_clock s < lp_deadline p \<Longrightarrow>
    lock_step s (s\<lparr>lk_procs := (lk_procs s)(token \<mapsto>
      p\<lparr>lp_pending := lp_pending p @ [next_expiry (lk_clock s) (lp_ttl p) (lp_deadline p)]\<rparr>)\<rparr>)"
| refreshes: "lk_procs s token = Some p \<Longrightarrow> e \<in> set (lp_pending p) \<Longrightarrow>
    lock_step s (s\<lparr>lk_table := refresh_lock (lp_key p) token e (lk_table s),
      lk_procs := (lk_procs s)(token \<mapsto> refreshed_process (lk_table s) token e p)\<rparr>)"
| releases: "lk_procs s token = Some p \<Longrightarrow> lp_phase p = Holding \<Longrightarrow>
    lock_step s (s\<lparr>lk_table := release_lock (lp_key p) token (lk_table s),
      lk_procs := (lk_procs s)(token \<mapsto> p\<lparr>lp_phase := Released\<rparr>)\<rparr>)"

inductive_cases lock_stepE: "lock_step s s'"

inductive lock_reachable :: "lock_state \<Rightarrow> bool" where
  initial: "lock_reachable \<lparr>lk_table = Map.empty, lk_clock = now, lk_procs = Map.empty\<rparr>"
| step: "lock_reachable s \<Longrightarrow> lock_step s s' \<Longrightarrow> lock_reachable s'"

end
