(* ===== verification/Lock_Laws.thy ===== *)
theory Lock_Laws
  imports Task_Lock
begin

text \<open>
  The invariant of the lock table and its processes: a row belongs to the process that holds it and
  carries its last lease, and a holder without a row has a lease that has lapsed.
\<close>

definition process_ok :: "int \<Rightarrow> lock_process \<Rightarrow> bool" where
  "process_ok clock p \<longleftrightarrow> lp_began p \<le> clock \<and> lp_deadline p = lp_began p + lp_max p \<and> lp_ttl p \<le> lp_max p \<and>
     lp_max p \<le> MAX_STALE_LOCK_MS \<and> (\<forall>e\<in>set (lp_pending p). e \<le> lp_deadline p)"

definition row_of :: "lock_state \<Rightarrow> string \<Rightarrow> lock_process \<Rightarrow> lock_row option" where
  "row_of s token p = (case lk_table s (buildKey (lp_key p)) of
     None \<Rightarrow> None | Some r \<Rightarrow> if lr_value r = token then Some r else None)"

definition row_ok :: "lock_state \<Rightarrow> string \<Rightarrow> lock_row \<Rightarrow> bool" where
  "row_ok s k r \<longleftrightarrow> (\<exists>p. lk_procs s (lr_value r) = Some p \<and> lp_phase p = Holding \<and> k = buildKey (lp_key p) \<and>
     lr_expiresAt r = lp_lease p \<and> lp_lease p \<le> lp_deadline p \<and> lp_began p \<le> lr_createdAt r)"

definition lock_ok :: "lock_state \<Rightarrow> bool" where
  "lock_ok s \<longleftrightarrow> (\<forall>token p. lk_procs s token = Some p \<longrightarrow> process_ok (lk_clock s) p) \<and>
     (\<forall>k r. lk_table s k = Some r \<longrightarrow> row_ok s k r)"

text \<open>All calls on a key use one maximum lifetime.\<close>

definition uniform :: "lock_state \<Rightarrow> bool" where
  "uniform s \<longleftrightarrow> (\<forall>a b p q. lk_procs s a = Some p \<and> lk_procs s b = Some q \<and> lp_key p = lp_key q \<longrightarrow> lp_max p = lp_max q)"

definition leases_ok :: "lock_state \<Rightarrow> bool" where
  "leases_ok s \<longleftrightarrow> (\<forall>token p. lk_procs s token = Some p \<and> lp_phase p = Holding \<longrightarrow>
     row_of s token p \<noteq> None \<or> lp_lease p < lk_clock s)"

lemma buildKey_inject [simp]: "buildKey a = buildKey b \<longleftrightarrow> a = b"
  by (simp add: buildKey_def)

lemma lifetimes: "ttl_ms opts \<le> max_lifetime_ms opts" "max_lifetime_ms opts \<le> MAX_STALE_LOCK_MS"
  unfolding ttl_ms_def max_lifetime_ms_def by (rule min.cobounded2)+

lemma delete_stale_some: "delete_stale k now m T j = Some r \<Longrightarrow> T j = Some r"
  by (auto simp: delete_stale_def split: option.splits if_splits)

lemma delete_stale_gone:
  "delete_stale k now m T j = None \<Longrightarrow> T j = Some r \<Longrightarrow>
     j = k \<and> (lr_expiresAt r < now \<or> lr_createdAt r < now - min m MAX_STALE_LOCK_MS)"
  by (auto simp: delete_stale_def split: option.splits if_splits)

lemmas step_split [consumes 1, case_names tick begins cleans acquires loses beats refreshes releases] = lock_stepE

lemma refreshed_process_simps [simp]:
  "lp_key (refreshed_process T token e p) = lp_key p" "lp_max (refreshed_process T token e p) = lp_max p"
  "lp_phase (refreshed_process T token e p) = lp_phase p" "lp_deadline (refreshed_process T token e p) = lp_deadline p"
  "lp_began (refreshed_process T token e p) = lp_began p" "lp_ttl (refreshed_process T token e p) = lp_ttl p"
  "lp_pending (refreshed_process T token e p) = remove1 e (lp_pending p)"
  by (simp_all add: refreshed_process_def)

lemma refreshed_lease:
  "T (buildKey (lp_key p)) = Some r \<Longrightarrow> lr_value r = token \<Longrightarrow> lp_lease (refreshed_process T token e p) = e"
  "\<not> (\<exists>r. T (buildKey (lp_key p)) = Some r \<and> lr_value r = token) \<Longrightarrow> lp_lease (refreshed_process T token e p) = lp_lease p"
  by (auto simp: refreshed_process_def split: option.splits)

text \<open>A step keeps the other processes, and every process its key and its bounds.\<close>

lemma step_keeps_processes:
  assumes "lock_step s s'" "lk_procs s token = Some p"
  shows "\<exists>p'. lk_procs s' token = Some p' \<and> lp_key p' = lp_key p \<and> lp_max p' = lp_max p"
  using assms by (cases rule: step_split) auto

lemma uniform_before: "lock_step s s' \<Longrightarrow> uniform s' \<Longrightarrow> uniform s"
proof -
  assume step: "lock_step s s'" and uni: "uniform s'"
  have "lp_max p = lp_max q" if pq: "lk_procs s a = Some p" "lk_procs s b = Some q" "lp_key p = lp_key q" for a b p q
  proof -
    obtain p' where p': "lk_procs s' a = Some p'" "lp_key p' = lp_key p" "lp_max p' = lp_max p"
      using step_keeps_processes [OF step pq(1)] by blast
    obtain q' where q': "lk_procs s' b = Some q'" "lp_key q' = lp_key q" "lp_max q' = lp_max q"
      using step_keeps_processes [OF step pq(2)] by blast
    have "lp_max p' = lp_max q'" using uni p'(1,2) q'(1,2) pq(3) unfolding uniform_def by metis
    then show ?thesis using p' q' by simp
  qed
  then show "uniform s" unfolding uniform_def by blast
qed

lemma process_ok_later: "process_ok c p \<Longrightarrow> c \<le> d \<Longrightarrow> process_ok d p"
  by (auto simp: process_ok_def)

lemma processes_put:
  assumes "\<forall>token p. f token = Some p \<longrightarrow> process_ok c p" "process_ok c q" "g = f(token \<mapsto> q)"
  shows "\<forall>token p. g token = Some p \<longrightarrow> process_ok c p"
  using assms by simp

lemma process_ok_phase: "process_ok c p \<Longrightarrow> process_ok c (p\<lparr>lp_phase := ph\<rparr>)" "process_ok c p \<Longrightarrow> process_ok c (p\<lparr>lp_lease := l\<rparr>)"
  "process_ok c p \<Longrightarrow> set es \<subseteq> set (lp_pending p) \<union> {..lp_deadline p} \<Longrightarrow> process_ok c (p\<lparr>lp_pending := es\<rparr>)"
  by (auto simp: process_ok_def)

lemma step_process_ok:
  assumes "lock_step s s'" "\<forall>token p. lk_procs s token = Some p \<longrightarrow> process_ok (lk_clock s) p"
  shows "\<forall>token p. lk_procs s' token = Some p \<longrightarrow> process_ok (lk_clock s') p"
proof -
  have old: "process_ok (lk_clock s) p" if "lk_procs s token = Some p" for token p using assms(2) that by blast
  from assms(1) show ?thesis
  proof (cases rule: step_split)
    case (tick now)
    then show ?thesis using assms(2) process_ok_later by simp blast
  next
    case (begins token opts key)
    have "process_ok (lk_clock s) (begin_process key opts (lk_clock s))"
      using lifetimes [of opts] by (simp add: process_ok_def begin_process_def)
    from processes_put [OF assms(2) this] show ?thesis using begins(1) by simp
  next
    case (cleans token p)
    from processes_put [OF assms(2) process_ok_phase(1) [OF old [OF cleans(2)]]] show ?thesis using cleans(1) by simp
  next
    case (acquires token p T)
    have "process_ok (lk_clock s) (p\<lparr>lp_phase := Holding, lp_lease := l\<rparr>)" for l
      using old [OF acquires(2)] by (auto simp: process_ok_def)
    from processes_put [OF assms(2) this] show ?thesis using acquires(1) by simp
  next
    case (loses token p)
    from processes_put [OF assms(2) process_ok_phase(1) [OF old [OF loses(2)]]] show ?thesis using loses(1) by simp
  next
    case (beats token p)
    have "process_ok (lk_clock s) (p\<lparr>lp_pending := lp_pending p @ [next_expiry (lk_clock s) (lp_ttl p) (lp_deadline p)]\<rparr>)"
      by (rule process_ok_phase(3) [OF old [OF beats(2)]]) (simp add: next_expiry_def)
    from processes_put [OF assms(2) this] show ?thesis using beats(1) by simp
  next
    case (refreshes token p e)
    have "process_ok (lk_clock s) (refreshed_process (lk_table s) token e p)"
      using old [OF refreshes(2)] set_remove1_subset [of e "lp_pending p"] by (auto simp: process_ok_def)
    from processes_put [OF assms(2) this] show ?thesis using refreshes(1) by simp
  next
    case (releases token p)
    from processes_put [OF assms(2) process_ok_phase(1) [OF old [OF releases(2)]]] show ?thesis using releases(1) by simp
  qed
qed

text \<open>A row is kept when its process keeps what it says about it.\<close>

lemma row_ok_keep:
  assumes "row_ok s k r" "\<And>p. lk_procs s (lr_value r) = Some p \<Longrightarrow> lp_phase p = Holding \<Longrightarrow>
      \<exists>p'. lk_procs s' (lr_value r) = Some p' \<and> lp_phase p' = Holding \<and> lp_key p' = lp_key p \<and> lp_lease p' = lp_lease p \<and>
        lp_deadline p' = lp_deadline p \<and> lp_began p' = lp_began p"
  shows "row_ok s' k r"
  using assms unfolding row_ok_def by metis

lemma row_ok_other: "row_ok s k r \<Longrightarrow> lk_procs s' (lr_value r) = lk_procs s (lr_value r) \<Longrightarrow> row_ok s' k r"
  by (simp add: row_ok_def)

lemma step_row_ok:
  assumes "lock_step s s'" "lock_ok s"
  shows "\<forall>k r. lk_table s' k = Some r \<longrightarrow> row_ok s' k r"
proof (intro allI impI)
  fix k r
  assume r: "lk_table s' k = Some r"
  have procs: "process_ok (lk_clock s) p" if "lk_procs s token = Some p" for token p
    using assms(2) that by (auto simp: lock_ok_def)
  have rows: "row_ok s j x" if "lk_table s j = Some x" for j x using assms(2) that by (auto simp: lock_ok_def)
  from assms(1) show "row_ok s' k r"
  proof (cases rule: step_split)
    case (tick now)
    then have "lk_table s k = Some r" using r by simp
    from rows [OF this] show ?thesis by (rule row_ok_keep) (use tick in simp)
  next
    case (begins token opts key)
    then have old: "lk_table s k = Some r" "lr_value r \<noteq> token" using r by auto
    from rows [OF old(1)] show ?thesis by (rule row_ok_keep) (use begins old in simp)
  next
    case (cleans token p)
    then have old: "lk_table s k = Some r" using r by (auto dest: delete_stale_some)
    from rows [OF old] show ?thesis by (rule row_ok_keep) (use cleans in auto)
  next
    case (acquires token p T)
    show ?thesis
    proof (cases "k = buildKey (lp_key p)")
      case True
      then have new: "r = \<lparr>lr_value = token, lr_expiresAt = min (lp_began p + lp_ttl p) (lp_began p + lp_max p), lr_createdAt = lk_clock s\<rparr>"
        using acquires r by (auto simp: insert_lock_def split: option.splits)
      show ?thesis unfolding row_ok_def new using acquires True procs [of token p] by (auto simp: process_ok_def)
    next
      case False
      then have old: "lk_table s k = Some r" using acquires r by (auto simp: insert_lock_def split: option.splits)
      from rows [OF old] show ?thesis by (rule row_ok_keep) (use acquires in auto)
    qed
  next
    case (loses token p)
    then have old: "lk_table s k = Some r" using r by simp
    from rows [OF old] show ?thesis by (rule row_ok_keep) (use loses in auto)
  next
    case (beats token p)
    then have old: "lk_table s k = Some r" using r by simp
    from rows [OF old] show ?thesis by (rule row_ok_keep) (use beats in auto)
  next
    case (refreshes token p e)
    show ?thesis
    proof (cases "\<exists>x. lk_table s (buildKey (lp_key p)) = Some x \<and> lr_value x = token")
      case True
      then obtain x where x: "lk_table s (buildKey (lp_key p)) = Some x" "lr_value x = token" by blast
      have "process_ok (lk_clock s) p" using procs refreshes by blast
      then have e: "e \<le> lp_deadline p" using refreshes unfolding process_ok_def by blast
      show ?thesis
      proof (cases "k = buildKey (lp_key p)")
        case here: True
        then have new: "r = x\<lparr>lr_expiresAt := e\<rparr>" using r x refreshes by (simp add: refresh_lock_def)
        have "row_ok s (buildKey (lp_key p)) x" using rows x(1) .
        then have "row_ok s' k (x\<lparr>lr_expiresAt := e\<rparr>)"
          using refreshes(1,2) x e here refreshed_lease(1) [of "lk_table s", OF x] unfolding row_ok_def by auto
        then show ?thesis by (simp only: new)
      next
        case False
        then have old: "lk_table s k = Some r" using r x refreshes by (simp add: refresh_lock_def)
        then have "lr_value r \<noteq> token" using rows [OF old] refreshes False by (auto simp: row_ok_def)
        then show ?thesis by (intro row_ok_other [OF rows [OF old]]) (simp add: refreshes(1))
      qed
    next
      case False
      then have same: "lk_table s' = lk_table s" using refreshes by (auto simp: refresh_lock_def split: option.splits)
      then have old: "lk_table s k = Some r" using r by simp
      from rows [OF old] show ?thesis
        by (rule row_ok_keep) (use refreshes(1,2) refreshed_lease(2) [of "lk_table s" p token, OF False] in auto)
    qed
  next
    case (releases token p)
    then have old: "lk_table s k = Some r" using r by (auto simp: release_lock_def split: option.splits if_splits)
    have "lr_value r \<noteq> token"
    proof
      assume "lr_value r = token"
      then have "k = buildKey (lp_key p)" using rows [OF old] releases by (auto simp: row_ok_def)
      then show False using r old releases \<open>lr_value r = token\<close> by (simp add: release_lock_def)
    qed
    then show ?thesis by (intro row_ok_other [OF rows [OF old]]) (simp add: releases(1))
  qed
qed

lemma reachable_lock_ok: "lock_reachable s \<Longrightarrow> lock_ok s"
proof (induction rule: lock_reachable.induct)
  case (initial now)
  then show ?case by (simp add: lock_ok_def)
next
  case (step s s')
  show ?case unfolding lock_ok_def
    using step_process_ok [OF step.hyps(2)] step_row_ok [OF step.hyps(2) step.IH] step.IH by (auto simp: lock_ok_def)
qed

section \<open>Leases\<close>

text \<open>Under one maximum lifetime per key a statement takes a row only after its lease has lapsed.\<close>

lemma clean_takes_lapsed:
  assumes "lock_ok s" "uniform s" "lk_procs s token = Some p" "lk_table s (buildKey (lp_key p)) = Some r"
    and "delete_stale (buildKey (lp_key p)) (lp_began p) (lp_max p) (lk_table s) (buildKey (lp_key p)) = None"
  shows "lr_expiresAt r < lk_clock s"
proof -
  obtain q where q: "lk_procs s (lr_value r) = Some q" "buildKey (lp_key p) = buildKey (lp_key q)"
      "lr_expiresAt r = lp_lease q" "lp_lease q \<le> lp_deadline q" "lp_began q \<le> lr_createdAt r"
    using assms(1,4) unfolding lock_ok_def row_ok_def by metis
  have "lp_max p = lp_max q" using assms(2,3) q(1,2) unfolding uniform_def buildKey_inject by blast
  moreover have "process_ok (lk_clock s) p" "process_ok (lk_clock s) q" using assms(1,3) q(1) by (auto simp: lock_ok_def)
  moreover have "lr_expiresAt r < lp_began p \<or> lr_createdAt r < lp_began p - min (lp_max p) MAX_STALE_LOCK_MS"
    using delete_stale_gone [OF assms(5,4)] by blast
  ultimately show ?thesis using q by (auto simp: process_ok_def)
qed

lemma row_of_some: "row_of s token p = Some r \<longleftrightarrow> lk_table s (buildKey (lp_key p)) = Some r \<and> lr_value r = token"
  by (auto simp: row_of_def split: option.splits)

lemma leases_keep:
  assumes "row_of s token p \<noteq> None \<or> lp_lease p < lk_clock s" "lk_clock s \<le> lk_clock s'"
    and "lp_key p' = lp_key p" "lp_lease p' = lp_lease p" "lk_table s' (buildKey (lp_key p)) = lk_table s (buildKey (lp_key p))"
  shows "row_of s' token p' \<noteq> None \<or> lp_lease p' < lk_clock s'"
  using assms by (auto simp: row_of_def)

lemma step_leases_ok:
  assumes "lock_step s s'" "lock_ok s" "uniform s" "leases_ok s"
  shows "leases_ok s'"
  unfolding leases_ok_def
proof (intro allI impI, elim conjE)
  fix token p'
  assume here: "lk_procs s' token = Some p'" "lp_phase p' = Holding"
  have old: "row_of s t p \<noteq> None \<or> lp_lease p < lk_clock s" if "lk_procs s t = Some p" "lp_phase p = Holding" for t p
    using assms(4) that by (auto simp: leases_ok_def)
  from assms(1) show "row_of s' token p' \<noteq> None \<or> lp_lease p' < lk_clock s'"
  proof (cases rule: step_split)
    case (tick now)
    then show ?thesis using here by (intro leases_keep [OF old]) auto
  next
    case (begins t opts key)
    then have "lk_procs s token = Some p'" using here by (auto simp: begin_process_def split: if_splits)
    then show ?thesis using here begins by (intro leases_keep [OF old]) auto
  next
    case (cleans t q)
    then have p: "lk_procs s token = Some p'" using here by (auto split: if_splits)
    show ?thesis
    proof (cases "lk_table s' (buildKey (lp_key p')) = lk_table s (buildKey (lp_key p'))")
      case True
      then show ?thesis using here cleans by (intro leases_keep [OF old [OF p here(2)]]) auto
    next
      case False
      then have gone: "lp_key p' = lp_key q" "lk_table s' (buildKey (lp_key q)) = None"
        using cleans by (auto simp: delete_stale_def split: option.splits if_splits)
      then obtain r where r: "lk_table s (buildKey (lp_key q)) = Some r" using False by force
      have "lr_expiresAt r < lk_clock s"
        using clean_takes_lapsed [OF assms(2,3) cleans(2) r] gone cleans by simp
      moreover have "lp_lease p' = lr_expiresAt r" if "lr_value r = token"
      proof -
        have "row_ok s (buildKey (lp_key q)) r" using assms(2) r by (auto simp: lock_ok_def)
        then show ?thesis using p that by (auto simp: row_ok_def)
      qed
      ultimately show ?thesis using old [OF p here(2)] r gone cleans by (auto simp: row_of_def split: if_splits)
    qed
  next
    case (acquires t q T)
    show ?thesis
    proof (cases "token = t")
      case True
      then have "lk_table s' (buildKey (lp_key p')) = Some \<lparr>lr_value = t, lr_expiresAt = lp_lease p', lr_createdAt = lk_clock s\<rparr>"
        using here acquires by (auto simp: insert_lock_def split: option.splits)
      then show ?thesis using True by (simp add: row_of_def)
    next
      case False
      then have p: "lk_procs s token = Some p'" using here acquires by simp
      show ?thesis
      proof (cases "lp_key p' = lp_key q")
        case True
        then have "row_of s token p' = None" using acquires by (simp add: row_of_def insert_lock_def split: option.splits)
        then show ?thesis using old [OF p here(2)] acquires by simp
      next
        case False
        then show ?thesis using acquires
          by (intro leases_keep [OF old [OF p here(2)]]) (auto simp: insert_lock_def split: option.splits)
      qed
    qed
  next
    case (loses t q)
    then have "lk_procs s token = Some p'" using here by (auto split: if_splits)
    then show ?thesis using here loses by (intro leases_keep [OF old]) auto
  next
    case (beats t q)
    then obtain p where "lk_procs s token = Some p" "lp_phase p = Holding" "lp_key p' = lp_key p" "lp_lease p' = lp_lease p"
      using here by (auto split: if_splits)
    then show ?thesis using beats by (intro leases_keep [OF old]) auto
  next
    case (refreshes t q e)
    show ?thesis
    proof (cases "token = t")
      case True
      then have p': "p' = refreshed_process (lk_table s) t e q" using here refreshes(1) by simp
      show ?thesis
      proof (cases "\<exists>r. lk_table s (buildKey (lp_key q)) = Some r \<and> lr_value r = t")
        case found: True
        then have "row_of s' token p' \<noteq> None" using refreshes p' True by (auto simp: row_of_def refresh_lock_def)
        then show ?thesis by blast
      next
        case False
        then have same: "lk_table s' = lk_table s" using refreshes by (auto simp: refresh_lock_def split: option.splits)
        have "lp_phase q = Holding" using here(2) p' by simp
        then show ?thesis
          unfolding True using same refreshes(1) p' refreshed_lease(2) [of "lk_table s" q t, OF False]
          by (intro leases_keep [OF old [OF refreshes(2)]]) simp_all
      qed
    next
      case other: False
      then have p: "lk_procs s token = Some p'" using here refreshes by simp
      have "row_of s' token p' \<noteq> None" if "row_of s token p' \<noteq> None"
        using that refreshes by (auto simp: row_of_def refresh_lock_def split: option.splits if_splits)
      moreover have "lk_clock s' = lk_clock s" using refreshes(1) by simp
      ultimately show ?thesis using old [OF p here(2)] by metis
    qed
  next
    case (releases t q)
    then have p: "lk_procs s token = Some p'" "token \<noteq> t" using here by (auto split: if_splits)
    have "row_of s' token p' \<noteq> None" if "row_of s token p' \<noteq> None"
      using that releases p(2) by (auto simp: row_of_def release_lock_def split: option.splits if_splits)
    moreover have "lk_clock s' = lk_clock s" using releases(1) by simp
    ultimately show ?thesis using old [OF p(1) here(2)] by metis
  qed
qed

lemma reachable_leases_ok: "lock_reachable s \<Longrightarrow> uniform s \<Longrightarrow> leases_ok s"
proof (induction rule: lock_reachable.induct)
  case (initial now)
  then show ?case by (simp add: leases_ok_def)
next
  case (step s s')
  then show ?case
    using step_leases_ok [OF step.hyps(2) reachable_lock_ok [OF step.hyps(1)]] uniform_before [OF step.hyps(2)] by blast
qed

section \<open>Acquisition\<close>

definition held_process :: "string \<Rightarrow> lock_options \<Rightarrow> int \<Rightarrow> lock_process" where
  "held_process key opts now = (begin_process key opts now)\<lparr>lp_phase := Holding, lp_lease := now + ttl_ms opts\<rparr>"

definition held_row :: "string \<Rightarrow> lock_options \<Rightarrow> int \<Rightarrow> lock_row" where
  "held_row token opts now = \<lparr>lr_value = token, lr_expiresAt = now + ttl_ms opts, lr_createdAt = now\<rparr>"

text \<open>A fresh process that meets no live row runs its three statements and holds the lock.\<close>

lemma acquire_alone:
  assumes "lk_procs s token = None" "\<forall>k r. lk_table s k = Some r \<longrightarrow> lr_value r \<noteq> token" "0 < ttl_ms opts"
    and "delete_stale (buildKey key) (lk_clock s) (max_lifetime_ms opts) (lk_table s) (buildKey key) = None"
  shows "\<exists>s'. lock_step\<^sup>*\<^sup>* s s' \<and> lk_clock s' = lk_clock s \<and>
    lk_procs s' = (lk_procs s)(token \<mapsto> held_process key opts (lk_clock s)) \<and>
    lk_table s' = (delete_stale (buildKey key) (lk_clock s) (max_lifetime_ms opts) (lk_table s))
      (buildKey key \<mapsto> held_row token opts (lk_clock s))"
proof -
  let ?p = "begin_process key opts (lk_clock s)"
  let ?T = "delete_stale (buildKey key) (lk_clock s) (max_lifetime_ms opts) (lk_table s)"
  define s1 where "s1 = s\<lparr>lk_procs := (lk_procs s)(token \<mapsto> ?p)\<rparr>"
  define s2 where "s2 = s1\<lparr>lk_table := ?T, lk_procs := (lk_procs s1)(token \<mapsto> ?p\<lparr>lp_phase := Cleaned\<rparr>)\<rparr>"
  define s3 where "s3 = s2\<lparr>lk_table := ?T(buildKey key \<mapsto> held_row token opts (lk_clock s)),
    lk_procs := (lk_procs s2)(token \<mapsto> held_process key opts (lk_clock s))\<rparr>"
  have p: "lp_key ?p = key" "lp_began ?p = lk_clock s" "lp_max ?p = max_lifetime_ms opts" "lp_ttl ?p = ttl_ms opts" "lp_phase ?p = Starting"
    by (simp_all add: begin_process_def)
  have "lock_step s s1" unfolding s1_def by (rule lock_step.begins [OF assms(1,2,3)])
  moreover have "lock_step s1 s2"
    using lock_step.cleans [of s1 token ?p] p by (simp add: s1_def s2_def)
  moreover have "min (lk_clock s + ttl_ms opts) (lk_clock s + max_lifetime_ms opts) = lk_clock s + ttl_ms opts"
    using lifetimes(1) [of opts] by simp
  then have "insert_lock (buildKey key) token (lk_clock s) (ttl_ms opts) (max_lifetime_ms opts) (lk_clock s2) (lk_table s2) =
      Some (?T(buildKey key \<mapsto> held_row token opts (lk_clock s)))"
    using assms(4) by (simp add: insert_lock_def held_row_def s2_def s1_def)
  then have "lock_step s2 s3"
    using lock_step.acquires [of s2 token "?p\<lparr>lp_phase := Cleaned\<rparr>"] p lifetimes(1) [of opts]
    by (simp add: s1_def s2_def s3_def held_process_def)
  ultimately have "lock_step\<^sup>*\<^sup>* s s3" by (meson rtranclp.rtrancl_into_rtrancl rtranclp.rtrancl_refl)
  then show ?thesis by (intro exI [of _ s3]) (simp add: s1_def s2_def s3_def)
qed

lemma steps_reachable: "lock_step\<^sup>*\<^sup>* s s' \<Longrightarrow> lock_reachable s \<Longrightarrow> lock_reachable s'"
  by (induction rule: rtranclp_induct) (auto intro: lock_reachable.step)

lemma fresh_token:
  assumes "lock_reachable s" "lk_procs s token = None"
  shows "\<forall>k r. lk_table s k = Some r \<longrightarrow> lr_value r \<noteq> token"
proof (intro allI impI)
  fix k r
  assume "lk_table s k = Some r"
  then have "row_ok s k r" using reachable_lock_ok [OF assms(1)] by (simp add: lock_ok_def)
  then show "lr_value r \<noteq> token" using assms(2) by (auto simp: row_ok_def)
qed

text \<open>No row outlives the maximum lifetime of its holder, and none a day.\<close>

lemma row_lifetime:
  assumes "lock_reachable s" "lk_table s k = Some r"
  shows "\<exists>p. lk_procs s (lr_value r) = Some p \<and> lp_phase p = Holding \<and> k = buildKey (lp_key p) \<and>
    lr_expiresAt r \<le> lp_began p + lp_max p \<and> lr_expiresAt r \<le> lr_createdAt r + MAX_STALE_LOCK_MS"
proof -
  have ok: "lock_ok s" by (rule reachable_lock_ok [OF assms(1)])
  then obtain p where p: "lk_procs s (lr_value r) = Some p" "lp_phase p = Holding" "k = buildKey (lp_key p)"
      "lr_expiresAt r = lp_lease p" "lp_lease p \<le> lp_deadline p" "lp_began p \<le> lr_createdAt r"
    using assms(2) unfolding lock_ok_def row_ok_def by metis
  moreover have "process_ok (lk_clock s) p" using ok p(1) by (simp add: lock_ok_def)
  ultimately show ?thesis by (auto simp: process_ok_def)
qed

text \<open>
  Without an interval of its own the heartbeat beats within the time to live exactly when that is half a
  minute or more: a shorter lease lapses before its first refresh.
\<close>

lemma heartbeat_in_time:
  assumes "lo_refreshIntervalMs opts = None" "0 \<le> ttl_ms opts"
  shows "refresh_interval_ms opts \<le> ttl_ms opts \<longleftrightarrow> 30000 \<le> ttl_ms opts"
  using assms by (auto simp: refresh_interval_ms_def)

end
