(* ===== verification/Lock_Claims.thy ===== *)
theory Lock_Claims
  imports Lock_Laws
begin

text \<open>
  The properties of the distributed mutex.
\<close>








end
