(* ===== verification/Js_Json.thy ===== *)
theory Js_Json
  imports Js_Number
begin

text \<open>
  The size of \<open>JSON.stringify\<close>: the length of its text in UTF-16 code units, and the bytes of its UTF-8 form,
  where a character from 128 on takes one unit and two bytes. The text itself is not built.
\<close>

definition json_char_length :: "char \<Rightarrow> nat" where
  "json_char_length c = (let n = of_char c :: nat in
     if n = 34 \<or> n = 92 \<or> n = 8 \<or> n = 9 \<or> n = 10 \<or> n = 12 \<or> n = 13 then 2
     else if n < 32 then 6 else 1)"

definition json_string_length :: "string \<Rightarrow> nat" where
  "json_string_length s = 2 + sum_list (map json_char_length s)"

text \<open>The members of an array or object, each with its comma, between the brackets.\<close>

definition bracketed :: "nat list \<Rightarrow> nat" where
  "bracketed ns = (if ns = [] then 2 else 1 + sum_list (map Suc ns))"

fun json_text_length :: "json \<Rightarrow> nat" where
  "json_text_length JUndef = 4"
| "json_text_length JNull = 4"
| "json_text_length (JBool b) = (if b then 4 else 5)"
| "json_text_length (JNum n) = (case n of Fin r \<Rightarrow> length (js_string_of_number n) | _ \<Rightarrow> 4)"
| "json_text_length (JStr s) = json_string_length s"
| "json_text_length (JArr vs) = bracketed (map json_text_length vs)"
| "json_text_length (JObj ps) = bracketed (concat (map (\<lambda>p. if snd p = JUndef then []
     else [json_string_length (fst p) + 1 + json_text_length (snd p)]) ps))"

definition wide_chars :: "string \<Rightarrow> nat" where
  "wide_chars s = length (filter (\<lambda>c. 128 \<le> (of_char c :: nat)) s)"

fun json_wide :: "json \<Rightarrow> nat" where
  "json_wide (JStr s) = wide_chars s"
| "json_wide (JArr vs) = sum_list (map json_wide vs)"
| "json_wide (JObj ps) = sum_list (map (\<lambda>p. if snd p = JUndef then 0 else wide_chars (fst p) + json_wide (snd p)) ps)"
| "json_wide _ = 0"

definition json_bytes :: "json \<Rightarrow> nat" where
  "json_bytes v = json_text_length v + json_wide v"

end
