(* ===== verification/Goal_Dod.thy ===== *)
theory Goal_Dod
  imports Js_Json "HOL-Library.List_Lexorder" "HOL-Library.Char_ord" "HOL-Library.AList"
begin

text \<open>
  The Definition-of-Done checklist of a Goal (\<open>goals/goal-dod.ts\<close>): the rollup, the progress
  signature, the validator and the normalizer.

  The checklist is a \<open>simple-json\<close> column, so a criterion is the JSON object the row holds and a
  field is read as the source reads it. The normalizer calls \<open>trim\<close> on fields it assumes to be
  strings; a \<open>TypeError\<close> there is \<open>None\<close>. The length of \<open>JSON.stringify\<close> is computed, its text is
  not built.
\<close>

section \<open>Bounds and names\<close>

definition MAX_GOAL_DOD_CRITERIA :: nat where "MAX_GOAL_DOD_CRITERIA = 50"
definition MAX_DOD_TEXT_CHARS :: nat where "MAX_DOD_TEXT_CHARS = 500"
definition MAX_DOD_EVIDENCE_CHARS :: nat where "MAX_DOD_EVIDENCE_CHARS = 1000"
definition MAX_DOD_NOTE_CHARS :: nat where "MAX_DOD_NOTE_CHARS = 500"
definition MAX_DOD_ID_CHARS :: nat where "MAX_DOD_ID_CHARS = 64"
definition MAX_GOAL_DOD_JSON_CHARS :: nat where "MAX_GOAL_DOD_JSON_CHARS = 64000"

lemmas dod_bounds = MAX_GOAL_DOD_CRITERIA_def MAX_DOD_TEXT_CHARS_def MAX_DOD_EVIDENCE_CHARS_def
  MAX_DOD_NOTE_CHARS_def MAX_DOD_ID_CHARS_def MAX_GOAL_DOD_JSON_CHARS_def

definition GOAL_DOD_STATUSES :: "string list" where
  "GOAL_DOD_STATUSES = [''open'', ''done'', ''waived'']"

definition GOAL_DOD_SOURCES :: "string list" where
  "GOAL_DOD_SOURCES = [''operator'', ''planner'']"

section \<open>The rollup\<close>

record dod_summary =
  ds_total :: nat
  ds_done :: nat
  ds_waived :: nat
  ds_open :: nat
  ds_proposed :: nat
  ds_closed :: nat
  ds_complete :: bool

definition isApprovedDoDCriterion :: "json \<Rightarrow> bool" where
  "isApprovedDoDCriterion c \<longleftrightarrow> own_prop c ''proposed'' \<noteq> JBool True"

text \<open>The column: \<open>None\<close> is NULL.\<close>

definition resolveDoDCriteria :: "json list option \<Rightarrow> json list" where
  "resolveDoDCriteria dod = (case dod of None \<Rightarrow> [] | Some cs \<Rightarrow> cs)"

definition hasDefinitionOfDone :: "json list option \<Rightarrow> bool" where
  "hasDefinitionOfDone dod \<longleftrightarrow> list_ex isApprovedDoDCriterion (resolveDoDCriteria dod)"

definition empty_summary :: dod_summary where
  "empty_summary = \<lparr>ds_total = 0, ds_done = 0, ds_waived = 0, ds_open = 0, ds_proposed = 0,
     ds_closed = 0, ds_complete = False\<rparr>"

definition count_criterion :: "json \<Rightarrow> dod_summary \<Rightarrow> dod_summary" where
  "count_criterion c s =
     (if \<not> isApprovedDoDCriterion c then s\<lparr>ds_proposed := ds_proposed s + 1\<rparr>
      else let s1 = s\<lparr>ds_total := ds_total s + 1\<rparr> in
        if own_prop c ''status'' = JStr ''done'' then s1\<lparr>ds_done := ds_done s1 + 1\<rparr>
        else if own_prop c ''status'' = JStr ''waived'' then s1\<lparr>ds_waived := ds_waived s1 + 1\<rparr>
        else s1\<lparr>ds_open := ds_open s1 + 1\<rparr>)"

definition summarizeDoD :: "json list option \<Rightarrow> dod_summary" where
  "summarizeDoD dod =
     (let s = fold count_criterion (resolveDoDCriteria dod) empty_summary;
          s' = s\<lparr>ds_closed := ds_done s + ds_waived s\<rparr>
      in s'\<lparr>ds_complete := (ds_total s' > 0 \<and> ds_open s' = 0)\<rparr>)"

definition criterion_signature :: "json \<Rightarrow> string" where
  "criterion_signature c =
     js_to_string (own_prop c ''id'') @ '':'' @ js_to_string (own_prop c ''status'')"

definition dodProgressSignature :: "json list option \<Rightarrow> string" where
  "dodProgressSignature dod =
     join_strings ''|'' (sort (map criterion_signature (filter isApprovedDoDCriterion (resolveDoDCriteria dod))))"

section \<open>Validation\<close>

datatype dod_error =
    CriteriaNotArray
  | TooManyCriteria
  | CriterionNotObject
  | CriterionWithoutId
  | IdTooLong string
  | DuplicateCriterionId string
  | CriterionNeedsText string
  | TextTooLong string
  | BadCriterionStatus string
  | BadCriterionSource string
  | BadEvidence string
  | BadNote string
  | DodTooLarge

definition is_object :: "json \<Rightarrow> bool" where
  "is_object v = (case v of JObj _ \<Rightarrow> True | JArr _ \<Rightarrow> True | _ \<Rightarrow> False)"

definition criterion_id :: "json \<Rightarrow> string" where
  "criterion_id e = (case own_prop e ''id'' of JStr s \<Rightarrow> js_trim s | _ \<Rightarrow> [])"

definition text_errors :: "string \<Rightarrow> json \<Rightarrow> dod_error list" where
  "text_errors i e = (case own_prop e ''text'' of
       JStr t \<Rightarrow> if js_trim t = [] then [CriterionNeedsText i]
                 else if length t > MAX_DOD_TEXT_CHARS then [TextTooLong i] else []
     | _ \<Rightarrow> [CriterionNeedsText i])"

text \<open>An optional text: absent, null, or a string within its bound.\<close>

definition optional_text_ok :: "nat \<Rightarrow> json \<Rightarrow> bool" where
  "optional_text_ok bound v = (case v of
       JUndef \<Rightarrow> True | JNull \<Rightarrow> True | JStr s \<Rightarrow> length s \<le> bound | _ \<Rightarrow> False)"

definition field_errors :: "string \<Rightarrow> json \<Rightarrow> dod_error list" where
  "field_errors i e =
     text_errors i e
     @ (if own_prop e ''status'' \<in> set (map JStr GOAL_DOD_STATUSES) then [] else [BadCriterionStatus i])
     @ (if own_prop e ''source'' = JUndef \<or> own_prop e ''source'' \<in> set (map JStr GOAL_DOD_SOURCES)
        then [] else [BadCriterionSource i])
     @ (if optional_text_ok MAX_DOD_EVIDENCE_CHARS (own_prop e ''evidence'') then [] else [BadEvidence i])
     @ (if optional_text_ok MAX_DOD_NOTE_CHARS (own_prop e ''note'') then [] else [BadNote i])"

fun validate_criteria :: "string set \<Rightarrow> json list \<Rightarrow> dod_error list" where
  "validate_criteria seen [] = []"
| "validate_criteria seen (e # es) =
     (if \<not> is_object e then CriterionNotObject # validate_criteria seen es
      else let i = criterion_id e in
        if i = [] then CriterionWithoutId # validate_criteria seen es
        else (if length i > MAX_DOD_ID_CHARS then [IdTooLong (take 16 i)] else [])
             @ (if i \<in> seen then [DuplicateCriterionId i] else [])
             @ field_errors i e
             @ validate_criteria (insert i seen) es)"

definition validateDoDCriteria :: "json \<Rightarrow> dod_error list" where
  "validateDoDCriteria v = (case v of
       JUndef \<Rightarrow> [] | JNull \<Rightarrow> []
     | JArr es \<Rightarrow>
         (if length es > MAX_GOAL_DOD_CRITERIA then [TooManyCriteria] else [])
         @ validate_criteria {} es
         @ (if json_text_length v > MAX_GOAL_DOD_JSON_CHARS then [DodTooLarge] else [])
     | _ \<Rightarrow> [CriteriaNotArray])"

section \<open>Normalization\<close>

text \<open>\<open>value ?? fallback\<close>.\<close>

definition js_or_else :: "json \<Rightarrow> json \<Rightarrow> json" where
  "js_or_else v d = (if v = JUndef \<or> v = JNull then d else v)"

definition normalizeOptionalText :: "json \<Rightarrow> nat \<Rightarrow> json option" where
  "normalizeOptionalText v bound = (case v of
       JUndef \<Rightarrow> Some JNull | JNull \<Rightarrow> Some JNull
     | JStr s \<Rightarrow> Some (if js_trim s = [] then JNull else JStr (take bound (js_trim s)))
     | _ \<Rightarrow> None)"

definition normalize_criterion :: "string \<Rightarrow> json \<Rightarrow> json option" where
  "normalize_criterion stamp e =
     (case (own_prop e ''id'', own_prop e ''text'',
            normalizeOptionalText (own_prop e ''evidence'') MAX_DOD_EVIDENCE_CHARS,
            normalizeOptionalText (own_prop e ''note'') MAX_DOD_NOTE_CHARS) of
       (JStr i, JStr t, Some ev, Some nt) \<Rightarrow> Some (JObj (
          [(''id'', JStr (take MAX_DOD_ID_CHARS (js_trim i))),
           (''text'', JStr (take MAX_DOD_TEXT_CHARS (js_trim t))),
           (''status'', own_prop e ''status''),
           (''evidence'', ev),
           (''note'', nt),
           (''source'', js_or_else (own_prop e ''source'') (JStr ''operator'')),
           (''updatedAt'', js_or_else (own_prop e ''updatedAt'') (JStr stamp))]
          @ (if own_prop e ''proposed'' = JBool True then [(''proposed'', JBool True)] else [])))
     | _ \<Rightarrow> None)"

definition normalizeDoDCriteria :: "json list \<Rightarrow> string \<Rightarrow> json list option" where
  "normalizeDoDCriteria es stamp = those (map (normalize_criterion stamp) es)"

text \<open>\<open>{ ...entry, key: value }\<close>; only an object has properties the checklist reads.\<close>

definition obj_spread :: "json \<Rightarrow> (string \<times> json) list \<Rightarrow> json" where
  "obj_spread e kvs = JObj (fold (\<lambda>(k, v) ps. AList.update k v ps) kvs
     (case e of JObj ps \<Rightarrow> ps | _ \<Rightarrow> []))"

end
