(* ===== verification/Goal_Rules.thy ===== *)
theory Goal_Rules
  imports Goal_Dod
begin

text \<open>
  The decision of the autonomous Goal loop (\<open>goals/goal-orchestrator-rules.ts\<close>): one pure function
  from what was read of a Goal to what the loop does next.

  Counts and limits are integer columns and are \<open>int\<close>; the three values the source normalizes
  (the ceiling, the runs in flight, the open pull requests) are any JavaScript number. Instants are
  epoch milliseconds. A log line is the template the source renders together with the values it
  puts into it; the parts that functions of their own render are strings.
\<close>

datatype candidate_source = FromAssigned | FromHistory | FromScope

record goal_candidate =
  ca_agentId :: string
  ca_name :: "string option"
  ca_source :: candidate_source

datatype loop_status = LoopRunning | LoopPaused | LoopDone | LoopCancelled | LoopStuck

datatype loop_action = ActDispatch | ActComplete | ActPause | ActStuck | ActWait | ActNoop

datatype loop_reason =
    LoopNotRunning
  | DodComplete
  | SpendCapExceeded
  | WallClockExceeded
  | NoProgress
  | RunInFlight
  | AwaitingMerge
  | WorkUnavailable
  | WorkUnreadable
  | GracePeriod
  | NoCandidateAgent
  | RoutedAssignedAgent
  | RoutedRoundRobin
  | RoutedScopeFallback

text \<open>The log lines, one constructor per template, with what each interpolates.\<close>

datatype reasoning =
    LoopIs "loop_status option"
  | DodSatisfied nat nat int
  | WorkGone
  | WorkNotRead
  | SpendCapReached string string int
  | GraceFor int int int
  | WallClockReached int int
  | NoDodProgress int int
  | MergeWait string
  | IterationRunning int
  | SlotsTaken int int
  | NobodyToRoute
  | PinnedOne int string
  | PinnedMany string string int int
  | ScopeOne int string nat
  | ScopeMany string string nat int int
  | RobinOne int string nat
  | RobinMany string string nat int int

record goal_loop_decision =
  dc_action :: loop_action
  dc_reasonCode :: loop_reason
  dc_reasoning :: reasoning
  dc_agentId :: "string option"
  dc_nextIteration :: "int option"
  dc_agentIds :: "string list"
  dc_iterations :: "int list"

record goal_loop_input =
  gi_loopStatus :: "loop_status option"
  gi_dod :: dod_summary
  gi_iteration :: int
  gi_lastProgressIteration :: int
  gi_stuckThresholdIterations :: "int option"
  gi_spendCapCents :: "int option"
  gi_spentCents :: int
  gi_wallClockLimitHours :: "int option"
  gi_loopStartedAt :: "int option"
  gi_gracePeriodMinutes :: "int option"
  gi_hasRunInFlight :: bool
  gi_runsInFlight :: "js_number option"
  gi_maxConcurrentIterations :: "js_number option"
  gi_pullRequestsAwaitingMerge :: "js_number option"
  gi_awaitingMergeIterations :: "int list option"
  gi_workUnavailable :: bool
  gi_workUnreadable :: bool
  gi_candidates :: "goal_candidate list"
  gi_now :: int

definition MS_PER_HOUR :: int where "MS_PER_HOUR = 3600000"
definition MS_PER_MINUTE :: int where "MS_PER_MINUTE = 60000"

section \<open>Normalized counts\<close>

text \<open>\<open>Math.trunc\<close> on a finite number.\<close>

definition js_trunc :: "rat \<Rightarrow> int" where
  "js_trunc r = (if 0 \<le> r then \<lfloor>r\<rfloor> else \<lceil>r\<rceil>)"

definition resolveMaxConcurrentIterations :: "js_number option \<Rightarrow> int" where
  "resolveMaxConcurrentIterations raw =
     (case raw of Some (Fin r) \<Rightarrow> max 1 (js_trunc r) | _ \<Rightarrow> 1)"

definition resolveRunsInFlight :: "goal_loop_input \<Rightarrow> int" where
  "resolveRunsInFlight inp =
     (case gi_runsInFlight inp of Some (Fin r) \<Rightarrow> max 0 (js_trunc r)
      | _ \<Rightarrow> if gi_hasRunInFlight inp then 1 else 0)"

definition resolveAwaitingMerge :: "js_number option \<Rightarrow> int" where
  "resolveAwaitingMerge raw = (case raw of Some (Fin r) \<Rightarrow> max 0 (js_trunc r) | _ \<Rightarrow> 0)"

section \<open>The rendered parts of a log line\<close>

definition int_string :: "int \<Rightarrow> string" where
  "int_string i = (if i < 0 then ''-'' @ decimal (nat (- i)) else decimal (nat i))"

definition describeIterations :: "int list \<Rightarrow> string" where
  "describeIterations ns =
     (if length ns = 1 then int_string (hd ns)
      else join_strings '', '' (map int_string (butlast ns)) @ '' and ''
           @ (if ns = [] then ''undefined'' else int_string (last ns)))"

definition describeAwaitingMerge :: "int \<Rightarrow> int list option \<Rightarrow> string" where
  "describeAwaitingMerge count its =
     (let known = filter (\<lambda>n. n > 0) (case its of None \<Rightarrow> [] | Some ns \<Rightarrow> ns) in
      if length known = 1 \<and> count = 1
      then ''Waiting for iteration '' @ int_string (hd known) @ CHR 0x27 # ''s pull request to be merged or closed.''
      else if int (length known) = count \<and> count > 1
      then ''Waiting for the pull requests of iterations '' @ describeIterations known
           @ '' to be merged or closed.''
      else ''Waiting for '' @ int_string count @ '' pull request'' @ (if count = 1 then '''' else ''s'')
           @ '' from this Goal to be merged or closed.'')"

text \<open>\<open>(cents / 100).toFixed(2)\<close> on whole cents.\<close>

definition formatUsd :: "int \<Rightarrow> string" where
  "formatUsd cents =
     ''$'' @ (if cents < 0 then ''-'' else '''') @ decimal (nat (\<bar>cents\<bar> div 100)) @ ''.''
     @ (let d = nat (\<bar>cents\<bar> mod 100) in [digit_char (d div 10), digit_char (d mod 10)])"

definition candidate_label :: "goal_candidate \<Rightarrow> string" where
  "candidate_label c =
     (case ca_name c of None \<Rightarrow> ca_agentId c
      | Some n \<Rightarrow> if js_trim n = [] then ca_agentId c else js_trim n)"

section \<open>The decision\<close>

definition plain_decision :: "loop_action \<Rightarrow> loop_reason \<Rightarrow> reasoning \<Rightarrow> goal_loop_decision" where
  "plain_decision a rc r = \<lparr>dc_action = a, dc_reasonCode = rc, dc_reasoning = r, dc_agentId = None,
     dc_nextIteration = None, dc_agentIds = [], dc_iterations = []\<rparr>"

definition spend_cap_reached :: "goal_loop_input \<Rightarrow> bool" where
  "spend_cap_reached inp =
     (case gi_spendCapCents inp of None \<Rightarrow> False | Some c \<Rightarrow> c \<ge> 0 \<and> gi_spentCents inp \<ge> c)"

definition elapsed_ms :: "goal_loop_input \<Rightarrow> int option" where
  "elapsed_ms inp = map_option (\<lambda>t. gi_now inp - t) (gi_loopStartedAt inp)"

text \<open>The limit that has passed and the time since the start, when a wall-clock limit has passed.\<close>

definition wall_clock_passed :: "goal_loop_input \<Rightarrow> (int \<times> int) option" where
  "wall_clock_passed inp =
     (case (gi_wallClockLimitHours inp, elapsed_ms inp) of
        (Some h, Some e) \<Rightarrow> if h > 0 \<and> e \<ge> h * MS_PER_HOUR then Some (h, e) else None
      | _ \<Rightarrow> None)"

definition grace_ms :: "goal_loop_input \<Rightarrow> int" where
  "grace_ms inp = (case gi_gracePeriodMinutes inp of
     Some m \<Rightarrow> if m > 0 then m * MS_PER_MINUTE else 0 | None \<Rightarrow> 0)"

definition decide_wall_clock :: "goal_loop_input \<Rightarrow> int \<Rightarrow> int \<Rightarrow> goal_loop_decision" where
  "decide_wall_clock inp h e =
     (if grace_ms inp > 0 \<and> gi_hasRunInFlight inp \<and> e < h * MS_PER_HOUR + grace_ms inp
      then plain_decision ActWait GracePeriod
        (GraceFor h (gi_iteration inp) (case gi_gracePeriodMinutes inp of Some m \<Rightarrow> m | None \<Rightarrow> 0))
      else plain_decision ActPause WallClockExceeded (WallClockReached e h))"

definition no_progress :: "goal_loop_input \<Rightarrow> bool" where
  "no_progress inp =
     (case gi_stuckThresholdIterations inp of None \<Rightarrow> False
      | Some k \<Rightarrow> k > 0 \<and> gi_iteration inp - gi_lastProgressIteration inp \<ge> k)"

definition free_slots :: "goal_loop_input \<Rightarrow> int" where
  "free_slots inp = resolveMaxConcurrentIterations (gi_maxConcurrentIterations inp)
     - resolveRunsInFlight inp - resolveAwaitingMerge (gi_pullRequestsAwaitingMerge inp)"

text \<open>The candidate an iteration visits: round-robin on the iteration's own number.\<close>

definition round_robin :: "goal_candidate list \<Rightarrow> int \<Rightarrow> goal_candidate" where
  "round_robin cs i = cs ! nat (i mod int (length cs))"

definition dispatch_decision ::
  "loop_reason \<Rightarrow> reasoning \<Rightarrow> int list \<Rightarrow> string list \<Rightarrow> goal_loop_decision" where
  "dispatch_decision rc r its ags = \<lparr>dc_action = ActDispatch, dc_reasonCode = rc, dc_reasoning = r,
     dc_agentId = Some (hd ags), dc_nextIteration = Some (hd its), dc_agentIds = ags, dc_iterations = its\<rparr>"

definition route :: "goal_loop_input \<Rightarrow> goal_loop_decision" where
  "route inp =
     (let cs = gi_candidates inp; n = length cs; slots = free_slots inp;
          ceiling = resolveMaxConcurrentIterations (gi_maxConcurrentIterations inp);
          next_it = gi_iteration inp + 1;
          its = map (\<lambda>k. next_it + int k) [0..<nat slots];
          plural = slots > 1
      in case List.find (\<lambda>c. ca_source c = FromAssigned) cs of
          Some p \<Rightarrow> dispatch_decision RoutedAssignedAgent
            (if plural then PinnedMany (describeIterations its) (candidate_label p) slots ceiling
             else PinnedOne next_it (candidate_label p)) its (map (\<lambda>_. ca_agentId p) its)
        | None \<Rightarrow>
           (let chosen = map (round_robin cs) its;
                routed = join_strings '', '' (map candidate_label chosen)
            in if ca_source (hd chosen) = FromScope
               then dispatch_decision RoutedScopeFallback
                 (if plural then ScopeMany (describeIterations its) routed n slots ceiling
                  else ScopeOne next_it (candidate_label (hd chosen)) n) its (map ca_agentId chosen)
               else dispatch_decision RoutedRoundRobin
                 (if plural then RobinMany (describeIterations its) routed n slots ceiling
                  else RobinOne next_it (candidate_label (hd chosen)) n) its (map ca_agentId chosen)))"

definition decide_capacity :: "goal_loop_input \<Rightarrow> goal_loop_decision" where
  "decide_capacity inp =
     (let ceiling = resolveMaxConcurrentIterations (gi_maxConcurrentIterations inp);
          running = resolveRunsInFlight inp;
          awaiting = resolveAwaitingMerge (gi_pullRequestsAwaitingMerge inp)
      in if running < ceiling \<and> running + awaiting \<ge> ceiling
         then plain_decision ActWait AwaitingMerge
           (MergeWait (describeAwaitingMerge awaiting (gi_awaitingMergeIterations inp)))
         else if running \<ge> ceiling
         then plain_decision ActWait RunInFlight
           (if ceiling = 1 then IterationRunning (gi_iteration inp) else SlotsTaken running ceiling)
         else if gi_candidates inp = []
         then plain_decision ActStuck NoCandidateAgent NobodyToRoute
         else route inp)"

definition decideGoalLoop :: "goal_loop_input \<Rightarrow> goal_loop_decision" where
  "decideGoalLoop inp =
     (if gi_loopStatus inp \<noteq> Some LoopRunning
      then plain_decision ActNoop LoopNotRunning (LoopIs (gi_loopStatus inp))
      else if ds_complete (gi_dod inp)
      then plain_decision ActComplete DodComplete
        (DodSatisfied (ds_done (gi_dod inp)) (ds_waived (gi_dod inp)) (gi_iteration inp))
      else if gi_workUnavailable inp then plain_decision ActPause WorkUnavailable WorkGone
      else if gi_workUnreadable inp then plain_decision ActWait WorkUnreadable WorkNotRead
      else if spend_cap_reached inp
      then plain_decision ActPause SpendCapExceeded
        (SpendCapReached (formatUsd (gi_spentCents inp)) (formatUsd (the (gi_spendCapCents inp)))
          (gi_iteration inp))
      else case wall_clock_passed inp of
          Some (h, e) \<Rightarrow> decide_wall_clock inp h e
        | None \<Rightarrow>
           (if no_progress inp
            then plain_decision ActStuck NoProgress
              (NoDodProgress (gi_iteration inp - gi_lastProgressIteration inp)
                (the (gi_stuckThresholdIterations inp)))
            else decide_capacity inp))"

end
