(* ===== verification/Goal_Loop.thy ===== *)
theory Goal_Loop
  imports Goal_Rules Task_Status
begin

text \<open>
  The Goal orchestrator (\<open>goals/goal-orchestrator.service.ts\<close>) over one Goal: its row, its
  iteration Tasks, their runs and its log, and one tick of the loop.

  A tick is one step. What it finds outside the Goal's own rows is an argument: the clock, the
  agents, the Work, and what creating and dispatching each iteration Task comes to. The row order
  is the creation order, and an id column never holds the empty string. A failing log write is only logged by the source and is not modelled;
  neither are activities, notifications and domain events.
\<close>

section \<open>Rows\<close>

datatype goal_status = GoalDraft | GoalActive | GoalPaused | GoalCompleted

datatype goal_outcome = GoalAchieved | GoalMissed | GoalAbandoned

record goal_row =
  gl_delivery :: bool
  gl_status :: goal_status
  gl_outcome :: "goal_outcome option"
  gl_nextCheckAt :: "int option"
  gl_archivedAt :: "int option"
  gl_dodCriteria :: "json list option"
  gl_loopStatus :: "loop_status option"
  gl_loopStartedAt :: "int option"
  gl_iteration :: int
  gl_lastProgressIteration :: int
  gl_activeAgentId :: "string option"
  gl_assignedAgentId :: "string option"
  gl_spendCapCents :: "int option"
  gl_spentCents :: int
  gl_wallClockLimitHours :: "int option"
  gl_stuckThresholdIterations :: "int option"
  gl_maxConcurrentIterations :: "int option"
  gl_sessionBudgetMinutes :: "int option"
  gl_gracePeriodMinutes :: "int option"
  gl_executionTarget :: "string option"
  gl_plannerModelHint :: "string option"
  gl_workerModelHint :: "string option"
  gl_workId :: "string option"

text \<open>\<open>gt_iteration\<close> is the number the title ends with, when it names one.\<close>

record goal_task =
  gt_id :: nat
  gt_iteration :: "int option"
  gt_agentId :: "string option"
  gt_workId :: "string option"
  gt_status :: task_status
  gt_prNumber :: "nat option"
  gt_prUrl :: "string option"
  gt_prState :: "string option"
  gt_branchState :: "string option"

datatype agent_run_status = RunQueued | RunRunning | RunCompleted | RunFailed | RunCancelled

record goal_run =
  gr_id :: nat
  gr_taskId :: nat
  gr_agentId :: string
  gr_status :: agent_run_status
  gr_costCents :: "int option"
  gr_startedAt :: "int option"

datatype goal_event_kind = EvRoute | EvDispatch | EvComplete | EvLimit | EvNudge | EvControl | EvDod

datatype goal_message =
    Decided reasoning
  | NoTasksRuntime
  | DispatchedIteration int nat string bool
  | LoopStarted
  | LoopResumedAt int
  | LoopPausedAt int
  | LoopCancelledAt int bool
  | SessionRestarted bool
  | GoalArchivedLine
  | GoalUnarchivedLine
  | LimitsAdjusted "(string \<times> string \<times> string) list"
  | DodUpdated nat nat nat nat
  | DodProposed nat
  | DodApproved nat
  | DodCriterionSet string json nat nat nat
  | OperatorNudged int string

record goal_event =
  ge_kind :: goal_event_kind
  ge_message :: goal_message
  ge_agentId :: "string option"
  ge_taskId :: "nat option"
  ge_iteration :: int

text \<open>The log is newest first.\<close>

record goal_world =
  gw_goal :: goal_row
  gw_tasks :: "goal_task list"
  gw_runs :: "goal_run list"
  gw_log :: "goal_event list"

section \<open>What a tick reads of the outside\<close>

record agent_ref =
  ag_id :: string
  ag_name :: "string option"
  ag_slug :: "string option"
  ag_createdAt :: "int option"

text \<open>The scoped lookup answers \<open>None\<close> for a missing agent and for a failed read; the cold-start
  query fails with \<open>None\<close>.\<close>

record agent_directory =
  ad_find :: "string \<Rightarrow> agent_ref option"
  ad_scope :: "agent_ref list option"

datatype work_reading =
    WorkNotWired
  | WorkReadFails
  | WorkGoneOrForeign
  | PlainWork
  | AppWork bool

text \<open>What one call of \<open>dispatchAgentRun\<close> comes to when it returns: refused without a run row,
  parked behind the gate, enqueued, or a row marked failed.\<close>

datatype dispatch_outcome =
    DispatchRefused string
  | DispatchParked string
  | DispatchEnqueued
  | DispatchEnqueueFailed string

datatype slot_outcome =
    CreateThrows string
  | DispatchThrows string
  | DispatchReturns dispatch_outcome

record goal_env =
  en_now :: int
  en_stamp :: string
  en_tasksRuntime :: bool
  en_agents :: "agent_directory option"
  en_work :: work_reading
  en_slot :: "nat \<Rightarrow> slot_outcome"
  en_canCancelRuns :: bool

datatype goal_error =
    GoalArchived
  | DeliveryNeedsCriterion
  | DeliveryMustKeepCriterion
  | WorkUnavailableError
  | NotRunningError "loop_status option"
  | DodInvalid "dod_error list"
  | NoProposedCriteria
  | UnknownCriteria "string list"
  | NothingToApprove
  | CriterionNotFound
  | CancellationUnavailable
  | LimitNotInteger string
  | LimitOutOfRange string int int
  | BadExecutionTarget
  | AgentNotFound string
  | NudgeEmpty
  | NudgeTooLong
  | SteeringUnavailable
  | NothingToNudge
  | NudgeTooLate
  | Threw string

type_synonym 'a goal_result = "goal_error + 'a"

section \<open>Constants\<close>

definition MAX_GOAL_TASKS :: nat where "MAX_GOAL_TASKS = 500"
definition MAX_SCOPE_CANDIDATES :: nat where "MAX_SCOPE_CANDIDATES = 50"
definition GOAL_AWAITING_MERGE_SCAN :: nat where "GOAL_AWAITING_MERGE_SCAN = 200"
definition MAX_CONCURRENT_ITERATIONS :: int where "MAX_CONCURRENT_ITERATIONS = 10"

definition ACTIVE_RUN_STATUSES :: "agent_run_status list" where
  "ACTIVE_RUN_STATUSES = [RunQueued, RunRunning]"

section \<open>Reading the Goal's work\<close>

text \<open>Oldest-started first, never-started last, ties in row order.\<close>

definition started_first :: "goal_run list \<Rightarrow> goal_run list" where
  "started_first rs =
     sort_key (\<lambda>r. case gr_startedAt r of Some t \<Rightarrow> t | None \<Rightarrow> 0) (filter (\<lambda>r. gr_startedAt r \<noteq> None) rs)
     @ filter (\<lambda>r. gr_startedAt r = None) rs"

definition loadGoalTasks :: "goal_world \<Rightarrow> goal_task list" where
  "loadGoalTasks w = take MAX_GOAL_TASKS (gw_tasks w)"

definition loadGoalWork :: "goal_world \<Rightarrow> goal_run list" where
  "loadGoalWork w =
     (let ids = map gt_id (loadGoalTasks w) in started_first (filter (\<lambda>r. gr_taskId r \<in> set ids) (gw_runs w)))"

definition run_cost :: "goal_run \<Rightarrow> int" where
  "run_cost r = max 0 (case gr_costCents r of None \<Rightarrow> 0 | Some c \<Rightarrow> c)"

definition computeSpend :: "goal_world \<Rightarrow> int" where
  "computeSpend w = sum_list (map run_cost (loadGoalWork w))"

definition is_active :: "goal_run \<Rightarrow> bool" where
  "is_active r \<longleftrightarrow> gr_status r \<in> set ACTIVE_RUN_STATUSES"

definition findActiveRuns :: "goal_world \<Rightarrow> goal_run list" where
  "findActiveRuns w = filter is_active (loadGoalWork w)"

text \<open>The SQL filter of the open pull requests, and the rule re-checked in memory.\<close>

definition openPullRequestWhere :: "goal_task \<Rightarrow> bool" where
  "openPullRequestWhere t \<longleftrightarrow> gt_prNumber t \<noteq> None \<and> gt_prUrl t \<noteq> None
     \<and> gt_prState t \<notin> set (map Some [''merged'', ''closed''])
     \<and> gt_branchState t \<notin> set (map Some [''merged'', ''cleaned'', ''discarded''])"

definition hasOpenPullRequest :: "goal_task \<Rightarrow> bool" where
  "hasOpenPullRequest t \<longleftrightarrow>
     (case gt_prNumber t of None \<Rightarrow> False | Some n \<Rightarrow> n \<noteq> 0)
     \<and> (case gt_prUrl t of None \<Rightarrow> False | Some u \<Rightarrow> u \<noteq> [])
     \<and> gt_prState t \<noteq> Some ''merged'' \<and> gt_prState t \<noteq> Some ''closed''
     \<and> (case gt_branchState t of None \<Rightarrow> '''' | Some b \<Rightarrow> b)
         \<notin> set [''merged'', ''cleaned'', ''discarded'']"

definition awaiting_merge_tasks :: "goal_world \<Rightarrow> goal_task list" where
  "awaiting_merge_tasks w =
     (let g = gw_goal w;
          rows = filter (\<lambda>t. openPullRequestWhere t \<and> gt_workId t = gl_workId g
                    \<and> gt_status t \<noteq> DONE \<and> gt_status t \<noteq> CANCELLED) (gw_tasks w);
          candidates = filter hasOpenPullRequest (take GOAL_AWAITING_MERGE_SCAN rows);
          running = map gr_taskId (filter is_active (gw_runs w))
      in filter (\<lambda>t. gt_id t \<notin> set running) candidates)"

record work_state =
  ws_unavailable :: bool
  ws_unreadable :: bool
  ws_awaiting :: "goal_task list"

definition goalWorkState :: "goal_env \<Rightarrow> goal_world \<Rightarrow> work_state" where
  "goalWorkState env w =
     (let fine = \<lparr>ws_unavailable = False, ws_unreadable = False, ws_awaiting = []\<rparr> in
      if gl_workId (gw_goal w) = None then fine
      else case en_work env of
          WorkNotWired \<Rightarrow> fine
        | WorkReadFails \<Rightarrow> fine\<lparr>ws_unreadable := True\<rparr>
        | WorkGoneOrForeign \<Rightarrow> fine\<lparr>ws_unavailable := True\<rparr>
        | PlainWork \<Rightarrow> fine
        | AppWork readable \<Rightarrow> if readable then fine\<lparr>ws_awaiting := awaiting_merge_tasks w\<rparr>
            else fine\<lparr>ws_unreadable := True\<rparr>)"

section \<open>Who may run the next iteration\<close>

definition agent_display :: "agent_ref option \<Rightarrow> string option" where
  "agent_display a = (case a of None \<Rightarrow> None
     | Some r \<Rightarrow> (case ag_name r of Some n \<Rightarrow> Some n | None \<Rightarrow> ag_slug r))"

definition resolveScopeCandidates :: "agent_directory \<Rightarrow> goal_candidate list goal_result" where
  "resolveScopeCandidates dir = (case ad_scope dir of
     None \<Rightarrow> Inl (Threw ''agents'')
   | Some rows \<Rightarrow> Inr (map (\<lambda>r. \<lparr>ca_agentId = ag_id r, ca_name = agent_display (Some r), ca_source = FromScope\<rparr>)
       (sort_key (\<lambda>r. case ag_createdAt r of None \<Rightarrow> 0 | Some t \<Rightarrow> t)
         (sort_key ag_id (take MAX_SCOPE_CANDIDATES rows)))))"

text \<open>The agents of the Goal's own Tasks, each at its first Task; an unknown one is dropped.\<close>

fun history_candidates :: "agent_directory option \<Rightarrow> string list \<Rightarrow> goal_task list \<Rightarrow> goal_candidate list" where
  "history_candidates dir seen [] = []"
| "history_candidates dir seen (t # ts) = (case gt_agentId t of
      None \<Rightarrow> history_candidates dir seen ts
    | Some a \<Rightarrow>
       if a = [] \<or> a \<in> set seen then history_candidates dir seen ts
       else let ref = (case dir of None \<Rightarrow> None | Some d \<Rightarrow> ad_find d a) in
         if dir \<noteq> None \<and> ref = None then history_candidates dir seen ts
         else \<lparr>ca_agentId = a, ca_name = agent_display ref, ca_source = FromHistory\<rparr>
              # history_candidates dir (a # seen) ts)"

definition resolveCandidates :: "goal_env \<Rightarrow> goal_world \<Rightarrow> goal_candidate list goal_result" where
  "resolveCandidates env w =
     (let pin = gl_assignedAgentId (gw_goal w);
          ref = (case (pin, en_agents env) of (Some a, Some d) \<Rightarrow> ad_find d a | _ \<Rightarrow> None)
      in if pin \<noteq> None \<and> (ref \<noteq> None \<or> en_agents env = None)
         then Inr [\<lparr>ca_agentId = the pin, ca_name = agent_display ref, ca_source = FromAssigned\<rparr>]
         else let out = history_candidates (en_agents env) [] (loadGoalTasks w) in
           if out \<noteq> [] \<or> pin \<noteq> None then Inr out
           else (case en_agents env of None \<Rightarrow> Inr [] | Some d \<Rightarrow> resolveScopeCandidates d))"

section \<open>The log\<close>

definition recordEvent :: "goal_event_kind \<Rightarrow> goal_message \<Rightarrow> string option \<Rightarrow> nat option \<Rightarrow> int option \<Rightarrow>
    goal_world \<Rightarrow> goal_world" where
  "recordEvent k m a t i w = w\<lparr>gw_log := \<lparr>ge_kind = k, ge_message = m, ge_agentId = a, ge_taskId = t,
     ge_iteration = (case i of Some n \<Rightarrow> n | None \<Rightarrow> gl_iteration (gw_goal w))\<rparr> # gw_log w\<rparr>"

definition log_line :: "goal_event_kind \<Rightarrow> goal_message \<Rightarrow> goal_world \<Rightarrow> goal_world" where
  "log_line k m = recordEvent k m None None None"

text \<open>A wait is logged once: not while the newest line already says it.\<close>

definition recordWaitOnce :: "reasoning \<Rightarrow> goal_world \<Rightarrow> goal_world" where
  "recordWaitOnce r w =
     (case gw_log w of
        e # _ \<Rightarrow> if ge_message e = Decided r then w else log_line EvLimit (Decided r) w
      | [] \<Rightarrow> log_line EvLimit (Decided r) w)"

section \<open>Dispatching\<close>

record goal_slot =
  sl_iteration :: int
  sl_agentId :: string
  sl_taskId :: nat
  sl_runId :: "nat option"
  sl_dispatched :: bool
  sl_error :: "string option"

definition create_iteration_task :: "int \<Rightarrow> string \<Rightarrow> goal_world \<Rightarrow> goal_task" where
  "create_iteration_task i a w = \<lparr>gt_id = length (gw_tasks w), gt_iteration = Some i, gt_agentId = Some a,
     gt_workId = gl_workId (gw_goal w), gt_status = TODO, gt_prNumber = None, gt_prUrl = None,
     gt_prState = None, gt_branchState = None\<rparr>"

definition add_task :: "goal_task \<Rightarrow> goal_world \<Rightarrow> goal_world" where
  "add_task t w = w\<lparr>gw_tasks := gw_tasks w @ [t]\<rparr>"

text \<open>The run row a dispatch leaves behind.\<close>

definition dispatch_run_row :: "dispatch_outcome \<Rightarrow> nat \<Rightarrow> string \<Rightarrow> goal_world \<Rightarrow> goal_run option" where
  "dispatch_run_row out tid a w =
     (let row = (\<lambda>st. Some \<lparr>gr_id = length (gw_runs w), gr_taskId = tid, gr_agentId = a, gr_status = st,
                  gr_costCents = None, gr_startedAt = None\<rparr>)
      in case out of
          DispatchRefused _ \<Rightarrow> None
        | DispatchParked _ \<Rightarrow> row RunQueued
        | DispatchEnqueued \<Rightarrow> row RunQueued
        | DispatchEnqueueFailed _ \<Rightarrow> row RunFailed)"

definition add_run :: "goal_run option \<Rightarrow> goal_world \<Rightarrow> goal_world" where
  "add_run r w = (case r of None \<Rightarrow> w | Some row \<Rightarrow> w\<lparr>gw_runs := gw_runs w @ [row]\<rparr>)"

definition make_slot :: "int \<Rightarrow> string \<Rightarrow> goal_task \<Rightarrow> goal_run option \<Rightarrow> dispatch_outcome \<Rightarrow> goal_slot" where
  "make_slot i a t r out = \<lparr>sl_iteration = i, sl_agentId = a, sl_taskId = gt_id t, sl_runId = map_option gr_id r,
     sl_dispatched = (out = DispatchEnqueued),
     sl_error = (case out of DispatchRefused e \<Rightarrow> Some e | DispatchEnqueueFailed e \<Rightarrow> Some e | _ \<Rightarrow> None)\<rparr>"

text \<open>The slots of one decision in order. A failure in a later slot keeps the slots that landed; a
  failure in the first one is rethrown. A Task created before its dispatch threw stays.\<close>

fun dispatch_slots ::
  "(nat \<Rightarrow> slot_outcome) \<Rightarrow> (int \<times> string) list \<Rightarrow> goal_slot list \<Rightarrow> goal_world \<Rightarrow>
   goal_slot list goal_result \<times> goal_world" where
  "dispatch_slots outcome [] slots w = (Inr slots, w)"
| "dispatch_slots outcome ((i, a) # rest) slots w =
     (let t = create_iteration_task i a w; w1 = add_task t w in
      case outcome (length slots) of
        CreateThrows e \<Rightarrow> (if slots = [] then Inl (Threw e) else Inr slots, w)
      | DispatchThrows e \<Rightarrow> (if slots = [] then Inl (Threw e) else Inr slots, w1)
      | DispatchReturns out \<Rightarrow>
          (let r = dispatch_run_row out (gt_id t) a w1
           in dispatch_slots outcome rest (slots @ [make_slot i a t r out]) (add_run r w1)))"

datatype advance_reason = DecisionReason loop_reason | TasksRuntimeUnavailable

record advance_result =
  ar_action :: loop_action
  ar_reason :: advance_reason
  ar_iteration :: int
  ar_slots :: "goal_slot list"

definition slot_pairs :: "goal_row \<Rightarrow> goal_loop_decision \<Rightarrow> (int \<times> string) list" where
  "slot_pairs g d =
     (let ags = (if dc_agentIds d \<noteq> [] then dc_agentIds d else [the (dc_agentId d)]);
          its = (if dc_iterations d \<noteq> [] then dc_iterations d
                 else [case dc_nextIteration d of Some n \<Rightarrow> n | None \<Rightarrow> gl_iteration g + 1])
      in map (\<lambda>k. (its ! k, if k < length ags then ags ! k else last ags)) [0..<length its])"

definition log_dispatch :: "goal_slot \<Rightarrow> goal_world \<Rightarrow> goal_world" where
  "log_dispatch s w = recordEvent EvDispatch
     (DispatchedIteration (sl_iteration s) (sl_taskId s) (sl_agentId s) (sl_dispatched s))
     (Some (sl_agentId s)) (Some (sl_taskId s)) (Some (sl_iteration s)) w"

definition applyDispatch ::
  "goal_env \<Rightarrow> goal_loop_decision \<Rightarrow> goal_world \<Rightarrow> advance_result goal_result \<times> goal_world" where
  "applyDispatch env d w =
     (let pairs = slot_pairs (gw_goal w) d; (i0, a0) = hd pairs in
      if \<not> en_tasksRuntime env
      then (Inr \<lparr>ar_action = ActNoop, ar_reason = TasksRuntimeUnavailable,
                 ar_iteration = gl_iteration (gw_goal w), ar_slots = []\<rparr>,
            recordEvent EvLimit NoTasksRuntime None None (Some i0) w)
      else let w0 = recordEvent EvRoute (Decided (dc_reasoning d)) (Some a0) None (Some i0) w in
        case dispatch_slots (en_slot env) pairs [] w0 of
          (Inl e, w1) \<Rightarrow> (Inl e, w1)
        | (Inr slots, w1) \<Rightarrow>
            (let s = last slots;
                 w2 = w1\<lparr>gw_goal := (gw_goal w1)\<lparr>gl_iteration := sl_iteration s,
                            gl_activeAgentId := Some (sl_agentId s)\<rparr>\<rparr>
             in (Inr \<lparr>ar_action = ActDispatch, ar_reason = DecisionReason (dc_reasonCode d),
                      ar_iteration = sl_iteration (hd slots), ar_slots = slots\<rparr>,
                 fold log_dispatch slots w2)))"

definition terminal_goal :: "loop_status \<Rightarrow> goal_row \<Rightarrow> goal_row" where
  "terminal_goal st g =
     (let g1 = g\<lparr>gl_loopStatus := Some st, gl_activeAgentId := None\<rparr> in
      if st = LoopDone \<and> gl_delivery g \<and> gl_status g \<noteq> GoalCompleted
      then g1\<lparr>gl_status := GoalCompleted, gl_outcome := Some GoalAchieved, gl_nextCheckAt := None\<rparr>
      else g1)"

definition applyTerminal ::
  "goal_loop_decision \<Rightarrow> loop_status \<Rightarrow> goal_world \<Rightarrow> advance_result goal_result \<times> goal_world" where
  "applyTerminal d st w =
     (let w1 = w\<lparr>gw_goal := terminal_goal st (gw_goal w)\<rparr> in
      (Inr \<lparr>ar_action = dc_action d, ar_reason = DecisionReason (dc_reasonCode d),
            ar_iteration = gl_iteration (gw_goal w1), ar_slots = []\<rparr>,
       log_line (if st = LoopDone then EvComplete else EvLimit) (Decided (dc_reasoning d)) w1))"

section \<open>One tick\<close>

definition refresh_spend :: "goal_world \<Rightarrow> goal_world" where
  "refresh_spend w = w\<lparr>gw_goal := (gw_goal w)\<lparr>gl_spentCents := computeSpend w\<rparr>\<rparr>"

text \<open>What the decision is made on; the ceiling is clamped again on read.\<close>

definition decision_input ::
  "goal_env \<Rightarrow> bool \<Rightarrow> goal_candidate list \<Rightarrow> goal_world \<Rightarrow> goal_loop_input" where
  "decision_input env forced cs w =
     (let g = gw_goal w; active = findActiveRuns w; ws = goalWorkState env w in
      \<lparr>gi_loopStatus = (if forced then Some LoopRunning else gl_loopStatus g),
       gi_dod = summarizeDoD (gl_dodCriteria g),
       gi_iteration = gl_iteration g,
       gi_lastProgressIteration = gl_lastProgressIteration g,
       gi_stuckThresholdIterations = gl_stuckThresholdIterations g,
       gi_spendCapCents = gl_spendCapCents g,
       gi_spentCents = gl_spentCents g,
       gi_wallClockLimitHours = gl_wallClockLimitHours g,
       gi_loopStartedAt = gl_loopStartedAt g,
       gi_gracePeriodMinutes = gl_gracePeriodMinutes g,
       gi_hasRunInFlight = (active \<noteq> []),
       gi_runsInFlight = Some (Fin (of_nat (length active))),
       gi_maxConcurrentIterations =
         map_option (\<lambda>m. Fin (of_int (min m MAX_CONCURRENT_ITERATIONS))) (gl_maxConcurrentIterations g),
       gi_pullRequestsAwaitingMerge = Some (Fin (of_nat (length (ws_awaiting ws)))),
       gi_awaitingMergeIterations = Some (List.map_filter gt_iteration (ws_awaiting ws)),
       gi_workUnavailable = ws_unavailable ws,
       gi_workUnreadable = ws_unreadable ws,
       gi_candidates = cs,
       gi_now = en_now env\<rparr>)"

definition apply_decision ::
  "goal_env \<Rightarrow> goal_loop_decision \<Rightarrow> goal_world \<Rightarrow> advance_result goal_result \<times> goal_world" where
  "apply_decision env d w = (case dc_action d of
       ActDispatch \<Rightarrow> applyDispatch env d w
     | ActComplete \<Rightarrow> applyTerminal d LoopDone w
     | ActPause \<Rightarrow> applyTerminal d LoopPaused w
     | ActStuck \<Rightarrow> applyTerminal d LoopStuck w
     | _ \<Rightarrow> (Inr \<lparr>ar_action = dc_action d, ar_reason = DecisionReason (dc_reasonCode d),
                  ar_iteration = gl_iteration (gw_goal w), ar_slots = []\<rparr>,
             if dc_reasonCode d = AwaitingMerge then recordWaitOnce (dc_reasoning d) w else w))"

definition advanceOne :: "goal_env \<Rightarrow> bool \<Rightarrow> goal_world \<Rightarrow> advance_result goal_result \<times> goal_world" where
  "advanceOne env forced w0 =
     (let w = refresh_spend w0 in
      case resolveCandidates env w of
        Inl e \<Rightarrow> (Inl e, w)
      | Inr cs \<Rightarrow> apply_decision env (decideGoalLoop (decision_input env forced cs w)) w)"

end
