(* ===== verification/Goal_Control.thy ===== *)
theory Goal_Control
  imports Goal_Loop
begin

text \<open>
  What an operator, an integration or a planning run does to a Goal's loop: its limits, its
  checklist, start, pause, cancel, restart, nudge, archive, and the tick over every due Goal.

  An operation answers the Goal's new rows or the error it throws. Ownership of the Goal is checked
  before each one and is not modelled, nor is the name of a relay on a checklist write.
\<close>

section \<open>Limits\<close>

definition MAX_SPEND_CAP_CENTS :: int where "MAX_SPEND_CAP_CENTS = 100000000"
definition MAX_WALL_CLOCK_LIMIT_HOURS :: int where "MAX_WALL_CLOCK_LIMIT_HOURS = 24 * 365"
definition MAX_STUCK_THRESHOLD_ITERATIONS :: int where "MAX_STUCK_THRESHOLD_ITERATIONS = 1000"
definition MAX_SESSION_BUDGET_MINUTES :: int where "MAX_SESSION_BUDGET_MINUTES = 24 * 60"
definition MAX_GRACE_PERIOD_MINUTES :: int where "MAX_GRACE_PERIOD_MINUTES = 24 * 60"
definition MAX_MODEL_HINT_CHARS :: nat where "MAX_MODEL_HINT_CHARS = 120"
definition MAX_NUDGE_CHARS :: nat where "MAX_NUDGE_CHARS = 2000"

definition GOAL_EXECUTION_TARGETS :: "string list" where
  "GOAL_EXECUTION_TARGETS = [''cloud'', ''local-runner'']"

text \<open>\<open>None\<close>: the field is absent; \<open>Some None\<close>: it is null.\<close>

record limits_input =
  li_spendCapCents :: "js_number option option"
  li_wallClockLimitHours :: "js_number option option"
  li_stuckThresholdIterations :: "js_number option option"
  li_maxConcurrentIterations :: "js_number option option"
  li_sessionBudgetMinutes :: "js_number option option"
  li_gracePeriodMinutes :: "js_number option option"
  li_executionTarget :: "string option option"
  li_plannerModelHint :: "string option option"
  li_workerModelHint :: "string option option"
  li_assignedAgentId :: "string option option"

definition then_result :: "'a goal_result \<Rightarrow> ('a \<Rightarrow> 'b goal_result) \<Rightarrow> 'b goal_result" where
  "then_result x f = (case x of Inl e \<Rightarrow> Inl e | Inr v \<Rightarrow> f v)"

definition assertBoundedInt :: "js_number option \<Rightarrow> string \<Rightarrow> int \<Rightarrow> int \<Rightarrow> int option goal_result" where
  "assertBoundedInt v field lo hi = (case v of
      None \<Rightarrow> Inr None
    | Some n \<Rightarrow> (case integer_of n of
         None \<Rightarrow> Inl (LimitNotInteger field)
       | Some i \<Rightarrow> if i < lo \<or> i > hi then Inl (LimitOutOfRange field lo hi) else Inr (Some i)))"

definition assertExecutionTarget :: "string option \<Rightarrow> string option goal_result" where
  "assertExecutionTarget v = (case v of
      None \<Rightarrow> Inr None
    | Some t \<Rightarrow> if t \<in> set GOAL_EXECUTION_TARGETS then Inr (Some t) else Inl BadExecutionTarget)"

definition normalizeHint :: "string option \<Rightarrow> string option" where
  "normalizeHint v = (case v of
      None \<Rightarrow> None
    | Some s \<Rightarrow> if js_trim s = [] then None else Some (take MAX_MODEL_HINT_CHARS (js_trim s)))"

definition resolveAssignedAgentId :: "goal_env \<Rightarrow> string option \<Rightarrow> string option goal_result" where
  "resolveAssignedAgentId env a = (case (a, en_agents env) of
      (Some i, Some d) \<Rightarrow> if ad_find d i = None then Inl (AgentNotFound i) else Inr (Some i)
    | _ \<Rightarrow> Inr a)"

text \<open>One field: kept when absent, checked and written otherwise.\<close>

definition put_field ::
  "'a option \<Rightarrow> ('a \<Rightarrow> 'b goal_result) \<Rightarrow> ('b \<Rightarrow> goal_row \<Rightarrow> goal_row) \<Rightarrow> goal_row \<Rightarrow> goal_row goal_result" where
  "put_field v check put g = (case v of None \<Rightarrow> Inr g | Some x \<Rightarrow> then_result (check x) (\<lambda>y. Inr (put y g)))"

definition bounded_field ::
  "js_number option option \<Rightarrow> string \<Rightarrow> int \<Rightarrow> int \<Rightarrow> (int option \<Rightarrow> goal_row \<Rightarrow> goal_row) \<Rightarrow>
   goal_row \<Rightarrow> goal_row goal_result" where
  "bounded_field v field lo hi = put_field v (\<lambda>x. assertBoundedInt x field lo hi)"

definition write_limits :: "goal_env \<Rightarrow> limits_input \<Rightarrow> goal_row \<Rightarrow> goal_row goal_result" where
  "write_limits env li g0 =
     then_result (bounded_field (li_spendCapCents li) ''spendCapCents'' 0 MAX_SPEND_CAP_CENTS
       (\<lambda>v g. g\<lparr>gl_spendCapCents := v\<rparr>) g0) (\<lambda>g1.
     then_result (bounded_field (li_wallClockLimitHours li) ''wallClockLimitHours'' 1 MAX_WALL_CLOCK_LIMIT_HOURS
       (\<lambda>v g. g\<lparr>gl_wallClockLimitHours := v\<rparr>) g1) (\<lambda>g2.
     then_result (bounded_field (li_stuckThresholdIterations li) ''stuckThresholdIterations'' 1
       MAX_STUCK_THRESHOLD_ITERATIONS (\<lambda>v g. g\<lparr>gl_stuckThresholdIterations := v\<rparr>) g2) (\<lambda>g3.
     then_result (bounded_field (li_maxConcurrentIterations li) ''maxConcurrentIterations'' 1
       MAX_CONCURRENT_ITERATIONS (\<lambda>v g. g\<lparr>gl_maxConcurrentIterations := v\<rparr>) g3) (\<lambda>g4.
     then_result (bounded_field (li_sessionBudgetMinutes li) ''sessionBudgetMinutes'' 1 MAX_SESSION_BUDGET_MINUTES
       (\<lambda>v g. g\<lparr>gl_sessionBudgetMinutes := v\<rparr>) g4) (\<lambda>g5.
     then_result (bounded_field (li_gracePeriodMinutes li) ''gracePeriodMinutes'' 0 MAX_GRACE_PERIOD_MINUTES
       (\<lambda>v g. g\<lparr>gl_gracePeriodMinutes := v\<rparr>) g5) (\<lambda>g6.
     then_result (put_field (li_executionTarget li) assertExecutionTarget
       (\<lambda>v g. g\<lparr>gl_executionTarget := v\<rparr>) g6) (\<lambda>g7.
     then_result (put_field (li_plannerModelHint li) (\<lambda>v. Inr (normalizeHint v))
       (\<lambda>v g. g\<lparr>gl_plannerModelHint := v\<rparr>) g7) (\<lambda>g8.
     then_result (put_field (li_workerModelHint li) (\<lambda>v. Inr (normalizeHint v))
       (\<lambda>v g. g\<lparr>gl_workerModelHint := v\<rparr>) g8) (\<lambda>g9.
     put_field (li_assignedAgentId li) (resolveAssignedAgentId env)
       (\<lambda>v g. g\<lparr>gl_assignedAgentId := v\<rparr>) g9)))))))))"

datatype limit_value = LimitInt "int option" | LimitText "string option"

definition limitsSnapshot :: "goal_row \<Rightarrow> (string \<times> limit_value) list" where
  "limitsSnapshot g =
     [(''spendCapCents'', LimitInt (gl_spendCapCents g)),
      (''wallClockLimitHours'', LimitInt (gl_wallClockLimitHours g)),
      (''stuckThresholdIterations'', LimitInt (gl_stuckThresholdIterations g)),
      (''maxConcurrentIterations'', LimitInt (gl_maxConcurrentIterations g)),
      (''sessionBudgetMinutes'', LimitInt (gl_sessionBudgetMinutes g)),
      (''gracePeriodMinutes'', LimitInt (gl_gracePeriodMinutes g)),
      (''executionTarget'', LimitText (gl_executionTarget g)),
      (''plannerModelHint'', LimitText (gl_plannerModelHint g)),
      (''workerModelHint'', LimitText (gl_workerModelHint g)),
      (''assignedAgentId'', LimitText (gl_assignedAgentId g))]"

definition format_limit :: "string \<Rightarrow> limit_value \<Rightarrow> string" where
  "format_limit key v = (case v of
      LimitInt None \<Rightarrow> ''none''
    | LimitInt (Some i) \<Rightarrow> if key = ''spendCapCents'' then formatUsd i else int_string i
    | LimitText None \<Rightarrow> ''none''
    | LimitText (Some s) \<Rightarrow> s)"

text \<open>The changed keys with both values; empty when nothing changed.\<close>

definition describeLimitChange ::
  "(string \<times> limit_value) list \<Rightarrow> (string \<times> limit_value) list \<Rightarrow> (string \<times> string \<times> string) list" where
  "describeLimitChange before after =
     map (\<lambda>((k, b), (_, a)). (k, format_limit k b, format_limit k a))
       (filter (\<lambda>((_, b), (_, a)). b \<noteq> a) (zip before after))"

definition updateLimits :: "goal_env \<Rightarrow> limits_input \<Rightarrow> goal_world \<Rightarrow> goal_world goal_result" where
  "updateLimits env li w =
     then_result (write_limits env li (gw_goal w)) (\<lambda>g. Inr (log_line EvControl
       (LimitsAdjusted (describeLimitChange (limitsSnapshot (gw_goal w)) (limitsSnapshot g)))
       (w\<lparr>gw_goal := g\<rparr>)))"

section \<open>The checklist\<close>

definition assertDod :: "json \<Rightarrow> unit goal_result" where
  "assertDod v = (if validateDoDCriteria v = [] then Inr () else Inl (DodInvalid (validateDoDCriteria v)))"

definition markProgressIfChanged :: "string \<Rightarrow> goal_row \<Rightarrow> goal_row" where
  "markProgressIfChanged before g =
     (if dodProgressSignature (gl_dodCriteria g) \<noteq> before
      then g\<lparr>gl_lastProgressIteration := gl_iteration g\<rparr> else g)"

definition type_error :: "'a option \<Rightarrow> 'a goal_result" where
  "type_error x = (case x of None \<Rightarrow> Inl (Threw ''TypeError'') | Some v \<Rightarrow> Inr v)"

definition write_dod :: "json list option \<Rightarrow> goal_row \<Rightarrow> goal_row" where
  "write_dod dod g =
     markProgressIfChanged (dodProgressSignature (gl_dodCriteria g)) (g\<lparr>gl_dodCriteria := dod\<rparr>)"

definition dod_line :: "goal_world \<Rightarrow> goal_message" where
  "dod_line w = (let s = summarizeDoD (gl_dodCriteria (gw_goal w)) in
     DodUpdated (ds_done s) (ds_waived s) (ds_open s) (ds_proposed s))"

definition setDodCriteria :: "goal_env \<Rightarrow> json list option \<Rightarrow> goal_world \<Rightarrow> goal_world goal_result" where
  "setDodCriteria env cs w =
     then_result (assertDod (case cs of None \<Rightarrow> JNull | Some es \<Rightarrow> JArr es)) (\<lambda>_.
     if gl_delivery (gw_goal w) \<and> (cs = None \<or> \<not> hasDefinitionOfDone cs)
     then Inl DeliveryMustKeepCriterion
     else then_result (case cs of None \<Rightarrow> Inr None
            | Some es \<Rightarrow> then_result (type_error (normalizeDoDCriteria es (en_stamp env))) (\<lambda>ns. Inr (Some ns)))
       (\<lambda>dod. let w1 = w\<lparr>gw_goal := write_dod dod (gw_goal w)\<rparr> in Inr (log_line EvDod (dod_line w1) w1)))"

text \<open>A planning run's entries: forced open, planner-authored and proposed, normalized, appended,
  then the whole list is validated.\<close>

definition as_proposed :: "json \<Rightarrow> json" where
  "as_proposed e = obj_spread e
     [(''status'', JStr ''open''), (''source'', JStr ''planner''), (''proposed'', JBool True)]"

definition proposeDodCriteria :: "goal_env \<Rightarrow> json list \<Rightarrow> goal_world \<Rightarrow> goal_world goal_result" where
  "proposeDodCriteria env cs w =
     (if cs = [] then Inl NoProposedCriteria
      else then_result (type_error (normalizeDoDCriteria (map as_proposed cs) (en_stamp env))) (\<lambda>ps.
        let merged = resolveDoDCriteria (gl_dodCriteria (gw_goal w)) @ ps in
        then_result (assertDod (JArr merged)) (\<lambda>_.
          Inr (log_line EvDod (DodProposed (length ps))
            (w\<lparr>gw_goal := (gw_goal w)\<lparr>gl_dodCriteria := Some merged\<rparr>\<rparr>)))))"

text \<open>\<open>{ proposed, ...rest } = entry\<close>, and a fresh \<open>updatedAt\<close>.\<close>

definition approve_criterion :: "string \<Rightarrow> json \<Rightarrow> json" where
  "approve_criterion stamp e = obj_spread
     (JObj (AList.delete ''proposed'' (case e of JObj ps \<Rightarrow> ps | _ \<Rightarrow> []))) [(''updatedAt'', JStr stamp)]"

definition wanted_criterion :: "string list option \<Rightarrow> json \<Rightarrow> bool" where
  "wanted_criterion ids e \<longleftrightarrow> \<not> isApprovedDoDCriterion e
     \<and> (case ids of None \<Rightarrow> True | Some xs \<Rightarrow> xs = [] \<or> own_prop e ''id'' \<in> set (map JStr xs))"

definition approveDodCriteria :: "goal_env \<Rightarrow> string list option \<Rightarrow> goal_world \<Rightarrow> goal_world goal_result" where
  "approveDodCriteria env ids w =
     (let existing = resolveDoDCriteria (gl_dodCriteria (gw_goal w));
          asked = js_unique (case ids of None \<Rightarrow> [] | Some xs \<Rightarrow> xs);
          unknown = filter (\<lambda>i. JStr i \<notin> set (map (\<lambda>e. own_prop e ''id'') existing)) asked;
          n = length (filter (wanted_criterion ids) existing)
      in if unknown \<noteq> [] then Inl (UnknownCriteria unknown)
         else if n = 0 then Inl NothingToApprove
         else Inr (log_line EvDod (DodApproved n) (w\<lparr>gw_goal := write_dod
           (Some (map (\<lambda>e. if wanted_criterion ids e then approve_criterion (en_stamp env) e else e) existing))
           (gw_goal w)\<rparr>)))"

text \<open>A patch: \<open>None\<close> where the field is undefined.\<close>

record dod_patch =
  dp_status :: "json option"
  dp_text :: "json option"
  dp_evidence :: "json option"
  dp_note :: "json option"

definition patched_fields :: "dod_patch \<Rightarrow> (string \<times> json) list" where
  "patched_fields p =
     (case dp_status p of None \<Rightarrow> [] | Some v \<Rightarrow> [(''status'', v)])
     @ (case dp_text p of None \<Rightarrow> [] | Some v \<Rightarrow> [(''text'', v)])
     @ (case dp_evidence p of None \<Rightarrow> [] | Some v \<Rightarrow> [(''evidence'', v)])
     @ (case dp_note p of None \<Rightarrow> [] | Some v \<Rightarrow> [(''note'', v)])"

definition patchDodCriterion :: "goal_env \<Rightarrow> string \<Rightarrow> dod_patch \<Rightarrow> goal_world \<Rightarrow> goal_world goal_result" where
  "patchDodCriterion env cid p w =
     (let existing = resolveDoDCriteria (gl_dodCriteria (gw_goal w)) in
      case List.find (\<lambda>e. own_prop e ''id'' = JStr cid) existing of
        None \<Rightarrow> Inl CriterionNotFound
      | Some target \<Rightarrow>
         (let updated = obj_spread target (patched_fields p @ [(''updatedAt'', JStr (en_stamp env))]);
              changed = map (\<lambda>e. if own_prop e ''id'' = JStr cid then updated else e) existing
          in then_result (assertDod (JArr changed)) (\<lambda>_.
             then_result (type_error (normalizeDoDCriteria changed (en_stamp env))) (\<lambda>ns.
             let w1 = w\<lparr>gw_goal := write_dod (Some ns) (gw_goal w)\<rparr>;
                 s = summarizeDoD (gl_dodCriteria (gw_goal w1))
             in Inr (log_line EvDod (DodCriterionSet cid (own_prop updated ''status'')
                  (ds_done s) (ds_waived s) (ds_open s)) w1)))))"

section \<open>Loop control\<close>

definition set_running :: "goal_env \<Rightarrow> goal_row \<Rightarrow> goal_row" where
  "set_running env g = g\<lparr>gl_loopStatus := Some LoopRunning,
     gl_loopStartedAt := (case gl_loopStartedAt g of None \<Rightarrow> Some (en_now env) | t \<Rightarrow> t)\<rparr>"

definition startLoop :: "goal_env \<Rightarrow> goal_world \<Rightarrow> goal_world goal_result" where
  "startLoop env w =
     (let g = gw_goal w in
      if gl_archivedAt g \<noteq> None then Inl GoalArchived
      else if gl_delivery g \<and> \<not> hasDefinitionOfDone (gl_dodCriteria g) then Inl DeliveryNeedsCriterion
      else if gl_workId g \<noteq> None \<and> en_work env \<noteq> WorkNotWired \<and> ws_unavailable (goalWorkState env w)
      then Inl WorkUnavailableError
      else Inr (log_line EvControl
        (if gl_loopStatus g = Some LoopPaused \<or> gl_loopStatus g = Some LoopStuck
         then LoopResumedAt (gl_iteration g) else LoopStarted)
        (w\<lparr>gw_goal := set_running env g\<rparr>)))"

definition pauseLoop :: "goal_world \<Rightarrow> goal_world goal_result" where
  "pauseLoop w =
     (let g = gw_goal w in
      if gl_loopStatus g \<noteq> Some LoopRunning then Inl (NotRunningError (gl_loopStatus g))
      else Inr (log_line EvControl (LoopPausedAt (gl_iteration g))
        (w\<lparr>gw_goal := g\<lparr>gl_loopStatus := Some LoopPaused\<rparr>\<rparr>)))"

text \<open>The compare-and-set of the cancel: only an open run.\<close>

definition cancel_run :: "nat \<Rightarrow> goal_world \<Rightarrow> goal_world" where
  "cancel_run i w = w\<lparr>gw_runs := map (\<lambda>r. if gr_id r = i \<and> is_active r
     then r\<lparr>gr_status := RunCancelled\<rparr> else r) (gw_runs w)\<rparr>"

definition cancelActiveRun :: "goal_env \<Rightarrow> goal_world \<Rightarrow> (nat option \<times> goal_world) goal_result" where
  "cancelActiveRun env w = (case findActiveRuns w of
      [] \<Rightarrow> Inr (None, w)
    | r # _ \<Rightarrow> if en_canCancelRuns env then Inr (Some (gr_id r), cancel_run (gr_id r) w)
               else Inl CancellationUnavailable)"

definition cancelLoop :: "goal_env \<Rightarrow> goal_world \<Rightarrow> goal_world goal_result" where
  "cancelLoop env w =
     then_result (cancelActiveRun env w) (\<lambda>(cancelled, w1).
       Inr (log_line EvComplete (LoopCancelledAt (gl_iteration (gw_goal w1)) (cancelled \<noteq> None))
         (w1\<lparr>gw_goal := (gw_goal w1)\<lparr>gl_loopStatus := Some LoopCancelled, gl_activeAgentId := None\<rparr>\<rparr>)))"

definition restartSession :: "goal_env \<Rightarrow> goal_world \<Rightarrow> advance_result goal_result \<times> goal_world" where
  "restartSession env w =
     (if gl_archivedAt (gw_goal w) \<noteq> None then (Inl GoalArchived, w)
      else case cancelActiveRun env w of
          Inl e \<Rightarrow> (Inl e, w)
        | Inr (cancelled, w1) \<Rightarrow> advanceOne env True (log_line EvControl (SessionRestarted (cancelled \<noteq> None))
            (w1\<lparr>gw_goal := set_running env (gw_goal w1)\<rparr>)))"

text \<open>The steering service's answer: \<open>None\<close> when it is not wired, else whether the run still took
  the message.\<close>

definition nudge :: "bool option \<Rightarrow> string \<Rightarrow> goal_world \<Rightarrow> goal_world goal_result" where
  "nudge steer message w =
     (let text' = js_trim message in
      if text' = [] then Inl NudgeEmpty
      else if length text' > MAX_NUDGE_CHARS then Inl NudgeTooLong
      else case steer of None \<Rightarrow> Inl SteeringUnavailable
        | Some injected \<Rightarrow> (case findActiveRuns w of
             [] \<Rightarrow> Inl NothingToNudge
           | r # _ \<Rightarrow> if injected
               then Inr (recordEvent EvNudge (OperatorNudged (gl_iteration (gw_goal w)) text')
                 (Some (gr_agentId r)) (Some (gr_taskId r)) None w)
               else Inl NudgeTooLate))"

definition archive :: "goal_env \<Rightarrow> goal_world \<Rightarrow> goal_world" where
  "archive env w =
     (let g = gw_goal w in
      if gl_archivedAt g \<noteq> None then w
      else log_line EvControl GoalArchivedLine (w\<lparr>gw_goal := g\<lparr>gl_archivedAt := Some (en_now env),
        gl_loopStatus := (if gl_loopStatus g = Some LoopRunning then Some LoopPaused else gl_loopStatus g)\<rparr>\<rparr>))"

definition unarchive :: "goal_world \<Rightarrow> goal_world" where
  "unarchive w =
     (if gl_archivedAt (gw_goal w) = None then w
      else log_line EvControl GoalUnarchivedLine (w\<lparr>gw_goal := (gw_goal w)\<lparr>gl_archivedAt := None\<rparr>\<rparr>))"

definition rollupSpend :: "goal_world \<Rightarrow> goal_world" where
  "rollupSpend = refresh_spend"

section \<open>The tick over every due Goal\<close>

definition is_due :: "goal_row \<Rightarrow> bool" where
  "is_due g \<longleftrightarrow> gl_loopStatus g = Some LoopRunning \<and> gl_archivedAt g = None"

record goal_advance_summary =
  sm_dispatched :: nat
  sm_completed :: nat
  sm_paused :: nat
  sm_stuck :: nat
  sm_failed :: nat
  sm_results :: "(string \<times> advance_result goal_result) list"

definition count_advance :: "string \<Rightarrow> advance_result goal_result \<Rightarrow> goal_advance_summary \<Rightarrow> goal_advance_summary" where
  "count_advance gid res s0 =
     (let s = s0\<lparr>sm_results := sm_results s0 @ [(gid, res)]\<rparr> in
      case res of
        Inl _ \<Rightarrow> s\<lparr>sm_failed := sm_failed s + 1\<rparr>
      | Inr r \<Rightarrow> (case ar_action r of
            ActDispatch \<Rightarrow> s\<lparr>sm_dispatched := sm_dispatched s + 1\<rparr>
          | ActComplete \<Rightarrow> s\<lparr>sm_completed := sm_completed s + 1\<rparr>
          | ActPause \<Rightarrow> s\<lparr>sm_paused := sm_paused s + 1\<rparr>
          | ActStuck \<Rightarrow> s\<lparr>sm_stuck := sm_stuck s + 1\<rparr>
          | _ \<Rightarrow> s))"

type_synonym goal_store = "string \<Rightarrow> goal_world option"

text \<open>The due Goals in the order of the scan. Others write meanwhile, so each row is read again when
  its turn comes; a Goal whose advance throws is counted and the tick goes on.\<close>

fun advance_each ::
  "(string \<Rightarrow> goal_env) \<Rightarrow> (string \<Rightarrow> goal_store \<Rightarrow> goal_store) \<Rightarrow> string list \<Rightarrow>
   goal_advance_summary \<Rightarrow> goal_store \<Rightarrow> goal_advance_summary \<times> goal_store" where
  "advance_each env meanwhile [] sm st = (sm, st)"
| "advance_each env meanwhile (gid # gids) sm st0 =
     (let st = meanwhile gid st0 in
      case st gid of
        None \<Rightarrow> advance_each env meanwhile gids sm st
      | Some w \<Rightarrow>
          if \<not> is_due (gw_goal w) then advance_each env meanwhile gids sm st
          else let (res, w') = advanceOne (env gid) False w in
            advance_each env meanwhile gids (count_advance gid res sm) (st(gid \<mapsto> w')))"

definition advanceDue ::
  "(string \<Rightarrow> goal_env) \<Rightarrow> (string \<Rightarrow> goal_store \<Rightarrow> goal_store) \<Rightarrow> string list \<Rightarrow> goal_store \<Rightarrow>
   goal_advance_summary \<times> goal_store" where
  "advanceDue env meanwhile due st = advance_each env meanwhile due
     \<lparr>sm_dispatched = 0, sm_completed = 0, sm_paused = 0, sm_stuck = 0, sm_failed = 0, sm_results = []\<rparr> st"

section \<open>Every operation\<close>

datatype goal_op =
    OpLimits limits_input
  | OpSetDod "json list option"
  | OpProposeDod "json list"
  | OpApproveDod "string list option"
  | OpPatchDod string dod_patch
  | OpStart
  | OpPause
  | OpCancel
  | OpRestart
  | OpNudge "bool option" string
  | OpArchive
  | OpUnarchive
  | OpRollup
  | OpAdvance

text \<open>The rows after an operation: as they were when it threw before writing.\<close>

definition settle :: "goal_world \<Rightarrow> goal_world goal_result \<Rightarrow> goal_world" where
  "settle w r = (case r of Inl _ \<Rightarrow> w | Inr w' \<Rightarrow> w')"

fun run_op :: "goal_env \<Rightarrow> goal_op \<Rightarrow> goal_world \<Rightarrow> goal_world" where
  "run_op env (OpLimits li) w = settle w (updateLimits env li w)"
| "run_op env (OpSetDod cs) w = settle w (setDodCriteria env cs w)"
| "run_op env (OpProposeDod cs) w = settle w (proposeDodCriteria env cs w)"
| "run_op env (OpApproveDod ids) w = settle w (approveDodCriteria env ids w)"
| "run_op env (OpPatchDod cid p) w = settle w (patchDodCriterion env cid p w)"
| "run_op env OpStart w = settle w (startLoop env w)"
| "run_op env OpPause w = settle w (pauseLoop w)"
| "run_op env OpCancel w = settle w (cancelLoop env w)"
| "run_op env OpRestart w = snd (restartSession env w)"
| "run_op env (OpNudge steer m) w = settle w (nudge steer m w)"
| "run_op env OpArchive w = archive env w"
| "run_op env OpUnarchive w = unarchive w"
| "run_op env OpRollup w = rollupSpend w"
| "run_op env OpAdvance w = snd (advanceOne env False w)"

end
