(* ===== verification/Goal_Kind.thy ===== *)
theory Goal_Kind
  imports Goal_Control
begin

text \<open>
  The two kinds of Goal (\<open>contracts/src/domain/goal-kind.ts\<close>, \<open>goals/goal-kind.ts\<close>) and what
  creating one (\<open>GoalsService.create\<close>) puts in the columns the loop reads. The input is the JSON
  object of the request. The per-field assertions a metric Goal runs first, the Work lookup, teams
  and visibility are not modelled: they only refuse more requests.
\<close>

definition GOAL_KINDS :: "string list" where "GOAL_KINDS = [''metric'', ''delivery'']"
definition DEFAULT_GOAL_KIND :: string where "DEFAULT_GOAL_KIND = ''metric''"
definition GOAL_COMPARATORS :: "string list" where "GOAL_COMPARATORS = [''gte'', ''lte'']"
definition GOAL_WINDOWS :: "string list" where
  "GOAL_WINDOWS = [''day'', ''week'', ''month'', ''total'', ''point'']"
definition GOAL_METRIC_ONLY_FIELDS :: "string list" where
  "GOAL_METRIC_ONLY_FIELDS = [''metricSource'', ''comparator'', ''targetValue'', ''unit'', ''window'',
     ''baselineValue'', ''criteria'', ''constraints'']"

definition isGoalKind :: "json \<Rightarrow> bool" where
  "isGoalKind v \<longleftrightarrow> v \<in> set (map JStr GOAL_KINDS)"

text \<open>The read path: anything unknown reads as a metric Goal.\<close>

definition normalizeGoalKind :: "json \<Rightarrow> string" where
  "normalizeGoalKind v = (case v of
      JStr s \<Rightarrow> (let n = js_lower (js_trim s) in if n \<in> set GOAL_KINDS then n else DEFAULT_GOAL_KIND)
    | _ \<Rightarrow> DEFAULT_GOAL_KIND)"

definition isDeliveryGoal :: "json \<Rightarrow> bool" where
  "isDeliveryGoal kind \<longleftrightarrow> normalizeGoalKind kind = ''delivery''"

datatype kind_error =
    UnknownGoalKind
  | FieldRequired string
  | MustBeOmitted string
  | NeedsCriterion
  | CriterionRefused dod_error
  | NoProposedAtBirth

definition metricOnlyFieldsPresent :: "json \<Rightarrow> bool \<Rightarrow> string list" where
  "metricOnlyFieldsPresent inp treatNullAsPresent =
     filter (\<lambda>f. case own_prop inp f of JUndef \<Rightarrow> False | JNull \<Rightarrow> treatNullAsPresent | _ \<Rightarrow> True)
       GOAL_METRIC_ONLY_FIELDS"

definition validateMetricGoalInput :: "json \<Rightarrow> kind_error list" where
  "validateMetricGoalInput inp =
     (case own_prop inp ''metricSource'' of JObj _ \<Rightarrow> [] | _ \<Rightarrow> [FieldRequired ''metricSource''])
     @ (if own_prop inp ''comparator'' \<in> set (map JStr GOAL_COMPARATORS) then [] else [FieldRequired ''comparator''])
     @ (case own_prop inp ''targetValue'' of JNum (Fin _) \<Rightarrow> [] | _ \<Rightarrow> [FieldRequired ''targetValue''])
     @ (case own_prop inp ''unit'' of
          JStr s \<Rightarrow> if js_trim s = [] then [FieldRequired ''unit''] else [] | _ \<Rightarrow> [FieldRequired ''unit''])
     @ (if own_prop inp ''window'' \<in> set (map JStr GOAL_WINDOWS) then [] else [FieldRequired ''window''])"

definition validateDeliveryGoalInput :: "json \<Rightarrow> kind_error list" where
  "validateDeliveryGoalInput inp =
     (let errors = map MustBeOmitted (metricOnlyFieldsPresent inp False); dod = own_prop inp ''dodCriteria'' in
      case dod of
        JArr es \<Rightarrow>
          if es = [] then errors @ [NeedsCriterion]
          else if validateDoDCriteria dod \<noteq> [] then errors @ map CriterionRefused (validateDoDCriteria dod)
          else errors @ (if list_ex (\<lambda>e. own_prop e ''proposed'' = JBool True) es then [NoProposedAtBirth] else [])
      | _ \<Rightarrow> errors @ [NeedsCriterion])"

definition validateGoalKindInput :: "json \<Rightarrow> kind_error list" where
  "validateGoalKindInput inp =
     (let kind = js_or_else (own_prop inp ''goalKind'') (JStr DEFAULT_GOAL_KIND) in
      if \<not> isGoalKind kind then [UnknownGoalKind]
      else if kind = JStr ''delivery'' then validateDeliveryGoalInput inp
      else validateMetricGoalInput inp)"

datatype create_error = KindRefused "kind_error list" | DodRefused "dod_error list" | CreateThrew

text \<open>The kind of a write: absent means metric, an unknown name is refused.\<close>

definition resolveWriteKind :: "json \<Rightarrow> create_error + string" where
  "resolveWriteKind v = (case v of
      JUndef \<Rightarrow> Inr DEFAULT_GOAL_KIND
    | JNull \<Rightarrow> Inr DEFAULT_GOAL_KIND
    | JStr s \<Rightarrow> if s \<in> set GOAL_KINDS then Inr s else Inl (KindRefused [UnknownGoalKind])
    | _ \<Rightarrow> Inl (KindRefused [UnknownGoalKind]))"

definition normalizeDodInput :: "json \<Rightarrow> string \<Rightarrow> create_error + json list option" where
  "normalizeDodInput v stamp =
     (if v = JUndef \<or> v = JNull then Inr None
      else if validateDoDCriteria v \<noteq> [] then Inl (DodRefused (validateDoDCriteria v))
      else case v of
          JArr es \<Rightarrow> if es = [] then Inr None
            else (case normalizeDoDCriteria es stamp of None \<Rightarrow> Inl CreateThrew | Some cs \<Rightarrow> Inr (Some cs))
        | _ \<Rightarrow> Inl CreateThrew)"

definition new_goal_row :: "string \<Rightarrow> json list option \<Rightarrow> string option \<Rightarrow> goal_row" where
  "new_goal_row kind dod work = \<lparr>gl_delivery = isDeliveryGoal (JStr kind), gl_status = GoalDraft, gl_outcome = None,
     gl_nextCheckAt = None, gl_archivedAt = None, gl_dodCriteria = dod, gl_loopStatus = None,
     gl_loopStartedAt = None, gl_iteration = 0, gl_lastProgressIteration = 0, gl_activeAgentId = None,
     gl_assignedAgentId = None, gl_spendCapCents = None, gl_spentCents = 0, gl_wallClockLimitHours = None,
     gl_stuckThresholdIterations = None, gl_maxConcurrentIterations = None, gl_sessionBudgetMinutes = None,
     gl_gracePeriodMinutes = None, gl_executionTarget = None, gl_plannerModelHint = None,
     gl_workerModelHint = None, gl_workId = work\<rparr>"

definition createGoal :: "string \<Rightarrow> json \<Rightarrow> string option \<Rightarrow> create_error + goal_row" where
  "createGoal stamp inp work =
     (case resolveWriteKind (own_prop inp ''goalKind'') of
        Inl e \<Rightarrow> Inl e
      | Inr kind \<Rightarrow>
         (let shaped = obj_spread inp [(''goalKind'', JStr kind)] in
          if validateGoalKindInput shaped \<noteq> [] then Inl (KindRefused (validateGoalKindInput shaped))
          else case normalizeDodInput (own_prop inp ''dodCriteria'') stamp of
              Inl e \<Rightarrow> Inl e
            | Inr dod \<Rightarrow> Inr (new_goal_row kind dod work)))"

end
