(* ===== verification/Goal_Dod_Laws.thy ===== *)
theory Goal_Dod_Laws
  imports Goal_Dod "HOL-Library.Multiset"
begin

text \<open>
  Laws of the checklist: the rollup as counts, the signature as a function of the approved entries'
  multiset, the validator as a predicate, and the normalizer as a projection onto validated entries.
\<close>

section \<open>The rollup as counts\<close>

lemma fold_count_criterion:
  "fold count_criterion cs s = s\<lparr>
     ds_total := ds_total s + length (filter isApprovedDoDCriterion cs),
     ds_done := ds_done s + length (filter (\<lambda>c. isApprovedDoDCriterion c \<and> own_prop c ''status'' = JStr ''done'') cs),
     ds_waived := ds_waived s + length (filter (\<lambda>c. isApprovedDoDCriterion c \<and> own_prop c ''status'' = JStr ''waived'') cs),
     ds_open := ds_open s + length (filter (\<lambda>c. isApprovedDoDCriterion c
        \<and> own_prop c ''status'' \<noteq> JStr ''done'' \<and> own_prop c ''status'' \<noteq> JStr ''waived'') cs),
     ds_proposed := ds_proposed s + length (filter (\<lambda>c. \<not> isApprovedDoDCriterion c) cs)\<rparr>"
  by (induction cs arbitrary: s) (auto simp: count_criterion_def Let_def)

lemma summarizeDoD_counts:
  "ds_total (summarizeDoD d) = length (filter isApprovedDoDCriterion (resolveDoDCriteria d))"
  "ds_done (summarizeDoD d) = length (filter (\<lambda>c. own_prop c ''status'' = JStr ''done'')
     (filter isApprovedDoDCriterion (resolveDoDCriteria d)))"
  "ds_waived (summarizeDoD d) = length (filter (\<lambda>c. own_prop c ''status'' = JStr ''waived'')
     (filter isApprovedDoDCriterion (resolveDoDCriteria d)))"
  "ds_open (summarizeDoD d) = length (filter (\<lambda>c. own_prop c ''status'' \<noteq> JStr ''done''
     \<and> own_prop c ''status'' \<noteq> JStr ''waived'') (filter isApprovedDoDCriterion (resolveDoDCriteria d)))"
  "ds_proposed (summarizeDoD d) = length (filter (\<lambda>c. \<not> isApprovedDoDCriterion c) (resolveDoDCriteria d))"
  by (simp_all add: summarizeDoD_def fold_count_criterion Let_def empty_summary_def conj_commute)

definition criterion_closed :: "json \<Rightarrow> bool" where
  "criterion_closed c \<longleftrightarrow> own_prop c ''status'' = JStr ''done'' \<or> own_prop c ''status'' = JStr ''waived''"

lemma summarizeDoD_complete:
  "ds_complete (summarizeDoD d) \<longleftrightarrow>
     (\<exists>c\<in>set (resolveDoDCriteria d). isApprovedDoDCriterion c)
     \<and> (\<forall>c\<in>set (resolveDoDCriteria d). isApprovedDoDCriterion c \<longrightarrow> criterion_closed c)"
proof -
  have total: "0 < ds_total (summarizeDoD d)
      \<longleftrightarrow> (\<exists>c\<in>set (resolveDoDCriteria d). isApprovedDoDCriterion c)"
    by (simp add: summarizeDoD_counts filter_empty_conv)
  have left: "ds_open (summarizeDoD d) = 0
      \<longleftrightarrow> (\<forall>c\<in>set (resolveDoDCriteria d). isApprovedDoDCriterion c \<longrightarrow> criterion_closed c)"
    unfolding summarizeDoD_counts length_0_conv filter_empty_conv criterion_closed_def by fastforce
  have "ds_complete (summarizeDoD d) \<longleftrightarrow> 0 < ds_total (summarizeDoD d) \<and> ds_open (summarizeDoD d) = 0"
    by (simp add: summarizeDoD_def Let_def)
  then show ?thesis using total left by blast
qed

lemma summary_total: "ds_total (summarizeDoD d)
    = ds_done (summarizeDoD d) + ds_waived (summarizeDoD d) + ds_open (summarizeDoD d)"
proof -
  have split3: "length xs = length (filter P xs) + length (filter Q xs) + length (filter (\<lambda>c. \<not> P c \<and> \<not> Q c) xs)"
    if "\<And>c. P c \<Longrightarrow> \<not> Q c" for P Q :: "json \<Rightarrow> bool" and xs
    using that by (induction xs) auto
  show ?thesis unfolding summarizeDoD_counts by (rule split3) simp
qed

section \<open>The signature\<close>

lemma signature_of_approved:
  "mset (map criterion_signature (filter isApprovedDoDCriterion (resolveDoDCriteria d)))
     = mset (map criterion_signature (filter isApprovedDoDCriterion (resolveDoDCriteria d')))
   \<Longrightarrow> dodProgressSignature d = dodProgressSignature d'"
  unfolding dodProgressSignature_def by (metis sorted_list_of_multiset_mset)

lemma resolveDoDCriteria_Some [simp]: "resolveDoDCriteria (Some cs) = cs"
  by (simp add: resolveDoDCriteria_def)

lemma unapproved_entries_are_invisible:
  assumes "list_all (\<lambda>c. \<not> isApprovedDoDCriterion c) ps"
  shows "dodProgressSignature (Some (resolveDoDCriteria d @ ps)) = dodProgressSignature d"
    and "hasDefinitionOfDone (Some (resolveDoDCriteria d @ ps)) = hasDefinitionOfDone d"
    and "summarizeDoD (Some (resolveDoDCriteria d @ ps))
          = (summarizeDoD d)\<lparr>ds_proposed := ds_proposed (summarizeDoD d) + length ps\<rparr>"
proof -
  have none: "filter isApprovedDoDCriterion ps = []"
    "filter (\<lambda>c. isApprovedDoDCriterion c \<and> P c) ps = []"
    "filter (\<lambda>c. \<not> isApprovedDoDCriterion c) ps = ps" for P
    using assms by (induction ps) simp_all
  show "dodProgressSignature (Some (resolveDoDCriteria d @ ps)) = dodProgressSignature d"
    by (simp add: dodProgressSignature_def none)
  show "hasDefinitionOfDone (Some (resolveDoDCriteria d @ ps)) = hasDefinitionOfDone d"
    using assms by (auto simp: hasDefinitionOfDone_def list_ex_iff list_all_iff)
  show "summarizeDoD (Some (resolveDoDCriteria d @ ps))
          = (summarizeDoD d)\<lparr>ds_proposed := ds_proposed (summarizeDoD d) + length ps\<rparr>"
    by (simp add: summarizeDoD_def fold_count_criterion Let_def empty_summary_def none)
qed

section \<open>What the validator accepts\<close>

definition criterion_ok :: "json \<Rightarrow> bool" where
  "criterion_ok e \<longleftrightarrow> is_object e
     \<and> criterion_id e \<noteq> [] \<and> length (criterion_id e) \<le> MAX_DOD_ID_CHARS
     \<and> (\<exists>t. own_prop e ''text'' = JStr t \<and> js_trim t \<noteq> [] \<and> length t \<le> MAX_DOD_TEXT_CHARS)
     \<and> own_prop e ''status'' \<in> set (map JStr GOAL_DOD_STATUSES)
     \<and> (own_prop e ''source'' = JUndef \<or> own_prop e ''source'' \<in> set (map JStr GOAL_DOD_SOURCES))
     \<and> optional_text_ok MAX_DOD_EVIDENCE_CHARS (own_prop e ''evidence'')
     \<and> optional_text_ok MAX_DOD_NOTE_CHARS (own_prop e ''note'')"

lemma text_errors_Nil: "text_errors i e = [] \<longleftrightarrow>
    (\<exists>t. own_prop e ''text'' = JStr t \<and> js_trim t \<noteq> [] \<and> length t \<le> MAX_DOD_TEXT_CHARS)"
  by (auto simp: text_errors_def split: json.splits)

lemma validate_criteria_Nil: "validate_criteria seen es = [] \<longleftrightarrow>
    (\<forall>e\<in>set es. criterion_ok e) \<and> distinct (map criterion_id es)
    \<and> (\<forall>e\<in>set es. criterion_id e \<notin> seen)"
proof (induction es arbitrary: seen)
  case Nil
  then show ?case by simp
next
  case (Cons e es)
  have one: "(is_object e \<and> criterion_id e \<noteq> [] \<and> \<not> length (criterion_id e) > MAX_DOD_ID_CHARS
      \<and> field_errors (criterion_id e) e = []) \<longleftrightarrow> criterion_ok e"
    unfolding criterion_ok_def field_errors_def text_errors_Nil append_is_Nil_conv by auto
  have "validate_criteria seen (e # es) = [] \<longleftrightarrow> criterion_ok e \<and> criterion_id e \<notin> seen
      \<and> validate_criteria (insert (criterion_id e) seen) es = []"
    unfolding one [symmetric] by (auto simp: Let_def)
  also have "\<dots> \<longleftrightarrow> (\<forall>x\<in>set (e # es). criterion_ok x) \<and> distinct (map criterion_id (e # es))
      \<and> (\<forall>x\<in>set (e # es). criterion_id x \<notin> seen)"
    unfolding Cons.IH by (auto simp: image_iff)
  finally show ?case .
qed

lemma validateDoDCriteria_Nil: "validateDoDCriteria (JArr es) = [] \<longleftrightarrow>
    length es \<le> MAX_GOAL_DOD_CRITERIA \<and> (\<forall>e\<in>set es. criterion_ok e)
    \<and> distinct (map criterion_id es) \<and> json_text_length (JArr es) \<le> MAX_GOAL_DOD_JSON_CHARS"
  unfolding validateDoDCriteria_def json.case append_is_Nil_conv validate_criteria_Nil by auto

section \<open>Normalization\<close>

lemma normalize_criterion_props:
  assumes "normalize_criterion stamp e = Some c"
  obtains i t ev nt where "own_prop e ''id'' = JStr i" "own_prop e ''text'' = JStr t"
    and "normalizeOptionalText (own_prop e ''evidence'') MAX_DOD_EVIDENCE_CHARS = Some ev"
    and "normalizeOptionalText (own_prop e ''note'') MAX_DOD_NOTE_CHARS = Some nt"
    and "is_object c"
    and "own_prop c ''id'' = JStr (take MAX_DOD_ID_CHARS (js_trim i))"
    and "own_prop c ''text'' = JStr (take MAX_DOD_TEXT_CHARS (js_trim t))"
    and "own_prop c ''status'' = own_prop e ''status''"
    and "own_prop c ''evidence'' = ev" and "own_prop c ''note'' = nt"
    and "own_prop c ''source'' = js_or_else (own_prop e ''source'') (JStr ''operator'')"
    and "own_prop c ''updatedAt'' = js_or_else (own_prop e ''updatedAt'') (JStr stamp)"
    and "own_prop c ''proposed'' = (if own_prop e ''proposed'' = JBool True then JBool True else JUndef)"
  using assms that by (auto simp: normalize_criterion_def is_object_def split: json.splits option.splits)

lemma normalize_keeps_approval:
  "normalize_criterion stamp e = Some c \<Longrightarrow> isApprovedDoDCriterion c = isApprovedDoDCriterion e"
  by (erule normalize_criterion_props) (simp add: isApprovedDoDCriterion_def)

lemma normalizeOptionalText_ok:
  assumes "optional_text_ok bound v"
  obtains w where "normalizeOptionalText v bound = Some w" "optional_text_ok bound w"
    "normalizeOptionalText w bound = Some w" "w \<noteq> JUndef"
proof (cases v)
  case (JStr s)
  have len: "length (js_trim s) \<le> bound"
    using assms length_js_trim_le [of s] JStr by (simp add: optional_text_ok_def)
  show ?thesis
    by (rule that [of "if js_trim s = [] then JNull else JStr (js_trim s)"])
      (use JStr len in \<open>auto simp: normalizeOptionalText_def optional_text_ok_def\<close>)
qed (use assms that [of JNull] in \<open>auto simp: normalizeOptionalText_def optional_text_ok_def\<close>)

lemma ok_criterion_normalizes:
  assumes "criterion_ok e"
  obtains c where "normalize_criterion stamp e = Some c" "criterion_ok c"
    "own_prop c ''id'' = JStr (criterion_id e)" "criterion_id c = criterion_id e"
    "own_prop c ''status'' = own_prop e ''status''"
    "\<And>stamp'. normalize_criterion stamp' c = Some c"
proof -
  obtain i where i: "own_prop e ''id'' = JStr i" "js_trim i \<noteq> []" "criterion_id e = js_trim i"
    "length (js_trim i) \<le> MAX_DOD_ID_CHARS"
    using assms by (auto simp: criterion_ok_def criterion_id_def split: json.splits)
  obtain t where t: "own_prop e ''text'' = JStr t" "js_trim t \<noteq> []" "length t \<le> MAX_DOD_TEXT_CHARS"
    using assms by (auto simp: criterion_ok_def)
  have tlen: "length (js_trim t) \<le> MAX_DOD_TEXT_CHARS" using t(3) length_js_trim_le [of t] by simp
  obtain ev where ev: "normalizeOptionalText (own_prop e ''evidence'') MAX_DOD_EVIDENCE_CHARS = Some ev"
    "optional_text_ok MAX_DOD_EVIDENCE_CHARS ev"
    "normalizeOptionalText ev MAX_DOD_EVIDENCE_CHARS = Some ev" "ev \<noteq> JUndef"
    using assms by (auto simp: criterion_ok_def elim: normalizeOptionalText_ok)
  obtain nt where nt: "normalizeOptionalText (own_prop e ''note'') MAX_DOD_NOTE_CHARS = Some nt"
    "optional_text_ok MAX_DOD_NOTE_CHARS nt"
    "normalizeOptionalText nt MAX_DOD_NOTE_CHARS = Some nt" "nt \<noteq> JUndef"
    using assms by (auto simp: criterion_ok_def elim: normalizeOptionalText_ok)
  define c where "c = JObj (
     [(''id'', JStr (js_trim i)), (''text'', JStr (js_trim t)), (''status'', own_prop e ''status''),
      (''evidence'', ev), (''note'', nt),
      (''source'', js_or_else (own_prop e ''source'') (JStr ''operator'')),
      (''updatedAt'', js_or_else (own_prop e ''updatedAt'') (JStr stamp))]
     @ (if own_prop e ''proposed'' = JBool True then [(''proposed'', JBool True)] else []))"
  have n: "normalize_criterion stamp e = Some c"
    using i t tlen ev nt by (simp add: normalize_criterion_def c_def)
  have id: "own_prop c ''id'' = JStr (js_trim i)" by (simp add: c_def)
  have cid: "criterion_id c = criterion_id e" by (simp add: criterion_id_def [of c] id i)
  have src: "js_or_else (own_prop e ''source'') (JStr ''operator'') \<in> set (map JStr GOAL_DOD_SOURCES)"
    using assms by (auto simp: criterion_ok_def js_or_else_def GOAL_DOD_SOURCES_def)
  have ok: "criterion_ok c"
    unfolding criterion_ok_def cid
    using assms t tlen ev nt src
    by (auto simp: c_def is_object_def criterion_ok_def)
  have again: "normalize_criterion stamp' c = Some c" for stamp'
  proof -
    have src': "js_or_else (js_or_else (own_prop e ''source'') (JStr ''operator'')) (JStr ''operator'')
        = js_or_else (own_prop e ''source'') (JStr ''operator'')"
      by (simp add: js_or_else_def)
    have up: "js_or_else (js_or_else (own_prop e ''updatedAt'') (JStr stamp)) (JStr stamp')
        = js_or_else (own_prop e ''updatedAt'') (JStr stamp)"
      by (simp add: js_or_else_def)
    show ?thesis
      using i tlen ev nt src' up by (simp add: normalize_criterion_def c_def)
  qed
  show ?thesis
  proof (rule that [OF n ok])
    show "own_prop c ''id'' = JStr (criterion_id e)" using id i by simp
    show "own_prop c ''status'' = own_prop e ''status''" by (simp add: c_def)
  qed (rule cid, rule again)
qed

lemma those_map_Some:
  "(\<And>x. x \<in> set xs \<Longrightarrow> f x = Some (g x)) \<Longrightarrow> those (map f xs) = Some (map g xs)"
  by (induction xs) auto

lemma those_eq_Some: "those xs = Some ys \<Longrightarrow> xs = map Some ys"
  by (induction xs arbitrary: ys) (auto split: option.splits)

text \<open>A list of acceptable criteria normalizes, to criteria that are acceptable and stay as they are.\<close>

lemma ok_list_normalizes:
  assumes "\<forall>e\<in>set es. criterion_ok e"
  obtains cs where "normalizeDoDCriteria es stamp = Some cs" "\<forall>c\<in>set cs. criterion_ok c"
    "map (\<lambda>c. own_prop c ''id'') cs = map (\<lambda>e. JStr (criterion_id e)) es"
    "map criterion_id cs = map criterion_id es"
    "map (\<lambda>c. own_prop c ''status'') cs = map (\<lambda>e. own_prop e ''status'') es"
    "map isApprovedDoDCriterion cs = map isApprovedDoDCriterion es"
    "\<And>stamp'. normalizeDoDCriteria cs stamp' = Some cs"
proof -
  define g where "g e = the (normalize_criterion stamp e)" for e
  have g: "normalize_criterion stamp e = Some (g e)" "criterion_ok (g e)"
    "own_prop (g e) ''id'' = JStr (criterion_id e)" "criterion_id (g e) = criterion_id e"
    "own_prop (g e) ''status'' = own_prop e ''status''"
    "normalize_criterion stamp' (g e) = Some (g e)" if "e \<in> set es" for e stamp'
    using ok_criterion_normalizes [of e stamp] assms that unfolding g_def
    by (metis option.sel)+
  have 1: "normalizeDoDCriteria es stamp = Some (map g es)"
    unfolding normalizeDoDCriteria_def using g(1) by (rule those_map_Some)
  have 2: "normalizeDoDCriteria (map g es) stamp' = Some (map g es)" for stamp'
    unfolding normalizeDoDCriteria_def map_map comp_def using g(6) by (rule those_map_Some)
  have 3: "isApprovedDoDCriterion (g e) = isApprovedDoDCriterion e" if "e \<in> set es" for e
    using normalize_keeps_approval g(1) that by blast
  show ?thesis
    by (rule that [OF 1]) (use g 3 2 in \<open>auto simp: comp_def\<close>)
qed

end
