(* ===== verification/Goal_Rules_Laws.thy ===== *)
theory Goal_Rules_Laws
  imports Goal_Rules
begin

text \<open>
  Laws of the decision: when it dispatches, what a dispatch carries, and which stop wins.
\<close>

definition routing_open :: "goal_loop_input \<Rightarrow> bool" where
  "routing_open inp \<longleftrightarrow> gi_loopStatus inp = Some LoopRunning \<and> \<not> ds_complete (gi_dod inp)
     \<and> \<not> gi_workUnavailable inp \<and> \<not> gi_workUnreadable inp \<and> \<not> spend_cap_reached inp
     \<and> wall_clock_passed inp = None \<and> \<not> no_progress inp"

lemma js_trunc_int [simp]: "js_trunc (of_int i) = i"
  by (simp add: js_trunc_def)

lemma js_trunc_nat [simp]: "js_trunc (of_nat n) = int n"
  using js_trunc_int [of "int n"] by simp

lemma ceiling_ge_1: "1 \<le> resolveMaxConcurrentIterations raw"
  by (auto simp: resolveMaxConcurrentIterations_def split: option.splits js_number.splits)

lemma runs_nonneg: "0 \<le> resolveRunsInFlight inp"
  by (auto simp: resolveRunsInFlight_def split: option.splits js_number.splits)

lemma awaiting_nonneg: "0 \<le> resolveAwaitingMerge raw"
  by (auto simp: resolveAwaitingMerge_def split: option.splits js_number.splits)

lemma free_slots_le: "free_slots inp \<le> resolveMaxConcurrentIterations (gi_maxConcurrentIterations inp)"
  using runs_nonneg [of inp] awaiting_nonneg [of "gi_pullRequestsAwaitingMerge inp"]
  by (simp add: free_slots_def)

section \<open>Routing\<close>

lemma route_action [simp]: "dc_action (route inp) = ActDispatch"
  by (auto simp: route_def dispatch_decision_def Let_def split: option.splits)

definition slot_numbers :: "goal_loop_input \<Rightarrow> int list" where
  "slot_numbers inp = map (\<lambda>k. gi_iteration inp + 1 + int k) [0..<nat (free_slots inp)]"

text \<open>The candidate of an iteration: the pin when there is one, else round-robin.\<close>

definition routed_candidate :: "goal_loop_input \<Rightarrow> int \<Rightarrow> goal_candidate" where
  "routed_candidate inp i = (case List.find (\<lambda>c. ca_source c = FromAssigned) (gi_candidates inp) of
      Some p \<Rightarrow> p | None \<Rightarrow> round_robin (gi_candidates inp) i)"

lemma route_slots:
  "dc_iterations (route inp) = slot_numbers inp"
  "dc_agentIds (route inp) = map (\<lambda>i. ca_agentId (routed_candidate inp i)) (slot_numbers inp)"
  by (auto simp: route_def dispatch_decision_def Let_def slot_numbers_def routed_candidate_def comp_def
      split: option.splits)

lemma round_robin_member:
  assumes "cs \<noteq> []"
  shows "round_robin cs i \<in> set cs"
proof -
  have "0 \<le> i mod int (length cs)" "i mod int (length cs) < int (length cs)" using assms by simp_all
  then have "nat (i mod int (length cs)) < length cs" by linarith
  then show ?thesis by (simp add: round_robin_def)
qed

lemma routed_candidate_member:
  "gi_candidates inp \<noteq> [] \<Longrightarrow> routed_candidate inp i \<in> set (gi_candidates inp)"
  by (auto simp: routed_candidate_def round_robin_member dest: find_SomeD split: option.splits)

section \<open>The branches\<close>

lemma decide_when_open: "routing_open inp \<Longrightarrow> decideGoalLoop inp = decide_capacity inp"
  by (simp add: decideGoalLoop_def routing_open_def)

lemma decide_when_closed:
  "\<not> routing_open inp \<Longrightarrow> dc_action (decideGoalLoop inp) \<noteq> ActDispatch \<and> dc_iterations (decideGoalLoop inp) = []"
  by (auto simp: decideGoalLoop_def routing_open_def plain_decision_def decide_wall_clock_def split: option.splits)

lemma capacity_full: "free_slots inp \<le> 0 \<Longrightarrow> dc_action (decide_capacity inp) = ActWait"
  by (simp add: decide_capacity_def Let_def plain_decision_def free_slots_def)

lemma capacity_free:
  assumes "0 < free_slots inp"
  shows "decide_capacity inp = (if gi_candidates inp = []
    then plain_decision ActStuck NoCandidateAgent NobodyToRoute else route inp)"
proof -
  note free = assms [unfolded free_slots_def] awaiting_nonneg [of "gi_pullRequestsAwaitingMerge inp"]
  have "\<not> resolveMaxConcurrentIterations (gi_maxConcurrentIterations inp) \<le> resolveRunsInFlight inp
      + resolveAwaitingMerge (gi_pullRequestsAwaitingMerge inp)"
    "\<not> resolveMaxConcurrentIterations (gi_maxConcurrentIterations inp) \<le> resolveRunsInFlight inp"
    using free by linarith+
  then show ?thesis by (simp add: decide_capacity_def Let_def)
qed

lemma capacity_cases:
  obtains (full) "free_slots inp \<le> 0" "dc_action (decide_capacity inp) = ActWait"
  | (nobody) "0 < free_slots inp" "gi_candidates inp = []" "dc_action (decide_capacity inp) = ActStuck"
  | (route) "0 < free_slots inp" "gi_candidates inp \<noteq> []" "decide_capacity inp = route inp"
proof (cases "free_slots inp \<le> 0")
  case True
  then show thesis using full capacity_full by blast
next
  case False
  then have "0 < free_slots inp" by simp
  then show thesis
    using capacity_free nobody route by (cases "gi_candidates inp = []") (auto simp: plain_decision_def)
qed

theorem decide_dispatches_iff:
  "dc_action (decideGoalLoop inp) = ActDispatch
   \<longleftrightarrow> routing_open inp \<and> 0 < free_slots inp \<and> gi_candidates inp \<noteq> []"
proof (cases "routing_open inp")
  case True
  show ?thesis
    unfolding decide_when_open [OF True] using True by (cases inp rule: capacity_cases) auto
next
  case False
  then show ?thesis using decide_when_closed by blast
qed

lemma dispatch_is_route:
  assumes "dc_action (decideGoalLoop inp) = ActDispatch"
  shows "decideGoalLoop inp = route inp" "routing_open inp" "0 < free_slots inp" "gi_candidates inp \<noteq> []"
proof -
  show o: "routing_open inp" "0 < free_slots inp" "gi_candidates inp \<noteq> []"
    using assms unfolding decide_dispatches_iff by simp_all
  show "decideGoalLoop inp = route inp"
    using o decide_when_open [OF o(1)] by (cases inp rule: capacity_cases) auto
qed

lemma slot_numbers_length [simp]: "length (slot_numbers inp) = nat (free_slots inp)"
  by (simp add: slot_numbers_def)

lemma hd_slot_numbers: "0 < free_slots inp \<Longrightarrow> hd (slot_numbers inp) = gi_iteration inp + 1"
  by (simp add: slot_numbers_def hd_map upt_conv_Cons)

section \<open>Stops\<close>

lemma decide_complete_iff:
  "dc_action (decideGoalLoop inp) = ActComplete
   \<longleftrightarrow> gi_loopStatus inp = Some LoopRunning \<and> ds_complete (gi_dod inp)"
  by (auto simp: decideGoalLoop_def plain_decision_def decide_wall_clock_def split: option.splits)
    (metis capacity_cases loop_action.distinct route_action)

lemma cap_reached_pauses:
  assumes "gi_loopStatus inp = Some LoopRunning" "\<not> ds_complete (gi_dod inp)"
    "spend_cap_reached inp" "\<not> gi_workUnreadable inp"
  shows "dc_action (decideGoalLoop inp) = ActPause"
  using assms by (simp add: decideGoalLoop_def plain_decision_def)

lemma clock_pauses:
  assumes "gi_loopStatus inp = Some LoopRunning" "\<not> ds_complete (gi_dod inp)" "\<not> gi_workUnreadable inp"
    "wall_clock_passed inp = Some (h, e)" "\<not> gi_hasRunInFlight inp \<or> h * MS_PER_HOUR + grace_ms inp \<le> e"
  shows "dc_action (decideGoalLoop inp) = ActPause"
  using assms by (auto simp: decideGoalLoop_def plain_decision_def decide_wall_clock_def)

text \<open>The decision sees of the checklist only the counts of the approved entries.\<close>

lemma decide_ignores_proposed:
  "decideGoalLoop (inp\<lparr>gi_dod := (gi_dod inp)\<lparr>ds_proposed := n\<rparr>\<rparr>) = decideGoalLoop inp"
proof -
  have same: "spend_cap_reached (inp\<lparr>gi_dod := d\<rparr>) = spend_cap_reached inp"
    "wall_clock_passed (inp\<lparr>gi_dod := d\<rparr>) = wall_clock_passed inp"
    "no_progress (inp\<lparr>gi_dod := d\<rparr>) = no_progress inp"
    "decide_wall_clock (inp\<lparr>gi_dod := d\<rparr>) h e = decide_wall_clock inp h e"
    "free_slots (inp\<lparr>gi_dod := d\<rparr>) = free_slots inp"
    "resolveRunsInFlight (inp\<lparr>gi_dod := d\<rparr>) = resolveRunsInFlight inp" for d h e
    by (simp_all add: spend_cap_reached_def wall_clock_passed_def elapsed_ms_def no_progress_def
        decide_wall_clock_def grace_ms_def free_slots_def resolveRunsInFlight_def
        cong: option.case_cong if_cong)
  have "decide_capacity (inp\<lparr>gi_dod := d\<rparr>) = decide_capacity inp" for d
    by (simp add: decide_capacity_def route_def same Let_def)
  then show ?thesis by (cases "wall_clock_passed inp") (simp_all add: decideGoalLoop_def same split: prod.split)
qed

end
