(* ===== verification/Goal_Laws.thy ===== *)
theory Goal_Laws
  imports Goal_Kind Goal_Dod_Laws Goal_Rules_Laws
begin

text \<open>
  What a tick and each operation do to the rows: the Tasks and runs a dispatch adds, the columns a
  decision may write, and the well-formedness both keep.
\<close>

section \<open>Well-formed rows\<close>

definition tables_ok :: "goal_world \<Rightarrow> bool" where
  "tables_ok w \<longleftrightarrow> map gt_id (gw_tasks w) = [0..<length (gw_tasks w)]
     \<and> map gr_id (gw_runs w) = [0..<length (gw_runs w)]
     \<and> (\<forall>r\<in>set (gw_runs w). gr_taskId r < length (gw_tasks w))"

definition active_runs :: "goal_world \<Rightarrow> nat" where
  "active_runs w = length (filter is_active (gw_runs w))"

definition checklist_ok :: "json list option \<Rightarrow> bool" where
  "checklist_ok dod \<longleftrightarrow> (\<forall>e\<in>set (resolveDoDCriteria dod). criterion_ok e)
     \<and> distinct (map criterion_id (resolveDoDCriteria dod))
     \<and> length (resolveDoDCriteria dod) \<le> MAX_GOAL_DOD_CRITERIA"

definition in_range :: "int option \<Rightarrow> int \<Rightarrow> int \<Rightarrow> bool" where
  "in_range v lo hi \<longleftrightarrow> (case v of None \<Rightarrow> True | Some i \<Rightarrow> lo \<le> i \<and> i \<le> hi)"

definition limits_ok :: "goal_row \<Rightarrow> bool" where
  "limits_ok g \<longleftrightarrow> in_range (gl_spendCapCents g) 0 MAX_SPEND_CAP_CENTS
     \<and> in_range (gl_wallClockLimitHours g) 1 MAX_WALL_CLOCK_LIMIT_HOURS
     \<and> in_range (gl_stuckThresholdIterations g) 1 MAX_STUCK_THRESHOLD_ITERATIONS
     \<and> in_range (gl_maxConcurrentIterations g) 1 MAX_CONCURRENT_ITERATIONS
     \<and> in_range (gl_gracePeriodMinutes g) 0 MAX_GRACE_PERIOD_MINUTES"

definition loop_ok :: "goal_row \<Rightarrow> bool" where
  "loop_ok g \<longleftrightarrow> (gl_loopStatus g = Some LoopRunning \<longrightarrow> gl_archivedAt g = None \<and> gl_loopStartedAt g \<noteq> None)
     \<and> 0 \<le> gl_lastProgressIteration g \<and> gl_lastProgressIteration g \<le> gl_iteration g"

definition dod_ok :: "goal_row \<Rightarrow> bool" where
  "dod_ok g \<longleftrightarrow> checklist_ok (gl_dodCriteria g)
     \<and> (gl_delivery g \<longrightarrow> hasDefinitionOfDone (gl_dodCriteria g))"

definition row_ok :: "goal_row \<Rightarrow> bool" where
  "row_ok g \<longleftrightarrow> loop_ok g \<and> dod_ok g \<and> limits_ok g"

section \<open>Log lines touch the log only\<close>

lemma recordEvent_rows [simp]:
  "gw_goal (recordEvent k m a t i w) = gw_goal w" "gw_tasks (recordEvent k m a t i w) = gw_tasks w"
  "gw_runs (recordEvent k m a t i w) = gw_runs w"
  by (simp_all add: recordEvent_def)

lemma log_line_rows [simp]:
  "gw_goal (log_line k m w) = gw_goal w" "gw_tasks (log_line k m w) = gw_tasks w"
  "gw_runs (log_line k m w) = gw_runs w"
  by (simp_all add: log_line_def)

lemma log_dispatch_rows [simp]:
  "gw_goal (log_dispatch s w) = gw_goal w" "gw_tasks (log_dispatch s w) = gw_tasks w"
  "gw_runs (log_dispatch s w) = gw_runs w"
  by (simp_all add: log_dispatch_def)

lemma fold_log_dispatch_rows [simp]:
  "gw_goal (fold log_dispatch ss w) = gw_goal w" "gw_tasks (fold log_dispatch ss w) = gw_tasks w"
  "gw_runs (fold log_dispatch ss w) = gw_runs w"
  by (induction ss arbitrary: w) simp_all

lemma recordWaitOnce_rows [simp]:
  "gw_goal (recordWaitOnce r w) = gw_goal w" "gw_tasks (recordWaitOnce r w) = gw_tasks w"
  "gw_runs (recordWaitOnce r w) = gw_runs w"
  by (auto simp: recordWaitOnce_def split: list.splits)

lemma refresh_spend_rows [simp]:
  "gw_tasks (refresh_spend w) = gw_tasks w" "gw_runs (refresh_spend w) = gw_runs w"
  "gw_goal (refresh_spend w) = (gw_goal w)\<lparr>gl_spentCents := computeSpend w\<rparr>"
  by (simp_all add: refresh_spend_def)

lemma add_run_rows [simp]: "gw_goal (add_run r w) = gw_goal w" "gw_tasks (add_run r w) = gw_tasks w"
  by (simp_all add: add_run_def split: option.splits)

section \<open>The slots of a dispatch\<close>

definition slot_key :: "goal_slot \<Rightarrow> int \<times> string" where
  "slot_key s = (sl_iteration s, sl_agentId s)"

lemma slot_key_make_slot [simp]: "slot_key (make_slot i a t r out) = (i, a)"
  by (simp add: slot_key_def make_slot_def)

lemma add_task_ok: "tables_ok w \<Longrightarrow> tables_ok (add_task (create_iteration_task i a w) w)"
  by (auto simp: tables_ok_def add_task_def create_iteration_task_def)

lemma add_run_ok:
  assumes "tables_ok w" "tid < length (gw_tasks w)"
  shows "tables_ok (add_run (dispatch_run_row out tid a w) w)"
    and "active_runs (add_run (dispatch_run_row out tid a w) w) \<le> active_runs w + 1"
  using assms by (auto simp: tables_ok_def add_run_def dispatch_run_row_def active_runs_def Let_def
      split: dispatch_outcome.splits)

lemma dispatch_slots_effect:
  assumes "dispatch_slots outcome pairs slots w = (res, w')" "tables_ok w"
  shows "gw_goal w' = gw_goal w \<and> tables_ok w' \<and> length (gw_tasks w) \<le> length (gw_tasks w')
     \<and> active_runs w' \<le> active_runs w + length pairs
     \<and> (case res of Inl e \<Rightarrow> slots = [] \<and> pairs \<noteq> []
        | Inr ss \<Rightarrow> \<exists>n\<le>length pairs. map slot_key ss = map slot_key slots @ take n pairs
                      \<and> (slots = [] \<longrightarrow> pairs \<noteq> [] \<longrightarrow> 0 < n))"
  using assms
proof (induction outcome pairs slots w rule: dispatch_slots.induct)
  case (1 outcome slots w)
  then show ?case by auto
next
  case (2 outcome i a rest slots w)
  define t where "t = create_iteration_task i a w"
  define w1 where "w1 = add_task t w"
  have w1: "gw_goal w1 = gw_goal w" "tables_ok w1" "active_runs w1 = active_runs w"
    "length (gw_tasks w1) = Suc (length (gw_tasks w))" "gt_id t < length (gw_tasks w1)"
    using add_task_ok [OF "2.prems"(2)] unfolding w1_def t_def
    by (simp_all add: add_task_def active_runs_def create_iteration_task_def)
  have stop: ?case if "(res, w') = (if slots = [] then Inl (Threw e) else Inr slots, w)
      \<or> (res, w') = (if slots = [] then Inl (Threw e) else Inr slots, w1)" for e
    using that w1 "2.prems"(2) by (cases "slots = []") auto
  show ?case
  proof (cases "outcome (length slots)")
    case (CreateThrows e)
    then have "(if slots = [] then Inl (Threw e) else Inr slots, w) = (res, w')"
      using "2.prems"(1) by (simp only: dispatch_slots.simps Let_def slot_outcome.case)
    then show ?thesis by (intro stop [of e]) simp
  next
    case (DispatchThrows e)
    then have "(if slots = [] then Inl (Threw e) else Inr slots, w1) = (res, w')"
      using "2.prems"(1) by (simp only: dispatch_slots.simps Let_def slot_outcome.case w1_def t_def)
    then show ?thesis by (intro stop [of e]) simp
  next
    case (DispatchReturns out)
    define r where "r = dispatch_run_row out (gt_id t) a w1"
    define s where "s = make_slot i a t r out"
    note added = add_run_ok [OF w1(2,5), of out a, folded r_def]
    have go: "dispatch_slots outcome rest (slots @ [s]) (add_run r w1) = (res, w')"
      using "2.prems"(1) DispatchReturns
      by (simp only: dispatch_slots.simps Let_def slot_outcome.case t_def w1_def r_def s_def)
    note IH = "2.IH" [OF t_def w1_def DispatchReturns r_def, folded s_def, OF go added(1)]
    have key: "slot_key s = (i, a)" by (simp add: s_def)
    show ?thesis
    proof (cases res)
      case (Inl e)
      then show ?thesis using IH by simp
    next
      case (Inr ss)
      then obtain n where "n \<le> length rest" "map slot_key ss = map slot_key slots @ (i, a) # take n rest"
        using IH key by auto
      then have "\<exists>m\<le>length ((i, a) # rest). map slot_key ss = map slot_key slots @ take m ((i, a) # rest) \<and> 0 < m"
        by (intro exI [of _ "Suc n"]) simp
      then show ?thesis using IH w1 added Inr by auto
    qed
  qed
qed

section \<open>One tick\<close>

definition tick_input :: "goal_env \<Rightarrow> bool \<Rightarrow> goal_candidate list \<Rightarrow> goal_world \<Rightarrow> goal_loop_input" where
  "tick_input env forced cs w = decision_input env forced cs (refresh_spend w)"

lemma slot_pairs_route:
  assumes "0 < free_slots inp"
  shows "slot_pairs g (route inp) = map (\<lambda>i. (i, ca_agentId (routed_candidate inp i))) (slot_numbers inp)"
proof -
  have ne: "slot_numbers inp \<noteq> []" using assms by (metis slot_numbers_length length_0_conv not_le zero_less_nat_eq le_refl)
  show ?thesis
    unfolding slot_pairs_def Let_def route_slots using ne
    by (auto intro!: nth_equalityI)
qed

lemma applyDispatch_effect:
  assumes "applyDispatch env d w = (res, w')" "tables_ok w" "slot_pairs (gw_goal w) d \<noteq> []"
  shows "tables_ok w' \<and> length (gw_tasks w) \<le> length (gw_tasks w')
     \<and> active_runs w' \<le> active_runs w + length (slot_pairs (gw_goal w) d)
     \<and> (gw_goal w' = gw_goal w
        \<or> (\<exists>i a. (i, a) \<in> set (slot_pairs (gw_goal w) d)
              \<and> gw_goal w' = (gw_goal w)\<lparr>gl_iteration := i, gl_activeAgentId := Some a\<rparr>))"
proof (cases "en_tasksRuntime env")
  case False
  then have "gw_goal w' = gw_goal w \<and> gw_tasks w' = gw_tasks w \<and> gw_runs w' = gw_runs w"
    using assms(1) by (auto simp: applyDispatch_def Let_def split: prod.splits)
  then show ?thesis using assms(2) by (simp add: tables_ok_def active_runs_def)
next
  case True
  define pairs where "pairs = slot_pairs (gw_goal w) d"
  obtain i0 a0 where hd: "hd pairs = (i0, a0)" by fastforce
  define w0 where "w0 = recordEvent EvRoute (Decided (dc_reasoning d)) (Some a0) None (Some i0) w"
  have w0: "gw_goal w0 = gw_goal w" "gw_tasks w0 = gw_tasks w" "gw_runs w0 = gw_runs w" "tables_ok w0"
    using assms(2) by (simp_all add: w0_def tables_ok_def)
  obtain r1 w1 where sl: "dispatch_slots (en_slot env) pairs [] w0 = (r1, w1)" by fastforce
  note eff = dispatch_slots_effect [OF sl w0(4)]
  show ?thesis
  proof (cases r1)
    case (Inl e)
    then have "w' = w1"
      using assms(1) True sl hd by (simp add: applyDispatch_def Let_def pairs_def w0_def)
    then show ?thesis using eff w0 by (auto simp: active_runs_def pairs_def)
  next
    case (Inr ss)
    then obtain n where n: "n \<le> length pairs" "map slot_key ss = take n pairs" "0 < n"
      using eff assms(3) by (auto simp: pairs_def)
    then have ne: "ss \<noteq> []" by (metis assms(3) pairs_def list.map_disc_iff take_eq_Nil not_less0)
    have "slot_key (last ss) \<in> set pairs"
      using n(2) ne by (metis in_set_takeD last_in_set last_map list.map_disc_iff)
    moreover have w': "w' = fold log_dispatch ss (w1\<lparr>gw_goal := (gw_goal w1)\<lparr>gl_iteration := sl_iteration (last ss),
        gl_activeAgentId := Some (sl_agentId (last ss))\<rparr>\<rparr>)"
      using assms(1) True sl hd Inr by (simp add: applyDispatch_def Let_def pairs_def w0_def)
    ultimately show ?thesis
      using eff w0 by (auto simp: active_runs_def tables_ok_def pairs_def slot_key_def)
  qed
qed

text \<open>The three ends of a tick: nothing beyond a log line, a terminal state, or a dispatch.\<close>

lemma advanceOne_cases:
  assumes "advanceOne env forced w = (res, w')"
  obtains (quiet) "gw_goal w' = gw_goal (refresh_spend w)" "gw_tasks w' = gw_tasks w" "gw_runs w' = gw_runs w"
  | (terminal) st where "st \<noteq> LoopRunning" "gw_goal w' = terminal_goal st (gw_goal (refresh_spend w))"
      "gw_tasks w' = gw_tasks w" "gw_runs w' = gw_runs w"
  | (sent) cs where "resolveCandidates env (refresh_spend w) = Inr cs"
      "dc_action (decideGoalLoop (tick_input env forced cs w)) = ActDispatch"
      "applyDispatch env (route (tick_input env forced cs w)) (refresh_spend w) = (res, w')"
proof (cases "resolveCandidates env (refresh_spend w)")
  case (Inl e)
  then have "w' = refresh_spend w" using assms by (simp add: advanceOne_def Let_def)
  then show thesis using quiet by simp
next
  case (Inr cs)
  define inp where "inp = tick_input env forced cs w"
  have step: "apply_decision env (decideGoalLoop inp) (refresh_spend w) = (res, w')"
    using assms Inr by (simp add: advanceOne_def Let_def inp_def tick_input_def)
  show thesis
  proof (cases "dc_action (decideGoalLoop inp)")
    case ActDispatch
    then have "applyDispatch env (route inp) (refresh_spend w) = (res, w')"
      using step dispatch_is_route(1) [OF ActDispatch] by (simp add: apply_decision_def)
    then show thesis using sent [OF Inr] ActDispatch by (simp add: inp_def)
  next
    case ActComplete
    then show thesis using step terminal [of LoopDone] by (auto simp: apply_decision_def applyTerminal_def Let_def)
  next
    case ActPause
    then show thesis using step terminal [of LoopPaused] by (auto simp: apply_decision_def applyTerminal_def Let_def)
  next
    case ActStuck
    then show thesis using step terminal [of LoopStuck] by (auto simp: apply_decision_def applyTerminal_def Let_def)
  next
    case ActWait
    then show thesis using step quiet by (auto simp: apply_decision_def split: if_splits)
  next
    case ActNoop
    then show thesis using step quiet by (auto simp: apply_decision_def split: if_splits)
  qed
qed

end
