(* ===== verification/Goal_Dod_Ops.thy ===== *)
theory Goal_Dod_Ops
  imports Goal_Laws
begin

text \<open>
  The checklist operations keep the checklist well formed and, on a delivery Goal, keep at least one
  approved criterion.
\<close>

lemma then_result_Inr [simp]: "then_result x f = Inr y \<longleftrightarrow> (\<exists>v. x = Inr v \<and> f v = Inr y)"
  by (auto simp: then_result_def split: sum.splits)

lemma assertDod_Inr [simp]: "assertDod v = Inr u \<longleftrightarrow> validateDoDCriteria v = []"
  by (auto simp: assertDod_def)

lemma type_error_Inr [simp]: "type_error x = Inr v \<longleftrightarrow> x = Some v"
  by (auto simp: type_error_def split: option.splits)

lemma write_dod_fields [simp]:
  "gl_dodCriteria (write_dod d g) = d" "gl_delivery (write_dod d g) = gl_delivery g"
  "gl_loopStatus (write_dod d g) = gl_loopStatus g" "gl_archivedAt (write_dod d g) = gl_archivedAt g"
  "gl_loopStartedAt (write_dod d g) = gl_loopStartedAt g" "gl_iteration (write_dod d g) = gl_iteration g"
  "limits_ok (write_dod d g) = limits_ok g"
  by (simp_all add: write_dod_def markProgressIfChanged_def limits_ok_def)

lemma write_dod_loop_ok: "loop_ok g \<Longrightarrow> loop_ok (write_dod d g)"
  by (auto simp: loop_ok_def write_dod_def markProgressIfChanged_def)

section \<open>Stored checklists\<close>

lemma checklist_ok_of_valid: "validateDoDCriteria (JArr es) = [] \<Longrightarrow> checklist_ok (Some es)"
  by (simp add: validateDoDCriteria_Nil checklist_ok_def)

lemma has_definition_map: "hasDefinitionOfDone (Some cs) \<longleftrightarrow> True \<in> set (map isApprovedDoDCriterion cs)"
  by (auto simp: hasDefinitionOfDone_def list_ex_iff)

lemma has_definition_mapI:
  "e \<in> set es \<Longrightarrow> isApprovedDoDCriterion (f e) \<Longrightarrow> hasDefinitionOfDone (Some (map f es))"
  by (auto simp: hasDefinitionOfDone_def list_ex_iff)

lemma normalized_checklist:
  assumes "validateDoDCriteria (JArr es) = []" "normalizeDoDCriteria es stamp = Some cs"
  shows "checklist_ok (Some cs)" "hasDefinitionOfDone (Some cs) = hasDefinitionOfDone (Some es)"
proof -
  have ok: "checklist_ok (Some es)" using checklist_ok_of_valid [OF assms(1)] .
  then have all: "\<forall>e\<in>set es. criterion_ok e" by (simp add: checklist_ok_def)
  obtain cs' where cs': "normalizeDoDCriteria es stamp = Some cs'" "\<forall>c\<in>set cs'. criterion_ok c"
    "map criterion_id cs' = map criterion_id es"
    "map isApprovedDoDCriterion cs' = map isApprovedDoDCriterion es"
    using ok_list_normalizes [OF all] by metis
  then have "cs' = cs" using assms(2) by simp
  moreover have "length cs' = length es" using cs'(3) map_eq_imp_length_eq by blast
  ultimately show "checklist_ok (Some cs)" "hasDefinitionOfDone (Some cs) = hasDefinitionOfDone (Some es)"
    using ok cs' by (simp_all add: checklist_ok_def has_definition_map del: set_map)
qed

section \<open>Reading after a spread\<close>

lemma own_prop_JObj: "own_prop (JObj ps) k = (case map_of ps k of None \<Rightarrow> JUndef | Some v \<Rightarrow> v)"
  by simp

lemma own_prop_update [simp]:
  "own_prop (JObj (AList.update k v ps)) k' = (if k' = k then v else own_prop (JObj ps) k')"
  by (simp add: update_conv')

lemma own_prop_delete [simp]:
  "own_prop (JObj (AList.delete k ps)) k' = (if k' = k then JUndef else own_prop (JObj ps) k')"
  by (simp add: delete_conv' map_upd_Some_unfold)

declare own_prop.simps(1) [simp del]

lemma criterion_is_object: "criterion_ok e \<Longrightarrow> \<exists>ps. e = JObj ps"
  by (cases e) (auto simp: criterion_ok_def criterion_id_def is_object_def)

lemma approve_criterion_ok:
  assumes "criterion_ok e"
  shows "criterion_ok (approve_criterion stamp e)" "criterion_id (approve_criterion stamp e) = criterion_id e"
    "isApprovedDoDCriterion (approve_criterion stamp e)"
    "own_prop (approve_criterion stamp e) ''status'' = own_prop e ''status''"
proof -
  obtain ps where e: "e = JObj ps" using criterion_is_object [OF assms] by blast
  have read: "own_prop (approve_criterion stamp e) k =
      (if k = ''updatedAt'' then JStr stamp else if k = ''proposed'' then JUndef else own_prop e k)" for k
    by (simp add: approve_criterion_def obj_spread_def e)
  show id: "criterion_id (approve_criterion stamp e) = criterion_id e"
    by (simp add: criterion_id_def read)
  show "criterion_ok (approve_criterion stamp e)"
    using assms unfolding criterion_ok_def id
    by (auto simp: read, auto simp: is_object_def approve_criterion_def obj_spread_def)
  show "isApprovedDoDCriterion (approve_criterion stamp e)"
    by (simp add: isApprovedDoDCriterion_def read)
  show "own_prop (approve_criterion stamp e) ''status'' = own_prop e ''status''"
    by (simp add: read)
qed

lemma patched_approval:
  "criterion_ok e \<Longrightarrow> isApprovedDoDCriterion (obj_spread e (patched_fields p @ [(''updatedAt'', v)]))
     = isApprovedDoDCriterion e"
  by (drule criterion_is_object) (auto simp: isApprovedDoDCriterion_def obj_spread_def patched_fields_def
      split: option.splits)

section \<open>The operations\<close>

lemma setDod_ok:
  assumes "setDodCriteria env cs w = Inr w'" "dod_ok (gw_goal w)"
  shows "dod_ok (gw_goal w')"
proof -
  obtain dod where dod: "gw_goal w' = write_dod dod (gw_goal w)"
    "gl_delivery (gw_goal w) \<longrightarrow> cs \<noteq> None \<and> hasDefinitionOfDone cs"
    "case cs of None \<Rightarrow> dod = None | Some es \<Rightarrow> validateDoDCriteria (JArr es) = []
       \<and> (\<exists>ns. normalizeDoDCriteria es (en_stamp env) = Some ns \<and> dod = Some ns)"
    using assms(1) by (auto simp: setDodCriteria_def Let_def split: if_splits option.splits)
  show ?thesis
  proof (cases cs)
    case None
    then show ?thesis using dod by (simp add: dod_ok_def checklist_ok_def resolveDoDCriteria_def)
  next
    case (Some es)
    then show ?thesis using dod normalized_checklist by (auto simp: dod_ok_def)
  qed
qed

lemma proposeDod_parts:
  assumes "proposeDodCriteria env cs w = Inr w'"
  obtains ps where "normalizeDoDCriteria (map as_proposed cs) (en_stamp env) = Some ps"
    "validateDoDCriteria (JArr (resolveDoDCriteria (gl_dodCriteria (gw_goal w)) @ ps)) = []"
    "gw_goal w' = (gw_goal w)\<lparr>gl_dodCriteria := Some (resolveDoDCriteria (gl_dodCriteria (gw_goal w)) @ ps)\<rparr>"
    "gw_tasks w' = gw_tasks w" "gw_runs w' = gw_runs w" "cs \<noteq> []"
  using assms by (auto simp: proposeDodCriteria_def Let_def split: if_splits)

lemma proposeDod_ok:
  assumes "proposeDodCriteria env cs w = Inr w'" "dod_ok (gw_goal w)"
  shows "dod_ok (gw_goal w')"
  using assms(1)
proof (rule proposeDod_parts)
  fix ps
  assume "validateDoDCriteria (JArr (resolveDoDCriteria (gl_dodCriteria (gw_goal w)) @ ps)) = []"
    "gw_goal w' = (gw_goal w)\<lparr>gl_dodCriteria := Some (resolveDoDCriteria (gl_dodCriteria (gw_goal w)) @ ps)\<rparr>"
  then show ?thesis
    using assms(2) checklist_ok_of_valid by (auto simp: dod_ok_def hasDefinitionOfDone_def)
qed

lemma those_length: "those (map f xs) = Some ys \<Longrightarrow> length ys = length xs"
  by (drule those_eq_Some) (metis length_map)

text \<open>Every normalized proposal is unapproved.\<close>

lemma proposals_unapproved:
  assumes "normalizeDoDCriteria (map as_proposed cs) stamp = Some ps"
  shows "list_all (\<lambda>c. \<not> isApprovedDoDCriterion c) ps"
proof -
  have eq: "map (normalize_criterion stamp) (map as_proposed cs) = map Some ps"
    using assms unfolding normalizeDoDCriteria_def by (rule those_eq_Some)
  have "\<not> isApprovedDoDCriterion c" if "c \<in> set ps" for c
  proof -
    have "Some c \<in> set (map (normalize_criterion stamp) (map as_proposed cs))" using that eq by simp
    then obtain e where "normalize_criterion stamp (as_proposed e) = Some c" by auto
    then have "isApprovedDoDCriterion c = isApprovedDoDCriterion (as_proposed e)"
      by (rule normalize_keeps_approval)
    also have "\<not> isApprovedDoDCriterion (as_proposed e)"
      by (simp add: isApprovedDoDCriterion_def as_proposed_def obj_spread_def)
    finally show ?thesis .
  qed
  then show ?thesis by (simp add: list_all_iff)
qed

lemma approveDod_ok:
  assumes "approveDodCriteria env ids w = Inr w'" "dod_ok (gw_goal w)"
  shows "dod_ok (gw_goal w')"
proof -
  let ?es = "resolveDoDCriteria (gl_dodCriteria (gw_goal w))"
  let ?f = "\<lambda>e. if wanted_criterion ids e then approve_criterion (en_stamp env) e else e"
  have w': "gw_goal w' = write_dod (Some (map ?f ?es)) (gw_goal w)"
    using assms(1) by (auto simp: approveDodCriteria_def Let_def split: if_splits)
  have es: "\<forall>e\<in>set ?es. criterion_ok e" "distinct (map criterion_id ?es)"
    "length ?es \<le> MAX_GOAL_DOD_CRITERIA"
    using assms(2) by (simp_all add: dod_ok_def checklist_ok_def)
  have ids: "map criterion_id (map ?f ?es) = map criterion_id ?es"
    using es(1) approve_criterion_ok(2) by simp
  have "checklist_ok (Some (map ?f ?es))"
    unfolding checklist_ok_def resolveDoDCriteria_Some ids length_map
    using es approve_criterion_ok(1) by auto
  moreover have "hasDefinitionOfDone (Some (map ?f ?es))" if "hasDefinitionOfDone (gl_dodCriteria (gw_goal w))"
    using that es(1) approve_criterion_ok(3)
    by (fastforce simp: hasDefinitionOfDone_def list_ex_iff wanted_criterion_def)
  ultimately show ?thesis using assms(2) w' by (simp add: dod_ok_def)
qed

lemma patchDod_parts:
  assumes "patchDodCriterion env cid p w = Inr w'"
  obtains target changed ns where
    "List.find (\<lambda>e. own_prop e ''id'' = JStr cid) (resolveDoDCriteria (gl_dodCriteria (gw_goal w))) = Some target"
    "changed = map (\<lambda>e. if own_prop e ''id'' = JStr cid
        then obj_spread target (patched_fields p @ [(''updatedAt'', JStr (en_stamp env))]) else e)
        (resolveDoDCriteria (gl_dodCriteria (gw_goal w)))"
    "validateDoDCriteria (JArr changed) = []" "normalizeDoDCriteria changed (en_stamp env) = Some ns"
    "gw_goal w' = write_dod (Some ns) (gw_goal w)" "gw_tasks w' = gw_tasks w" "gw_runs w' = gw_runs w"
  using assms by (auto simp: patchDodCriterion_def Let_def split: option.splits)

lemma patchDod_ok:
  assumes "patchDodCriterion env cid p w = Inr w'" "dod_ok (gw_goal w)"
  shows "dod_ok (gw_goal w')"
  using assms(1)
proof (rule patchDod_parts)
  let ?es = "resolveDoDCriteria (gl_dodCriteria (gw_goal w))"
  fix target changed ns
  assume t: "List.find (\<lambda>e. own_prop e ''id'' = JStr cid) ?es = Some target"
    and c: "changed = map (\<lambda>e. if own_prop e ''id'' = JStr cid
        then obj_spread target (patched_fields p @ [(''updatedAt'', JStr (en_stamp env))]) else e) ?es"
    and v: "validateDoDCriteria (JArr changed) = []" "normalizeDoDCriteria changed (en_stamp env) = Some ns"
    and w': "gw_goal w' = write_dod (Some ns) (gw_goal w)"
  have es: "\<forall>e\<in>set ?es. criterion_ok e" "distinct (map criterion_id ?es)"
    using assms(2) by (simp_all add: dod_ok_def checklist_ok_def)
  have target: "target \<in> set ?es" "own_prop target ''id'' = JStr cid" using find_SomeD [OF t] by simp_all
  have "hasDefinitionOfDone (Some changed)" if has: "hasDefinitionOfDone (gl_dodCriteria (gw_goal w))"
  proof -
    obtain e where e: "e \<in> set ?es" "isApprovedDoDCriterion e"
      using has by (auto simp: hasDefinitionOfDone_def list_ex_iff)
    show ?thesis
    proof (cases "own_prop e ''id'' = JStr cid")
      case True
      then have "criterion_id e = criterion_id target" using target(2) by (simp add: criterion_id_def)
      then have "e = target" using es(2) e(1) target(1) by (auto simp: distinct_map inj_on_def)
      then have "isApprovedDoDCriterion (obj_spread target (patched_fields p @ [(''updatedAt'', JStr (en_stamp env))]))"
        using e patched_approval es(1) by blast
      then show ?thesis using True e(1) unfolding c by (intro has_definition_mapI [of e]) simp_all
    next
      case False
      then show ?thesis using e unfolding c by (intro has_definition_mapI [of e]) simp_all
    qed
  qed
  then show ?thesis using normalized_checklist [OF v] assms(2) w' by (simp add: dod_ok_def)
qed

end
