(* ===== verification/Goal_Machine.thy ===== *)
theory Goal_Machine
  imports Goal_Dod_Ops
begin

text \<open>
  The Goal loop as a state machine: every operation of \<open>Goal_Control\<close> and whatever the rest of the
  system does to the Goal's Tasks and runs, in any order, from the Goal's creation.
\<close>

section \<open>Steps\<close>

text \<open>Outside the loop, runs start, finish, fail and are charged, Tasks are filed and move, and the
  metric side of the Goal changes. No run of the Goal's Tasks becomes active outside the loop.\<close>

definition run_moved :: "goal_run \<Rightarrow> goal_run \<Rightarrow> bool" where
  "run_moved r r' \<longleftrightarrow> gr_id r' = gr_id r \<and> gr_taskId r' = gr_taskId r \<and> (is_active r' \<longrightarrow> is_active r)"

definition outside_change :: "goal_world \<Rightarrow> goal_world \<Rightarrow> bool" where
  "outside_change w w' \<longleftrightarrow>
     gw_goal w' = (gw_goal w)\<lparr>gl_status := gl_status (gw_goal w'), gl_outcome := gl_outcome (gw_goal w'),
       gl_nextCheckAt := gl_nextCheckAt (gw_goal w'), gl_workId := gl_workId (gw_goal w')\<rparr>
     \<and> tables_ok w' \<and> length (gw_tasks w) \<le> length (gw_tasks w')
     \<and> list_all2 run_moved (gw_runs w) (gw_runs w')"

inductive goal_step :: "goal_world \<Rightarrow> goal_world \<Rightarrow> bool" where
  operation: "goal_step w (run_op env op w)"
| outside: "outside_change w w' \<Longrightarrow> goal_step w w'"

inductive goal_reachable :: "goal_world \<Rightarrow> bool" where
  created: "createGoal stamp inp work = Inr g \<Longrightarrow>
    goal_reachable \<lparr>gw_goal = g, gw_tasks = [], gw_runs = [], gw_log = []\<rparr>"
| stepped: "goal_reachable w \<Longrightarrow> goal_step w w' \<Longrightarrow> goal_reachable w'"

section \<open>Limits\<close>

lemma assertBoundedInt_range: "assertBoundedInt v field lo hi = Inr i \<Longrightarrow> in_range i lo hi"
  by (auto simp: assertBoundedInt_def in_range_def split: option.splits if_splits)

lemma bounded_field_cases:
  assumes "bounded_field v field lo hi put g = Inr g'"
  obtains "g' = g" | i where "in_range i lo hi" "g' = put i g"
  using assms by (auto simp: bounded_field_def put_field_def dest: assertBoundedInt_range split: option.splits)

lemma put_field_cases:
  assumes "put_field v check put g = Inr g'"
  obtains "g' = g" | y where "g' = put y g"
  using assms by (auto simp: put_field_def split: option.splits)

text \<open>The columns no limit write touches.\<close>

definition same_loop :: "goal_row \<Rightarrow> goal_row \<Rightarrow> bool" where
  "same_loop g g' \<longleftrightarrow> gl_loopStatus g' = gl_loopStatus g \<and> gl_archivedAt g' = gl_archivedAt g
     \<and> gl_loopStartedAt g' = gl_loopStartedAt g \<and> gl_iteration g' = gl_iteration g
     \<and> gl_lastProgressIteration g' = gl_lastProgressIteration g \<and> gl_dodCriteria g' = gl_dodCriteria g
     \<and> gl_delivery g' = gl_delivery g"

lemma same_loop_trans: "same_loop a b \<Longrightarrow> same_loop b c \<Longrightarrow> same_loop a c"
  by (simp add: same_loop_def)

lemma bounded_field_ok:
  assumes "bounded_field v field lo hi put g = Inr g'"
    "\<And>i. in_range i lo hi \<Longrightarrow> limits_ok g \<Longrightarrow> limits_ok (put i g)" "\<And>i. same_loop g (put i g)"
  shows "(limits_ok g \<longrightarrow> limits_ok g') \<and> same_loop g g'"
  using assms(1) by (rule bounded_field_cases) (use assms(2-) in \<open>auto simp: same_loop_def\<close>)

lemma put_field_ok:
  assumes "put_field v check put g = Inr g'" "\<And>y. limits_ok g \<Longrightarrow> limits_ok (put y g)"
    "\<And>y. same_loop g (put y g)"
  shows "(limits_ok g \<longrightarrow> limits_ok g') \<and> same_loop g g'"
  using assms(1) by (rule put_field_cases) (use assms(2-) in \<open>auto simp: same_loop_def\<close>)

lemma write_limits_ok:
  assumes "write_limits env li g = Inr g'"
  shows "(limits_ok g \<longrightarrow> limits_ok g') \<and> same_loop g g'"
proof -
  obtain g1 g2 g3 g4 g5 g6 g7 g8 g9 where
    1: "bounded_field (li_spendCapCents li) ''spendCapCents'' 0 MAX_SPEND_CAP_CENTS
        (\<lambda>v g. g\<lparr>gl_spendCapCents := v\<rparr>) g = Inr g1" and
    2: "bounded_field (li_wallClockLimitHours li) ''wallClockLimitHours'' 1 MAX_WALL_CLOCK_LIMIT_HOURS
        (\<lambda>v g. g\<lparr>gl_wallClockLimitHours := v\<rparr>) g1 = Inr g2" and
    3: "bounded_field (li_stuckThresholdIterations li) ''stuckThresholdIterations'' 1
        MAX_STUCK_THRESHOLD_ITERATIONS (\<lambda>v g. g\<lparr>gl_stuckThresholdIterations := v\<rparr>) g2 = Inr g3" and
    4: "bounded_field (li_maxConcurrentIterations li) ''maxConcurrentIterations'' 1
        MAX_CONCURRENT_ITERATIONS (\<lambda>v g. g\<lparr>gl_maxConcurrentIterations := v\<rparr>) g3 = Inr g4" and
    5: "bounded_field (li_sessionBudgetMinutes li) ''sessionBudgetMinutes'' 1 MAX_SESSION_BUDGET_MINUTES
        (\<lambda>v g. g\<lparr>gl_sessionBudgetMinutes := v\<rparr>) g4 = Inr g5" and
    6: "bounded_field (li_gracePeriodMinutes li) ''gracePeriodMinutes'' 0 MAX_GRACE_PERIOD_MINUTES
        (\<lambda>v g. g\<lparr>gl_gracePeriodMinutes := v\<rparr>) g5 = Inr g6" and
    7: "put_field (li_executionTarget li) assertExecutionTarget (\<lambda>v g. g\<lparr>gl_executionTarget := v\<rparr>) g6 = Inr g7" and
    8: "put_field (li_plannerModelHint li) (\<lambda>v. Inr (normalizeHint v))
        (\<lambda>v g. g\<lparr>gl_plannerModelHint := v\<rparr>) g7 = Inr g8" and
    9: "put_field (li_workerModelHint li) (\<lambda>v. Inr (normalizeHint v))
        (\<lambda>v g. g\<lparr>gl_workerModelHint := v\<rparr>) g8 = Inr g9" and
    10: "put_field (li_assignedAgentId li) (resolveAssignedAgentId env)
        (\<lambda>v g. g\<lparr>gl_assignedAgentId := v\<rparr>) g9 = Inr g'"
    using assms unfolding write_limits_def then_result_Inr by blast
  have s: "(limits_ok g \<longrightarrow> limits_ok g1) \<and> same_loop g g1"
    by (rule bounded_field_ok [OF 1]) (auto simp: limits_ok_def same_loop_def)
  have "(limits_ok g1 \<longrightarrow> limits_ok g2) \<and> same_loop g1 g2"
    by (rule bounded_field_ok [OF 2]) (auto simp: limits_ok_def same_loop_def)
  with s have s: "(limits_ok g \<longrightarrow> limits_ok g2) \<and> same_loop g g2"
    using same_loop_trans by blast
  have "(limits_ok g2 \<longrightarrow> limits_ok g3) \<and> same_loop g2 g3"
    by (rule bounded_field_ok [OF 3]) (auto simp: limits_ok_def same_loop_def)
  with s have s: "(limits_ok g \<longrightarrow> limits_ok g3) \<and> same_loop g g3"
    using same_loop_trans by blast
  have "(limits_ok g3 \<longrightarrow> limits_ok g4) \<and> same_loop g3 g4"
    by (rule bounded_field_ok [OF 4]) (auto simp: limits_ok_def same_loop_def)
  with s have s: "(limits_ok g \<longrightarrow> limits_ok g4) \<and> same_loop g g4"
    using same_loop_trans by blast
  have "(limits_ok g4 \<longrightarrow> limits_ok g5) \<and> same_loop g4 g5"
    by (rule bounded_field_ok [OF 5]) (auto simp: limits_ok_def same_loop_def)
  with s have s: "(limits_ok g \<longrightarrow> limits_ok g5) \<and> same_loop g g5"
    using same_loop_trans by blast
  have "(limits_ok g5 \<longrightarrow> limits_ok g6) \<and> same_loop g5 g6"
    by (rule bounded_field_ok [OF 6]) (auto simp: limits_ok_def same_loop_def)
  with s have s: "(limits_ok g \<longrightarrow> limits_ok g6) \<and> same_loop g g6"
    using same_loop_trans by blast
  have "(limits_ok g6 \<longrightarrow> limits_ok g7) \<and> same_loop g6 g7"
    by (rule put_field_ok [OF 7]) (auto simp: limits_ok_def same_loop_def)
  with s have s: "(limits_ok g \<longrightarrow> limits_ok g7) \<and> same_loop g g7"
    using same_loop_trans by blast
  have "(limits_ok g7 \<longrightarrow> limits_ok g8) \<and> same_loop g7 g8"
    by (rule put_field_ok [OF 8]) (auto simp: limits_ok_def same_loop_def)
  with s have s: "(limits_ok g \<longrightarrow> limits_ok g8) \<and> same_loop g g8"
    using same_loop_trans by blast
  have "(limits_ok g8 \<longrightarrow> limits_ok g9) \<and> same_loop g8 g9"
    by (rule put_field_ok [OF 9]) (auto simp: limits_ok_def same_loop_def)
  with s have s: "(limits_ok g \<longrightarrow> limits_ok g9) \<and> same_loop g g9"
    using same_loop_trans by blast
  have "(limits_ok g9 \<longrightarrow> limits_ok g') \<and> same_loop g9 g'"
    by (rule put_field_ok [OF 10]) (auto simp: limits_ok_def same_loop_def)
  with s have s: "(limits_ok g \<longrightarrow> limits_ok g') \<and> same_loop g g'"
    using same_loop_trans by blast
  show ?thesis by (rule s)
qed

lemma same_loop_ok: "same_loop g g' \<Longrightarrow> limits_ok g' \<Longrightarrow> row_ok g \<Longrightarrow> row_ok g'"
  by (simp add: same_loop_def row_ok_def loop_ok_def dod_ok_def)

section \<open>The row\<close>

lemma terminal_goal_ok: "row_ok g \<Longrightarrow> st \<noteq> LoopRunning \<Longrightarrow> row_ok (terminal_goal st g)"
  by (auto simp: terminal_goal_def Let_def row_ok_def loop_ok_def dod_ok_def limits_ok_def)

lemma set_running_ok: "row_ok g \<Longrightarrow> gl_archivedAt g = None \<Longrightarrow> row_ok (set_running env g)"
  by (auto simp: set_running_def row_ok_def loop_ok_def dod_ok_def limits_ok_def split: option.splits)

lemma refreshed_ok: "row_ok g \<Longrightarrow> row_ok (g\<lparr>gl_spentCents := n\<rparr>)"
  by (simp add: row_ok_def loop_ok_def dod_ok_def limits_ok_def)

lemma tick_input_goal [simp]:
  "gi_iteration (tick_input env forced cs w) = gl_iteration (gw_goal w)"
  "gi_lastProgressIteration (tick_input env forced cs w) = gl_lastProgressIteration (gw_goal w)"
  "gi_stuckThresholdIterations (tick_input env forced cs w) = gl_stuckThresholdIterations (gw_goal w)"
  "gi_loopStatus (tick_input env forced cs w) = (if forced then Some LoopRunning else gl_loopStatus (gw_goal w))"
  "gi_spendCapCents (tick_input env forced cs w) = gl_spendCapCents (gw_goal w)"
  "gi_spentCents (tick_input env forced cs w) = computeSpend w"
  by (simp_all add: tick_input_def decision_input_def Let_def)

lemma advance_row_ok:
  assumes "advanceOne env forced w = (res, w')" "row_ok (gw_goal w)" "tables_ok w"
  shows "row_ok (gw_goal w')" "tables_ok w'" "gl_loopStartedAt (gw_goal w') = gl_loopStartedAt (gw_goal w)"
proof -
  have "row_ok (gw_goal w') \<and> tables_ok w' \<and> gl_loopStartedAt (gw_goal w') = gl_loopStartedAt (gw_goal w)"
    using assms(1)
  proof (cases rule: advanceOne_cases)
    case quiet
    then show ?thesis using assms refreshed_ok by (simp add: tables_ok_def)
  next
    case (terminal st)
    then show ?thesis using assms refreshed_ok terminal_goal_ok
      by (simp add: tables_ok_def) (simp add: terminal_goal_def Let_def)
  next
    case (sent cs)
    define inp where "inp = tick_input env forced cs w"
    have free: "0 < free_slots inp" using dispatch_is_route(3) [OF sent(2)] by (simp add: inp_def)
    have pairs: "slot_pairs (gw_goal (refresh_spend w)) (route inp)
        = map (\<lambda>i. (i, ca_agentId (routed_candidate inp i))) (slot_numbers inp)"
      by (rule slot_pairs_route [OF free])
    have ne: "slot_pairs (gw_goal (refresh_spend w)) (route inp) \<noteq> []"
      unfolding pairs using free by (metis slot_numbers_length length_0_conv list.map_disc_iff not_less zero_less_nat_eq le_refl)
    have t: "tables_ok (refresh_spend w)" using assms(3) by (simp add: tables_ok_def)
    have later: "gl_iteration (gw_goal w) \<le> i" if "(i, a) \<in> set (slot_pairs (gw_goal (refresh_spend w)) (route inp))" for i a
      using that unfolding pairs by (auto simp: slot_numbers_def inp_def)
    have "row_ok ((gw_goal (refresh_spend w))\<lparr>gl_iteration := i, gl_activeAgentId := Some a\<rparr>)"
      if "gl_iteration (gw_goal w) \<le> i" for i a
      using assms(2) that by (auto simp: row_ok_def loop_ok_def dod_ok_def limits_ok_def)
    then show ?thesis
      using applyDispatch_effect [OF sent(3) [folded inp_def] t ne] later refreshed_ok [OF assms(2)] by auto
  qed
  then show "row_ok (gw_goal w')" "tables_ok w'" "gl_loopStartedAt (gw_goal w') = gl_loopStartedAt (gw_goal w)"
    by simp_all
qed

section \<open>Every operation\<close>

lemma tables_ok_ids: "tables_ok w \<longleftrightarrow> map gt_id (gw_tasks w) = [0..<length (gw_tasks w)]
     \<and> map gr_id (gw_runs w) = [0..<length (gw_runs w)]
     \<and> (\<forall>i\<in>set (map gr_taskId (gw_runs w)). i < length (gw_tasks w))"
  by (simp add: tables_ok_def)

lemma cancel_run_rows [simp]:
  "gw_goal (cancel_run i w) = gw_goal w" "gw_tasks (cancel_run i w) = gw_tasks w"
  "length (gw_runs (cancel_run i w)) = length (gw_runs w)"
  by (simp_all add: cancel_run_def)

lemma cancel_run_ok:
  "tables_ok w \<Longrightarrow> tables_ok (cancel_run i w)" "active_runs (cancel_run i w) \<le> active_runs w"
proof -
  have ids: "map gr_id (gw_runs (cancel_run i w)) = map gr_id (gw_runs w)"
    "map gr_taskId (gw_runs (cancel_run i w)) = map gr_taskId (gw_runs w)"
    by (simp_all add: cancel_run_def)
  then show "tables_ok w \<Longrightarrow> tables_ok (cancel_run i w)"
    unfolding tables_ok_ids ids by simp
  have fewer: "length (filter (is_active \<circ> f) rs) \<le> length (filter is_active rs)"
    if "\<And>r. is_active (f r) \<Longrightarrow> is_active r" for f rs
    using that by (induction rs) auto
  have closed: "\<not> is_active (r\<lparr>gr_status := RunCancelled\<rparr>)" for r
    by (simp add: is_active_def ACTIVE_RUN_STATUSES_def)
  show "active_runs (cancel_run i w) \<le> active_runs w"
    by (simp add: active_runs_def cancel_run_def) (rule fewer, simp add: closed split: if_splits)
qed

lemma cancelActiveRun_cases:
  assumes "cancelActiveRun env w = Inr (c, w1)"
  obtains "w1 = w" "findActiveRuns w = []" | r where "w1 = cancel_run (gr_id r) w" "hd (findActiveRuns w) = r"
  using assms by (auto simp: cancelActiveRun_def split: list.splits if_splits)

text \<open>What an operation that is not a tick does to the tables.\<close>

definition quiet_tables :: "goal_world \<Rightarrow> goal_world \<Rightarrow> bool" where
  "quiet_tables w w' \<longleftrightarrow> gw_tasks w' = gw_tasks w \<and> (tables_ok w \<longrightarrow> tables_ok w')
     \<and> active_runs w' \<le> active_runs w"

lemma quiet_tables_same: "gw_tasks w' = gw_tasks w \<Longrightarrow> gw_runs w' = gw_runs w \<Longrightarrow> quiet_tables w w'"
  by (simp add: quiet_tables_def tables_ok_def active_runs_def)

lemma quiet_tables_trans: "quiet_tables a b \<Longrightarrow> quiet_tables b c \<Longrightarrow> quiet_tables a c"
  by (auto simp: quiet_tables_def)

lemma quiet_tables_refl [simp]: "quiet_tables w w"
  by (simp add: quiet_tables_same)

declare settle_def [simp]

lemma cancelActiveRun_quiet:
  assumes "cancelActiveRun env w = Inr (c, w1)"
  shows "quiet_tables w w1 \<and> gw_goal w1 = gw_goal w"
  using assms by (rule cancelActiveRun_cases) (simp_all add: quiet_tables_def cancel_run_ok)

text \<open>Loop columns: an operation that is not a tick leaves the iteration counter alone.\<close>

definition is_tick :: "goal_op \<Rightarrow> bool" where
  "is_tick op \<longleftrightarrow> op = OpAdvance \<or> op = OpRestart"

lemma cancelLoop_effect:
  assumes "cancelLoop env w = Inr w'"
  shows "quiet_tables w w'"
    "gw_goal w' = (gw_goal w)\<lparr>gl_loopStatus := Some LoopCancelled, gl_activeAgentId := None\<rparr>"
proof -
  obtain c w1 where c: "cancelActiveRun env w = Inr (c, w1)"
    "w' = log_line EvComplete (LoopCancelledAt (gl_iteration (gw_goal w1)) (c \<noteq> None))
       (w1\<lparr>gw_goal := (gw_goal w1)\<lparr>gl_loopStatus := Some LoopCancelled, gl_activeAgentId := None\<rparr>\<rparr>)"
    using assms by (auto simp: cancelLoop_def)
  note q = cancelActiveRun_quiet [OF c(1)]
  have "quiet_tables w1 w'" using c(2) by (simp add: quiet_tables_same)
  then show "quiet_tables w w'" using q quiet_tables_trans by blast
  show "gw_goal w' = (gw_goal w)\<lparr>gl_loopStatus := Some LoopCancelled, gl_activeAgentId := None\<rparr>"
    using q c(2) by simp
qed

text \<open>The Goal's row after an operation that is not a tick: its old value, or a lawful write.\<close>

lemma quiet_operation:
  assumes "\<not> is_tick op"
  shows "quiet_tables w (run_op env op w)"
    and "row_ok (gw_goal w) \<Longrightarrow> row_ok (gw_goal (run_op env op w))"
    and "gl_iteration (gw_goal (run_op env op w)) = gl_iteration (gw_goal w)"
    and "gl_loopStartedAt (gw_goal (run_op env op w)) = gl_loopStartedAt (gw_goal w)
         \<or> gl_loopStartedAt (gw_goal w) = None"
proof -
  let ?w' = "run_op env op w"
  have "quiet_tables w ?w' \<and> (row_ok (gw_goal w) \<longrightarrow> row_ok (gw_goal ?w'))
      \<and> gl_iteration (gw_goal ?w') = gl_iteration (gw_goal w)
      \<and> (gl_loopStartedAt (gw_goal ?w') = gl_loopStartedAt (gw_goal w) \<or> gl_loopStartedAt (gw_goal w) = None)"
  proof (cases op)
    case (OpLimits li)
    show ?thesis
    proof (cases "updateLimits env li w")
      case (Inl e)
      then show ?thesis using OpLimits by simp
    next
      case ok: (Inr w')
      have run: "run_op env op w = w'" using ok OpLimits by simp
      from ok obtain g where g: "write_limits env li (gw_goal w) = Inr g" "gw_goal w' = g"
        "gw_tasks w' = gw_tasks w" "gw_runs w' = gw_runs w"
        by (auto simp: updateLimits_def)
      note lw = write_limits_ok [OF g(1)]
      have "row_ok (gw_goal w) \<longrightarrow> row_ok g" using lw same_loop_ok by (auto simp: row_ok_def)
      then show ?thesis unfolding run using lw g(2-) by (simp add: quiet_tables_same same_loop_def)
    qed
  next
    case (OpSetDod cs)
    show ?thesis
    proof (cases "setDodCriteria env cs w")
      case (Inl e)
      then show ?thesis using OpSetDod by simp
    next
      case ok: (Inr w')
      have run: "run_op env op w = w'" using ok OpSetDod by simp
      from ok obtain dod where "gw_goal w' = write_dod dod (gw_goal w)" "gw_tasks w' = gw_tasks w" "gw_runs w' = gw_runs w"
        by (auto simp: setDodCriteria_def Let_def split: if_splits)
      then show ?thesis unfolding run
        using setDod_ok [OF ok] write_dod_loop_ok by (auto simp: quiet_tables_same row_ok_def)
    qed
  next
    case (OpProposeDod cs)
    show ?thesis
    proof (cases "proposeDodCriteria env cs w")
      case (Inl e)
      then show ?thesis using OpProposeDod by simp
    next
      case ok: (Inr w')
      have run: "run_op env op w = w'" using ok OpProposeDod by simp
      from ok obtain ps where "gw_goal w' = (gw_goal w)\<lparr>gl_dodCriteria := Some ps\<rparr>"
        "gw_tasks w' = gw_tasks w" "gw_runs w' = gw_runs w"
        by (rule proposeDod_parts) blast
      then show ?thesis unfolding run
        using proposeDod_ok [OF ok] by (auto simp: quiet_tables_same row_ok_def loop_ok_def limits_ok_def)
    qed
  next
    case (OpApproveDod ids)
    show ?thesis
    proof (cases "approveDodCriteria env ids w")
      case (Inl e)
      then show ?thesis using OpApproveDod by simp
    next
      case ok: (Inr w')
      have run: "run_op env op w = w'" using ok OpApproveDod by simp
      from ok obtain dod where "gw_goal w' = write_dod dod (gw_goal w)" "gw_tasks w' = gw_tasks w" "gw_runs w' = gw_runs w"
        by (auto simp: approveDodCriteria_def Let_def split: if_splits)
      then show ?thesis unfolding run
        using approveDod_ok [OF ok] write_dod_loop_ok by (auto simp: quiet_tables_same row_ok_def)
    qed
  next
    case (OpPatchDod cid p)
    show ?thesis
    proof (cases "patchDodCriterion env cid p w")
      case (Inl e)
      then show ?thesis using OpPatchDod by simp
    next
      case ok: (Inr w')
      have run: "run_op env op w = w'" using ok OpPatchDod by simp
      from ok obtain dod where "gw_goal w' = write_dod dod (gw_goal w)" "gw_tasks w' = gw_tasks w" "gw_runs w' = gw_runs w"
        by (rule patchDod_parts) blast
      then show ?thesis unfolding run
        using patchDod_ok [OF ok] write_dod_loop_ok by (auto simp: quiet_tables_same row_ok_def)
    qed
  next
    case OpStart
    show ?thesis
    proof (cases "startLoop env w")
      case (Inl e)
      then show ?thesis using OpStart by simp
    next
      case ok: (Inr w')
      have run: "run_op env op w = w'" using ok OpStart by simp
      from ok have "gw_goal w' = set_running env (gw_goal w)" "gl_archivedAt (gw_goal w) = None"
        "gw_tasks w' = gw_tasks w" "gw_runs w' = gw_runs w"
        by (auto simp: startLoop_def Let_def split: if_splits)
      then show ?thesis unfolding run
        using set_running_ok by (auto simp: quiet_tables_same) (auto simp: set_running_def split: option.splits)
    qed
  next
    case OpPause
    show ?thesis
    proof (cases "pauseLoop w")
      case (Inl e)
      then show ?thesis using OpPause by simp
    next
      case ok: (Inr w')
      have run: "run_op env op w = w'" using ok OpPause by simp
      from ok have "gw_goal w' = (gw_goal w)\<lparr>gl_loopStatus := Some LoopPaused\<rparr>"
        "gw_tasks w' = gw_tasks w" "gw_runs w' = gw_runs w"
        by (auto simp: pauseLoop_def Let_def split: if_splits)
      then show ?thesis unfolding run
        by (auto simp: quiet_tables_same row_ok_def loop_ok_def dod_ok_def limits_ok_def)
    qed
  next
    case OpCancel
    show ?thesis
    proof (cases "cancelLoop env w")
      case (Inl e)
      then show ?thesis using OpCancel by simp
    next
      case ok: (Inr w')
      have run: "run_op env op w = w'" using ok OpCancel by simp
      show ?thesis unfolding run
        using cancelLoop_effect [OF ok] by (auto simp: row_ok_def loop_ok_def dod_ok_def limits_ok_def)
    qed
  next
    case (OpNudge steer m)
    show ?thesis
    proof (cases "nudge steer m w")
      case (Inl e)
      then show ?thesis using OpNudge by simp
    next
      case ok: (Inr w')
      have run: "run_op env op w = w'" using ok OpNudge by simp
      from ok have "gw_goal w' = gw_goal w" "gw_tasks w' = gw_tasks w" "gw_runs w' = gw_runs w"
        by (auto simp: nudge_def Let_def split: if_splits option.splits list.splits)
      then show ?thesis unfolding run by (simp add: quiet_tables_same)
    qed
  next
    case OpArchive
    then show ?thesis
      by (auto simp: archive_def Let_def quiet_tables_same row_ok_def loop_ok_def dod_ok_def limits_ok_def)
  next
    case OpUnarchive
    then show ?thesis
      by (auto simp: unarchive_def quiet_tables_same row_ok_def loop_ok_def dod_ok_def limits_ok_def)
  next
    case OpRollup
    then show ?thesis by (auto simp: rollupSpend_def quiet_tables_same refreshed_ok)
  next
    case OpRestart
    then show ?thesis using assms by (simp add: is_tick_def)
  next
    case OpAdvance
    then show ?thesis using assms by (simp add: is_tick_def)
  qed
  then show "quiet_tables w ?w'" "row_ok (gw_goal w) \<Longrightarrow> row_ok (gw_goal ?w')"
    "gl_iteration (gw_goal ?w') = gl_iteration (gw_goal w)"
    "gl_loopStartedAt (gw_goal ?w') = gl_loopStartedAt (gw_goal w) \<or> gl_loopStartedAt (gw_goal w) = None"
    by simp_all
qed

end
