(* ===== verification/Goal_Safety.thy ===== *)
theory Goal_Safety
  imports Goal_Machine
begin

text \<open>
  The invariants of the state machine: the row stays lawful, the tables stay consistent, the runs in
  flight stay under the ceiling, and a loop without progress stops dispatching.
\<close>

section \<open>What a tick sees of the runs\<close>

lemma mset_started_first: "mset (started_first rs) = mset rs"
proof -
  have "filter (\<lambda>r. gr_startedAt r = None) rs = filter (\<lambda>r. \<not> gr_startedAt r \<noteq> None) rs" by simp
  then have "mset (started_first rs) = mset (filter (\<lambda>r. gr_startedAt r \<noteq> None) rs)
      + mset (filter (\<lambda>r. \<not> gr_startedAt r \<noteq> None) rs)"
    by (simp add: started_first_def del: not_None_eq)
  then show ?thesis by (simp add: mset_filter del: not_None_eq flip: multiset_partition)
qed

lemma length_filter_started_first: "length (filter P (started_first rs)) = length (filter P rs)"
  by (metis mset_filter mset_started_first size_mset)

lemma seen_tasks: "length (gw_tasks w) \<le> MAX_GOAL_TASKS \<Longrightarrow> loadGoalTasks w = gw_tasks w"
  by (simp add: loadGoalTasks_def)

lemma findActiveRuns_all:
  assumes "tables_ok w" "length (gw_tasks w) \<le> MAX_GOAL_TASKS"
  shows "length (findActiveRuns w) = active_runs w"
proof -
  have ids: "map gt_id (gw_tasks w) = [0..<length (gw_tasks w)]" using assms(1) by (simp add: tables_ok_def)
  have "filter (\<lambda>r. gr_taskId r \<in> set (map gt_id (gw_tasks w))) (gw_runs w) = gw_runs w"
    using assms(1) unfolding ids by (auto simp: tables_ok_def filter_id_conv)
  then show ?thesis
    by (simp add: findActiveRuns_def loadGoalWork_def Let_def seen_tasks [OF assms(2)]
        length_filter_started_first active_runs_def del: set_map)
qed

definition goal_ceiling :: "goal_row \<Rightarrow> int" where
  "goal_ceiling g = (case gl_maxConcurrentIterations g of None \<Rightarrow> 1
     | Some m \<Rightarrow> max 1 (min m MAX_CONCURRENT_ITERATIONS))"

lemma goal_ceiling_range: "1 \<le> goal_ceiling g" "goal_ceiling g \<le> MAX_CONCURRENT_ITERATIONS"
  by (auto simp: goal_ceiling_def MAX_CONCURRENT_ITERATIONS_def split: option.splits)

lemma findActiveRuns_refresh [simp]: "findActiveRuns (refresh_spend w) = findActiveRuns w"
  by (simp add: findActiveRuns_def loadGoalWork_def loadGoalTasks_def)

text \<open>The open pull requests a tick counts.\<close>

definition awaiting_count :: "goal_env \<Rightarrow> goal_world \<Rightarrow> nat" where
  "awaiting_count env w = length (ws_awaiting (goalWorkState env w))"

lemma awaiting_merge_refresh [simp]: "awaiting_merge_tasks (refresh_spend w) = awaiting_merge_tasks w"
  by (simp add: awaiting_merge_tasks_def Let_def)

lemma goalWorkState_refresh [simp]: "goalWorkState env (refresh_spend w) = goalWorkState env w"
  by (simp add: goalWorkState_def Let_def split: work_reading.split)

lemma tick_free_slots:
  "free_slots (tick_input env forced cs w)
     = goal_ceiling (gw_goal w) - int (length (findActiveRuns w)) - int (awaiting_count env w)"
proof -
  have "resolveMaxConcurrentIterations (gi_maxConcurrentIterations (tick_input env forced cs w))
      = goal_ceiling (gw_goal w)"
    by (simp add: tick_input_def decision_input_def Let_def resolveMaxConcurrentIterations_def goal_ceiling_def
        split: option.split)
  moreover have "resolveRunsInFlight (tick_input env forced cs w) = int (length (findActiveRuns w))"
    by (simp add: resolveRunsInFlight_def tick_input_def decision_input_def Let_def)
  moreover have "resolveAwaitingMerge (gi_pullRequestsAwaitingMerge (tick_input env forced cs w))
      = int (awaiting_count env w)"
    by (simp add: resolveAwaitingMerge_def tick_input_def decision_input_def Let_def awaiting_count_def)
  ultimately show ?thesis by (simp add: free_slots_def)
qed

section \<open>A tick that dispatches\<close>

lemma sent_pairs:
  assumes "dc_action (decideGoalLoop inp) = ActDispatch"
  shows "slot_pairs g (route inp) = map (\<lambda>i. (i, ca_agentId (routed_candidate inp i))) (slot_numbers inp)"
    "slot_pairs g (route inp) \<noteq> []" "length (slot_pairs g (route inp)) = nat (free_slots inp)"
proof -
  note free = dispatch_is_route(3) [OF assms]
  show p: "slot_pairs g (route inp) = map (\<lambda>i. (i, ca_agentId (routed_candidate inp i))) (slot_numbers inp)"
    by (rule slot_pairs_route [OF free])
  show "length (slot_pairs g (route inp)) = nat (free_slots inp)" unfolding p by simp
  then show "slot_pairs g (route inp) \<noteq> []" using free by (metis list.size(3) nat_0_iff not_le)
qed

text \<open>Everything a tick may do to the counters of the loop.\<close>

definition sent_within :: "goal_loop_input \<Rightarrow> goal_world \<Rightarrow> goal_world \<Rightarrow> bool" where
  "sent_within inp w w' \<longleftrightarrow> routing_open inp \<and> 0 < free_slots inp
     \<and> int (active_runs w') \<le> int (active_runs w) + free_slots inp
     \<and> length (gw_tasks w) \<le> length (gw_tasks w')
     \<and> gl_iteration (gw_goal w) \<le> gl_iteration (gw_goal w')
     \<and> gl_iteration (gw_goal w') \<le> gl_iteration (gw_goal w) + free_slots inp"

definition counters_kept :: "goal_world \<Rightarrow> goal_world \<Rightarrow> bool" where
  "counters_kept w w' \<longleftrightarrow> gw_tasks w' = gw_tasks w \<and> gw_runs w' = gw_runs w
     \<and> gl_iteration (gw_goal w') = gl_iteration (gw_goal w)"

definition limits_kept :: "goal_row \<Rightarrow> goal_row \<Rightarrow> bool" where
  "limits_kept g g' \<longleftrightarrow> gl_lastProgressIteration g' = gl_lastProgressIteration g
     \<and> gl_stuckThresholdIterations g' = gl_stuckThresholdIterations g
     \<and> gl_maxConcurrentIterations g' = gl_maxConcurrentIterations g"

lemma advance_bounds:
  assumes "advanceOne env forced w = (res, w')" "tables_ok w"
  shows "(counters_kept w w' \<or> (\<exists>cs. sent_within (tick_input env forced cs w) w w'))
    \<and> limits_kept (gw_goal w) (gw_goal w')"
  using assms(1)
proof (cases rule: advanceOne_cases)
  case quiet
  then show ?thesis by (simp add: counters_kept_def limits_kept_def)
next
  case (terminal st)
  then show ?thesis by (auto simp: terminal_goal_def Let_def counters_kept_def limits_kept_def)
next
  case (sent cs)
  define inp where "inp = tick_input env forced cs w"
  note d = dispatch_is_route [OF sent(2), folded inp_def]
  note p = sent_pairs [OF sent(2), folded inp_def, of "gw_goal (refresh_spend w)"]
  have t: "tables_ok (refresh_spend w)" using assms(2) by (simp add: tables_ok_def)
  note eff = applyDispatch_effect [OF sent(3) [folded inp_def] t p(2)]
  have near: "gl_iteration (gw_goal w) \<le> i \<and> i \<le> gl_iteration (gw_goal w) + free_slots inp"
    if "(i, a) \<in> set (slot_pairs (gw_goal (refresh_spend w)) (route inp))" for i a
    using that unfolding p(1) by (auto simp: slot_numbers_def inp_def)
  have runs: "int (active_runs w') \<le> int (active_runs w) + free_slots inp"
  proof -
    have "active_runs w' \<le> active_runs w + nat (free_slots inp)"
      using eff unfolding p(3) by (simp add: active_runs_def)
    then show ?thesis using d(3) by linarith
  qed
  have its: "gl_iteration (gw_goal w) \<le> gl_iteration (gw_goal w')
      \<and> gl_iteration (gw_goal w') \<le> gl_iteration (gw_goal w) + free_slots inp
      \<and> limits_kept (gw_goal w) (gw_goal w')"
    using eff near d(3) by (auto simp: limits_kept_def)
  have "sent_within inp w w'"
    using runs its eff d(2,3) by (simp add: sent_within_def)
  then show ?thesis using its inp_def by blast
qed

lemma tick_ceiling:
  assumes "advanceOne env forced w = (res, w')" "tables_ok w" "length (gw_tasks w) \<le> MAX_GOAL_TASKS"
  shows "int (active_runs w') \<le> max (int (active_runs w)) (goal_ceiling (gw_goal w) - int (awaiting_count env w))"
  using advance_bounds [OF assms(1,2)] findActiveRuns_all [OF assms(2,3)]
  by (auto simp: counters_kept_def sent_within_def tick_free_slots active_runs_def)

section \<open>Restarting\<close>

lemma restart_cases:
  assumes "restartSession env w = (res, w')"
  obtains (refused) "w' = w"
  | (ticked) w2 where "gl_archivedAt (gw_goal w) = None" "quiet_tables w w2"
      "gw_goal w2 = set_running env (gw_goal w)" "advanceOne env True w2 = (res, w')"
proof (cases "gl_archivedAt (gw_goal w) \<noteq> None")
  case True
  then show thesis using assms refused by (simp add: restartSession_def)
next
  case open': False
  show thesis
  proof (cases "cancelActiveRun env w")
    case (Inl e)
    then show thesis using assms open' refused by (simp add: restartSession_def)
  next
    case (Inr cw)
    obtain c w1 where cw: "cw = (c, w1)" by fastforce
    note q = cancelActiveRun_quiet [OF Inr [unfolded cw]]
    define w2 where "w2 = log_line EvControl (SessionRestarted (c \<noteq> None))
      (w1\<lparr>gw_goal := set_running env (gw_goal w1)\<rparr>)"
    have "quiet_tables w1 w2" by (simp add: w2_def quiet_tables_same)
    then have "quiet_tables w w2" using q quiet_tables_trans by blast
    moreover have "gw_goal w2 = set_running env (gw_goal w)" using q by (simp add: w2_def)
    moreover have "advanceOne env True w2 = (res, w')"
      using assms open' Inr cw by (simp add: restartSession_def w2_def)
    ultimately show thesis using open' by (intro ticked) simp_all
  qed
qed

text \<open>Both ticks at once: the operation is an advance of some state with the same tables, whose row is
  the old one or the old one set running.\<close>

lemma tick_op_cases:
  assumes "is_tick op"
  obtains (refused) "run_op env op w = w"
  | (ticked) w2 forced res where "quiet_tables w w2" "advanceOne env forced w2 = (res, run_op env op w)"
      "gw_goal w2 = gw_goal w \<or> gl_archivedAt (gw_goal w) = None \<and> gw_goal w2 = set_running env (gw_goal w)"
proof -
  consider "op = OpAdvance" | "op = OpRestart" using assms by (auto simp: is_tick_def)
  then show thesis
  proof cases
    case 1
    then show thesis using ticked [of w False "fst (advanceOne env False w)"] by simp
  next
    case 2
    have "restartSession env w = (fst (restartSession env w), run_op env op w)" using 2 by simp
    then show thesis
    proof (cases rule: restart_cases)
      case refused
      then show thesis by (rule that(1))
    next
      case (ticked w2)
      then show thesis using that(2) by blast
    qed
  qed
qed

lemma set_running_fields [simp]:
  "gl_iteration (set_running env g) = gl_iteration g"
  "gl_lastProgressIteration (set_running env g) = gl_lastProgressIteration g"
  "gl_stuckThresholdIterations (set_running env g) = gl_stuckThresholdIterations g"
  "limits_ok (set_running env g) = limits_ok g"
  "gl_loopStartedAt g \<noteq> None \<Longrightarrow> gl_loopStartedAt (set_running env g) = gl_loopStartedAt g"
  by (auto simp: set_running_def limits_ok_def split: option.splits)

section \<open>Invariants of every step\<close>

definition world_ok :: "goal_world \<Rightarrow> bool" where
  "world_ok w \<longleftrightarrow> row_ok (gw_goal w) \<and> tables_ok w
     \<and> (length (gw_tasks w) \<le> MAX_GOAL_TASKS \<longrightarrow> int (active_runs w) \<le> MAX_CONCURRENT_ITERATIONS)"

lemma run_moved_active:
  "list_all2 run_moved rs rs' \<Longrightarrow> length (filter is_active rs') \<le> length (filter is_active rs)"
  by (induction rule: list_all2_induct) (auto simp: run_moved_def)

lemma tick_world_ok:
  assumes "is_tick op" "world_ok w"
  shows "world_ok (run_op env op w)"
    "gl_loopStartedAt (gw_goal w) \<noteq> None \<Longrightarrow> gl_loopStartedAt (gw_goal (run_op env op w)) = gl_loopStartedAt (gw_goal w)"
proof -
  have "world_ok (run_op env op w) \<and> (gl_loopStartedAt (gw_goal w) \<noteq> None \<longrightarrow>
      gl_loopStartedAt (gw_goal (run_op env op w)) = gl_loopStartedAt (gw_goal w))"
    using assms(1)
  proof (cases rule: tick_op_cases [where env = env and w = w])
    case refused
    then show ?thesis using assms(2) by simp
  next
    case (ticked w2 forced res)
    let ?w' = "run_op env op w"
    have w2: "row_ok (gw_goal w2)" "tables_ok w2"
      using ticked(1,3) assms(2) set_running_ok by (auto simp: world_ok_def quiet_tables_def)
    note adv = advance_row_ok [OF ticked(2) w2]
    have "int (active_runs ?w') \<le> MAX_CONCURRENT_ITERATIONS" if small: "length (gw_tasks ?w') \<le> MAX_GOAL_TASKS"
    proof -
      have "length (gw_tasks w2) \<le> length (gw_tasks ?w')"
        using advance_bounds [OF ticked(2) w2(2)] by (auto simp: counters_kept_def sent_within_def)
      then have len: "length (gw_tasks w2) \<le> MAX_GOAL_TASKS" using small by simp
      have "int (active_runs w2) \<le> MAX_CONCURRENT_ITERATIONS"
        using assms(2) ticked(1) len by (auto simp: world_ok_def quiet_tables_def)
      then show ?thesis
        using tick_ceiling [OF ticked(2) w2(2) len] goal_ceiling_range(2) [of "gw_goal w2"] by linarith
    qed
    moreover have "gl_loopStartedAt (gw_goal w) \<noteq> None \<longrightarrow> gl_loopStartedAt (gw_goal ?w') = gl_loopStartedAt (gw_goal w)"
      using adv(3) ticked(3) by auto
    ultimately show ?thesis using adv by (simp add: world_ok_def)
  qed
  then show "world_ok (run_op env op w)"
    "gl_loopStartedAt (gw_goal w) \<noteq> None \<Longrightarrow> gl_loopStartedAt (gw_goal (run_op env op w)) = gl_loopStartedAt (gw_goal w)"
    by simp_all
qed

lemma step_world_ok:
  assumes "goal_step w w'" "world_ok w"
  shows "world_ok w' \<and> (gl_loopStartedAt (gw_goal w) \<noteq> None \<longrightarrow>
      gl_loopStartedAt (gw_goal w') = gl_loopStartedAt (gw_goal w))"
  using assms(1)
proof cases
  case (operation env op)
  show ?thesis
  proof (cases "is_tick op")
    case True
    then show ?thesis using tick_world_ok [OF True assms(2)] operation by blast
  next
    case False
    then show ?thesis
      using quiet_operation [OF False, where w = w and env = env] assms(2) operation
      by (auto simp: world_ok_def quiet_tables_def)
  qed
next
  case outside
  then have o: "tables_ok w'" "length (gw_tasks w) \<le> length (gw_tasks w')" "active_runs w' \<le> active_runs w"
    using run_moved_active by (auto simp: outside_change_def active_runs_def)
  obtain st oc nc wk where g: "gw_goal w' = (gw_goal w)\<lparr>gl_status := st, gl_outcome := oc,
       gl_nextCheckAt := nc, gl_workId := wk\<rparr>"
    using outside unfolding outside_change_def by blast
  have "row_ok (gw_goal w')" using assms(2) unfolding g
    by (simp add: world_ok_def row_ok_def loop_ok_def dod_ok_def limits_ok_def)
  moreover have "gl_loopStartedAt (gw_goal w') = gl_loopStartedAt (gw_goal w)" by (simp add: g)
  ultimately show ?thesis using o assms(2) by (auto simp: world_ok_def)
qed

section \<open>Creation\<close>

lemma own_prop_spread [simp]:
  "own_prop (obj_spread inp [(k, v)]) k' = (if k' = k then v else own_prop inp k')"
  by (cases inp) (simp_all add: obj_spread_def own_prop_JObj [of "[]"] del: update.simps)

lemma delivery_input_ok:
  assumes "validateDeliveryGoalInput inp = []"
  obtains es where "own_prop inp ''dodCriteria'' = JArr es" "es \<noteq> []"
    "validateDoDCriteria (JArr es) = []" "list_all isApprovedDoDCriterion es"
  using assms by (auto simp: validateDeliveryGoalInput_def Let_def list_ex_iff list_all_iff
      isApprovedDoDCriterion_def split: json.splits if_splits)

lemma created_row_ok:
  assumes "createGoal stamp inp work = Inr g"
  shows "row_ok g"
proof -
  obtain kind dod where kd: "resolveWriteKind (own_prop inp ''goalKind'') = Inr kind"
    "validateGoalKindInput (obj_spread inp [(''goalKind'', JStr kind)]) = []"
    "normalizeDodInput (own_prop inp ''dodCriteria'') stamp = Inr dod" "g = new_goal_row kind dod work"
    using assms by (auto simp: createGoal_def Let_def split: sum.splits if_splits)
  have kind: "kind = ''metric'' \<or> kind = ''delivery''"
    using kd(1) by (auto simp: resolveWriteKind_def GOAL_KINDS_def DEFAULT_GOAL_KIND_def split: json.splits if_splits)
  have "checklist_ok dod \<and> (kind = ''delivery'' \<longrightarrow> hasDefinitionOfDone dod)"
  proof (cases "dod = None")
    case True
    have "kind \<noteq> ''delivery''"
    proof
      assume "kind = ''delivery''"
      then have "validateDeliveryGoalInput (obj_spread inp [(''goalKind'', JStr kind)]) = []"
        using kd(2) by (simp add: validateGoalKindInput_def js_or_else_def Let_def split: if_splits)
      then show False
        by (rule delivery_input_ok) (use kd(3) True in \<open>auto simp: normalizeDodInput_def split: option.splits\<close>)
    qed
    then show ?thesis using True by (simp add: checklist_ok_def resolveDoDCriteria_def)
  next
    case False
    then obtain es cs where es: "own_prop inp ''dodCriteria'' = JArr es" "validateDoDCriteria (JArr es) = []"
      "normalizeDoDCriteria es stamp = Some cs" "dod = Some cs"
      using kd(3) by (auto simp: normalizeDodInput_def split: if_splits json.splits option.splits)
    have "hasDefinitionOfDone (Some es)" if "kind = ''delivery''"
    proof -
      have "validateDeliveryGoalInput (obj_spread inp [(''goalKind'', JStr kind)]) = []"
        using kd(2) that by (simp add: validateGoalKindInput_def js_or_else_def Let_def split: if_splits)
      then show ?thesis
        by (rule delivery_input_ok) (use es(1) in \<open>auto simp: hasDefinitionOfDone_def list_ex_iff list_all_iff neq_Nil_conv\<close>)
    qed
    then show ?thesis using normalized_checklist [OF es(2,3)] es(4) by simp
  qed
  moreover have "isDeliveryGoal (JStr kind) \<longleftrightarrow> kind = ''delivery''"
    using kind
  proof
    assume "kind = ''metric''"
    then show ?thesis by simp code_simp
  next
    assume "kind = ''delivery''"
    then show ?thesis by simp code_simp
  qed
  ultimately show ?thesis
    unfolding kd(4) by (simp add: row_ok_def loop_ok_def dod_ok_def limits_ok_def in_range_def new_goal_row_def)
qed

lemma reachable_world_ok: "goal_reachable w \<Longrightarrow> world_ok w"
proof (induction rule: goal_reachable.induct)
  case (created stamp inp work g)
  then show ?case
    using created_row_ok by (simp add: world_ok_def tables_ok_def active_runs_def MAX_CONCURRENT_ITERATIONS_def)
next
  case (stepped w w')
  then show ?case using step_world_ok by blast
qed

end
