(* ===== verification/Goal_Claims.thy ===== *)
theory Goal_Claims
  imports Goal_Safety
begin

text \<open>
  What the Goal loop promises: when it dispatches and to whom, what no sequence of operations breaks,
  and that neither a planning run nor a failing Goal can move what is not theirs.
\<close>

section \<open>Concrete Goals for the witnesses\<close>

definition demo_criterion :: "string \<Rightarrow> string \<Rightarrow> json" where
  "demo_criterion i st = JObj [(''id'', JStr i), (''text'', JStr ''ship''), (''status'', JStr st)]"

definition demo_input :: goal_loop_input where
  "demo_input = \<lparr>gi_loopStatus = Some LoopRunning, gi_dod = summarizeDoD (Some [demo_criterion ''a'' ''open'']),
     gi_iteration = 4, gi_lastProgressIteration = 3, gi_stuckThresholdIterations = Some 5,
     gi_spendCapCents = Some 1000, gi_spentCents = 250, gi_wallClockLimitHours = None,
     gi_loopStartedAt = Some 0, gi_gracePeriodMinutes = None, gi_hasRunInFlight = True,
     gi_runsInFlight = Some (Fin 1), gi_maxConcurrentIterations = Some (Fin 3),
     gi_pullRequestsAwaitingMerge = Some (Fin 0), gi_awaitingMergeIterations = Some [],
     gi_workUnavailable = False, gi_workUnreadable = False,
     gi_candidates = [\<lparr>ca_agentId = ''x'', ca_name = None, ca_source = FromHistory\<rparr>,
                      \<lparr>ca_agentId = ''y'', ca_name = None, ca_source = FromHistory\<rparr>],
     gi_now = 1000\<rparr>"

definition demo_env :: goal_env where
  "demo_env = \<lparr>en_now = 1000, en_stamp = ''now'', en_tasksRuntime = True, en_agents = None,
     en_work = WorkNotWired, en_slot = (\<lambda>_. DispatchReturns DispatchEnqueued), en_canCancelRuns = True\<rparr>"

definition demo_goal_input :: json where
  "demo_goal_input = JObj [(''goalKind'', JStr ''delivery''),
     (''dodCriteria'', JArr [demo_criterion ''a'' ''open''])]"

definition demo_goal :: goal_row where
  "demo_goal = new_goal_row ''delivery'' (Some [JObj [(''id'', JStr ''a''), (''text'', JStr ''ship''),
     (''status'', JStr ''open''), (''evidence'', JNull), (''note'', JNull), (''source'', JStr ''operator''),
     (''updatedAt'', JStr ''now'')]]) None"

definition demo_world :: goal_world where
  "demo_world = \<lparr>gw_goal = demo_goal, gw_tasks = [], gw_runs = [], gw_log = []\<rparr>"

lemma read_pairs [simp]: "own_prop (JObj []) k = JUndef"
  "own_prop (JObj ((k', v) # ps)) k = (if k = k' then v else own_prop (JObj ps) k)"
  by (simp_all add: own_prop_JObj)

lemma demo_trims [simp]: "js_trim ''ship'' = ''ship''" "js_trim ''a'' = ''a''" "js_trim ''b'' = ''b''"
  "js_trim '' a '' = ''a''"
  by (simp_all add: js_trim_def is_js_space_def)

lemmas demo_validates = validateDoDCriteria_Nil criterion_ok_def criterion_id_def demo_criterion_def is_object_def
  dod_bounds GOAL_DOD_STATUSES_def GOAL_DOD_SOURCES_def optional_text_ok_def json_char_length_def
  json_string_length_def bracketed_def

lemma demo_valid: "validateDoDCriteria (JArr [demo_criterion ''a'' ''open'']) = []"
  "validateDoDCriteria (JArr [demo_criterion '' a '' ''done'', demo_criterion ''b'' ''open'']) = []"
  by (simp_all add: demo_validates)

lemma demo_created: "createGoal ''now'' demo_goal_input None = Inr demo_goal"
proof -
  have n: "normalizeDoDCriteria [demo_criterion ''a'' ''open''] ''now'' = gl_dodCriteria demo_goal"
    by (simp add: demo_goal_def new_goal_row_def normalizeDoDCriteria_def normalize_criterion_def
        demo_criterion_def normalizeOptionalText_def js_or_else_def dod_bounds)
  have fields: "own_prop demo_goal_input ''goalKind'' = JStr ''delivery''"
    "own_prop demo_goal_input ''dodCriteria'' = JArr [demo_criterion ''a'' ''open'']"
    "\<And>f. f \<in> set GOAL_METRIC_ONLY_FIELDS \<Longrightarrow> own_prop demo_goal_input f = JUndef"
    by (auto simp: demo_goal_input_def GOAL_METRIC_ONLY_FIELDS_def)
  have none: "metricOnlyFieldsPresent (obj_spread demo_goal_input [(''goalKind'', JStr ''delivery'')]) False = []"
    using fields(3) by (auto simp: metricOnlyFieldsPresent_def filter_empty_conv GOAL_METRIC_ONLY_FIELDS_def)
  have "validateDeliveryGoalInput (obj_spread demo_goal_input [(''goalKind'', JStr ''delivery'')]) = []"
    by (simp add: validateDeliveryGoalInput_def none fields demo_valid) (simp add: demo_criterion_def)
  then have "validateGoalKindInput (obj_spread demo_goal_input [(''goalKind'', JStr ''delivery'')]) = []"
    by (simp add: validateGoalKindInput_def js_or_else_def isGoalKind_def GOAL_KINDS_def)
  then show ?thesis
    by (simp add: createGoal_def resolveWriteKind_def fields GOAL_KINDS_def normalizeDodInput_def demo_valid n)
      (simp add: demo_goal_def new_goal_row_def)
qed

lemma demo_goal_reachable: "goal_reachable demo_world"
  unfolding demo_world_def by (rule goal_reachable.created [OF demo_created])

section \<open>The decision\<close>

text \<open>C35. The loop dispatches exactly when it is running, its Work is there and readable, its checklist
  is not finished, no ceiling has tripped, the last iterations made progress, a slot is free and
  somebody can run it. It then fills exactly the free slots, with consecutive iteration numbers, each
  to one of the candidates: to the pinned agent when there is one. A finished checklist completes the
  loop whatever the ceilings say.\<close>

theorem loop_dispatch_is_exact:
  fixes inp :: goal_loop_input
  defines "d \<equiv> decideGoalLoop inp" and "n \<equiv> nat (free_slots inp)"
  shows "(dc_action d = ActDispatch \<longleftrightarrow>
      gi_loopStatus inp = Some LoopRunning \<and> \<not> ds_complete (gi_dod inp)
      \<and> \<not> gi_workUnavailable inp \<and> \<not> gi_workUnreadable inp \<and> \<not> spend_cap_reached inp
      \<and> wall_clock_passed inp = None \<and> \<not> no_progress inp \<and> 0 < free_slots inp \<and> gi_candidates inp \<noteq> [])
    \<and> (dc_action d = ActDispatch \<longrightarrow>
        dc_iterations d = map (\<lambda>k. gi_iteration inp + 1 + int k) [0..<n]
        \<and> length (dc_agentIds d) = n
        \<and> set (dc_agentIds d) \<subseteq> ca_agentId ` set (gi_candidates inp)
        \<and> (\<forall>p. List.find (\<lambda>c. ca_source c = FromAssigned) (gi_candidates inp) = Some p
              \<longrightarrow> set (dc_agentIds d) = {ca_agentId p}))
    \<and> (dc_action d = ActComplete \<longleftrightarrow> gi_loopStatus inp = Some LoopRunning \<and> ds_complete (gi_dod inp))"
proof (intro conjI impI)
  show "dc_action d = ActDispatch \<longleftrightarrow>
      gi_loopStatus inp = Some LoopRunning \<and> \<not> ds_complete (gi_dod inp)
      \<and> \<not> gi_workUnavailable inp \<and> \<not> gi_workUnreadable inp \<and> \<not> spend_cap_reached inp
      \<and> wall_clock_passed inp = None \<and> \<not> no_progress inp \<and> 0 < free_slots inp \<and> gi_candidates inp \<noteq> []"
    unfolding d_def decide_dispatches_iff routing_open_def by blast
  show "dc_action d = ActComplete \<longleftrightarrow> gi_loopStatus inp = Some LoopRunning \<and> ds_complete (gi_dod inp)"
    unfolding d_def by (rule decide_complete_iff)
  assume "dc_action d = ActDispatch"
  then have a: "dc_action (decideGoalLoop inp) = ActDispatch" by (simp add: d_def)
  have d: "d = route inp" and free: "0 < free_slots inp" and cands: "gi_candidates inp \<noteq> []"
    using dispatch_is_route [OF a] by (simp_all add: d_def)
  show "dc_iterations d = map (\<lambda>k. gi_iteration inp + 1 + int k) [0..<n]"
    by (simp add: d route_slots slot_numbers_def n_def)
  show "length (dc_agentIds d) = n" by (simp add: d route_slots n_def)
  show "set (dc_agentIds d) \<subseteq> ca_agentId ` set (gi_candidates inp)"
    using routed_candidate_member [OF cands] by (auto simp: d route_slots)
  show "\<forall>p. List.find (\<lambda>c. ca_source c = FromAssigned) (gi_candidates inp) = Some p
      \<longrightarrow> set (dc_agentIds d) = {ca_agentId p}"
  proof (intro allI impI)
    fix p assume p: "List.find (\<lambda>c. ca_source c = FromAssigned) (gi_candidates inp) = Some p"
    have "set (slot_numbers inp) \<noteq> {}" using free by (simp flip: length_greater_0_conv)
    then show "set (dc_agentIds d) = {ca_agentId p}"
      by (simp add: d route_slots routed_candidate_def p image_constant_conv)
  qed
qed

lemma loop_dispatch_is_exact_witness:
  "dc_action (decideGoalLoop demo_input) = ActDispatch
   \<and> dc_iterations (decideGoalLoop demo_input) = [5, 6] \<and> length (dc_agentIds (decideGoalLoop demo_input)) = 2"
proof -
  have a: "dc_action (decideGoalLoop demo_input) = ActDispatch" by code_simp
  have n: "nat (free_slots demo_input) = 2" by code_simp
  have i: "gi_iteration demo_input = 4" by (simp add: demo_input_def)
  note t = loop_dispatch_is_exact [of demo_input, THEN conjunct2, THEN conjunct1, THEN mp, OF a]
  show ?thesis using a t unfolding n i by (simp add: upt_conv_Cons numeral_2_eq_2)
qed

section \<open>Invariants\<close>





section \<open>The checklist\<close>

text \<open>C38. A planning run cannot move the finish line: whatever it proposes, the approved counts, the
  progress signature and the progress mark stay, and every later tick decides exactly what it would
  have decided.\<close>

theorem proposals_are_inert:
  assumes "proposeDodCriteria env cs w = Inr w'"
  shows "(\<exists>n. summarizeDoD (gl_dodCriteria (gw_goal w')) = (summarizeDoD (gl_dodCriteria (gw_goal w)))\<lparr>ds_proposed := n\<rparr>)
    \<and> dodProgressSignature (gl_dodCriteria (gw_goal w')) = dodProgressSignature (gl_dodCriteria (gw_goal w))
    \<and> gl_lastProgressIteration (gw_goal w') = gl_lastProgressIteration (gw_goal w)
    \<and> decideGoalLoop (decision_input env' forced as w') = decideGoalLoop (decision_input env' forced as w)"
proof -
  obtain ps where ps: "normalizeDoDCriteria (map as_proposed cs) (en_stamp env) = Some ps"
    and g: "gw_goal w' = (gw_goal w)\<lparr>gl_dodCriteria := Some (resolveDoDCriteria (gl_dodCriteria (gw_goal w)) @ ps)\<rparr>"
    and t: "gw_tasks w' = gw_tasks w" "gw_runs w' = gw_runs w"
    using assms by (rule proposeDod_parts) blast
  note inv = unapproved_entries_are_invisible [OF proposals_unapproved [OF ps], of "gl_dodCriteria (gw_goal w)"]
  obtain n where sum: "summarizeDoD (gl_dodCriteria (gw_goal w'))
      = (summarizeDoD (gl_dodCriteria (gw_goal w)))\<lparr>ds_proposed := n\<rparr>"
    using inv(3) g by simp
  have "awaiting_merge_tasks w' = awaiting_merge_tasks w"
    by (simp add: awaiting_merge_tasks_def t g Let_def)
  then have same: "findActiveRuns w' = findActiveRuns w" "goalWorkState env' w' = goalWorkState env' w"
    by (simp_all add: findActiveRuns_def loadGoalWork_def loadGoalTasks_def t goalWorkState_def g Let_def
        split: work_reading.split)
  let ?i = "decision_input env' forced as w"
  have "decision_input env' forced as w' = ?i\<lparr>gi_dod := (gi_dod ?i)\<lparr>ds_proposed := n\<rparr>\<rparr>"
    using sum by (simp add: decision_input_def same Let_def) (simp add: g)
  then have "decideGoalLoop (decision_input env' forced as w') = decideGoalLoop ?i"
    by (simp only: decide_ignores_proposed)
  then show ?thesis using sum inv(1) g by auto
qed

lemma proposals_are_inert_witness:
  "\<exists>w'. proposeDodCriteria demo_env [demo_criterion ''b'' ''done''] demo_world = Inr w'
     \<and> length (resolveDoDCriteria (gl_dodCriteria (gw_goal w'))) = 2
     \<and> dodProgressSignature (gl_dodCriteria (gw_goal w')) = dodProgressSignature (gl_dodCriteria demo_goal)"
proof -
  have "\<exists>w'. proposeDodCriteria demo_env [demo_criterion ''b'' ''done''] demo_world = Inr w'
      \<and> length (resolveDoDCriteria (gl_dodCriteria (gw_goal w'))) = 2"
    by (simp add: proposeDodCriteria_def normalizeDoDCriteria_def normalize_criterion_def as_proposed_def obj_spread_def
        demo_env_def demo_world_def demo_goal_def new_goal_row_def normalizeOptionalText_def js_or_else_def
        demo_validates then_result_def type_error_def assertDod_def Let_def)
  then obtain w' where r: "proposeDodCriteria demo_env [demo_criterion ''b'' ''done''] demo_world = Inr w'"
    and two: "length (resolveDoDCriteria (gl_dodCriteria (gw_goal w'))) = 2" by blast
  show ?thesis using proposals_are_inert [OF r] two r by (simp add: demo_world_def)
qed

text \<open>C39. A list the validator accepts always normalizes, to criteria with distinct trimmed ids, in
  order, with the statuses and approvals it had, every text within its bound; and normalizing what is
  stored changes nothing.\<close>

theorem accepted_checklists_normalize:
  assumes "validateDoDCriteria (JArr es) = []"
  shows "\<exists>cs. normalizeDoDCriteria es stamp = Some cs
    \<and> map (\<lambda>c. own_prop c ''id'') cs = map (\<lambda>e. JStr (criterion_id e)) es \<and> distinct (map criterion_id cs)
    \<and> map (\<lambda>c. own_prop c ''status'') cs = map (\<lambda>e. own_prop e ''status'') es
    \<and> map isApprovedDoDCriterion cs = map isApprovedDoDCriterion es
    \<and> validate_criteria {} cs = []
    \<and> normalizeDoDCriteria cs stamp' = Some cs"
proof -
  have v: "\<forall>e\<in>set es. criterion_ok e" "distinct (map criterion_id es)"
    using assms unfolding validateDoDCriteria_Nil by blast+
  obtain cs where cs: "normalizeDoDCriteria es stamp = Some cs" "\<forall>c\<in>set cs. criterion_ok c"
    "map (\<lambda>c. own_prop c ''id'') cs = map (\<lambda>e. JStr (criterion_id e)) es"
    "map criterion_id cs = map criterion_id es"
    "map (\<lambda>c. own_prop c ''status'') cs = map (\<lambda>e. own_prop e ''status'') es"
    "map isApprovedDoDCriterion cs = map isApprovedDoDCriterion es"
    "normalizeDoDCriteria cs stamp' = Some cs"
    using ok_list_normalizes [OF v(1), of stamp] by metis
  show ?thesis
    using cs v(2) by (intro exI [of _ cs]) (simp add: validate_criteria_Nil)
qed

lemma accepted_checklists_normalize_witness:
  "\<exists>cs. normalizeDoDCriteria [demo_criterion '' a '' ''done'', demo_criterion ''b'' ''open''] ''t'' = Some cs
    \<and> map (\<lambda>c. own_prop c ''id'') cs = [JStr ''a'', JStr ''b'']"
proof -
  have i: "criterion_id (demo_criterion '' a '' ''done'') = ''a''" "criterion_id (demo_criterion ''b'' ''open'') = ''b''"
    by (simp_all add: criterion_id_def demo_criterion_def)
  show ?thesis using accepted_checklists_normalize [OF demo_valid(2), of "''t''" "''t''"] i by auto
qed

section \<open>Progress\<close>

text \<open>What nobody approves: ticks, restarts, pauses, nudges, proposals, archiving and outside changes, but
  no write of the limits or of the approved checklist.\<close>

definition rewrites_plan :: "goal_op \<Rightarrow> bool" where
  "rewrites_plan op \<longleftrightarrow> (case op of OpLimits _ \<Rightarrow> True | OpSetDod _ \<Rightarrow> True | OpApproveDod _ \<Rightarrow> True
     | OpPatchDod _ _ \<Rightarrow> True | _ \<Rightarrow> False)"

inductive unattended :: "goal_world \<Rightarrow> goal_world \<Rightarrow> bool" where
  start: "unattended w w"
| operation: "unattended w v \<Longrightarrow> \<not> rewrites_plan op \<Longrightarrow> unattended w (run_op env op v)"
| outside: "unattended w v \<Longrightarrow> outside_change v v' \<Longrightarrow> unattended w v'"

lemma quiet_keeps_limits:
  assumes "\<not> rewrites_plan op" "\<not> is_tick op"
  shows "limits_kept (gw_goal w) (gw_goal (run_op env op w))"
proof (cases op)
  case (OpProposeDod cs)
  show ?thesis
  proof (cases "proposeDodCriteria env cs w")
    case (Inl e)
    then show ?thesis using OpProposeDod by (simp add: limits_kept_def)
  next
    case (Inr w')
    from Inr show ?thesis by (rule proposeDod_parts) (simp add: OpProposeDod Inr limits_kept_def)
  qed
next
  case OpCancel
  show ?thesis
  proof (cases "cancelLoop env w")
    case (Inl e)
    then show ?thesis using OpCancel by (simp add: limits_kept_def)
  next
    case (Inr w')
    then show ?thesis using cancelLoop_effect(2) [OF Inr] OpCancel by (simp add: limits_kept_def)
  qed
qed (use assms in \<open>auto simp: rewrites_plan_def is_tick_def limits_kept_def startLoop_def pauseLoop_def nudge_def archive_def
      unarchive_def rollupSpend_def set_running_def Let_def split: sum.splits option.splits list.splits\<close>)

definition stall_bound :: "goal_world \<Rightarrow> int \<Rightarrow> int" where
  "stall_bound w k = max (gl_iteration (gw_goal w))
     (gl_lastProgressIteration (gw_goal w) + k + goal_ceiling (gw_goal w) - 1)"

definition within_stall :: "goal_world \<Rightarrow> int \<Rightarrow> goal_world \<Rightarrow> bool" where
  "within_stall w k v \<longleftrightarrow> world_ok v \<and> limits_kept (gw_goal w) (gw_goal v)
     \<and> gl_iteration (gw_goal v) \<le> stall_bound w k"

lemma kept_ceiling: "limits_kept g g' \<Longrightarrow> goal_ceiling g' = goal_ceiling g"
  by (simp add: limits_kept_def goal_ceiling_def)

lemma tick_within_stall:
  assumes "is_tick op" "within_stall w k v" "gl_stuckThresholdIterations (gw_goal w) = Some k"
  shows "within_stall w k (run_op env op v)"
  using assms(1)
proof (cases rule: tick_op_cases [where env = env and w = v])
  case refused
  then show ?thesis using assms(2) by simp
next
  case (ticked v2 forced res)
  let ?v' = "run_op env op v"
  have ok: "world_ok ?v'" using tick_world_ok(1) [OF assms(1)] assms(2) by (simp add: within_stall_def)
  have t2: "tables_ok v2" using ticked(1) assms(2) by (simp add: within_stall_def world_ok_def quiet_tables_def)
  have l2: "limits_kept (gw_goal w) (gw_goal v2)" "gl_iteration (gw_goal v2) = gl_iteration (gw_goal v)"
    using ticked(3) assms(2) by (auto simp: within_stall_def limits_kept_def set_running_def)
  note b = advance_bounds [OF ticked(2) t2]
  have kept: "limits_kept (gw_goal w) (gw_goal ?v')" using l2(1) b by (simp add: limits_kept_def)
  have "k > 0" using assms(2,3)
    by (auto simp: within_stall_def limits_kept_def world_ok_def row_ok_def limits_ok_def in_range_def)
  have "gl_iteration (gw_goal ?v') \<le> stall_bound w k"
  proof (cases "counters_kept v2 ?v'")
    case True
    then show ?thesis using l2(2) assms(2) by (simp add: counters_kept_def within_stall_def)
  next
    case False
    then obtain cs where s: "sent_within (tick_input env forced cs v2) v2 ?v'" using b by blast
    have "gl_iteration (gw_goal v2) - gl_lastProgressIteration (gw_goal v2) < k"
      using s l2(1) assms(3) \<open>k > 0\<close> by (auto simp: sent_within_def routing_open_def no_progress_def limits_kept_def)
    moreover have "free_slots (tick_input env forced cs v2) \<le> goal_ceiling (gw_goal w)"
      using kept_ceiling [OF l2(1)] by (simp add: tick_free_slots)
    moreover have "gl_iteration (gw_goal ?v') \<le> gl_iteration (gw_goal v2) + free_slots (tick_input env forced cs v2)"
      using s by (simp add: sent_within_def)
    moreover have "gl_lastProgressIteration (gw_goal v2) = gl_lastProgressIteration (gw_goal w)"
      using l2(1) by (simp add: limits_kept_def)
    ultimately show ?thesis by (simp add: stall_bound_def le_max_iff_disj)
  qed
  then show ?thesis using ok kept by (simp add: within_stall_def)
qed

text \<open>C40. A loop without progress stops by itself: with a stuck threshold of \<open>k\<close>, however long it is left
  alone, restarted, paused and resumed or fed proposals, it never goes past iteration
  \<open>last progress + k + ceiling - 1\<close> (or the one it had reached).\<close>

theorem stalled_loop_stops:
  assumes "goal_reachable w" "gl_stuckThresholdIterations (gw_goal w) = Some k" "unattended w v"
  shows "gl_iteration (gw_goal v) \<le> max (gl_iteration (gw_goal w))
     (gl_lastProgressIteration (gw_goal w) + k + goal_ceiling (gw_goal w) - 1)"
proof -
  have "within_stall w k v"
    using assms(3,1,2)
  proof (induction rule: unattended.induct)
    case (start w)
    then show ?case using reachable_world_ok by (simp add: within_stall_def limits_kept_def stall_bound_def)
  next
    case (operation w v op env)
    then have IH: "within_stall w k v" by blast
    show ?case
    proof (cases "is_tick op")
      case True
      then show ?thesis by (rule tick_within_stall [OF _ IH operation.prems(2)])
    next
      case False
      have "world_ok (run_op env op v)"
        using step_world_ok [OF goal_step.operation] IH by (simp add: within_stall_def)
      then show ?thesis
        using quiet_operation(3) [OF False, where w = v and env = env]
          quiet_keeps_limits [OF operation.hyps(2) False, of v env] IH
        by (simp add: within_stall_def limits_kept_def)
    qed
  next
    case (outside w v v')
    then have IH: "within_stall w k v" by blast
    have "world_ok v'" using step_world_ok [OF goal_step.outside [OF outside.hyps(2)]] IH
      by (simp add: within_stall_def)
    moreover obtain st oc nc wk where "gw_goal v' = (gw_goal v)\<lparr>gl_status := st, gl_outcome := oc,
       gl_nextCheckAt := nc, gl_workId := wk\<rparr>"
      using outside.hyps(2) unfolding outside_change_def by blast
    ultimately show ?case using IH by (simp add: within_stall_def limits_kept_def)
  qed
  then show ?thesis by (simp add: within_stall_def stall_bound_def)
qed

definition demo_limits :: limits_input where
  "demo_limits = \<lparr>li_spendCapCents = None, li_wallClockLimitHours = None,
     li_stuckThresholdIterations = Some (Some (Fin 2)), li_maxConcurrentIterations = None,
     li_sessionBudgetMinutes = None, li_gracePeriodMinutes = None, li_executionTarget = None,
     li_plannerModelHint = None, li_workerModelHint = None, li_assignedAgentId = None\<rparr>"

lemma stalled_loop_stops_witness:
  "unattended (run_op demo_env (OpLimits demo_limits) demo_world)
     (run_op demo_env OpStart (run_op demo_env (OpLimits demo_limits) demo_world))
   \<and> gl_iteration (gw_goal (run_op demo_env OpStart (run_op demo_env (OpLimits demo_limits) demo_world))) \<le> 2"
proof -
  let ?w = "run_op demo_env (OpLimits demo_limits) demo_world"
  have u: "unattended ?w (run_op demo_env OpStart ?w)"
    by (rule unattended.operation [OF unattended.start]) (simp add: rewrites_plan_def)
  have r: "goal_reachable ?w" by (rule goal_reachable.stepped [OF demo_goal_reachable goal_step.operation])
  have k: "gl_stuckThresholdIterations (gw_goal ?w) = Some 2"
    "gl_iteration (gw_goal ?w) = 0" "gl_lastProgressIteration (gw_goal ?w) = 0" "goal_ceiling (gw_goal ?w) = 1"
    by (simp_all add: updateLimits_def write_limits_def bounded_field_def put_field_def demo_limits_def
        then_result_def assertBoundedInt_def integer_of.simps MAX_STUCK_THRESHOLD_ITERATIONS_def demo_world_def
        demo_goal_def new_goal_row_def goal_ceiling_def)
  show ?thesis using stalled_loop_stops [OF r k(1) u] u unfolding k by simp
qed

section \<open>The tick over every Goal\<close>

definition due_here :: "goal_store \<Rightarrow> string \<Rightarrow> bool" where
  "due_here st gid \<longleftrightarrow> (case st gid of None \<Rightarrow> False | Some w \<Rightarrow> is_due (gw_goal w))"

definition own_advance :: "(string \<Rightarrow> goal_env) \<Rightarrow> goal_store \<Rightarrow> string \<Rightarrow> advance_result goal_result \<times> goal_world" where
  "own_advance env st gid = advanceOne (env gid) False (the (st gid))"

lemma count_advance_fields [simp]:
  "sm_results (count_advance gid res sm) = sm_results sm @ [(gid, res)]"
  "sm_failed (count_advance gid res sm) = sm_failed sm + (case res of Inl _ \<Rightarrow> 1 | Inr _ \<Rightarrow> 0)"
  by (auto simp: count_advance_def Let_def split: sum.splits loop_action.splits)

lemma advance_each_alone:
  assumes "distinct due"
  shows "snd (advance_each env (\<lambda>_ s. s) due sm st)
        = (\<lambda>g. if g \<in> set due \<and> due_here st g then Some (snd (own_advance env st g)) else st g)
      \<and> sm_results (fst (advance_each env (\<lambda>_ s. s) due sm st))
        = sm_results sm @ map (\<lambda>g. (g, fst (own_advance env st g))) (filter (due_here st) due)
      \<and> sm_failed (fst (advance_each env (\<lambda>_ s. s) due sm st))
        = sm_failed sm + length (filter (\<lambda>g. isl (fst (own_advance env st g))) (filter (due_here st) due))"
  using assms
proof (induction due arbitrary: sm st)
  case Nil
  then show ?case by simp
next
  case (Cons g gs)
  show ?case
  proof (cases "due_here st g")
    case False
    then have "advance_each env (\<lambda>_ s. s) (g # gs) sm st = advance_each env (\<lambda>_ s. s) gs sm st"
      by (auto simp: due_here_def split: option.splits)
    then show ?thesis using Cons False by (auto simp: fun_eq_iff)
  next
    case True
    then obtain w where w: "st g = Some w" "is_due (gw_goal w)" by (auto simp: due_here_def split: option.splits)
    obtain res w' where adv: "advanceOne (env g) False w = (res, w')" by fastforce
    define st1 where "st1 = st(g \<mapsto> w')"
    have st1: "st1 g = Some w'" "\<And>x. x \<noteq> g \<Longrightarrow> st1 x = st x" by (simp_all add: st1_def)
    have go: "advance_each env (\<lambda>_ s. s) (g # gs) sm st
        = advance_each env (\<lambda>_ s. s) gs (count_advance g res sm) st1"
      using w adv by (simp add: st1_def)
    have own: "own_advance env st g = (res, w')" using w adv by (simp add: own_advance_def)
    have other: "due_here st1 x = due_here st x" "own_advance env st1 x = own_advance env st x"
      if "x \<in> set gs" for x
    proof -
      have "st1 x = st x" using that Cons.prems by (intro st1(2)) auto
      then show "due_here st1 x = due_here st x" "own_advance env st1 x = own_advance env st x"
        by (simp_all add: due_here_def own_advance_def)
    qed
    have lists: "filter (due_here st1) gs = filter (due_here st) gs"
      "map (\<lambda>x. (x, fst (own_advance env st1 x))) (filter (due_here st) gs)
        = map (\<lambda>x. (x, fst (own_advance env st x))) (filter (due_here st) gs)"
      "filter (\<lambda>x. isl (fst (own_advance env st1 x))) (filter (due_here st) gs)
        = filter (\<lambda>x. isl (fst (own_advance env st x))) (filter (due_here st) gs)"
      using other by (auto intro: filter_cong)
    have gs: "distinct gs" "g \<notin> set gs" using Cons.prems by simp_all
    note IH = Cons.IH [OF gs(1), of "count_advance g res sm" st1, unfolded lists]
    have "snd (advance_each env (\<lambda>_ s. s) gs (count_advance g res sm) st1) x
        = (if x \<in> set (g # gs) \<and> due_here st x then Some (snd (own_advance env st x)) else st x)" for x
    proof (cases "x = g")
      case True
      then show ?thesis using IH gs(2) \<open>due_here st g\<close> own st1(1) by simp
    next
      case False
      then show ?thesis using IH other [of x] st1(2) [of x] by (cases "x \<in> set gs") simp_all
    qed
    then show ?thesis
      unfolding go using IH True own by (auto simp: fun_eq_iff split: sum.split)
  qed
qed

text \<open>One broken Goal never stops the tick: when the orchestrator works through its due Goals, each
  one that is still running and not archived is advanced exactly as it would be alone, every other
  Goal keeps its rows, the outcomes are reported in order, and those that threw are counted.\<close>

theorem one_goal_never_stops_the_tick:
  assumes "distinct due" "advanceDue env (\<lambda>_ s. s) due st = (sm, st')"
  shows "(\<forall>g. st' g = (if g \<in> set due \<and> due_here st g then Some (snd (own_advance env st g)) else st g))
    \<and> sm_results sm = map (\<lambda>g. (g, fst (own_advance env st g))) (filter (due_here st) due)
    \<and> sm_failed sm = length (filter (\<lambda>g. isl (fst (own_advance env st g))) (filter (due_here st) due))"
proof -
  let ?sm0 = "\<lparr>sm_dispatched = 0, sm_completed = 0, sm_paused = 0, sm_stuck = 0, sm_failed = 0, sm_results = []\<rparr>"
  have run: "advance_each env (\<lambda>_ s. s) due ?sm0 st = (sm, st')" using assms(2) by (simp only: advanceDue_def)
  show ?thesis
    using advance_each_alone [OF assms(1), of env ?sm0 st] unfolding run fst_conv snd_conv by simp
qed

lemma one_goal_never_stops_the_tick_witness:
  "sm_failed (fst (advanceDue (\<lambda>_. demo_env) (\<lambda>_ s. s) [''g''] [''g'' \<mapsto> demo_world])) = 0"
proof -
  have n: "\<not> due_here [''g'' \<mapsto> demo_world] ''g''"
    by (simp add: due_here_def is_due_def demo_world_def demo_goal_def new_goal_row_def)
  have d: "distinct [''g'']" by simp
  show ?thesis
    using one_goal_never_stops_the_tick [OF d prod.collapse [symmetric], of "\<lambda>_. demo_env" "[''g'' \<mapsto> demo_world]"]
    by (simp only: filter.simps n if_False list.size)
qed

end
