(* ===== verification/Goal_Findings.thy ===== *)
theory Goal_Findings
  imports Goal_Claims
begin

text \<open>
  Where the Goal loop does not do what it is written to do: a refused dispatch counts as an iteration,
  runs beyond the five hundredth Task are not seen, a cancel stops one session of several, a Task
  filed before its dispatch throws is filed again, and proposals are cut to size before they are
  checked.
\<close>

section \<open>A refused dispatch\<close>

text \<open>A plain Goal: running, pinned, serial, with no clock, no stuck threshold, no Work and an unmet
  checklist, whose spend so far is under its cap.\<close>

definition plain_loop :: "string \<Rightarrow> goal_world \<Rightarrow> bool" where
  "plain_loop a w \<longleftrightarrow> gl_loopStatus (gw_goal w) = Some LoopRunning
     \<and> \<not> ds_complete (summarizeDoD (gl_dodCriteria (gw_goal w)))
     \<and> gl_workId (gw_goal w) = None \<and> gl_wallClockLimitHours (gw_goal w) = None
     \<and> gl_stuckThresholdIterations (gw_goal w) = None \<and> gl_maxConcurrentIterations (gw_goal w) = None
     \<and> gl_assignedAgentId (gw_goal w) = Some a \<and> gw_runs w = []
     \<and> (case gl_spendCapCents (gw_goal w) of None \<Rightarrow> True | Some c \<Rightarrow> 0 < c)"

text \<open>Everything is wired, and every dispatch is refused before a run row exists.\<close>

definition refusing :: "string \<Rightarrow> string \<Rightarrow> goal_env \<Rightarrow> bool" where
  "refusing a e env \<longleftrightarrow> en_tasksRuntime env \<and> en_slot env = (\<lambda>_. DispatchReturns (DispatchRefused e))
     \<and> (case en_agents env of None \<Rightarrow> True | Some d \<Rightarrow> ad_find d a \<noteq> None)"

lemma no_runs_seen: "gw_runs w = [] \<Longrightarrow> findActiveRuns w = [] \<and> computeSpend w = 0"
  by (simp add: findActiveRuns_def loadGoalWork_def computeSpend_def started_first_def Let_def)

lemma pinned_candidates:
  assumes "plain_loop a w" "refusing a e env"
  obtains p where "resolveCandidates env (refresh_spend w) = Inr [p]" "ca_agentId p = a" "ca_source p = FromAssigned"
  using assms by (auto simp: resolveCandidates_def plain_loop_def refusing_def Let_def split: option.splits)

lemma plain_tick:
  assumes "plain_loop a w" "refusing a e env" "advanceOne env False w = (res, w')"
  shows "plain_loop a w' \<and> length (gw_tasks w') = Suc (length (gw_tasks w))
    \<and> gl_iteration (gw_goal w') = gl_iteration (gw_goal w) + 1
    \<and> (\<exists>r. res = Inr r \<and> ar_action r = ActDispatch)"
proof -
  obtain p where p: "resolveCandidates env (refresh_spend w) = Inr [p]" "ca_agentId p = a" "ca_source p = FromAssigned"
    using pinned_candidates [OF assms(1,2)] .
  define inp where "inp = tick_input env False [p] w"
  have seen: "findActiveRuns w = []" "computeSpend w = 0"
    using no_runs_seen assms(1) by (simp_all add: plain_loop_def)
  have await: "awaiting_count env w = 0"
    using assms(1) by (simp add: awaiting_count_def goalWorkState_def plain_loop_def)
  have free: "free_slots inp = 1"
    using assms(1) seen await by (simp add: inp_def tick_free_slots goal_ceiling_def plain_loop_def)
  have cs: "gi_candidates inp = [p]" by (simp add: inp_def tick_input_def decision_input_def Let_def)
  have ws: "ws_unavailable (goalWorkState env w) = False" "ws_unreadable (goalWorkState env w) = False"
    using assms(1) by (simp_all add: goalWorkState_def plain_loop_def)
  have clear: "routing_open inp"
    using assms(1) seen ws
    by (auto simp: routing_open_def inp_def plain_loop_def spend_cap_reached_def wall_clock_passed_def no_progress_def
        split: option.splits) (simp_all add: tick_input_def decision_input_def Let_def)
  have "dc_action (decideGoalLoop inp) = ActDispatch"
    unfolding decide_dispatches_iff using clear free cs by simp
  note d = dispatch_is_route(1) [OF this]
  have nums: "slot_numbers inp = [gl_iteration (gw_goal w) + 1]"
    by (simp add: slot_numbers_def free) (simp add: inp_def)
  have rc: "routed_candidate inp i = p" for i by (simp add: routed_candidate_def cs p(3))
  have pairs: "slot_pairs g (route inp) = [(gl_iteration (gw_goal w) + 1, a)]" for g
    using slot_pairs_route [of inp g] free by (simp add: nums rc p(2))
  have act: "dc_action (route inp) = ActDispatch" by simp
  have step: "applyDispatch env (route inp) (refresh_spend w) = (res, w')"
    using assms(3) p(1) d unfolding advanceOne_def Let_def
    by (simp add: apply_decision_def inp_def tick_input_def)
  show ?thesis
    using step assms(1,2)
    by (auto simp: applyDispatch_def pairs Let_def refusing_def plain_loop_def dispatch_run_row_def add_run_def
        add_task_def make_slot_def)
qed

text \<open>A dispatch that is refused (no agent with commit permission, a paused switch, an exhausted
  admission) leaves no run, so the loop sees nothing in flight and nothing spent, counts the
  iteration as dispatched and files the next Task on the next tick: one Task per tick, without end,
  whatever the spend cap.\<close>

theorem refused_dispatches_never_stop:
  assumes "plain_loop a w" "refusing a e env"
  shows "plain_loop a (((\<lambda>v. snd (advanceOne env False v)) ^^ n) w)
    \<and> length (gw_tasks (((\<lambda>v. snd (advanceOne env False v)) ^^ n) w)) = length (gw_tasks w) + n
    \<and> gl_iteration (gw_goal (((\<lambda>v. snd (advanceOne env False v)) ^^ n) w)) = gl_iteration (gw_goal w) + int n"
proof (induction n)
  case 0
  then show ?case using assms(1) by simp
next
  case (Suc n)
  define v where "v = ((\<lambda>v. snd (advanceOne env False v)) ^^ n) w"
  have "plain_loop a v" using Suc v_def by simp
  then show ?case
    using plain_tick [OF _ assms(2), of v "fst (advanceOne env False v)" "snd (advanceOne env False v)"] Suc
    by (simp add: v_def)
qed

section \<open>Runs the loop does not see\<close>

lemma visible_task_ids:
  assumes "tables_ok w"
  shows "set (map gt_id (loadGoalTasks w)) = {i. i < length (gw_tasks w) \<and> i < MAX_GOAL_TASKS}"
proof -
  have "map gt_id (loadGoalTasks w) = take MAX_GOAL_TASKS [0..<length (gw_tasks w)]"
    using assms by (simp add: loadGoalTasks_def tables_ok_def flip: take_map)
  also have "\<dots> = [0..<min MAX_GOAL_TASKS (length (gw_tasks w))]"
    by (cases "MAX_GOAL_TASKS \<le> length (gw_tasks w)") simp_all
  finally show ?thesis by auto
qed

text \<open>The loop reads the oldest five hundred Tasks: of the runs in flight and of the money spent it
  counts those of these Tasks only. A run of a later Task neither holds a slot nor reaches the cap.\<close>

theorem later_runs_are_invisible:
  assumes "tables_ok w"
  shows "length (findActiveRuns w) = length (filter (\<lambda>r. is_active r \<and> gr_taskId r < MAX_GOAL_TASKS) (gw_runs w))
    \<and> computeSpend w = sum_list (map run_cost (filter (\<lambda>r. gr_taskId r < MAX_GOAL_TASKS) (gw_runs w)))"
proof -
  have seen: "filter (\<lambda>r. gr_taskId r \<in> set (map gt_id (loadGoalTasks w))) (gw_runs w)
      = filter (\<lambda>r. gr_taskId r < MAX_GOAL_TASKS) (gw_runs w)"
    unfolding visible_task_ids [OF assms] using assms by (intro filter_cong) (auto simp: tables_ok_def)
  have sums: "sum_list (map run_cost (started_first rs)) = sum_list (map run_cost rs)" for rs
    by (metis mset_map mset_started_first sum_mset_sum_list)
  show ?thesis
    unfolding findActiveRuns_def computeSpend_def loadGoalWork_def Let_def seen
    by (simp add: length_filter_started_first sums conj_commute)
qed

section \<open>One session of several\<close>

text \<open>Cancelling the loop cancels the first run in flight; with concurrent iterations the others keep
  running and spending on a loop that is over.\<close>

theorem cancel_stops_one_session:
  assumes "cancelLoop env w = Inr w'" "tables_ok w"
  shows "active_runs w \<le> active_runs w' + 1 \<and> gl_loopStatus (gw_goal w') = Some LoopCancelled"
proof -
  obtain c w1 where c: "cancelActiveRun env w = Inr (c, w1)" "active_runs w' = active_runs w1"
    using assms(1) by (auto simp: cancelLoop_def active_runs_def)
  have one: "length (filter is_active rs) \<le> length (filter is_active (map (\<lambda>r. if gr_id r = i \<and> is_active r
      then r\<lparr>gr_status := RunCancelled\<rparr> else r) rs)) + 1" if "distinct (map gr_id rs)" for rs i
    using that
  proof (induction rs)
    case (Cons r rs)
    have rest: "map (\<lambda>r. if gr_id r = gr_id x \<and> is_active r then r\<lparr>gr_status := RunCancelled\<rparr> else r) rs = rs"
      if "gr_id x \<notin> gr_id ` set rs" for x :: goal_run
      using that by (intro map_idI) (auto simp: image_iff)
    show ?case
    proof (cases "gr_id r = i")
      case True
      then show ?thesis using Cons.prems rest [of r] by (auto simp del: length_filter_map)
    next
      case False
      then show ?thesis using Cons by (auto simp del: length_filter_map)
    qed
  qed simp
  have "distinct (map gr_id (gw_runs w))" using assms(2) by (simp add: tables_ok_def)
  then have "active_runs w \<le> active_runs w1 + 1"
    using c(1) one by (auto simp: cancelActiveRun_def active_runs_def cancel_run_def split: list.splits if_splits
        simp del: length_filter_map)
  then show ?thesis using c(2) cancelLoop_effect(2) [OF assms(1)] by simp
qed

section \<open>A Task filed twice\<close>

text \<open>When the dispatch of the first slot throws, its Task is filed and the counter stays, so the next
  tick files a second Task of the same number.\<close>

definition throwing_env :: goal_env where
  "throwing_env = demo_env\<lparr>en_slot := (\<lambda>_. DispatchThrows ''missions'')\<rparr>"

definition pinned_world :: goal_world where
  "pinned_world = \<lparr>gw_goal = (set_running demo_env demo_goal)\<lparr>gl_assignedAgentId := Some ''x''\<rparr>,
     gw_tasks = [], gw_runs = [], gw_log = []\<rparr>"

theorem thrown_dispatch_files_twice:
  "map gt_iteration (gw_tasks (snd (advanceOne throwing_env False (snd (advanceOne throwing_env False pinned_world)))))
   = [Some 1, Some 1]"
  by code_simp

section \<open>Proposals are cut before they are checked\<close>

text \<open>A text of five hundred and one characters is refused from an operator; from a planning run it is
  cut to five hundred and stored, because the entries are normalized before they are validated.\<close>

definition letters :: "nat \<Rightarrow> string" where
  "letters n = replicate n CHR ''a''"

lemma letters_facts [simp]: "length (letters n) = n" "js_trim (letters n) = letters n"
  "json_string_length (letters n) = n + 2" "letters n = [] \<longleftrightarrow> n = 0" "take k (letters n) = letters (min k n)"
proof -
  show "js_trim (letters n) = letters n"
    by (rule js_trim_no_space) (simp add: letters_def is_js_space_def list_all_iff)
  have "json_char_length CHR ''a'' = 1" by (simp add: json_char_length_def)
  then show "json_string_length (letters n) = n + 2"
    by (simp add: json_string_length_def letters_def sum_list_replicate)
qed (simp_all add: letters_def)

lemmas key_lengths = json_string_length_def [of "''id''"] json_string_length_def [of "''text''"]
  json_string_length_def [of "''status''"] json_string_length_def [of "''evidence''"]
  json_string_length_def [of "''note''"] json_string_length_def [of "''source''"]
  json_string_length_def [of "''updatedAt''"] json_string_length_def [of "''open''"]
  json_string_length_def [of "''operator''"] json_string_length_def [of "''a''"]
  json_string_length_def [of "''b''"] json_string_length_def [of "''ship''"] json_string_length_def [of "''now''"]
  json_string_length_def [of "''planner''"] json_string_length_def [of "''proposed''"]
  json_char_length_def bracketed_def

theorem proposals_are_cut_unchecked:
  "validateDoDCriteria (JArr [JObj [(''id'', JStr ''b''), (''text'', JStr (letters 501)), (''status'', JStr ''open'')]]) \<noteq> []
   \<and> (\<exists>w'. proposeDodCriteria demo_env
          [JObj [(''id'', JStr ''b''), (''text'', JStr (letters 501)), (''status'', JStr ''open'')]] demo_world = Inr w'
        \<and> own_prop (last (resolveDoDCriteria (gl_dodCriteria (gw_goal w')))) ''text'' = JStr (letters 500))"
proof
  show "validateDoDCriteria (JArr [JObj [(''id'', JStr ''b''), (''text'', JStr (letters 501)), (''status'', JStr ''open'')]]) \<noteq> []"
    by (simp add: validateDoDCriteria_Nil criterion_ok_def dod_bounds)
  show "\<exists>w'. proposeDodCriteria demo_env
          [JObj [(''id'', JStr ''b''), (''text'', JStr (letters 501)), (''status'', JStr ''open'')]] demo_world = Inr w'
        \<and> own_prop (last (resolveDoDCriteria (gl_dodCriteria (gw_goal w')))) ''text'' = JStr (letters 500)"
    by (simp add: proposeDodCriteria_def normalizeDoDCriteria_def normalize_criterion_def as_proposed_def obj_spread_def
        demo_env_def demo_world_def demo_goal_def new_goal_row_def normalizeOptionalText_def js_or_else_def
        validateDoDCriteria_Nil criterion_ok_def criterion_id_def is_object_def dod_bounds GOAL_DOD_STATUSES_def
        GOAL_DOD_SOURCES_def optional_text_ok_def then_result_def type_error_def assertDod_def Let_def key_lengths)
qed

section \<open>A checklist too large to tick\<close>

text \<open>Forty-one criteria with full texts and evidence: 63,633 characters of JSON as submitted.\<close>

definition full_criterion :: "nat \<Rightarrow> json" where
  "full_criterion i = JObj [(''id'', JStr (decimal (10 + i))), (''text'', JStr (letters 500)),
     (''status'', JStr ''open''), (''evidence'', JStr (letters 1000))]"

definition full_list :: "json list" where
  "full_list = map full_criterion [0..<41]"

definition stored_criterion :: "nat \<Rightarrow> string \<Rightarrow> string \<Rightarrow> json" where
  "stored_criterion i st stamp = JObj [(''id'', JStr (decimal (10 + i))), (''text'', JStr (letters 500)),
     (''status'', JStr st), (''evidence'', JStr (letters 1000)), (''note'', JNull),
     (''source'', JStr ''operator''), (''updatedAt'', JStr stamp)]"

definition is_stored :: "json \<Rightarrow> bool" where
  "is_stored c \<longleftrightarrow> (\<exists>i<41. \<exists>st stamp. c = stored_criterion i st stamp)"

lemma is_stored_criterion [simp]: "i < 41 \<Longrightarrow> is_stored (stored_criterion i st stamp)"
  by (auto simp: is_stored_def)

lemma two_digits:
  assumes "i < 41"
  shows "length (decimal (10 + i)) = 2" "js_trim (decimal (10 + i)) = decimal (10 + i)"
    "json_string_length (decimal (10 + i)) = 4"
proof -
  have d: "decimal (10 + i) = [digit_char ((10 + i) div 10), digit_char (i mod 10)]"
    using assms by (subst decimal.simps) (simp add: decimal.simps [of "Suc (i div 10)"])
  show "length (decimal (10 + i)) = 2" by (simp add: d)
  show "js_trim (decimal (10 + i)) = decimal (10 + i)"
    by (rule js_trim_no_space) (simp add: list_all_iff digit_not_space decimal_digits)
  have "json_char_length c = 1" if "is_digit c" for c
    using that by (auto simp: is_digit_def json_char_length_def Let_def)
  then have "json_char_length c = 1" if "c \<in> set (decimal (10 + i))" for c
    using that decimal_digits by blast
  then show "json_string_length (decimal (10 + i)) = 4"
    by (simp add: json_string_length_def d)
qed

lemma full_length: "i < 41 \<Longrightarrow> json_text_length (full_criterion i) = 1551"
  by (simp add: full_criterion_def key_lengths two_digits)

lemma stored_length: "i < 41 \<Longrightarrow> 1594 \<le> json_text_length (stored_criterion i st stamp)"
  by (simp add: stored_criterion_def key_lengths two_digits json_string_length_def [of st]
      json_string_length_def [of stamp])

lemma full_normalizes: "i < 41 \<Longrightarrow> normalize_criterion stamp (full_criterion i) = Some (stored_criterion i ''open'' stamp)"
  by (simp add: normalize_criterion_def full_criterion_def stored_criterion_def two_digits dod_bounds
      normalizeOptionalText_def js_or_else_def)

lemma json_array_length:
  "json_text_length (JArr vs) = (if vs = [] then 2 else 1 + sum_list (map (\<lambda>v. Suc (json_text_length v)) vs))"
  by (simp add: bracketed_def comp_def)

lemma sum_list_all_equal: "(\<And>x. x \<in> set xs \<Longrightarrow> f x = (n :: nat)) \<Longrightarrow> sum_list (map f xs) = length xs * n"
  by (induction xs) auto

lemma sum_list_all_above: "(\<And>x. x \<in> set xs \<Longrightarrow> (n :: nat) \<le> f x) \<Longrightarrow> length xs * n \<le> sum_list (map f xs)"
  by (induction xs) fastforce+

lemma full_accepted: "validateDoDCriteria (JArr full_list) = []"
proof -
  have "sum_list (map (\<lambda>v. Suc (json_text_length v)) full_list) = length full_list * 1552"
    by (rule sum_list_all_equal) (auto simp: full_list_def full_length)
  then have "json_text_length (JArr full_list) \<le> 64000"
    unfolding json_array_length by (simp add: full_list_def)
  moreover have "criterion_ok (full_criterion i)" if "i < 41" for i
    using that by (simp add: criterion_ok_def criterion_id_def full_criterion_def is_object_def two_digits dod_bounds
        GOAL_DOD_STATUSES_def GOAL_DOD_SOURCES_def optional_text_ok_def)
  moreover have "distinct (map criterion_id full_list)"
    by (auto simp: full_list_def distinct_map inj_on_def criterion_id_def full_criterion_def two_digits decimal_inject)
  ultimately show ?thesis
    unfolding validateDoDCriteria_Nil by (auto simp: full_list_def dod_bounds)
qed

lemma full_stored: "normalizeDoDCriteria full_list stamp = Some (map (\<lambda>i. stored_criterion i ''open'' stamp) [0..<41])"
  unfolding normalizeDoDCriteria_def full_list_def map_map comp_def
  by (rule those_map_Some) (simp add: full_normalizes)

lemma stored_is_refused:
  assumes "\<And>c. c \<in> set cs \<Longrightarrow> is_stored c" "length cs = 41"
  shows "validateDoDCriteria (JArr cs) \<noteq> []"
proof -
  have "length cs * 1595 \<le> sum_list (map (\<lambda>v. Suc (json_text_length v)) cs)"
  proof (rule sum_list_all_above)
    fix c assume "c \<in> set cs"
    then obtain i st stamp where "i < 41" "c = stored_criterion i st stamp"
      using assms(1) unfolding is_stored_def by blast
    then show "1595 \<le> Suc (json_text_length c)" using stored_length [of i st stamp] by simp
  qed
  moreover have "cs \<noteq> []" using assms(2) by auto
  ultimately have "64000 < json_text_length (JArr cs)" unfolding json_array_length using assms(2) by simp
  then show ?thesis unfolding validateDoDCriteria_Nil dod_bounds by simp
qed

text \<open>The size is checked on the list as submitted and not on the list as stored, which is longer by the
  fields the normalizer adds. This list is accepted by every write; from then on no criterion of it
  can be ticked, unticked or waived, because each patch validates the whole stored list again.\<close>

theorem accepted_checklist_cannot_be_ticked:
  assumes "gl_dodCriteria (gw_goal w) = normalizeDoDCriteria full_list stamp"
  shows "validateDoDCriteria (JArr full_list) = []
    \<and> patchDodCriterion env cid \<lparr>dp_status = Some (JStr st), dp_text = None, dp_evidence = None, dp_note = None\<rparr> w
        \<noteq> Inr w'"
proof
  show "validateDoDCriteria (JArr full_list) = []" by (rule full_accepted)
  let ?p = "\<lparr>dp_status = Some (JStr st), dp_text = None, dp_evidence = None, dp_note = None\<rparr>"
  let ?cs = "map (\<lambda>i. stored_criterion i ''open'' stamp) [0..<41]"
  have cs: "resolveDoDCriteria (gl_dodCriteria (gw_goal w)) = ?cs" using assms full_stored by simp
  show "patchDodCriterion env cid ?p w \<noteq> Inr w'"
  proof
    assume "patchDodCriterion env cid ?p w = Inr w'"
    then show False
    proof (rule patchDod_parts)
      fix target changed ns
      assume t: "List.find (\<lambda>e. own_prop e ''id'' = JStr cid) (resolveDoDCriteria (gl_dodCriteria (gw_goal w))) = Some target"
        and c: "changed = map (\<lambda>e. if own_prop e ''id'' = JStr cid
          then obj_spread target (patched_fields ?p @ [(''updatedAt'', JStr (en_stamp env))]) else e)
          (resolveDoDCriteria (gl_dodCriteria (gw_goal w)))"
        and v: "validateDoDCriteria (JArr changed) = []"
      obtain i where i: "i < 41" "target = stored_criterion i ''open'' stamp"
        using find_SomeD [OF t] unfolding cs by auto
      have "obj_spread target (patched_fields ?p @ [(''updatedAt'', JStr (en_stamp env))])
          = stored_criterion i st (en_stamp env)"
        by (simp add: i(2) obj_spread_def patched_fields_def stored_criterion_def)
      then have "is_stored x" if "x \<in> set changed" for x
        using that i(1) unfolding c cs by (auto split: if_splits)
      moreover have "length changed = 41" by (simp add: c cs)
      ultimately show False using stored_is_refused v by blast
    qed
  qed
qed

end
