(* ===== verification/Fleet_Values.thy ===== *)
theory Fleet_Values
  imports Js_Number
begin

text \<open>
  The values of the fleet's job protocol (\<open>contracts/src/fleet/fleet-jobs.types.ts\<close>,
  \<open>fleet-model-usage-limit.types.ts\<close>, \<open>fleet-node.types.ts\<close>): kinds and statuses of a job, the clamps on
  what a caller asks for, capability tags, daemon versions, and the usage limits of the model CLIs.
  An instant is its milliseconds; the sentences a limit is shown with are left out.
\<close>

section \<open>Kinds and statuses\<close>

datatype job_status = Queued | Leased | Running | Done | Failed

datatype job_kind =
    AcceptanceChecks | AgentTask | BrowserCheck | ComputerSession | AgentSession
  | VmCreate | VmControl | UsageScan | RunnerInstall | RunnerControl

definition FLEET_JOB_KINDS :: "job_kind list" where
  "FLEET_JOB_KINDS = [AcceptanceChecks, AgentTask, BrowserCheck, ComputerSession, AgentSession,
     VmCreate, VmControl, UsageScan, RunnerInstall, RunnerControl]"

fun kind_name :: "job_kind \<Rightarrow> string" where
  "kind_name AcceptanceChecks = ''acceptance-checks''"
| "kind_name AgentTask = ''agent-task''"
| "kind_name BrowserCheck = ''browser-check''"
| "kind_name ComputerSession = ''computer-session''"
| "kind_name AgentSession = ''agent-session''"
| "kind_name VmCreate = ''vm-create''"
| "kind_name VmControl = ''vm-control''"
| "kind_name UsageScan = ''usage-scan''"
| "kind_name RunnerInstall = ''runner-install''"
| "kind_name RunnerControl = ''runner-control''"

text \<open>\<open>isFleetJobKind\<close>, answering the kind it recognised.\<close>

fun isFleetJobKind :: "json \<Rightarrow> job_kind option" where
  "isFleetJobKind (JStr s) = find (\<lambda>k. kind_name k = s) FLEET_JOB_KINDS"
| "isFleetJobKind _ = None"

definition FLEET_JOB_ACTIVE_STATUSES :: "job_status list" where
  "FLEET_JOB_ACTIVE_STATUSES = [Leased, Running]"

definition FLEET_JOB_TERMINAL_STATUSES :: "job_status list" where
  "FLEET_JOB_TERMINAL_STATUSES = [Done, Failed]"

definition isFleetJobActive :: "job_status \<Rightarrow> bool" where
  "isFleetJobActive s \<longleftrightarrow> s \<in> set FLEET_JOB_ACTIVE_STATUSES"

definition isFleetJobTerminal :: "job_status \<Rightarrow> bool" where
  "isFleetJobTerminal s \<longleftrightarrow> s \<in> set FLEET_JOB_TERMINAL_STATUSES"

section \<open>Clamps\<close>

definition FLEET_JOB_DEFAULT_LEASE_TTL_SEC :: int where "FLEET_JOB_DEFAULT_LEASE_TTL_SEC = 300"
definition FLEET_JOB_MIN_LEASE_TTL_SEC :: int where "FLEET_JOB_MIN_LEASE_TTL_SEC = 30"
definition FLEET_JOB_MAX_LEASE_TTL_SEC :: int where "FLEET_JOB_MAX_LEASE_TTL_SEC = 3600"
definition FLEET_JOB_DEFAULT_MAX_ATTEMPTS :: int where "FLEET_JOB_DEFAULT_MAX_ATTEMPTS = 3"
definition FLEET_JOB_MAX_ATTEMPTS_CEILING :: int where "FLEET_JOB_MAX_ATTEMPTS_CEILING = 10"
definition FLEET_JOB_MAX_LEASE_BATCH :: int where "FLEET_JOB_MAX_LEASE_BATCH = 5"
definition FLEET_JOB_MAX_ERROR_LENGTH :: nat where "FLEET_JOB_MAX_ERROR_LENGTH = 4096"
definition FLEET_JOB_MAX_REQUIRED_CAPABILITIES :: nat where "FLEET_JOB_MAX_REQUIRED_CAPABILITIES = 8"
definition FLEET_JOB_MIN_QUEUED_MAX_AGE_SEC :: int where "FLEET_JOB_MIN_QUEUED_MAX_AGE_SEC = 60"
definition FLEET_JOB_MAX_QUEUED_MAX_AGE_SEC :: int where "FLEET_JOB_MAX_QUEUED_MAX_AGE_SEC = 7 * 24 * 60 * 60"

text \<open>\<open>Math.round\<close> of a finite number: a half goes up.\<close>

definition js_round :: "rat \<Rightarrow> int" where
  "js_round q = \<lfloor>q + 1 / 2\<rfloor>"

definition js_trunc :: "rat \<Rightarrow> int" where
  "js_trunc q = (if q < 0 then \<lceil>q\<rceil> else \<lfloor>q\<rfloor>)"

definition clamp_int :: "int \<Rightarrow> int \<Rightarrow> int \<Rightarrow> int" where
  "clamp_int lo hi n = min (max n lo) hi"

lemma clamp_int_range: "lo \<le> hi \<Longrightarrow> lo \<le> clamp_int lo hi n \<and> clamp_int lo hi n \<le> hi"
  by (simp add: clamp_int_def)

lemma clamp_int_id: "lo \<le> n \<Longrightarrow> n \<le> hi \<Longrightarrow> clamp_int lo hi n = n"
  by (simp add: clamp_int_def)

fun clampLeaseTtlSec :: "json \<Rightarrow> int" where
  "clampLeaseTtlSec (JNum (Fin q)) = clamp_int FLEET_JOB_MIN_LEASE_TTL_SEC FLEET_JOB_MAX_LEASE_TTL_SEC (js_round q)"
| "clampLeaseTtlSec _ = FLEET_JOB_DEFAULT_LEASE_TTL_SEC"

fun clampMaxAttempts :: "json \<Rightarrow> int" where
  "clampMaxAttempts (JNum (Fin q)) = clamp_int 1 FLEET_JOB_MAX_ATTEMPTS_CEILING (js_round q)"
| "clampMaxAttempts _ = FLEET_JOB_DEFAULT_MAX_ATTEMPTS"

fun clampBatch :: "json \<Rightarrow> int" where
  "clampBatch (JNum (Fin q)) = clamp_int 1 FLEET_JOB_MAX_LEASE_BATCH (js_trunc q)"
| "clampBatch _ = 1"

fun default_queued_max_age :: "job_kind \<Rightarrow> int" where
  "default_queued_max_age AgentTask = 24 * 60 * 60"
| "default_queued_max_age _ = 2 * 60 * 60"

definition clampQueuedMaxAgeSec :: "job_kind \<Rightarrow> json \<Rightarrow> int" where
  "clampQueuedMaxAgeSec kind v = (case v of
     JNum (Fin q) \<Rightarrow> if q \<le> 0 then default_queued_max_age kind
       else clamp_int FLEET_JOB_MIN_QUEUED_MAX_AGE_SEC FLEET_JOB_MAX_QUEUED_MAX_AGE_SEC (js_round q)
   | _ \<Rightarrow> default_queued_max_age kind)"

text \<open>The configuration's maximum age, from the two variables as \<open>parseInt\<close> read them, \<open>None\<close> being \<open>NaN\<close>.\<close>

definition getQueuedMaxAgeSeconds :: "int option \<Rightarrow> int option \<Rightarrow> job_kind \<Rightarrow> int" where
  "getQueuedMaxAgeSeconds perKind all kind =
     (let fallback = clampQueuedMaxAgeSec kind
        (case all of Some n \<Rightarrow> if 0 < n then JNum (Fin (of_int n)) else JUndef | None \<Rightarrow> JUndef)
      in case perKind of
        Some n \<Rightarrow> if 0 < n then clampQueuedMaxAgeSec kind (JNum (Fin (of_int n))) else fallback
      | None \<Rightarrow> fallback)"

lemma lease_ttl_range: "30 \<le> clampLeaseTtlSec v \<and> clampLeaseTtlSec v \<le> 3600"
  by (cases v rule: clampLeaseTtlSec.cases)
    (simp_all add: clamp_int_def FLEET_JOB_MIN_LEASE_TTL_SEC_def FLEET_JOB_MAX_LEASE_TTL_SEC_def FLEET_JOB_DEFAULT_LEASE_TTL_SEC_def)

lemma max_attempts_range: "1 \<le> clampMaxAttempts v \<and> clampMaxAttempts v \<le> 10"
  by (cases v rule: clampMaxAttempts.cases)
    (simp_all add: clamp_int_def FLEET_JOB_MAX_ATTEMPTS_CEILING_def FLEET_JOB_DEFAULT_MAX_ATTEMPTS_def)

lemma batch_range: "1 \<le> clampBatch v \<and> clampBatch v \<le> 5"
  by (cases v rule: clampBatch.cases) (simp_all add: clamp_int_def FLEET_JOB_MAX_LEASE_BATCH_def)

lemma queued_age_range: "60 \<le> clampQueuedMaxAgeSec k v \<and> clampQueuedMaxAgeSec k v \<le> 7 * 24 * 60 * 60"
proof -
  have "60 \<le> default_queued_max_age k \<and> default_queued_max_age k \<le> 7 * 24 * 60 * 60" by (cases k) simp_all
  then show ?thesis
    by (auto simp: clampQueuedMaxAgeSec_def clamp_int_def FLEET_JOB_MIN_QUEUED_MAX_AGE_SEC_def
        FLEET_JOB_MAX_QUEUED_MAX_AGE_SEC_def split: json.split js_number.split)
qed

section \<open>Capabilities\<close>

definition nodeSatisfiesCapabilities :: "string list \<Rightarrow> string list \<Rightarrow> bool" where
  "nodeSatisfiesCapabilities nodeCapabilities required \<longleftrightarrow> list_all (\<lambda>tag. tag \<in> set nodeCapabilities) required"

text \<open>\<open>normalizeCapabilities\<close>: trimmed strings of at most 32 characters, without repetitions, at most
  \<open>max\<close> of them.\<close>

fun collect_tags :: "nat \<Rightarrow> json list \<Rightarrow> string list \<Rightarrow> string list" where
  "collect_tags m [] out = out"
| "collect_tags m (JStr s # vs) out =
     (let tag = take 32 (js_trim s)
      in if tag = [] \<or> tag \<in> set out then collect_tags m vs out
         else if m \<le> length (out @ [tag]) then out @ [tag]
         else collect_tags m vs (out @ [tag]))"
| "collect_tags m (_ # vs) out = collect_tags m vs out"

fun normalizeCapabilities :: "json \<Rightarrow> nat \<Rightarrow> string list" where
  "normalizeCapabilities (JArr vs) m = collect_tags m vs []"
| "normalizeCapabilities _ m = []"

lemma collect_tags_bound: "length out < m \<Longrightarrow> length (collect_tags m vs out) \<le> m"
  by (induction m vs out rule: collect_tags.induct) (auto simp: Let_def)

lemma collect_tags_distinct: "distinct out \<Longrightarrow> distinct (collect_tags m vs out)"
  by (induction m vs out rule: collect_tags.induct) (auto simp: Let_def)

end
