(* ===== verification/Fleet_Limits.thy ===== *)
theory Fleet_Limits
  imports Fleet_Values "HOL-Library.Char_ord"
begin

text \<open>
  Daemon versions with their precedence (\<open>fleet-node.types.ts\<close>) and the usage limits of the model CLIs
  (\<open>fleet-model-usage-limit.types.ts\<close>): what a result reports, the clamp on its retry instant, and the
  throttles in force on a node. \<open>Date.parse\<close> and the patterns that recognise a CLI's sentence are arguments.
\<close>

section \<open>Daemon versions\<close>

record node_version =
  nv_core :: "nat \<times> nat \<times> nat"
  nv_prerelease :: "string list"

definition is_version_char :: "char \<Rightarrow> bool" where
  "is_version_char c \<longleftrightarrow> is_digit c \<or> (CHR ''A'' \<le> c \<and> c \<le> CHR ''Z'') \<or> (CHR ''a'' \<le> c \<and> c \<le> CHR ''z'') \<or> c = CHR ''.'' \<or> c = CHR ''-''"

text \<open>A group of one to nine digits, and what follows it.\<close>

definition version_digits :: "string \<Rightarrow> (nat \<times> string) option" where
  "version_digits s = (let ds = takeWhile is_digit s in
     if ds = [] \<or> 9 < length ds then None else Some (decimal_value ds, dropWhile is_digit s))"

definition version_tail :: "string \<Rightarrow> (string \<times> string) option" where
  "version_tail s = (let cs = takeWhile is_version_char s in
     if cs = [] \<or> 64 < length cs then None else Some (cs, dropWhile is_version_char s))"

definition version_build :: "string \<Rightarrow> bool" where
  "version_build s \<longleftrightarrow> s = [] \<or> (hd s = CHR ''+'' \<and> (case version_tail (tl s) of Some (_, []) \<Rightarrow> True | _ \<Rightarrow> False))"

definition version_suffix :: "nat \<times> nat \<times> nat \<Rightarrow> string \<Rightarrow> node_version option" where
  "version_suffix core s =
     (if s \<noteq> [] \<and> hd s = CHR ''-'' then
        (case version_tail (tl s) of
          Some (pre, rest) \<Rightarrow> if version_build rest then Some \<lparr>nv_core = core, nv_prerelease = js_split CHR ''.'' pre\<rparr> else None
        | None \<Rightarrow> None)
      else if version_build s then Some \<lparr>nv_core = core, nv_prerelease = []\<rparr> else None)"

definition version_patch :: "nat \<Rightarrow> nat \<Rightarrow> string \<Rightarrow> node_version option" where
  "version_patch major minor s =
     (if s \<noteq> [] \<and> hd s = CHR ''.'' then
        (case version_digits (tl s) of Some (patch, rest) \<Rightarrow> version_suffix (major, minor, patch) rest | None \<Rightarrow> None)
      else version_suffix (major, minor, 0) s)"

definition parseFleetNodeVersion :: "string option \<Rightarrow> node_version option" where
  "parseFleetNodeVersion v = (case v of
     None \<Rightarrow> None
   | Some s \<Rightarrow>
      (let t = js_trim s; u = (case t of c # cs \<Rightarrow> if c = CHR ''v'' then cs else t | [] \<Rightarrow> t) in
       case version_digits u of
         Some (major, c # rest) \<Rightarrow> if c = CHR ''.'' then
             (case version_digits rest of Some (minor, cs) \<Rightarrow> version_patch major minor cs | None \<Rightarrow> None)
           else None
       | _ \<Rightarrow> None))"

text \<open>The order of strings by their characters' codes.\<close>

fun js_str_less :: "string \<Rightarrow> string \<Rightarrow> bool" where
  "js_str_less _ [] = False"
| "js_str_less [] (_ # _) = True"
| "js_str_less (a # s) (b # t) = (a < b \<or> (a = b \<and> js_str_less s t))"

definition is_numeric :: "string \<Rightarrow> bool" where
  "is_numeric s \<longleftrightarrow> s \<noteq> [] \<and> list_all is_digit s"

fun comparePrerelease :: "string list \<Rightarrow> string list \<Rightarrow> int" where
  "comparePrerelease [] [] = 0"
| "comparePrerelease [] (_ # _) = -1"
| "comparePrerelease (_ # _) [] = 1"
| "comparePrerelease (a # as) (b # bs) =
     (if is_numeric a \<and> is_numeric b then
        (if decimal_value a < decimal_value b then -1 else if decimal_value b < decimal_value a then 1
         else comparePrerelease as bs)
      else if is_numeric a \<noteq> is_numeric b then (if is_numeric a then -1 else 1)
      else if a \<noteq> b then (if js_str_less a b then -1 else 1)
      else comparePrerelease as bs)"

definition compare_cores :: "nat \<times> nat \<times> nat \<Rightarrow> nat \<times> nat \<times> nat \<Rightarrow> int" where
  "compare_cores a b = (case a of (a1, a2, a3) \<Rightarrow> case b of (b1, b2, b3) \<Rightarrow>
     if a1 \<noteq> b1 then (if a1 < b1 then -1 else 1)
     else if a2 \<noteq> b2 then (if a2 < b2 then -1 else 1)
     else if a3 \<noteq> b3 then (if a3 < b3 then -1 else 1) else 0)"

definition compareFleetNodeVersions :: "string option \<Rightarrow> string option \<Rightarrow> int option" where
  "compareFleetNodeVersions a b =
     (case (parseFleetNodeVersion a, parseFleetNodeVersion b) of
        (Some l, Some r) \<Rightarrow>
          (let core = compare_cores (nv_core l) (nv_core r) in
           if core \<noteq> 0 then Some core
           else if nv_prerelease l = [] \<and> nv_prerelease r = [] then Some 0
           else if nv_prerelease l = [] then Some 1
           else if nv_prerelease r = [] then Some (-1)
           else Some (comparePrerelease (nv_prerelease l) (nv_prerelease r)))
      | _ \<Rightarrow> None)"

definition isFleetNodeVersionBelowFloor :: "string option \<Rightarrow> string \<Rightarrow> bool" where
  "isFleetNodeVersionBelowFloor version minimum \<longleftrightarrow> compareFleetNodeVersions version (Some minimum) = Some (-1)"

definition FLEET_DEFAULT_MIN_NODE_VERSION :: string where "FLEET_DEFAULT_MIN_NODE_VERSION = ''0.1.0''"
definition FLEET_MAX_VERSION_LENGTH :: nat where "FLEET_MAX_VERSION_LENGTH = 32"

definition normalizeFleetNodeVersionFloor :: "string option \<Rightarrow> string option" where
  "normalizeFleetNodeVersionFloor v = (case v of
     None \<Rightarrow> None
   | Some s \<Rightarrow> (let t = js_trim s in
       if t = [] \<or> FLEET_MAX_VERSION_LENGTH < length t then None
       else if parseFleetNodeVersion (Some t) = None then None
       else Some (case t of c # cs \<Rightarrow> if c = CHR ''v'' then cs else t | [] \<Rightarrow> t)))"

text \<open>\<open>config.fleet.getMinNodeVersion()\<close>, from the variable's value.\<close>

definition getMinNodeVersion :: "string option \<Rightarrow> string" where
  "getMinNodeVersion v = (case normalizeFleetNodeVersionFloor v of Some f \<Rightarrow> f | None \<Rightarrow> FLEET_DEFAULT_MIN_NODE_VERSION)"

text \<open>The comparison is antisymmetric, so that a version is never below itself, and what does not parse
  is admitted.\<close>

lemma js_str_less_total: "js_str_less a b \<or> js_str_less b a \<or> a = b"
proof (induction a b rule: js_str_less.induct)
  case (1 s)
  show ?case by (cases s) simp_all
qed (simp_all, fastforce)

lemma js_str_less_asym: "js_str_less a b \<Longrightarrow> \<not> js_str_less b a"
  by (induction a b rule: js_str_less.induct) auto

lemma comparePrerelease_swap: "comparePrerelease b a = - comparePrerelease a b"
proof (induction a b rule: comparePrerelease.induct)
  case (4 a as b bs)
  then show ?case using js_str_less_total [of a b] js_str_less_asym [of a b] js_str_less_asym [of b a] by auto
qed auto

lemma compare_cores_swap: "compare_cores b a = - compare_cores a b"
  by (cases a; cases b) (auto simp: compare_cores_def)

lemma compare_versions_swap: "compareFleetNodeVersions b a = map_option uminus (compareFleetNodeVersions a b)"
proof (cases "parseFleetNodeVersion a = None \<or> parseFleetNodeVersion b = None")
  case True
  then show ?thesis by (auto simp: compareFleetNodeVersions_def split: option.split)
next
  case False
  then obtain l r where lr: "parseFleetNodeVersion a = Some l" "parseFleetNodeVersion b = Some r" by (cases "parseFleetNodeVersion a"; cases "parseFleetNodeVersion b") auto
  have core: "compare_cores (nv_core r) (nv_core l) = - compare_cores (nv_core l) (nv_core r)"
    by (rule compare_cores_swap)
  have pre: "comparePrerelease (nv_prerelease r) (nv_prerelease l) = - comparePrerelease (nv_prerelease l) (nv_prerelease r)"
    by (rule comparePrerelease_swap)
  show ?thesis by (simp add: compareFleetNodeVersions_def lr core pre Let_def)
qed

lemma unreadable_version_is_admitted: "parseFleetNodeVersion v = None \<Longrightarrow> \<not> isFleetNodeVersionBelowFloor v f"
  by (simp add: isFleetNodeVersionBelowFloor_def compareFleetNodeVersions_def)

section \<open>Usage limits\<close>

datatype limit_window = Weekly | SessionWindow | Daily | Rate | Usage

record usage_limit =
  ul_provider :: string
  ul_window :: limit_window
  ul_retryAfter :: int

definition FLEET_MODEL_USAGE_LIMIT_FALLBACK_MS :: int where "FLEET_MODEL_USAGE_LIMIT_FALLBACK_MS = 60 * 60 * 1000"
definition FLEET_MODEL_USAGE_LIMIT_MIN_MS :: int where "FLEET_MODEL_USAGE_LIMIT_MIN_MS = 60 * 1000"
definition FLEET_MODEL_USAGE_LIMIT_MAX_MS :: int where "FLEET_MODEL_USAGE_LIMIT_MAX_MS = 8 * 24 * 60 * 60 * 1000"
definition FLEET_MODEL_USAGE_LIMIT_RESET_SLACK_MS :: int where "FLEET_MODEL_USAGE_LIMIT_RESET_SLACK_MS = 60 * 1000"
definition FLEET_JOB_MAX_USAGE_LIMIT_PARKS :: int where "FLEET_JOB_MAX_USAGE_LIMIT_PARKS = 20"

text \<open>What the readers take from outside: \<open>Date.parse\<close>, the strict signatures with the window they name, and
  the reset instant a sentence states.\<close>

record limit_readers =
  lr_parse :: "string \<Rightarrow> int option"
  lr_signature :: "string \<Rightarrow> limit_window option"
  lr_reset :: "string \<Rightarrow> int \<Rightarrow> int option"

text \<open>A finite instant is clamped; \<open>None\<close> is the instant that is not a number.\<close>

definition clampRetryAfterMs :: "int option \<Rightarrow> int \<Rightarrow> int" where
  "clampRetryAfterMs retryAfter now = (case retryAfter of
     None \<Rightarrow> now + FLEET_MODEL_USAGE_LIMIT_FALLBACK_MS
   | Some t \<Rightarrow> min (max t (now + FLEET_MODEL_USAGE_LIMIT_MIN_MS)) (now + FLEET_MODEL_USAGE_LIMIT_MAX_MS))"

fun window_of :: "json \<Rightarrow> limit_window" where
  "window_of (JStr s) = (if s = ''weekly'' then Weekly else if s = ''session'' then SessionWindow
     else if s = ''daily'' then Daily else if s = ''rate'' then Rate else Usage)"
| "window_of _ = Usage"

fun json_string :: "json \<Rightarrow> string option" where
  "json_string (JStr s) = Some s"
| "json_string _ = None"

definition parsed_instant :: "limit_readers \<Rightarrow> json \<Rightarrow> int option" where
  "parsed_instant rd v = Option.bind (json_string v) (lr_parse rd)"

text \<open>\<open>detectFleetModelUsageLimit\<close> in its strict mode, the only one the platform uses.\<close>

definition detectFleetModelUsageLimit :: "limit_readers \<Rightarrow> json \<Rightarrow> string option \<Rightarrow> int \<Rightarrow> usage_limit option" where
  "detectFleetModelUsageLimit rd sentence provider now = (case json_string sentence of
     None \<Rightarrow> None
   | Some s \<Rightarrow>
      if js_trim s = [] then None
      else (case lr_signature rd s of
        None \<Rightarrow> None
      | Some w \<Rightarrow>
         (let resetsAt = (case lr_reset rd s now of Some t \<Rightarrow> if now < t then Some t else None | None \<Rightarrow> None)
          in Some \<lparr>ul_provider = (case provider of
                     Some p \<Rightarrow> if js_trim p \<noteq> [] then js_trim p else ''claude-code'' | None \<Rightarrow> ''claude-code''),
                   ul_window = w,
                   ul_retryAfter = clampRetryAfterMs (Some (case resetsAt of
                     None \<Rightarrow> now + FLEET_MODEL_USAGE_LIMIT_FALLBACK_MS
                   | Some t \<Rightarrow> t + FLEET_MODEL_USAGE_LIMIT_RESET_SLACK_MS)) now\<rparr>)))"

fun is_object :: "json \<Rightarrow> bool" where
  "is_object (JObj _) = True"
| "is_object (JArr _) = True"
| "is_object _ = False"

definition explicit_provider :: "json \<Rightarrow> json \<Rightarrow> string" where
  "explicit_provider limit model = (case json_string (own_prop limit ''provider'') of
     Some p \<Rightarrow> if js_trim p \<noteq> [] then take 32 (js_trim p)
       else (case json_string (own_prop model ''provider'') of Some q \<Rightarrow> q | None \<Rightarrow> ''claude-code'')
   | None \<Rightarrow> (case json_string (own_prop model ''provider'') of Some q \<Rightarrow> q | None \<Rightarrow> ''claude-code''))"

definition readFleetJobModelUsageLimit :: "limit_readers \<Rightarrow> json \<Rightarrow> int \<Rightarrow> usage_limit option" where
  "readFleetJobModelUsageLimit rd result now =
     (if \<not> is_object result then None
      else if own_prop result ''failureKind'' = JStr ''model_usage_limit'' then
        (let limit = own_prop result ''modelUsageLimit''
         in Some \<lparr>ul_provider = explicit_provider limit (own_prop result ''model''),
                  ul_window = window_of (own_prop limit ''window''),
                  ul_retryAfter = clampRetryAfterMs (Some (case parsed_instant rd (own_prop limit ''retryAfter'') of
                    Some t \<Rightarrow> t | None \<Rightarrow> now + FLEET_MODEL_USAGE_LIMIT_FALLBACK_MS)) now\<rparr>)
      else if own_prop result ''status'' \<noteq> JStr ''failed'' then None
      else (let step = own_prop result ''model''
            in if \<not> is_object step then None
               else if own_prop step ''status'' = JStr ''succeeded'' then None
               else detectFleetModelUsageLimit rd (own_prop step ''summary'') (json_string (own_prop step ''provider'')) now))"

lemma clampRetryAfter_range:
  "now + 60000 \<le> clampRetryAfterMs t now \<and> clampRetryAfterMs t now \<le> now + 691200000"
  by (auto simp: clampRetryAfterMs_def FLEET_MODEL_USAGE_LIMIT_MIN_MS_def FLEET_MODEL_USAGE_LIMIT_MAX_MS_def
      FLEET_MODEL_USAGE_LIMIT_FALLBACK_MS_def split: option.split)

lemma usage_limit_retry_range:
  assumes "readFleetJobModelUsageLimit rd result now = Some l"
  shows "now + 60000 \<le> ul_retryAfter l \<and> ul_retryAfter l \<le> now + 691200000"
proof -
  obtain t where "ul_retryAfter l = clampRetryAfterMs t now"
    using assms by (auto simp: readFleetJobModelUsageLimit_def detectFleetModelUsageLimit_def Let_def
        split: if_splits option.splits)
  then show ?thesis by (simp add: clampRetryAfter_range)
qed

section \<open>Throttles of a node\<close>

text \<open>
  An entry of the node's JSON column, decoded: a field of the wrong type or an instant that does not parse
  is \<open>None\<close>, and an entry that is not an object is the one without a provider. Providers are ordered by
  the argument \<open>le\<close>, which stands for \<open>localeCompare\<close>.
\<close>

record stored_throttle =
  st_provider :: "string option"
  st_window :: "limit_window option"
  st_until :: "int option"
  st_since :: "int option"

record model_throttle =
  mt_provider :: string
  mt_window :: limit_window
  mt_until :: int
  mt_since :: int

definition read_throttle :: "int \<Rightarrow> stored_throttle \<Rightarrow> model_throttle option" where
  "read_throttle now row = (case (st_provider row, st_until row) of
     (Some p, Some until) \<Rightarrow>
       if js_trim p = [] \<or> until \<le> now then None
       else Some \<lparr>mt_provider = js_trim p,
         mt_window = (case st_window row of Some w \<Rightarrow> w | None \<Rightarrow> Usage), mt_until = until,
         mt_since = (case st_since row of Some t \<Rightarrow> t | None \<Rightarrow> now)\<rparr>
   | _ \<Rightarrow> None)"

text \<open>The map by provider: a later window replaces a shorter one in its place.\<close>

fun put_throttle :: "model_throttle \<Rightarrow> model_throttle list \<Rightarrow> model_throttle list" where
  "put_throttle v [] = [v]"
| "put_throttle v (w # ws) =
     (if mt_provider w = mt_provider v then (if mt_until w < mt_until v then v else w) # ws
      else w # put_throttle v ws)"

fun collect_throttles :: "int \<Rightarrow> stored_throttle list \<Rightarrow> model_throttle list \<Rightarrow> model_throttle list" where
  "collect_throttles now [] acc = acc"
| "collect_throttles now (row # rows) acc = (case read_throttle now row of
     None \<Rightarrow> collect_throttles now rows acc
   | Some v \<Rightarrow> collect_throttles now rows (put_throttle v acc))"

fun insert_by :: "('a \<Rightarrow> 'a \<Rightarrow> bool) \<Rightarrow> 'a \<Rightarrow> 'a list \<Rightarrow> 'a list" where
  "insert_by le x [] = [x]"
| "insert_by le x (y # ys) = (if le x y then x # y # ys else y # insert_by le x ys)"

definition sort_by :: "('a \<Rightarrow> 'a \<Rightarrow> bool) \<Rightarrow> 'a list \<Rightarrow> 'a list" where
  "sort_by le xs = foldr (insert_by le) xs []"

definition activeFleetNodeModelThrottles ::
  "(string \<Rightarrow> string \<Rightarrow> bool) \<Rightarrow> stored_throttle list option \<Rightarrow> int \<Rightarrow> model_throttle list" where
  "activeFleetNodeModelThrottles le stored now = (case stored of
     None \<Rightarrow> []
   | Some rows \<Rightarrow> sort_by (\<lambda>a b. le (mt_provider a) (mt_provider b)) (collect_throttles now rows []))"

lemma set_insert_by [simp]: "set (insert_by le x ys) = insert x (set ys)"
  by (induction ys) auto

lemma set_sort_by [simp]: "set (sort_by le xs) = set xs"
  by (induction xs) (simp_all add: sort_by_def)

lemma put_throttle_providers:
  "set (map mt_provider (put_throttle v ws)) = insert (mt_provider v) (set (map mt_provider ws))"
  by (induction ws) auto

lemma put_throttle_in_force: "\<forall>w\<in>set ws. now < mt_until w \<Longrightarrow> now < mt_until v \<Longrightarrow> \<forall>w\<in>set (put_throttle v ws). now < mt_until w"
  by (induction ws) auto

lemma collect_throttles_providers:
  "set (map mt_provider (collect_throttles now rows acc)) =
     set (map mt_provider acc) \<union> {p. \<exists>row\<in>set rows. \<exists>v. read_throttle now row = Some v \<and> mt_provider v = p}"
  by (induction rows arbitrary: acc) (auto simp: put_throttle_providers [simplified] split: option.splits)

lemma collect_throttles_in_force:
  "\<forall>w\<in>set acc. now < mt_until w \<Longrightarrow> \<forall>w\<in>set (collect_throttles now rows acc). now < mt_until w"
proof (induction rows arbitrary: acc)
  case (Cons row rows)
  show ?case
  proof (cases "read_throttle now row")
    case (Some v)
    then have "now < mt_until v" by (auto simp: read_throttle_def split: option.splits if_splits)
    then show ?thesis using Some Cons.IH [OF put_throttle_in_force [OF Cons.prems]] by simp
  qed (use Cons in simp)
qed simp

text \<open>A CLI is out of quota exactly when some readable entry of the column names it with a window still open.\<close>

lemma throttled_iff:
  "p \<in> mt_provider ` set (activeFleetNodeModelThrottles le (Some rows) now) \<longleftrightarrow>
     (\<exists>row\<in>set rows. \<exists>v. read_throttle now row = Some v \<and> mt_provider v = p)"
  using collect_throttles_providers [of now rows "[]"] by (auto simp: activeFleetNodeModelThrottles_def)

end
