(* ===== verification/Fleet_Nodes.thy ===== *)
theory Fleet_Nodes
  imports Fleet_Limits "HOL-Library.AList"
begin

text \<open>
  The rows of the enrolled nodes, as far as the job protocol reads them, and their credential
  (\<open>fleet/fleet-node-credential.ts\<close>). The hash function is an argument; a hash or a secret is a string,
  compared as its UTF-8 bytes.
\<close>

section \<open>Comparing credentials\<close>

definition utf8_char :: "char \<Rightarrow> nat list" where
  "utf8_char c = (let n = of_char c :: nat in if n < 128 then [n] else [192 + n div 64, 128 + n mod 64])"

definition utf8 :: "string \<Rightarrow> nat list" where
  "utf8 s = concat (map utf8_char s)"

text \<open>\<open>constantTimeEquals\<close>: the comparison runs over buffers of the stored length, the stored value against a
  buffer of zeroes when the lengths differ.\<close>

definition constantTimeEquals :: "string option \<Rightarrow> string \<Rightarrow> bool" where
  "constantTimeEquals stored computed = (case stored of
     None \<Rightarrow> False
   | Some s \<Rightarrow>
      if s = [] then False
      else (let storedBuf = utf8 s; computedBuf = utf8 computed;
                lengthsMatch = (length storedBuf = length computedBuf);
                comparisonBuf = (if lengthsMatch then computedBuf else replicate (length storedBuf) 0);
                bytesMatch = (storedBuf = comparisonBuf)
            in lengthsMatch \<and> bytesMatch))"

lemma utf8_char_first: "utf8_char c = x # xs \<Longrightarrow> utf8_char d = x # ys \<Longrightarrow> length xs = length ys"
  by (auto simp: utf8_char_def Let_def split: if_splits)

lemma utf8_char_some: "\<exists>x xs. utf8_char c = x # xs"
  by (simp add: utf8_char_def Let_def)

lemma utf8_char_inject: "utf8_char c = utf8_char d \<longleftrightarrow> c = d"
proof
  assume same: "utf8_char c = utf8_char d"
  have "(of_char c :: nat) = of_char d"
  proof (cases "(of_char c :: nat) < 128 \<or> (of_char d :: nat) < 128")
    case True
    then show ?thesis using same by (auto simp: utf8_char_def Let_def split: if_splits)
  next
    case False
    then have "(of_char c :: nat) div 64 = of_char d div 64" "(of_char c :: nat) mod 64 = of_char d mod 64"
      using same by (auto simp: utf8_char_def Let_def)
    then show ?thesis by (metis div_mult_mod_eq)
  qed
  then show "c = d" by simp
qed simp

lemma utf8_inject: "utf8 s = utf8 t \<longleftrightarrow> s = t"
proof
  show "utf8 s = utf8 t \<Longrightarrow> s = t"
  proof (induction s arbitrary: t)
    case Nil
    then show ?case by (cases t) (auto simp: utf8_def utf8_char_def Let_def split: if_splits)
  next
    case (Cons c s)
    have "t \<noteq> []" using Cons.prems utf8_char_some [of c] by (auto simp: utf8_def)
    then obtain d t' where t: "t = d # t'" by (cases t) auto
    obtain x xs y ys where heads: "utf8_char c = x # xs" "utf8_char d = y # ys"
      using utf8_char_some [of c] utf8_char_some [of d] by blast
    have eq: "utf8_char c @ utf8 s = utf8_char d @ utf8 t'" using Cons.prems by (simp add: t utf8_def)
    then have "x = y" using heads by simp
    then have "length (utf8_char c) = length (utf8_char d)" using utf8_char_first [of c x xs d ys] heads by simp
    with eq have "utf8_char c = utf8_char d \<and> utf8 s = utf8 t'" using append_eq_append_conv by blast
    then show ?case using Cons.IH by (simp add: t utf8_char_inject)
  qed
qed simp

lemma constantTimeEquals_iff: "constantTimeEquals stored computed \<longleftrightarrow> stored = Some computed \<and> computed \<noteq> []"
  by (auto simp: constantTimeEquals_def Let_def utf8_inject split: option.split)

section \<open>Nodes\<close>

datatype node_status = Enrolling | Online | Offline | Paused | Disabled

record fleet_node =
  fn_userId :: string
  fn_name :: "string option"
  fn_status :: node_status
  fn_enrollmentTokenHash :: "string option"
  fn_previousCredentialHash :: "string option"
  fn_previousCredentialExpiresAt :: "int option"
  fn_capabilities :: "string list option"
  fn_version :: "string option"
  fn_modelThrottles :: "stored_throttle list option"
  fn_modelIdentity :: "string option"
  fn_dailyCostCeilingCents :: "int option"
  fn_dailyCostTrippedOn :: "string option"

type_synonym node_table = "(string \<times> fleet_node) list"

datatype credential_match = Current | Previous

definition CREDENTIAL_MIN_LENGTH :: nat where "CREDENTIAL_MIN_LENGTH = 16"
definition CREDENTIAL_MAX_LENGTH :: nat where "CREDENTIAL_MAX_LENGTH = 256"

definition is_hex :: "char \<Rightarrow> bool" where
  "is_hex c \<longleftrightarrow> is_digit c \<or> lower_char c \<in> set ''abcdef''"

text \<open>\<open>UUID_RE\<close>, which ignores case.\<close>

definition uuid_shaped :: "string \<Rightarrow> bool" where
  "uuid_shaped s \<longleftrightarrow>
     (let parts = js_split CHR ''-'' s in map length parts = [8, 4, 4, 4, 12] \<and> list_all (list_all is_hex) parts)"

text \<open>\<open>verifyNodeSecret\<close>: the node's id with the hash of the presented secret.\<close>

definition verifyNodeSecret :: "(string \<Rightarrow> string) \<Rightarrow> json \<Rightarrow> json \<Rightarrow> (string \<times> string) option" where
  "verifyNodeSecret sha256Hex nodeId secret = (case (nodeId, secret) of
     (JStr n, JStr s) \<Rightarrow>
       if \<not> uuid_shaped n then None
       else if length s < CREDENTIAL_MIN_LENGTH \<or> CREDENTIAL_MAX_LENGTH < length s then None
       else Some (n, sha256Hex s)
   | _ \<Rightarrow> None)"

definition matchNodeCredential :: "string \<Rightarrow> fleet_node \<Rightarrow> int \<Rightarrow> credential_match option" where
  "matchNodeCredential presented node now =
     (if constantTimeEquals (fn_enrollmentTokenHash node) presented then Some Current
      else case fn_previousCredentialHash node of
        None \<Rightarrow> None
      | Some h \<Rightarrow>
         if h = [] then None
         else if \<not> (case fn_previousCredentialExpiresAt node of Some e \<Rightarrow> now < e | None \<Rightarrow> False) then None
         else if constantTimeEquals (Some h) presented then Some Previous else None)"

datatype auth_intent = ToLease | ToReport

definition authenticateNode ::
  "(string \<Rightarrow> string) \<Rightarrow> int \<Rightarrow> node_table \<Rightarrow> json \<Rightarrow> json \<Rightarrow> auth_intent \<Rightarrow> (string \<times> fleet_node) option" where
  "authenticateNode sha256Hex now nodes nodeId secret intent =
     (case verifyNodeSecret sha256Hex nodeId secret of
       None \<Rightarrow> None
     | Some (n, presented) \<Rightarrow> (case map_of nodes n of
         None \<Rightarrow> None
       | Some node \<Rightarrow>
          if fn_status node = Enrolling then None
          else if intent = ToLease \<and> (fn_status node = Disabled \<or> fn_status node = Paused) then None
          else if matchNodeCredential presented node now = None then None
          else Some (n, node)))"

lemma matchNodeCredential_iff:
  "matchNodeCredential h node now \<noteq> None \<longleftrightarrow> h \<noteq> [] \<and>
     (fn_enrollmentTokenHash node = Some h \<or>
      (fn_previousCredentialHash node = Some h \<and> (\<exists>e. fn_previousCredentialExpiresAt node = Some e \<and> now < e)))"
  by (auto simp: matchNodeCredential_def constantTimeEquals_iff split: option.splits)

text \<open>Who is let in: an enrolled node that presents its current secret, or the one it replaced while that
  window is open. Only a lease asks that the node is not being drained.\<close>

lemma authenticateNode_iff:
  "authenticateNode sha now nodes nodeId secret intent = Some (n, node) \<longleftrightarrow>
     (\<exists>s. nodeId = JStr n \<and> secret = JStr s \<and> uuid_shaped n \<and> 16 \<le> length s \<and> length s \<le> 256 \<and>
       map_of nodes n = Some node \<and> fn_status node \<noteq> Enrolling \<and>
       (intent = ToLease \<longrightarrow> fn_status node \<noteq> Disabled \<and> fn_status node \<noteq> Paused) \<and>
       matchNodeCredential (sha s) node now \<noteq> None)"
  by (auto simp: authenticateNode_def verifyNodeSecret_def CREDENTIAL_MIN_LENGTH_def CREDENTIAL_MAX_LENGTH_def
      split: option.splits if_splits json.splits)

text \<open>A drained node keeps its right to report.\<close>

lemma report_is_wider:
  "authenticateNode sha now nodes nodeId secret ToLease = Some a \<Longrightarrow>
     authenticateNode sha now nodes nodeId secret ToReport = Some a"
  by (cases a) (auto simp: authenticateNode_iff)

text \<open>The throttles a node is under, as \<open>throttledProviders\<close> reads them.\<close>

definition throttledProviders :: "(string \<Rightarrow> string \<Rightarrow> bool) \<Rightarrow> fleet_node \<Rightarrow> int \<Rightarrow> string set" where
  "throttledProviders le node now = set (map mt_provider (activeFleetNodeModelThrottles le (fn_modelThrottles node) now))"

text \<open>\<open>recordModelThrottle\<close>: the stored column after the write, and whether it opens a new window.\<close>

definition stored_of :: "model_throttle \<Rightarrow> stored_throttle" where
  "stored_of t = \<lparr>st_provider = Some (mt_provider t), st_window = Some (mt_window t), st_until = Some (mt_until t),
     st_since = Some (mt_since t)\<rparr>"

definition throttle_entry :: "model_throttle option \<Rightarrow> usage_limit \<Rightarrow> int \<Rightarrow> model_throttle" where
  "throttle_entry previous limit now = (case previous of
     None \<Rightarrow> \<lparr>mt_provider = ul_provider limit, mt_window = ul_window limit, mt_until = ul_retryAfter limit, mt_since = now\<rparr>
   | Some p \<Rightarrow>
      if mt_until p < ul_retryAfter limit
      then \<lparr>mt_provider = ul_provider limit, mt_window = ul_window limit, mt_until = ul_retryAfter limit, mt_since = mt_since p\<rparr>
      else \<lparr>mt_provider = ul_provider limit, mt_window = mt_window p, mt_until = mt_until p, mt_since = mt_since p\<rparr>)"

definition recordModelThrottle ::
  "(string \<Rightarrow> string \<Rightarrow> bool) \<Rightarrow> string \<Rightarrow> fleet_node \<Rightarrow> usage_limit \<Rightarrow> int \<Rightarrow> node_table \<Rightarrow> bool \<times> node_table" where
  "recordModelThrottle le nodeId node limit now nodes =
     (let active = activeFleetNodeModelThrottles le (fn_modelThrottles node) now;
          previous = find (\<lambda>t. mt_provider t = ul_provider limit) active;
          entry = throttle_entry previous limit now;
          stored = map stored_of (filter (\<lambda>t. mt_provider t \<noteq> ul_provider limit) active @ [entry])
      in (previous = None,
          case map_of nodes nodeId of None \<Rightarrow> nodes
          | Some row \<Rightarrow> AList.update nodeId (row\<lparr>fn_modelThrottles := Some stored\<rparr>) nodes))"

end
