(* ===== verification/Fleet_Jobs.thy ===== *)
theory Fleet_Jobs
  imports Fleet_Nodes Cas_Store
begin

text \<open>
  The job table of the fleet and its repository (\<open>fleet/fleet-job.repository.ts\<close>). The table lists its rows
  in insertion order under their ids; each definition is one statement. A write answers whether it changed
  its row, and every write a node can trigger restates its precondition, so that the table is a
  compare-and-set store under two tags: what a claim pins and what a holder pins.
\<close>

section \<open>Rows\<close>

record fleet_job =
  fj_userId :: string
  fj_organizationId :: "string option"
  fj_nodeId :: "string option"
  fj_targetNodeId :: "string option"
  fj_kind :: job_kind
  fj_status :: job_status
  fj_payload :: "json option"
  fj_requiredCapabilities :: "string list"
  fj_leaseExpiresAt :: "int option"
  fj_attempts :: int
  fj_maxAttempts :: int
  fj_leaseGeneration :: int
  fj_idempotencyKey :: "string option"
  fj_result :: "json option"
  fj_error :: "string option"
  fj_costCents :: "int option"
  fj_queuedReason :: "string option"
  fj_queuedAt :: "int option"
  fj_cancelRequestedAt :: "int option"
  fj_startedAt :: "int option"
  fj_completedAt :: "int option"
  fj_bodiesPurgedAt :: "int option"
  fj_usageLimitParks :: int
  fj_createdAt :: int

type_synonym job_table = "(string \<times> fleet_job) list"

definition QUEUED_REASON_WAITING_FOR_RUNNER :: string where
  "QUEUED_REASON_WAITING_FOR_RUNNER = ''waiting-for-runner''"

definition MODEL_USAGE_LIMIT_QUEUED_REASON :: string where
  "MODEL_USAGE_LIMIT_QUEUED_REASON = ''model-usage-limit''"

abbreviation active :: "fleet_job \<Rightarrow> bool" where
  "active j \<equiv> isFleetJobActive (fj_status j)"

abbreviation terminal :: "fleet_job \<Rightarrow> bool" where
  "terminal j \<equiv> isFleetJobTerminal (fj_status j)"

section \<open>One conditional update\<close>

definition update_job :: "string \<Rightarrow> (fleet_job \<Rightarrow> bool) \<Rightarrow> (fleet_job \<Rightarrow> fleet_job) \<Rightarrow> job_table \<Rightarrow> bool \<times> job_table" where
  "update_job jid P f T = (case map_of T jid of
     Some j \<Rightarrow> if P j then (True, AList.update jid (f j) T) else (False, T)
   | None \<Rightarrow> (False, T))"

text \<open>A table written under a tag is the store of the compare-and-set interface, whatever the tag.\<close>

lemma update_job_is_cas: "cas_store (\<lambda>k v. update_job k (\<lambda>j. tag j = v)) map_of tag"
  by unfold_locales (auto simp: update_job_def update_conv split: option.splits)

text \<open>What a claim pins: still queued, not cancelled, the observed generation.\<close>

definition claim_tag :: "fleet_job \<Rightarrow> bool \<times> bool \<times> int" where
  "claim_tag j = (fj_status j = Queued, fj_cancelRequestedAt j = None, fj_leaseGeneration j)"

text \<open>What a holder pins: its node, an active status, the generation of its claim.\<close>

definition holder_tag :: "fleet_job \<Rightarrow> string option \<times> bool \<times> int" where
  "holder_tag j = (fj_nodeId j, active j, fj_leaseGeneration j)"

interpretation claim_cas: cas_store "\<lambda>k v. update_job k (\<lambda>j. claim_tag j = v)" map_of claim_tag
  by (rule update_job_is_cas)

interpretation holder_cas: cas_store "\<lambda>k v. update_job k (\<lambda>j. holder_tag j = v)" map_of holder_tag
  by (rule update_job_is_cas)

section \<open>Creating and finding\<close>

record new_job =
  nj_userId :: string
  nj_organizationId :: "string option"
  nj_targetNodeId :: "string option"
  nj_kind :: job_kind
  nj_payload :: "json option"
  nj_requiredCapabilities :: "string list"
  nj_maxAttempts :: int
  nj_idempotencyKey :: "string option"
  nj_queuedReason :: "string option"

definition created_job :: "new_job \<Rightarrow> int \<Rightarrow> fleet_job" where
  "created_job d now =
     \<lparr>fj_userId = nj_userId d, fj_organizationId = nj_organizationId d, fj_nodeId = None,
      fj_targetNodeId = nj_targetNodeId d, fj_kind = nj_kind d, fj_status = Queued, fj_payload = nj_payload d,
      fj_requiredCapabilities = nj_requiredCapabilities d, fj_leaseExpiresAt = None, fj_attempts = 0,
      fj_maxAttempts = nj_maxAttempts d, fj_leaseGeneration = 0, fj_idempotencyKey = nj_idempotencyKey d,
      fj_result = None, fj_error = None, fj_costCents = None, fj_queuedReason = nj_queuedReason d,
      fj_queuedAt = Some now, fj_cancelRequestedAt = None, fj_startedAt = None, fj_completedAt = None,
      fj_bodiesPurgedAt = None, fj_usageLimitParks = 0, fj_createdAt = now\<rparr>"

definition key_taken :: "string option \<Rightarrow> job_table \<Rightarrow> bool" where
  "key_taken k T \<longleftrightarrow> k \<noteq> None \<and> list_ex (\<lambda>e. fj_idempotencyKey (snd e) = k) T"

text \<open>The insert; \<open>None\<close> is the violation of one of the table's two unique keys.\<close>

definition create :: "string \<Rightarrow> new_job \<Rightarrow> int \<Rightarrow> job_table \<Rightarrow> job_table option" where
  "create jid d now T =
     (if jid \<in> fst ` set T \<or> key_taken (nj_idempotencyKey d) T then None else Some (T @ [(jid, created_job d now)]))"

definition findByIdempotencyKey :: "string \<Rightarrow> job_table \<Rightarrow> (string \<times> fleet_job) option" where
  "findByIdempotencyKey k T = find (\<lambda>e. fj_idempotencyKey (snd e) = Some k) T"

text \<open>Rows that satisfy a predicate, ordered by a column, at most \<open>n\<close> of them.\<close>

definition select_jobs :: "(fleet_job \<Rightarrow> bool) \<Rightarrow> (fleet_job \<Rightarrow> int) \<Rightarrow> nat \<Rightarrow> job_table \<Rightarrow> job_table" where
  "select_jobs P key n T = take n (sort_key (\<lambda>e. key (snd e)) (filter (\<lambda>e. P (snd e)) T))"

definition nullable :: "int option \<Rightarrow> int" where
  "nullable t = (case t of Some x \<Rightarrow> x | None \<Rightarrow> 0)"

definition findQueuedForUser :: "string \<Rightarrow> nat \<Rightarrow> job_table \<Rightarrow> job_table" where
  "findQueuedForUser userId limit = select_jobs (\<lambda>j. fj_userId j = userId \<and> fj_status j = Queued) fj_createdAt limit"

text \<open>The kind filter of a poll: the kinds it asks for and the kinds it never wants.\<close>

record kind_filter =
  kf_kinds :: "job_kind list"
  kf_excludeKinds :: "job_kind list"

definition leasable_kind_query :: "kind_filter \<Rightarrow> job_kind \<Rightarrow> bool" where
  "leasable_kind_query f k =
     (if kf_kinds f \<noteq> [] then k \<in> set (filter (\<lambda>c. c \<notin> set (kf_excludeKinds f)) (kf_kinds f))
      else kf_excludeKinds f \<noteq> [] \<longrightarrow> k \<notin> set (kf_excludeKinds f))"

definition findQueuedForNode :: "string \<Rightarrow> string \<Rightarrow> nat \<Rightarrow> kind_filter \<Rightarrow> job_table \<Rightarrow> job_table" where
  "findQueuedForNode userId nodeId limit f T =
     (if kf_kinds f \<noteq> [] \<and> filter (\<lambda>c. c \<notin> set (kf_excludeKinds f)) (kf_kinds f) = [] then []
      else select_jobs (\<lambda>j. fj_userId j = userId \<and> fj_status j = Queued \<and>
             (fj_targetNodeId j = None \<or> fj_targetNodeId j = Some nodeId) \<and> leasable_kind_query f (fj_kind j))
             fj_createdAt limit T)"

definition findExpiredLeases :: "int \<Rightarrow> nat \<Rightarrow> string option \<Rightarrow> job_table \<Rightarrow> job_table" where
  "findExpiredLeases cutoff limit owner =
     select_jobs (\<lambda>j. (case owner of Some u \<Rightarrow> fj_userId j = u | None \<Rightarrow> True) \<and> active j \<and>
         (case fj_leaseExpiresAt j of Some t \<Rightarrow> t < cutoff | None \<Rightarrow> False))
       (\<lambda>j. nullable (fj_leaseExpiresAt j)) limit"

definition findQueuedOlderThan :: "job_kind \<Rightarrow> int \<Rightarrow> nat \<Rightarrow> string option \<Rightarrow> job_table \<Rightarrow> job_table" where
  "findQueuedOlderThan kind cutoff limit owner =
     select_jobs (\<lambda>j. (case owner of Some u \<Rightarrow> fj_userId j = u | None \<Rightarrow> True) \<and> fj_kind j = kind \<and> fj_status j = Queued \<and>
         (case fj_queuedAt j of Some t \<Rightarrow> t < cutoff | None \<Rightarrow> False) \<and> fj_cancelRequestedAt j = None)
       (\<lambda>j. nullable (fj_queuedAt j)) limit"

definition findWaitingForNode :: "string \<Rightarrow> string \<Rightarrow> nat \<Rightarrow> job_table \<Rightarrow> job_table" where
  "findWaitingForNode userId nodeId limit =
     select_jobs (\<lambda>j. fj_userId j = userId \<and> fj_status j = Queued \<and>
         fj_queuedReason j = Some QUEUED_REASON_WAITING_FOR_RUNNER \<and>
         (fj_targetNodeId j = None \<or> fj_targetNodeId j = Some nodeId)) fj_createdAt limit"

definition findActiveForUser :: "string \<Rightarrow> job_table \<Rightarrow> job_table" where
  "findActiveForUser userId T =
     sort_key (\<lambda>e. fj_createdAt (snd e)) (filter (\<lambda>e. fj_userId (snd e) = userId \<and> active (snd e) \<and> fj_nodeId (snd e) \<noteq> None) T)"

definition findByUser :: "string \<Rightarrow> nat \<Rightarrow> job_table \<Rightarrow> job_table" where
  "findByUser userId limit = select_jobs (\<lambda>j. fj_userId j = userId) (\<lambda>j. - fj_createdAt j) limit"

definition findByNodeForUser :: "string \<Rightarrow> string \<Rightarrow> nat \<Rightarrow> job_table \<Rightarrow> job_table" where
  "findByNodeForUser userId nodeId limit =
     select_jobs (\<lambda>j. fj_userId j = userId \<and> fj_nodeId j = Some nodeId) (\<lambda>j. - fj_createdAt j) limit"

definition findLatestCompletedAgentTasksForNode :: "string \<Rightarrow> string \<Rightarrow> nat \<Rightarrow> job_table \<Rightarrow> job_table" where
  "findLatestCompletedAgentTasksForNode userId nodeId limit =
     select_jobs (\<lambda>j. fj_userId j = userId \<and> fj_nodeId j = Some nodeId \<and> fj_kind j = AgentTask \<and> fj_completedAt j \<noteq> None)
       (\<lambda>j. - nullable (fj_completedAt j)) limit"

section \<open>The writes\<close>

definition claimed :: "string \<Rightarrow> int \<Rightarrow> int \<Rightarrow> int \<Rightarrow> fleet_job \<Rightarrow> fleet_job" where
  "claimed nodeId expires attempts generation j = j\<lparr>fj_nodeId := Some nodeId, fj_status := Leased,
     fj_leaseExpiresAt := Some expires, fj_attempts := attempts, fj_queuedReason := None,
     fj_leaseGeneration := generation, fj_startedAt := None\<rparr>"

definition claim :: "string \<Rightarrow> string \<Rightarrow> int \<Rightarrow> int \<Rightarrow> int \<Rightarrow> job_table \<Rightarrow> bool \<times> job_table" where
  "claim jid nodeId expires attempts generation =
     update_job jid (\<lambda>j. claim_tag j = (True, True, generation - 1)) (claimed nodeId expires attempts generation)"

definition extended :: "int \<Rightarrow> int option \<Rightarrow> fleet_job \<Rightarrow> fleet_job" where
  "extended expires started j = j\<lparr>fj_leaseExpiresAt := Some expires, fj_status := Running,
     fj_startedAt := (case started of Some t \<Rightarrow> Some t | None \<Rightarrow> fj_startedAt j)\<rparr>"

definition extendLease :: "string \<Rightarrow> string \<Rightarrow> int \<Rightarrow> int option \<Rightarrow> int \<Rightarrow> job_table \<Rightarrow> bool \<times> job_table" where
  "extendLease jid nodeId expires started generation =
     update_job jid (\<lambda>j. holder_tag j = (Some nodeId, True, generation)) (extended expires started)"

definition completed :: "job_status \<Rightarrow> json option \<Rightarrow> string option \<Rightarrow> int \<Rightarrow> fleet_job \<Rightarrow> fleet_job" where
  "completed verdict res err now j = j\<lparr>fj_status := verdict, fj_result := res, fj_error := err,
     fj_completedAt := Some now, fj_leaseExpiresAt := None\<rparr>"

definition complete ::
  "string \<Rightarrow> string \<Rightarrow> job_status \<Rightarrow> json option \<Rightarrow> string option \<Rightarrow> int \<Rightarrow> int \<Rightarrow> job_table \<Rightarrow> bool \<times> job_table" where
  "complete jid nodeId verdict res err now generation =
     update_job jid (\<lambda>j. holder_tag j = (Some nodeId, True, generation)) (completed verdict res err now)"

definition parked :: "int \<Rightarrow> int \<Rightarrow> int \<Rightarrow> fleet_job \<Rightarrow> fleet_job" where
  "parked attempts queuedAt parks j = j\<lparr>fj_status := Queued, fj_nodeId := None, fj_leaseExpiresAt := None,
     fj_startedAt := None, fj_attempts := attempts, fj_queuedAt := Some queuedAt,
     fj_queuedReason := Some MODEL_USAGE_LIMIT_QUEUED_REASON, fj_usageLimitParks := parks\<rparr>"

definition parkForUsageLimit :: "string \<Rightarrow> string \<Rightarrow> int \<Rightarrow> int \<Rightarrow> int \<Rightarrow> int \<Rightarrow> job_table \<Rightarrow> bool \<times> job_table" where
  "parkForUsageLimit jid nodeId generation attempts queuedAt parks =
     update_job jid (\<lambda>j. holder_tag j = (Some nodeId, True, generation)) (parked attempts queuedAt parks)"

definition dropped :: "string \<Rightarrow> int \<Rightarrow> fleet_job \<Rightarrow> fleet_job" where
  "dropped err now j = j\<lparr>fj_status := Failed, fj_error := Some err, fj_completedAt := Some now,
     fj_cancelRequestedAt := Some now, fj_leaseExpiresAt := None, fj_queuedReason := None\<rparr>"

definition cancelQueued :: "string \<Rightarrow> string \<Rightarrow> int \<Rightarrow> job_table \<Rightarrow> bool \<times> job_table" where
  "cancelQueued jid err now = update_job jid (\<lambda>j. fj_status j = Queued) (dropped err now)"

definition requestCancel :: "string \<Rightarrow> int \<Rightarrow> job_table \<Rightarrow> bool \<times> job_table" where
  "requestCancel jid now =
     update_job jid (\<lambda>j. active j \<and> fj_cancelRequestedAt j = None) (\<lambda>j. j\<lparr>fj_cancelRequestedAt := Some now\<rparr>)"

definition expired :: "string \<Rightarrow> int \<Rightarrow> fleet_job \<Rightarrow> fleet_job" where
  "expired err now j = j\<lparr>fj_status := Failed, fj_error := Some err, fj_completedAt := Some now,
     fj_leaseExpiresAt := None, fj_queuedReason := None\<rparr>"

definition failQueuedExpired :: "string \<Rightarrow> int \<Rightarrow> string \<Rightarrow> int \<Rightarrow> job_table \<Rightarrow> bool \<times> job_table" where
  "failQueuedExpired jid cutoff err now =
     update_job jid (\<lambda>j. fj_status j = Queued \<and> (case fj_queuedAt j of Some t \<Rightarrow> t < cutoff | None \<Rightarrow> False) \<and>
       fj_cancelRequestedAt j = None) (expired err now)"

definition promoteWaiting :: "string \<Rightarrow> job_table \<Rightarrow> bool \<times> job_table" where
  "promoteWaiting jid =
     update_job jid (\<lambda>j. fj_status j = Queued \<and> fj_queuedReason j = Some QUEUED_REASON_WAITING_FOR_RUNNER)
       (\<lambda>j. j\<lparr>fj_queuedReason := None\<rparr>)"

text \<open>The claim an expiry scan observed.\<close>

record observed_lease =
  ol_status :: job_status
  ol_nodeId :: string
  ol_leaseExpiresAt :: int
  ol_leaseGeneration :: int

definition still_observed :: "observed_lease \<Rightarrow> fleet_job \<Rightarrow> bool" where
  "still_observed obs j \<longleftrightarrow> fj_status j = ol_status obs \<and> fj_nodeId j = Some (ol_nodeId obs) \<and>
     fj_leaseExpiresAt j = Some (ol_leaseExpiresAt obs) \<and> fj_leaseGeneration j = ol_leaseGeneration obs"

definition reclaimed :: "int \<Rightarrow> fleet_job \<Rightarrow> fleet_job" where
  "reclaimed now j = j\<lparr>fj_status := Queued, fj_nodeId := None, fj_leaseExpiresAt := None, fj_queuedReason := None,
     fj_queuedAt := Some now\<rparr>"

definition reclaim :: "string \<Rightarrow> observed_lease \<Rightarrow> int \<Rightarrow> job_table \<Rightarrow> bool \<times> job_table" where
  "reclaim jid obs now = update_job jid (still_observed obs) (reclaimed now)"

definition exhausted :: "string \<Rightarrow> int \<Rightarrow> fleet_job \<Rightarrow> fleet_job" where
  "exhausted err now j = j\<lparr>fj_status := Failed, fj_leaseExpiresAt := None, fj_error := Some err, fj_completedAt := Some now\<rparr>"

definition failExhausted :: "string \<Rightarrow> observed_lease \<Rightarrow> string \<Rightarrow> int \<Rightarrow> job_table \<Rightarrow> bool \<times> job_table" where
  "failExhausted jid obs err now = update_job jid (still_observed obs) (exhausted err now)"

definition drained :: "int \<Rightarrow> fleet_job \<Rightarrow> fleet_job" where
  "drained now j = j\<lparr>fj_status := Queued, fj_nodeId := None, fj_leaseExpiresAt := None, fj_queuedAt := Some now\<rparr>"

definition releaseClaimsForNode :: "string \<Rightarrow> string \<Rightarrow> int \<Rightarrow> job_table \<Rightarrow> nat \<times> job_table" where
  "releaseClaimsForNode userId nodeId now T =
     (let hit = (\<lambda>j. fj_userId j = userId \<and> fj_nodeId j = Some nodeId \<and> active j)
      in (length (filter (\<lambda>e. hit (snd e)) T), map (\<lambda>(i, j). (i, if hit j then drained now j else j)) T))"

definition purgeable :: "int \<Rightarrow> fleet_job \<Rightarrow> bool" where
  "purgeable cutoff j \<longleftrightarrow> terminal j \<and> (case fj_completedAt j of Some t \<Rightarrow> t < cutoff | None \<Rightarrow> False) \<and> fj_bodiesPurgedAt j = None"

definition purged :: "int \<Rightarrow> fleet_job \<Rightarrow> fleet_job" where
  "purged now j = j\<lparr>fj_payload := None, fj_result := None, fj_bodiesPurgedAt := Some now\<rparr>"

text \<open>The purge reads its batch and writes it in two statements; \<open>rivals\<close> is what happens in between.\<close>

definition purgeTerminalBodies :: "int \<Rightarrow> int \<Rightarrow> int \<Rightarrow> (job_table \<Rightarrow> job_table) \<Rightarrow> job_table \<Rightarrow> nat \<times> job_table" where
  "purgeTerminalBodies cutoff limit now rivals T =
     (let ids = map fst (select_jobs (purgeable cutoff) (\<lambda>j. nullable (fj_completedAt j)) (nat (max 1 limit)) T)
      in if ids = [] then (0, T)
         else (let T' = rivals T; hit = (\<lambda>e. fst e \<in> set ids \<and> purgeable cutoff (snd e))
               in (length (filter hit T'), map (\<lambda>e. (fst e, if hit e then purged now (snd e) else snd e)) T')))"

definition stampCostCents :: "string \<Rightarrow> int \<Rightarrow> job_table \<Rightarrow> job_table" where
  "stampCostCents jid cents T = snd (update_job jid (\<lambda>_. True) (\<lambda>j. j\<lparr>fj_costCents := Some cents\<rparr>) T)"

definition cost_since :: "int \<Rightarrow> (fleet_job \<Rightarrow> bool) \<Rightarrow> job_table \<Rightarrow> int" where
  "cost_since since P T = sum_list (map (\<lambda>e. nullable (fj_costCents (snd e)))
     (filter (\<lambda>e. P (snd e) \<and> (case fj_completedAt (snd e) of Some t \<Rightarrow> since \<le> t | None \<Rightarrow> False)) T))"

definition sumCostCentsForNodeSince :: "string \<Rightarrow> int \<Rightarrow> job_table \<Rightarrow> int" where
  "sumCostCentsForNodeSince nodeId since = cost_since since (\<lambda>j. fj_nodeId j = Some nodeId)"

definition sumCostCentsForUserSince :: "string \<Rightarrow> int \<Rightarrow> job_table \<Rightarrow> int" where
  "sumCostCentsForUserSince userId since = cost_since since (\<lambda>j. fj_userId j = userId)"

text \<open>The row after each write.\<close>

lemmas patch_defs = claimed_def extended_def completed_def parked_def dropped_def expired_def reclaimed_def
  exhausted_def drained_def purged_def

lemmas write_defs = claim_def extendLease_def complete_def parkForUsageLimit_def cancelQueued_def requestCancel_def
  failQueuedExpired_def promoteWaiting_def reclaim_def failExhausted_def

end
