(* ===== verification/Fleet_Service.thy ===== *)
theory Fleet_Service
  imports Fleet_Jobs Js_Json
begin

text \<open>
  The job service of the fleet (\<open>fleet/fleet-job.service.ts\<close>): enqueue, the sweeps, the lease protocol, the
  cancellation and the views. A call is a function of the fleet's tables and returns its answer with the
  tables after it. Between a read and the write that rests on it other callers may write: what they do is
  \<open>fe_rivals\<close>, an arbitrary function at each such moment, so that a theorem about one call covers every
  interleaving. Each call reads the clock once. Failed database calls and logging are left out.
\<close>

section \<open>Views and events\<close>

record job_view =
  jv_id :: string
  jv_kind :: job_kind
  jv_status :: job_status
  jv_nodeId :: "string option"
  jv_targetNodeId :: "string option"
  jv_requiredCapabilities :: "string list"
  jv_payload :: "json option"
  jv_leaseExpiresAt :: "int option"
  jv_attempts :: int
  jv_maxAttempts :: int
  jv_createdAt :: int
  jv_startedAt :: "int option"
  jv_completedAt :: "int option"
  jv_queuedAt :: "int option"
  jv_queuedReason :: "string option"
  jv_cancelRequestedAt :: "int option"
  jv_leaseGeneration :: int

definition toJobView :: "string \<Rightarrow> fleet_job \<Rightarrow> job_view" where
  "toJobView jid j =
     \<lparr>jv_id = jid, jv_kind = fj_kind j, jv_status = fj_status j, jv_nodeId = fj_nodeId j,
      jv_targetNodeId = fj_targetNodeId j, jv_requiredCapabilities = fj_requiredCapabilities j,
      jv_payload = fj_payload j, jv_leaseExpiresAt = fj_leaseExpiresAt j, jv_attempts = fj_attempts j,
      jv_maxAttempts = fj_maxAttempts j, jv_createdAt = fj_createdAt j, jv_startedAt = fj_startedAt j,
      jv_completedAt = fj_completedAt j, jv_queuedAt = fj_queuedAt j, jv_queuedReason = fj_queuedReason j,
      jv_cancelRequestedAt = fj_cancelRequestedAt j, jv_leaseGeneration = fj_leaseGeneration j\<rparr>"

definition toJobHistoryView :: "string \<Rightarrow> fleet_job \<Rightarrow> job_view \<times> string option" where
  "toJobHistoryView jid j = (toJobView jid j, fj_error j)"

datatype completion_source = NodeReport | LeaseExhausted | CancelledByOperator | QueueExpired

datatype fleet_event =
    JobLeased job_view string string
  | JobCompleted job_view string completion_source "string option" "json option" "string option"
  | JobParked job_view string string usage_limit bool

record fleet =
  fl_jobs :: job_table
  fl_nodes :: node_table
  fl_events :: "fleet_event list"

section \<open>The outside of a call\<close>

datatype kill_switch = SwitchNotWired | SwitchThrows | SwitchReads bool

text \<open>The moments at which other callers' writes may land.\<close>

datatype moment =
    BeforeReclaim string
  | BeforeExpiry string
  | BeforeScan
  | BeforeClaim string
  | BeforeWrite
  | BeforeRetry
  | BeforePromotion string

text \<open>The lease admission is asked about the owner, the node, the App Work, the job and its Task; \<open>None\<close> is a
  port that throws.\<close>

record fleet_env =
  fe_now :: int
  fe_newId :: string
  fe_hasEvents :: bool
  fe_sha256 :: "string \<Rightarrow> string"
  fe_isUUID :: "string \<Rightarrow> bool"
  fe_localeLe :: "string \<Rightarrow> string \<Rightarrow> bool"
  fe_readers :: limit_readers
  fe_killSwitch :: kill_switch
  fe_minNodeVersion :: string
  fe_queuedMaxAge :: "job_kind \<Rightarrow> int"
  fe_affinity :: "string \<Rightarrow> string \<Rightarrow> string option"
  fe_admits :: "(string \<times> string \<times> string \<times> string \<times> string option \<Rightarrow> bool option) option"
  fe_rivals :: "moment \<Rightarrow> fleet \<Rightarrow> fleet"

datatype fleet_error =
    UnsupportedKind
  | OwnerRequired
  | NotAnObject string
  | TooManyBytes string
  | NoTargetComputer job_kind
  | UnknownComputer job_kind
  | UniqueViolation
  | StaleLease

definition on_jobs :: "(job_table \<Rightarrow> 'a \<times> job_table) \<Rightarrow> fleet \<Rightarrow> 'a \<times> fleet" where
  "on_jobs f s = (let (a, T) = f (fl_jobs s) in (a, s\<lparr>fl_jobs := T\<rparr>))"

definition emit :: "fleet_env \<Rightarrow> fleet_event \<Rightarrow> fleet \<Rightarrow> fleet" where
  "emit env e s = (if fe_hasEvents env then s\<lparr>fl_events := fl_events s @ [e]\<rparr> else s)"

section \<open>Normalising\<close>

definition FLEET_JOB_MAX_PAYLOAD_BYTES :: nat where "FLEET_JOB_MAX_PAYLOAD_BYTES = 256 * 1024"
definition FLEET_JOB_MAX_RESULT_BYTES :: nat where "FLEET_JOB_MAX_RESULT_BYTES = 256 * 1024"
definition FLEET_JOB_RECLAIM_BATCH :: nat where "FLEET_JOB_RECLAIM_BATCH = 200"
definition FLEET_JOB_QUEUED_SCAN_LIMIT :: int where "FLEET_JOB_QUEUED_SCAN_LIMIT = 500"

definition normalizePayload :: "json \<Rightarrow> nat \<Rightarrow> string \<Rightarrow> fleet_error + json option" where
  "normalizePayload v maxBytes label = (case v of
     JNull \<Rightarrow> Inr None
   | JUndef \<Rightarrow> Inr None
   | JObj _ \<Rightarrow> if maxBytes < json_bytes v then Inl (TooManyBytes label) else Inr (Some v)
   | _ \<Rightarrow> Inl (NotAnObject label))"

fun normalizeIdempotencyKey :: "json \<Rightarrow> string option" where
  "normalizeIdempotencyKey (JStr s) = (let t = js_trim s in if t \<noteq> [] then Some (take 200 t) else None)"
| "normalizeIdempotencyKey _ = None"

fun normalizeQueuedReason :: "json \<Rightarrow> string option" where
  "normalizeQueuedReason (JStr s) = (let t = js_trim s in if t = [] \<or> 64 < length t then None else Some t)"
| "normalizeQueuedReason _ = None"

fun truncate_text :: "json \<Rightarrow> nat \<Rightarrow> string option" where
  "truncate_text (JStr s) m = (let t = js_trim s in if t \<noteq> [] then Some (take m t) else None)"
| "truncate_text _ m = None"

definition show_int :: "int \<Rightarrow> string" where
  "show_int n = js_string_of_number (Fin (of_int n))"

definition formatDuration :: "int \<Rightarrow> string" where
  "formatDuration seconds =
     (if seconds mod 3600 = 0 then show_int (seconds div 3600) @ ''h''
      else if seconds mod 60 = 0 then show_int (seconds div 60) @ ''m''
      else show_int seconds @ ''s'')"

definition FLEET_JOB_QUEUE_EXPIRED_REASON :: string where
  "FLEET_JOB_QUEUE_EXPIRED_REASON = ''queued-max-age-exceeded''"

definition describeQueueExpiry :: "fleet_job \<Rightarrow> int \<Rightarrow> string" where
  "describeQueueExpiry j maxAgeSec =
     (let parts =
        [FLEET_JOB_QUEUE_EXPIRED_REASON @ '': no eligible runner took the job within '' @ formatDuration maxAgeSec]
        @ (case fj_targetNodeId j of Some n \<Rightarrow> if n \<noteq> [] then [''(pinned to node '' @ n @ '')''] else [] | None \<Rightarrow> [])
        @ (if fj_requiredCapabilities j \<noteq> []
           then [''[requires '' @ join_strings '', '' (fj_requiredCapabilities j) @ '']''] else [])
      in case truncate_text (JStr (join_strings '' '' parts)) FLEET_JOB_MAX_ERROR_LENGTH of
           Some t \<Rightarrow> t | None \<Rightarrow> FLEET_JOB_QUEUE_EXPIRED_REASON)"

text \<open>\<open>isCurrentLeaseGeneration\<close>: exactly the current generation, an integer from one.\<close>

fun isCurrentLeaseGeneration :: "fleet_job \<Rightarrow> json \<Rightarrow> bool" where
  "isCurrentLeaseGeneration j (JNum (Fin q)) = (of_int \<lfloor>q\<rfloor> = q \<and> 1 \<le> q \<and> q = of_int (fj_leaseGeneration j))"
| "isCurrentLeaseGeneration j _ = False"

lemma isCurrentLeaseGeneration_iff:
  "isCurrentLeaseGeneration j v \<longleftrightarrow> v = JNum (Fin (of_int (fj_leaseGeneration j))) \<and> 1 \<le> fj_leaseGeneration j"
  by (cases "(j, v)" rule: isCurrentLeaseGeneration.cases) auto

section \<open>Enqueue\<close>

record enqueue_input =
  ei_userId :: json
  ei_organizationId :: "string option"
  ei_kind :: json
  ei_payload :: json
  ei_requiredCapabilities :: json
  ei_maxAttempts :: json
  ei_idempotencyKey :: json
  ei_queuedReason :: json

definition resolveAgentTaskTarget :: "fleet_env \<Rightarrow> string \<Rightarrow> json \<Rightarrow> string option" where
  "resolveAgentTaskTarget env userId agentId = (case agentId of
     JStr a \<Rightarrow> if fe_isUUID env a then fe_affinity env userId a else None
   | _ \<Rightarrow> None)"

text \<open>A node named by the payload: it must exist, and for a live view belong to the owner.\<close>

definition resolve_named_node ::
  "fleet_env \<Rightarrow> node_table \<Rightarrow> job_kind \<Rightarrow> (fleet_node \<Rightarrow> bool) \<Rightarrow> json \<Rightarrow> fleet_error + string option" where
  "resolve_named_node env nodes kind ok nodeId = (case nodeId of
     JStr n \<Rightarrow>
       if \<not> fe_isUUID env n then Inl (NoTargetComputer kind)
       else (case map_of nodes n of
         Some node \<Rightarrow> if ok node then Inr (Some n) else Inl (UnknownComputer kind)
       | None \<Rightarrow> Inl (UnknownComputer kind))
   | _ \<Rightarrow> Inl (NoTargetComputer kind))"

definition payload_prop :: "json option \<Rightarrow> string \<Rightarrow> json" where
  "payload_prop payload key = (case payload of Some p \<Rightarrow> own_prop p key | None \<Rightarrow> JUndef)"

definition resolveTargetNodeId ::
  "fleet_env \<Rightarrow> node_table \<Rightarrow> job_kind \<Rightarrow> string \<Rightarrow> json option \<Rightarrow> fleet_error + string option" where
  "resolveTargetNodeId env nodes kind userId payload =
     (if kind = ComputerSession then
        resolve_named_node env nodes kind (\<lambda>n. fn_userId n = userId) (payload_prop payload ''nodeId'')
      else if kind \<in> {AgentSession, UsageScan, RunnerInstall, RunnerControl} then
        resolve_named_node env nodes kind (\<lambda>_. True) (payload_prop payload ''nodeId'')
      else if kind \<in> {VmCreate, VmControl} then
        resolve_named_node env nodes kind (\<lambda>_. True) (payload_prop payload ''hostNodeId'')
      else if kind \<noteq> AgentTask then Inr None
      else Inr (resolveAgentTaskTarget env userId (payload_prop payload ''agentId'')))"

definition write_job :: "fleet_env \<Rightarrow> new_job \<Rightarrow> fleet \<Rightarrow> (fleet_error + job_view) \<times> fleet" where
  "write_job env d s =
     (let s1 = fe_rivals env BeforeWrite s in
      case create (fe_newId env) d (fe_now env) (fl_jobs s1) of
        None \<Rightarrow> (Inl UniqueViolation, s1)
      | Some T \<Rightarrow> (Inr (toJobView (fe_newId env) (created_job d (fe_now env))), s1\<lparr>fl_jobs := T\<rparr>))"

definition enqueue :: "fleet_env \<Rightarrow> enqueue_input \<Rightarrow> fleet \<Rightarrow> (fleet_error + job_view) \<times> fleet" where
  "enqueue env inp s = (case isFleetJobKind (ei_kind inp) of
     None \<Rightarrow> (Inl UnsupportedKind, s)
   | Some kind \<Rightarrow> (case ei_userId inp of
       JStr userId \<Rightarrow>
         if userId = [] then (Inl OwnerRequired, s)
         else (case normalizePayload (ei_payload inp) FLEET_JOB_MAX_PAYLOAD_BYTES ''payload'' of
           Inl e \<Rightarrow> (Inl e, s)
         | Inr payload \<Rightarrow>
            (let key = normalizeIdempotencyKey (ei_idempotencyKey inp);
                 existing = (case key of Some k \<Rightarrow> findByIdempotencyKey k (fl_jobs s) | None \<Rightarrow> None)
             in case existing of
               Some (jid, j) \<Rightarrow> (Inr (toJobView jid j), s)
             | None \<Rightarrow> (case resolveTargetNodeId env (fl_nodes s) kind userId payload of
                 Inl e \<Rightarrow> (Inl e, s)
               | Inr target \<Rightarrow> write_job env
                   \<lparr>nj_userId = userId, nj_organizationId = ei_organizationId inp, nj_targetNodeId = target,
                    nj_kind = kind, nj_payload = payload,
                    nj_requiredCapabilities = normalizeCapabilities (ei_requiredCapabilities inp) FLEET_JOB_MAX_REQUIRED_CAPABILITIES,
                    nj_maxAttempts = clampMaxAttempts (ei_maxAttempts inp), nj_idempotencyKey = key,
                    nj_queuedReason = normalizeQueuedReason (ei_queuedReason inp)\<rparr> s)))
     | _ \<Rightarrow> (Inl OwnerRequired, s)))"

section \<open>The sweeps\<close>

record reclaim_summary =
  rs_scanned :: nat
  rs_requeued :: nat
  rs_failed :: nat

definition CANCELLED_LEASE_LAPSED_ERROR :: string where
  "CANCELLED_LEASE_LAPSED_ERROR = ''Cancelled by the operator; the node holding it stopped reporting''"

definition CANCELLED_ERROR :: string where
  "CANCELLED_ERROR = ''Cancelled by the operator before a node claimed it''"

definition budget_error :: "fleet_job \<Rightarrow> string" where
  "budget_error j = ''Lease expired '' @ show_int (fj_attempts j) @ '' time(s) without a result; attempt budget exhausted''"

text \<open>Settling a lapsed claim as failed, with the event that says so.\<close>

definition settle_lapsed ::
  "fleet_env \<Rightarrow> string \<Rightarrow> fleet_job \<Rightarrow> observed_lease \<Rightarrow> string \<Rightarrow> completion_source \<Rightarrow> fleet \<Rightarrow> bool \<times> fleet" where
  "settle_lapsed env jid j obs err source s =
     (let (settled, s1) = on_jobs (failExhausted jid obs err (fe_now env)) s
      in if settled then (True, emit env (JobCompleted (toJobView jid (exhausted err (fe_now env) j)) (fj_userId j) source
                           (fj_nodeId j) None (Some err)) s1)
         else (False, s1))"

definition reclaim_one ::
  "fleet_env \<Rightarrow> string \<times> fleet_job \<Rightarrow> reclaim_summary \<times> fleet \<Rightarrow> reclaim_summary \<times> fleet" where
  "reclaim_one env e acc = (case (e, acc) of ((jid, j), (sm, s0)) \<Rightarrow>
     (case (fj_nodeId j, fj_leaseExpiresAt j) of
       (Some n, Some t) \<Rightarrow>
         (let s = fe_rivals env (BeforeReclaim jid) s0;
              obs = \<lparr>ol_status = fj_status j, ol_nodeId = n, ol_leaseExpiresAt = t, ol_leaseGeneration = fj_leaseGeneration j\<rparr>
          in if fj_cancelRequestedAt j \<noteq> None then
               (let (settled, s1) = settle_lapsed env jid j obs CANCELLED_LEASE_LAPSED_ERROR CancelledByOperator s
                in (if settled then sm\<lparr>rs_failed := rs_failed sm + 1\<rparr> else sm, s1))
             else if fj_maxAttempts j \<le> fj_attempts j then
               (let (settled, s1) = settle_lapsed env jid j obs (budget_error j) LeaseExhausted s
                in (if settled then sm\<lparr>rs_failed := rs_failed sm + 1\<rparr> else sm, s1))
             else
               (let (requeued, s1) = on_jobs (reclaim jid obs (fe_now env)) s
                in (if requeued then sm\<lparr>rs_requeued := rs_requeued sm + 1\<rparr> else sm, s1)))
     | _ \<Rightarrow> (sm, s0)))"

definition reclaimExpired :: "fleet_env \<Rightarrow> string option \<Rightarrow> fleet \<Rightarrow> reclaim_summary \<times> fleet" where
  "reclaimExpired env owner s =
     (let lapsed = findExpiredLeases (fe_now env) FLEET_JOB_RECLAIM_BATCH owner (fl_jobs s)
      in fold (reclaim_one env) lapsed (\<lparr>rs_scanned = length lapsed, rs_requeued = 0, rs_failed = 0\<rparr>, s))"

record expiry_summary =
  es_scanned :: nat
  es_expired :: nat

definition queue_cutoff :: "fleet_env \<Rightarrow> job_kind \<Rightarrow> int" where
  "queue_cutoff env kind = fe_now env - fe_queuedMaxAge env kind * 1000"

definition expire_one ::
  "fleet_env \<Rightarrow> job_kind \<Rightarrow> string \<times> fleet_job \<Rightarrow> expiry_summary \<times> fleet \<Rightarrow> expiry_summary \<times> fleet" where
  "expire_one env kind e acc = (case (e, acc) of ((jid, j), (sm, s0)) \<Rightarrow>
     if fj_queuedAt j = None \<or> fj_cancelRequestedAt j \<noteq> None then (sm, s0)
     else
       (let s = fe_rivals env (BeforeExpiry jid) s0;
            err = describeQueueExpiry j (fe_queuedMaxAge env kind);
            (settled, s1) = on_jobs (failQueuedExpired jid (queue_cutoff env kind) err (fe_now env)) s
        in if settled then
             (sm\<lparr>es_expired := es_expired sm + 1\<rparr>,
              emit env (JobCompleted (toJobView jid (expired err (fe_now env) j)) (fj_userId j) QueueExpired None None (Some err)) s1)
           else (sm, s1)))"

definition expire_kind :: "fleet_env \<Rightarrow> string option \<Rightarrow> job_kind \<Rightarrow> expiry_summary \<times> fleet \<Rightarrow> expiry_summary \<times> fleet" where
  "expire_kind env owner kind acc = (case acc of (sm, s) \<Rightarrow>
     (let stale = findQueuedOlderThan kind (queue_cutoff env kind) FLEET_JOB_RECLAIM_BATCH owner (fl_jobs s)
      in fold (expire_one env kind) stale (sm\<lparr>es_scanned := es_scanned sm + length stale\<rparr>, s)))"

definition expireQueued :: "fleet_env \<Rightarrow> string option \<Rightarrow> fleet \<Rightarrow> expiry_summary \<times> fleet" where
  "expireQueued env owner s =
     fold (expire_kind env owner) FLEET_JOB_KINDS (\<lparr>es_scanned = 0, es_expired = 0\<rparr>, s)"

end
