(* ===== verification/Fleet_Lease.thy ===== *)
theory Fleet_Lease
  imports Fleet_Service
begin

text \<open>
  The calls of a node (lease, heartbeat, completion with the usage-limit park, the authorization of a run's
  secrets, the promotion of waiting jobs) and the calls of the platform (cancel, drain, the listings), in
  \<open>fleet/fleet-job.service.ts\<close>.
\<close>

section \<open>Lease\<close>

record lease_input =
  li_nodeId :: json
  li_secret :: json
  li_max :: json
  li_leaseTtlSec :: json
  li_capabilities :: json
  li_kinds :: "job_kind list option"
  li_excludeKinds :: "job_kind list option"

definition isLeasableKind :: "job_kind \<Rightarrow> kind_filter \<Rightarrow> bool" where
  "isLeasableKind kind f =
     (if kf_kinds f \<noteq> [] \<and> kind \<notin> set (kf_kinds f) then False
      else if kind \<in> set (kf_excludeKinds f) then False else True)"

definition blockedByModelThrottle :: "fleet_job \<Rightarrow> string set \<Rightarrow> bool" where
  "blockedByModelThrottle j throttled =
     (if throttled = {} then False
      else if list_ex (\<lambda>tag. tag \<in> throttled) (fj_requiredCapabilities j) then True
      else if fj_kind j \<noteq> AgentTask then False
      else case own_prop (payload_prop (fj_payload j) ''execution'') ''provider'' of
             JStr p \<Rightarrow> p \<in> throttled | _ \<Rightarrow> False)"

text \<open>A nonempty string property of the payload.\<close>

definition payload_id :: "fleet_job \<Rightarrow> string \<Rightarrow> string option" where
  "payload_id j key = (case payload_prop (fj_payload j) key of JStr s \<Rightarrow> if s = [] then None else Some s | _ \<Rightarrow> None)"

definition appWorkLeaseAdmits :: "fleet_env \<Rightarrow> string \<Rightarrow> fleet_job \<Rightarrow> string \<Rightarrow> fleet_node \<Rightarrow> bool" where
  "appWorkLeaseAdmits env jid j nodeId node =
     (if fj_kind j \<noteq> AgentTask then True
      else case payload_id j ''appWorkId'' of
        None \<Rightarrow> True
      | Some workId \<Rightarrow> (case fe_admits env of
          None \<Rightarrow> False
        | Some port \<Rightarrow> port (fn_userId node, nodeId, workId, jid, payload_id j ''taskId'') = Some True))"

definition fleet_stopped :: "fleet_env \<Rightarrow> bool" where
  "fleet_stopped env = (case fe_killSwitch env of SwitchNotWired \<Rightarrow> False | SwitchThrows \<Rightarrow> True | SwitchReads b \<Rightarrow> b)"

record lease_terms =
  lt_nodeId :: string
  lt_node :: fleet_node
  lt_capabilities :: "string list"
  lt_throttled :: "string set"
  lt_kinds :: kind_filter
  lt_max :: int
  lt_expires :: int

definition offerable :: "fleet_env \<Rightarrow> lease_terms \<Rightarrow> string \<Rightarrow> fleet_job \<Rightarrow> bool" where
  "offerable env lt jid j \<longleftrightarrow>
     \<not> (case fj_targetNodeId j of Some n \<Rightarrow> n \<noteq> [] \<and> n \<noteq> lt_nodeId lt | None \<Rightarrow> False) \<and>
     isLeasableKind (fj_kind j) (lt_kinds lt) \<and>
     nodeSatisfiesCapabilities (lt_capabilities lt) (fj_requiredCapabilities j) \<and>
     \<not> blockedByModelThrottle j (lt_throttled lt) \<and>
     appWorkLeaseAdmits env jid j (lt_nodeId lt) (lt_node lt)"

definition lease_one :: "fleet_env \<Rightarrow> lease_terms \<Rightarrow> string \<times> fleet_job \<Rightarrow> job_view list \<times> fleet \<Rightarrow> job_view list \<times> fleet" where
  "lease_one env lt e acc = (case (e, acc) of ((jid, j), (leased, s0)) \<Rightarrow>
     if lt_max lt \<le> int (length leased) then (leased, s0)
     else if \<not> offerable env lt jid j then (leased, s0)
     else
       (let s = fe_rivals env (BeforeClaim jid) s0;
            attempts = fj_attempts j + 1; generation = fj_leaseGeneration j + 1;
            (won, s1) = on_jobs (claim jid (lt_nodeId lt) (lt_expires lt) attempts generation) s
        in if \<not> won then (leased, s1)
           else (let view = toJobView jid (claimed (lt_nodeId lt) (lt_expires lt) attempts generation j)
                 in (leased @ [view], emit env (JobLeased view (lt_nodeId lt) (fn_userId (lt_node lt))) s1))))"

definition lease_window :: "int \<Rightarrow> nat" where
  "lease_window m = nat (max (m * 4) FLEET_JOB_MAX_LEASE_BATCH)"

definition kind_filter_of :: "lease_input \<Rightarrow> kind_filter" where
  "kind_filter_of inp =
     \<lparr>kf_kinds = (case li_kinds inp of Some ks \<Rightarrow> ks | None \<Rightarrow> []),
      kf_excludeKinds = (case li_excludeKinds inp of Some ks \<Rightarrow> ks | None \<Rightarrow> [])\<rparr>"

definition lease_terms_of :: "fleet_env \<Rightarrow> lease_input \<Rightarrow> string \<Rightarrow> fleet_node \<Rightarrow> lease_terms" where
  "lease_terms_of env inp nodeId node =
     \<lparr>lt_nodeId = nodeId, lt_node = node,
      lt_capabilities = (case li_capabilities inp of
        JArr _ \<Rightarrow> normalizeCapabilities (li_capabilities inp) (FLEET_JOB_MAX_REQUIRED_CAPABILITIES * 4)
      | _ \<Rightarrow> (case fn_capabilities node of Some cs \<Rightarrow> cs | None \<Rightarrow> [])),
      lt_throttled = throttledProviders (fe_localeLe env) node (fe_now env),
      lt_kinds = kind_filter_of inp, lt_max = clampBatch (li_max inp),
      lt_expires = fe_now env + clampLeaseTtlSec (li_leaseTtlSec inp) * 1000\<rparr>"

definition lease_jobs :: "fleet_env \<Rightarrow> lease_terms \<Rightarrow> fleet \<Rightarrow> job_view list \<times> fleet" where
  "lease_jobs env lt s =
     fold (lease_one env lt)
       (findQueuedForNode (fn_userId (lt_node lt)) (lt_nodeId lt) (lease_window (lt_max lt)) (lt_kinds lt) (fl_jobs s)) ([], s)"

text \<open>\<open>None\<close> is the credential that does not verify.\<close>

definition lease :: "fleet_env \<Rightarrow> lease_input \<Rightarrow> fleet \<Rightarrow> job_view list option \<times> fleet" where
  "lease env inp s = (case authenticateNode (fe_sha256 env) (fe_now env) (fl_nodes s) (li_nodeId inp) (li_secret inp) ToLease of
     None \<Rightarrow> (None, s)
   | Some (nodeId, node) \<Rightarrow>
      if fleet_stopped env then (Some [], s)
      else if isFleetNodeVersionBelowFloor (fn_version node) (fe_minNodeVersion env) then (Some [], s)
      else
        (let (_, s1) = reclaimExpired env (Some (fn_userId node)) s;
             (_, s2) = expireQueued env (Some (fn_userId node)) s1;
             (views, s3) = lease_jobs env (lease_terms_of env inp nodeId node) (fe_rivals env BeforeScan s2)
         in (Some views, s3)))"

section \<open>Cancel\<close>

datatype cancel_state = QueuedDropped | CancelRequested | AlreadyTerminal | NotFound

definition requestCancelOnActive :: "fleet_env \<Rightarrow> string \<Rightarrow> fleet_job \<Rightarrow> fleet \<Rightarrow> (bool \<times> cancel_state) \<times> fleet" where
  "requestCancelOnActive env jid j s =
     (if fj_cancelRequestedAt j \<noteq> None then ((True, CancelRequested), s)
      else
        (let (flagged, s1) = on_jobs (requestCancel jid (fe_now env)) (fe_rivals env BeforeRetry s)
         in if flagged then ((True, CancelRequested), s1)
            else (case map_of (fl_jobs s1) jid of
              Some fresh \<Rightarrow> if fj_cancelRequestedAt fresh \<noteq> None then ((True, CancelRequested), s1) else ((False, AlreadyTerminal), s1)
            | None \<Rightarrow> ((False, AlreadyTerminal), s1))))"

definition cancel :: "fleet_env \<Rightarrow> json \<Rightarrow> fleet \<Rightarrow> (bool \<times> cancel_state) \<times> fleet" where
  "cancel env jobId s = (case jobId of
     JStr jid \<Rightarrow>
       if \<not> fe_isUUID env jid then ((False, NotFound), s)
       else (case map_of (fl_jobs s) jid of
         None \<Rightarrow> ((False, NotFound), s)
       | Some j \<Rightarrow>
          if terminal j then ((False, AlreadyTerminal), s)
          else if fj_status j = Queued then
            (let (won, s1) = on_jobs (cancelQueued jid CANCELLED_ERROR (fe_now env)) (fe_rivals env BeforeWrite s)
             in if won then
                  ((True, QueuedDropped),
                   emit env (JobCompleted (toJobView jid (j\<lparr>fj_status := Failed, fj_error := Some CANCELLED_ERROR,
                     fj_completedAt := Some (fe_now env), fj_leaseExpiresAt := None, fj_cancelRequestedAt := Some (fe_now env)\<rparr>))
                     (fj_userId j) CancelledByOperator None None (Some CANCELLED_ERROR)) s1)
                else (case map_of (fl_jobs s1) jid of
                  None \<Rightarrow> ((False, AlreadyTerminal), s1)
                | Some fresh \<Rightarrow> if terminal fresh then ((False, AlreadyTerminal), s1) else requestCancelOnActive env jid fresh s1))
          else requestCancelOnActive env jid j s)
   | _ \<Rightarrow> ((False, NotFound), s))"

section \<open>The holder's calls\<close>

text \<open>What the three calls of a holder check first: the credential, the holder, the status, the generation.\<close>

definition held_job ::
  "fleet_env \<Rightarrow> json \<Rightarrow> json \<Rightarrow> string \<Rightarrow> json \<Rightarrow> fleet \<Rightarrow> fleet_error + (string \<times> fleet_node \<times> fleet_job) option" where
  "held_job env nodeId secret jid generation s =
     (case authenticateNode (fe_sha256 env) (fe_now env) (fl_nodes s) nodeId secret ToReport of
       None \<Rightarrow> Inr None
     | Some (n, node) \<Rightarrow> (case map_of (fl_jobs s) jid of
         None \<Rightarrow> Inr None
       | Some j \<Rightarrow>
          if fj_nodeId j \<noteq> Some n then Inr None
          else if fj_status j \<noteq> Leased \<and> fj_status j \<noteq> Running then Inr None
          else if \<not> isCurrentLeaseGeneration j generation then Inl StaleLease
          else Inr (Some (n, node, j))))"

definition heartbeatJob ::
  "fleet_env \<Rightarrow> json \<Rightarrow> json \<Rightarrow> string \<Rightarrow> json \<Rightarrow> json \<Rightarrow> fleet \<Rightarrow> (fleet_error + job_view option) \<times> fleet" where
  "heartbeatJob env nodeId secret jid leaseTtlSec generation s =
     (case held_job env nodeId secret jid generation s of
       Inl e \<Rightarrow> (Inl e, s)
     | Inr None \<Rightarrow> (Inr None, s)
     | Inr (Some (n, node, j)) \<Rightarrow>
        if fj_cancelRequestedAt j \<noteq> None then (Inr None, s)
        else
          (let expires = fe_now env + clampLeaseTtlSec leaseTtlSec * 1000;
               started = (case fj_startedAt j of Some t \<Rightarrow> t | None \<Rightarrow> fe_now env);
               (won, s1) = on_jobs (extendLease jid n expires (Some started) (fj_leaseGeneration j)) (fe_rivals env BeforeWrite s)
           in if won then (Inr (Some (toJobView jid (extended expires (Some started) j))), s1) else (Inr None, s1)))"

definition park_job ::
  "fleet_env \<Rightarrow> string \<Rightarrow> fleet_node \<Rightarrow> string \<Rightarrow> fleet_job \<Rightarrow> usage_limit \<Rightarrow> fleet \<Rightarrow> job_view option \<times> fleet" where
  "park_job env n node jid j limit s =
     (let attempts = max 0 (fj_attempts j - 1); parks = fj_usageLimitParks j + 1;
          (won, s1) = on_jobs (parkForUsageLimit jid n (fj_leaseGeneration j) attempts (ul_retryAfter limit) parks)
                        (fe_rivals env BeforeWrite s)
      in if \<not> won then (None, s1)
         else
           (let (newWindow, nodes) = recordModelThrottle (fe_localeLe env) n node limit (fe_now env) (fl_nodes s1);
                view = toJobView jid (parked attempts (ul_retryAfter limit) parks j)
            in (Some view, emit env (JobParked view (fj_userId j) n limit newWindow) (s1\<lparr>fl_nodes := nodes\<rparr>))))"

record complete_input =
  ci_nodeId :: json
  ci_secret :: json
  ci_jobId :: string
  ci_success :: bool
  ci_result :: json
  ci_error :: json
  ci_leaseGeneration :: json

definition settle_job ::
  "fleet_env \<Rightarrow> string \<Rightarrow> string \<Rightarrow> fleet_job \<Rightarrow> job_status \<Rightarrow> json option \<Rightarrow> string option \<Rightarrow> fleet \<Rightarrow> job_view option \<times> fleet" where
  "settle_job env n jid j verdict res err s =
     (let (won, s1) = on_jobs (complete jid n verdict res err (fe_now env) (fj_leaseGeneration j)) (fe_rivals env BeforeWrite s)
      in if \<not> won then (None, s1)
         else (let view = toJobView jid (completed verdict res err (fe_now env) j)
               in (Some view, emit env (JobCompleted view (fj_userId j) NodeReport (Some n) res err) s1)))"

definition completeJob :: "fleet_env \<Rightarrow> complete_input \<Rightarrow> fleet \<Rightarrow> (fleet_error + job_view option) \<times> fleet" where
  "completeJob env inp s =
     (case held_job env (ci_nodeId inp) (ci_secret inp) (ci_jobId inp) (ci_leaseGeneration inp) s of
       Inl e \<Rightarrow> (Inl e, s)
     | Inr None \<Rightarrow> (Inr None, s)
     | Inr (Some (n, node, j)) \<Rightarrow>
        (let limit = (if ci_success inp \<and> fj_kind j = AgentTask
                      then readFleetJobModelUsageLimit (fe_readers env) (ci_result inp) (fe_now env) else None)
         in case (if fj_usageLimitParks j < FLEET_JOB_MAX_USAGE_LIMIT_PARKS then limit else None) of
           Some l \<Rightarrow> (let (v, s1) = park_job env n node (ci_jobId inp) j l s in (Inr v, s1))
         | None \<Rightarrow>
            if ci_success inp then
              (case normalizePayload (ci_result inp) FLEET_JOB_MAX_RESULT_BYTES ''result'' of
                Inl e \<Rightarrow> (Inl e, s)
              | Inr res \<Rightarrow> (let (v, s1) = settle_job env n (ci_jobId inp) j Done res None s in (Inr v, s1)))
            else (let (v, s1) = settle_job env n (ci_jobId inp) j Failed None (truncate_text (ci_error inp) FLEET_JOB_MAX_ERROR_LENGTH) s
                  in (Inr v, s1))))"

definition authorizeRunSecretRequest ::
  "fleet_env \<Rightarrow> json \<Rightarrow> json \<Rightarrow> string \<Rightarrow> json \<Rightarrow> fleet \<Rightarrow> fleet_error + (string \<times> string \<times> string) option" where
  "authorizeRunSecretRequest env nodeId secret jid generation s =
     (case held_job env nodeId secret jid generation s of
       Inl e \<Rightarrow> Inl e
     | Inr None \<Rightarrow> Inr None
     | Inr (Some (n, node, j)) \<Rightarrow> Inr (Some (jid, fj_userId j, n)))"

section \<open>Promotion, drain, listings\<close>

definition promote_one :: "fleet_env \<Rightarrow> fleet_node \<Rightarrow> string \<times> fleet_job \<Rightarrow> nat \<times> fleet \<Rightarrow> nat \<times> fleet" where
  "promote_one env node e acc = (case (e, acc) of ((jid, j), (n, s0)) \<Rightarrow>
     if fj_cancelRequestedAt j \<noteq> None then (n, s0)
     else if \<not> nodeSatisfiesCapabilities (case fn_capabilities node of Some cs \<Rightarrow> cs | None \<Rightarrow> []) (fj_requiredCapabilities j) then (n, s0)
     else if blockedByModelThrottle j (throttledProviders (fe_localeLe env) node (fe_now env)) then (n, s0)
     else (let (won, s1) = on_jobs (promoteWaiting jid) (fe_rivals env (BeforePromotion jid) s0)
           in (if won then n + 1 else n, s1)))"

definition promoteWaitingForNode :: "fleet_env \<Rightarrow> json \<Rightarrow> fleet \<Rightarrow> nat \<times> fleet" where
  "promoteWaitingForNode env nodeId s = (case nodeId of
     JStr n \<Rightarrow>
       if \<not> fe_isUUID env n then (0, s)
       else (case map_of (fl_nodes s) n of
         None \<Rightarrow> (0, s)
       | Some node \<Rightarrow>
          if fn_status node \<noteq> Online then (0, s)
          else if list_ex (\<lambda>e. fj_nodeId (snd e) = Some n) (findActiveForUser (fn_userId node) (fl_jobs s)) then (0, s)
          else fold (promote_one env node) (findWaitingForNode (fn_userId node) n FLEET_JOB_RECLAIM_BATCH (fl_jobs s)) (0, s))
   | _ \<Rightarrow> (0, s))"

definition drainNode :: "fleet_env \<Rightarrow> string \<Rightarrow> string \<Rightarrow> fleet \<Rightarrow> nat \<times> fleet" where
  "drainNode env userId nodeId = on_jobs (releaseClaimsForNode userId nodeId (fe_now env))"

record node_load =
  nl_activeJobCount :: nat
  nl_currentJobKind :: job_kind
  nl_currentJobId :: string

definition count_load :: "string \<times> fleet_job \<Rightarrow> (string \<times> node_load) list \<Rightarrow> (string \<times> node_load) list" where
  "count_load e loads = (case fj_nodeId (snd e) of
     None \<Rightarrow> loads
   | Some n \<Rightarrow>
      if n = [] then loads
      else (case map_of loads n of
        Some l \<Rightarrow> AList.update n (l\<lparr>nl_activeJobCount := nl_activeJobCount l + 1\<rparr>) loads
      | None \<Rightarrow> loads @ [(n, \<lparr>nl_activeJobCount = 1, nl_currentJobKind = fj_kind (snd e), nl_currentJobId = fst e\<rparr>)]))"

definition loadByNodeForUser :: "string \<Rightarrow> fleet \<Rightarrow> (string \<times> node_load) list" where
  "loadByNodeForUser userId s = fold count_load (findActiveForUser userId (fl_jobs s)) []"

definition activeForUser :: "string \<Rightarrow> fleet \<Rightarrow> job_view list" where
  "activeForUser userId s = map (\<lambda>(i, j). toJobView i j) (findActiveForUser userId (fl_jobs s))"

definition queuedForUser :: "string \<Rightarrow> int \<Rightarrow> fleet \<Rightarrow> job_view list" where
  "queuedForUser userId limit s = map (\<lambda>(i, j). toJobView i j)
     (findQueuedForUser userId (nat (min (max limit 1) FLEET_JOB_QUEUED_SCAN_LIMIT)) (fl_jobs s))"

definition listForUser :: "string \<Rightarrow> int \<Rightarrow> fleet \<Rightarrow> job_view list" where
  "listForUser userId limit s = map (\<lambda>(i, j). toJobView i j)
     (findByUser userId (nat (min (max limit 1) 200)) (fl_jobs s))"

definition historyForNode :: "string \<Rightarrow> string \<Rightarrow> int \<Rightarrow> fleet \<Rightarrow> (job_view \<times> string option) list" where
  "historyForNode userId nodeId limit s = map (\<lambda>(i, j). toJobHistoryView i j)
     (findByNodeForUser userId nodeId (nat (min (max limit 1) 100)) (fl_jobs s))"

end
