(* ===== verification/Fleet_Machine.thy ===== *)
theory Fleet_Machine
  imports Fleet_Lease
begin

text \<open>
  The life of a job as a step relation on its row, and the fleet as the rows of all callers in any order. A
  step of the fleet moves one row and emits its completion event exactly when the row becomes terminal; it
  may also create a row, change the nodes or emit another event. \<open>evolves\<close> is any number of steps: it is
  what a call relies on of the others between its read and its write, and what every call guarantees.
\<close>

section \<open>The life of a job\<close>

inductive job_step :: "fleet_job \<Rightarrow> fleet_job \<Rightarrow> bool" where
  claims: "fj_status j = Queued \<Longrightarrow> fj_cancelRequestedAt j = None \<Longrightarrow>
    job_step j (claimed n t (fj_attempts j + 1) (fj_leaseGeneration j + 1) j)"
| beats: "active j \<Longrightarrow> job_step j (extended t (Some st) j)"
| settles: "active j \<Longrightarrow> verdict = Done \<or> verdict = Failed \<Longrightarrow> job_step j (completed verdict res err now j)"
| parks: "active j \<Longrightarrow> fj_usageLimitParks j < FLEET_JOB_MAX_USAGE_LIMIT_PARKS \<Longrightarrow>
    job_step j (parked (max 0 (fj_attempts j - 1)) t (fj_usageLimitParks j + 1) j)"
| drops: "fj_status j = Queued \<Longrightarrow> job_step j (dropped err now j)"
| flags: "active j \<Longrightarrow> fj_cancelRequestedAt j = None \<Longrightarrow> job_step j (j\<lparr>fj_cancelRequestedAt := Some now\<rparr>)"
| expires: "fj_status j = Queued \<Longrightarrow> fj_cancelRequestedAt j = None \<Longrightarrow> job_step j (expired err now j)"
| promotes: "fj_status j = Queued \<Longrightarrow> job_step j (j\<lparr>fj_queuedReason := None\<rparr>)"
| reclaims: "active j \<Longrightarrow> fj_attempts j < fj_maxAttempts j \<Longrightarrow> job_step j (reclaimed now j)"
| exhausts: "active j \<Longrightarrow> job_step j (exhausted err now j)"
| drains: "active j \<Longrightarrow> job_step j (drained now j)"
| purges: "terminal j \<Longrightarrow> fj_bodiesPurgedAt j = None \<Longrightarrow> job_step j (purged now j)"
| stamps: "job_step j (j\<lparr>fj_costCents := Some c\<rparr>)"

inductive_cases job_stepE: "job_step j j'"

abbreviation job_steps :: "fleet_job \<Rightarrow> fleet_job \<Rightarrow> bool" where
  "job_steps \<equiv> job_step\<^sup>*\<^sup>*"

lemmas status_defs = isFleetJobActive_def isFleetJobTerminal_def FLEET_JOB_ACTIVE_STATUSES_def FLEET_JOB_TERMINAL_STATUSES_def

lemma active_iff: "isFleetJobActive st \<longleftrightarrow> st = Leased \<or> st = Running"
  by (simp add: status_defs)

lemma terminal_iff: "isFleetJobTerminal st \<longleftrightarrow> st = Done \<or> st = Failed"
  by (simp add: status_defs)

lemma three_ways: "isFleetJobActive st \<or> isFleetJobTerminal st \<or> st = Queued"
  by (cases st) (simp_all add: status_defs)

lemmas job_step_simps = patch_defs active_iff terminal_iff

text \<open>What no step changes, and what it only moves forward.\<close>

lemma step_keeps:
  assumes "job_step j j'"
  shows "fj_userId j' = fj_userId j \<and> fj_kind j' = fj_kind j \<and> fj_targetNodeId j' = fj_targetNodeId j \<and>
    fj_requiredCapabilities j' = fj_requiredCapabilities j \<and> fj_maxAttempts j' = fj_maxAttempts j \<and>
    fj_idempotencyKey j' = fj_idempotencyKey j \<and> fj_createdAt j' = fj_createdAt j"
  using assms by cases (simp_all add: job_step_simps)

lemma step_generation: "job_step j j' \<Longrightarrow> fj_leaseGeneration j \<le> fj_leaseGeneration j'"
  by (erule job_stepE) (simp_all add: job_step_simps)

lemma step_flag: "job_step j j' \<Longrightarrow> fj_cancelRequestedAt j \<noteq> None \<Longrightarrow> fj_cancelRequestedAt j' \<noteq> None"
  by (erule job_stepE) (simp_all add: job_step_simps)

lemma step_terminal: "job_step j j' \<Longrightarrow> terminal j \<Longrightarrow> fj_status j' = fj_status j"
  by (erule job_stepE) (auto simp: job_step_simps)

lemma steps_keep:
  "job_steps j j' \<Longrightarrow> fj_userId j' = fj_userId j \<and> fj_kind j' = fj_kind j \<and> fj_targetNodeId j' = fj_targetNodeId j \<and>
    fj_requiredCapabilities j' = fj_requiredCapabilities j \<and> fj_maxAttempts j' = fj_maxAttempts j \<and>
    fj_idempotencyKey j' = fj_idempotencyKey j \<and> fj_createdAt j' = fj_createdAt j"
  by (induction rule: rtranclp_induct) (auto dest: step_keeps)

lemma steps_generation: "job_steps j j' \<Longrightarrow> fj_leaseGeneration j \<le> fj_leaseGeneration j'"
  by (induction rule: rtranclp_induct) (auto dest: step_generation)

lemma steps_flag: "job_steps j j' \<Longrightarrow> fj_cancelRequestedAt j \<noteq> None \<Longrightarrow> fj_cancelRequestedAt j' \<noteq> None"
  by (induction rule: rtranclp_induct) (auto dest: step_flag)

lemma steps_terminal: "job_steps j j' \<Longrightarrow> terminal j \<Longrightarrow> fj_status j' = fj_status j"
proof (induction rule: rtranclp_induct)
  case (step y z)
  then show ?case using step_terminal [of y z] by simp
qed simp

text \<open>
  While the generation stands still, a claim is the same claim: a queued row is still queued with the same
  attempts or settled, and an active row keeps its holder and its counters or has left for good.
\<close>

lemma step_same_generation_queued:
  "job_step j j' \<Longrightarrow> fj_status j = Queued \<Longrightarrow> fj_leaseGeneration j' = fj_leaseGeneration j \<Longrightarrow>
     (fj_status j' = Queued \<and> fj_attempts j' = fj_attempts j) \<or> terminal j'"
  by (erule job_stepE) (simp_all add: job_step_simps)

definition same_claim :: "fleet_job \<Rightarrow> fleet_job \<Rightarrow> bool" where
  "same_claim j j' \<longleftrightarrow> fj_nodeId j' = fj_nodeId j \<and> fj_attempts j' = fj_attempts j \<and> fj_usageLimitParks j' = fj_usageLimitParks j"

lemma step_same_generation_active:
  "job_step j j' \<Longrightarrow> fj_leaseGeneration j' = fj_leaseGeneration j \<Longrightarrow> active j' \<Longrightarrow> active j \<and> same_claim j j'"
  by (erule job_stepE) (auto simp add: job_step_simps same_claim_def)

lemma same_generation_queued:
  assumes "job_steps j j'" "fj_status j = Queued" "fj_leaseGeneration j' = fj_leaseGeneration j"
  shows "(fj_status j' = Queued \<and> fj_attempts j' = fj_attempts j) \<or> terminal j'"
  using assms
proof (induction rule: rtranclp_induct)
  case (step y z)
  have gen: "fj_leaseGeneration y = fj_leaseGeneration j" "fj_leaseGeneration z = fj_leaseGeneration y"
    using steps_generation [OF step(1)] step_generation [OF step(2)] step(5) by simp_all
  consider "terminal y" | "fj_status y = Queued" "fj_attempts y = fj_attempts j" using step.IH step(4) gen by blast
  then show ?case
  proof cases
    case 1
    then show ?thesis using step_terminal [OF step(2)] by simp
  next
    case 2
    then show ?thesis using step_same_generation_queued [OF step(2) 2(1) gen(2)] by simp
  qed
qed simp

lemma same_generation_active:
  assumes "job_steps j j'" "active j'" "fj_leaseGeneration j' = fj_leaseGeneration j"
  shows "active j \<and> same_claim j j'"
  using assms
proof (induction rule: rtranclp_induct)
  case (step y z)
  have gen: "fj_leaseGeneration y = fj_leaseGeneration j" "fj_leaseGeneration z = fj_leaseGeneration y"
    using steps_generation [OF step(1)] step_generation [OF step(2)] step(5) by simp_all
  have "active y \<and> same_claim y z" by (rule step_same_generation_active [OF step(2) gen(2) step(4)])
  then show ?case using step.IH gen(1) by (simp add: same_claim_def)
qed (simp add: same_claim_def)

section \<open>Lawful rows\<close>

text \<open>What the status of a row says about its other columns.\<close>

fun status_ok :: "job_status \<Rightarrow> fleet_job \<Rightarrow> bool" where
  "status_ok Queued j = (fj_nodeId j = None \<and> fj_leaseExpiresAt j = None \<and> fj_completedAt j = None \<and> fj_bodiesPurgedAt j = None)"
| "status_ok Leased j = (fj_nodeId j \<noteq> None \<and> fj_leaseExpiresAt j \<noteq> None \<and> fj_completedAt j = None \<and>
     fj_bodiesPurgedAt j = None \<and> fj_queuedReason j = None \<and> 1 \<le> fj_attempts j)"
| "status_ok Running j = (fj_nodeId j \<noteq> None \<and> fj_leaseExpiresAt j \<noteq> None \<and> fj_completedAt j = None \<and>
     fj_bodiesPurgedAt j = None \<and> fj_queuedReason j = None \<and> 1 \<le> fj_attempts j \<and> fj_startedAt j \<noteq> None)"
| "status_ok Done j = (fj_leaseExpiresAt j = None \<and> fj_completedAt j \<noteq> None \<and> fj_queuedReason j = None)"
| "status_ok Failed j = (fj_leaseExpiresAt j = None \<and> fj_completedAt j \<noteq> None \<and> fj_queuedReason j = None)"

definition counters_ok :: "fleet_job \<Rightarrow> bool" where
  "counters_ok j \<longleftrightarrow> fj_queuedAt j \<noteq> None \<and> 0 \<le> fj_attempts j \<and> 1 \<le> fj_maxAttempts j \<and> fj_maxAttempts j \<le> 10 \<and>
     0 \<le> fj_usageLimitParks j \<and> fj_usageLimitParks j \<le> 20 \<and>
     fj_leaseGeneration j = fj_attempts j + fj_usageLimitParks j"

definition job_ok :: "fleet_job \<Rightarrow> bool" where
  "job_ok j \<longleftrightarrow> status_ok (fj_status j) j \<and> counters_ok j"

lemma status_ok_active: "status_ok st j \<Longrightarrow> isFleetJobActive st \<Longrightarrow> fj_nodeId j \<noteq> None \<and> fj_leaseExpiresAt j \<noteq> None \<and>
    fj_completedAt j = None \<and> fj_bodiesPurgedAt j = None \<and> fj_queuedReason j = None \<and> 1 \<le> fj_attempts j"
  by (cases st) (simp_all add: active_iff)

lemma status_ok_terminal: "isFleetJobTerminal st \<Longrightarrow> status_ok st j \<longleftrightarrow> fj_leaseExpiresAt j = None \<and> fj_completedAt j \<noteq> None \<and> fj_queuedReason j = None"
  by (cases st) (simp_all add: terminal_iff)

lemma status_ok_step: "job_step j j' \<Longrightarrow> status_ok (fj_status j) j \<Longrightarrow> 0 \<le> fj_attempts j \<Longrightarrow> status_ok (fj_status j') j'"
proof (induction rule: job_step.induct)
  case (flags j now)
  then show ?case by (cases "fj_status j") simp_all
next
  case (purges j now)
  then show ?case by (simp add: purged_def status_ok_terminal)
next
  case (stamps j c)
  then show ?case by (cases "fj_status j") simp_all
qed (auto simp add: patch_defs dest: status_ok_active)

lemma counters_ok_step: "job_step j j' \<Longrightarrow> counters_ok j \<Longrightarrow> status_ok (fj_status j) j \<Longrightarrow> counters_ok j'"
proof (induction rule: job_step.induct)
  case (parks j t)
  then have "1 \<le> fj_attempts j" using status_ok_active by blast
  then show ?case using parks by (simp add: counters_ok_def parked_def FLEET_JOB_MAX_USAGE_LIMIT_PARKS_def)
qed (simp_all add: counters_ok_def patch_defs)

lemma job_ok_step: "job_step j j' \<Longrightarrow> job_ok j \<Longrightarrow> job_ok j'"
  using status_ok_step counters_ok_step unfolding job_ok_def by (metis counters_ok_def)

lemma job_ok_steps: "job_steps j j' \<Longrightarrow> job_ok j \<Longrightarrow> job_ok j'"
  by (induction rule: rtranclp_induct) (auto dest: job_ok_step)

definition new_job_ok :: "new_job \<Rightarrow> bool" where
  "new_job_ok d \<longleftrightarrow> 1 \<le> nj_maxAttempts d \<and> nj_maxAttempts d \<le> 10"

lemma job_ok_created: "new_job_ok d \<Longrightarrow> job_ok (created_job d now)"
  by (simp add: job_ok_def counters_ok_def created_job_def new_job_ok_def)

section \<open>The fleet\<close>

fun completes :: "string \<Rightarrow> fleet_event \<Rightarrow> bool" where
  "completes jid (JobCompleted v _ _ _ _ _) = (jv_id v = jid)"
| "completes jid _ = False"

definition completions :: "string \<Rightarrow> fleet_event list \<Rightarrow> nat" where
  "completions jid es = length (filter (completes jid) es)"

fun is_completion :: "fleet_event \<Rightarrow> bool" where
  "is_completion (JobCompleted _ _ _ _ _ _) = True"
| "is_completion _ = False"

text \<open>The events a row's move comes with: its completion exactly when it becomes terminal.\<close>

definition told :: "bool \<Rightarrow> string \<Rightarrow> fleet_job \<Rightarrow> fleet_job \<Rightarrow> fleet_event list \<Rightarrow> bool" where
  "told wired jid j j' es \<longleftrightarrow>
     (if wired \<and> terminal j' \<and> \<not> terminal j then \<exists>v u src n r e. jv_id v = jid \<and> es = [JobCompleted v u src n r e]
      else list_all (\<lambda>e. \<not> is_completion e) es)"

inductive fleet_step :: "bool \<Rightarrow> fleet \<Rightarrow> fleet \<Rightarrow> bool" for wired where
  moves: "map_of (fl_jobs s) jid = Some j \<Longrightarrow> job_step j j' \<Longrightarrow> told wired jid j j' es \<Longrightarrow>
    fleet_step wired s (s\<lparr>fl_jobs := AList.update jid j' (fl_jobs s), fl_events := fl_events s @ es\<rparr>)"
| inserts: "create jid d now (fl_jobs s) = Some T \<Longrightarrow> new_job_ok d \<Longrightarrow> fleet_step wired s (s\<lparr>fl_jobs := T\<rparr>)"
| nodes: "fleet_step wired s (s\<lparr>fl_nodes := ns\<rparr>)"
| tells: "\<not> is_completion e \<Longrightarrow> fleet_step wired s (s\<lparr>fl_events := fl_events s @ [e]\<rparr>)"

inductive_cases fleet_stepE: "fleet_step wired s s'"

abbreviation evolves :: "bool \<Rightarrow> fleet \<Rightarrow> fleet \<Rightarrow> bool" where
  "evolves wired \<equiv> (fleet_step wired)\<^sup>*\<^sup>*"

text \<open>What a call relies on: the others do nothing but steps.\<close>

definition rely :: "fleet_env \<Rightarrow> bool" where
  "rely env \<longleftrightarrow> (\<forall>m s. evolves (fe_hasEvents env) s (fe_rivals env m s))"

definition keys_ok :: "fleet \<Rightarrow> bool" where
  "keys_ok s \<longleftrightarrow> distinct (map fst (fl_jobs s)) \<and>
     distinct (filter (\<lambda>k. k \<noteq> None) (map (\<lambda>e. fj_idempotencyKey (snd e)) (fl_jobs s)))"

definition fleet_ok :: "bool \<Rightarrow> fleet \<Rightarrow> bool" where
  "fleet_ok wired s \<longleftrightarrow> keys_ok s \<and> (\<forall>jid j. map_of (fl_jobs s) jid = Some j \<longrightarrow> job_ok j) \<and>
     (wired \<longrightarrow> (\<forall>jid. completions jid (fl_events s) =
        (case map_of (fl_jobs s) jid of Some j \<Rightarrow> if terminal j then 1 else 0 | None \<Rightarrow> 0)))"

end
