(* ===== verification/Fleet_Laws.thy ===== *)
theory Fleet_Laws
  imports Fleet_Machine
begin

text \<open>
  What evolution preserves, and the guarantee of every call: under the rely, the fleet after a call is the
  fleet before it moved by lawful steps. A snapshot and the row it was read from are related by steps, which
  is what makes the conditional updates safe.
\<close>

section \<open>Evolution\<close>

lemma map_of_update [simp]: "map_of (AList.update k v T) = (map_of T)(k \<mapsto> v)"
  by (rule update_conv')

lemma update_keys: "map_of T k = Some v \<Longrightarrow> map fst (AList.update k w T) = map fst T"
  by (induction T) auto

lemma update_column: "map_of T k = Some v \<Longrightarrow> c w = c v \<Longrightarrow> map (\<lambda>e. c (snd e)) (AList.update k w T) = map (\<lambda>e. c (snd e)) T"
  by (induction T) auto

lemma create_Some:
  "create jid d now T = Some T' \<longleftrightarrow>
     T' = T @ [(jid, created_job d now)] \<and> jid \<notin> fst ` set T \<and> \<not> key_taken (nj_idempotencyKey d) T"
  by (auto simp: create_def)

lemma keys_ok_step:
  assumes "fleet_step w s s'" "keys_ok s"
  shows "keys_ok s'"
  using assms(1)
proof cases
  case (moves jid j j' es)
  have "fj_idempotencyKey j' = fj_idempotencyKey j" using step_keeps [OF moves(3)] by blast
  then show ?thesis
    using assms(2) moves(1) by (simp add: keys_ok_def update_keys [OF moves(2)] update_column [OF moves(2)])
next
  case (inserts jid d now T)
  then show ?thesis
    using assms(2) by (auto simp: keys_ok_def create_Some created_job_def key_taken_def list_ex_iff)
qed (use assms(2) in \<open>simp_all add: keys_ok_def\<close>)

lemma keys_ok_evolves: "evolves w s s' \<Longrightarrow> keys_ok s \<Longrightarrow> keys_ok s'"
  by (induction rule: rtranclp_induct) (auto dest: keys_ok_step)

lemma row_step:
  assumes "fleet_step w s s'" "map_of (fl_jobs s) jid = Some j"
  shows "\<exists>j'. map_of (fl_jobs s') jid = Some j' \<and> job_steps j j'"
  using assms(1)
proof cases
  case (moves k r r' es)
  then show ?thesis using assms(2) by (cases "k = jid") auto
next
  case (inserts k d now T)
  have "map_of T jid = Some j"
    using inserts(2) assms(2) by (auto simp: create_Some map_of_eq_None_iff [symmetric] map_add_def split: option.split)
  then show ?thesis using inserts(1) by auto
qed (use assms(2) in auto)

lemma row_evolves:
  assumes "evolves w s s'" "map_of (fl_jobs s) jid = Some j"
  shows "\<exists>j'. map_of (fl_jobs s') jid = Some j' \<and> job_steps j j'"
  using assms
proof (induction rule: rtranclp_induct)
  case (step y z)
  then obtain j' where "map_of (fl_jobs y) jid = Some j'" "job_steps j j'" by blast
  then show ?case using row_step [OF step(2)] by (meson rtranclp_trans)
qed blast

lemma completions_append [simp]: "completions jid (es @ es') = completions jid es + completions jid es'"
  by (simp add: completions_def)

lemma completions_none: "list_all (\<lambda>e. \<not> is_completion e) es \<Longrightarrow> completions jid es = 0"
proof -
  have "\<not> completes jid e" if "\<not> is_completion e" for e using that by (cases e) simp_all
  then show "list_all (\<lambda>e. \<not> is_completion e) es \<Longrightarrow> ?thesis" by (simp add: completions_def list_all_iff)
qed

lemma told_counts:
  assumes "told True jid j j' es" "terminal j \<Longrightarrow> terminal j'"
  shows "completions k es + (if k = jid \<and> terminal j then 1 else 0) = (if k = jid \<and> terminal j' then 1 else 0)"
proof (cases "terminal j' \<and> \<not> terminal j")
  case True
  then show ?thesis using assms(1) by (auto simp: told_def completions_def)
next
  case False
  then have "completions k es = 0" using assms(1) completions_none by (simp add: told_def)
  then show ?thesis using False assms(2) by auto
qed

lemma fleet_ok_step:
  assumes "fleet_step w s s'" "fleet_ok w s"
  shows "fleet_ok w s'"
  using assms(1)
proof cases
  case (moves jid j j' es)
  have ok: "job_ok j" and counts: "w \<Longrightarrow> completions k (fl_events s) =
      (case map_of (fl_jobs s) k of Some r \<Rightarrow> if terminal r then 1 else 0 | None \<Rightarrow> 0)" for k
    using assms(2) moves(2) by (auto simp: fleet_ok_def)
  have stays: "terminal j \<Longrightarrow> terminal j'" using step_terminal [OF moves(3)] by simp
  have "completions k (fl_events s') = (case map_of (fl_jobs s') k of Some r \<Rightarrow> if terminal r then 1 else 0 | None \<Rightarrow> 0)" if w for k
    using told_counts [of jid j j' es k] moves(1,2,4) stays counts [of k] that by (auto split: if_splits option.splits)
  moreover have "job_ok j'" using job_ok_step [OF moves(3) ok] .
  ultimately show ?thesis
    using assms(2) moves(1) keys_ok_step [OF assms(1)] by (auto simp: fleet_ok_def)
next
  case (inserts jid d now T)
  have T: "T = fl_jobs s @ [(jid, created_job d now)]" and fresh: "map_of (fl_jobs s) jid = None"
    using inserts(2) by (simp_all add: create_Some map_of_eq_None_iff)
  have "map_of T = (map_of (fl_jobs s))(jid \<mapsto> created_job d now)"
    unfolding T by (rule ext) (use fresh in \<open>auto simp: map_add_def split: option.split\<close>)
  moreover have "\<not> terminal (created_job d now)" by (simp add: created_job_def terminal_iff)
  ultimately show ?thesis
    using assms(2) inserts(1) fresh keys_ok_step [OF assms(1)] job_ok_created [OF inserts(3)]
    by (auto simp: fleet_ok_def)
next
  case (nodes ns)
  then show ?thesis using assms(2) by (simp add: fleet_ok_def keys_ok_def)
next
  case (tells e)
  then have "completions k [e] = 0" for k using completions_none [of "[e]"] by simp
  then show ?thesis using assms(2) tells by (simp add: fleet_ok_def keys_ok_def)
qed

lemma fleet_ok_evolves: "evolves w s s' \<Longrightarrow> fleet_ok w s \<Longrightarrow> fleet_ok w s'"
  by (induction rule: rtranclp_induct) (auto dest: fleet_ok_step)

section \<open>One write of a call\<close>

lemma on_jobs_simp: "on_jobs f s = (fst (f (fl_jobs s)), s\<lparr>fl_jobs := snd (f (fl_jobs s))\<rparr>)"
  by (simp add: on_jobs_def split_beta)

lemma on_jobs_update:
  "on_jobs (update_job jid P f) s = (case map_of (fl_jobs s) jid of
     Some r \<Rightarrow> if P r then (True, s\<lparr>fl_jobs := AList.update jid (f r) (fl_jobs s)\<rparr>) else (False, s)
   | None \<Rightarrow> (False, s))"
  by (simp add: on_jobs_simp update_job_def split: option.split)

text \<open>A write that settles nothing is a step or nothing; the answer says which.\<close>

lemma quiet_write:
  assumes "\<And>r. map_of (fl_jobs s) jid = Some r \<Longrightarrow> P r \<Longrightarrow> job_step r (f r) \<and> (terminal (f r) \<longrightarrow> terminal r)"
  shows "evolves w s (snd (on_jobs (update_job jid P f) s))"
proof (cases "map_of (fl_jobs s) jid")
  case (Some r)
  show ?thesis
  proof (cases "P r")
    case True
    then have "fleet_step w s (s\<lparr>fl_jobs := AList.update jid (f r) (fl_jobs s), fl_events := fl_events s @ []\<rparr>)"
      using assms [OF Some] by (intro fleet_step.moves [OF Some]) (auto simp: told_def)
    then show ?thesis using Some True by (simp add: on_jobs_update r_into_rtranclp)
  qed (simp add: on_jobs_update Some)
qed (simp add: on_jobs_update)

text \<open>A write that settles its row, with the event the call emits when it landed.\<close>

lemma settling_write:
  assumes "\<And>r. map_of (fl_jobs s) jid = Some r \<Longrightarrow> P r \<Longrightarrow> job_step r (f r) \<and> terminal (f r) \<and> \<not> terminal r"
    and "jv_id v = jid"
  shows "on_jobs (update_job jid P f) s = (True, s1) \<Longrightarrow>
      evolves (fe_hasEvents env) s (emit env (JobCompleted v u src n res e) s1)"
    and "on_jobs (update_job jid P f) s = (False, s1) \<Longrightarrow> s1 = s"
proof -
  assume won: "on_jobs (update_job jid P f) s = (True, s1)"
  then obtain r where r: "map_of (fl_jobs s) jid = Some r" "P r" "s1 = s\<lparr>fl_jobs := AList.update jid (f r) (fl_jobs s)\<rparr>"
    by (auto simp: on_jobs_update split: option.splits if_splits)
  let ?es = "if fe_hasEvents env then [JobCompleted v u src n res e] else []"
  have "fleet_step (fe_hasEvents env) s (s\<lparr>fl_jobs := AList.update jid (f r) (fl_jobs s), fl_events := fl_events s @ ?es\<rparr>)"
    using assms(1) [OF r(1,2)] assms(2) by (intro fleet_step.moves [OF r(1)]) (auto simp: told_def)
  then show "evolves (fe_hasEvents env) s (emit env (JobCompleted v u src n res e) s1)"
    using r(3) by (auto simp: emit_def)
qed (auto simp: on_jobs_update split: option.splits if_splits)

lemma emit_quiet: "\<not> is_completion e \<Longrightarrow> evolves w s (emit env e s)"
  by (auto simp: emit_def intro: fleet_step.tells)

lemma relied: "rely env \<Longrightarrow> evolves (fe_hasEvents env) s s' \<Longrightarrow> evolves (fe_hasEvents env) s (fe_rivals env m s')"
  unfolding rely_def by (meson rtranclp_trans)

text \<open>A loop whose body evolves the fleet from any state it has evolved to.\<close>

lemma fold_evolves:
  assumes "\<And>e a s'. e \<in> set es \<Longrightarrow> evolves w s s' \<Longrightarrow> evolves w s' (snd (f e (a, s')))"
  shows "evolves w s (snd (fold f es (a, s)))"
proof -
  have "evolves w s s' \<Longrightarrow> evolves w s (snd (fold f es' (a, s')))" if "set es' \<subseteq> set es" for es' a s'
    using that
  proof (induction es' arbitrary: a s')
    case (Cons e es')
    obtain a1 s1 where f: "f e (a, s') = (a1, s1)" by fastforce
    have "evolves w s' s1" using assms [of e s' a] Cons.prems f by simp
    then have "evolves w s s1" using Cons.prems(1) by simp
    then show ?case using Cons.IH [of s1 a1] Cons.prems f by simp
  qed simp
  then show ?thesis by simp
qed

text \<open>Rows a query returns are rows of the table.\<close>

lemma select_jobs_rows: "keys_ok s \<Longrightarrow> (jid, j) \<in> set (select_jobs P key n (fl_jobs s)) \<Longrightarrow> map_of (fl_jobs s) jid = Some j \<and> P j"
proof -
  assume ok: "keys_ok s" and mem: "(jid, j) \<in> set (select_jobs P key n (fl_jobs s))"
  have "(jid, j) \<in> set (sort_key (\<lambda>e. key (snd e)) (filter (\<lambda>e. P (snd e)) (fl_jobs s)))"
    by (rule in_set_takeD [OF mem [unfolded select_jobs_def]])
  then have "(jid, j) \<in> set (fl_jobs s)" "P j" by auto
  then show ?thesis using ok by (simp add: keys_ok_def)
qed

end
