(* ===== verification/Fleet_Guarantee.thy ===== *)
theory Fleet_Guarantee
  imports Fleet_Laws
begin

text \<open>
  Every call of the service guarantees \<open>evolves\<close> when the others do: the sweeps, the lease, the holder's
  calls, the cancellation, the promotion, the drain and the enqueue.
\<close>

section \<open>A snapshot and its row\<close>

lemma snapshot_queued:
  assumes "evolves w s s'" "map_of (fl_jobs s) jid = Some j" "map_of (fl_jobs s') jid = Some r"
    "claim_tag r = (True, True, fj_leaseGeneration j)" "fj_status j = Queued"
  shows "fj_status r = Queued \<and> fj_cancelRequestedAt r = None \<and> fj_leaseGeneration r = fj_leaseGeneration j \<and> fj_attempts r = fj_attempts j"
proof -
  have "job_steps j r" using row_evolves [OF assms(1,2)] assms(3) by simp
  moreover have "fj_leaseGeneration r = fj_leaseGeneration j" using assms(4) by (simp add: claim_tag_def)
  ultimately have "(fj_status r = Queued \<and> fj_attempts r = fj_attempts j) \<or> terminal r"
    using same_generation_queued assms(5) by blast
  then show ?thesis using assms(4) by (auto simp: claim_tag_def terminal_iff)
qed

lemma snapshot_active:
  assumes "evolves w s s'" "map_of (fl_jobs s) jid = Some j" "map_of (fl_jobs s') jid = Some r"
    "active r" "fj_leaseGeneration r = fj_leaseGeneration j"
  shows "active j \<and> same_claim j r \<and> fj_maxAttempts r = fj_maxAttempts j"
proof -
  have "job_steps j r" using row_evolves [OF assms(1,2)] assms(3) by simp
  then show ?thesis using same_generation_active assms(4,5) steps_keep by blast
qed

section \<open>The sweeps\<close>

lemma settle_lapsed_evolves:
  assumes "isFleetJobActive (ol_status obs)"
  shows "evolves (fe_hasEvents env) s (snd (settle_lapsed env jid j obs err source s))"
proof -
  let ?P = "still_observed obs" and ?f = "exhausted err (fe_now env)"
  have step: "job_step r (?f r) \<and> terminal (?f r) \<and> \<not> terminal r" if "?P r" for r
    using that assms job_step.exhausts [of r err "fe_now env"]
    by (auto simp: still_observed_def exhausted_def active_iff terminal_iff)
  obtain b s1 where w: "on_jobs (update_job jid ?P ?f) s = (b, s1)" by fastforce
  have id: "jv_id (toJobView jid (exhausted err (fe_now env) j)) = jid" by (simp add: toJobView_def)
  note landed = settling_write(1) [where P = ?P and f = ?f and s = s, OF step id]
    and lost = settling_write(2) [where P = ?P and f = ?f and s = s, OF step id]
  show ?thesis
  proof (cases b)
    case True
    then show ?thesis using landed w by (simp add: settle_lapsed_def failExhausted_def)
  next
    case False
    then show ?thesis using lost w by (simp add: settle_lapsed_def failExhausted_def)
  qed
qed

lemma reclaim_one_evolves:
  assumes "rely env" "evolves (fe_hasEvents env) s0 s" "map_of (fl_jobs s0) (fst e) = Some (snd e)" "active (snd e)"
  shows "evolves (fe_hasEvents env) s (snd (reclaim_one env e (sm, s)))"
proof -
  obtain jid j where e: "e = (jid, j)" by fastforce
  show ?thesis
  proof (cases "fj_nodeId j = None \<or> fj_leaseExpiresAt j = None")
    case True
    then show ?thesis by (auto simp: reclaim_one_def e split: option.split)
  next
    case False
    then obtain n t where nt: "fj_nodeId j = Some n" "fj_leaseExpiresAt j = Some t" by auto
    let ?s = "fe_rivals env (BeforeReclaim jid) s"
    let ?obs = "\<lparr>ol_status = fj_status j, ol_nodeId = n, ol_leaseExpiresAt = t, ol_leaseGeneration = fj_leaseGeneration j\<rparr>"
    have rival: "evolves (fe_hasEvents env) s ?s" using assms(1) by (simp add: rely_def)
    have settle: "evolves (fe_hasEvents env) ?s (snd (settle_lapsed env jid j ?obs err src ?s))" for err src
      using assms(4) by (intro settle_lapsed_evolves) (simp add: e)
    have requeue: "evolves (fe_hasEvents env) ?s (snd (on_jobs (reclaim jid ?obs (fe_now env)) ?s))"
      if budget: "fj_attempts j < fj_maxAttempts j"
      unfolding reclaim_def
    proof (rule quiet_write)
      fix r assume r: "map_of (fl_jobs ?s) jid = Some r" "still_observed ?obs r"
      have "active r" using r(2) assms(4) by (simp add: still_observed_def e)
      moreover have "fj_attempts r < fj_maxAttempts r"
        using snapshot_active [OF rtranclp_trans [OF assms(2) rival], of jid j r] assms(3) r budget \<open>active r\<close>
        by (simp add: still_observed_def same_claim_def e)
      ultimately show "job_step r (reclaimed (fe_now env) r) \<and> (terminal (reclaimed (fe_now env) r) \<longrightarrow> terminal r)"
        using job_step.reclaims by (simp add: reclaimed_def terminal_iff)
    qed
    have "evolves (fe_hasEvents env) ?s (snd (reclaim_one env e (sm, s)))"
      using settle requeue by (simp add: reclaim_one_def e nt Let_def split_beta not_le)
    then show ?thesis using rival by (rule rtranclp_trans [rotated])
  qed
qed

lemma findExpiredLeases_rows:
  "keys_ok s \<Longrightarrow> e \<in> set (findExpiredLeases cutoff n owner (fl_jobs s)) \<Longrightarrow>
     map_of (fl_jobs s) (fst e) = Some (snd e) \<and> active (snd e)"
  unfolding findExpiredLeases_def by (cases e) (auto dest!: select_jobs_rows)

lemma reclaimExpired_evolves:
  "rely env \<Longrightarrow> keys_ok s \<Longrightarrow> evolves (fe_hasEvents env) s (snd (reclaimExpired env owner s))"
  unfolding reclaimExpired_def Let_def
  by (rule fold_evolves) (auto intro!: reclaim_one_evolves dest: findExpiredLeases_rows)

lemma expire_one_evolves:
  assumes "rely env"
  shows "evolves (fe_hasEvents env) s (snd (expire_one env kind e (sm, s)))"
proof -
  obtain jid j where e: "e = (jid, j)" by fastforce
  let ?s = "fe_rivals env (BeforeExpiry jid) s"
  define err where "err = describeQueueExpiry j (fe_queuedMaxAge env kind)"
  let ?P = "\<lambda>r. fj_status r = Queued \<and> (case fj_queuedAt r of Some t \<Rightarrow> t < queue_cutoff env kind | None \<Rightarrow> False) \<and> fj_cancelRequestedAt r = None"
  let ?f = "expired err (fe_now env)"
  have step: "job_step r (?f r) \<and> terminal (?f r) \<and> \<not> terminal r" if "?P r" for r
    using that job_step.expires [of r err "fe_now env"] by (auto simp: expired_def terminal_iff)
  have id: "jv_id (toJobView jid (?f j)) = jid" by (simp add: toJobView_def)
  obtain b s1 where w: "on_jobs (update_job jid ?P ?f) ?s = (b, s1)" by fastforce
  have rival: "evolves (fe_hasEvents env) s ?s" using assms by (simp add: rely_def)
  show ?thesis
  proof (cases "fj_queuedAt j = None \<or> fj_cancelRequestedAt j \<noteq> None")
    case True
    then show ?thesis by (auto simp: expire_one_def e)
  next
    case False
    then obtain q where q: "fj_queuedAt j = Some q" "fj_cancelRequestedAt j = None" by auto
    note landed = settling_write(1) [where P = ?P and f = ?f and s = ?s, OF step id]
      and lost = settling_write(2) [where P = ?P and f = ?f and s = ?s, OF step id]
    have "evolves (fe_hasEvents env) ?s (snd (expire_one env kind e (sm, s)))"
    proof (cases b)
      case True
      then show ?thesis using landed w q by (simp add: expire_one_def failQueuedExpired_def e err_def [symmetric] Let_def)
    next
      case False
      then show ?thesis using lost w q
        by (simp add: expire_one_def failQueuedExpired_def e err_def [symmetric] Let_def)
    qed
    then show ?thesis using rival by (rule rtranclp_trans [rotated])
  qed
qed

lemma expireQueued_evolves: "rely env \<Longrightarrow> evolves (fe_hasEvents env) s (snd (expireQueued env owner s))"
  unfolding expireQueued_def
proof (rule fold_evolves)
  fix kind sm s'
  assume "rely env"
  then show "evolves (fe_hasEvents env) s' (snd (expire_kind env owner kind (sm, s')))"
    unfolding expire_kind_def Let_def case_prod_conv by (intro fold_evolves expire_one_evolves)
qed

section \<open>The lease\<close>

lemma lease_one_evolves:
  assumes "rely env" "evolves (fe_hasEvents env) s0 s" "map_of (fl_jobs s0) (fst e) = Some (snd e)" "fj_status (snd e) = Queued"
  shows "evolves (fe_hasEvents env) s (snd (lease_one env lt e (vs, s)))"
proof -
  obtain jid j where e: "e = (jid, j)" by fastforce
  let ?s = "fe_rivals env (BeforeClaim jid) s"
  have rival: "evolves (fe_hasEvents env) s ?s" using assms(1) by (simp add: rely_def)
  let ?step = "claim jid (lt_nodeId lt) (lt_expires lt) (fj_attempts j + 1) (fj_leaseGeneration j + 1)"
  have wrote: "evolves (fe_hasEvents env) ?s (snd (on_jobs ?step ?s))"
    unfolding claim_def
  proof (rule quiet_write)
    fix r assume r: "map_of (fl_jobs ?s) jid = Some r" "claim_tag r = (True, True, fj_leaseGeneration j + 1 - 1)"
    have "fj_status r = Queued \<and> fj_cancelRequestedAt r = None \<and> fj_leaseGeneration r = fj_leaseGeneration j \<and> fj_attempts r = fj_attempts j"
      using snapshot_queued [OF rtranclp_trans [OF assms(2) rival], of jid j r] assms(3,4) r by (simp add: e)
    then show "job_step r (claimed (lt_nodeId lt) (lt_expires lt) (fj_attempts j + 1) (fj_leaseGeneration j + 1) r) \<and>
        (terminal (claimed (lt_nodeId lt) (lt_expires lt) (fj_attempts j + 1) (fj_leaseGeneration j + 1) r) \<longrightarrow> terminal r)"
      using job_step.claims [of r "lt_nodeId lt" "lt_expires lt"] by (auto simp: claimed_def terminal_iff)
  qed
  obtain won s1 where w: "on_jobs ?step ?s = (won, s1)" by fastforce
  have told: "evolves (fe_hasEvents env) s1 (emit env (JobLeased v n u) s1)" for v n u
    by (rule emit_quiet) simp
  have "evolves (fe_hasEvents env) s s1" using rtranclp_trans [OF rival wrote] w by simp
  then show ?thesis
    using told by (auto simp: lease_one_def e w Let_def intro: rtranclp_trans)
qed

lemma findQueuedForNode_rows:
  "keys_ok s \<Longrightarrow> e \<in> set (findQueuedForNode u n m f (fl_jobs s)) \<Longrightarrow>
     map_of (fl_jobs s) (fst e) = Some (snd e) \<and> fj_status (snd e) = Queued \<and> fj_userId (snd e) = u"
  unfolding findQueuedForNode_def by (cases e) (auto dest!: select_jobs_rows split: if_splits)

lemma lease_jobs_evolves:
  "rely env \<Longrightarrow> keys_ok s \<Longrightarrow> evolves (fe_hasEvents env) s (snd (lease_jobs env lt s))"
  unfolding lease_jobs_def
  by (rule fold_evolves) (auto intro!: lease_one_evolves dest: findQueuedForNode_rows)

text \<open>The states of a poll that gets as far as its scan.\<close>

definition poll_swept :: "fleet_env \<Rightarrow> fleet_node \<Rightarrow> fleet \<Rightarrow> fleet" where
  "poll_swept env node s =
     fe_rivals env BeforeScan (snd (expireQueued env (Some (fn_userId node)) (snd (reclaimExpired env (Some (fn_userId node)) s))))"

lemma poll_swept_evolves: "rely env \<Longrightarrow> keys_ok s \<Longrightarrow> evolves (fe_hasEvents env) s (poll_swept env node s)"
  unfolding poll_swept_def
  by (intro relied rtranclp_trans [OF reclaimExpired_evolves expireQueued_evolves])

lemma lease_cases:
  obtains (refused) "lease env inp s = (None, s)"
      "authenticateNode (fe_sha256 env) (fe_now env) (fl_nodes s) (li_nodeId inp) (li_secret inp) ToLease = None"
  | (halted) "lease env inp s = (Some [], s)"
  | (polled) n node where
      "authenticateNode (fe_sha256 env) (fe_now env) (fl_nodes s) (li_nodeId inp) (li_secret inp) ToLease = Some (n, node)"
      "\<not> fleet_stopped env" "\<not> isFleetNodeVersionBelowFloor (fn_version node) (fe_minNodeVersion env)"
      "lease env inp s = (Some (fst (lease_jobs env (lease_terms_of env inp n node) (poll_swept env node s))),
         snd (lease_jobs env (lease_terms_of env inp n node) (poll_swept env node s)))"
proof (cases "authenticateNode (fe_sha256 env) (fe_now env) (fl_nodes s) (li_nodeId inp) (li_secret inp) ToLease")
  case None
  then show ?thesis using refused by (simp add: lease_def)
next
  case (Some a)
  obtain n node where a: "a = (n, node)" by fastforce
  show ?thesis
  proof (cases "fleet_stopped env \<or> isFleetNodeVersionBelowFloor (fn_version node) (fe_minNodeVersion env)")
    case True
    then show ?thesis using halted Some by (auto simp: lease_def a)
  next
    case False
    then show ?thesis using polled [of n node] Some by (simp add: lease_def a poll_swept_def Let_def split_beta)
  qed
qed

lemma lease_evolves: "rely env \<Longrightarrow> keys_ok s \<Longrightarrow> evolves (fe_hasEvents env) s (snd (lease env inp s))"
proof -
  assume r: "rely env" and k: "keys_ok s"
  note swept = poll_swept_evolves [OF r k]
  show ?thesis
  proof (cases rule: lease_cases [of env inp s])
    case (polled n node)
    then show ?thesis
      using rtranclp_trans [OF swept lease_jobs_evolves [OF r keys_ok_evolves [OF swept k]]] by simp
  qed simp_all
qed

end
