(* ===== verification/Fleet_Calls.thy ===== *)
theory Fleet_Calls
  imports Fleet_Guarantee
begin

text \<open>
  The guarantee of the holder's calls, the cancellation, the promotion, the drain, the purge and the
  enqueue, and all calls of the service together (\<open>run_call\<close>).
\<close>

section \<open>The holder's calls\<close>

lemma held_job_Some:
  assumes "held_job env nodeId secret jid generation s = Inr (Some (n, node, j))"
  shows "map_of (fl_jobs s) jid = Some j \<and> active j \<and> fj_nodeId j = Some n \<and>
    generation = JNum (Fin (of_int (fj_leaseGeneration j))) \<and> 1 \<le> fj_leaseGeneration j \<and>
    authenticateNode (fe_sha256 env) (fe_now env) (fl_nodes s) nodeId secret ToReport = Some (n, node)"
  using assms
  by (auto simp: held_job_def active_iff isCurrentLeaseGeneration_iff split: option.splits if_splits)

text \<open>The write of a holder: its row is active and carries the counters of the snapshot.\<close>

lemma holder_row:
  assumes "evolves w s s'" "map_of (fl_jobs s) jid = Some j" "map_of (fl_jobs s') jid = Some r"
    "holder_tag r = (Some n, True, fj_leaseGeneration j)"
  shows "active r \<and> fj_attempts r = fj_attempts j \<and> fj_usageLimitParks r = fj_usageLimitParks j"
  using snapshot_active [OF assms(1-3)] assms(4) by (simp add: holder_tag_def same_claim_def)

lemma heartbeat_evolves:
  assumes "rely env"
  shows "evolves (fe_hasEvents env) s (snd (heartbeatJob env nodeId secret jid ttl generation s))"
proof (cases "held_job env nodeId secret jid generation s")
  case (Inr h)
  show ?thesis
  proof (cases h)
    case (Some a)
    obtain n node j where a: "a = (n, node, j)" using prod_cases3 by blast
    let ?s = "fe_rivals env BeforeWrite s"
    have rival: "evolves (fe_hasEvents env) s ?s" using assms by (simp add: rely_def)
    have "evolves (fe_hasEvents env) ?s (snd (on_jobs (extendLease jid n t (Some st) g) ?s))" for t st g
      unfolding extendLease_def
      by (rule quiet_write) (auto simp: holder_tag_def extended_def terminal_iff intro: job_step.beats [of _ t st, unfolded extended_def, simplified])
    then have "evolves (fe_hasEvents env) s (snd (on_jobs (extendLease jid n t (Some st) g) ?s))" for t st g
      using rival by (meson rtranclp_trans)
    then show ?thesis by (simp add: heartbeatJob_def Inr Some a Let_def split_beta)
  qed (simp add: heartbeatJob_def Inr)
qed (simp add: heartbeatJob_def)

lemma park_evolves:
  assumes "rely env" "map_of (fl_jobs s) jid = Some j" "fj_usageLimitParks j < FLEET_JOB_MAX_USAGE_LIMIT_PARKS"
  shows "evolves (fe_hasEvents env) s (snd (park_job env n node jid j limit s))"
proof -
  let ?s = "fe_rivals env BeforeWrite s"
  let ?step = "parkForUsageLimit jid n (fj_leaseGeneration j) (max 0 (fj_attempts j - 1)) (ul_retryAfter limit) (fj_usageLimitParks j + 1)"
  have rival: "evolves (fe_hasEvents env) s ?s" using assms(1) by (simp add: rely_def)
  have wrote: "evolves (fe_hasEvents env) ?s (snd (on_jobs ?step ?s))"
    unfolding parkForUsageLimit_def
  proof (rule quiet_write)
    fix r assume r: "map_of (fl_jobs ?s) jid = Some r" "holder_tag r = (Some n, True, fj_leaseGeneration j)"
    have "active r \<and> fj_attempts r = fj_attempts j \<and> fj_usageLimitParks r = fj_usageLimitParks j"
      by (rule holder_row [OF rival assms(2) r])
    then show "job_step r (parked (max 0 (fj_attempts j - 1)) (ul_retryAfter limit) (fj_usageLimitParks j + 1) r) \<and>
        (terminal (parked (max 0 (fj_attempts j - 1)) (ul_retryAfter limit) (fj_usageLimitParks j + 1) r) \<longrightarrow> terminal r)"
      using job_step.parks [of r "ul_retryAfter limit"] assms(3) by (simp add: parked_def terminal_iff)
  qed
  obtain won s1 where w: "on_jobs ?step ?s = (won, s1)" by fastforce
  have upto: "evolves (fe_hasEvents env) s s1" using rtranclp_trans [OF rival wrote] w by simp
  have "evolves (fe_hasEvents env) s1 (emit env (JobParked v u n limit b) (s1\<lparr>fl_nodes := ns\<rparr>))" for v u b ns
    by (rule rtranclp_trans [OF r_into_rtranclp [of "fleet_step (fe_hasEvents env)", OF fleet_step.nodes] emit_quiet]) simp
  then have parked: "evolves (fe_hasEvents env) s (emit env (JobParked v u n limit b) (s1\<lparr>fl_nodes := ns\<rparr>))" for v u b ns
    using upto by (meson rtranclp_trans)
  show ?thesis
    using upto parked by (simp add: park_job_def w Let_def split_beta del: max_def)
qed

lemma settle_job_evolves:
  assumes "rely env" "verdict = Done \<or> verdict = Failed"
  shows "evolves (fe_hasEvents env) s (snd (settle_job env n jid j verdict res err s))"
proof -
  let ?s = "fe_rivals env BeforeWrite s"
  let ?P = "\<lambda>r. holder_tag r = (Some n, True, fj_leaseGeneration j)" and ?f = "completed verdict res err (fe_now env)"
  have rival: "evolves (fe_hasEvents env) s ?s" using assms(1) by (simp add: rely_def)
  have step: "job_step r (?f r) \<and> terminal (?f r) \<and> \<not> terminal r" if "?P r" for r
    using that assms(2) job_step.settles [of r verdict res err "fe_now env"]
    by (auto simp: holder_tag_def completed_def terminal_iff active_iff)
  have id: "jv_id (toJobView jid (?f j)) = jid" by (simp add: toJobView_def)
  obtain b s1 where w: "on_jobs (update_job jid ?P ?f) ?s = (b, s1)" by fastforce
  note landed = settling_write(1) [where P = ?P and f = ?f and s = ?s, OF step id]
    and lost = settling_write(2) [where P = ?P and f = ?f and s = ?s, OF step id]
  have "evolves (fe_hasEvents env) ?s (snd (settle_job env n jid j verdict res err s))"
  proof (cases b)
    case True
    then show ?thesis using landed w by (simp add: settle_job_def complete_def Let_def)
  next
    case False
    then show ?thesis using lost w by (simp add: settle_job_def complete_def Let_def)
  qed
  then show ?thesis using rival by (rule rtranclp_trans [rotated])
qed

lemma complete_evolves:
  assumes "rely env"
  shows "evolves (fe_hasEvents env) s (snd (completeJob env inp s))"
proof (cases "held_job env (ci_nodeId inp) (ci_secret inp) (ci_jobId inp) (ci_leaseGeneration inp) s")
  case (Inr h)
  show ?thesis
  proof (cases h)
    case (Some a)
    obtain n node j where a: "a = (n, node, j)" using prod_cases3 by blast
    have row: "map_of (fl_jobs s) (ci_jobId inp) = Some j" using held_job_Some Inr Some a by blast
    have settled: "evolves (fe_hasEvents env) s (snd (settle_job env n (ci_jobId inp) j Done res err s))"
      "evolves (fe_hasEvents env) s (snd (settle_job env n (ci_jobId inp) j Failed res err s))" for res err
      using settle_job_evolves [OF assms] by simp_all
    have parked: "evolves (fe_hasEvents env) s (snd (park_job env n node (ci_jobId inp) j l s))"
      if "fj_usageLimitParks j < FLEET_JOB_MAX_USAGE_LIMIT_PARKS" for l
      by (rule park_evolves [OF assms row that])
    show ?thesis
      using settled parked
      by (auto simp: completeJob_def Inr Some a Let_def split_beta split: option.split sum.split)
  qed (simp add: completeJob_def Inr)
qed (simp add: completeJob_def)

section \<open>The platform's calls\<close>

lemma requestCancel_evolves:
  assumes "rely env" "evolves (fe_hasEvents env) s0 s"
  shows "evolves (fe_hasEvents env) s0 (snd (requestCancelOnActive env jid j s))"
proof -
  let ?s = "fe_rivals env BeforeRetry s"
  have "evolves (fe_hasEvents env) ?s (snd (on_jobs (requestCancel jid (fe_now env)) ?s))"
    unfolding requestCancel_def by (rule quiet_write) (auto simp: terminal_iff active_iff intro!: job_step.flags)
  then have wrote: "evolves (fe_hasEvents env) s0 (snd (on_jobs (requestCancel jid (fe_now env)) ?s))"
    using relied [OF assms] by (meson rtranclp_trans)
  obtain b s1 where w: "on_jobs (requestCancel jid (fe_now env)) ?s = (b, s1)" by fastforce
  show ?thesis
    using wrote assms(2) by (auto simp: requestCancelOnActive_def w split: option.split)
qed

lemma cancel_evolves:
  assumes "rely env"
  shows "evolves (fe_hasEvents env) s (snd (cancel env jobId s))"
proof -
  have "evolves (fe_hasEvents env) s (snd (cancel env (JStr jid) s))" for jid
  proof (cases "map_of (fl_jobs s) jid")
    case (Some j)
    let ?s = "fe_rivals env BeforeWrite s"
    let ?P = "\<lambda>r. fj_status r = Queued" and ?f = "dropped CANCELLED_ERROR (fe_now env)"
    have rival: "evolves (fe_hasEvents env) s ?s" using assms by (simp add: rely_def)
    have step: "job_step r (?f r) \<and> terminal (?f r) \<and> \<not> terminal r" if "?P r" for r
      using that job_step.drops [of r CANCELLED_ERROR "fe_now env"] by (auto simp: dropped_def terminal_iff)
    obtain b s1 where w: "on_jobs (update_job jid ?P ?f) ?s = (b, s1)" by fastforce
    have landed: "b \<Longrightarrow> jv_id v = jid \<Longrightarrow> evolves (fe_hasEvents env) s (emit env (JobCompleted v u src n res e) s1)" for v u src n res e
      using settling_write(1) [where P = ?P and f = ?f and s = ?s and v = v, OF step] w rival
      by simp (meson rtranclp_trans)
    have lost: "\<not> b \<Longrightarrow> evolves (fe_hasEvents env) s s1"
      using w rival by (auto simp: on_jobs_update split: option.splits if_splits)
    show ?thesis
      using landed lost requestCancel_evolves [OF assms rtranclp.rtrancl_refl] requestCancel_evolves [OF assms lost]
      by (auto simp: cancel_def Some cancelQueued_def w toJobView_def split: option.split)
  qed (simp add: cancel_def)
  then show ?thesis by (cases jobId) (simp_all add: cancel_def)
qed

lemma promote_one_evolves: "rely env \<Longrightarrow> evolves (fe_hasEvents env) s (snd (promote_one env node e (k, s)))"
proof -
  assume r: "rely env"
  obtain jid j where e: "e = (jid, j)" by fastforce
  let ?s = "fe_rivals env (BeforePromotion jid) s"
  have "evolves (fe_hasEvents env) ?s (snd (on_jobs (promoteWaiting jid) ?s))"
    unfolding promoteWaiting_def by (rule quiet_write) (auto simp: terminal_iff intro: job_step.promotes)
  then have "evolves (fe_hasEvents env) s (snd (on_jobs (promoteWaiting jid) ?s))"
    using r unfolding rely_def by (meson rtranclp_trans)
  then show ?thesis by (simp add: promote_one_def e split_beta)
qed

lemma promote_evolves: "rely env \<Longrightarrow> evolves (fe_hasEvents env) s (snd (promoteWaitingForNode env nodeId s))"
  by (cases nodeId) (auto simp: promoteWaitingForNode_def intro!: fold_evolves promote_one_evolves split: option.split)

text \<open>An update of many rows at once is a step for each of them.\<close>

lemma update_append_other: "i \<notin> fst ` set xs \<Longrightarrow> AList.update i v (xs @ (i, j) # ys) = xs @ (i, v) # ys"
  by (induction xs) auto

lemma map_rows_evolves:
  assumes "keys_ok s" "\<And>i j. (i, j) \<in> set (fl_jobs s) \<Longrightarrow> f i j \<noteq> j \<Longrightarrow> job_step j (f i j) \<and> (terminal (f i j) \<longrightarrow> terminal j)"
  shows "evolves w s (s\<lparr>fl_jobs := map (\<lambda>(i, j). (i, f i j)) (fl_jobs s)\<rparr>)"
proof -
  have "evolves w s (s\<lparr>fl_jobs := map (\<lambda>(i, j). (i, f i j)) xs @ ys\<rparr>)" if "xs @ ys = fl_jobs s" for xs ys
    using that
  proof (induction xs arbitrary: ys rule: rev_induct)
    case (snoc x xs)
    obtain i j where x: "x = (i, j)" by fastforce
    let ?T = "map (\<lambda>(i, j). (i, f i j)) xs @ (i, j) # ys"
    have upto: "evolves w s (s\<lparr>fl_jobs := ?T\<rparr>)" using snoc.IH [of "x # ys"] snoc.prems x by simp
    have "distinct (map fst (xs @ (i, j) # ys))" using assms(1) snoc.prems x by (simp add: keys_ok_def)
    then have i: "i \<notin> fst ` set xs" by auto
    have keys: "map fst (map (\<lambda>(i, j). (i, f i j)) xs) = map fst xs" by (induction xs) auto
    then have fresh: "i \<notin> fst ` set (map (\<lambda>(i, j). (i, f i j)) xs)" using i by (metis list.set_map)
    have "map_of (map (\<lambda>(i, j). (i, f i j)) xs) i = None" using fresh by (rule map_of_eq_None_iff [THEN iffD2])
    then have row: "map_of ?T i = Some j" by (simp add: map_add_def)
    have upd: "AList.update i (f i j) ?T = map (\<lambda>(i, j). (i, f i j)) xs @ (i, f i j) # ys"
      using fresh by (simp add: update_append_other)
    show ?case
    proof (cases "f i j = j")
      case True
      then show ?thesis using upto x by simp
    next
      case False
      have "(i, j) \<in> set (fl_jobs s)" using arg_cong [OF snoc.prems, of set] x by auto
      then have "job_step j (f i j)" "terminal (f i j) \<longrightarrow> terminal j" using assms(2) [of i j] False by auto
      then have "fleet_step w (s\<lparr>fl_jobs := ?T\<rparr>)
          ((s\<lparr>fl_jobs := ?T\<rparr>)\<lparr>fl_jobs := AList.update i (f i j) (fl_jobs (s\<lparr>fl_jobs := ?T\<rparr>)), fl_events := fl_events (s\<lparr>fl_jobs := ?T\<rparr>) @ []\<rparr>)"
        by (intro fleet_step.moves) (use row in \<open>auto simp: told_def\<close>)
      then have "fleet_step w (s\<lparr>fl_jobs := ?T\<rparr>) (s\<lparr>fl_jobs := map (\<lambda>(i, j). (i, f i j)) (xs @ [x]) @ ys\<rparr>)"
        using upd x by simp
      then show ?thesis using upto by simp
    qed
  qed simp
  from this [of "fl_jobs s" "[]"] show ?thesis by simp
qed

lemma drain_evolves: "keys_ok s \<Longrightarrow> evolves w s (snd (drainNode env userId nodeId s))"
proof -
  assume ok: "keys_ok s"
  define f where "f = (\<lambda>(i::string) j. if fj_userId j = userId \<and> fj_nodeId j = Some nodeId \<and> active j then drained (fe_now env) j else j)"
  have "evolves w s (s\<lparr>fl_jobs := map (\<lambda>(i, j). (i, f i j)) (fl_jobs s)\<rparr>)"
    by (rule map_rows_evolves [OF ok])
      (auto simp: f_def drained_def terminal_iff intro: job_step.drains [unfolded drained_def] split: if_splits)
  then show ?thesis by (simp add: drainNode_def on_jobs_simp releaseClaimsForNode_def Let_def f_def)
qed

definition purgeBodies :: "fleet_env \<Rightarrow> int \<Rightarrow> int \<Rightarrow> fleet \<Rightarrow> nat \<times> fleet" where
  "purgeBodies env cutoff limit s = on_jobs (purgeTerminalBodies cutoff limit (fe_now env) (\<lambda>T. T)) s"

lemma purge_evolves: "keys_ok s \<Longrightarrow> evolves w s (snd (purgeBodies env cutoff limit s))"
proof -
  assume ok: "keys_ok s"
  define ids where "ids = map fst (select_jobs (purgeable cutoff) (\<lambda>j. nullable (fj_completedAt j)) (nat (max 1 limit)) (fl_jobs s))"
  define f where "f = (\<lambda>i j. if i \<in> set ids \<and> purgeable cutoff j then purged (fe_now env) j else j)"
  have "evolves w s (s\<lparr>fl_jobs := map (\<lambda>(i, j). (i, f i j)) (fl_jobs s)\<rparr>)"
    by (rule map_rows_evolves [OF ok])
      (auto simp: f_def purgeable_def purged_def intro: job_step.purges [unfolded purged_def] split: if_splits)
  moreover have "map (\<lambda>(i, j). (i, f i j)) (fl_jobs s) =
      map (\<lambda>e. (fst e, if fst e \<in> set ids \<and> purgeable cutoff (snd e) then purged (fe_now env) (snd e) else snd e)) (fl_jobs s)"
    by (simp add: f_def split_beta)
  ultimately show ?thesis
    by (auto simp: purgeBodies_def on_jobs_simp purgeTerminalBodies_def Let_def ids_def [symmetric])
qed

lemma write_job_evolves:
  assumes "rely env" "new_job_ok d"
  shows "evolves (fe_hasEvents env) s (snd (write_job env d s))"
proof -
  let ?s = "fe_rivals env BeforeWrite s"
  have rival: "evolves (fe_hasEvents env) s ?s" using assms(1) by (simp add: rely_def)
  show ?thesis
  proof (cases "create (fe_newId env) d (fe_now env) (fl_jobs ?s)")
    case (Some T)
    then have "fleet_step (fe_hasEvents env) ?s (?s\<lparr>fl_jobs := T\<rparr>)" using assms(2) by (rule fleet_step.inserts)
    then show ?thesis using rival Some by (simp add: write_job_def Let_def)
  qed (use rival in \<open>simp add: write_job_def Let_def\<close>)
qed

lemma enqueue_evolves: "rely env \<Longrightarrow> evolves (fe_hasEvents env) s (snd (enqueue env inp s))"
proof -
  assume r: "rely env"
  have "evolves (fe_hasEvents env) s (snd (write_job env d s))" if "nj_maxAttempts d = clampMaxAttempts v" for d v
    using write_job_evolves [OF r, of d s] max_attempts_range [of v] that by (simp add: new_job_ok_def)
  then have w: "evolves (fe_hasEvents env) s (snd (write_job env
      \<lparr>nj_userId = u, nj_organizationId = og, nj_targetNodeId = t, nj_kind = k, nj_payload = p,
       nj_requiredCapabilities = c, nj_maxAttempts = clampMaxAttempts v, nj_idempotencyKey = ik, nj_queuedReason = q\<rparr> s))"
    for u og t k p c v ik q by simp
  show ?thesis
    by (auto simp: enqueue_def Let_def intro!: w split: option.split json.split sum.split)
qed

section \<open>All calls\<close>

datatype fleet_call =
    CallEnqueue enqueue_input
  | CallLease lease_input
  | CallHeartbeat json json string json json
  | CallComplete complete_input
  | CallCancel json
  | CallReclaim "string option"
  | CallExpire "string option"
  | CallPromote json
  | CallDrain string string
  | CallPurge int int

fun run_call :: "fleet_env \<Rightarrow> fleet_call \<Rightarrow> fleet \<Rightarrow> fleet" where
  "run_call env (CallEnqueue i) s = snd (enqueue env i s)"
| "run_call env (CallLease i) s = snd (lease env i s)"
| "run_call env (CallHeartbeat n sec jid ttl g) s = snd (heartbeatJob env n sec jid ttl g s)"
| "run_call env (CallComplete i) s = snd (completeJob env i s)"
| "run_call env (CallCancel jid) s = snd (cancel env jid s)"
| "run_call env (CallReclaim u) s = snd (reclaimExpired env u s)"
| "run_call env (CallExpire u) s = snd (expireQueued env u s)"
| "run_call env (CallPromote n) s = snd (promoteWaitingForNode env n s)"
| "run_call env (CallDrain u n) s = snd (drainNode env u n s)"
| "run_call env (CallPurge c l) s = snd (purgeBodies env c l s)"

lemmas call_evolves = enqueue_evolves lease_evolves heartbeat_evolves complete_evolves cancel_evolves
  reclaimExpired_evolves expireQueued_evolves promote_evolves drain_evolves purge_evolves

lemma run_call_evolves: "rely env \<Longrightarrow> keys_ok s \<Longrightarrow> evolves (fe_hasEvents env) s (run_call env call s)"
  by (cases call) (simp_all add: call_evolves)

text \<open>Any number of calls, each with its own outside.\<close>

fun run_calls :: "(fleet_env \<times> fleet_call) list \<Rightarrow> fleet \<Rightarrow> fleet" where
  "run_calls [] s = s"
| "run_calls ((env, call) # cs) s = run_calls cs (run_call env call s)"

lemma run_calls_evolves:
  assumes "list_all (\<lambda>(env, _). rely env \<and> fe_hasEvents env = w) cs" "keys_ok s"
  shows "evolves w s (run_calls cs s)"
  using assms
proof (induction cs arbitrary: s)
  case (Cons c cs)
  obtain env call where c: "c = (env, call)" by fastforce
  have e: "evolves w s (run_call env call s)" using run_call_evolves [of env s call] Cons.prems c by auto
  then have "keys_ok (run_call env call s)" using keys_ok_evolves Cons.prems(2) by blast
  then show ?case using Cons.IH Cons.prems(1) e c by (auto intro: rtranclp_trans)
qed simp

end
