(* ===== verification/Fleet_Leases.thy ===== *)
theory Fleet_Leases
  imports Fleet_Calls "HOL-Library.Sublist"
begin

text \<open>
  What a poll hands out: each view is the snapshot of an eligible row, claimed by a write that found it
  queued, not cancelled and at the generation of the snapshot. And what the reclaim sweep leaves behind when
  nothing interferes.
\<close>

section \<open>The views of a poll\<close>

definition lease_view :: "lease_terms \<Rightarrow> string \<times> fleet_job \<Rightarrow> job_view" where
  "lease_view lt e = toJobView (fst e)
     (claimed (lt_nodeId lt) (lt_expires lt) (fj_attempts (snd e) + 1) (fj_leaseGeneration (snd e) + 1) (snd e))"

text \<open>The claim behind a view: the state it was written in, and what came of it.\<close>

definition won_claim :: "bool \<Rightarrow> lease_terms \<Rightarrow> fleet \<Rightarrow> fleet \<Rightarrow> string \<times> fleet_job \<Rightarrow> bool" where
  "won_claim w lt s s' e \<longleftrightarrow> (\<exists>sa sb. evolves w s sa \<and>
     on_jobs (claim (fst e) (lt_nodeId lt) (lt_expires lt) (fj_attempts (snd e) + 1) (fj_leaseGeneration (snd e) + 1)) sa = (True, sb) \<and>
     evolves w sb s')"

lemma won_claim_later: "won_claim w lt s s1 e \<Longrightarrow> evolves w s1 s2 \<Longrightarrow> won_claim w lt s s2 e"
  unfolding won_claim_def by (meson rtranclp_trans)

lemma lease_one_cases:
  assumes "rely env" "evolves (fe_hasEvents env) s0 s" "map_of (fl_jobs s0) (fst e) = Some (snd e)" "fj_status (snd e) = Queued"
    and "lease_one env lt e (vs, s) = (vs', s')"
  shows "vs' = vs \<or> (vs' = vs @ [lease_view lt e] \<and> int (length vs) < lt_max lt \<and> offerable env lt (fst e) (snd e) \<and>
           won_claim (fe_hasEvents env) lt s0 s' e)"
proof -
  obtain jid j where e: "e = (jid, j)" by fastforce
  let ?s = "fe_rivals env (BeforeClaim jid) s"
  let ?step = "claim jid (lt_nodeId lt) (lt_expires lt) (fj_attempts j + 1) (fj_leaseGeneration j + 1)"
  obtain won s1 where w: "on_jobs ?step ?s = (won, s1)" by fastforce
  have upto: "evolves (fe_hasEvents env) s0 ?s" by (rule relied [OF assms(1,2)])
  have told: "evolves (fe_hasEvents env) s1 (emit env (JobLeased v n u) s1)" for v n u
    by (rule emit_quiet) simp
  show ?thesis
  proof (cases "int (length vs) < lt_max lt \<and> offerable env lt jid j \<and> won")
    case True
    then have "vs' = vs @ [lease_view lt e]" "s' = emit env (JobLeased (lease_view lt e) (lt_nodeId lt) (fn_userId (lt_node lt))) s1"
      using assms(5) by (auto simp: lease_one_def e w Let_def lease_view_def split: if_splits)
    moreover have "won_claim (fe_hasEvents env) lt s0 (emit env (JobLeased (lease_view lt e) (lt_nodeId lt) (fn_userId (lt_node lt))) s1) e"
      unfolding won_claim_def using upto w True told by (auto simp: e)
    ultimately show ?thesis using True by (simp add: e)
  next
    case False
    then show ?thesis using assms(5) by (auto simp: lease_one_def e w Let_def split: if_splits)
  qed
qed

lemma lease_fold:
  assumes "rely env" "\<forall>e\<in>set es. map_of (fl_jobs s0) (fst e) = Some (snd e) \<and> fj_status (snd e) = Queued"
    "evolves (fe_hasEvents env) s0 s" "fold (lease_one env lt) es (vs, s) = (vs', s')" "int (length vs) \<le> lt_max lt"
  shows "\<exists>got. subseq got es \<and> vs' = vs @ map (lease_view lt) got \<and> int (length vs') \<le> lt_max lt \<and>
    (\<forall>e\<in>set got. offerable env lt (fst e) (snd e) \<and> won_claim (fe_hasEvents env) lt s0 s' e)"
  using assms(2-5)
proof (induction es arbitrary: vs s)
  case (Cons e es)
  obtain vs1 s1 where one: "lease_one env lt e (vs, s) = (vs1, s1)" by fastforce
  have e: "map_of (fl_jobs s0) (fst e) = Some (snd e)" "fj_status (snd e) = Queued" using Cons.prems(1) by simp_all
  have s1: "evolves (fe_hasEvents env) s0 s1"
    using lease_one_evolves [OF assms(1) Cons.prems(2) e, of lt vs] one Cons.prems(2) by (auto intro: rtranclp_trans)
  have rest: "fold (lease_one env lt) es (vs1, s1) = (vs', s')" using Cons.prems(3) one by simp
  have rows: "\<forall>e\<in>set es. map_of (fl_jobs s0) (fst e) = Some (snd e) \<and> fj_status (snd e) = Queued" using Cons.prems(1) by simp
  have tail: "evolves (fe_hasEvents env) s1 s'"
  proof -
    have "evolves (fe_hasEvents env) s1 (snd (fold (lease_one env lt) es (vs1, s1)))"
    proof (rule fold_evolves)
      fix e' a s'' assume "e' \<in> set es" "evolves (fe_hasEvents env) s1 s''"
      then show "evolves (fe_hasEvents env) s'' (snd (lease_one env lt e' (a, s'')))"
        using lease_one_evolves [OF assms(1) rtranclp_trans [OF s1]] rows by blast
    qed
    then show ?thesis using rest by simp
  qed
  from lease_one_cases [OF assms(1) Cons.prems(2) e one]
  show ?case
  proof (elim disjE)
    assume "vs1 = vs"
    then obtain got where "subseq got es" "vs' = vs @ map (lease_view lt) got" "int (length vs') \<le> lt_max lt"
      "\<forall>e\<in>set got. offerable env lt (fst e) (snd e) \<and> won_claim (fe_hasEvents env) lt s0 s' e"
      using Cons.IH [OF rows s1 rest] Cons.prems(4) by auto
    then show ?thesis by (intro exI [of _ got]) auto
  next
    assume won: "vs1 = vs @ [lease_view lt e] \<and> int (length vs) < lt_max lt \<and> offerable env lt (fst e) (snd e) \<and>
       won_claim (fe_hasEvents env) lt s0 s1 e"
    then obtain got where "subseq got es" "vs' = vs1 @ map (lease_view lt) got" "int (length vs') \<le> lt_max lt"
      "\<forall>e\<in>set got. offerable env lt (fst e) (snd e) \<and> won_claim (fe_hasEvents env) lt s0 s' e"
      using Cons.IH [OF rows s1 rest] by auto
    then show ?thesis using won won_claim_later [OF _ tail] by (intro exI [of _ "e # got"]) auto
  qed
qed (auto intro: exI [of _ "[]"])

lemma subseq_subset: "subseq got es \<Longrightarrow> set got \<subseteq> set es"
  by (induction rule: list_emb.induct) auto

lemma distinct_fst_subseq: "subseq got es \<Longrightarrow> distinct (map fst es) \<Longrightarrow> distinct (map fst got)"
proof -
  assume "subseq got es" "distinct (map fst es)"
  then obtain N where "map fst got = nths (map fst es) N" using subseq_map subseq_conv_nths by metis
  then show ?thesis using \<open>distinct (map fst es)\<close> by (simp add: distinct_nthsI)
qed

lemma select_jobs_distinct: "keys_ok s \<Longrightarrow> distinct (map fst (select_jobs P key n (fl_jobs s)))"
proof -
  assume "keys_ok s"
  then have "distinct (map fst (filter (\<lambda>e. P (snd e)) (fl_jobs s)))" by (simp add: keys_ok_def distinct_map_filter)
  then have "distinct (map fst (sort_key (\<lambda>e. key (snd e)) (filter (\<lambda>e. P (snd e)) (fl_jobs s))))"
    by (simp add: distinct_map)
  then show ?thesis by (simp add: select_jobs_def distinct_take flip: take_map)
qed

text \<open>A poll: the views, their candidates and their claims.\<close>

lemma lease_views:
  assumes "rely env" "keys_ok s" "lease env inp s = (Some vs, s')" "vs \<noteq> []"
  obtains n node swept got where
    "authenticateNode (fe_sha256 env) (fe_now env) (fl_nodes s) (li_nodeId inp) (li_secret inp) ToLease = Some (n, node)"
    "\<not> fleet_stopped env" "evolves (fe_hasEvents env) s swept"
    "vs = map (lease_view (lease_terms_of env inp n node)) got"
    "int (length vs) \<le> clampBatch (li_max inp)" "distinct (map fst got)"
    "\<And>e. e \<in> set got \<Longrightarrow> map_of (fl_jobs swept) (fst e) = Some (snd e) \<and> fj_status (snd e) = Queued \<and>
       fj_userId (snd e) = fn_userId node \<and>
       offerable env (lease_terms_of env inp n node) (fst e) (snd e) \<and>
       won_claim (fe_hasEvents env) (lease_terms_of env inp n node) swept s' e"
proof (cases rule: lease_cases [of env inp s])
  case refused
  then show ?thesis using assms(3) by simp
next
  case halted
  then show ?thesis using assms(3,4) by simp
next
  case (polled n node)
  let ?lt = "lease_terms_of env inp n node" and ?s = "poll_swept env node s"
  let ?es = "findQueuedForNode (fn_userId node) n (lease_window (lt_max ?lt)) (lt_kinds ?lt) (fl_jobs ?s)"
  have swept: "evolves (fe_hasEvents env) s ?s" by (rule poll_swept_evolves [OF assms(1,2)])
  have ok: "keys_ok ?s" by (rule keys_ok_evolves [OF swept assms(2)])
  have terms: "lt_node ?lt = node" "lt_nodeId ?lt = n" "lt_max ?lt = clampBatch (li_max inp)"
    by (simp_all add: lease_terms_of_def)
  have rows: "\<forall>e\<in>set ?es. map_of (fl_jobs ?s) (fst e) = Some (snd e) \<and> fj_status (snd e) = Queued"
    using findQueuedForNode_rows [OF ok] by blast
  have run: "fold (lease_one env ?lt) ?es ([], ?s) = (vs, s')"
    using polled assms(3) by (auto simp: lease_jobs_def terms)
  obtain got where got: "subseq got ?es" "vs = map (lease_view ?lt) got" "int (length vs) \<le> lt_max ?lt"
    "\<forall>e\<in>set got. offerable env ?lt (fst e) (snd e) \<and> won_claim (fe_hasEvents env) ?lt ?s s' e"
    using lease_fold [OF assms(1) rows rtranclp.rtrancl_refl run] batch_range [of "li_max inp"] terms by auto
  have "distinct (map fst ?es)" using select_jobs_distinct [OF ok] by (simp add: findQueuedForNode_def)
  then have dist: "distinct (map fst got)" by (rule distinct_fst_subseq [OF got(1)])
  have "set got \<subseteq> set ?es" by (rule subseq_subset [OF got(1)])
  then have each: "e \<in> set got \<Longrightarrow> map_of (fl_jobs ?s) (fst e) = Some (snd e) \<and> fj_status (snd e) = Queued \<and>
       fj_userId (snd e) = fn_userId node" for e
    using findQueuedForNode_rows [OF ok] by blast
  show ?thesis
    by (rule that [of n node ?s got]) (use polled swept got dist each terms in auto)
qed

text \<open>One view of a poll.\<close>

lemma leased_view:
  assumes "rely env" "keys_ok s" "lease env inp s = (Some vs, s')" "v \<in> set vs"
  obtains n node swept j sa sb where
    "authenticateNode (fe_sha256 env) (fe_now env) (fl_nodes s) (li_nodeId inp) (li_secret inp) ToLease = Some (n, node)"
    "\<not> fleet_stopped env" "length vs \<le> 5" "distinct (map jv_id vs)"
    "evolves (fe_hasEvents env) s swept" "map_of (fl_jobs swept) (jv_id v) = Some j" "fj_status j = Queued"
    "fj_userId j = fn_userId node" "offerable env (lease_terms_of env inp n node) (jv_id v) j"
    "v = lease_view (lease_terms_of env inp n node) (jv_id v, j)"
    "evolves (fe_hasEvents env) swept sa"
    "on_jobs (claim (jv_id v) n (lt_expires (lease_terms_of env inp n node)) (fj_attempts j + 1) (fj_leaseGeneration j + 1)) sa = (True, sb)"
    "evolves (fe_hasEvents env) sb s'"
proof -
  have some: "vs \<noteq> []" using assms(4) by auto
  show ?thesis
  proof (rule lease_views [OF assms(1-3) some])
    fix n node swept got
    assume a: "authenticateNode (fe_sha256 env) (fe_now env) (fl_nodes s) (li_nodeId inp) (li_secret inp) ToLease = Some (n, node)"
      "\<not> fleet_stopped env" "evolves (fe_hasEvents env) s swept"
      and views: "vs = map (lease_view (lease_terms_of env inp n node)) got"
      and size: "int (length vs) \<le> clampBatch (li_max inp)" and dist: "distinct (map fst got)"
      and each: "\<And>e. e \<in> set got \<Longrightarrow> map_of (fl_jobs swept) (fst e) = Some (snd e) \<and> fj_status (snd e) = Queued \<and>
         fj_userId (snd e) = fn_userId node \<and> offerable env (lease_terms_of env inp n node) (fst e) (snd e) \<and>
         won_claim (fe_hasEvents env) (lease_terms_of env inp n node) swept s' e"
    have ids: "map jv_id vs = map fst got" by (simp add: views lease_view_def toJobView_def)
    obtain e where e: "e \<in> set got" "v = lease_view (lease_terms_of env inp n node) e" using assms(4) views by auto
    have vid: "jv_id v = fst e" by (simp add: e(2) lease_view_def toJobView_def)
    have node: "lt_nodeId (lease_terms_of env inp n node) = n" by (simp add: lease_terms_of_def)
    obtain sa sb where c: "evolves (fe_hasEvents env) swept sa"
      "on_jobs (claim (fst e) n (lt_expires (lease_terms_of env inp n node)) (fj_attempts (snd e) + 1) (fj_leaseGeneration (snd e) + 1)) sa = (True, sb)"
      "evolves (fe_hasEvents env) sb s'"
      using each [OF e(1)] unfolding won_claim_def node by blast
    show ?thesis
      by (rule that [of n node swept "snd e" sa sb, unfolded vid])
        (use a c each [OF e(1)] size dist ids e(2) batch_range [of "li_max inp"] in auto)
  qed
qed

lemma lease_view_columns:
  "jv_id (lease_view lt e) = fst e" "jv_nodeId (lease_view lt e) = Some (lt_nodeId lt)"
  "jv_leaseGeneration (lease_view lt e) = fj_leaseGeneration (snd e) + 1" "jv_attempts (lease_view lt e) = fj_attempts (snd e) + 1"
  "jv_leaseExpiresAt (lease_view lt e) = Some (lt_expires lt)"
  by (simp_all add: lease_view_def toJobView_def claimed_def)

text \<open>Once a claim has landed, its generation is taken for good.\<close>

lemma claim_row:
  assumes "on_jobs (claim jid n t a g) s = (True, s1)"
  shows "\<exists>r. map_of (fl_jobs s) jid = Some r \<and> claim_tag r = (True, True, g - 1) \<and>
    s1 = s\<lparr>fl_jobs := AList.update jid (claimed n t a g r) (fl_jobs s)\<rparr>"
  using assms by (auto simp: claim_def on_jobs_update split: option.splits if_splits)

lemma claim_once:
  assumes "on_jobs (claim jid n t a g) s = (True, s1)" "evolves w s1 s2" "g' \<le> g"
  shows "\<not> fst (on_jobs (claim jid n' t' a' g') s2)"
proof -
  obtain r where r: "map_of (fl_jobs s1) jid = Some (claimed n t a g r)"
    using claim_row [OF assms(1)] by auto
  obtain r' where "map_of (fl_jobs s2) jid = Some r'" "job_steps (claimed n t a g r) r'"
    using row_evolves [OF assms(2) r] by blast
  then have "map_of (fl_jobs s2) jid = Some r' \<and> g \<le> fj_leaseGeneration r'"
    using steps_generation by (fastforce simp: claimed_def)
  then show ?thesis using assms(3) by (auto simp: claim_def on_jobs_update claim_tag_def)
qed

lemma flagged_never_claimed:
  assumes "map_of (fl_jobs s) jid = Some j" "fj_cancelRequestedAt j \<noteq> None" "evolves w s s'"
  shows "\<not> fst (on_jobs (claim jid n t a g) s')"
proof -
  obtain r where "map_of (fl_jobs s') jid = Some r" "job_steps j r" using row_evolves [OF assms(3,1)] by blast
  then have "fj_cancelRequestedAt r \<noteq> None" "map_of (fl_jobs s') jid = Some r" using steps_flag assms(2) by blast+
  then show ?thesis by (auto simp: claim_def on_jobs_update claim_tag_def)
qed

section \<open>The reclaim sweep\<close>

text \<open>
  The reclaim sweep when nothing interferes: what becomes of each lapsed claim. A job whose machine died goes
  back to the queue while it has attempts left, and settles otherwise; a cancelled one settles.
\<close>

definition lapsed :: "int \<Rightarrow> string option \<Rightarrow> fleet_job \<Rightarrow> bool" where
  "lapsed now owner j \<longleftrightarrow> (case owner of Some u \<Rightarrow> fj_userId j = u | None \<Rightarrow> True) \<and> active j \<and>
     (case fj_leaseExpiresAt j of Some t \<Rightarrow> t < now | None \<Rightarrow> False)"

definition lapsed_outcome :: "int \<Rightarrow> fleet_job \<Rightarrow> fleet_job" where
  "lapsed_outcome now j =
     (if fj_cancelRequestedAt j \<noteq> None then exhausted CANCELLED_LEASE_LAPSED_ERROR now j
      else if fj_maxAttempts j \<le> fj_attempts j then exhausted (budget_error j) now j
      else reclaimed now j)"

lemma lapsed_outcome_inactive: "\<not> active (lapsed_outcome now j)"
  by (simp add: lapsed_outcome_def exhausted_def reclaimed_def active_iff)

lemma emit_jobs [simp]: "fl_jobs (emit env e s) = fl_jobs s"
  by (simp add: emit_def)

lemma emit_nodes [simp]: "fl_nodes (emit env e s) = fl_nodes s"
  by (simp add: emit_def)

lemma reclaim_one_quiet:
  assumes quiet: "\<And>m x. fe_rivals env m x = x" and "map_of (fl_jobs s) jid = Some j"
    "fj_nodeId j = Some n" "fj_leaseExpiresAt j = Some t"
  shows "fl_jobs (snd (reclaim_one env (jid, j) (sm, s))) = AList.update jid (lapsed_outcome (fe_now env) j) (fl_jobs s)"
proof -
  have obs: "still_observed \<lparr>ol_status = fj_status j, ol_nodeId = n, ol_leaseExpiresAt = t, ol_leaseGeneration = fj_leaseGeneration j\<rparr> j"
    using assms by (simp add: still_observed_def)
  show ?thesis
    using obs assms
    by (auto simp: reclaim_one_def lapsed_outcome_def settle_lapsed_def failExhausted_def reclaim_def on_jobs_update Let_def)
qed

lemma reclaim_fold_quiet:
  assumes quiet: "\<And>m x. fe_rivals env m x = x"
    and "\<forall>(jid, j)\<in>set es. map_of (fl_jobs s) jid = Some j \<and> fj_nodeId j \<noteq> None \<and> fj_leaseExpiresAt j \<noteq> None"
    and "distinct (map fst es)"
  shows "map_of (fl_jobs (snd (fold (reclaim_one env) es (sm, s)))) jid =
    (case map_of es jid of Some j \<Rightarrow> Some (lapsed_outcome (fe_now env) j) | None \<Rightarrow> map_of (fl_jobs s) jid)"
  using assms(2,3)
proof (induction es arbitrary: sm s)
  case (Cons e es)
  obtain k r where e: "e = (k, r)" by fastforce
  obtain n t where r: "map_of (fl_jobs s) k = Some r" "fj_nodeId r = Some n" "fj_leaseExpiresAt r = Some t"
    using Cons.prems(1) e by auto
  obtain sm1 s1 where one: "reclaim_one env e (sm, s) = (sm1, s1)" by fastforce
  have jobs: "fl_jobs s1 = AList.update k (lapsed_outcome (fe_now env) r) (fl_jobs s)"
    using reclaim_one_quiet [OF quiet r, of sm] one e by simp
  have fresh: "k \<notin> fst ` set es" using Cons.prems(2) e by simp
  have "\<forall>(jid, j)\<in>set es. map_of (fl_jobs s1) jid = Some j \<and> fj_nodeId j \<noteq> None \<and> fj_leaseExpiresAt j \<noteq> None"
    using Cons.prems(1) fresh by (force simp: jobs)
  then have "map_of (fl_jobs (snd (fold (reclaim_one env) es (sm1, s1)))) jid =
      (case map_of es jid of Some j \<Rightarrow> Some (lapsed_outcome (fe_now env) j) | None \<Rightarrow> map_of (fl_jobs s1) jid)"
    using Cons.IH Cons.prems(2) by simp
  moreover have "map_of es k = None" using fresh by (simp add: map_of_eq_None_iff)
  ultimately show ?case using one e by (auto simp: jobs split: option.split)
qed simp

text \<open>The batch holds every lapsed claim when there are at most two hundred.\<close>

lemma batch_is_complete:
  assumes "keys_ok s" "length (filter (\<lambda>e. lapsed now owner (snd e)) (fl_jobs s)) \<le> FLEET_JOB_RECLAIM_BATCH"
  shows "map_of (findExpiredLeases now FLEET_JOB_RECLAIM_BATCH owner (fl_jobs s)) jid =
    (case map_of (fl_jobs s) jid of Some j \<Rightarrow> if lapsed now owner j then Some j else None | None \<Rightarrow> None)"
proof -
  let ?F = "filter (\<lambda>e. lapsed now owner (snd e)) (fl_jobs s)" and ?es = "findExpiredLeases now FLEET_JOB_RECLAIM_BATCH owner (fl_jobs s)"
  have es: "?es = sort_key (\<lambda>e. nullable (fj_leaseExpiresAt (snd e))) ?F"
    using assms(2) by (simp add: findExpiredLeases_def select_jobs_def lapsed_def)
  have dist: "distinct (map fst (fl_jobs s))" "distinct (map fst ?es)"
    using assms(1) select_jobs_distinct [OF assms(1)] by (auto simp: keys_ok_def findExpiredLeases_def)
  have iff: "map_of ?es jid = Some j \<longleftrightarrow> map_of (fl_jobs s) jid = Some j \<and> lapsed now owner j" for j
    unfolding map_of_eq_Some_iff [OF dist(1)] map_of_eq_Some_iff [OF dist(2)] by (auto simp: es)
  show ?thesis
  proof (cases "map_of (fl_jobs s) jid")
    case None
    then have "map_of ?es jid = None" using iff by (cases "map_of ?es jid") auto
    then show ?thesis using None by simp
  next
    case (Some j)
    show ?thesis
    proof (cases "lapsed now owner j")
      case True
      then show ?thesis using Some iff [of j] by simp
    next
      case False
      then have "map_of ?es jid \<noteq> Some r" for r using Some False by (auto simp: iff)
      then have "map_of ?es jid = None" by (metis option.exhaust)
      then show ?thesis using Some False by simp
    qed
  qed
qed

lemma reclaimExpired_rows:
  assumes quiet: "\<And>m x. fe_rivals env m x = x" and ok: "fleet_ok w s"
    and "length (filter (\<lambda>e. lapsed (fe_now env) owner (snd e)) (fl_jobs s)) \<le> FLEET_JOB_RECLAIM_BATCH"
  shows "map_of (fl_jobs (snd (reclaimExpired env owner s))) jid =
    map_option (\<lambda>j. if lapsed (fe_now env) owner j then lapsed_outcome (fe_now env) j else j) (map_of (fl_jobs s) jid)"
proof -
  let ?es = "findExpiredLeases (fe_now env) FLEET_JOB_RECLAIM_BATCH owner (fl_jobs s)"
  have keys: "keys_ok s" using ok by (simp add: fleet_ok_def)
  have "fj_nodeId j \<noteq> None \<and> fj_leaseExpiresAt j \<noteq> None" if "map_of (fl_jobs s) i = Some j" "active j" for i j
    using ok that status_ok_active [of "fj_status j" j] unfolding fleet_ok_def job_ok_def by blast
  then have rows: "\<forall>(i, j)\<in>set ?es. map_of (fl_jobs s) i = Some j \<and> fj_nodeId j \<noteq> None \<and> fj_leaseExpiresAt j \<noteq> None"
    using findExpiredLeases_rows [OF keys] by fastforce
  have "distinct (map fst ?es)" using select_jobs_distinct [OF keys] by (simp add: findExpiredLeases_def)
  then show ?thesis
    using reclaim_fold_quiet [OF quiet rows, where jid = jid] batch_is_complete [OF keys assms(3), of jid]
    by (auto simp: reclaimExpired_def Let_def split: option.split)
qed

end
