(* ===== verification/Fleet_Demo.thy ===== *)
theory Fleet_Demo
  imports Fleet_Leases
begin

text \<open>
  A fleet of one computer and one job, on which the properties are exercised: the job is enqueued, leased and
  reported, each step evaluated. Nothing interferes, and the hash function is the identity.
\<close>

definition demo_env :: fleet_env where
  "demo_env = \<lparr>fe_now = 1000000, fe_newId = ''job'', fe_hasEvents = True, fe_sha256 = (\<lambda>s. s), fe_isUUID = (\<lambda>_. True),
     fe_localeLe = (\<lambda>_ _. True), fe_readers = \<lparr>lr_parse = (\<lambda>_. None), lr_signature = (\<lambda>_. None), lr_reset = (\<lambda>_ _. None)\<rparr>,
     fe_killSwitch = SwitchNotWired, fe_minNodeVersion = ''0.1.0'', fe_queuedMaxAge = (\<lambda>_. 7200),
     fe_affinity = (\<lambda>_ _. None), fe_admits = None, fe_rivals = (\<lambda>_ s. s)\<rparr>"

definition demo_node_id :: string where "demo_node_id = ''11111111-1111-4111-8111-111111111111''"
definition demo_secret :: string where "demo_secret = ''0123456789abcdef''"

definition demo_node :: fleet_node where
  "demo_node = \<lparr>fn_userId = ''u'', fn_name = None, fn_status = Online, fn_enrollmentTokenHash = Some demo_secret,
     fn_previousCredentialHash = None, fn_previousCredentialExpiresAt = None, fn_capabilities = Some [''linux''],
     fn_version = None, fn_modelThrottles = None, fn_modelIdentity = None, fn_dailyCostCeilingCents = None,
     fn_dailyCostTrippedOn = None\<rparr>"

definition demo_fleet :: fleet where
  "demo_fleet = \<lparr>fl_jobs = [], fl_nodes = [(demo_node_id, demo_node)], fl_events = []\<rparr>"

definition demo_enqueue :: enqueue_input where
  "demo_enqueue = \<lparr>ei_userId = JStr ''u'', ei_organizationId = None, ei_kind = JStr ''browser-check'', ei_payload = JNull,
     ei_requiredCapabilities = JArr [JStr ''linux''], ei_maxAttempts = JUndef, ei_idempotencyKey = JStr ''k'',
     ei_queuedReason = JUndef\<rparr>"

definition demo_lease :: lease_input where
  "demo_lease = \<lparr>li_nodeId = JStr demo_node_id, li_secret = JStr demo_secret, li_max = JUndef, li_leaseTtlSec = JUndef,
     li_capabilities = JUndef, li_kinds = None, li_excludeKinds = None\<rparr>"

definition demo_complete :: complete_input where
  "demo_complete = \<lparr>ci_nodeId = JStr demo_node_id, ci_secret = JStr demo_secret, ci_jobId = ''job'', ci_success = False,
     ci_result = JNull, ci_error = JStr ''red'', ci_leaseGeneration = JNum (Fin 1)\<rparr>"

definition demo_row :: fleet_job where
  "demo_row = created_job \<lparr>nj_userId = ''u'', nj_organizationId = None, nj_targetNodeId = None, nj_kind = BrowserCheck,
     nj_payload = None, nj_requiredCapabilities = [''linux''], nj_maxAttempts = 3, nj_idempotencyKey = Some ''k'',
     nj_queuedReason = None\<rparr> 1000000"

definition demo_queued :: fleet where
  "demo_queued = demo_fleet\<lparr>fl_jobs := [(''job'', demo_row)]\<rparr>"

definition demo_held :: fleet_job where
  "demo_held = claimed demo_node_id 1300000 1 1 demo_row"

definition demo_leased :: fleet where
  "demo_leased = demo_fleet\<lparr>fl_jobs := [(''job'', demo_held)], fl_events := [JobLeased (toJobView ''job'' demo_held) demo_node_id ''u'']\<rparr>"

definition demo_done :: fleet where
  "demo_done = demo_fleet\<lparr>fl_jobs := [(''job'', completed Failed None (Some ''red'') 1000000 demo_held)],
     fl_events := [JobLeased (toJobView ''job'' demo_held) demo_node_id ''u'',
       JobCompleted (toJobView ''job'' (completed Failed None (Some ''red'') 1000000 demo_held)) ''u'' NodeReport (Some demo_node_id) None (Some ''red'')]\<rparr>"

lemmas demo_fleet_defs = demo_fleet_def demo_queued_def demo_leased_def demo_done_def

lemma demo_env_simps [simp]:
  "fe_now demo_env = 1000000" "fe_hasEvents demo_env" "fe_rivals demo_env m s = s" "fe_killSwitch demo_env = SwitchNotWired"
  "fe_sha256 demo_env = (\<lambda>s. s)" "fe_admits demo_env = None" "fe_minNodeVersion demo_env = ''0.1.0''"
  "fe_queuedMaxAge demo_env k = 7200"
  by (simp_all add: demo_env_def)

lemma demo_rely [simp]: "rely demo_env"
  by (simp add: rely_def)

lemma demo_auth [simp]:
  "authenticateNode (\<lambda>s. s) 1000000 [(demo_node_id, demo_node)] (JStr demo_node_id) (JStr demo_secret) intent = Some (demo_node_id, demo_node)"
proof (cases intent)
  case ToLease
  have "authenticateNode (\<lambda>s. s) 1000000 [(demo_node_id, demo_node)] (JStr demo_node_id) (JStr demo_secret) ToLease = Some (demo_node_id, demo_node)"
    by code_simp
  then show ?thesis using ToLease by simp
next
  case ToReport
  have "authenticateNode (\<lambda>s. s) 1000000 [(demo_node_id, demo_node)] (JStr demo_node_id) (JStr demo_secret) ToReport = Some (demo_node_id, demo_node)"
    by code_simp
  then show ?thesis using ToReport by simp
qed

lemma demo_enqueued: "enqueue demo_env demo_enqueue demo_fleet = (Inr (toJobView ''job'' demo_row), demo_queued)"
proof -
  have "isFleetJobKind (JStr ''browser-check'') = Some BrowserCheck" by code_simp
  moreover have "normalizeCapabilities (JArr [JStr ''linux'']) FLEET_JOB_MAX_REQUIRED_CAPABILITIES = [''linux'']" by code_simp
  moreover have "normalizeIdempotencyKey (JStr ''k'') = Some ''k''" by code_simp
  moreover have "clampMaxAttempts JUndef = 3" by code_simp
  moreover have "fe_newId demo_env = ''job''" by (simp add: demo_env_def)
  ultimately show ?thesis
    by (simp add: enqueue_def demo_enqueue_def normalizePayload_def Let_def findByIdempotencyKey_def demo_fleet_defs
        resolveTargetNodeId_def write_job_def create_def key_taken_def demo_row_def
        del: isFleetJobKind.simps normalizeCapabilities.simps normalizeIdempotencyKey.simps clampMaxAttempts.simps)
qed

lemma demo_row_simps [simp]:
  "fj_status demo_row = Queued" "fj_userId demo_row = ''u''" "fj_nodeId demo_row = None" "fj_kind demo_row = BrowserCheck"
  "fj_queuedAt demo_row = Some 1000000" "fj_targetNodeId demo_row = None" "fj_cancelRequestedAt demo_row = None"
  "fj_requiredCapabilities demo_row = [''linux'']" "fj_attempts demo_row = 0" "fj_leaseGeneration demo_row = 0"
  "fj_createdAt demo_row = 1000000" "fj_maxAttempts demo_row = 3" "fj_usageLimitParks demo_row = 0" "fj_startedAt demo_row = None"
  "fj_idempotencyKey demo_row = Some ''k''" "fj_payload demo_row = None" "fj_completedAt demo_row = None"
  "fj_bodiesPurgedAt demo_row = None" "fj_queuedReason demo_row = None"
  by (simp_all add: demo_row_def created_job_def)

lemma demo_keys [simp]: "keys_ok demo_fleet" "keys_ok demo_queued" "keys_ok demo_leased"
  by (simp_all add: keys_ok_def demo_fleet_defs)

text \<open>The fleet with one row, ready to be offered to the computer.\<close>

definition demo_with :: "fleet_job \<Rightarrow> fleet_event list \<Rightarrow> fleet" where
  "demo_with r es = demo_fleet\<lparr>fl_jobs := [(''job'', r)], fl_events := es\<rparr>"

definition demo_ready :: "fleet_job \<Rightarrow> bool" where
  "demo_ready r \<longleftrightarrow> fj_status r = Queued \<and> fj_userId r = ''u'' \<and> fj_kind r = BrowserCheck \<and> fj_queuedAt r = Some 1000000 \<and>
     fj_targetNodeId r = None \<and> fj_cancelRequestedAt r = None \<and> fj_requiredCapabilities r = [''linux'']"

lemma demo_row_ready [simp]: "demo_ready demo_row"
  by (simp add: demo_ready_def)

lemma demo_queued_with: "demo_queued = demo_with demo_row []"
  by (simp add: demo_fleet_defs demo_with_def)

lemma demo_with_simps [simp]:
  "fl_jobs (demo_with r es) = [(''job'', r)]" "fl_nodes (demo_with r es) = [(demo_node_id, demo_node)]"
  "fl_events (demo_with r es) = es" "keys_ok (demo_with r es)"
  by (simp_all add: demo_with_def demo_fleet_def keys_ok_def)

lemma demo_reclaim:
  "demo_ready r \<Longrightarrow> reclaimExpired demo_env (Some ''u'') (demo_with r es) = (\<lparr>rs_scanned = 0, rs_requeued = 0, rs_failed = 0\<rparr>, demo_with r es)"
  by (simp add: reclaimExpired_def findExpiredLeases_def select_jobs_def active_iff demo_ready_def)

lemma demo_expire:
  "demo_ready r \<Longrightarrow> expireQueued demo_env (Some ''u'') (demo_with r es) = (\<lparr>es_scanned = 0, es_expired = 0\<rparr>, demo_with r es)"
  by (simp add: expireQueued_def FLEET_JOB_KINDS_def expire_kind_def findQueuedOlderThan_def select_jobs_def
      demo_ready_def queue_cutoff_def)

definition demo_terms :: lease_terms where
  "demo_terms = \<lparr>lt_nodeId = demo_node_id, lt_node = demo_node, lt_capabilities = [''linux''], lt_throttled = {},
     lt_kinds = \<lparr>kf_kinds = [], kf_excludeKinds = []\<rparr>, lt_max = 1, lt_expires = 1300000\<rparr>"

lemma demo_terms: "lease_terms_of demo_env demo_lease demo_node_id demo_node = demo_terms"
  by (simp add: lease_terms_of_def demo_terms_def demo_lease_def demo_node_def throttledProviders_def
      activeFleetNodeModelThrottles_def kind_filter_of_def FLEET_JOB_DEFAULT_LEASE_TTL_SEC_def)

lemma demo_window: "lease_window 1 = 5"
  by (simp add: lease_window_def FLEET_JOB_MAX_LEASE_BATCH_def)

lemma demo_offer: "demo_ready r \<Longrightarrow> offerable demo_env demo_terms ''job'' r"
  by (simp add: offerable_def demo_terms_def isLeasableKind_def nodeSatisfiesCapabilities_def
      blockedByModelThrottle_def appWorkLeaseAdmits_def demo_ready_def)

definition demo_claimed :: "fleet_job \<Rightarrow> fleet_job" where
  "demo_claimed r = claimed demo_node_id 1300000 (fj_attempts r + 1) (fj_leaseGeneration r + 1) r"

lemma demo_lease_jobs:
  assumes "demo_ready r"
  shows "lease_jobs demo_env demo_terms (demo_with r es) =
    ([toJobView ''job'' (demo_claimed r)], demo_with (demo_claimed r) (es @ [JobLeased (toJobView ''job'' (demo_claimed r)) demo_node_id ''u'']))"
proof -
  have scan: "findQueuedForNode ''u'' demo_node_id 5 \<lparr>kf_kinds = [], kf_excludeKinds = []\<rparr> [(''job'', r)] = [(''job'', r)]"
    using assms by (simp add: findQueuedForNode_def select_jobs_def leasable_kind_query_def demo_ready_def)
  have terms: "fn_userId (lt_node demo_terms) = ''u''" "lt_nodeId demo_terms = demo_node_id" "lt_max demo_terms = 1"
    "lt_kinds demo_terms = \<lparr>kf_kinds = [], kf_excludeKinds = []\<rparr>" "lt_expires demo_terms = 1300000"
    by (simp_all add: demo_terms_def demo_node_def)
  have "claim_tag r = (True, True, fj_leaseGeneration r)" using assms by (simp add: claim_tag_def demo_ready_def)
  then show ?thesis
    by (simp add: lease_jobs_def terms demo_window scan lease_one_def demo_offer [OF assms] claim_def on_jobs_update
        emit_def demo_claimed_def Let_def)
qed

lemma demo_leases_ready:
  assumes "demo_ready r"
  shows "lease demo_env demo_lease (demo_with r es) =
    (Some [toJobView ''job'' (demo_claimed r)], demo_with (demo_claimed r) (es @ [JobLeased (toJobView ''job'' (demo_claimed r)) demo_node_id ''u'']))"
proof -
  have "fn_userId demo_node = ''u''" "fn_version demo_node = None" by (simp_all add: demo_node_def)
  moreover have "li_nodeId demo_lease = JStr demo_node_id" "li_secret demo_lease = JStr demo_secret"
    by (simp_all add: demo_lease_def)
  ultimately show ?thesis
    by (simp add: lease_def fleet_stopped_def demo_reclaim [OF assms] demo_expire [OF assms] demo_terms demo_lease_jobs [OF assms]
        isFleetNodeVersionBelowFloor_def compareFleetNodeVersions_def parseFleetNodeVersion_def)
qed

lemma demo_leases: "lease demo_env demo_lease demo_queued = (Some [toJobView ''job'' demo_held], demo_leased)"
proof -
  have "demo_claimed demo_row = demo_held" by (simp add: demo_claimed_def demo_held_def)
  then show ?thesis
    using demo_leases_ready [OF demo_row_ready, of "[]"] by (simp add: demo_queued_with demo_with_def demo_leased_def)
qed

text \<open>The computer is drained and comes back: the job is handed out again.\<close>

definition demo_requeued :: fleet_job where
  "demo_requeued = drained 1000000 demo_held"

lemma demo_held_simps [simp]:
  "fj_status demo_held = Leased" "fj_nodeId demo_held = Some demo_node_id" "fj_leaseGeneration demo_held = 1"
  "fj_userId demo_held = ''u''" "fj_kind demo_held = BrowserCheck" "fj_usageLimitParks demo_held = 0" "fj_attempts demo_held = 1"
  "fj_idempotencyKey demo_held = Some ''k''" "fj_cancelRequestedAt demo_held = None" "fj_leaseExpiresAt demo_held = Some 1300000"
  by (simp_all add: demo_held_def claimed_def)

lemma demo_requeued_ready [simp]: "demo_ready demo_requeued"
  by (simp add: demo_ready_def demo_requeued_def drained_def demo_held_def claimed_def)

lemma demo_drains: "drainNode demo_env ''u'' demo_node_id demo_leased = (1, demo_with demo_requeued (fl_events demo_leased))"
  by (simp add: drainNode_def on_jobs_simp releaseClaimsForNode_def Let_def demo_with_def demo_leased_def demo_fleet_def
      demo_requeued_def active_iff)

lemma demo_holds: "held_job demo_env (JStr demo_node_id) (JStr demo_secret) ''job'' (JNum (Fin 1)) demo_leased =
    Inr (Some (demo_node_id, demo_node, demo_held))"
  by (simp add: held_job_def demo_leased_def demo_fleet_def)

lemma demo_completes: "completeJob demo_env demo_complete demo_leased =
    (Inr (Some (toJobView ''job'' (completed Failed None (Some ''red'') 1000000 demo_held))), demo_done)"
proof -
  have input: "ci_nodeId demo_complete = JStr demo_node_id" "ci_secret demo_complete = JStr demo_secret" "ci_jobId demo_complete = ''job''"
    "\<not> ci_success demo_complete" "ci_error demo_complete = JStr ''red''" "ci_leaseGeneration demo_complete = JNum (Fin 1)"
    by (simp_all add: demo_complete_def)
  have "truncate_text (JStr ''red'') FLEET_JOB_MAX_ERROR_LENGTH = Some ''red''"
    by (simp add: js_trim_def is_js_space_def FLEET_JOB_MAX_ERROR_LENGTH_def)
  then show ?thesis
    by (simp add: completeJob_def input demo_holds [unfolded demo_leased_def demo_fleet_def, simplified] Let_def settle_job_def complete_def on_jobs_update demo_leased_def demo_done_def
        demo_fleet_def holder_tag_def active_iff emit_def del: truncate_text.simps)
qed

text \<open>The three calls in a row.\<close>

definition demo_calls :: "(fleet_env \<times> fleet_call) list" where
  "demo_calls = [(demo_env, CallEnqueue demo_enqueue), (demo_env, CallLease demo_lease), (demo_env, CallComplete demo_complete)]"

lemma demo_fleet_run: "run_calls demo_calls demo_fleet = demo_done"
  by (simp add: demo_calls_def demo_enqueued demo_leases demo_completes)

lemma demo_calls_rely: "list_all (\<lambda>(env, _). rely env \<and> fe_hasEvents env = True) demo_calls"
  by (simp add: demo_calls_def)

end
