(* ===== verification/Fleet_Claims.thy ===== *)
theory Fleet_Claims
  imports Fleet_Demo
begin

text \<open>
  The properties of the fleet's job queue: whatever the callers do and however they interleave, a row lives
  the life of a job, a claim is handed out once, what a machine that lost its claim sends changes nothing,
  a cancelled job is not run, and a machine that died gives its work back.
\<close>

section \<open>Every call\<close>

text \<open>C24. With other callers doing anything a job's life allows between its read and its write, each call of
  the job service leaves the fleet as lawful steps of its rows would: a conditional update moves a row only
  along an edge of the state machine, and the row's completion is announced with the write that ends it.\<close>

theorem calls_follow_the_life_of_a_job:
  assumes "rely env" "keys_ok s"
  shows "evolves (fe_hasEvents env) s (run_call env call s)"
  by (rule run_call_evolves [OF assms])

lemma calls_follow_the_life_of_a_job_witness:
  "evolves True demo_queued (run_call demo_env (CallLease demo_lease) demo_queued) \<and>
   fl_jobs (run_call demo_env (CallLease demo_lease) demo_queued) = [(''job'', demo_held)]"
  using calls_follow_the_life_of_a_job [OF demo_rely demo_keys(2), of "CallLease demo_lease"]
  by (simp add: demo_leases demo_leased_def)

text \<open>C25. From an empty table, after any calls in any order, each of them raced by others that keep the rules:
  a queued row has no holder and no lease, an active row has both and has used an attempt, an ended row has
  the instant it ended and no lease, the queued reason is kept on queued rows only, the generation counts
  the attempts and the refunded parks, and a job has been announced as completed exactly once if it ended
  and never if it has not.\<close>

theorem reachable_jobs_are_lawful:
  assumes "list_all (\<lambda>(env, _). rely env \<and> fe_hasEvents env = True) calls"
    and "map_of (fl_jobs (run_calls calls \<lparr>fl_jobs = [], fl_nodes = nodes, fl_events = []\<rparr>)) jid = Some j"
  shows "status_ok (fj_status j) j \<and> counters_ok j \<and>
    completions jid (fl_events (run_calls calls \<lparr>fl_jobs = [], fl_nodes = nodes, fl_events = []\<rparr>)) = (if terminal j then 1 else 0)"
proof -
  let ?s0 = "\<lparr>fl_jobs = [], fl_nodes = nodes, fl_events = []\<rparr>"
  have start: "fleet_ok True ?s0" by (simp add: fleet_ok_def keys_ok_def completions_def)
  have "evolves True ?s0 (run_calls calls ?s0)"
    by (rule run_calls_evolves [OF assms(1)]) (simp add: keys_ok_def)
  then have "fleet_ok True (run_calls calls ?s0)" using start by (rule fleet_ok_evolves)
  then show ?thesis using assms(2) by (simp add: fleet_ok_def job_ok_def)
qed

lemma reachable_jobs_are_lawful_witness:
  "status_ok Failed (snd (hd (fl_jobs demo_done))) \<and> completions ''job'' (fl_events demo_done) = 1"
proof -
  let ?j = "completed Failed None (Some ''red'') 1000000 demo_held"
  have run: "run_calls demo_calls \<lparr>fl_jobs = [], fl_nodes = [(demo_node_id, demo_node)], fl_events = []\<rparr> = demo_done"
    using demo_fleet_run by (simp add: demo_fleet_def)
  have "map_of (fl_jobs demo_done) ''job'' = Some ?j" by (simp add: demo_done_def demo_fleet_def)
  then have "status_ok (fj_status ?j) ?j \<and> counters_ok ?j \<and> completions ''job'' (fl_events demo_done) = (if terminal ?j then 1 else 0)"
    using reachable_jobs_are_lawful [OF demo_calls_rely, of "[(demo_node_id, demo_node)]" "''job''" ?j] by (simp only: run)
  moreover have "fj_status ?j = Failed" by (simp add: completed_def)
  ultimately show ?thesis by (simp add: terminal_iff demo_done_def demo_fleet_def)
qed

section \<open>The claim\<close>

text \<open>C26. A poll hands out at most five jobs, all different, and only to a node that authenticated and while the
  fleet is not stopped. Each is a queued job of the node's owner that the node may take: pinned to it or to
  nobody, of a kind it asked for, with every capability it has, not held back by a usage limit, admitted for
  its App Work. It is handed out by a write that found it queued, not cancelled, at the generation before
  the one it now carries, for a lease of thirty seconds to an hour.\<close>

theorem leases_are_eligible:
  assumes "rely env" "keys_ok s" "lease env inp s = (Some views, s')" "v \<in> set views"
  shows "length views \<le> 5 \<and> distinct (map jv_id views) \<and> \<not> fleet_stopped env \<and>
    (\<exists>n node j swept sa. authenticateNode (fe_sha256 env) (fe_now env) (fl_nodes s) (li_nodeId inp) (li_secret inp) ToLease = Some (n, node) \<and>
       evolves (fe_hasEvents env) s swept \<and> map_of (fl_jobs swept) (jv_id v) = Some j \<and> fj_userId j = fn_userId node \<and>
       offerable env (lease_terms_of env inp n node) (jv_id v) j \<and>
       jv_nodeId v = Some n \<and> jv_leaseGeneration v = fj_leaseGeneration j + 1 \<and> jv_attempts v = fj_attempts j + 1 \<and>
       jv_leaseExpiresAt v = Some (fe_now env + clampLeaseTtlSec (li_leaseTtlSec inp) * 1000) \<and>
       30 \<le> clampLeaseTtlSec (li_leaseTtlSec inp) \<and> clampLeaseTtlSec (li_leaseTtlSec inp) \<le> 3600 \<and>
       evolves (fe_hasEvents env) swept sa \<and>
       (\<exists>r. map_of (fl_jobs sa) (jv_id v) = Some r \<and> claim_tag r = (True, True, fj_leaseGeneration j)))"
proof -
  let ?lt = "\<lambda>n node. lease_terms_of env inp n node"
  show ?thesis
  proof (rule leased_view [OF assms])
    fix n node swept j sa sb
    assume a: "authenticateNode (fe_sha256 env) (fe_now env) (fl_nodes s) (li_nodeId inp) (li_secret inp) ToLease = Some (n, node)"
      "\<not> fleet_stopped env" "length views \<le> 5" "distinct (map jv_id views)" "evolves (fe_hasEvents env) s swept"
      "map_of (fl_jobs swept) (jv_id v) = Some j" "fj_userId j = fn_userId node" "offerable env (?lt n node) (jv_id v) j"
      "evolves (fe_hasEvents env) swept sa"
      and v: "v = lease_view (?lt n node) (jv_id v, j)"
      and won: "on_jobs (claim (jv_id v) n (lt_expires (?lt n node)) (fj_attempts j + 1) (fj_leaseGeneration j + 1)) sa = (True, sb)"
    have "jv_nodeId v = Some n" "jv_leaseGeneration v = fj_leaseGeneration j + 1" "jv_attempts v = fj_attempts j + 1"
      "jv_leaseExpiresAt v = Some (fe_now env + clampLeaseTtlSec (li_leaseTtlSec inp) * 1000)"
      by (subst v, simp add: lease_view_columns lease_terms_of_def)+
    moreover have "\<exists>r. map_of (fl_jobs sa) (jv_id v) = Some r \<and> claim_tag r = (True, True, fj_leaseGeneration j)"
      using claim_row [OF won] by auto
    ultimately show ?thesis using a lease_ttl_range [of "li_leaseTtlSec inp"] by blast
  qed
qed

lemma leases_are_eligible_witness: "\<exists>swept. evolves True demo_queued swept \<and> map_of (fl_jobs swept) ''job'' \<noteq> None"
proof -
  let ?v = "toJobView ''job'' demo_held"
  have "jv_id ?v = ''job''" by (simp add: toJobView_def)
  then show ?thesis
    using leases_are_eligible [OF demo_rely demo_keys(2) demo_leases, of ?v] by auto
qed

text \<open>C27. Two polls never hand out the same claim: a job handed out again, by any two polls one after the other
  with anything in between, carries a later generation.\<close>

theorem claims_are_handed_out_once:
  assumes "rely env1" "keys_ok s" "lease env1 inp1 s = (Some views1, s1)" "v1 \<in> set views1"
    and "evolves (fe_hasEvents env1) s1 s2"
    and "rely env2" "fe_hasEvents env2 = fe_hasEvents env1" "lease env2 inp2 s2 = (Some views2, s3)" "v2 \<in> set views2"
    and "jv_id v1 = jv_id v2"
  shows "jv_leaseGeneration v1 < jv_leaseGeneration v2"
proof -
  have k2: "keys_ok s2"
    using keys_ok_evolves [OF assms(5)] keys_ok_evolves [OF lease_evolves [OF assms(1,2), of inp1]] assms(2,3) by simp
  obtain n1 node1 j1 sa sb where v1: "v1 = lease_view (lease_terms_of env1 inp1 n1 node1) (jv_id v1, j1)"
    and c1: "on_jobs (claim (jv_id v1) n1 (lt_expires (lease_terms_of env1 inp1 n1 node1)) (fj_attempts j1 + 1) (fj_leaseGeneration j1 + 1)) sa = (True, sb)"
    and sb: "evolves (fe_hasEvents env1) sb s1"
    by (rule leased_view [OF assms(1-4)])
  obtain n2 node2 j2 swept sc sd where v2: "v2 = lease_view (lease_terms_of env2 inp2 n2 node2) (jv_id v2, j2)"
    and c2: "on_jobs (claim (jv_id v2) n2 (lt_expires (lease_terms_of env2 inp2 n2 node2)) (fj_attempts j2 + 1) (fj_leaseGeneration j2 + 1)) sc = (True, sd)"
    and sc: "evolves (fe_hasEvents env2) s2 swept" "evolves (fe_hasEvents env2) swept sc"
    by (rule leased_view [OF assms(6) k2 assms(8,9)])
  have gens: "jv_leaseGeneration v1 = fj_leaseGeneration j1 + 1" "jv_leaseGeneration v2 = fj_leaseGeneration j2 + 1"
    by (subst v1, simp add: lease_view_columns) (subst v2, simp add: lease_view_columns)
  have "evolves (fe_hasEvents env1) sb sc" using sb assms(5,7) sc by (auto intro: rtranclp_trans)
  then have "\<not> fj_leaseGeneration j2 + 1 \<le> fj_leaseGeneration j1 + 1"
    using claim_once [OF c1, of "fe_hasEvents env1" sc "fj_leaseGeneration j2 + 1"] c2 assms(10) by (metis fst_conv)
  then show ?thesis using gens by simp
qed

lemma claims_are_handed_out_once_witness:
  "jv_leaseGeneration (toJobView ''job'' demo_held) < jv_leaseGeneration (toJobView ''job'' (demo_claimed demo_requeued))"
proof -
  have "evolves True demo_leased (demo_with demo_requeued (fl_events demo_leased))"
    using drain_evolves [OF demo_keys(3), of True demo_env "''u''" demo_node_id] demo_drains by simp
  moreover have "jv_id (toJobView ''job'' j) = ''job''" for j by (simp add: toJobView_def)
  ultimately show ?thesis
    using claims_are_handed_out_once [OF demo_rely demo_keys(2) demo_leases _ _ demo_rely _
        demo_leases_ready [OF demo_requeued_ready, of "fl_events demo_leased"]]
    by simp
qed

section \<open>Machines that sleep, owners that cancel, machines that die\<close>

text \<open>C28. A machine that lost its claim changes nothing. A heartbeat, a completion or a request for the run's
  secrets whose generation is not the current one, or whose node is not the recorded holder, or that comes
  after the job ended, is refused without a write; when the claim is lost between the check and the write,
  the write does not land either.\<close>

theorem stale_holders_change_nothing:
  assumes "map_of (fl_jobs s) jid = Some j"
    and "\<not> (active j \<and> fj_nodeId j = Some n \<and> generation = JNum (Fin (of_int (fj_leaseGeneration j))))"
    and "ci_nodeId inp = JStr n" "ci_jobId inp = jid" "ci_leaseGeneration inp = generation"
  shows "heartbeatJob env (JStr n) secret jid ttl generation s \<in> {(Inr None, s), (Inl StaleLease, s)} \<and>
    completeJob env inp s \<in> {(Inr None, s), (Inl StaleLease, s)} \<and>
    authorizeRunSecretRequest env (JStr n) secret jid generation s \<in> {Inr None, Inl StaleLease} \<and>
    (\<forall>s' g. (\<forall>r. map_of (fl_jobs s') jid = Some r \<longrightarrow> holder_tag r \<noteq> (Some n, True, g)) \<longrightarrow>
      on_jobs (complete jid n verdict res err now g) s' = (False, s') \<and>
      on_jobs (extendLease jid n expires started g) s' = (False, s') \<and>
      on_jobs (parkForUsageLimit jid n g attempts at_time parks) s' = (False, s'))"
proof (intro conjI allI impI)
  have held: "held_job env (JStr n) sec jid generation s \<in> {Inr None, Inl StaleLease}" for sec
  proof (cases "held_job env (JStr n) sec jid generation s")
    case (Inl e)
    then show ?thesis by (auto simp: held_job_def split: option.splits if_splits)
  next
    case (Inr h)
    have False if "h = Some (m, node, r)" for m node r
    proof -
      note held_job_Some [OF Inr [unfolded that]]
      moreover have "m = n" using calculation by (auto simp: authenticateNode_iff)
      ultimately show False using assms(1,2) by auto
    qed
    then have "h = None" by (cases h) auto
    then show ?thesis using Inr by simp
  qed
  show "heartbeatJob env (JStr n) secret jid ttl generation s \<in> {(Inr None, s), (Inl StaleLease, s)}"
    using held [of secret] by (auto simp: heartbeatJob_def)
  show "completeJob env inp s \<in> {(Inr None, s), (Inl StaleLease, s)}"
    using held [of "ci_secret inp"] assms(3-5) by (auto simp: completeJob_def)
  show "authorizeRunSecretRequest env (JStr n) secret jid generation s \<in> {Inr None, Inl StaleLease}"
    using held [of secret] by (auto simp: authorizeRunSecretRequest_def)
qed (auto simp: write_defs on_jobs_update split: option.splits)

lemma stale_holders_change_nothing_witness:
  "completeJob demo_env demo_complete (demo_with (demo_claimed demo_requeued) []) \<in>
     {(Inr None, demo_with (demo_claimed demo_requeued) []), (Inl StaleLease, demo_with (demo_claimed demo_requeued) [])}"
proof -
  let ?s = "demo_with (demo_claimed demo_requeued) []"
  have "map_of (fl_jobs ?s) ''job'' = Some (demo_claimed demo_requeued)" by simp
  moreover have "fj_leaseGeneration (demo_claimed demo_requeued) = 2"
    by (simp add: demo_claimed_def claimed_def demo_requeued_def drained_def)
  then have "\<not> (active (demo_claimed demo_requeued) \<and> fj_nodeId (demo_claimed demo_requeued) = Some demo_node_id \<and>
      JNum (Fin 1) = JNum (Fin (of_int (fj_leaseGeneration (demo_claimed demo_requeued)))))" by simp
  ultimately show ?thesis
    using stale_holders_change_nothing [of ?s "''job''" "demo_claimed demo_requeued" demo_node_id "JNum (Fin 1)" demo_complete]
    by (simp add: demo_complete_def)
qed

text \<open>C29. A cancelled job is not run again. Once a row carries a cancel request, no poll at any later time hands
  the job out, and no heartbeat on it is answered, so that the machine holding it aborts.\<close>

theorem cancelled_jobs_are_not_run:
  assumes "map_of (fl_jobs s) jid = Some j" "fj_cancelRequestedAt j \<noteq> None"
    and "evolves (fe_hasEvents env) s later" "keys_ok later" "rely env"
  shows "(\<forall>inp views s'. lease env inp later = (Some views, s') \<longrightarrow> jid \<notin> jv_id ` set views) \<and>
    (\<forall>nodeId secret ttl generation v s'. heartbeatJob env nodeId secret jid ttl generation later \<noteq> (Inr (Some v), s'))"
proof (intro conjI allI impI notI)
  fix inp views s'
  assume l: "lease env inp later = (Some views, s')" and "jid \<in> jv_id ` set views"
  then obtain v where v: "v \<in> set views" "jid = jv_id v" by auto
  show False
  proof (rule leased_view [OF assms(5,4) l v(1)])
    fix n node swept j' sa sb
    assume "evolves (fe_hasEvents env) later swept" "evolves (fe_hasEvents env) swept sa"
      and won: "on_jobs (claim (jv_id v) n (lt_expires (lease_terms_of env inp n node)) (fj_attempts j' + 1) (fj_leaseGeneration j' + 1)) sa = (True, sb)"
    then have "evolves (fe_hasEvents env) s sa" using assms(3) by (meson rtranclp_trans)
    then show False using flagged_never_claimed [OF assms(1,2)] won v(2) by (metis fst_conv)
  qed
next
  fix nodeId secret ttl generation v s'
  assume beat: "heartbeatJob env nodeId secret jid ttl generation later = (Inr (Some v), s')"
  obtain r where r: "map_of (fl_jobs later) jid = Some r" "job_steps j r" using row_evolves [OF assms(3,1)] by blast
  have flagged: "fj_cancelRequestedAt r \<noteq> None" using steps_flag [OF r(2) assms(2)] .
  obtain n node h where "held_job env nodeId secret jid generation later = Inr (Some (n, node, h))"
    using beat by (auto simp: heartbeatJob_def split: sum.splits option.splits)
  moreover have "h = r" using held_job_Some [OF calculation] r(1) by simp
  ultimately show False using beat flagged by (simp add: heartbeatJob_def)
qed

lemma cancelled_jobs_are_not_run_witness:
  "heartbeatJob demo_env (JStr demo_node_id) (JStr demo_secret) ''job'' JUndef (JNum (Fin 1))
     (demo_with (demo_held\<lparr>fj_cancelRequestedAt := Some 1000000\<rparr>) []) \<noteq>
   (Inr (Some (toJobView ''job'' demo_held)), demo_leased)"
  using cancelled_jobs_are_not_run [of "demo_with (demo_held\<lparr>fj_cancelRequestedAt := Some 1000000\<rparr>) []" "''job''"
      "demo_held\<lparr>fj_cancelRequestedAt := Some 1000000\<rparr>" demo_env "demo_with (demo_held\<lparr>fj_cancelRequestedAt := Some 1000000\<rparr>) []"]
  by simp

text \<open>C30. A machine that dies gives its work back. When nobody interferes and at most two hundred claims have
  lapsed, one sweep leaves no lapsed claim: a cancelled job settles as cancelled, a job out of attempts
  settles as failed, every other one is queued again without a holder, and no other row is touched.\<close>

theorem lapsed_claims_are_given_back:
  assumes "\<And>m x. fe_rivals env m x = x" "fleet_ok w s"
    and "length (filter (\<lambda>e. lapsed (fe_now env) owner (snd e)) (fl_jobs s)) \<le> FLEET_JOB_RECLAIM_BATCH"
  shows "map_of (fl_jobs (snd (reclaimExpired env owner s))) jid =
      map_option (\<lambda>j. if lapsed (fe_now env) owner j then lapsed_outcome (fe_now env) j else j) (map_of (fl_jobs s) jid) \<and>
    (\<forall>r. map_of (fl_jobs (snd (reclaimExpired env owner s))) jid = Some r \<longrightarrow> \<not> lapsed (fe_now env) owner r)"
proof -
  have "\<not> lapsed now owner (lapsed_outcome now j)" for now j
    using lapsed_outcome_inactive by (simp add: lapsed_def)
  then show ?thesis using reclaimExpired_rows [OF assms] by auto
qed

lemma lapsed_claims_are_given_back_witness:
  "\<not> lapsed 2000000 None (snd (hd (fl_jobs (snd (reclaimExpired (demo_env\<lparr>fe_now := 2000000\<rparr>) None (demo_with demo_held []))))))"
proof -
  let ?env = "demo_env\<lparr>fe_now := 2000000\<rparr>" and ?s = "demo_with demo_held []"
  have ok: "fleet_ok False ?s"
    by (simp add: fleet_ok_def job_ok_def counters_ok_def demo_held_def claimed_def)
  have quiet: "fe_rivals ?env m x = x" for m x by (simp add: demo_env_def)
  have "lapsed_outcome 2000000 demo_held = reclaimed 2000000 demo_held"
    by (simp add: lapsed_outcome_def) (simp add: demo_held_def claimed_def)
  moreover have "lapsed 2000000 None demo_held" by (simp add: lapsed_def active_iff)
  moreover have "length (filter (\<lambda>e. lapsed (fe_now ?env) None (snd e)) (fl_jobs ?s)) \<le> FLEET_JOB_RECLAIM_BATCH"
    by (simp add: FLEET_JOB_RECLAIM_BATCH_def)
  note lapsed_claims_are_given_back [OF quiet ok this, of "''job''"]
  ultimately have "map_of (fl_jobs (snd (reclaimExpired ?env None ?s))) ''job'' = Some (reclaimed 2000000 demo_held)" by simp
  moreover have "fl_jobs (snd (reclaimExpired ?env None ?s)) = [(''job'', reclaimed 2000000 demo_held)]"
    using reclaim_one_quiet [of ?env ?s "''job''" demo_held demo_node_id 1300000]
    by (simp add: quiet reclaimExpired_def findExpiredLeases_def select_jobs_def active_iff FLEET_JOB_RECLAIM_BATCH_def \<open>lapsed_outcome _ _ = _\<close>)
  ultimately show ?thesis by (simp add: lapsed_def reclaimed_def active_iff)
qed

section \<open>What does not hold\<close>

text \<open>
  What the model shows against the intent of the job queue: a cancelled job that goes back to the queue by a
  drain or a park is stuck there, and five such rows hide the owner's other work from every computer; a drain
  costs the job an attempt; and a cancel that loses two races says the job has ended when it has not.
\<close>

section \<open>Cancelled rows in the queue\<close>

text \<open>A queued row with a cancel request only waits: nothing but a second cancel ever ends it. No claim takes
  it, the queue's maximum age skips it, and the reclaim sweep looks at active rows only.\<close>

theorem cancelled_in_queue_is_stuck:
  assumes "job_step j j'" "fj_status j = Queued" "fj_cancelRequestedAt j \<noteq> None"
  shows "(fj_status j' = Queued \<and> fj_cancelRequestedAt j' \<noteq> None) \<or> (\<exists>err now. j' = dropped err now j)"
  using assms by cases (auto simp: active_iff terminal_iff)

definition stuck_row :: "int \<Rightarrow> fleet_job" where
  "stuck_row created = demo_requeued\<lparr>fj_cancelRequestedAt := Some 1000000, fj_createdAt := created\<rparr>"

text \<open>The platform's own calls get there: a computer holds the job, the owner cancels it, and the computer is
  drained before it reports.\<close>

theorem cancel_and_drain_strand_the_job:
  "fl_jobs (run_calls [(demo_env, CallCancel (JStr ''job'')), (demo_env, CallDrain ''u'' demo_node_id)] demo_leased) =
     [(''job'', stuck_row 1000000)]"
proof -
  have uuid: "fe_isUUID demo_env i" for i by (simp add: demo_env_def)
  have created: "fj_createdAt demo_held = 1000000" by (simp add: demo_held_def claimed_def)
  let ?flagged = "demo_held\<lparr>fj_cancelRequestedAt := Some 1000000\<rparr>"
  have leased: "demo_leased = demo_with demo_held (fl_events demo_leased)"
    by (simp add: demo_leased_def demo_with_def)
  have "snd (cancel demo_env (JStr ''job'') (demo_with demo_held es)) = demo_with ?flagged es" for es
    by (simp add: cancel_def uuid terminal_iff requestCancelOnActive_def requestCancel_def on_jobs_update active_iff demo_with_def)
  then have cancelled: "snd (cancel demo_env (JStr ''job'') demo_leased) = demo_with ?flagged (fl_events demo_leased)"
    by (metis leased)
  have "fl_jobs (snd (drainNode demo_env ''u'' demo_node_id (demo_with ?flagged es))) = [(''job'', stuck_row 1000000)]" for es
    by (simp add: drainNode_def on_jobs_simp releaseClaimsForNode_def Let_def active_iff stuck_row_def demo_requeued_def
        drained_def created)
  then show ?thesis by (simp add: cancelled)
qed

text \<open>The scan of a poll takes the oldest rows, cancelled ones included: behind five of them an eligible job is
  not offered, poll after poll.\<close>

definition stranded_table :: job_table where
  "stranded_table = [(''a'', stuck_row 1), (''b'', stuck_row 2), (''c'', stuck_row 3), (''d'', stuck_row 4),
     (''e'', stuck_row 5), (''job'', demo_row)]"

theorem stranded_rows_starve_the_queue:
  "offerable demo_env demo_terms ''job'' demo_row \<and>
   lease_jobs demo_env demo_terms (demo_fleet\<lparr>fl_jobs := stranded_table\<rparr>) = ([], demo_fleet\<lparr>fl_jobs := stranded_table\<rparr>)"
proof
  show "offerable demo_env demo_terms ''job'' demo_row" by (rule demo_offer) simp
  have row: "fj_status (stuck_row t) = Queued" "fj_userId (stuck_row t) = ''u''" "fj_targetNodeId (stuck_row t) = None"
    "fj_createdAt (stuck_row t) = t" "fj_kind (stuck_row t) = BrowserCheck" "fj_requiredCapabilities (stuck_row t) = [''linux'']"
    "fj_cancelRequestedAt (stuck_row t) = Some 1000000" for t
    by (simp_all add: stuck_row_def demo_requeued_def drained_def demo_held_def claimed_def)
  have terms: "fn_userId (lt_node demo_terms) = ''u''" "lt_nodeId demo_terms = demo_node_id" "lt_max demo_terms = 1"
    "lt_kinds demo_terms = \<lparr>kf_kinds = [], kf_excludeKinds = []\<rparr>"
    by (simp_all add: demo_terms_def demo_node_def)
  have scan: "findQueuedForNode ''u'' demo_node_id 5 \<lparr>kf_kinds = [], kf_excludeKinds = []\<rparr> stranded_table = take 5 stranded_table"
    by (simp add: findQueuedForNode_def select_jobs_def leasable_kind_query_def stranded_table_def row)
  have lost: "lease_one demo_env demo_terms (k, stuck_row t) ([], s) = ([], s)"
    if "map_of (fl_jobs s) k = Some (stuck_row t)" for k t s
    using that by (simp add: lease_one_def claim_def on_jobs_update claim_tag_def row Let_def)
  show "lease_jobs demo_env demo_terms (demo_fleet\<lparr>fl_jobs := stranded_table\<rparr>) = ([], demo_fleet\<lparr>fl_jobs := stranded_table\<rparr>)"
    by (simp add: lease_jobs_def terms demo_window scan) (simp add: stranded_table_def lost)
qed

section \<open>Drains and attempts\<close>

text \<open>A drain keeps the attempt the claim has counted, so that no number of attempts is out of reach of a job whose
  computers are drained, whatever its budget.\<close>

theorem drains_spend_attempts:
  "\<exists>j. job_steps (created_job d t) j \<and> fj_status j = Queued \<and> fj_cancelRequestedAt j = None \<and>
     fj_attempts j = int n \<and> fj_maxAttempts j = nj_maxAttempts d"
proof (induction n)
  case 0
  then show ?case by (intro exI [of _ "created_job d t"]) (simp add: created_job_def)
next
  case (Suc n)
  then obtain j where j: "job_steps (created_job d t) j" "fj_status j = Queued" "fj_cancelRequestedAt j = None"
    "fj_attempts j = int n" "fj_maxAttempts j = nj_maxAttempts d" by blast
  let ?held = "claimed ''n'' 0 (fj_attempts j + 1) (fj_leaseGeneration j + 1) j"
  have "job_step j ?held" by (rule job_step.claims [OF j(2,3)])
  moreover have "job_step ?held (drained 0 ?held)" by (rule job_step.drains) (simp add: claimed_def active_iff)
  ultimately have "job_steps (created_job d t) (drained 0 ?held)" using j(1) by simp
  then show ?case using j by (intro exI [of _ "drained 0 ?held"]) (simp add: drained_def claimed_def)
qed

section \<open>A cancel that loses twice\<close>

text \<open>A computer claims the job between the read and the cancel's write, and is drained before the retry: the
  answer is that the job has ended, and it is in the queue, not cancelled.\<close>

definition racing_env :: fleet_env where
  "racing_env = demo_env\<lparr>fe_rivals := (\<lambda>m s. case m of
     BeforeWrite \<Rightarrow> snd (on_jobs (claim ''job'' demo_node_id 1300000 1 1) s)
   | BeforeRetry \<Rightarrow> snd (drainNode demo_env ''u'' demo_node_id s)
   | _ \<Rightarrow> s)\<rparr>"

theorem cancel_misreports_a_live_job:
  "fst (cancel racing_env (JStr ''job'') (demo_with demo_row [])) = (False, AlreadyTerminal) \<and>
   fl_jobs (snd (cancel racing_env (JStr ''job'') (demo_with demo_row []))) = [(''job'', demo_requeued)] \<and>
   fj_status demo_requeued = Queued \<and> fj_cancelRequestedAt demo_requeued = None"
proof -
  have uuid: "fe_isUUID racing_env i" for i by (simp add: racing_env_def demo_env_def)
  have claims: "snd (on_jobs (claim ''job'' demo_node_id 1300000 1 1) (demo_with demo_row [])) = demo_with demo_held []"
    by (simp add: claim_def on_jobs_update claim_tag_def demo_with_def demo_held_def)
  have drains: "snd (drainNode demo_env ''u'' demo_node_id (demo_with demo_held [])) = demo_with demo_requeued []"
    by (simp add: drainNode_def on_jobs_simp releaseClaimsForNode_def Let_def demo_with_def demo_requeued_def active_iff)
  have rivals: "fe_rivals racing_env BeforeWrite (demo_with demo_row []) = demo_with demo_held []"
    "fe_rivals racing_env BeforeRetry (demo_with demo_held []) = demo_with demo_requeued []"
    by (simp_all add: racing_env_def claims drains)
  have requeued: "fj_status demo_requeued = Queued" "fj_cancelRequestedAt demo_requeued = None"
    using demo_requeued_ready unfolding demo_ready_def by blast+
  have result: "cancel racing_env (JStr ''job'') (demo_with demo_row []) = ((False, AlreadyTerminal), demo_with demo_requeued [])"
    by (simp add: cancel_def uuid terminal_iff cancelQueued_def on_jobs_update rivals requestCancelOnActive_def
        requestCancel_def active_iff requeued)
  show ?thesis by (simp add: result requeued)
qed

end
