(* ===== verification/Calendar.thy ===== *)
theory Calendar
  imports Js_Date
begin

text \<open>
  The laws of the UTC calendar the periods rest on: the civil date of a day leads back to that day, every day
  lies in exactly one month, and months follow each other without a gap. A month is numbered from year 0,
  twelve to a year; \<open>year_days\<close> counts the days before a year that begins in March.
\<close>

definition year_days :: "int \<Rightarrow> int" where
  "year_days y = 365 * y + y div 4 - y div 100 + y div 400"

definition month_start :: "int \<Rightarrow> int" where
  "month_start k = days_from_civil (k div 12) (k mod 12 + 1) 1"

definition month_index :: "int \<Rightarrow> int" where
  "month_index z = (case civil_from_days z of (y, m, d) \<Rightarrow> 12 * y + m - 1)"

section \<open>Division\<close>

lemma div_bounds:
  fixes x n :: int
  assumes "0 < n"
  shows "n * (x div n) \<le> x" "x < n * (x div n) + n"
  using pos_mod_sign [OF assms, of x] pos_mod_bound [OF assms, of x] mult_div_mod_eq [of n x] by linarith+

lemma div_is:
  fixes x n q :: int
  assumes "n * q \<le> x" "x < n * q + n"
  shows "x div n = q" "x mod n = x - n * q"
  using int_div_pos_eq [of x n q "x - n * q"] int_mod_pos_eq [of x n q "x - n * q"] assms by simp_all

lemma div_step:
  fixes x n :: int
  assumes "0 < n"
  shows "(x + 1) div n = x div n \<or> (x + 1) div n = x div n + 1"
proof (cases "x + 1 < n * (x div n) + n")
  case True
  then show ?thesis using div_is [of n "x div n" "x + 1"] div_bounds [OF assms, of x] by simp
next
  case False
  then show ?thesis using div_is [of n "x div n + 1" "x + 1"] div_bounds [OF assms, of x] assms by (simp add: algebra_simps)
qed

section \<open>Years\<close>

lemma year_days_split: "year_days y = (y div 400) * 146097 + (y mod 400 * 365 + y mod 400 div 4 - y mod 400 div 100)"
proof -
  have "y = 400 * (y div 400) + y mod 400" by simp
  then obtain e r where y: "y = 400 * e + r" and r: "0 \<le> r" "r < 400" by (metis pos_mod_bound pos_mod_sign zero_less_numeral)
  have "y div 400 = e" "y mod 400 = r" using y r by simp_all
  moreover have "y div 4 = 100 * e + r div 4" "y div 100 = 4 * e + r div 100" using y by simp_all
  ultimately show ?thesis using y by (simp add: year_days_def)
qed

lemma year_days_leaps: "year_days y = 365 * y + y div 4 - y div 4 div 25 + y div 4 div 25 div 4"
  using zdiv_zmult2_eq [of 25 y 4] zdiv_zmult2_eq [of 4 "y div 4 div 25" 1] zdiv_zmult2_eq [of 4 y 100] by (simp add: year_days_def)

lemma year_length: "year_days y + 365 \<le> year_days (y + 1) \<and> year_days (y + 1) \<le> year_days y + 366"
proof -
  define a b c where "a = y div 4" and "b = y div 4 div 25" and "c = y div 4 div 25 div 4"
  define a' b' c' where "a' = (y + 1) div 4" and "b' = (y + 1) div 4 div 25" and "c' = (y + 1) div 4 div 25 div 4"
  have "a' = a \<or> a' = a + 1" unfolding a_def a'_def by (rule div_step) simp
  moreover have "a' = a \<Longrightarrow> b' = b" "b' = b \<Longrightarrow> c' = c" by (simp_all only: a_def a'_def b_def b'_def c_def c'_def)
  moreover have "a' = a + 1 \<Longrightarrow> b' = b \<or> b' = b + 1"
    using div_step [of 25 a] unfolding b_def b'_def a_def [symmetric] a'_def [symmetric] by simp
  moreover have "b' = b + 1 \<Longrightarrow> c' = c \<or> c' = c + 1"
    using div_step [of 4 b] unfolding c_def c'_def b_def [symmetric] b'_def [symmetric] by simp
  moreover have "year_days y = 365 * y + a - b + c" "year_days (y + 1) = 365 * (y + 1) + a' - b' + c'"
    by (simp_all only: year_days_leaps a_def b_def c_def a'_def b'_def c'_def)
  ultimately show ?thesis by auto
qed

lemmas year_at_least = year_length [THEN conjunct1] and year_at_most = year_length [THEN conjunct2]

lemma year_days_mono: "x \<le> y \<Longrightarrow> year_days x \<le> year_days y"
proof (induction "nat (y - x)" arbitrary: y)
  case (Suc n)
  then have "year_days x \<le> year_days (y - 1)" by simp
  then show ?case using year_at_least [of "y - 1"] by simp
qed simp

lemma year_days_0 [simp]: "year_days 0 = 0" and year_days_400: "year_days 400 = 146097"
  by (simp_all add: year_days_def)

lemma year_days_era: "year_days (y + era * 400) = era * 146097 + year_days y"
proof -
  have "(y + era * 400) div 4 = era * 100 + y div 4" by - (rule div_is; use div_bounds [of 4 y, OF zero_less_numeral] in \<open>simp add: algebra_simps\<close>)
  moreover have "(y + era * 400) div 100 = era * 4 + y div 100" by - (rule div_is; use div_bounds [of 100 y, OF zero_less_numeral] in \<open>simp add: algebra_simps\<close>)
  moreover have "(y + era * 400) div 400 = era + y div 400" by - (rule div_is; use div_bounds [of 400 y, OF zero_less_numeral] in \<open>simp add: algebra_simps\<close>)
  ultimately show ?thesis by (simp add: year_days_def algebra_simps)
qed

lemma days_from_civil_year:
  "days_from_civil y m d = year_days (if m \<le> 2 then y - 1 else y)
     + ((153 * (if m > 2 then m - 3 else m + 9) + 2) div 5 + d - 1) - 719468"
  by (simp add: days_from_civil_def Let_def year_days_split)

text \<open>The day of an era as the calendar divides it: whole years before it.\<close>

definition era_years :: "int \<Rightarrow> int" where
  "era_years doe = (doe - doe div 1460 + doe div 36524 - doe div 146096) div 365"

lemma era_count_mono:
  fixes a b :: int
  assumes "0 \<le> a" "a \<le> b" "b < 146097"
  shows "a - a div 1460 + a div 36524 - a div 146096 \<le> b - b div 1460 + b div 36524 - b div 146096"
proof -
  have "b div 1460 - a div 1460 \<le> b - a"
    using div_bounds [of 1460 a, OF zero_less_numeral] div_bounds [of 1460 b, OF zero_less_numeral] assms(2) by linarith
  moreover have "a div 36524 - a div 146096 \<le> b div 36524 - b div 146096"
  proof (cases "b = 146096")
    case True
    then show ?thesis
      using assms div_bounds [of 36524 a, OF zero_less_numeral] div_is [of 146096 0 a] by (cases "a = b") simp_all
  next
    case False
    then show ?thesis
      using assms zdiv_mono1 [OF assms(2), of 36524] div_is [of 146096 0 a] div_is [of 146096 0 b] by simp
  qed
  ultimately show ?thesis by linarith
qed

text \<open>A year of an era as centuries, leap cycles and years.\<close>

lemma era_year_parts:
  fixes y :: int
  assumes "0 \<le> y" "y < 400"
  obtains c q s where "y = 100 * c + 4 * q + s" "0 \<le> c" "c \<le> 3" "0 \<le> q" "q \<le> 24" "0 \<le> s" "s \<le> 3"
    "year_days y = 36524 * c + 1461 * q + 365 * s"
proof
  let ?c = "y div 100" and ?q = "y mod 100 div 4" and ?s = "y mod 100 mod 4"
  show y: "y = 100 * ?c + 4 * ?q + ?s" by (simp only: add.assoc mult_div_mod_eq)
  show b: "0 \<le> ?c" "?c \<le> 3" "0 \<le> ?q" "?q \<le> 24" "0 \<le> ?s" "?s \<le> 3"
    using assms div_bounds [of 100 y, OF zero_less_numeral] div_bounds [of 4 "y mod 100", OF zero_less_numeral] pos_mod_bound [of 100 y] pos_mod_sign [of 100 y]
      pos_mod_bound [of 4 "y mod 100"] pos_mod_sign [of 4 "y mod 100"] by linarith+
  have "4 * (25 * ?c + ?q) = 100 * ?c + 4 * ?q" by simp
  then have "y div 4 = 25 * ?c + ?q" by - (rule div_is; use y b in linarith)
  moreover have "y div 400 = 0" using assms by (simp add: div_pos_pos_trivial)
  ultimately show "year_days y = 36524 * ?c + 1461 * ?q + 365 * ?s" unfolding year_days_def using y by linarith
qed

lemma era_count_year:
  fixes y :: int
  assumes "0 \<le> y" "y < 400"
  shows "(let x = year_days y in x - x div 1460 + x div 36524 - x div 146096) = 365 * y"
proof -
  obtain c q s where p: "y = 100 * c + 4 * q + s" "0 \<le> c" "c \<le> 3" "0 \<le> q" "q \<le> 24" "0 \<le> s" "s \<le> 3"
    and x: "year_days y = 36524 * c + 1461 * q + 365 * s"
    using era_year_parts [OF assms] by blast
  have "year_days y div 1460 = 25 * c + q" "year_days y div 36524 = c" "year_days y div 146096 = 0"
    by - (rule div_is; use p x in \<open>simp add: algebra_simps\<close>)+
  then show ?thesis using x p(1) by (simp add: Let_def)
qed

lemma era_count_year_end:
  fixes y :: int
  assumes "0 < y" "y \<le> 400"
  shows "(let x = year_days y - 1 in x - x div 1460 + x div 36524 - x div 146096) < 365 * y"
proof (cases "y = 400")
  case False
  obtain c q s where p: "y = 100 * c + 4 * q + s" "0 \<le> c" "c \<le> 3" "0 \<le> q" "q \<le> 24" "0 \<le> s" "s \<le> 3"
    and x: "year_days y = 36524 * c + 1461 * q + 365 * s"
    using era_year_parts [of y] assms False by auto
  have "year_days y - 1 \<ge> 1460 * (25 * c + q)" using p x assms(1) by (simp add: algebra_simps)
  then have "25 * c + q \<le> (year_days y - 1) div 1460" using zdiv_mono1 [of "1460 * (25 * c + q)" "year_days y - 1" 1460] by simp
  moreover have "(year_days y - 1) div 36524 \<le> c"
    using zdiv_mono1 [of "year_days y - 1" "year_days y" 36524] div_is(1) [of 36524 c "year_days y"] p x by linarith
  moreover have "0 \<le> (year_days y - 1) div 146096" using p x assms(1) by (simp add: pos_imp_zdiv_nonneg_iff)
  ultimately show ?thesis using x p(1) by (simp add: Let_def)
qed (simp add: year_days_def)

lemma era_years:
  assumes "0 \<le> doe" "doe < 146097"
  shows "0 \<le> era_years doe" "era_years doe < 400" "year_days (era_years doe) \<le> doe" "doe < year_days (era_years doe + 1)"
proof -
  let ?f = "\<lambda>x :: int. x - x div 1460 + x div 36524 - x div 146096"
  have f0: "0 \<le> ?f doe" using era_count_mono [of 0 doe] assms by simp
  have f1: "?f doe \<le> ?f 146096" using era_count_mono [of doe 146096] assms by simp
  show lo: "0 \<le> era_years doe" using f0 by (simp add: era_years_def)
  show hi: "era_years doe < 400" using f1 by (simp add: era_years_def)
  have b: "365 * era_years doe \<le> ?f doe" "?f doe < 365 * (era_years doe + 1)"
    unfolding era_years_def using div_bounds [of 365 "?f doe", OF zero_less_numeral] by simp_all
  show "year_days (era_years doe) \<le> doe"
  proof (rule ccontr)
    assume "\<not> ?thesis"
    then have less: "doe \<le> year_days (era_years doe) - 1" by simp
    then have pos: "0 < era_years doe" using assms(1) lo by (cases "era_years doe = 0") (simp_all add: year_days_def)
    have "year_days (era_years doe) - 1 < 146097" using year_days_mono [of "era_years doe" 400] hi by (simp add: year_days_400)
    from era_count_mono [OF assms(1) less this] era_count_year_end [OF pos] hi b(1) show False by (simp add: Let_def)
  qed
  show "doe < year_days (era_years doe + 1)"
  proof (rule ccontr)
    assume "\<not> ?thesis"
    then have more: "year_days (era_years doe + 1) \<le> doe" by simp
    then have "era_years doe + 1 < 400" using hi assms(2) by (cases "era_years doe + 1 = 400") (simp_all add: year_days_400)
    then have "?f (year_days (era_years doe + 1)) = 365 * (era_years doe + 1)"
      using era_count_year [of "era_years doe + 1"] lo unfolding Let_def by linarith
    moreover have "0 \<le> year_days (era_years doe + 1)" using year_days_mono [of 0 "era_years doe + 1"] lo by simp
    ultimately show False using era_count_mono [OF _ more assms(2)] b(2) by linarith
  qed
qed

section \<open>Months\<close>

lemma month_start_year:
  "month_start k = year_days ((k - 2) div 12) + (153 * ((k - 2) mod 12) + 2) div 5 - 719468"
proof -
  define q r where "q = k div 12" and "r = k mod 12"
  have k: "k = 12 * q + r" and r: "0 \<le> r" "r < 12" by (simp_all add: q_def r_def)
  show ?thesis
  proof (cases "r < 2")
    case True
    have "(k - 2) div 12 = q - 1" "(k - 2) mod 12 = k - 2 - 12 * (q - 1)"
      by - (rule div_is; use k r True in \<open>simp add: algebra_simps\<close>)+
    then have parts: "(k - 2) div 12 = q - 1" "(k - 2) mod 12 = r + 10" using k by simp_all
    show ?thesis using True unfolding month_start_def days_from_civil_year parts q_def [symmetric] r_def [symmetric]
      by (simp add: parts)
  next
    case False
    have "(k - 2) div 12 = q" "(k - 2) mod 12 = k - 2 - 12 * q"
      by - (rule div_is; use k r False in \<open>simp add: algebra_simps\<close>)+
    then have parts: "(k - 2) div 12 = q" "(k - 2) mod 12 = r - 2" using k by simp_all
    show ?thesis using False unfolding month_start_def days_from_civil_year parts q_def [symmetric] r_def [symmetric]
      by (simp add: parts)
  qed
qed

lemma months_ahead:
  fixes k :: int
  shows "(k mod 12 = 11 \<and> (k + 1) div 12 = k div 12 + 1 \<and> (k + 1) mod 12 = 0) \<or>
    (k mod 12 < 11 \<and> (k + 1) div 12 = k div 12 \<and> (k + 1) mod 12 = k mod 12 + 1)"
proof -
  define q r where "q = k div 12" and "r = k mod 12"
  have k: "k = 12 * q + r" and r: "0 \<le> r" "r < 12" by (simp_all add: q_def r_def)
  show ?thesis
  proof (cases "r = 11")
    case True
    have "(k + 1) div 12 = q + 1" "(k + 1) mod 12 = k + 1 - 12 * (q + 1)" by - (rule div_is; use k True in \<open>simp add: algebra_simps\<close>)+
    then show ?thesis using True k by (simp flip: q_def r_def)
  next
    case False
    have "(k + 1) div 12 = q" "(k + 1) mod 12 = k + 1 - 12 * q" by - (rule div_is; use k r False in \<open>simp add: algebra_simps\<close>)+
    then show ?thesis using False r k by (simp flip: q_def r_def)
  qed
qed

lemma month_ends: "(153 * m + 2) div 5 < (153 * (m + 1) + 2) div (5 :: int)"
  using zdiv_mono1 [of "153 * m + 2 + 5" "153 * (m + 1) + 2" 5] div_add_self2 [of 5 "153 * m + 2"] by simp

lemma month_start_step: "month_start k < month_start (k + 1)"
  using months_ahead [of "k - 2"] year_at_least [of "(k - 2) div 12"] month_ends [of "(k - 2) mod 12"]
  unfolding month_start_year by (auto simp: algebra_simps)

lemma month_start_mono: "j \<le> k \<Longrightarrow> month_start j \<le> month_start k"
proof (induction "nat (k - j)" arbitrary: k)
  case (Suc n)
  then have "month_start j \<le> month_start (k - 1)" by simp
  then show ?case using month_start_step [of "k - 1"] by simp
qed simp

text \<open>The civil date of a day: it leads back to the day, and the day lies in its month.\<close>

lemma civil_from_days:
  assumes "civil_from_days z = (y, m, d)"
  shows "days_from_civil y m d = z" "1 \<le> m" "m \<le> 12" "1 \<le> d"
    "month_start (12 * y + m - 1) \<le> z" "z < month_start (12 * y + m)"
proof -
  define doe era where "doe = (z + 719468) mod 146097" and "era = (z + 719468) div 146097"
  define yoe where "yoe = era_years doe"
  define doy where "doy = doe - (365 * yoe + yoe div 4 - yoe div 100)"
  define mp where "mp = (5 * doy + 2) div 153"
  have z: "z = era * 146097 + doe - 719468" by (simp add: doe_def era_def)
  have doe: "0 \<le> doe" "doe < 146097" by (simp_all add: doe_def)
  note yoe = era_years [OF doe, folded yoe_def]
  have start: "year_days yoe = 365 * yoe + yoe div 4 - yoe div 100" using yoe(1,2) by (simp add: year_days_def)
  have doy: "0 \<le> doy" "doy \<le> 365" using yoe(3,4) year_at_most [of yoe] by (simp_all add: doy_def start)
  have mp: "0 \<le> mp" "mp \<le> 11" and mpb: "153 * mp \<le> 5 * doy + 2" "5 * doy + 2 < 153 * mp + 153"
    using doy div_bounds [of 153 "5 * doy + 2", OF zero_less_numeral] unfolding mp_def by linarith+
  have "(yoe + era * 400 + (if (if mp < 10 then mp + 3 else mp - 9) \<le> 2 then 1 else 0),
      if mp < 10 then mp + 3 else mp - 9, doy - (153 * mp + 2) div 5 + 1) = (y, m, d)"
    using assms unfolding civil_from_days_def Let_def mp_def doy_def yoe_def doe_def era_def era_years_def .
  then have m: "m = (if mp < 10 then mp + 3 else mp - 9)" and d: "d = doy - (153 * mp + 2) div 5 + 1"
    and y: "y = yoe + era * 400 + (if m \<le> 2 then 1 else 0)"
    by blast+
  have era_year: "year_days (yoe + era * 400 + i) = era * 146097 + year_days (yoe + i)" for i
    using year_days_era [of "yoe + i" era] by (simp only: ac_simps)
  have day: "(153 * mp + 2) div 5 \<le> doy" using mpb(1) div_bounds(1) [of 5 "153 * mp + 2", OF zero_less_numeral] by linarith
  show "1 \<le> m" "m \<le> 12" using m mp by (simp_all split: if_splits)
  show "1 \<le> d" using d day by simp
  have march: "(if m \<le> 2 then y - 1 else y) = yoe + era * 400" "(if m > 2 then m - 3 else m + 9) = mp"
    using m y mp by (simp_all split: if_splits)
  have total: "era * 146097 + year_days yoe + doy - 719468 = z" using z by (simp add: doy_def start)
  show "days_from_civil y m d = z"
    unfolding days_from_civil_year march using era_year [of 0] total d by simp
  have place: "12 * y + m - 1 - 2 = 12 * (yoe + era * 400) + mp" using m y mp by (auto split: if_splits)
  then have idx: "(12 * y + m - 1 - 2) div 12 = yoe + era * 400" "(12 * y + m - 1 - 2) mod 12 = mp"
    using div_is [of 12 "yoe + era * 400" "12 * y + m - 1 - 2"] mp by simp_all
  show "month_start (12 * y + m - 1) \<le> z"
    unfolding month_start_year idx using era_year [of 0] total day by simp
  show "z < month_start (12 * y + m)"
  proof (cases "mp = 11")
    case True
    then have "(12 * y + m - 2) div 12 = yoe + era * 400 + 1" "(12 * y + m - 2) mod 12 = 0"
      using div_is [of 12 "yoe + era * 400 + 1" "12 * y + m - 2"] place by simp_all
    then show ?thesis unfolding month_start_year using era_year [of 1] z yoe(4) by simp
  next
    case False
    then have "(12 * y + m - 2) div 12 = yoe + era * 400" "(12 * y + m - 2) mod 12 = mp + 1"
      using div_is [of 12 "yoe + era * 400" "12 * y + m - 2"] place mp by simp_all
    moreover have "153 * (mp + 1) = 153 * mp + 153" by simp
    then have "doy < (153 * (mp + 1) + 2) div 5" using mpb(2) div_bounds(2) [of 5 "153 * (mp + 1) + 2", OF zero_less_numeral] by linarith
    ultimately show ?thesis unfolding month_start_year using era_year [of 0] total by simp
  qed
qed

lemma month_of_day: "month_start (month_index z) \<le> z" "z < month_start (month_index z + 1)"
  using civil_from_days [of z] by (cases "civil_from_days z"; simp add: month_index_def)+

lemma month_index_unique: "month_start k \<le> z \<Longrightarrow> z < month_start (k + 1) \<Longrightarrow> month_index z = k"
proof (rule ccontr)
  assume a: "month_start k \<le> z" "z < month_start (k + 1)" "month_index z \<noteq> k"
  then consider "month_index z + 1 \<le> k" | "k + 1 \<le> month_index z" by linarith
  then show False
    using month_of_day [of z] a(1,2) month_start_mono [of "month_index z + 1" k] month_start_mono [of "k + 1" "month_index z"]
    by cases simp_all
qed

lemma month_index_start [simp]: "month_index (month_start k) = k"
  by (rule month_index_unique) (simp_all add: month_start_step)

lemma utc_month_start: "utc_month_start y m = month_start (12 * y + m) * DAY_MS"
proof -
  have "(12 * y + m) div 12 = y + m div 12" "(12 * y + m) mod 12 = m mod 12" by simp_all
  then show ?thesis by (simp add: utc_month_start_def month_start_def)
qed

end
