(* ===== verification/Budget_Period.thy ===== *)
theory Budget_Period
  imports Calendar
begin

text \<open>
  The periods a budget is counted in (\<open>agents/budget-period.ts\<close>, and the calendar month of
  \<open>budgets/budget.service.ts\<close>), in milliseconds since the epoch. A period is right when it holds the instant
  it was asked for and every instant inside it gets the same period (\<open>period_ok\<close>): then no spend is counted
  twice or not at all.
\<close>

datatype interval_unit = Hour | Day | Week | Month | Unlimited

section \<open>The parts of a date\<close>

definition getUTCFullYear :: "int \<Rightarrow> int" where
  "getUTCFullYear ms = fst (civil_from_days (ms div DAY_MS))"

definition getUTCMonth :: "int \<Rightarrow> int" where
  "getUTCMonth ms = fst (snd (civil_from_days (ms div DAY_MS))) - 1"

definition getUTCDate :: "int \<Rightarrow> int" where
  "getUTCDate ms = snd (snd (civil_from_days (ms div DAY_MS)))"

definition HOUR_MS :: int where "HOUR_MS = 3600000"

definition startOfDayUTC :: "int \<Rightarrow> int" where
  "startOfDayUTC d = days_from_civil (getUTCFullYear d) (getUTCMonth d + 1) (getUTCDate d) * DAY_MS"

definition startOfHourUTC :: "int \<Rightarrow> int" where
  "startOfHourUTC d = startOfDayUTC d + d mod DAY_MS div HOUR_MS * HOUR_MS"

text \<open>\<open>getUTCDay\<close> counts from Sunday; the first of January 1970 was a Thursday.\<close>

definition getUTCDay :: "int \<Rightarrow> int" where
  "getUTCDay ms = (ms div DAY_MS + 4) mod 7"

definition startOfWeekUTC :: "int \<Rightarrow> int" where
  "startOfWeekUTC d = startOfDayUTC d - (getUTCDay d + 6) mod 7 * DAY_MS"

section \<open>The periods\<close>

definition slotted :: "int \<Rightarrow> int \<Rightarrow> int \<Rightarrow> int" where
  "slotted n count anchor = (if count = 1 then anchor else anchor div n div count * count * n)"

definition getCurrentPeriodStart :: "interval_unit \<Rightarrow> int \<Rightarrow> int \<Rightarrow> int" where
  "getCurrentPeriodStart unit now intervalCount =
     (let count = max 1 intervalCount in
      case unit of
        Unlimited \<Rightarrow> 0
      | Hour \<Rightarrow> slotted HOUR_MS count (startOfHourUTC now)
      | Day \<Rightarrow> slotted DAY_MS count (startOfDayUTC now)
      | Week \<Rightarrow> slotted (7 * DAY_MS) count (startOfWeekUTC now)
      | Month \<Rightarrow>
          (let slotIndex = ((getUTCFullYear now - 1970) * 12 + getUTCMonth now) div count * count
           in utc_month_start (1970 + slotIndex div 12) (slotIndex mod 12)))"

definition MAX_DATE :: int where "MAX_DATE = 8640000000000000"

definition getNextPeriodStart :: "interval_unit \<Rightarrow> int \<Rightarrow> int \<Rightarrow> int" where
  "getNextPeriodStart unit now intervalCount =
     (let start = getCurrentPeriodStart unit now intervalCount; count = max 1 intervalCount in
      case unit of
        Unlimited \<Rightarrow> MAX_DATE
      | Hour \<Rightarrow> start + count * HOUR_MS
      | Day \<Rightarrow> start + count * DAY_MS
      | Week \<Rightarrow> start + count * 7 * DAY_MS
      | Month \<Rightarrow> (let m = getUTCMonth start + count in utc_month_start (getUTCFullYear start + m div 12) (m mod 12)))"

definition isWithinCurrentPeriod :: "interval_unit \<Rightarrow> int \<Rightarrow> int \<Rightarrow> int \<Rightarrow> bool" where
  "isWithinCurrentPeriod unit at_time now intervalCount \<longleftrightarrow>
     getCurrentPeriodStart unit now intervalCount \<le> at_time \<and> at_time < getNextPeriodStart unit now intervalCount"

text \<open>The month of \<open>BudgetService\<close>.\<close>

definition month_period_start :: "int \<Rightarrow> int" where
  "month_period_start now = utc_month_start (getUTCFullYear now) (getUTCMonth now)"

definition next_month_period_start :: "int \<Rightarrow> int" where
  "next_month_period_start now = utc_month_start (getUTCFullYear now) (getUTCMonth now + 1)"

section \<open>The laws of a date\<close>

lemma civil_cases:
  obtains y m d where "civil_from_days (ms div DAY_MS) = (y, m, d)" "getUTCFullYear ms = y" "getUTCMonth ms = m - 1" "getUTCDate ms = d"
  by (cases "civil_from_days (ms div DAY_MS)") (simp add: getUTCFullYear_def getUTCMonth_def getUTCDate_def)

lemma startOfDayUTC: "startOfDayUTC ms = ms div DAY_MS * DAY_MS"
proof (rule civil_cases [of ms])
  fix y m d assume c: "civil_from_days (ms div DAY_MS) = (y, m, d)" "getUTCFullYear ms = y" "getUTCMonth ms = m - 1" "getUTCDate ms = d"
  then show ?thesis using civil_from_days(1) [OF c(1)] by (simp add: startOfDayUTC_def)
qed

lemma startOfHourUTC: "startOfHourUTC ms = ms div HOUR_MS * HOUR_MS"
proof -
  define day rest hour where "day = ms div DAY_MS" and "rest = ms mod DAY_MS" and "hour = rest div HOUR_MS"
  have "ms = 86400000 * day + rest" unfolding day_def rest_def DAY_MS_def by (rule mult_div_mod_eq [symmetric])
  moreover have "3600000 * hour \<le> rest" "rest < 3600000 * hour + 3600000"
    unfolding hour_def HOUR_MS_def by (rule div_bounds, simp)+
  ultimately have "3600000 * (24 * day + hour) \<le> ms" "ms < 3600000 * (24 * day + hour) + 3600000"
    unfolding distrib_left by linarith+
  then have "ms div 3600000 = 24 * day + hour" by (rule div_is)
  then show ?thesis
    unfolding startOfHourUTC_def startOfDayUTC day_def [symmetric] rest_def [symmetric] hour_def [symmetric]
    unfolding HOUR_MS_def DAY_MS_def by simp
qed

lemma month_of_instant: "12 * getUTCFullYear ms + getUTCMonth ms = month_index (ms div DAY_MS)"
  by (rule civil_cases [of ms]) (simp add: month_index_def)

lemma getUTCMonth_range: "0 \<le> getUTCMonth ms \<and> getUTCMonth ms < 12"
proof (rule civil_cases [of ms])
  fix y m d assume c: "civil_from_days (ms div DAY_MS) = (y, m, d)" "getUTCMonth ms = m - 1"
  show ?thesis using civil_from_days(2,3) [OF c(1)] by (simp add: c(2))
qed

lemma DAY_MS_pos [simp]: "0 < DAY_MS" and HOUR_MS_pos [simp]: "0 < HOUR_MS"
  by (simp_all add: DAY_MS_def HOUR_MS_def)

lemma at_slot: "0 < n \<Longrightarrow> k * n \<le> ms \<longleftrightarrow> k \<le> ms div n" for n k ms :: int
  using zdiv_mono1 [of "k * n" ms n] order_trans [OF mult_right_mono [of k "ms div n" n] div_bounds(1) [of n ms, unfolded mult.commute [of n]]]
  by auto

lemmas at_day_start = at_slot [OF DAY_MS_pos]

lemma before_day_start: "ms < k * DAY_MS \<longleftrightarrow> ms div DAY_MS < k"
  using at_day_start [of k ms] by linarith

lemma month_period_start: "month_period_start ms = month_start (month_index (ms div DAY_MS)) * DAY_MS"
  and next_month_period_start: "next_month_period_start ms = month_start (month_index (ms div DAY_MS) + 1) * DAY_MS"
  by (simp_all add: month_period_start_def next_month_period_start_def utc_month_start flip: month_of_instant) (simp add: ac_simps)

section \<open>Which periods are right\<close>

text \<open>A period that holds its instant, and is the period of every instant it holds.\<close>

definition period_ok :: "(int \<Rightarrow> int) \<Rightarrow> (int \<Rightarrow> int) \<Rightarrow> int \<Rightarrow> bool" where
  "period_ok start nxt now \<longleftrightarrow> start now \<le> now \<and> now < nxt now \<and>
     (\<forall>t. start now \<le> t \<and> t < nxt now \<longrightarrow> start t = start now \<and> nxt t = nxt now)"

lemma period_ok_slots:
  fixes n :: int
  assumes "0 < n" "\<And>t. start t = t div n * n" "\<And>t. nxt t = start t + n"
  shows "period_ok start nxt now"
  unfolding period_ok_def
proof (intro conjI allI impI)
  show "start now \<le> now" "now < nxt now"
    using div_bounds [OF assms(1), of now] by (simp_all add: assms(2,3) mult.commute)
  fix t assume t: "start now \<le> t \<and> t < nxt now"
  then have "t div n = now div n" by - (rule div_is(1) [of n]; simp add: assms(2,3) mult.commute)
  then show "start t = start now" "nxt t = nxt now" by (simp_all add: assms(2,3))
qed

lemma period_ok_month: "period_ok month_period_start next_month_period_start now"
  unfolding period_ok_def month_period_start next_month_period_start at_day_start before_day_start
proof (intro conjI allI impI)
  fix t assume "month_start (month_index (now div DAY_MS)) \<le> t div DAY_MS \<and>
    t div DAY_MS < month_start (month_index (now div DAY_MS) + 1)"
  then have "month_index (t div DAY_MS) = month_index (now div DAY_MS)" by (auto intro: month_index_unique)
  then show "month_start (month_index (t div DAY_MS)) * DAY_MS = month_start (month_index (now div DAY_MS)) * DAY_MS"
    "month_start (month_index (t div DAY_MS) + 1) * DAY_MS = month_start (month_index (now div DAY_MS) + 1) * DAY_MS" by simp_all
qed (simp_all add: month_of_day)

text \<open>An aligned anchor: slots of any count are slots.\<close>

lemma slotted_slots:
  assumes "0 < n" "1 \<le> count" "anchor = t div n * n"
  shows "slotted n count anchor = t div (count * n) * (count * n)"
proof -
  have "anchor div n = t div n" using assms(1,3) by simp
  moreover have "t div n div count = t div (count * n)" using zdiv_zmult2_eq [of count t n] assms(2) by (simp add: mult.commute)
  ultimately show ?thesis using assms by (simp add: slotted_def)
qed

lemma utc_month_norm: "utc_month_start (y + m div 12) (m mod 12) = month_start (12 * y + m) * DAY_MS"
proof -
  have "12 * (y + m div 12) + m mod 12 = 12 * y + m" by simp
  then show ?thesis by (simp only: utc_month_start)
qed

lemma month_slot_start:
  "getCurrentPeriodStart Month now c =
     (let count = max 1 c; base = 12 * 1970 in
      month_start (base + (month_index (now div DAY_MS) - base) div count * count) * DAY_MS)"
proof -
  have "(getUTCFullYear now - 1970) * 12 + getUTCMonth now = month_index (now div DAY_MS) - 12 * 1970"
    using month_of_instant [of now] by simp
  then show ?thesis by (simp only: getCurrentPeriodStart_def Let_def utc_month_norm interval_unit.case)
qed

lemma start_of_month_index: "month_index (month_start k * DAY_MS div DAY_MS) = k"
  by (simp add: DAY_MS_def)

lemma month_slot_next:
  "getNextPeriodStart Month now c =
     (let count = max 1 c; base = 12 * 1970 in
      month_start (base + (month_index (now div DAY_MS) - base) div count * count + count) * DAY_MS)"
proof -
  let ?start = "getCurrentPeriodStart Month now c"
  have "12 * getUTCFullYear ?start + getUTCMonth ?start = 12 * 1970 + (month_index (now div DAY_MS) - 12 * 1970) div max 1 c * max 1 c"
    unfolding month_of_instant by (subst month_slot_start) (simp only: Let_def start_of_month_index)
  then show ?thesis
    by (simp only: getNextPeriodStart_def Let_def utc_month_norm interval_unit.case add.assoc [symmetric])
qed

lemma period_ok_month_slots:
  "period_ok (\<lambda>t. getCurrentPeriodStart Month t c) (\<lambda>t. getNextPeriodStart Month t c) now"
proof -
  define count where "count = max 1 c"
  define slot where "slot = (\<lambda>t. (month_index (t div DAY_MS) - 23640) div count)"
  have count: "0 < count" by (simp add: count_def)
  have start: "getCurrentPeriodStart Month t c = month_start (23640 + slot t * count) * DAY_MS"
    and nxt: "getNextPeriodStart Month t c = month_start (23640 + slot t * count + count) * DAY_MS" for t
    by (simp_all add: month_slot_start month_slot_next Let_def slot_def count_def)
  have within: "month_start (23640 + slot t * count) \<le> z \<and> z < month_start (23640 + slot t * count + count) \<longleftrightarrow>
      (month_index z - 23640) div count = slot t" for t z
  proof
    assume z: "month_start (23640 + slot t * count) \<le> z \<and> z < month_start (23640 + slot t * count + count)"
    then have "23640 + slot t * count \<le> month_index z" "month_index z < 23640 + slot t * count + count"
      using month_start_mono [of "month_index z + 1" "23640 + slot t * count"] month_of_day [of z]
        month_start_mono [of "23640 + slot t * count + count" "month_index z"] by force+
    then show "(month_index z - 23640) div count = slot t" by - (rule div_is(1); simp add: mult.commute)
  next
    assume "(month_index z - 23640) div count = slot t"
    then have "23640 + slot t * count \<le> month_index z" "month_index z + 1 \<le> 23640 + slot t * count + count"
      using div_bounds [OF count, of "month_index z - 23640"] by (simp_all add: mult.commute)
    then show "month_start (23640 + slot t * count) \<le> z \<and> z < month_start (23640 + slot t * count + count)"
      using month_start_mono month_of_day [of z] by (meson order_trans order_less_le_trans)
  qed
  have mine: "(month_index (t div DAY_MS) - 23640) div count = slot t" for t by (simp add: slot_def)
  show ?thesis
    unfolding period_ok_def start nxt at_day_start before_day_start
    using within [of now "now div DAY_MS"] within [of now] by (auto simp: mine)
qed

text \<open>Weeks begin on Monday, three days after the weeks of the epoch.\<close>

lemma startOfWeekUTC: "startOfWeekUTC ms = (ms + 3 * DAY_MS) div (7 * DAY_MS) * (7 * DAY_MS) - 3 * DAY_MS"
proof -
  define day where "day = ms div DAY_MS"
  have "(ms + 3 * DAY_MS) div DAY_MS = day + 3" by (simp add: day_def DAY_MS_def)
  then have week: "(ms + 3 * DAY_MS) div (7 * DAY_MS) = (day + 3) div 7"
    using zdiv_zmult2_eq [of 7 "ms + 3 * DAY_MS" DAY_MS] by (simp add: mult.commute)
  have "((day + 4) mod 7 + 6) mod 7 = (day + 3) mod 7"
    using mod_add_left_eq [of "day + 4" 7 6] mod_add_self2 [of "day + 3" 7] by (simp add: add.commute)
  then have "startOfWeekUTC ms = day * DAY_MS - (day + 3) mod 7 * DAY_MS"
    by (simp add: startOfWeekUTC_def startOfDayUTC getUTCDay_def day_def)
  moreover have "day - (day + 3) mod 7 = (day + 3) div 7 * 7 - 3" using mult_div_mod_eq [of 7 "day + 3"] by linarith
  ultimately have "startOfWeekUTC ms = ((day + 3) div 7 * 7 - 3) * DAY_MS" by (metis left_diff_distrib)
  then show ?thesis by (simp add: week left_diff_distrib mult.assoc)
qed

lemma period_ok_shift:
  assumes "period_ok start nxt (now + d)" "\<And>t. start' t = start (t + d) - d" "\<And>t. nxt' t = nxt (t + d) - d"
  shows "period_ok start' nxt' now"
  unfolding period_ok_def
proof (intro conjI allI impI)
  show "start' now \<le> now" "now < nxt' now" using assms(1) unfolding assms(2) [of now] assms(3) [of now] period_ok_def by linarith+
  fix t assume "start' now \<le> t \<and> t < nxt' now"
  then have "start (now + d) \<le> t + d \<and> t + d < nxt (now + d)" unfolding assms(2) [of now] assms(3) [of now] by linarith
  then have "start (t + d) = start (now + d) \<and> nxt (t + d) = nxt (now + d)" using assms(1) unfolding period_ok_def by blast
  then show "start' t = start' now" "nxt' t = nxt' now" by (simp_all only: assms(2) [of t] assms(3) [of t] assms(2) [of now] assms(3) [of now])
qed

text \<open>Every unit but weeks counts right for every count, and weeks for one.\<close>

lemma period_ok_units:
  assumes "unit \<noteq> Unlimited" "unit = Week \<Longrightarrow> c \<le> 1"
  shows "period_ok (\<lambda>t. getCurrentPeriodStart unit t c) (\<lambda>t. getNextPeriodStart unit t c) now"
proof (cases unit)
  case Hour
  show ?thesis
    by (rule period_ok_slots [of "max 1 c * HOUR_MS"])
      (simp_all add: Hour getCurrentPeriodStart_def getNextPeriodStart_def Let_def startOfHourUTC
        slotted_slots [OF HOUR_MS_pos])
next
  case Day
  show ?thesis
    by (rule period_ok_slots [of "max 1 c * DAY_MS"])
      (simp_all add: Day getCurrentPeriodStart_def getNextPeriodStart_def Let_def startOfDayUTC slotted_slots [OF DAY_MS_pos])
next
  case Week
  then have one: "max 1 c = 1" using assms(2) by simp
  let ?start = "\<lambda>t. t div (7 * DAY_MS) * (7 * DAY_MS)"
  have "period_ok ?start (\<lambda>t. ?start t + 7 * DAY_MS) (now + 3 * DAY_MS)" by (rule period_ok_slots [of "7 * DAY_MS"]) simp_all
  then show ?thesis
    by (rule period_ok_shift) (simp_all add: Week one getCurrentPeriodStart_def getNextPeriodStart_def Let_def startOfWeekUTC slotted_def)
next
  case Month
  then show ?thesis using period_ok_month_slots by simp
qed (use assms in simp)

text \<open>Several weeks do not: the weeks are counted from Monday and the period starts on a Thursday, so the
  last four days of the last week lie behind the end of the period they get.\<close>

lemma weeks_lose_their_end:
  assumes "2 \<le> c"
  shows "getNextPeriodStart Week (c * 7 * DAY_MS) c \<le> c * 7 * DAY_MS"
proof -
  have "(c * 7 * DAY_MS + 3 * DAY_MS) div (7 * DAY_MS) = c" by (rule div_is(1)) (auto simp: DAY_MS_def)
  then have "startOfWeekUTC (c * 7 * DAY_MS) = (7 * c - 3) * DAY_MS" by (simp only: startOfWeekUTC) (simp add: algebra_simps)
  moreover have "(7 * c - 3) * DAY_MS div (7 * DAY_MS) = c - 1"
    by (rule div_is(1)) (auto simp: DAY_MS_def)
  ultimately have "getCurrentPeriodStart Week (c * 7 * DAY_MS) c = 0"
    using assms by (simp add: getCurrentPeriodStart_def slotted_def div_pos_pos_trivial)
  then show ?thesis using assms by (simp add: getNextPeriodStart_def)
qed

end
