(* ===== verification/Fleet_Ceiling.thy ===== *)
theory Fleet_Ceiling
  imports Fleet_Calls Budget_Period
begin

text \<open>
  The daily ceilings on what models cost on a computer and on the whole fleet of an owner
  (\<open>fleet/fleet-cost-ceiling.service.ts\<close>, its shared helpers and its two compare-and-sets). After each
  completion the day's stamped cost is summed; at the ceiling, or when it cannot be told, the computer is
  disabled and its claims go back to the queue, and the first trip of a day files one notice. Failing
  database calls, the Inbox and the writes of other callers are arguments (\<open>ceiling_env\<close>). Of a notice the
  model keeps what its text is composed from.
\<close>

section \<open>Rows, verdicts and notices\<close>

record cost_policy =
  cp_dailyCeilingCents :: "int option"
  cp_trippedOn :: "string option"
  cp_trippedAt :: "int option"

record ceiling_completion =
  cc_userId :: string
  cc_nodeId :: "string option"
  cc_jobId :: string
  cc_costCents :: "int option"
  cc_runId :: "string option"
  cc_taskId :: "string option"
  cc_agentId :: "string option"
  cc_workId :: "string option"
  cc_organizationId :: "string option"

datatype ceiling_outcome = NoCeiling | UnderCeiling | Crossed | Unevaluable

record scope_verdict =
  sv_ceilingCents :: "int option"
  sv_spendCents :: "int option"
  sv_outcome :: ceiling_outcome
  sv_reason :: "string option"

record ceiling_verdict =
  cv_day :: string
  cv_node :: scope_verdict
  cv_fleet :: scope_verdict
  cv_drainedNodeIds :: "string list"
  cv_noticesFiled :: nat

definition NONE :: scope_verdict where
  "NONE = \<lparr>sv_ceilingCents = None, sv_spendCents = None, sv_outcome = NoCeiling, sv_reason = None\<rparr>"

datatype notice_scope = NodeNotice string | FleetNotice string

record notice =
  no_scope :: notice_scope
  no_day :: string
  no_name :: string
  no_verdict :: scope_verdict
  no_drainedCount :: nat
  no_billedTo :: "string option"
  no_completion :: ceiling_completion

record cost_world =
  cw_fleet :: fleet
  cw_policies :: "(string \<times> cost_policy) list"
  cw_notices :: "notice list"

section \<open>The outside of an evaluation\<close>

datatype spend_read = SpendThrows string | SpendNotANumber | SpendReads int
datatype lookup_read = LookupReads | NodeLookupThrows string | PolicyLookupThrows string
datatype inbox_port = NoInbox | InboxThrows | InboxTakes
datatype ceiling_moment = BeforeDisable string | BeforeRelease string | BeforeNodeTrip | BeforeFleetTrip

record ceiling_env =
  ce_now :: int
  ce_fleet :: fleet_env
  ce_defaultNodeCeiling :: "int option"
  ce_defaultFleetCeiling :: "int option"
  ce_lookup :: lookup_read
  ce_nodeSum :: "int \<Rightarrow> spend_read"
  ce_userSum :: "int \<Rightarrow> spend_read"
  ce_listFails :: bool
  ce_disableFails :: "string \<Rightarrow> bool"
  ce_releaseFails :: "string \<Rightarrow> bool"
  ce_nodeTripFails :: bool
  ce_fleetTripFails :: bool
  ce_inbox :: inbox_port
  ce_rivals :: "ceiling_moment \<Rightarrow> cost_world \<Rightarrow> cost_world"

definition on_nodes :: "(node_table \<Rightarrow> 'a \<times> node_table) \<Rightarrow> cost_world \<Rightarrow> 'a \<times> cost_world" where
  "on_nodes f W = (let (a, T) = f (fl_nodes (cw_fleet W)) in (a, W\<lparr>cw_fleet := cw_fleet W\<lparr>fl_nodes := T\<rparr>\<rparr>))"

section \<open>Ceilings\<close>

definition FLEET_MAX_DAILY_COST_CEILING_CENTS :: int where
  "FLEET_MAX_DAILY_COST_CEILING_CENTS = 100000 * 100"

text \<open>Refused rather than clamped: the outer option is the exception.\<close>

fun normalizeDailyCeilingCents :: "json \<Rightarrow> int option option" where
  "normalizeDailyCeilingCents JNull = Some None"
| "normalizeDailyCeilingCents JUndef = Some None"
| "normalizeDailyCeilingCents (JNum (Fin q)) =
     (if of_int \<lfloor>q\<rfloor> = q \<and> 1 \<le> \<lfloor>q\<rfloor> \<and> \<lfloor>q\<rfloor> \<le> FLEET_MAX_DAILY_COST_CEILING_CENTS then Some (Some \<lfloor>q\<rfloor>) else None)"
| "normalizeDailyCeilingCents _ = None"

definition utcDay :: "int \<Rightarrow> string" where "utcDay now = iso_date now"
definition utcDayStart :: "int \<Rightarrow> int" where "utcDayStart now = startOfDayUTC now"

section \<open>The policy of an owner\<close>

definition ensureForUser :: "string \<Rightarrow> (string \<times> cost_policy) list \<Rightarrow> (string \<times> cost_policy) list" where
  "ensureForUser userId T = (case map_of T userId of
     Some _ \<Rightarrow> T
   | None \<Rightarrow> AList.update userId \<lparr>cp_dailyCeilingCents = None, cp_trippedOn = None, cp_trippedAt = None\<rparr> T)"

definition upsertCeiling :: "string \<Rightarrow> int option \<Rightarrow> (string \<times> cost_policy) list \<Rightarrow> (string \<times> cost_policy) list" where
  "upsertCeiling userId cents T =
     AList.update userId \<lparr>cp_dailyCeilingCents = cents, cp_trippedOn = None, cp_trippedAt = None\<rparr> (ensureForUser userId T)"

text \<open>The two conditional updates of a trip: a row that never tripped, then a row that tripped on another day.\<close>

definition casTrip :: "string \<Rightarrow> string \<Rightarrow> int \<Rightarrow> (string \<times> cost_policy) list \<Rightarrow> bool \<times> (string \<times> cost_policy) list" where
  "casTrip userId day at_time T0 =
     (let T = ensureForUser userId T0; row = the (map_of T userId);
          tripped = AList.update userId (row\<lparr>cp_trippedOn := Some day, cp_trippedAt := Some at_time\<rparr>) T in
      case cp_trippedOn row of
        None \<Rightarrow> (True, tripped)
      | Some d \<Rightarrow> if d \<noteq> day then (True, tripped) else (False, T))"

definition casTripDailyCeiling :: "string \<Rightarrow> string \<Rightarrow> node_table \<Rightarrow> bool \<times> node_table" where
  "casTripDailyCeiling nodeId day T = (case map_of T nodeId of
     None \<Rightarrow> (False, T)
   | Some row \<Rightarrow>
      let tripped = AList.update nodeId (row\<lparr>fn_dailyCostTrippedOn := Some day\<rparr>) T in
      case fn_dailyCostTrippedOn row of
        None \<Rightarrow> (True, tripped)
      | Some d \<Rightarrow> if d \<noteq> day then (True, tripped) else (False, T))"

section \<open>Settings\<close>

datatype ceiling_source = FromOwner | FromDefault | FromNone

record ceiling_view =
  cview_dailyCeilingCents :: "int option"
  cview_effectiveDailyCeilingCents :: "int option"
  cview_source :: ceiling_source
  cview_trippedOn :: "string option"
  cview_todaySpendCents :: int
  cview_day :: string

definition effective_ceiling :: "int option \<Rightarrow> int option \<Rightarrow> int option" where
  "effective_ceiling own fallback = (case own of Some c \<Rightarrow> Some c | None \<Rightarrow> fallback)"

definition describeForUser :: "ceiling_env \<Rightarrow> string \<Rightarrow> cost_world \<Rightarrow> ceiling_view" where
  "describeForUser env userId W =
     (let policy = map_of (cw_policies W) userId;
          owned = (case policy of Some p \<Rightarrow> cp_dailyCeilingCents p | None \<Rightarrow> None);
          fallback = ce_defaultFleetCeiling env
      in \<lparr>cview_dailyCeilingCents = owned, cview_effectiveDailyCeilingCents = effective_ceiling owned fallback,
          cview_source = (if owned \<noteq> None then FromOwner else if fallback \<noteq> None then FromDefault else FromNone),
          cview_trippedOn = (case policy of Some p \<Rightarrow> cp_trippedOn p | None \<Rightarrow> None),
          cview_todaySpendCents = sumCostCentsForUserSince userId (utcDayStart (ce_now env)) (fl_jobs (cw_fleet W)),
          cview_day = utcDay (ce_now env)\<rparr>)"

definition setFleetCeilingForUser :: "ceiling_env \<Rightarrow> string \<Rightarrow> json \<Rightarrow> cost_world \<Rightarrow> ceiling_view option \<times> cost_world" where
  "setFleetCeilingForUser env userId cents W = (case normalizeDailyCeilingCents cents of
     None \<Rightarrow> (None, W)
   | Some c \<Rightarrow> let W' = W\<lparr>cw_policies := upsertCeiling userId c (cw_policies W)\<rparr> in (Some (describeForUser env userId W'), W'))"

definition owned_node :: "string \<Rightarrow> string \<Rightarrow> node_table \<Rightarrow> fleet_node option" where
  "owned_node userId nodeId T = (case map_of T nodeId of
     Some node \<Rightarrow> if fn_userId node = userId then Some node else None | None \<Rightarrow> None)"

definition setDailyCostCeilingForUser :: "string \<Rightarrow> string \<Rightarrow> json \<Rightarrow> cost_world \<Rightarrow> bool \<times> cost_world" where
  "setDailyCostCeilingForUser userId nodeId cents W = (case normalizeDailyCeilingCents cents of
     None \<Rightarrow> (False, W)
   | Some c \<Rightarrow> on_nodes (\<lambda>T. case owned_node userId nodeId T of
        None \<Rightarrow> (False, T)
      | Some node \<Rightarrow> (True, AList.update nodeId (node\<lparr>fn_dailyCostCeilingCents := c, fn_dailyCostTrippedOn := None\<rparr>) T)) W)"

text \<open>\<open>setDisabledForUser\<close>, without its audit row: refused for a node of somebody else.\<close>

definition setDisabledForUser :: "string \<Rightarrow> string \<Rightarrow> bool \<Rightarrow> node_table \<Rightarrow> bool \<times> node_table" where
  "setDisabledForUser userId nodeId disabled T = (case owned_node userId nodeId T of
     None \<Rightarrow> (False, T)
   | Some node \<Rightarrow> (True, AList.update nodeId (node\<lparr>fn_status := (if disabled then Disabled else Offline)\<rparr>) T))"

section \<open>The evaluation of a scope\<close>

definition unevaluable :: "int \<Rightarrow> string \<Rightarrow> scope_verdict" where
  "unevaluable cents reason = \<lparr>sv_ceilingCents = Some cents, sv_spendCents = None, sv_outcome = Unevaluable, sv_reason = Some reason\<rparr>"

definition evaluateScope :: "int \<Rightarrow> int option \<Rightarrow> spend_read \<Rightarrow> scope_verdict" where
  "evaluateScope cents cost reading = (case cost of
     None \<Rightarrow> unevaluable cents ''the CLI reported no price for this run, so its spend cannot be counted''
   | Some _ \<Rightarrow> (case reading of
        SpendThrows e \<Rightarrow> unevaluable cents (''the daily spend lookup failed: '' @ e)
      | SpendNotANumber \<Rightarrow> unevaluable cents ''the daily spend sum is not a number''
      | SpendReads spend \<Rightarrow> \<lparr>sv_ceilingCents = Some cents, sv_spendCents = Some spend,
          sv_outcome = (if cents \<le> spend then Crossed else UnderCeiling), sv_reason = None\<rparr>))"

definition tripped :: "scope_verdict \<Rightarrow> bool" where
  "tripped sv \<longleftrightarrow> sv_outcome sv = Crossed \<or> sv_outcome sv = Unevaluable"

section \<open>Draining\<close>

definition drain :: "ceiling_env \<Rightarrow> string \<Rightarrow> string \<Rightarrow> ceiling_verdict \<times> cost_world \<Rightarrow> ceiling_verdict \<times> cost_world" where
  "drain env userId nodeId = (\<lambda>(v, W0).
     let W1 = ce_rivals env (BeforeDisable nodeId) W0 in
     if ce_disableFails env nodeId then (v, W1)
     else case on_nodes (setDisabledForUser userId nodeId True) W1 of
       (False, W2) \<Rightarrow> (v, W2)
     | (True, W2) \<Rightarrow>
        let W3 = ce_rivals env (BeforeRelease nodeId) W2 in
        if ce_releaseFails env nodeId then (v, W3)
        else (if nodeId \<in> set (cv_drainedNodeIds v) then v else v\<lparr>cv_drainedNodeIds := cv_drainedNodeIds v @ [nodeId]\<rparr>,
              W3\<lparr>cw_fleet := snd (drainNode (ce_fleet env) userId nodeId (cw_fleet W3))\<rparr>))"

definition notify :: "ceiling_env \<Rightarrow> notice \<Rightarrow> ceiling_verdict \<times> cost_world \<Rightarrow> ceiling_verdict \<times> cost_world" where
  "notify env n = (\<lambda>(v, W). case ce_inbox env of
     InboxTakes \<Rightarrow> (v\<lparr>cv_noticesFiled := cv_noticesFiled v + 1\<rparr>, W\<lparr>cw_notices := cw_notices W @ [n]\<rparr>)
   | _ \<Rightarrow> (v, W))"

text \<open>\<open>tripNode\<close>: the node's name and billing identity are those of the row that was read, if one was.\<close>

definition tripNode ::
  "ceiling_env \<Rightarrow> ceiling_completion \<Rightarrow> string \<Rightarrow> string \<Rightarrow> string option \<Rightarrow> ceiling_verdict \<times> cost_world \<Rightarrow> ceiling_verdict \<times> cost_world" where
  "tripNode env inp nodeId name billedTo vW =
     (let (v, W0) = drain env (cc_userId inp) nodeId vW;
          W = ce_rivals env BeforeNodeTrip W0
      in if ce_nodeTripFails env then (v, W)
         else case on_nodes (casTripDailyCeiling nodeId (cv_day v)) W of
           (False, W') \<Rightarrow> (v, W')
         | (True, W') \<Rightarrow> notify env
             \<lparr>no_scope = NodeNotice nodeId, no_day = cv_day v, no_name = name, no_verdict = cv_node v, no_drainedCount = 1,
              no_billedTo = billedTo, no_completion = inp\<rparr> (v, W'))"

definition fleet_targets :: "string \<Rightarrow> node_table \<Rightarrow> string list" where
  "fleet_targets userId T = map fst (filter (\<lambda>(i, node). fn_userId node = userId \<and> fn_status node \<noteq> Enrolling) T)"

definition reporting_node :: "ceiling_completion \<Rightarrow> string list" where
  "reporting_node inp = (case cc_nodeId inp of Some n \<Rightarrow> if n = [] then [] else [n] | None \<Rightarrow> [])"

definition tripFleet :: "ceiling_env \<Rightarrow> ceiling_completion \<Rightarrow> ceiling_verdict \<times> cost_world \<Rightarrow> ceiling_verdict \<times> cost_world" where
  "tripFleet env inp vW =
     (let targets = (if ce_listFails env then reporting_node inp else fleet_targets (cc_userId inp) (fl_nodes (cw_fleet (snd vW))));
          (v, W0) = fold (drain env (cc_userId inp)) targets vW;
          W = ce_rivals env BeforeFleetTrip W0
      in if ce_fleetTripFails env then (v, W)
         else case casTrip (cc_userId inp) (cv_day v) (ce_now env) (cw_policies W) of
           (False, T) \<Rightarrow> (v, W\<lparr>cw_policies := T\<rparr>)
         | (True, T) \<Rightarrow> notify env
             \<lparr>no_scope = FleetNotice (cc_userId inp), no_day = cv_day v, no_name = [], no_verdict = cv_fleet v,
              no_drainedCount = length (cv_drainedNodeIds v), no_billedTo = None, no_completion = inp\<rparr>
             (v, W\<lparr>cw_policies := T\<rparr>))"

section \<open>The evaluation\<close>

definition node_name :: "string \<Rightarrow> fleet_node \<Rightarrow> string" where
  "node_name nodeId node = (case fn_name node of Some s \<Rightarrow> s | None \<Rightarrow> nodeId)"

text \<open>The node that reported, when it is the owner's.\<close>

definition reported_by :: "ceiling_completion \<Rightarrow> node_table \<Rightarrow> (string \<times> fleet_node) option" where
  "reported_by inp T = (case reporting_node inp of
     [] \<Rightarrow> None | n # _ \<Rightarrow> map_option (Pair n) (owned_node (cc_userId inp) n T))"

definition node_ceiling :: "ceiling_env \<Rightarrow> (string \<times> fleet_node) option \<Rightarrow> int option" where
  "node_ceiling env node = (case node of
     None \<Rightarrow> None | Some (_, row) \<Rightarrow> effective_ceiling (fn_dailyCostCeilingCents row) (ce_defaultNodeCeiling env))"

definition fleet_ceiling :: "ceiling_env \<Rightarrow> string \<Rightarrow> (string \<times> cost_policy) list \<Rightarrow> int option" where
  "fleet_ceiling env userId T =
     effective_ceiling (case map_of T userId of Some p \<Rightarrow> cp_dailyCeilingCents p | None \<Rightarrow> None) (ce_defaultFleetCeiling env)"

definition lookup_failed :: "ceiling_env \<Rightarrow> ceiling_completion \<Rightarrow> (string \<times> fleet_node) option \<Rightarrow> string \<Rightarrow>
    ceiling_verdict \<times> cost_world \<Rightarrow> ceiling_verdict \<times> cost_world" where
  "lookup_failed env inp node e vW =
     (let v = (fst vW)\<lparr>cv_node := \<lparr>sv_ceilingCents = None, sv_spendCents = None, sv_outcome = Unevaluable,
                 sv_reason = Some (''ceiling lookup failed: '' @ e)\<rparr>\<rparr> in
      case reporting_node inp of
        [] \<Rightarrow> (v, snd vW)
      | n # _ \<Rightarrow> (case node of
          Some (_, row) \<Rightarrow> tripNode env inp n (node_name n row) (fn_modelIdentity row) (v, snd vW)
        | None \<Rightarrow> tripNode env inp n n None (v, snd vW)))"

definition scope_verdict_of :: "int option \<Rightarrow> int option \<Rightarrow> spend_read \<Rightarrow> scope_verdict" where
  "scope_verdict_of cents cost reading = (case cents of None \<Rightarrow> NONE | Some c \<Rightarrow> evaluateScope c cost reading)"

definition node_verdict :: "ceiling_env \<Rightarrow> ceiling_completion \<Rightarrow> (string \<times> fleet_node) option \<Rightarrow> job_table \<Rightarrow> scope_verdict" where
  "node_verdict env inp node jobs = (case node of None \<Rightarrow> NONE
     | Some (n, _) \<Rightarrow> scope_verdict_of (node_ceiling env node) (cc_costCents inp)
         (ce_nodeSum env (sumCostCentsForNodeSince n (utcDayStart (ce_now env)) jobs)))"

definition fleet_verdict :: "ceiling_env \<Rightarrow> ceiling_completion \<Rightarrow> (string \<times> cost_policy) list \<Rightarrow> job_table \<Rightarrow> scope_verdict" where
  "fleet_verdict env inp policies jobs =
     scope_verdict_of (fleet_ceiling env (cc_userId inp) policies) (cc_costCents inp)
       (ce_userSum env (sumCostCentsForUserSince (cc_userId inp) (utcDayStart (ce_now env)) jobs))"

definition trip_node_scope ::
  "ceiling_env \<Rightarrow> ceiling_completion \<Rightarrow> (string \<times> fleet_node) option \<Rightarrow> ceiling_verdict \<times> cost_world \<Rightarrow> ceiling_verdict \<times> cost_world" where
  "trip_node_scope env inp node vW = (case node of
     Some (n, row) \<Rightarrow> if tripped (cv_node (fst vW)) then tripNode env inp n (node_name n row) (fn_modelIdentity row) vW else vW
   | None \<Rightarrow> vW)"

definition trip_fleet_scope :: "ceiling_env \<Rightarrow> ceiling_completion \<Rightarrow> ceiling_verdict \<times> cost_world \<Rightarrow> ceiling_verdict \<times> cost_world" where
  "trip_fleet_scope env inp vW = (if tripped (cv_fleet (fst vW)) then tripFleet env inp vW else vW)"

definition first_verdict :: "ceiling_env \<Rightarrow> ceiling_verdict" where
  "first_verdict env = \<lparr>cv_day = utcDay (ce_now env), cv_node = NONE, cv_fleet = NONE, cv_drainedNodeIds = [], cv_noticesFiled = 0\<rparr>"

definition evaluateAfterCompletion :: "ceiling_env \<Rightarrow> ceiling_completion \<Rightarrow> cost_world \<Rightarrow> ceiling_verdict \<times> cost_world" where
  "evaluateAfterCompletion env inp W =
     (let jobs = fl_jobs (cw_fleet W); node = reported_by inp (fl_nodes (cw_fleet W)) in
      case (ce_lookup env, reporting_node inp) of
        (NodeLookupThrows e, _ # _) \<Rightarrow> lookup_failed env inp None e (first_verdict env, W)
      | (PolicyLookupThrows e, _) \<Rightarrow> lookup_failed env inp node e (first_verdict env, W)
      | _ \<Rightarrow> trip_fleet_scope env inp (trip_node_scope env inp node
          ((first_verdict env)\<lparr>cv_node := node_verdict env inp node jobs, cv_fleet := fleet_verdict env inp (cw_policies W) jobs\<rparr>, W)))"

end
