(* ===== verification/Fleet_Ceiling_Laws.thy ===== *)
theory Fleet_Ceiling_Laws
  imports Fleet_Ceiling
begin

text \<open>
  What an evaluation does to the fleet, exactly (\<open>drained_by\<close>): the computers of a set are disabled, their
  claims are queued again, and nothing else moves but the marks of the day; and what a day's notices leave
  behind (\<open>marks_ok\<close>).
\<close>

section \<open>The effect of a drain\<close>

definition unmarked :: "fleet_node \<Rightarrow> fleet_node" where
  "unmarked r = r\<lparr>fn_dailyCostTrippedOn := None\<rparr>"

definition disabled_in :: "string set \<Rightarrow> string \<Rightarrow> fleet_node \<Rightarrow> fleet_node" where
  "disabled_in S m r = (if m \<in> S then r\<lparr>fn_status := Disabled\<rparr> else r)"

definition released_in :: "int \<Rightarrow> string \<Rightarrow> string set \<Rightarrow> fleet_job \<Rightarrow> fleet_job" where
  "released_in now userId S j =
     (if fj_userId j = userId \<and> fj_nodeId j \<in> Some ` S \<and> active j then drained now j else j)"

definition drained_by :: "int \<Rightarrow> string \<Rightarrow> string set \<Rightarrow> cost_world \<Rightarrow> cost_world \<Rightarrow> bool" where
  "drained_by now userId S W W' \<longleftrightarrow>
     (\<forall>m. map_option unmarked (map_of (fl_nodes (cw_fleet W')) m) =
        map_option (unmarked \<circ> disabled_in S m) (map_of (fl_nodes (cw_fleet W)) m)) \<and>
     fl_jobs (cw_fleet W') = map (\<lambda>(i, j). (i, released_in now userId S j)) (fl_jobs (cw_fleet W))"

lemma unmarked_inject: "unmarked r = unmarked r' \<Longrightarrow> fn_status r = fn_status r' \<and> fn_userId r = fn_userId r'"
  unfolding unmarked_def by (metis fleet_node.select_convs(1,3) fleet_node.surjective fleet_node.update_convs(12))

lemma unmarked_mark [simp]: "unmarked (r\<lparr>fn_dailyCostTrippedOn := d\<rparr>) = unmarked r"
  by (simp add: unmarked_def)

lemma disabled_out [simp]: "m \<notin> S \<Longrightarrow> unmarked \<circ> disabled_in S m = unmarked"
  and disabled_inside: "m \<in> S \<Longrightarrow> disabled_in S m r = r\<lparr>fn_status := Disabled\<rparr>"
  by (simp_all add: disabled_in_def fun_eq_iff)

lemma released_out [simp]: "released_in now u {} j = j"
  by (simp add: released_in_def)

lemma released_twice: "released_in now u T (released_in now u S j) = released_in now u (S \<union> T) j"
  by (auto simp: released_in_def drained_def active_iff)

lemma disabled_twice: "unmarked (disabled_in T m (disabled_in S m r)) = unmarked (disabled_in (S \<union> T) m r)"
  by (simp add: disabled_in_def)

lemma unmarked_disabled: "unmarked (disabled_in S m r) = disabled_in S m (unmarked r)"
  by (simp add: unmarked_def disabled_in_def)

lemma drained_by_nothing: "drained_by now u {} W W"
  by (simp add: drained_by_def case_prod_unfold)

lemma drained_by_trans:
  assumes "drained_by now u S W W'" "drained_by now u T W' W''"
  shows "drained_by now u (S \<union> T) W W''"
proof -
  have "map_option unmarked (map_of (fl_nodes (cw_fleet W'')) m) =
      map_option (unmarked \<circ> disabled_in (S \<union> T) m) (map_of (fl_nodes (cw_fleet W)) m)" for m
  proof -
    have "map_option unmarked (map_of (fl_nodes (cw_fleet W'')) m) =
        map_option (disabled_in T m) (map_option unmarked (map_of (fl_nodes (cw_fleet W')) m))"
      using assms(2) by (simp add: drained_by_def option.map_comp o_def unmarked_disabled)
    also have "\<dots> = map_option (disabled_in T m) (map_option (unmarked \<circ> disabled_in S m) (map_of (fl_nodes (cw_fleet W)) m))"
      using assms(1) by (simp add: drained_by_def)
    finally show ?thesis by (simp add: option.map_comp o_def disabled_twice flip: unmarked_disabled)
  qed
  then show ?thesis using assms by (simp add: drained_by_def case_prod_unfold released_twice o_def)
qed

text \<open>Drains that work: the writes succeed and nobody interferes.\<close>

definition drains_work :: "ceiling_env \<Rightarrow> bool" where
  "drains_work env \<longleftrightarrow> \<not> ce_listFails env \<and> (\<forall>n. \<not> ce_disableFails env n \<and> \<not> ce_releaseFails env n) \<and>
     (\<forall>m W. ce_rivals env m W = W)"

lemma owned_after:
  assumes "drained_by now u S W W'"
  shows "(owned_node v n (fl_nodes (cw_fleet W')) \<noteq> None) = (owned_node v n (fl_nodes (cw_fleet W)) \<noteq> None)"
proof -
  have "map_option unmarked (map_of (fl_nodes (cw_fleet W')) n) = map_option (unmarked \<circ> disabled_in S n) (map_of (fl_nodes (cw_fleet W)) n)"
    using assms by (simp add: drained_by_def)
  then show ?thesis
    by (cases "map_of (fl_nodes (cw_fleet W')) n"; cases "map_of (fl_nodes (cw_fleet W)) n")
      (auto simp: owned_node_def disabled_in_def dest!: unmarked_inject split: if_splits)
qed

lemma drain_drains:
  assumes "drains_work env"
  shows "drained_by (fe_now (ce_fleet env)) u (if owned_node u n (fl_nodes (cw_fleet W)) \<noteq> None then {n} else {}) W
    (snd (drain env u n (v, W)))"
proof (cases "owned_node u n (fl_nodes (cw_fleet W))")
  case None
  then show ?thesis using assms drained_by_nothing
    by (simp add: drain_def drains_work_def on_nodes_def setDisabledForUser_def)
next
  case (Some row)
  then have row: "map_of (fl_nodes (cw_fleet W)) n = Some row" by (auto simp: owned_node_def split: option.splits if_splits)
  have "snd (drain env u n (v, W)) = W\<lparr>cw_fleet := snd (drainNode (ce_fleet env) u n
      ((cw_fleet W)\<lparr>fl_nodes := AList.update n (row\<lparr>fn_status := Disabled\<rparr>) (fl_nodes (cw_fleet W))\<rparr>))\<rparr>"
    using assms Some by (simp add: drain_def drains_work_def on_nodes_def setDisabledForUser_def)
  then show ?thesis
    using row Some
    by (auto simp: drained_by_def drainNode_def on_jobs_def releaseClaimsForNode_def Let_def update_conv' released_in_def
        disabled_inside case_prod_unfold)
qed

lemma drains_drain:
  assumes "drains_work env" "\<And>n. n \<in> set ns \<Longrightarrow> owned_node u n (fl_nodes (cw_fleet W)) \<noteq> None"
  shows "drained_by (fe_now (ce_fleet env)) u (set ns) W (snd (fold (drain env u) ns (v, W)))"
  using assms(2)
proof (induction ns arbitrary: v W)
  case (Cons n ns)
  obtain v1 W1 where d: "drain env u n (v, W) = (v1, W1)" by fastforce
  have one: "drained_by (fe_now (ce_fleet env)) u {n} W W1"
    using drain_drains [OF assms(1), of u n W v] Cons.prems d by simp
  then have "drained_by (fe_now (ce_fleet env)) u (set ns) W1 (snd (fold (drain env u) ns (v1, W1)))"
    using Cons.IH Cons.prems owned_after [OF one] by simp
  from drained_by_trans [OF one this] show ?case by (simp add: d)
qed (simp add: drained_by_nothing)

section \<open>The effect of a trip\<close>

lemma marks_move_nothing:
  "drained_by now u {} W (snd (on_nodes (casTripDailyCeiling n day) W))"
  "drained_by now u {} W (W\<lparr>cw_policies := T\<rparr>)"
  "drained_by now u {} W (snd (notify env k (v, W)))"
proof -
  show "drained_by now u {} W (snd (on_nodes (casTripDailyCeiling n day) W))"
    by (auto simp: drained_by_def on_nodes_def casTripDailyCeiling_def Let_def update_conv' case_prod_unfold split: option.split)
  show "drained_by now u {} W (W\<lparr>cw_policies := T\<rparr>)" "drained_by now u {} W (snd (notify env k (v, W)))"
    using drained_by_nothing [of now u W]
    by (simp_all add: drained_by_def notify_def split: inbox_port.split)
qed

lemma tripNode_drains:
  assumes "drains_work env" "owned_node (cc_userId inp) n (fl_nodes (cw_fleet W)) \<noteq> None"
  shows "drained_by (fe_now (ce_fleet env)) (cc_userId inp) {n} W (snd (tripNode env inp n name billedTo (v, W)))"
proof -
  let ?d = "drained_by (fe_now (ce_fleet env)) (cc_userId inp)"
  obtain v1 W1 where d: "drain env (cc_userId inp) n (v, W) = (v1, W1)" by fastforce
  have one: "?d {n} W W1" using drain_drains [OF assms(1), of "cc_userId inp" n W v] assms(2) d by simp
  have quiet: "ce_rivals env m x = x" for m x using assms(1) by (simp add: drains_work_def)
  obtain b W2 where t: "on_nodes (casTripDailyCeiling n (cv_day v1)) W1 = (b, W2)" by fastforce
  have two: "?d {} W1 W2" using marks_move_nothing(1) [of _ _ W1 n "cv_day v1"] t by simp
  have "?d {} W1 (snd (tripNode env inp n name billedTo (v, W)))"
    using two drained_by_nothing drained_by_trans [OF two marks_move_nothing(3)]
    by (auto simp: tripNode_def d quiet t split: bool.split)
  from drained_by_trans [OF one this] show ?thesis by simp
qed

lemma tripFleet_drains:
  assumes "drains_work env" "distinct (map fst (fl_nodes (cw_fleet W)))"
  shows "drained_by (fe_now (ce_fleet env)) (cc_userId inp) (set (fleet_targets (cc_userId inp) (fl_nodes (cw_fleet W)))) W
    (snd (tripFleet env inp (v, W)))"
proof -
  let ?d = "drained_by (fe_now (ce_fleet env)) (cc_userId inp)" and ?ns = "fleet_targets (cc_userId inp) (fl_nodes (cw_fleet W))"
  have owned: "owned_node (cc_userId inp) n (fl_nodes (cw_fleet W)) \<noteq> None" if "n \<in> set ?ns" for n
    using that assms(2) by (auto simp: fleet_targets_def owned_node_def)
  obtain v1 W1 where d: "fold (drain env (cc_userId inp)) ?ns (v, W) = (v1, W1)" by fastforce
  have one: "?d (set ?ns) W W1" using drains_drain [OF assms(1), of ?ns "cc_userId inp" W v] owned d by simp
  have work: "\<not> ce_listFails env" "ce_rivals env m x = x" for m x using assms(1) by (simp_all add: drains_work_def)
  obtain b T where t: "casTrip (cc_userId inp) (cv_day v1) (ce_now env) (cw_policies W1) = (b, T)" by fastforce
  have "?d {} W1 (snd (tripFleet env inp (v, W)))"
    using drained_by_nothing drained_by_trans [OF marks_move_nothing(2) marks_move_nothing(3)] marks_move_nothing(2)
    by (auto simp: tripFleet_def d work t Let_def split: bool.split)
  from drained_by_trans [OF one this] show ?thesis by simp
qed

section \<open>The effect of an evaluation\<close>

text \<open>The computers an evaluation stops: the one that reported when its scope tripped, and every enrolled one of
  the owner when the fleet's did.\<close>

definition stopped_by :: "ceiling_completion \<Rightarrow> node_table \<Rightarrow> ceiling_verdict \<Rightarrow> string set" where
  "stopped_by inp T v =
     (if tripped (cv_node v) then {n \<in> set (reporting_node inp). owned_node (cc_userId inp) n T \<noteq> None} else {}) \<union>
     (if tripped (cv_fleet v) then set (fleet_targets (cc_userId inp) T) else {})"

text \<open>The verdicts are settled before anything is drained.\<close>

lemma drain_verdict: "cv_node (fst (drain env u n (v, W))) = cv_node v \<and> cv_fleet (fst (drain env u n (v, W))) = cv_fleet v \<and>
    cv_day (fst (drain env u n (v, W))) = cv_day v"
  by (simp add: drain_def Let_def split: prod.split bool.split)

lemma notify_verdict: "cv_node (fst (notify env k (v, W))) = cv_node v \<and> cv_fleet (fst (notify env k (v, W))) = cv_fleet v \<and>
    cv_day (fst (notify env k (v, W))) = cv_day v"
  by (simp add: notify_def split: inbox_port.split)

lemma tripNode_verdict:
  "cv_node (fst (tripNode env inp n name b (v, W))) = cv_node v \<and> cv_fleet (fst (tripNode env inp n name b (v, W))) = cv_fleet v \<and>
     cv_day (fst (tripNode env inp n name b (v, W))) = cv_day v"
proof -
  obtain v1 W1 where d: "drain env (cc_userId inp) n (v, W) = (v1, W1)" by fastforce
  then have "cv_node v1 = cv_node v" "cv_fleet v1 = cv_fleet v" "cv_day v1 = cv_day v"
    using drain_verdict [of env "cc_userId inp" n v W] by simp_all
  then show ?thesis by (simp add: tripNode_def d notify_verdict Let_def split: prod.split bool.split)
qed

lemma drains_verdict:
  "cv_node (fst (fold (drain env u) ns vW)) = cv_node (fst vW) \<and> cv_fleet (fst (fold (drain env u) ns vW)) = cv_fleet (fst vW) \<and>
     cv_day (fst (fold (drain env u) ns vW)) = cv_day (fst vW)"
proof (induction ns arbitrary: vW)
  case (Cons n ns)
  then show ?case using drain_verdict [of env u n "fst vW" "snd vW"] by simp
qed simp

lemma tripFleet_verdict:
  "cv_node (fst (tripFleet env inp vW)) = cv_node (fst vW) \<and> cv_fleet (fst (tripFleet env inp vW)) = cv_fleet (fst vW) \<and>
     cv_day (fst (tripFleet env inp vW)) = cv_day (fst vW)"
proof -
  define ns where "ns = (if ce_listFails env then reporting_node inp else fleet_targets (cc_userId inp) (fl_nodes (cw_fleet (snd vW))))"
  obtain v1 W1 where d: "fold (drain env (cc_userId inp)) ns vW = (v1, W1)" by fastforce
  then have "cv_node v1 = cv_node (fst vW)" "cv_fleet v1 = cv_fleet (fst vW)" "cv_day v1 = cv_day (fst vW)"
    using drains_verdict [of env "cc_userId inp" ns vW] by simp_all
  then show ?thesis
    unfolding tripFleet_def ns_def [symmetric] Let_def d by (simp add: notify_verdict split: prod.split bool.split)
qed

text \<open>Enrolled computers stay enrolled when one of them is disabled.\<close>

lemma fleet_targets_iff:
  "distinct (map fst T) \<Longrightarrow> n \<in> set (fleet_targets u T) \<longleftrightarrow> (\<exists>r. map_of T n = Some r \<and> fn_userId r = u \<and> fn_status r \<noteq> Enrolling)"
  by (force simp: fleet_targets_def)

lemma node_keys:
  "distinct (map fst (fl_nodes (cw_fleet W))) \<Longrightarrow> distinct (map fst (fl_nodes (cw_fleet (snd (drain env u n (v, W))))))"
  if "drains_work env"
  using that by (auto simp: drain_def drains_work_def on_nodes_def setDisabledForUser_def drainNode_def on_jobs_def Let_def
      releaseClaimsForNode_def distinct_update split: option.split)

lemma tripNode_keys:
  assumes "drains_work env" "distinct (map fst (fl_nodes (cw_fleet W)))"
  shows "distinct (map fst (fl_nodes (cw_fleet (snd (tripNode env inp n name b (v, W))))))"
proof -
  obtain v1 W1 where d: "drain env (cc_userId inp) n (v, W) = (v1, W1)" by fastforce
  have "distinct (map fst (fl_nodes (cw_fleet W1)))" using node_keys [OF assms, of "cc_userId inp" n v] d by simp
  then show ?thesis using assms(1)
    by (auto simp: tripNode_def d drains_work_def on_nodes_def casTripDailyCeiling_def Let_def notify_def distinct_update
        split: option.split inbox_port.split)
qed

lemma targets_after:
  assumes "drained_by now u {n} W W'" "distinct (map fst (fl_nodes (cw_fleet W)))" "distinct (map fst (fl_nodes (cw_fleet W')))"
  shows "{n} \<union> set (fleet_targets u (fl_nodes (cw_fleet W'))) = {n} \<union> set (fleet_targets u (fl_nodes (cw_fleet W)))"
proof -
  have "m \<in> set (fleet_targets u (fl_nodes (cw_fleet W'))) \<longleftrightarrow> m \<in> set (fleet_targets u (fl_nodes (cw_fleet W)))" if "m \<noteq> n" for m
  proof -
    have "map_option unmarked (map_of (fl_nodes (cw_fleet W')) m) = map_option unmarked (map_of (fl_nodes (cw_fleet W)) m)"
      using assms(1) that by (simp add: drained_by_def)
    then show ?thesis
      unfolding fleet_targets_iff [OF assms(2)] fleet_targets_iff [OF assms(3)]
      by (cases "map_of (fl_nodes (cw_fleet W')) m"; cases "map_of (fl_nodes (cw_fleet W)) m") (auto dest: unmarked_inject)
  qed
  then show ?thesis by auto
qed

lemma tripped_NONE [simp]: "\<not> tripped NONE"
  by (simp add: tripped_def NONE_def)

lemma reported_by_Some:
  "reported_by inp T = Some (n, row) \<longleftrightarrow> reporting_node inp = [n] \<and> owned_node (cc_userId inp) n T = Some row"
  by (auto simp: reported_by_def reporting_node_def split: option.splits list.splits if_splits)

lemma lookup_failed_drains:
  assumes "drains_work env" "cv_fleet (fst vW) = NONE"
  shows "drained_by (fe_now (ce_fleet env)) (cc_userId inp)
     (stopped_by inp (fl_nodes (cw_fleet (snd vW))) (fst (lookup_failed env inp node e vW))) (snd vW) (snd (lookup_failed env inp node e vW))"
proof (cases "reporting_node inp")
  case Nil
  then show ?thesis using assms(2) drained_by_nothing by (simp add: lookup_failed_def stopped_by_def)
next
  case (Cons n ns)
  have [simp]: "ns = []" using Cons by (auto simp: reporting_node_def split: option.splits if_splits)
  define v where "v = (fst vW)\<lparr>cv_node := \<lparr>sv_ceilingCents = None, sv_spendCents = None, sv_outcome = Unevaluable,
                 sv_reason = Some (''ceiling lookup failed: '' @ e)\<rparr>\<rparr>"
  define name where "name = (case node of Some (_, row) \<Rightarrow> node_name n row | None \<Rightarrow> n)"
  define b where "b = (case node of Some (_, row) \<Rightarrow> fn_modelIdentity row | None \<Rightarrow> None)"
  have v: "tripped (cv_node v)" "cv_fleet v = NONE" using assms(2) by (simp_all add: v_def tripped_def)
  have call: "lookup_failed env inp node e vW = tripNode env inp n name b (v, snd vW)"
    by (simp only: lookup_failed_def Cons Let_def list.case flip: v_def) (simp add: name_def b_def split: option.split prod.split)
  have verdict: "tripped (cv_node (fst (tripNode env inp n name b (v, snd vW))))" "cv_fleet (fst (tripNode env inp n name b (v, snd vW))) = NONE"
    using tripNode_verdict [of env inp n name b v "snd vW"] v by simp_all
  show ?thesis
  proof (cases "owned_node (cc_userId inp) n (fl_nodes (cw_fleet (snd vW)))")
    case (Some row)
    then have "{m \<in> set (reporting_node inp). owned_node (cc_userId inp) m (fl_nodes (cw_fleet (snd vW))) \<noteq> None} = {n}"
      using Cons by auto
    then show ?thesis using tripNode_drains [OF assms(1), of inp n "snd vW" name b v] verdict Some
      by (simp add: call stopped_by_def)
  next
    case None
    obtain v1 where d: "drain env (cc_userId inp) n (v, snd vW) = (v1, snd vW)"
      using None assms(1) by (simp add: drain_def drains_work_def on_nodes_def setDisabledForUser_def)
    have quiet: "ce_rivals env m x = x" for m x using assms(1) by (simp add: drains_work_def)
    obtain k W2 where t: "on_nodes (casTripDailyCeiling n (cv_day v1)) (snd vW) = (k, W2)" by fastforce
    have two: "drained_by (fe_now (ce_fleet env)) (cc_userId inp) {} (snd vW) W2"
      using marks_move_nothing(1) [of _ _ "snd vW" n "cv_day v1"] t by simp
    have "drained_by (fe_now (ce_fleet env)) (cc_userId inp) {} (snd vW) (snd (tripNode env inp n name b (v, snd vW)))"
      using two drained_by_nothing drained_by_trans [OF two marks_move_nothing(3)]
      by (auto simp: tripNode_def d quiet t split: bool.split)
    moreover have "{m \<in> set (reporting_node inp). owned_node (cc_userId inp) m (fl_nodes (cw_fleet (snd vW))) \<noteq> None} = {}"
      using Cons None by auto
    ultimately show ?thesis using verdict unfolding call stopped_by_def by (simp only: if_True tripped_NONE if_False Un_empty_right)
  qed
qed

lemma scopes_drain:
  fixes env v W inp
  defines "node \<equiv> reported_by inp (fl_nodes (cw_fleet W))"
  defines "res \<equiv> trip_fleet_scope env inp (trip_node_scope env inp node (v, W))"
  assumes "drains_work env" "distinct (map fst (fl_nodes (cw_fleet W)))" "node = None \<Longrightarrow> cv_node v = NONE"
  shows "cv_node (fst res) = cv_node v \<and> cv_fleet (fst res) = cv_fleet v \<and>
    drained_by (fe_now (ce_fleet env)) (cc_userId inp) (stopped_by inp (fl_nodes (cw_fleet W)) v) W (snd res)"
proof -
  let ?d = "drained_by (fe_now (ce_fleet env)) (cc_userId inp)"
  define S where "S = (if tripped (cv_node v) then {n \<in> set (reporting_node inp). owned_node (cc_userId inp) n (fl_nodes (cw_fleet W)) \<noteq> None} else {})"
  define vW where "vW = trip_node_scope env inp node (v, W)"
  have step: "?d S W (snd vW) \<and> cv_node (fst vW) = cv_node v \<and> cv_fleet (fst vW) = cv_fleet v \<and>
      distinct (map fst (fl_nodes (cw_fleet (snd vW)))) \<and>
      S \<union> set (fleet_targets (cc_userId inp) (fl_nodes (cw_fleet (snd vW)))) = S \<union> set (fleet_targets (cc_userId inp) (fl_nodes (cw_fleet W)))"
  proof (cases "node \<noteq> None \<and> tripped (cv_node v)")
    case True
    then obtain n row where n: "reporting_node inp = [n]" "owned_node (cc_userId inp) n (fl_nodes (cw_fleet W)) = Some row" "node = Some (n, row)"
      by (auto simp: node_def reported_by_Some)
    have S: "S = {n}" using n True by (auto simp: S_def)
    have call: "vW = tripNode env inp n (node_name n row) (fn_modelIdentity row) (v, W)" using True n by (simp add: vW_def trip_node_scope_def)
    have d: "?d {n} W (snd vW)" unfolding call by (rule tripNode_drains [OF assms(3)]) (simp add: n)
    have keys: "distinct (map fst (fl_nodes (cw_fleet (snd vW))))" unfolding call by (rule tripNode_keys [OF assms(3,4)])
    show ?thesis
      using d keys targets_after [OF d assms(4) keys] tripNode_verdict [of env inp n "node_name n row" "fn_modelIdentity row" v W]
      by (simp add: S call)
  next
    case False
    then have "\<not> tripped (cv_node v)" using assms(5) by (cases node) auto
    then have "vW = (v, W)" "S = {}" by (simp_all add: vW_def S_def trip_node_scope_def split: option.split prod.split)
    then show ?thesis using assms(4) drained_by_nothing by simp
  qed
  have stops: "stopped_by inp (fl_nodes (cw_fleet W)) v = S \<union> (if tripped (cv_fleet v) then set (fleet_targets (cc_userId inp) (fl_nodes (cw_fleet W))) else {})"
    by (simp add: stopped_by_def S_def)
  show ?thesis
  proof (cases "tripped (cv_fleet v)")
    case True
    then have r: "res = tripFleet env inp vW" using step by (simp add: res_def vW_def trip_fleet_scope_def)
    have "?d (S \<union> set (fleet_targets (cc_userId inp) (fl_nodes (cw_fleet (snd vW))))) W (snd (tripFleet env inp vW))"
      using drained_by_trans [OF conjunct1 [OF step] tripFleet_drains [OF assms(3), of "snd vW" inp "fst vW"]] step by simp
    then show ?thesis using True step tripFleet_verdict [of env inp vW] by (simp add: r stops)
  next
    case False
    then have "res = vW" using step by (simp add: res_def vW_def trip_fleet_scope_def)
    then show ?thesis using step False by (simp add: stops)
  qed
qed

lemma evaluation_drains:
  assumes "drains_work env" "distinct (map fst (fl_nodes (cw_fleet W)))"
  shows "drained_by (fe_now (ce_fleet env)) (cc_userId inp)
     (stopped_by inp (fl_nodes (cw_fleet W)) (fst (evaluateAfterCompletion env inp W))) W (snd (evaluateAfterCompletion env inp W))"
proof -
  let ?node = "reported_by inp (fl_nodes (cw_fleet W))"
  define v where "v = (first_verdict env)\<lparr>cv_node := node_verdict env inp ?node (fl_jobs (cw_fleet W)),
      cv_fleet := fleet_verdict env inp (cw_policies W) (fl_jobs (cw_fleet W))\<rparr>"
  have none: "?node = None \<Longrightarrow> cv_node v = NONE" by (simp add: v_def node_verdict_def)
  have normal: ?thesis if "evaluateAfterCompletion env inp W = trip_fleet_scope env inp (trip_node_scope env inp ?node (v, W))"
    using scopes_drain [OF assms, of inp v] none by (simp add: that stopped_by_def)
  have first: "cv_fleet (first_verdict env) = NONE" by (simp add: first_verdict_def)
  show ?thesis
  proof (cases "ce_lookup env")
    case LookupReads
    show ?thesis by (rule normal) (simp add: evaluateAfterCompletion_def Let_def LookupReads v_def)
  next
    case (NodeLookupThrows e)
    show ?thesis
    proof (cases "reporting_node inp")
      case Nil
      show ?thesis by (rule normal) (simp add: evaluateAfterCompletion_def Let_def NodeLookupThrows Nil v_def)
    next
      case (Cons n ns)
      then show ?thesis using lookup_failed_drains [OF assms(1), of "(first_verdict env, W)" inp None e] first
        by (simp add: evaluateAfterCompletion_def Let_def NodeLookupThrows)
    qed
  next
    case (PolicyLookupThrows e)
    then show ?thesis using lookup_failed_drains [OF assms(1), of "(first_verdict env, W)" inp ?node e] first
      by (simp add: evaluateAfterCompletion_def Let_def)
  qed
qed

lemma evaluation_verdicts:
  assumes "drains_work env" "distinct (map fst (fl_nodes (cw_fleet W)))" "ce_lookup env = LookupReads"
  shows "cv_node (fst (evaluateAfterCompletion env inp W)) =
      node_verdict env inp (reported_by inp (fl_nodes (cw_fleet W))) (fl_jobs (cw_fleet W)) \<and>
    cv_fleet (fst (evaluateAfterCompletion env inp W)) = fleet_verdict env inp (cw_policies W) (fl_jobs (cw_fleet W))"
proof -
  let ?node = "reported_by inp (fl_nodes (cw_fleet W))"
  define v where "v = (first_verdict env)\<lparr>cv_node := node_verdict env inp ?node (fl_jobs (cw_fleet W)),
      cv_fleet := fleet_verdict env inp (cw_policies W) (fl_jobs (cw_fleet W))\<rparr>"
  have "evaluateAfterCompletion env inp W = trip_fleet_scope env inp (trip_node_scope env inp ?node (v, W))"
    by (simp add: evaluateAfterCompletion_def Let_def assms(3) v_def)
  moreover have "?node = None \<Longrightarrow> cv_node v = NONE" by (simp add: v_def node_verdict_def)
  ultimately show ?thesis using scopes_drain [OF assms(1,2), of inp v] by (simp add: v_def)
qed

text \<open>What a drained computer is left with.\<close>

lemma drained_is_stopped:
  assumes "drained_by now u S W W'" "n \<in> S" "owned_node u n (fl_nodes (cw_fleet W)) \<noteq> None"
  shows "\<exists>row. map_of (fl_nodes (cw_fleet W')) n = Some row \<and> fn_status row = Disabled"
    "\<forall>(i, j) \<in> set (fl_jobs (cw_fleet W')). \<not> (fj_userId j = u \<and> fj_nodeId j = Some n \<and> active j)"
proof -
  obtain r where r: "map_of (fl_nodes (cw_fleet W)) n = Some r" using assms(3) by (auto simp: owned_node_def split: option.splits)
  have "map_option unmarked (map_of (fl_nodes (cw_fleet W')) n) = Some (unmarked (r\<lparr>fn_status := Disabled\<rparr>))"
    using assms(1,2) r by (simp add: drained_by_def disabled_inside)
  then show "\<exists>row. map_of (fl_nodes (cw_fleet W')) n = Some row \<and> fn_status row = Disabled"
    by (auto dest: unmarked_inject)
  show "\<forall>(i, j) \<in> set (fl_jobs (cw_fleet W')). \<not> (fj_userId j = u \<and> fj_nodeId j = Some n \<and> active j)"
    using assms(1,2) by (auto simp: drained_by_def released_in_def drained_def active_iff split: if_splits)
qed

lemma disabled_gets_nothing:
  assumes "map_of (fl_nodes s) n = Some row" "fn_status row = Disabled" "li_nodeId linp = JStr n"
  shows "lease fenv linp s = (None, s)"
proof -
  have "authenticateNode (fe_sha256 fenv) (fe_now fenv) (fl_nodes s) (JStr n) (li_secret linp) ToLease = None"
    using assms(1,2) by (cases "authenticateNode (fe_sha256 fenv) (fe_now fenv) (fl_nodes s) (JStr n) (li_secret linp) ToLease")
      (auto simp: authenticateNode_iff)
  then show ?thesis by (simp add: lease_def assms(3))
qed

section \<open>The notices of a day\<close>

text \<open>
  The notices of a day: as long as nobody takes back the mark of a trip, each computer and each fleet has at
  most one notice for the day, whatever fails and whoever else writes.
\<close>

definition notices_of :: "notice_scope \<Rightarrow> string \<Rightarrow> cost_world \<Rightarrow> nat" where
  "notices_of sc day W = length (filter (\<lambda>k. no_scope k = sc \<and> no_day k = day) (cw_notices W))"

fun marked :: "string \<Rightarrow> notice_scope \<Rightarrow> cost_world \<Rightarrow> bool" where
  "marked day (NodeNotice n) W = (\<forall>row. map_of (fl_nodes (cw_fleet W)) n = Some row \<longrightarrow> fn_dailyCostTrippedOn row = Some day)"
| "marked day (FleetNotice u) W = (\<exists>p. map_of (cw_policies W) u = Some p \<and> cp_trippedOn p = Some day)"

definition marks_ok :: "string \<Rightarrow> cost_world \<Rightarrow> bool" where
  "marks_ok day W \<longleftrightarrow> (\<forall>sc. notices_of sc day W \<le> 1 \<and> (notices_of sc day W = 1 \<longrightarrow> marked day sc W))"

text \<open>What the others may do: anything that keeps it so. Changing a ceiling takes the mark back, on purpose.\<close>

definition ceiling_rely :: "string \<Rightarrow> ceiling_env \<Rightarrow> bool" where
  "ceiling_rely day env \<longleftrightarrow> (\<forall>m W. marks_ok day W \<longrightarrow> marks_ok day (ce_rivals env m W))"

lemma marks_kept:
  assumes "marks_ok day W" "cw_notices W' = cw_notices W" "\<And>sc. marked day sc W \<Longrightarrow> marked day sc W'"
  shows "marks_ok day W'"
  using assms by (auto simp: marks_ok_def notices_of_def)

lemma disable_keeps_marks:
  assumes "marks_ok day W"
  shows "marks_ok day (snd (on_nodes (setDisabledForUser u n b) W))"
proof (rule marks_kept [OF assms])
  show "cw_notices (snd (on_nodes (setDisabledForUser u n b) W)) = cw_notices W"
    by (simp add: on_nodes_def setDisabledForUser_def split: option.split)
  fix sc assume "marked day sc W"
  then show "marked day sc (snd (on_nodes (setDisabledForUser u n b) W))"
    by (cases sc) (auto simp: on_nodes_def setDisabledForUser_def owned_node_def update_conv' split: option.split)
qed

lemma release_keeps_marks: "marks_ok day W \<Longrightarrow> marks_ok day (W\<lparr>cw_fleet := snd (drainNode e u n (cw_fleet W))\<rparr>)"
proof (rule marks_kept)
  fix sc assume "marked day sc W"
  then show "marked day sc (W\<lparr>cw_fleet := snd (drainNode e u n (cw_fleet W))\<rparr>)"
    by (cases sc) (simp_all add: drainNode_def on_jobs_def releaseClaimsForNode_def Let_def)
qed simp_all

lemma drain_keeps_marks:
  assumes "ceiling_rely day env" "marks_ok day W"
  shows "marks_ok day (snd (drain env u n (v, W)))"
proof -
  have r: "marks_ok day (ce_rivals env m x)" if "marks_ok day x" for m x using assms(1) that by (simp add: ceiling_rely_def)
  let ?W1 = "ce_rivals env (BeforeDisable n) W"
  obtain b W2 where d: "on_nodes (setDisabledForUser u n True) ?W1 = (b, W2)" by fastforce
  have "marks_ok day ?W1" using r assms(2) .
  moreover from disable_keeps_marks [OF this, of u n True] have "marks_ok day W2" by (simp add: d)
  moreover from r [OF this, of "BeforeRelease n"] have "marks_ok day (ce_rivals env (BeforeRelease n) W2)" .
  moreover note release_keeps_marks [OF this, of "ce_fleet env" u n]
  ultimately show ?thesis by (simp add: drain_def Let_def d split: bool.split)
qed

lemma drains_keep_marks:
  assumes "ceiling_rely day env" "marks_ok day (snd vW)"
  shows "marks_ok day (snd (fold (drain env u) ns vW))"
  using assms(2)
proof (induction ns arbitrary: vW)
  case (Cons n ns)
  then show ?case using drain_keeps_marks [OF assms(1), of "snd vW" u n "fst vW"] by simp
qed simp

text \<open>The winner of the compare-and-set files the first notice of the day.\<close>

lemma first_notice:
  assumes "marks_ok day W" "cw_notices W' = cw_notices W" "\<And>sc. marked day sc W \<Longrightarrow> marked day sc W'"
    "\<not> marked day sc0 W" "marked day sc0 W'" "no_scope k = sc0" "no_day k = day"
  shows "marks_ok day (snd (notify env k (v, W')))"
proof -
  have zero: "notices_of sc0 day W = 0" using assms(1,4) unfolding marks_ok_def by (metis le_neq_implies_less less_one)
  have same: "marked day sc (W'\<lparr>cw_notices := ks\<rparr>) = marked day sc W'" for sc ks by (cases sc) simp_all
  have "marks_ok day (W'\<lparr>cw_notices := cw_notices W' @ [k]\<rparr>)"
    unfolding marks_ok_def
  proof
    fix sc
    show "notices_of sc day (W'\<lparr>cw_notices := cw_notices W' @ [k]\<rparr>) \<le> 1 \<and>
        (notices_of sc day (W'\<lparr>cw_notices := cw_notices W' @ [k]\<rparr>) = 1 \<longrightarrow> marked day sc (W'\<lparr>cw_notices := cw_notices W' @ [k]\<rparr>))"
    proof (cases "sc = sc0")
      case True
      then show ?thesis using zero assms(2,5) by (simp add: same) (simp add: notices_of_def assms(6,7))
    next
      case False
      then have "notices_of sc day (W'\<lparr>cw_notices := cw_notices W' @ [k]\<rparr>) = notices_of sc day W"
        using assms(2,6) by (simp add: notices_of_def)
      then show ?thesis using assms(1,3) by (simp add: same marks_ok_def)
    qed
  qed
  moreover have "marks_ok day W'" by (rule marks_kept [OF assms(1-3)])
  ultimately show ?thesis by (simp add: notify_def split: inbox_port.split)
qed

lemma tripNode_keeps_marks:
  assumes "ceiling_rely day env" "marks_ok day W" "cv_day v = day"
  shows "marks_ok day (snd (tripNode env inp n name b (v, W)))"
proof -
  obtain v1 W0 where d: "drain env (cc_userId inp) n (v, W) = (v1, W0)" by fastforce
  let ?W1 = "ce_rivals env BeforeNodeTrip W0"
  have day: "cv_day v1 = day" using drain_verdict [of env "cc_userId inp" n v W] d assms(3) by simp
  have "marks_ok day W0" using drain_keeps_marks [OF assms(1,2), of "cc_userId inp" n v] by (simp add: d)
  then have ok: "marks_ok day ?W1" using assms(1) by (simp add: ceiling_rely_def)
  let ?k = "\<lparr>no_scope = NodeNotice n, no_day = cv_day v1, no_name = name, no_verdict = cv_node v1, no_drainedCount = 1,
      no_billedTo = b, no_completion = inp\<rparr>"
  have cas: "marks_ok day (snd (notify env ?k (v1, W2)))" if won: "on_nodes (casTripDailyCeiling n day) ?W1 = (True, W2)" for W2
  proof (rule first_notice [OF ok])
    obtain row where row: "map_of (fl_nodes (cw_fleet ?W1)) n = Some row" "fn_dailyCostTrippedOn row \<noteq> Some day"
      and W2: "W2 = ?W1\<lparr>cw_fleet := (cw_fleet ?W1)\<lparr>fl_nodes := AList.update n (row\<lparr>fn_dailyCostTrippedOn := Some day\<rparr>) (fl_nodes (cw_fleet ?W1))\<rparr>\<rparr>"
      using won by (auto simp: on_nodes_def casTripDailyCeiling_def Let_def split: option.splits if_splits)
    show "cw_notices W2 = cw_notices ?W1" "\<not> marked day (NodeNotice n) ?W1" "marked day (NodeNotice n) W2"
      using row by (simp_all add: W2)
    show "marked day sc W2" if "marked day sc ?W1" for sc using that by (cases sc) (auto simp: W2 update_conv')
  qed (simp_all add: day)
  have lost: "W2 = ?W1" if "on_nodes (casTripDailyCeiling n day) ?W1 = (False, W2)" for W2
    using that by (auto simp: on_nodes_def casTripDailyCeiling_def Let_def split: option.splits if_splits)
  obtain won W2 where t: "on_nodes (casTripDailyCeiling n day) ?W1 = (won, W2)" by fastforce
  show ?thesis
  proof (cases won)
    case True
    then show ?thesis using cas t ok by (simp add: tripNode_def d day Let_def)
  next
    case False
    then show ?thesis using lost t ok by (simp add: tripNode_def d day Let_def)
  qed
qed

lemma ensureForUser_marks:
  "(\<exists>p. map_of (ensureForUser u T) u = Some p) \<and>
   (map_of (ensureForUser u T) w = Some q \<longrightarrow> map_of T w = Some q \<or> cp_trippedOn q = None) \<and>
   (map_of T w = Some q \<longrightarrow> map_of (ensureForUser u T) w = Some q)"
  by (auto simp: ensureForUser_def update_conv' split: option.split)

lemma tripFleet_keeps_marks:
  assumes "ceiling_rely day env" "marks_ok day (snd vW)" "cv_day (fst vW) = day"
  shows "marks_ok day (snd (tripFleet env inp vW))"
proof -
  let ?u = "cc_userId inp"
  define ns where "ns = (if ce_listFails env then reporting_node inp else fleet_targets ?u (fl_nodes (cw_fleet (snd vW))))"
  obtain v1 W0 where d: "fold (drain env ?u) ns vW = (v1, W0)" by fastforce
  let ?W1 = "ce_rivals env BeforeFleetTrip W0"
  have day: "cv_day v1 = day" using drains_verdict [of env ?u ns vW] d assms(3) by simp
  have "marks_ok day W0" using drains_keep_marks [OF assms(1,2), of ?u ns] by (simp add: d)
  then have ok: "marks_ok day ?W1" using assms(1) by (simp add: ceiling_rely_def)
  obtain p where p: "map_of (ensureForUser ?u (cw_policies ?W1)) ?u = Some p" using ensureForUser_marks by blast
  let ?k = "\<lparr>no_scope = FleetNotice ?u, no_day = cv_day v1, no_name = [], no_verdict = cv_fleet v1,
      no_drainedCount = length (cv_drainedNodeIds v1), no_billedTo = None, no_completion = inp\<rparr>"
  have won: "marks_ok day (snd (notify env ?k (v1, ?W1\<lparr>cw_policies := T\<rparr>)))"
    if "casTrip ?u day (ce_now env) (cw_policies ?W1) = (True, T)" for T
  proof (rule first_notice [OF ok])
    have other: "cp_trippedOn p \<noteq> Some day"
      and T: "T = AList.update ?u (p\<lparr>cp_trippedOn := Some day, cp_trippedAt := Some (ce_now env)\<rparr>) (ensureForUser ?u (cw_policies ?W1))"
      using that p by (auto simp: casTrip_def Let_def split: option.splits if_splits)
    show "\<not> marked day (FleetNotice ?u) ?W1" using other p ensureForUser_marks [of ?u "cw_policies ?W1" ?u] by auto
    show "marked day (FleetNotice ?u) (?W1\<lparr>cw_policies := T\<rparr>)" by (simp add: T)
    show "marked day sc (?W1\<lparr>cw_policies := T\<rparr>)" if "marked day sc ?W1" for sc
      using that ensureForUser_marks [of ?u "cw_policies ?W1"] by (cases sc) (auto simp: T update_conv')
  qed (simp_all add: day)
  have lost: "marks_ok day (?W1\<lparr>cw_policies := T\<rparr>)" if "casTrip ?u day (ce_now env) (cw_policies ?W1) = (False, T)" for T
  proof (rule marks_kept [OF ok])
    have T: "T = ensureForUser ?u (cw_policies ?W1)" using that by (auto simp: casTrip_def Let_def split: option.splits if_splits)
    show "marked day sc (?W1\<lparr>cw_policies := T\<rparr>)" if "marked day sc ?W1" for sc
      using that ensureForUser_marks [of ?u "cw_policies ?W1"] by (cases sc) (auto simp: T)
  qed simp
  obtain b T where t: "casTrip ?u day (ce_now env) (cw_policies ?W1) = (b, T)" by fastforce
  have call: "tripFleet env inp vW = (if ce_fleetTripFails env then (v1, ?W1)
      else if b then notify env ?k (v1, ?W1\<lparr>cw_policies := T\<rparr>) else (v1, ?W1\<lparr>cw_policies := T\<rparr>))"
    unfolding tripFleet_def ns_def [symmetric] Let_def d using t by (simp add: day split: bool.split)
  show ?thesis unfolding call using ok won lost t by (cases b) simp_all
qed

lemma evaluation_keeps_marks:
  assumes "ceiling_rely day env" "marks_ok day W" "utcDay (ce_now env) = day"
  shows "marks_ok day (snd (evaluateAfterCompletion env inp W))"
proof -
  have node: "marks_ok day (snd (tripNode env inp n name b (v, W)))" if "cv_day v = day" for n name b v
    using tripNode_keeps_marks [OF assms(1,2) that] .
  have failed: "marks_ok day (snd (lookup_failed env inp nd e (v, W)))" if "cv_day v = day" for nd e v
    using that assms(2) node by (auto simp: lookup_failed_def Let_def simp del: append.simps split: list.split option.split prod.split)
  have scopes: "marks_ok day (snd (trip_fleet_scope env inp (trip_node_scope env inp nd (v, W))))" if "cv_day v = day" for nd v
  proof -
    have "marks_ok day (snd (trip_node_scope env inp nd (v, W))) \<and> cv_day (fst (trip_node_scope env inp nd (v, W))) = day"
      using that assms(2) node tripNode_verdict by (auto simp: trip_node_scope_def split: option.split prod.split)
    then show ?thesis using tripFleet_keeps_marks [OF assms(1)] by (simp add: trip_fleet_scope_def)
  qed
  have first: "cv_day (first_verdict env) = day" using assms(3) by (simp add: first_verdict_def)
  show ?thesis
    using failed [of "first_verdict env"] scopes first
    by (auto simp: evaluateAfterCompletion_def Let_def split: lookup_read.split list.split)
qed

lemma evaluations_keep_marks:
  assumes "\<And>env inp. (env, inp) \<in> set calls \<Longrightarrow> utcDay (ce_now env) = day \<and> ceiling_rely day env" "marks_ok day W"
  shows "marks_ok day (fold (\<lambda>(env, inp) w. snd (evaluateAfterCompletion env inp w)) calls W)"
  using assms
proof (induction calls arbitrary: W)
  case (Cons c calls)
  obtain env inp where c: "c = (env, inp)" by fastforce
  have "marks_ok day (snd (evaluateAfterCompletion env inp W))"
    using evaluation_keeps_marks [of day env W inp] Cons.prems c by auto
  then have "marks_ok day (fold (\<lambda>(env, inp) w. snd (evaluateAfterCompletion env inp w)) calls (snd (evaluateAfterCompletion env inp W)))"
    using Cons.IH Cons.prems(1) by auto
  then show ?case by (simp add: c)
qed simp

end
