(* ===== verification/Fleet_Ceiling_Claims.thy ===== *)
theory Fleet_Ceiling_Claims
  imports Fleet_Ceiling_Laws Fleet_Demo
begin

text \<open>
  What the daily ceilings promise: a computer or fleet at its ceiling, or whose spend cannot be told, is
  stopped, exactly that is stopped, and a day has one notice. The last section is about what does not hold.
\<close>

section \<open>A fleet at its ceiling\<close>

definition demo_ceiling :: ceiling_env where
  "demo_ceiling = \<lparr>ce_now = 1000000, ce_fleet = demo_env, ce_defaultNodeCeiling = Some 100, ce_defaultFleetCeiling = None,
     ce_lookup = LookupReads, ce_nodeSum = SpendReads, ce_userSum = SpendReads, ce_listFails = False, ce_disableFails = (\<lambda>_. False),
     ce_releaseFails = (\<lambda>_. False), ce_nodeTripFails = False, ce_fleetTripFails = False, ce_inbox = InboxTakes, ce_rivals = (\<lambda>_ W. W)\<rparr>"

definition demo_completion :: ceiling_completion where
  "demo_completion = \<lparr>cc_userId = ''u'', cc_nodeId = Some demo_node_id, cc_jobId = ''other'', cc_costCents = None, cc_runId = None,
     cc_taskId = None, cc_agentId = None, cc_workId = None, cc_organizationId = None\<rparr>"

definition demo_costs :: cost_world where
  "demo_costs = \<lparr>cw_fleet = demo_leased, cw_policies = [], cw_notices = []\<rparr>"

lemma demo_costs_simps [simp]:
  "fl_nodes (cw_fleet demo_costs) = [(demo_node_id, demo_node)]" "cw_notices demo_costs = []" "cw_policies demo_costs = []"
  "reporting_node demo_completion = [demo_node_id]" "cc_userId demo_completion = ''u''"
  "owned_node ''u'' demo_node_id [(demo_node_id, demo_node)] = Some demo_node"
  by (simp_all add: demo_costs_def demo_leased_def demo_fleet_def demo_completion_def reporting_node_def owned_node_def
      demo_node_def) (simp add: demo_node_id_def)

section \<open>The properties\<close>

text \<open>When a ceiling trips: there is one, and the day's spend has reached it or cannot be told, because the run
  had no price or the sum could not be read.\<close>

definition at_ceiling :: "int option \<Rightarrow> int option \<Rightarrow> spend_read \<Rightarrow> bool" where
  "at_ceiling cents cost reading \<longleftrightarrow> (\<exists>c. cents = Some c \<and>
     (cost = None \<or> (case reading of SpendReads spend \<Rightarrow> c \<le> spend | _ \<Rightarrow> True)))"

lemma tripped_iff: "tripped (scope_verdict_of cents cost reading) \<longleftrightarrow> at_ceiling cents cost reading"
  by (auto simp: tripped_def scope_verdict_of_def evaluateScope_def at_ceiling_def NONE_def unevaluable_def split: option.splits spend_read.split)



text \<open>A day has one notice for each computer and one for each fleet, however many completions reach the
  ceiling that day and whatever fails, as long as nobody changes the ceiling in between and the evaluations
  read the same day from their clocks.\<close>

theorem one_notice_a_day:
  assumes "\<And>env inp. (env, inp) \<in> set calls \<Longrightarrow> utcDay (ce_now env) = day \<and> ceiling_rely day env"
    and "\<And>k. k \<in> set (cw_notices W) \<Longrightarrow> no_day k \<noteq> day"
  shows "notices_of sc day (fold (\<lambda>(env, inp) w. snd (evaluateAfterCompletion env inp w)) calls W) \<le> 1"
proof -
  have "notices_of sc' day W = 0" for sc' using assms(2) by (auto simp: notices_of_def filter_empty_conv)
  then have "marks_ok day W" by (simp add: marks_ok_def)
  from evaluations_keep_marks [OF assms(1) this] show ?thesis by (simp add: marks_ok_def)
qed

lemma one_notice_a_day_witness:
  "notices_of (NodeNotice demo_node_id) (utcDay 1000000)
     (fold (\<lambda>(env, inp) w. snd (evaluateAfterCompletion env inp w)) [(demo_ceiling, demo_completion), (demo_ceiling, demo_completion)] demo_costs) \<le> 1"
proof -
  have "ceiling_rely day demo_ceiling" for day by (simp add: ceiling_rely_def demo_ceiling_def)
  moreover have "ce_now demo_ceiling = 1000000" by (simp add: demo_ceiling_def)
  ultimately show ?thesis
    using one_notice_a_day [of "[(demo_ceiling, demo_completion), (demo_ceiling, demo_completion)]" "utcDay 1000000" demo_costs] by auto
qed

section \<open>What does not hold\<close>

text \<open>A drain that fails is announced as done: the notice counts one drained computer, which is still online.\<close>

lemma failed_drain_announced:
  assumes "ce_lookup env = LookupReads" "\<And>n. ce_disableFails env n" "\<And>m x. ce_rivals env m x = x" "ce_inbox env = InboxTakes"
    "\<not> ce_nodeTripFails env" "ce_defaultNodeCeiling env = Some c" "ce_defaultFleetCeiling env = None"
  shows "map no_drainedCount (cw_notices (snd (evaluateAfterCompletion env demo_completion demo_costs))) = [1] \<and>
     cv_drainedNodeIds (fst (evaluateAfterCompletion env demo_completion demo_costs)) = [] \<and>
     map_option fn_status (map_of (fl_nodes (cw_fleet (snd (evaluateAfterCompletion env demo_completion demo_costs)))) demo_node_id) = Some Online"
proof -
  have node: "reported_by demo_completion [(demo_node_id, demo_node)] = Some (demo_node_id, demo_node)"
    by (simp add: reported_by_Some)
  have trip: "tripped (node_verdict env demo_completion (Some (demo_node_id, demo_node)) jobs)" for jobs
    by (simp add: node_verdict_def tripped_iff at_ceiling_def node_ceiling_def effective_ceiling_def assms)
      (simp add: demo_completion_def demo_node_def)
  have none: "fleet_verdict env demo_completion [] jobs = NONE" for jobs
    by (simp add: fleet_verdict_def fleet_ceiling_def effective_ceiling_def scope_verdict_of_def assms)
  have mark: "fn_dailyCostTrippedOn demo_node = None" "fn_status demo_node = Online" by (simp_all add: demo_node_def)
  have idle: "drain env u n x = x" for u n x by (cases x) (simp add: drain_def assms)
  show ?thesis
    by (simp add: evaluateAfterCompletion_def node none trip trip_node_scope_def trip_fleet_scope_def tripNode_def
        idle notify_def on_nodes_def casTripDailyCeiling_def first_verdict_def mark assms Let_def)
qed

lemma failed_drain_is_announced:
  "map no_drainedCount (cw_notices (snd (evaluateAfterCompletion (demo_ceiling\<lparr>ce_disableFails := (\<lambda>_. True)\<rparr>) demo_completion demo_costs))) = [1] \<and>
     cv_drainedNodeIds (fst (evaluateAfterCompletion (demo_ceiling\<lparr>ce_disableFails := (\<lambda>_. True)\<rparr>) demo_completion demo_costs)) = [] \<and>
     map_option fn_status (map_of (fl_nodes (cw_fleet (snd (evaluateAfterCompletion (demo_ceiling\<lparr>ce_disableFails := (\<lambda>_. True)\<rparr>)
       demo_completion demo_costs)))) demo_node_id) = Some Online"
  by (rule failed_drain_announced [of _ 100]) (simp_all add: demo_ceiling_def)

text \<open>Around midnight the compare-and-set is won twice for one day: the mark remembers the last day only, so an
  evaluation of the old day that comes after one of the new day trips again.\<close>

lemma clocks_across_midnight_trip_twice:
  assumes "map_of T n = Some row" "fn_dailyCostTrippedOn row \<noteq> Some today" "today \<noteq> tomorrow"
  shows "let (first, T1) = casTripDailyCeiling n today T; (second, T2) = casTripDailyCeiling n tomorrow T1 in
     first \<and> second \<and> fst (casTripDailyCeiling n today T2)"
  using assms by (simp add: casTripDailyCeiling_def Let_def split: option.split)

end
