(* ===== verification/Budget.thy ===== *)
theory Budget
  imports Budget_Period Js_Values
begin

text \<open>
  Monthly caps on what a Work, a Mission or an Idea spends on plugins, and caps on what an Agent spends
  (\<open>budgets/budget.service.ts\<close>, \<open>budgets/budget-guard.service.ts\<close>, their repositories, and the precheck of a
  run in \<open>agents/agent-run.service.ts\<close>). Spend is summed from the usage rows; the guard runs before each
  plugin call, announces the thresholds the spend has crossed and refuses the call when a cap without
  overage is reached, or would be by the estimate. Percentages are exact.
\<close>

section \<open>Rows\<close>

datatype owner_type = WorkOwner | IdeaOwner | MissionOwner | AgentOwner
datatype usage_outcome = OutcomeOk | OutcomeCached | OutcomeFailed

record usage_event =
  ue_workId :: string
  ue_userId :: string
  ue_agentId :: "string option"
  ue_pluginId :: string
  ue_costCents :: int
  ue_currency :: string
  ue_ownerType :: owner_type
  ue_ownerId :: "string option"
  ue_outcome :: "usage_outcome option"
  ue_occurredAt :: int

datatype budget_scope = GlobalScope | PluginScope

record work_budget =
  wb_workId :: string
  wb_scope :: budget_scope
  wb_pluginId :: "string option"
  wb_monthlyCapCents :: int
  wb_currency :: string
  wb_allowOverage :: bool
  wb_ownerType :: owner_type
  wb_ownerId :: "string option"

datatype threshold = Percent75 | Percent90 | Percent100 | Overage

record alert_state =
  as_workId :: string
  as_budgetId :: string
  as_threshold :: threshold
  as_periodStart :: int

record threshold_event =
  te_workId :: string
  te_userId :: string
  te_budgetId :: string
  te_threshold :: threshold
  te_currentSpendCents :: int
  te_capCents :: int
  te_currency :: string
  te_capability :: string
  te_periodStart :: int
  te_pluginId :: string

record budget_world =
  bw_budgets :: "(string \<times> work_budget) list"
  bw_usage :: "usage_event list"
  bw_alerts :: "alert_state list"
  bw_events :: "threshold_event list"

section \<open>Sums of usage\<close>

text \<open>Failed calls are left out (\<open>excludeFailedCalls\<close>); a filter that is absent or empty is not applied.\<close>

definition given :: "string option \<Rightarrow> string \<Rightarrow> bool" where
  "given f v \<longleftrightarrow> (case f of None \<Rightarrow> True | Some x \<Rightarrow> x = [] \<or> v = x)"

definition not_failed :: "usage_event \<Rightarrow> bool" where
  "not_failed e \<longleftrightarrow> ue_outcome e \<noteq> Some OutcomeFailed"

definition total_spend :: "(usage_event \<Rightarrow> bool) \<Rightarrow> int \<Rightarrow> int \<Rightarrow> usage_event list \<Rightarrow> int" where
  "total_spend P start stop es = sum_list (map ue_costCents
     (filter (\<lambda>e. P e \<and> start \<le> ue_occurredAt e \<and> ue_occurredAt e < stop \<and> not_failed e) es))"

definition getTotalSpendCents :: "string \<Rightarrow> int \<Rightarrow> int \<Rightarrow> string option \<Rightarrow> string option \<Rightarrow> usage_event list \<Rightarrow> int" where
  "getTotalSpendCents workId start stop pluginId currency =
     total_spend (\<lambda>e. ue_workId e = workId \<and> given pluginId (ue_pluginId e) \<and> given currency (ue_currency e)) start stop"

definition getTotalSpendCentsForUser :: "string \<Rightarrow> int \<Rightarrow> int \<Rightarrow> string option \<Rightarrow> usage_event list \<Rightarrow> int" where
  "getTotalSpendCentsForUser userId start stop currency =
     total_spend (\<lambda>e. ue_userId e = userId \<and> given currency (ue_currency e)) start stop"

definition getTotalSpendCentsForOwner ::
  "owner_type \<Rightarrow> string option \<Rightarrow> int \<Rightarrow> int \<Rightarrow> string option \<Rightarrow> string option \<Rightarrow> usage_event list \<Rightarrow> int" where
  "getTotalSpendCentsForOwner ownerType ownerId start stop pluginId currency =
     total_spend (\<lambda>e. ue_ownerType e = ownerType \<and> ownerId \<noteq> None \<and> ue_ownerId e = ownerId \<and>
       given pluginId (ue_pluginId e) \<and> given currency (ue_currency e)) start stop"

definition getTotalSpendCentsForAgent ::
  "string \<Rightarrow> string \<Rightarrow> int \<Rightarrow> int \<Rightarrow> string option \<Rightarrow> usage_event list \<Rightarrow> int" where
  "getTotalSpendCentsForAgent userId agentId start stop currency =
     total_spend (\<lambda>e. ue_userId e = userId \<and> ue_agentId e = Some agentId \<and> given currency (ue_currency e)) start stop"

section \<open>Budgets that apply\<close>

definition find_budget :: "(work_budget \<Rightarrow> bool) \<Rightarrow> (string \<times> work_budget) list \<Rightarrow> (string \<times> work_budget) option" where
  "find_budget P = find (\<lambda>e. P (snd e))"

definition findGlobal :: "string \<Rightarrow> (string \<times> work_budget) list \<Rightarrow> (string \<times> work_budget) option" where
  "findGlobal workId = find_budget (\<lambda>b. wb_workId b = workId \<and> wb_scope b = GlobalScope \<and> wb_pluginId b = None)"

definition findForPlugin :: "string \<Rightarrow> string \<Rightarrow> (string \<times> work_budget) list \<Rightarrow> (string \<times> work_budget) option" where
  "findForPlugin workId pluginId =
     find_budget (\<lambda>b. wb_workId b = workId \<and> wb_scope b = PluginScope \<and> wb_pluginId b = Some pluginId)"

definition findGlobalForOwner :: "owner_type \<times> string \<Rightarrow> (string \<times> work_budget) list \<Rightarrow> (string \<times> work_budget) option" where
  "findGlobalForOwner owner =
     find_budget (\<lambda>b. wb_ownerType b = fst owner \<and> wb_ownerId b = Some (snd owner) \<and> wb_scope b = GlobalScope \<and> wb_pluginId b = None)"

definition findForOwnerPlugin ::
  "owner_type \<times> string \<Rightarrow> string \<Rightarrow> (string \<times> work_budget) list \<Rightarrow> (string \<times> work_budget) option" where
  "findForOwnerPlugin owner pluginId =
     find_budget (\<lambda>b. wb_ownerType b = fst owner \<and> wb_ownerId b = Some (snd owner) \<and> wb_scope b = PluginScope \<and> wb_pluginId b = Some pluginId)"

definition getApplicableBudgets ::
  "string \<Rightarrow> string \<Rightarrow> (string \<times> work_budget) list \<Rightarrow> (string \<times> work_budget) option \<times> (string \<times> work_budget) option" where
  "getApplicableBudgets workId pluginId bs = (findGlobal workId bs, findForPlugin workId pluginId bs)"

definition getApplicableBudgetsForOwner ::
  "owner_type \<times> string \<Rightarrow> string \<Rightarrow> (string \<times> work_budget) list \<Rightarrow> (string \<times> work_budget) option \<times> (string \<times> work_budget) option" where
  "getApplicableBudgetsForOwner owner pluginId bs = (findGlobalForOwner owner bs, findForOwnerPlugin owner pluginId bs)"

section \<open>Evaluating a budget\<close>

definition getCurrentSpendCents :: "string \<Rightarrow> string option \<Rightarrow> int \<Rightarrow> string option \<Rightarrow> usage_event list \<Rightarrow> int" where
  "getCurrentSpendCents workId pluginId now currency =
     getTotalSpendCents workId (month_period_start now) (next_month_period_start now) pluginId currency"

record evaluation =
  ev_budgetId :: string
  ev_budget :: work_budget
  ev_currentSpendCents :: int
  ev_capCents :: int
  ev_percentUsed :: rat
  ev_crossedThresholds :: "threshold list"
  ev_blocked :: bool

definition THRESHOLD_PERCENTS :: "(threshold \<times> rat) list" where
  "THRESHOLD_PERCENTS = [(Percent75, 75), (Percent90, 90), (Percent100, 100)]"

definition budget_spend :: "work_budget \<Rightarrow> int \<Rightarrow> usage_event list \<Rightarrow> int" where
  "budget_spend b now es =
     (let ownerId = (case wb_ownerId b of None \<Rightarrow> Some (wb_workId b) | Some i \<Rightarrow> Some i) in
      if wb_ownerType b \<noteq> WorkOwner
      then getTotalSpendCentsForOwner (wb_ownerType b) ownerId (month_period_start now) (next_month_period_start now)
             (wb_pluginId b) (Some (wb_currency b)) es
      else getCurrentSpendCents (wb_workId b) (wb_pluginId b) now (Some (wb_currency b)) es)"

definition percent_of :: "int \<Rightarrow> int \<Rightarrow> rat" where
  "percent_of spend cap = of_int spend / of_int cap * 100"

definition crossed_thresholds :: "rat \<Rightarrow> bool \<Rightarrow> threshold list" where
  "crossed_thresholds percentUsed allowOverage =
     map fst (filter (\<lambda>(_, minPercent). minPercent \<le> percentUsed) THRESHOLD_PERCENTS) @
     (if 100 < percentUsed \<and> allowOverage then [Overage] else [])"

definition evaluateBudget :: "string \<times> work_budget \<Rightarrow> int \<Rightarrow> usage_event list \<Rightarrow> evaluation" where
  "evaluateBudget ib now es =
     (let b = snd ib;
          spend = budget_spend b now es;
          cap = wb_monthlyCapCents b;
          percentUsed = (if 0 < cap then percent_of spend cap else 0)
      in \<lparr>ev_budgetId = fst ib, ev_budget = b, ev_currentSpendCents = spend, ev_capCents = cap, ev_percentUsed = percentUsed,
          ev_crossedThresholds = crossed_thresholds percentUsed (wb_allowOverage b),
          ev_blocked = (cap \<le> spend \<and> \<not> wb_allowOverage b)\<rparr>)"

section \<open>Summaries\<close>

definition toISOString :: "int \<Rightarrow> string" where
  "toISOString ms = iso_date ms @ ''T00:00:00.000Z''"

record budget_summary =
  bs_periodStart :: string
  bs_periodEnd :: string
  bs_currentSpendCents :: int
  bs_capCents :: "int option"
  bs_currency :: string
  bs_percentUsed :: "rat option"
  bs_allowOverage :: bool
  bs_blocked :: bool

definition summary_of :: "int \<Rightarrow> int \<Rightarrow> int option \<Rightarrow> string \<Rightarrow> bool \<Rightarrow> budget_summary" where
  "summary_of now spend cap currency overage =
     \<lparr>bs_periodStart = toISOString (month_period_start now), bs_periodEnd = toISOString (next_month_period_start now),
      bs_currentSpendCents = spend, bs_capCents = cap, bs_currency = currency,
      bs_percentUsed = (case cap of Some c \<Rightarrow> if 0 < c then Some (percent_of spend c) else None | None \<Rightarrow> None),
      bs_allowOverage = overage,
      bs_blocked = (case cap of Some c \<Rightarrow> c \<le> spend \<and> \<not> overage | None \<Rightarrow> False)\<rparr>"

definition summarizeForUser :: "string \<Rightarrow> int option \<Rightarrow> bool \<Rightarrow> string option \<Rightarrow> int \<Rightarrow> usage_event list \<Rightarrow> budget_summary" where
  "summarizeForUser userId capCents allowOverage currency now es =
     (let cur = (case currency of Some c \<Rightarrow> c | None \<Rightarrow> ''usd'') in
      summary_of now (getTotalSpendCentsForUser userId (month_period_start now) (next_month_period_start now) (Some cur) es)
        capCents cur allowOverage)"

definition summarizeForOwner :: "owner_type \<times> string \<Rightarrow> int \<Rightarrow> budget_world \<Rightarrow> budget_summary" where
  "summarizeForOwner owner now W =
     (let glob = map_option snd (findGlobalForOwner owner (bw_budgets W));
          spend = getTotalSpendCentsForOwner (fst owner) (Some (snd owner)) (month_period_start now) (next_month_period_start now)
                    None None (bw_usage W)
      in summary_of now spend (map_option wb_monthlyCapCents glob)
           (case glob of Some b \<Rightarrow> wb_currency b | None \<Rightarrow> ''usd'')
           (case glob of Some b \<Rightarrow> wb_allowOverage b | None \<Rightarrow> True))"

section \<open>The guard\<close>

text \<open>The insert of an alert row: the unique index on budget, threshold and period decides. The table of
  inserts that fail for another reason is an argument, and so are the writes of other callers before each
  insert.\<close>

definition alert_key :: "alert_state \<Rightarrow> string \<times> threshold \<times> int" where
  "alert_key a = (as_budgetId a, as_threshold a, as_periodStart a)"

definition record_alert :: "string \<Rightarrow> string \<Rightarrow> threshold \<Rightarrow> int \<Rightarrow> alert_state list \<Rightarrow> bool \<times> alert_state list" where
  "record_alert workId budgetId th periodStart T =
     (if (budgetId, th, periodStart) \<in> alert_key ` set T then (False, T)
      else (True, T @ [\<lparr>as_workId = workId, as_budgetId = budgetId, as_threshold = th, as_periodStart = periodStart\<rparr>]))"

record guard_env =
  ge_now :: int
  ge_insertFails :: "string \<Rightarrow> threshold \<Rightarrow> bool"
  ge_rivals :: "budget_world \<Rightarrow> budget_world"

record guard_call =
  gc_workId :: string
  gc_userId :: string
  gc_capability :: string
  gc_pluginId :: string
  gc_estimatedCostCents :: "js_number option"
  gc_owner :: "(owner_type \<times> string) option"

definition dispatch_one :: "guard_env \<Rightarrow> guard_call \<Rightarrow> evaluation \<Rightarrow> threshold \<Rightarrow> budget_world \<Rightarrow> budget_world" where
  "dispatch_one env call ev th W0 =
     (let W = ge_rivals env W0; period = month_period_start (ge_now env); b = ev_budget ev in
      if ge_insertFails env (ev_budgetId ev) th then W
      else case record_alert (wb_workId b) (ev_budgetId ev) th period (bw_alerts W) of
        (False, _) \<Rightarrow> W
      | (True, T) \<Rightarrow> W\<lparr>bw_alerts := T, bw_events := bw_events W @
          [\<lparr>te_workId = wb_workId b, te_userId = gc_userId call, te_budgetId = ev_budgetId ev, te_threshold = th,
            te_currentSpendCents = ev_currentSpendCents ev, te_capCents = ev_capCents ev, te_currency = wb_currency b,
            te_capability = gc_capability call, te_periodStart = period,
            te_pluginId = (case wb_pluginId b of Some p \<Rightarrow> p | None \<Rightarrow> gc_pluginId call)\<rparr>]\<rparr>)"

definition dispatchAlerts :: "guard_env \<Rightarrow> guard_call \<Rightarrow> evaluation \<Rightarrow> budget_world \<Rightarrow> budget_world" where
  "dispatchAlerts env call ev = fold (dispatch_one env call ev) (ev_crossedThresholds ev)"

fun estimate :: "js_number option \<Rightarrow> js_number" where
  "estimate None = Fin 0"
| "estimate (Some (Fin q)) = Fin (of_int (max 0 \<lfloor>q + 1 / 2\<rfloor>))"
| "estimate (Some NegInf) = Fin 0"
| "estimate (Some x) = x"

fun would_pass :: "int \<Rightarrow> js_number \<Rightarrow> int \<Rightarrow> bool" where
  "would_pass spend (Fin q) cap = (of_int cap < of_int spend + q)"
| "would_pass spend PosInf cap = True"
| "would_pass spend _ cap = False"

record budget_exceeded =
  be_workId :: string
  be_scope :: budget_scope
  be_pluginId :: "string option"
  be_currentSpendCents :: int
  be_capCents :: int
  be_currency :: string

definition exceeded_by :: "guard_call \<Rightarrow> evaluation \<Rightarrow> budget_exceeded" where
  "exceeded_by call ev = \<lparr>be_workId = gc_workId call, be_scope = wb_scope (ev_budget ev), be_pluginId = wb_pluginId (ev_budget ev),
     be_currentSpendCents = ev_currentSpendCents ev, be_capCents = ev_capCents ev, be_currency = wb_currency (ev_budget ev)\<rparr>"

definition applicable_budgets :: "guard_call \<Rightarrow> (string \<times> work_budget) list \<Rightarrow> (string \<times> work_budget) list" where
  "applicable_budgets call bs =
     (case (case gc_owner call of
              Some owner \<Rightarrow> getApplicableBudgetsForOwner owner (gc_pluginId call) bs
            | None \<Rightarrow> getApplicableBudgets (gc_workId call) (gc_pluginId call) bs) of
       (glob, plugin) \<Rightarrow> (case glob of Some b \<Rightarrow> [b] | None \<Rightarrow> []) @ (case plugin of Some b \<Rightarrow> [b] | None \<Rightarrow> []))"

definition evaluations :: "guard_env \<Rightarrow> guard_call \<Rightarrow> budget_world \<Rightarrow> evaluation list" where
  "evaluations env call W = map (\<lambda>b. evaluateBudget b (ge_now env) (bw_usage W)) (applicable_budgets call (bw_budgets W))"

definition checkBudget :: "guard_env \<Rightarrow> guard_call \<Rightarrow> budget_world \<Rightarrow> budget_exceeded option \<times> budget_world" where
  "checkBudget env call W =
     (let est = estimate (gc_estimatedCostCents call);
          evs = evaluations env call W
      in if evs = [] then (None, W)
         else let W' = fold (dispatchAlerts env call) evs W in
           case find ev_blocked evs of
             Some ev \<Rightarrow> (Some (exceeded_by call ev), W')
           | None \<Rightarrow>
              if js_less (Fin 0) est
              then case find (\<lambda>ev. \<not> wb_allowOverage (ev_budget ev) \<and> would_pass (ev_currentSpendCents ev) est (ev_capCents ev)) evs of
                     Some ev \<Rightarrow> (Some (exceeded_by call ev), W')
                   | None \<Rightarrow> (None, W')
              else (None, W'))"

section \<open>The budget of an Agent\<close>

record agent_budget =
  ab_agentId :: string
  ab_intervalUnit :: interval_unit
  ab_intervalCount :: "int option"
  ab_capCents :: "int option"
  ab_currency :: "string option"
  ab_allowOverage :: bool

datatype run_budget_reason = BudgetOk | OverCap | NoLimit | NoBudget | Unevaluable

record run_budget_check =
  rc_allowed :: bool
  rc_reason :: run_budget_reason
  rc_currentSpendCents :: int
  rc_capCents :: "int option"
  rc_periodStart :: int
  rc_periodEnd :: int

text \<open>The reading of the spend: the usage repository may be missing or throw. The row's own Agent id is compared
  again; a row of another Agent throws, which is None. A failed read of the budget row is no budget.\<close>

definition checkAgentBudget ::
  "bool \<Rightarrow> int \<Rightarrow> string \<Rightarrow> string \<Rightarrow> agent_budget option \<Rightarrow> usage_event list \<Rightarrow> run_budget_check option" where
  "checkAgentBudget readable now userId agentId budget es = (case budget of
     None \<Rightarrow> Some \<lparr>rc_allowed = True, rc_reason = NoBudget, rc_currentSpendCents = 0, rc_capCents = None,
               rc_periodStart = 0, rc_periodEnd = MAX_DATE\<rparr>
   | Some b \<Rightarrow>
      if ab_agentId b \<noteq> [] \<and> ab_agentId b \<noteq> agentId then None
      else
        let count = (case ab_intervalCount b of Some c \<Rightarrow> c | None \<Rightarrow> 1);
            start = getCurrentPeriodStart (ab_intervalUnit b) now count;
            stop = getNextPeriodStart (ab_intervalUnit b) now count;
            answer = (\<lambda>allowed reason spend. Some \<lparr>rc_allowed = allowed, rc_reason = reason, rc_currentSpendCents = spend,
                        rc_capCents = ab_capCents b, rc_periodStart = start, rc_periodEnd = stop\<rparr>)
        in case ab_capCents b of
             None \<Rightarrow> answer True NoLimit 0
           | Some cap \<Rightarrow>
              if ab_intervalUnit b = Unlimited then answer True NoLimit 0
              else if \<not> readable then answer False Unevaluable 0
              else let spend = getTotalSpendCentsForAgent userId agentId start stop
                                 (Some (case ab_currency b of Some c \<Rightarrow> c | None \<Rightarrow> ''usd'')) es
                   in if spend < cap then answer True BudgetOk spend else answer False OverCap spend)"

end
