(* ===== verification/Budget_Laws.thy ===== *)
theory Budget_Laws
  imports Budget "HOL-Library.AList"
begin

text \<open>
  The laws of the guard: which calls it admits, what its alerts leave behind, and what one paid call adds to
  the spend of a budget.
\<close>

lemma estimate_whole: "estimate (Some (Fin (of_int k))) = Fin (of_int (max 0 k))"
proof -
  have "\<lfloor>of_int k + 1 / 2 :: rat\<rfloor> = k" by (rule floor_unique) simp_all
  then show ?thesis by simp
qed

section \<open>Admission\<close>

lemma evaluations_nil: "evaluations env call W = [] \<longleftrightarrow> applicable_budgets call (bw_budgets W) = []"
  by (simp add: evaluations_def)

lemma evaluateBudget_simps [simp]:
  "ev_budgetId (evaluateBudget ib now es) = fst ib" "ev_budget (evaluateBudget ib now es) = snd ib"
  "ev_currentSpendCents (evaluateBudget ib now es) = budget_spend (snd ib) now es"
  "ev_capCents (evaluateBudget ib now es) = wb_monthlyCapCents (snd ib)"
  "ev_blocked (evaluateBudget ib now es) \<longleftrightarrow>
     wb_monthlyCapCents (snd ib) \<le> budget_spend (snd ib) now es \<and> \<not> wb_allowOverage (snd ib)"
  by (simp_all add: evaluateBudget_def Let_def)

text \<open>A budget that stops a call: no overage, and the cap reached or passed by the estimate.\<close>

definition stops :: "js_number \<Rightarrow> int \<Rightarrow> usage_event list \<Rightarrow> work_budget \<Rightarrow> bool" where
  "stops est now es b \<longleftrightarrow> \<not> wb_allowOverage b \<and>
     (wb_monthlyCapCents b \<le> budget_spend b now es \<or>
      js_less (Fin 0) est \<and> would_pass (budget_spend b now es) est (wb_monthlyCapCents b))"

lemma checkBudget_result:
  "fst (checkBudget env call W) =
     (let est = estimate (gc_estimatedCostCents call); evs = evaluations env call W in
      case find ev_blocked evs of
        Some ev \<Rightarrow> Some (exceeded_by call ev)
      | None \<Rightarrow> if js_less (Fin 0) est
          then map_option (exceeded_by call)
            (find (\<lambda>ev. \<not> wb_allowOverage (ev_budget ev) \<and> would_pass (ev_currentSpendCents ev) est (ev_capCents ev)) evs)
          else None)"
  by (auto simp: checkBudget_def Let_def split: option.split)

lemma checkBudget_admits:
  "fst (checkBudget env call W) = None \<longleftrightarrow>
     (\<forall>ib \<in> set (applicable_budgets call (bw_budgets W)).
        \<not> stops (estimate (gc_estimatedCostCents call)) (ge_now env) (bw_usage W) (snd ib))"
proof (cases "find ev_blocked (evaluations env call W)")
  case None
  then have free: "\<forall>ev \<in> set (evaluations env call W). \<not> ev_blocked ev" by (simp add: find_None_iff)
  have "fst (checkBudget env call W) = None \<longleftrightarrow> (js_less (Fin 0) (estimate (gc_estimatedCostCents call)) \<longrightarrow>
      (\<forall>ev \<in> set (evaluations env call W). wb_allowOverage (ev_budget ev) \<or>
        \<not> would_pass (ev_currentSpendCents ev) (estimate (gc_estimatedCostCents call)) (ev_capCents ev)))"
    by (auto simp: checkBudget_result Let_def None find_None_iff)
  then show ?thesis using free by (auto simp: evaluations_def stops_def not_le)
next
  case (Some ev)
  then have "ev \<in> set (evaluations env call W)" "ev_blocked ev" using find_SomeD by fast+
  then have "\<exists>ib \<in> set (applicable_budgets call (bw_budgets W)). stops (estimate (gc_estimatedCostCents call)) (ge_now env) (bw_usage W) (snd ib)"
    by (force simp: evaluations_def stops_def)
  then show ?thesis using Some by (auto simp: checkBudget_result Let_def)
qed

lemma checkBudget_refuses:
  assumes "fst (checkBudget env call W) = Some x"
  obtains ib where "ib \<in> set (applicable_budgets call (bw_budgets W))"
    "stops (estimate (gc_estimatedCostCents call)) (ge_now env) (bw_usage W) (snd ib)"
    "x = exceeded_by call (evaluateBudget ib (ge_now env) (bw_usage W))"
proof -
  let ?est = "estimate (gc_estimatedCostCents call)"
  obtain ev where ev: "ev \<in> set (evaluations env call W)" "x = exceeded_by call ev"
    "ev_blocked ev \<or> js_less (Fin 0) ?est \<and> \<not> wb_allowOverage (ev_budget ev) \<and> would_pass (ev_currentSpendCents ev) ?est (ev_capCents ev)"
    using assms by (auto simp: checkBudget_result Let_def dest!: find_SomeD split: option.splits if_splits)
  then show thesis using that by (auto simp: evaluations_def stops_def)
qed

section \<open>Alerts\<close>

definition event_key :: "threshold_event \<Rightarrow> string \<times> threshold \<times> int" where
  "event_key e = (te_budgetId e, te_threshold e, te_periodStart e)"

text \<open>The announced threshold has been crossed, in whole cents.\<close>

definition truthful :: "threshold_event \<Rightarrow> bool" where
  "truthful e \<longleftrightarrow> 0 < te_capCents e \<and> (case te_threshold e of
      Percent75 \<Rightarrow> 75 * te_capCents e \<le> 100 * te_currentSpendCents e
    | Percent90 \<Rightarrow> 90 * te_capCents e \<le> 100 * te_currentSpendCents e
    | Percent100 \<Rightarrow> te_capCents e \<le> te_currentSpendCents e
    | Overage \<Rightarrow> te_capCents e < te_currentSpendCents e)"

definition alerts_ok :: "budget_world \<Rightarrow> bool" where
  "alerts_ok W \<longleftrightarrow> distinct (map alert_key (bw_alerts W)) \<and> distinct (map event_key (bw_events W)) \<and>
     event_key ` set (bw_events W) \<subseteq> alert_key ` set (bw_alerts W) \<and> (\<forall>e \<in> set (bw_events W). truthful e)"

lemma percent_of_cents:
  assumes "0 < cap"
  shows "of_int k \<le> percent_of spend cap \<longleftrightarrow> k * cap \<le> 100 * spend" "of_int k < percent_of spend cap \<longleftrightarrow> k * cap < 100 * spend"
proof -
  have c: "0 < (of_int cap :: rat)" using assms by simp
  have "of_int k \<le> percent_of spend cap \<longleftrightarrow> of_int k * of_int cap \<le> (100 * of_int spend :: rat)"
    using c by (simp add: percent_of_def field_simps)
  also have "\<dots> \<longleftrightarrow> (of_int (k * cap) :: rat) \<le> of_int (100 * spend)" by simp
  finally show "of_int k \<le> percent_of spend cap \<longleftrightarrow> k * cap \<le> 100 * spend" by (simp only: of_int_le_iff)
  have "of_int k < percent_of spend cap \<longleftrightarrow> of_int k * of_int cap < (100 * of_int spend :: rat)"
    using c by (simp add: percent_of_def field_simps)
  also have "\<dots> \<longleftrightarrow> (of_int (k * cap) :: rat) < of_int (100 * spend)" by simp
  finally show "of_int k < percent_of spend cap \<longleftrightarrow> k * cap < 100 * spend" by (simp only: of_int_less_iff)
qed

lemma crossed_truthful:
  assumes "th \<in> set (ev_crossedThresholds (evaluateBudget ib now es))"
    "te_threshold e = th" "te_capCents e = wb_monthlyCapCents (snd ib)" "te_currentSpendCents e = budget_spend (snd ib) now es"
  shows "truthful e"
proof -
  have "0 < wb_monthlyCapCents (snd ib)" "th \<in> set (crossed_thresholds (percent_of (budget_spend (snd ib) now es) (wb_monthlyCapCents (snd ib))) (wb_allowOverage (snd ib)))"
    using assms(1) by (auto simp: evaluateBudget_def Let_def crossed_thresholds_def THRESHOLD_PERCENTS_def split: if_splits)
  then show ?thesis
    using assms(2-4) percent_of_cents [of "wb_monthlyCapCents (snd ib)" 75 "budget_spend (snd ib) now es"]
      percent_of_cents [of "wb_monthlyCapCents (snd ib)" 90 "budget_spend (snd ib) now es"]
      percent_of_cents [of "wb_monthlyCapCents (snd ib)" 100 "budget_spend (snd ib) now es"]
    by (auto simp: truthful_def crossed_thresholds_def THRESHOLD_PERCENTS_def split: if_splits)
qed

definition budget_rely :: "guard_env \<Rightarrow> bool" where
  "budget_rely env \<longleftrightarrow> (\<forall>W. alerts_ok W \<longrightarrow> alerts_ok (ge_rivals env W))"

lemma dispatch_one_ok:
  assumes "budget_rely env" "alerts_ok W" "ev = evaluateBudget ib (ge_now env) es" "th \<in> set (ev_crossedThresholds ev)"
  shows "alerts_ok (dispatch_one env call ev th W)"
proof -
  have ok: "alerts_ok (ge_rivals env W)" using assms(1,2) by (simp add: budget_rely_def)
  show ?thesis
  proof (cases "ge_insertFails env (ev_budgetId ev) th \<or>
      (ev_budgetId ev, th, month_period_start (ge_now env)) \<in> alert_key ` set (bw_alerts (ge_rivals env W))")
    case True
    then show ?thesis using ok by (auto simp: dispatch_one_def Let_def record_alert_def)
  next
    case False
    then show ?thesis
      using ok crossed_truthful [OF assms(4) [unfolded assms(3)]]
      by (auto simp: dispatch_one_def Let_def record_alert_def alerts_ok_def alert_key_def event_key_def assms(3))
  qed
qed

lemma dispatch_ok:
  assumes "budget_rely env" "ev = evaluateBudget ib (ge_now env) es" "set ths \<subseteq> set (ev_crossedThresholds ev)" "alerts_ok W"
  shows "alerts_ok (fold (dispatch_one env call ev) ths W)"
  using assms(3,4) by (induction ths arbitrary: W) (auto intro: dispatch_one_ok [OF assms(1) _ assms(2)])

lemma dispatch_all_ok:
  assumes "budget_rely env" "alerts_ok W"
  shows "alerts_ok (fold (dispatchAlerts env call) (map (\<lambda>ib. evaluateBudget ib (ge_now env) es) ibs) W)"
  using assms(2)
  by (induction ibs arbitrary: W) (auto simp: dispatchAlerts_def intro: dispatch_ok [OF assms(1) refl])

lemma checkBudget_alerts_ok:
  assumes "budget_rely env" "alerts_ok W"
  shows "alerts_ok (snd (checkBudget env call W))"
  using dispatch_all_ok [OF assms] assms(2)
  by (auto simp: checkBudget_def Let_def evaluations_def split: option.split)

section \<open>Everything that happens to budgets\<close>

datatype budget_move =
    Check guard_env guard_call
  | RecordUsage usage_event
  | SetBudget string work_budget
  | DropBudget string

fun budget_step :: "budget_move \<Rightarrow> budget_world \<Rightarrow> budget_world" where
  "budget_step (Check env call) W = snd (checkBudget env call W)"
| "budget_step (RecordUsage e) W = W\<lparr>bw_usage := bw_usage W @ [e]\<rparr>"
| "budget_step (SetBudget i b) W = W\<lparr>bw_budgets := AList.update i b (bw_budgets W)\<rparr>"
| "budget_step (DropBudget i) W = W\<lparr>bw_budgets := AList.delete i (bw_budgets W)\<rparr>"

definition run_moves :: "budget_move list \<Rightarrow> budget_world \<Rightarrow> budget_world" where
  "run_moves = fold budget_step"

lemma run_moves_ok:
  assumes "\<And>env call. Check env call \<in> set moves \<Longrightarrow> budget_rely env" "alerts_ok W"
  shows "alerts_ok (run_moves moves W)"
  using assms
proof (induction moves arbitrary: W)
  case (Cons mv moves)
  have "alerts_ok (budget_step mv W)"
    using Cons.prems by (cases mv) (auto intro: checkBudget_alerts_ok, auto simp: alerts_ok_def)
  then have "alerts_ok (run_moves moves (budget_step mv W))" using Cons.IH Cons.prems(1) by auto
  then show ?case by (simp add: run_moves_def)
qed (simp add: run_moves_def)

section \<open>Paid calls\<close>

text \<open>A plugin call under the guard: refused, or made and recorded.\<close>

definition paid_call :: "guard_env \<times> guard_call \<times> usage_event \<Rightarrow> budget_world \<Rightarrow> budget_world" where
  "paid_call = (\<lambda>(env, call, e) W. case checkBudget env call W of
     (None, W') \<Rightarrow> W'\<lparr>bw_usage := bw_usage W' @ [e]\<rparr>
   | (Some _, W') \<Rightarrow> W')"

definition same_month :: "int \<Rightarrow> int \<Rightarrow> bool" where
  "same_month a b \<longleftrightarrow> month_index (a div DAY_MS) = month_index (b div DAY_MS)"

text \<open>What the facades do: the check is for the Work and plugin that are billed, and the estimate is not below
  the cost.\<close>

definition honest_call :: "int \<Rightarrow> guard_env \<times> guard_call \<times> usage_event \<Rightarrow> bool" where
  "honest_call now = (\<lambda>(env, call, e). gc_owner call = None \<and> ue_workId e = gc_workId call \<and>
     ue_pluginId e = gc_pluginId call \<and> js_le (Fin (of_int (ue_costCents e))) (estimate (gc_estimatedCostCents call)) \<and>
     same_month (ge_now env) now \<and> (\<forall>W. ge_rivals env W = W))"

text \<open>The budget the code finds for its Work: the global one, or the one of its plugin.\<close>

definition governs :: "string \<Rightarrow> work_budget \<Rightarrow> (string \<times> work_budget) list \<Rightarrow> bool" where
  "governs i b bs \<longleftrightarrow> wb_ownerType b = WorkOwner \<and>
     (case wb_pluginId b of
        None \<Rightarrow> findGlobal (wb_workId b) bs = Some (i, b)
      | Some p \<Rightarrow> p \<noteq> [] \<and> findForPlugin (wb_workId b) p bs = Some (i, b))"

lemma month_periods_same:
  "same_month a b \<Longrightarrow> month_period_start a = month_period_start b \<and> next_month_period_start a = next_month_period_start b"
  by (simp add: same_month_def month_period_start next_month_period_start)

lemma total_spend_snoc:
  "total_spend P start stop (es @ [e]) =
     total_spend P start stop es + (if P e \<and> start \<le> ue_occurredAt e \<and> ue_occurredAt e < stop \<and> not_failed e then ue_costCents e else 0)"
  by (simp add: total_spend_def)

lemma budget_spend_work:
  assumes "wb_ownerType b = WorkOwner"
  shows "budget_spend b now es = total_spend (\<lambda>e. ue_workId e = wb_workId b \<and> given (wb_pluginId b) (ue_pluginId e) \<and>
     given (Some (wb_currency b)) (ue_currency e)) (month_period_start now) (next_month_period_start now) es"
  using assms by (simp add: budget_spend_def getCurrentSpendCents_def getTotalSpendCents_def)

lemma dispatch_quiet:
  assumes "\<And>W. ge_rivals env W = W"
  shows "bw_usage (dispatch_one env call ev th W) = bw_usage W \<and> bw_budgets (dispatch_one env call ev th W) = bw_budgets W"
  by (auto simp: dispatch_one_def Let_def assms split: prod.split bool.split)

lemma dispatches_quiet:
  assumes "\<And>W. ge_rivals env W = W"
  shows "bw_usage (fold (dispatch_one env call ev) ths W) = bw_usage W \<and> bw_budgets (fold (dispatch_one env call ev) ths W) = bw_budgets W"
  by (induction ths arbitrary: W) (simp_all add: dispatch_quiet [OF assms])

lemma alerts_quiet:
  assumes "\<And>W. ge_rivals env W = W"
  shows "bw_usage (fold (dispatchAlerts env call) evs W) = bw_usage W \<and> bw_budgets (fold (dispatchAlerts env call) evs W) = bw_budgets W"
  by (induction evs arbitrary: W) (simp_all add: dispatchAlerts_def dispatches_quiet [OF assms])

lemma check_quiet:
  assumes "\<And>W. ge_rivals env W = W"
  shows "bw_usage (snd (checkBudget env call W)) = bw_usage W" "bw_budgets (snd (checkBudget env call W)) = bw_budgets W"
  using alerts_quiet [OF assms] by (auto simp: checkBudget_def Let_def split: option.split)

text \<open>An admitted call that counts towards a hard budget leaves its spend within the cap.\<close>

lemma admitted_within:
  assumes "governs i b (bw_budgets W)" "\<not> wb_allowOverage b" "honest_call now (env, call, e)"
    and "fst (checkBudget env call W) = None"
    and "ue_workId e = wb_workId b" "given (wb_pluginId b) (ue_pluginId e)"
  shows "budget_spend b now (bw_usage W) + ue_costCents e \<le> wb_monthlyCapCents b"
proof -
  let ?est = "estimate (gc_estimatedCostCents call)" and ?spend = "budget_spend b now (bw_usage W)"
  have call: "gc_owner call = None" "gc_workId call = wb_workId b" "gc_pluginId call = ue_pluginId e"
    and cost: "js_le (Fin (of_int (ue_costCents e))) ?est" and month: "same_month (ge_now env) now"
    using assms(3,5) by (simp_all add: honest_call_def)
  have "(i, b) \<in> set (applicable_budgets call (bw_budgets W))"
    using assms(1,6) by (auto simp: applicable_budgets_def getApplicableBudgets_def call governs_def given_def split: option.splits)
  then have "\<not> stops ?est (ge_now env) (bw_usage W) b" using assms(4) unfolding checkBudget_admits by fastforce
  moreover have "budget_spend b (ge_now env) (bw_usage W) = ?spend"
    using month_periods_same [OF month] assms(1) by (simp add: budget_spend_work governs_def)
  ultimately have free: "?spend < wb_monthlyCapCents b" "js_less (Fin 0) ?est \<longrightarrow> \<not> would_pass ?spend ?est (wb_monthlyCapCents b)"
    using assms(2) by (simp_all add: stops_def)
  show ?thesis
  proof (cases ?est)
    case (Fin q)
    have q: "of_int (ue_costCents e) \<le> q" using cost Fin by simp
    show ?thesis
    proof (cases "0 < q")
      case True
      then have "of_int ?spend + q \<le> of_int (wb_monthlyCapCents b)" using free(2) Fin by simp
      then have "(of_int (?spend + ue_costCents e) :: rat) \<le> of_int (wb_monthlyCapCents b)" using q by simp
      then show ?thesis by (simp only: of_int_le_iff)
    next
      case False
      then have "(of_int (ue_costCents e) :: rat) \<le> 0" using q by linarith
      then have "ue_costCents e \<le> 0" by simp
      then show ?thesis using free(1) by linarith
    qed
  qed (use cost free in simp_all)
qed

lemma paid_call_within:
  assumes "governs i b (bw_budgets W)" "\<not> wb_allowOverage b" "honest_call now (env, call, e)"
    and "budget_spend b now (bw_usage W) \<le> wb_monthlyCapCents b"
  shows "budget_spend b now (bw_usage (paid_call (env, call, e) W)) \<le> wb_monthlyCapCents b \<and>
    bw_budgets (paid_call (env, call, e) W) = bw_budgets W"
proof -
  have quiet: "\<And>W. ge_rivals env W = W" using assms(3) by (simp add: honest_call_def)
  obtain res W' where r: "checkBudget env call W = (res, W')" by fastforce
  have same: "bw_usage W' = bw_usage W" "bw_budgets W' = bw_budgets W" using check_quiet [OF quiet, of call W] r by simp_all
  show ?thesis
  proof (cases res)
    case None
    have own: "wb_ownerType b = WorkOwner" using assms(1) by (simp add: governs_def)
    have "ue_workId e = wb_workId b \<Longrightarrow> given (wb_pluginId b) (ue_pluginId e) \<Longrightarrow>
        budget_spend b now (bw_usage W) + ue_costCents e \<le> wb_monthlyCapCents b"
      using admitted_within [OF assms(1-3)] r None by simp
    then show ?thesis using assms(4) r None same by (simp add: paid_call_def budget_spend_work [OF own] total_spend_snoc)
  qed (use r same assms(4) in \<open>simp add: paid_call_def\<close>)
qed

lemma paid_calls_within:
  assumes "governs i b (bw_budgets W)" "\<not> wb_allowOverage b" "list_all (honest_call now) calls"
    and "budget_spend b now (bw_usage W) \<le> wb_monthlyCapCents b"
  shows "budget_spend b now (bw_usage (fold paid_call calls W)) \<le> wb_monthlyCapCents b"
  using assms
proof (induction calls arbitrary: W)
  case (Cons c calls)
  obtain env call e where c: "c = (env, call, e)" using prod_cases3 by blast
  show ?case using Cons paid_call_within [of i b W now env call e] by (simp add: c)
qed simp

end
