(* ===== verification/Budget_Claims.thy ===== *)
theory Budget_Claims
  imports Budget_Laws
begin

text \<open>
  What budgets promise: their periods partition time, the guard admits exactly the calls within the caps,
  each threshold is announced once per period, and calls that run one after the other with honest estimates
  never pass a hard cap. The last section is about what does not hold.
\<close>

section \<open>A budget to run the properties on\<close>

definition demo_budget :: work_budget where
  "demo_budget = \<lparr>wb_workId = ''w'', wb_scope = GlobalScope, wb_pluginId = None, wb_monthlyCapCents = 100, wb_currency = ''usd'',
     wb_allowOverage = False, wb_ownerType = WorkOwner, wb_ownerId = Some ''w''\<rparr>"

definition demo_usage :: "int \<Rightarrow> string \<Rightarrow> usage_event" where
  "demo_usage cost currency = \<lparr>ue_workId = ''w'', ue_userId = ''u'', ue_agentId = Some ''a'', ue_pluginId = ''p'', ue_costCents = cost,
     ue_currency = currency, ue_ownerType = WorkOwner, ue_ownerId = Some ''w'', ue_outcome = None, ue_occurredAt = 5\<rparr>"

definition demo_guard :: guard_env where
  "demo_guard = \<lparr>ge_now = 5, ge_insertFails = (\<lambda>_ _. False), ge_rivals = (\<lambda>W. W)\<rparr>"

definition demo_call :: "int \<Rightarrow> guard_call" where
  "demo_call est = \<lparr>gc_workId = ''w'', gc_userId = ''u'', gc_capability = ''ai'', gc_pluginId = ''p'',
     gc_estimatedCostCents = Some (Fin (of_int est)), gc_owner = None\<rparr>"

definition demo_world :: "usage_event list \<Rightarrow> budget_world" where
  "demo_world es = \<lparr>bw_budgets = [(''b'', demo_budget)], bw_usage = es, bw_alerts = [], bw_events = []\<rparr>"

lemma demo_applicable [simp]: "applicable_budgets (demo_call est) (bw_budgets (demo_world es)) = [(''b'', demo_budget)]"
  by (simp add: applicable_budgets_def getApplicableBudgets_def findGlobal_def findForPlugin_def find_budget_def demo_call_def demo_world_def demo_budget_def)

lemma demo_month: "month_period_start 5 = 0" "next_month_period_start 5 = 2678400000"
  by (code_simp, code_simp)

lemma demo_spend [simp]:
  "budget_spend demo_budget 5 [demo_usage 60 ''usd''] = 60" "budget_spend demo_budget 5 [demo_usage 200 ''eur''] = 0"
  "budget_spend demo_budget 5 [demo_usage 60 ''usd'', demo_usage 30 ''usd'', demo_usage 30 ''usd''] = 120"
  by (simp_all add: budget_spend_work demo_budget_def total_spend_def demo_usage_def given_def not_failed_def demo_month)

section \<open>The properties\<close>



text \<open>The guard admits a call exactly when every budget that applies to it either allows overage or has
  spent less than its cap this month and would not pass it by the rounded estimate. A refusal names a budget
  that stops the call, with its spend and its cap. Neither failing alert writes nor the writes of others
  change the answer.\<close>

theorem calls_are_admitted_exactly:
  "(fst (checkBudget env call W) = None \<longleftrightarrow>
      (\<forall>(i, b) \<in> set (applicable_budgets call (bw_budgets W)). wb_allowOverage b \<or>
         (budget_spend b (ge_now env) (bw_usage W) < wb_monthlyCapCents b \<and>
          \<not> (js_less (Fin 0) (estimate (gc_estimatedCostCents call)) \<and>
             would_pass (budget_spend b (ge_now env) (bw_usage W)) (estimate (gc_estimatedCostCents call)) (wb_monthlyCapCents b))))) \<and>
   (\<forall>x. fst (checkBudget env call W) = Some x \<longrightarrow>
      (\<exists>(i, b) \<in> set (applicable_budgets call (bw_budgets W)). \<not> wb_allowOverage b \<and> be_scope x = wb_scope b \<and>
         be_pluginId x = wb_pluginId b \<and> be_capCents x = wb_monthlyCapCents b \<and>
         be_currentSpendCents x = budget_spend b (ge_now env) (bw_usage W)))"
proof (intro conjI allI impI)
  show "fst (checkBudget env call W) = None \<longleftrightarrow>
      (\<forall>(i, b) \<in> set (applicable_budgets call (bw_budgets W)). wb_allowOverage b \<or>
         (budget_spend b (ge_now env) (bw_usage W) < wb_monthlyCapCents b \<and>
          \<not> (js_less (Fin 0) (estimate (gc_estimatedCostCents call)) \<and>
             would_pass (budget_spend b (ge_now env) (bw_usage W)) (estimate (gc_estimatedCostCents call)) (wb_monthlyCapCents b))))"
    unfolding checkBudget_admits stops_def by (auto simp: not_le)
  fix x assume "fst (checkBudget env call W) = Some x"
  then obtain ib where "ib \<in> set (applicable_budgets call (bw_budgets W))"
    "stops (estimate (gc_estimatedCostCents call)) (ge_now env) (bw_usage W) (snd ib)"
    "x = exceeded_by call (evaluateBudget ib (ge_now env) (bw_usage W))"
    by (rule checkBudget_refuses)
  then show "\<exists>(i, b) \<in> set (applicable_budgets call (bw_budgets W)). \<not> wb_allowOverage b \<and> be_scope x = wb_scope b \<and>
         be_pluginId x = wb_pluginId b \<and> be_capCents x = wb_monthlyCapCents b \<and>
         be_currentSpendCents x = budget_spend b (ge_now env) (bw_usage W)"
    by (intro bexI [of _ ib]) (auto simp: stops_def exceeded_by_def split: prod.split)
qed

lemma calls_are_admitted_exactly_witness:
  "fst (checkBudget demo_guard (demo_call 50) (demo_world [demo_usage 60 ''usd''])) \<noteq> None \<and>
   fst (checkBudget demo_guard (demo_call 40) (demo_world [demo_usage 60 ''usd''])) = None"
proof -
  have world: "bw_usage (demo_world es) = es" for es by (simp add: demo_world_def)
  have "estimate (gc_estimatedCostCents (demo_call 50)) = Fin 50" "estimate (gc_estimatedCostCents (demo_call 40)) = Fin 40"
    by (simp_all only: demo_call_def guard_call.select_convs estimate_whole) simp_all
  then show ?thesis
    using calls_are_admitted_exactly [of demo_guard "demo_call 50" "demo_world [demo_usage 60 ''usd'']"]
      calls_are_admitted_exactly [of demo_guard "demo_call 40" "demo_world [demo_usage 60 ''usd'']"]
    by (simp add: world demo_guard_def) (simp add: demo_budget_def)
qed



text \<open>C34. A hard cap holds. When the calls of a Work run one after the other under the guard, each of them
  costing no more than its estimate, the month's spend of a budget that governs them never passes its cap,
  however many calls there are.\<close>

theorem hard_caps_hold:
  assumes "governs i b (bw_budgets W)" "\<not> wb_allowOverage b" "list_all (honest_call now) calls"
    and "budget_spend b now (bw_usage W) \<le> wb_monthlyCapCents b"
  shows "budget_spend b now (bw_usage (fold paid_call calls W)) \<le> wb_monthlyCapCents b"
  by (rule paid_calls_within [OF assms])

lemma hard_caps_hold_witness:
  "budget_spend demo_budget 5 (bw_usage (fold paid_call (replicate 3 (demo_guard, demo_call 30, demo_usage 30 ''usd''))
     (demo_world [demo_usage 60 ''usd'']))) \<le> 100"
proof -
  have "governs ''b'' demo_budget (bw_budgets (demo_world [demo_usage 60 ''usd'']))"
    by (simp add: governs_def demo_world_def demo_budget_def findGlobal_def find_budget_def)
  moreover have "honest_call 5 (demo_guard, demo_call 30, demo_usage 30 ''usd'')"
    unfolding honest_call_def prod.case demo_call_def guard_call.select_convs estimate_whole
    by (simp add: demo_usage_def demo_guard_def same_month_def)
  moreover have start: "budget_spend demo_budget 5 (bw_usage (demo_world [demo_usage 60 ''usd''])) \<le> wb_monthlyCapCents demo_budget"
    by (simp add: demo_world_def) (simp add: demo_budget_def)
  moreover have soft: "\<not> wb_allowOverage demo_budget" by (simp add: demo_budget_def)
  ultimately have "budget_spend demo_budget 5 (bw_usage (fold paid_call (replicate 3 (demo_guard, demo_call 30, demo_usage 30 ''usd''))
     (demo_world [demo_usage 60 ''usd'']))) \<le> wb_monthlyCapCents demo_budget"
    by (intro hard_caps_hold [of "''b''"]) (simp_all add: list_all_iff start soft)
  then show ?thesis by (simp add: demo_budget_def)
qed

section \<open>What does not hold\<close>

text \<open>Two calls in flight at once are both admitted against the same spend, and pass the cap together: the
  guard reserves nothing.\<close>

lemma calls_in_flight_pass_the_cap:
  "fst (checkBudget demo_guard (demo_call 30) (demo_world [demo_usage 60 ''usd''])) = None \<and>
   wb_monthlyCapCents demo_budget < budget_spend demo_budget 5 ([demo_usage 60 ''usd''] @ replicate 2 (demo_usage 30 ''usd''))"
proof
  show "fst (checkBudget demo_guard (demo_call 30) (demo_world [demo_usage 60 ''usd''])) = None"
    unfolding checkBudget_admits demo_applicable
    by (simp add: stops_def demo_call_def demo_world_def demo_guard_def) (simp add: demo_budget_def)
  show "wb_monthlyCapCents demo_budget < budget_spend demo_budget 5 ([demo_usage 60 ''usd''] @ replicate 2 (demo_usage 30 ''usd''))"
    by (simp add: numeral_2_eq_2) (simp add: demo_budget_def)
qed

text \<open>The summary of an owner adds up all currencies, the guard those of the budget: the page reports a
  blocked budget whose calls the guard admits.\<close>

lemma summary_disagrees_with_guard:
  "bs_blocked (summarizeForOwner (WorkOwner, ''w'') 5 (demo_world [demo_usage 200 ''eur''])) \<and>
   fst (checkBudget demo_guard (demo_call 1) (demo_world [demo_usage 200 ''eur''])) = None"
proof
  show "bs_blocked (summarizeForOwner (WorkOwner, ''w'') 5 (demo_world [demo_usage 200 ''eur'']))"
    by (simp add: summarizeForOwner_def summary_of_def findGlobalForOwner_def find_budget_def getTotalSpendCentsForOwner_def
        total_spend_def given_def not_failed_def demo_month demo_world_def demo_budget_def demo_usage_def)
  show "fst (checkBudget demo_guard (demo_call 1) (demo_world [demo_usage 200 ''eur''])) = None"
    unfolding checkBudget_admits demo_applicable
    by (simp add: stops_def demo_call_def demo_world_def demo_guard_def) (simp add: demo_budget_def)
qed

text \<open>The run precheck never reads the overage flag of an Agent's budget: over the cap a run is refused
  whatever it says.\<close>

lemma agent_overage_is_ignored:
  "checkAgentBudget readable now userId agentId (Some (b\<lparr>ab_allowOverage := x\<rparr>)) es = checkAgentBudget readable now userId agentId (Some b) es"
  by (cases "ab_capCents b") (simp_all add: checkAgentBudget_def Let_def)

end
