(* ===== verification/Spec2Isabelle.thy ===== *)
theory Spec2Isabelle
  imports Task_Claims Merge_Claims Merge_Gate_Claims Workflow_Claims Credit_Claims Cron_Claims Env_Claims Lock_Claims Goal_Findings Fleet_Claims
    Fleet_Ceiling_Claims Budget_Claims
begin

text \<open>
  A verification development for the Ever Works platform: the decision cores of its agent services
  (\<open>packages/agent/src\<close>) and of the rules its applications share (\<open>packages/contracts/src\<close>).

  \<^bold>\<open>How the parts interact.\<close> Agents and people move Tasks through a status machine. A Task whose work is a
  pull request ends at a merge gate, which asks the git facade to merge; the facade obeys the merge
  policy of the scopes around the run and, where the policy or a protected branch says so, a human
  approval recorded in the approval queue. An agent may run a workflow graph. Runs are paid from a
  credit ledger. Agents and upstream syncs are woken by a cron matcher; sweeps and syncs exclude each
  other with a mutex in the database. Members import environment values as pasted \<open>.env\<close> text. Above the
  runs a Goal keeps a loop: a tick per Goal reads its limits, its Tasks and its checklist, and dispatches
  the next Agent runs or stops, within ceilings the person who started it chose. A run may execute on an
  enrolled computer: it waits in a job queue that the computers poll, and a claim on it is a lease that
  lapses unless the computer keeps it alive.

  \<^bold>\<open>Vocabulary.\<close> \<open>Prelude\<close> holds the fact collections (\<open>branch_defs\<close>, \<open>store_simps\<close>, \<open>scope_laws\<close>) and the
  string operations; \<open>Js_Values\<close>, \<open>Js_Number\<close> and \<open>Js_Date\<close> the parts of the JavaScript language the
  sources use: parsed JSON, the conversions between strings and numbers, the UTC calendar. Numbers are
  exact rationals or integers: rounding to binary64 is not modelled. Strings are characters below 256,
  except in the \<open>.env\<close> theories, which work on UTF-16 code units because byte counts matter there. A
  thrown error is a value (a sum or an option), a repository is the table it reads and writes, and
  code that is not in the repository (model providers, the RE2 engine, the clock, generated ids) is an
  argument of the definitions that use it. \<open>Cas_Store\<close> is the locale of a row written by compare-and-set,
  interpreted by the Task table and, for its two kinds of conditional write, by the fleet job table;
  \<open>Js_Json\<close> the length of a JSON text, which the size limits of checklists and job payloads read.

  \<^bold>\<open>The Task status machine\<close> (\<open>tasks-domain/task-transition-path.ts\<close>, \<open>task-transition.service.ts\<close>,
  \<open>task-gates.ts\<close>, \<open>awaiting-owner.ts\<close>). \<open>Task_Path\<close> is the breadth-first search for a shortest legal path;
  \<open>Task_Status\<close> the statuses, the legal moves and the rows; \<open>Task_Transition\<close> the services, with the guards
  in the code's order and the write as a compare-and-set (locale \<open>cas_store\<close>, interpreted by the task
  table); \<open>Task_Machine\<close> the interleavings of any number of callers. \<open>Task_Claims\<close>: a move writes nothing or
  one legal move, whatever happens between the guard and the write; agents are confined; every reachable
  row is well formed; a sync walk reaches its target by a shortest path.

  \<^bold>\<open>The merge path.\<close> \<open>Merge_Policy\<close> and \<open>Merge_Policy_Laws\<close> model the policy layers, their shape guard and the
  decision point (\<open>contracts/src/policy/merge-policy*.ts\<close>, \<open>agent/src/policy\<close>); \<open>Approval_Queue\<close> and
  \<open>Approval_Laws\<close> the queue with its risk scorer and guardrails (\<open>agent-approvals\<close>, \<open>agents/guardrails.ts\<close>);
  \<open>Merge_Approval\<close> the recorded approval of one head commit; \<open>Merge_Facade\<close> the facade (\<open>facades/git.facade.ts\<close>),
  whose two ports are the locales \<open>approval_verifier\<close> and \<open>merge_enforcer\<close>, interpreted by the platform's own
  services; \<open>Merge_Gate\<close> the gate after the checks (\<open>task-merge-gate.service.ts\<close>). The claims theories prove the
  composition: a provider merge call is pinned to the live head, allowed by the policy, and has a human
  approval wherever one is required.

  \<^bold>\<open>The workflow graph.\<close> \<open>Workflow_Graph\<close> is the validator and the path and mapping language
  (\<open>contracts/src/workflow\<close>), \<open>Workflow_Exec\<close> the executor (\<open>agents/workflow-graph-executor.service.ts\<close>) with the
  node runner and the deciding model as parameters. A run takes at most \<open>maxSteps\<close> steps, never more than
  500, so its fuel is that number. \<open>Workflow_Claims\<close>: the validator decides well-formedness, and every run is a
  path of the graph that ends for the reason it gives.

  \<^bold>\<open>The credit ledger.\<close> \<open>Credit_Ledger\<close> is the repository (\<open>credit-ledger.repository.ts\<close>): movements with a floor
  and ceilings, expiring buckets, cumulative refunds, period totals. \<open>Credit_Laws\<close> and \<open>Credit_Tx\<close> give the
  invariant of the table and each transaction case by case; \<open>Credit_Machine\<close> all writers in any order, with
  the locale \<open>idempotent_writer\<close> for at-least-once delivery; \<open>Credit_Wallet\<close> the abstract wallet that a run
  debit refines; \<open>Credit_Service\<close> the service above it (\<open>credit-ledger.service.ts\<close>), whose sweeps
  \<open>Credit_Sweep\<close> proves to end: the expiry sweep stops after at most 1000 passes, enough for a thousand
  batches of users. \<open>Credit_Refund\<close> is about refund deliveries in any order.

  \<^bold>\<open>Clocks.\<close> \<open>Cron\<close> is the matcher (\<open>missions/cron-matcher.ts\<close>) and the minute walk of the heartbeat
  (\<open>agents/heartbeat-cron.ts\<close>), bounded by its lookahead of 576000 minutes; \<open>Upstream_Schedule\<close> the sync clock
  (\<open>app-works/upstream-schedule.ts\<close>), a client of the locale \<open>slot_source\<close>. Its walk may take 9600 steps;
  sixty suffice, one per minute of the hour it skips. \<open>Cron_Claims\<close>: a heartbeat is the first match, a sync is
  due at a clamped slot plus its jitter. Two consecutive syncs can still be closer than an hour
  (\<open>runs_half_an_hour_apart\<close>).

  \<^bold>\<open>Environment values.\<close> \<open>Dotenv\<close> is the import parser (\<open>app-env/dotenv-parser.ts\<close>) with an index represented by
  the suffix it starts; \<open>Dotenv_Laws\<close> shows that every scan consumes a prefix and counts its line breaks, so
  that the loop ends and numbers its lines truly; \<open>Dotenv_Size\<close> bounds the values and resolves the
  duplicates; \<open>Dotenv_Roundtrip\<close> is a writer for the parser. \<open>Env_Validation\<close> is the validation
  (\<open>app-env/validation.ts\<close>) with its cache of compiled patterns. \<open>Env_Claims\<close>: refusals name their line, the
  last value wins, what is written is read back, the cache never changes an answer. A comment right
  after the equals sign is stored as the value (\<open>comment_after_equals_is_stored\<close>).

  \<^bold>\<open>The mutex.\<close> \<open>Task_Lock\<close> is \<open>cache/distributed-task-lock.service.ts\<close>: its statements on the table and the calls of
  \<open>runExclusive\<close> as processes that interleave them with one clock; \<open>Lock_Laws\<close> the invariant. \<open>Lock_Claims\<close>:
  no two calls hold a live lease of one key, and nothing stays locked for more than a day. Exclusion needs
  the calls on a key to share their maximum lifetime, and a lease shorter than half a minute lapses
  before its first refresh (\<open>heartbeat_in_time\<close>).

  \<^bold>\<open>The Goal loop\<close> (\<open>packages/agent/src/goals\<close>). \<open>Goal_Dod\<close> is the checklist of a Goal, its rollup, validator and
  normalizer (\<open>goal-dod.ts\<close>); \<open>Goal_Rules\<close> the decision of one tick with its stops in their order
  (\<open>goal-orchestrator-rules.ts\<close>); \<open>Goal_Loop\<close> the tick itself over the tables it reads and writes, and
  \<open>Goal_Control\<close> the limits, the checklist operations, the lifecycle and the sweep over due Goals
  (\<open>goal-orchestrator.service.ts\<close>); \<open>Goal_Kind\<close> the kinds and the creation of a Goal (\<open>goal-kind.ts\<close>,
  \<open>goals.service.ts\<close>). \<open>Goal_Machine\<close> lets ticks, requests and the rest of the platform interleave in any order;
  \<open>Goal_Safety\<close> is the invariant of its reachable worlds. \<open>Goal_Claims\<close>: a dispatch fills exactly the free slots
  when every stop is clear, stored rows stay lawful, the runs of a Goal stay under the ceiling of ten, a
  proposal changes nothing until a person accepts it, a stalled loop stops, and one failing Goal does not
  stop the sweep. The tick sees a window of 500 Tasks; \<open>Goal_Findings\<close> proves what that window and the
  uncounted refusals let through.

  \<^bold>\<open>The fleet's job queue\<close> (\<open>packages/agent/src/fleet/fleet-job.service.ts\<close>, \<open>fleet-job.repository.ts\<close>,
  \<open>fleet-node-credential.ts\<close>, \<open>packages/contracts/src/fleet\<close>). \<open>Fleet_Values\<close> is the contract of a job (kinds,
  statuses, clamps, capability tags), \<open>Fleet_Limits\<close> the daemon versions and the usage limits of model
  programs, \<open>Fleet_Nodes\<close> the credential of a computer, \<open>Fleet_Jobs\<close> the statements of the repository as
  conditional updates and ordered selections, \<open>Fleet_Service\<close> enqueueing and the two sweeps, \<open>Fleet_Lease\<close>
  the poll, the heartbeat, the completion, the cancel and the drain. Every call awaits the database
  several times, and other callers write in between: \<open>fe_rivals\<close> is an argument that says what they do at each
  such moment. \<open>Fleet_Machine\<close> states the life of a row (\<open>job_step\<close>) and of the table (\<open>fleet_step\<close>); \<open>rely\<close> asks
  the rivals to keep to it, and \<open>Fleet_Guarantee\<close> and \<open>Fleet_Calls\<close> prove that every call of the service does,
  so that the two sides fit any number of times (\<open>Fleet_Laws\<close> and \<open>Fleet_Leases\<close> are the
  consequences for rows, polls and the sweep; \<open>Fleet_Demo\<close> a small fleet to run them on). \<open>Fleet_Claims\<close>: the
  calls refine the state machine, reachable rows are lawful and each end is announced once, what a poll
  hands out is eligible and is handed out once, a machine that lost its claim changes nothing, a cancelled
  job is not run, and one sweep gives back what lapsed. The bounds are the code's: at most five jobs per
  poll out of a window of at least five rows, a lease of thirty seconds to an hour, two hundred rows per
  sweep; each loop runs over a list that was read, so no fuel is needed. A call reads its clock once, and
  reading and emptying a batch of old rows is one step. Dates in texts, locale comparison, the hash, the
  patterns for the messages of model programs and the admission of App Works are arguments.
  Its last section proves what the code lets through: a job cancelled while it is held and then drained or
  parked stays queued for good (\<open>cancelled_in_queue_is_stuck\<close>), five such jobs hide all others from a poll,
  and drains spend attempts.

  \<^bold>\<open>Daily ceilings\<close> (\<open>fleet/fleet-cost-ceiling.service.ts\<close>). \<open>Fleet_Ceiling\<close> evaluates the day's model cost of a
  computer and of a fleet after each completion and drains what is at its ceiling, on the same tables as the
  job queue. \<open>Fleet_Ceiling_Laws\<close> gives the exact effect of an evaluation and what a
  day's notices leave behind. \<open>Fleet_Ceiling_Claims\<close>: a ceiling fails closed, stops exactly the computers it covers,
  and a poll of a stopped computer gets nothing; a day has one notice (\<open>one_notice_a_day\<close>). A failed drain is
  announced as done, and two clocks around midnight trip twice.

  \<^bold>\<open>Budgets\<close> (\<open>packages/agent/src/budgets\<close>, \<open>agents/budget-period.ts\<close>). \<open>Calendar\<close> proves the laws of the UTC
  calendar (a date leads back to its day, months partition the days) on which \<open>Budget_Period\<close> shows which
  periods are right; \<open>Budget\<close> is the spend sums, the guard before a plugin call with its alerts, the summaries
  and the precheck of an Agent run; \<open>Budget_Laws\<close> the guard's decision and its invariant. \<open>Budget_Claims\<close>:
  periods partition time, the guard admits exactly the calls within the caps, a threshold is announced once
  per period, and hard caps hold for calls made one after the other (two in flight can pass them). Periods
  of several weeks lose their last days (\<open>weeks_lose_their_end\<close>). Years before 100, which \<open>Date.UTC\<close> moves to
  the twentieth century, are not modelled.

  \<^bold>\<open>Not modelled.\<close> The user interfaces, the HTTP layer, the provider plugins, the job runtimes, the database
  layer beyond the repositories above, and the orchestration of model calls, whose results the code does
  not determine. Logging, metrics and notifications are left out of the modelled functions; where they are
  the observable effect of a branch (events, activity rows) the model keeps them. Column widths and 32-bit
  overflow of the database are not modelled. Of the rules, these are not modelled: the plan allowances and
  the run-cost settlement above the ledger, the registration of computers and their sessions, model
  routing, and the validator of App specs.
\<close>

end
